(* ===== verification/Prelude.thy ===== *)
theory Prelude
  imports Complex_Main "HOL-Library.AList"
begin

text \<open>
  What the components share: Python's exceptions as values, insertion-ordered
  dictionaries as association lists with the laws of a key-value store, the string
  methods the code uses, and a locale for components that are driven by a sequence of
  operations and keep an invariant.
\<close>

section \<open>Hints\<close>

named_theorems dict_simps \<open>lookup and update equations of dictionaries\<close>
named_theorems inv_intros \<open>preservation of component invariants\<close>

section \<open>Exceptions and results\<close>

text \<open>
  The exception classes of the program. A message that the code assembles from texts and
  identifiers is a string; a message that formats numbers keeps the numbers.
\<close>

datatype exn =
    ValueError string
  | DomainValueError string
  | IllegalTransition string string
  | UnmappedBrokerStatus string
  | RuntimeError string
  | InvalidOperation
  | IndexError
  | AttributeError string string
  | External string

type_synonym 'a res = "exn + 'a"

fun exn_text :: "exn \<Rightarrow> string" where
  "exn_text (ValueError m) = m"
| "exn_text (DomainValueError m) = m"
| "exn_text (IllegalTransition a b) = ''Illegal transition: '' @ a @ '' -> '' @ b"
| "exn_text (UnmappedBrokerStatus s) = ''Unmapped broker order status: '' @ s"
| "exn_text (RuntimeError m) = m"
| "exn_text InvalidOperation = ''InvalidOperation''"
| "exn_text IndexError = ''IndexError''"
| "exn_text (AttributeError c a) = ''type object '' @ c @ '' has no attribute '' @ a"
| "exn_text (External m) = m"

text \<open>\<open>except ValueError\<close> catches these.\<close>

fun is_value_error :: "exn \<Rightarrow> bool" where
  "is_value_error (ValueError _) = True"
| "is_value_error (DomainValueError _) = True"
| "is_value_error _ = False"

definition is_ok :: "'e + 'a \<Rightarrow> bool" where
  "is_ok r = (case r of Inl _ \<Rightarrow> False | Inr _ \<Rightarrow> True)"

lemma is_ok_simps [simp]: "\<not> is_ok (Inl e)" "is_ok (Inr x)"
  by (simp_all add: is_ok_def)

section \<open>Dictionaries\<close>

text \<open>
  A Python dictionary keeps the insertion order of its keys: storing under a present key
  keeps its position, storing under a new key appends it.
\<close>

type_synonym ('k, 'v) dict = "('k \<times> 'v) list"

definition dict_get :: "('k, 'v) dict \<Rightarrow> 'k \<Rightarrow> 'v option" where
  "dict_get d k = map_of d k"

definition dict_put :: "('k, 'v) dict \<Rightarrow> 'k \<Rightarrow> 'v \<Rightarrow> ('k, 'v) dict" where
  "dict_put d k v = AList.update k v d"

definition dict_pop :: "('k, 'v) dict \<Rightarrow> 'k \<Rightarrow> ('k, 'v) dict" where
  "dict_pop d k = AList.delete k d"

definition dict_keys :: "('k, 'v) dict \<Rightarrow> 'k list" where
  "dict_keys d = map fst d"

definition dict_values :: "('k, 'v) dict \<Rightarrow> 'v list" where
  "dict_values d = map snd d"

definition dict_wf :: "('k, 'v) dict \<Rightarrow> bool" where
  "dict_wf d \<longleftrightarrow> distinct (map fst d)"

lemma dict_get_nil [simp, dict_simps]: "dict_get [] k = None"
  by (simp add: dict_get_def)

lemma dict_get_put [simp, dict_simps]:
  "dict_get (dict_put d k v) k' = (if k' = k then Some v else dict_get d k')"
  by (simp add: dict_get_def dict_put_def update_conv')

lemma dict_get_pop [simp, dict_simps]:
  "dict_get (dict_pop d k) k' = (if k' = k then None else dict_get d k')"
  by (simp add: dict_get_def dict_pop_def delete_conv')

lemma dict_wf_nil [simp]: "dict_wf []"
  by (simp add: dict_wf_def)

lemma dict_wf_put [simp, inv_intros]: "dict_wf d \<Longrightarrow> dict_wf (dict_put d k v)"
  by (simp add: dict_wf_def dict_put_def distinct_update)

lemma dict_wf_pop [simp, inv_intros]: "dict_wf d \<Longrightarrow> dict_wf (dict_pop d k)"
  by (simp add: dict_wf_def dict_pop_def distinct_delete)

lemma dict_mem: "dict_wf d \<Longrightarrow> (k, v) \<in> set d \<longleftrightarrow> dict_get d k = Some v"
  by (simp add: dict_wf_def dict_get_def)

lemma dict_values_mem: "dict_wf d \<Longrightarrow> v \<in> set (dict_values d) \<longleftrightarrow> (\<exists>k. dict_get d k = Some v)"
  by (force simp: dict_values_def dict_mem[symmetric])

text \<open>
  The contract the stores of the program share, stated for any representation: what a
  lookup returns after a store and after a removal.
\<close>

locale kv_store =
  fixes get :: "'s \<Rightarrow> 'k \<Rightarrow> 'v option"
    and put :: "'s \<Rightarrow> 'k \<Rightarrow> 'v \<Rightarrow> 's"
    and del :: "'s \<Rightarrow> 'k \<Rightarrow> 's"
  assumes get_put: "get (put s k v) k' = (if k' = k then Some v else get s k')"
    and get_del: "get (del s k) k' = (if k' = k then None else get s k')"
begin

lemma get_put_same: "get (put s k v) k = Some v"
  by (simp add: get_put)

lemma get_put_other: "k' \<noteq> k \<Longrightarrow> get (put s k v) k' = get s k'"
  by (simp add: get_put)

lemma get_put_put: "get (put (put s k v) k w) k' = get (put s k w) k'"
  by (simp add: get_put)

lemma get_put_del: "get (put (del s k) k v) k' = get (put s k v) k'"
  by (simp add: get_put get_del)

lemma get_fold_put:
  "distinct (map fst kvs) \<Longrightarrow>
   get (fold (\<lambda>(k, v) s. put s k v) kvs s) k = (case map_of kvs k of None \<Rightarrow> get s k | Some v \<Rightarrow> Some v)"
proof (induction kvs arbitrary: s)
  case (Cons kv kvs)
  obtain a b where kv: "kv = (a, b)" by (cases kv)
  show ?case
  proof (cases "k = a")
    case True
    then have "map_of kvs k = None" using Cons.prems by (simp add: kv map_of_eq_None_iff)
    then show ?thesis using Cons True by (simp add: kv get_put)
  next
    case False
    then show ?thesis using Cons by (simp add: kv get_put cong: option.case_cong)
  qed
qed simp

end

interpretation dict: kv_store dict_get dict_put dict_pop
  by unfold_locales simp_all

section \<open>Components driven by operations\<close>

text \<open>
  Running a list of operations, and the induction every invariant proof of a component
  needs, once for all of them.
\<close>

fun run_ops :: "('s \<Rightarrow> 'op \<Rightarrow> 's) \<Rightarrow> 's \<Rightarrow> 'op list \<Rightarrow> 's" where
  "run_ops step s [] = s"
| "run_ops step s (x # xs) = run_ops step (step s x) xs"

lemma run_ops_append: "run_ops step s (xs @ ys) = run_ops step (run_ops step s xs) ys"
  by (induction xs arbitrary: s) auto

locale invariant_system =
  fixes step :: "'s \<Rightarrow> 'op \<Rightarrow> 's" and inv :: "'s \<Rightarrow> bool"
  assumes inv_step: "inv s \<Longrightarrow> inv (step s x)"
begin

lemma inv_run: "inv s \<Longrightarrow> inv (run_ops step s xs)"
  by (induction xs arbitrary: s) (auto intro: inv_step)

end

text \<open>A quantity that no operation decreases does not decrease over a run.\<close>

locale monotone_system =
  fixes step :: "'s \<Rightarrow> 'op \<Rightarrow> 's" and meas :: "'s \<Rightarrow> 'm :: preorder"
  assumes meas_step: "meas s \<le> meas (step s x)"
begin

lemma meas_run: "meas s \<le> meas (run_ops step s xs)"
proof (induction xs arbitrary: s)
  case (Cons x xs)
  have "meas s \<le> meas (step s x)" by (rule meas_step)
  also have "\<dots> \<le> meas (run_ops step (step s x) xs)" by (rule Cons.IH)
  finally show ?case by simp
qed simp

end

text \<open>
  Redelivery: an operation is absorbed by a state when it changes nothing there. Where
  every operation is absorbed once it has run, and stays absorbed, running any of the
  operations again, in any order and any number of times, changes nothing.
\<close>

locale redelivery =
  fixes step :: "'s \<Rightarrow> 'op \<Rightarrow> 's" and absorbed :: "'s \<Rightarrow> 'op \<Rightarrow> bool" and inv :: "'s \<Rightarrow> bool"
  assumes absorbed_skip: "absorbed s x \<Longrightarrow> step s x = s"
    and absorbed_after: "inv s \<Longrightarrow> absorbed (step s x) x"
    and absorbed_stays: "inv s \<Longrightarrow> absorbed s x \<Longrightarrow> absorbed (step s y) x"
    and inv_kept: "inv s \<Longrightarrow> inv (step s x)"
begin

lemma absorbed_run: "inv s \<Longrightarrow> absorbed s x \<Longrightarrow> absorbed (run_ops step s ys) x"
  by (induction ys arbitrary: s) (auto intro: absorbed_stays inv_kept)

lemma absorbed_mem: "inv s \<Longrightarrow> x \<in> set xs \<Longrightarrow> absorbed (run_ops step s xs) x"
  by (induction xs arbitrary: s) (auto intro: absorbed_run absorbed_after inv_kept)

lemma skip_all: "(\<And>x. x \<in> set xs \<Longrightarrow> absorbed s x) \<Longrightarrow> run_ops step s xs = s"
  by (induction xs) (auto simp: absorbed_skip)

lemma redelivered: "inv s \<Longrightarrow> set ys \<subseteq> set xs \<Longrightarrow> run_ops step s (xs @ ys) = run_ops step s xs"
  by (simp add: run_ops_append) (rule skip_all, blast intro: absorbed_mem)

end

section \<open>Strings\<close>

text \<open>
  Identifiers are ASCII. \<open>py_strip\<close> and \<open>py_upper\<close> are \<open>str.strip\<close> and
  \<open>str.upper\<close> on ASCII text.
\<close>

definition is_space :: "char \<Rightarrow> bool" where
  "is_space c = (let n = (of_char c :: int) in (9 \<le> n \<and> n \<le> 13) \<or> (28 \<le> n \<and> n \<le> 32))"

definition up_char :: "char \<Rightarrow> char" where
  "up_char c = (let n = (of_char c :: int) in if 97 \<le> n \<and> n \<le> 122 then char_of (n - 32) else c)"

definition py_upper :: "string \<Rightarrow> string" where
  "py_upper s = map up_char s"

definition py_strip :: "string \<Rightarrow> string" where
  "py_strip s = rev (dropWhile is_space (rev (dropWhile is_space s)))"

definition py_replace_char :: "char \<Rightarrow> char \<Rightarrow> string \<Rightarrow> string" where
  "py_replace_char a b s = map (\<lambda>c. if c = a then b else c) s"

lemma up_char_idem [simp]: "up_char (up_char c) = up_char c"
proof -
  have "of_char (char_of (of_char c - 32 :: int) :: char) = (of_char c - 32 :: int)"
    if "97 \<le> (of_char c :: int)" "(of_char c :: int) \<le> 122"
    using that by (subst of_char_of) simp
  then show ?thesis by (auto simp: up_char_def Let_def)
qed

lemma up_char_space [simp]: "is_space (up_char c) = is_space c"
proof -
  have "of_char (char_of (of_char c - 32 :: int) :: char) = (of_char c - 32 :: int)"
    if "97 \<le> (of_char c :: int)" "(of_char c :: int) \<le> 122"
    using that by (subst of_char_of) simp
  then show ?thesis by (auto simp: up_char_def is_space_def Let_def)
qed

lemma py_upper_idem [simp]: "py_upper (py_upper s) = py_upper s"
  by (simp add: py_upper_def)

lemma dropWhile_space_upper: "dropWhile is_space (map up_char s) = map up_char (dropWhile is_space s)"
  by (induction s) auto

lemma py_strip_upper: "py_strip (py_upper s) = py_upper (py_strip s)"
  by (simp add: py_strip_def py_upper_def dropWhile_space_upper rev_map)

lemma dropWhile_idem_hd: "dropWhile P (dropWhile P xs) = dropWhile P xs"
  by (induction xs) auto

lemma hd_dropWhile_not: "dropWhile P xs \<noteq> [] \<Longrightarrow> \<not> P (hd (dropWhile P xs))"
  by (rule hd_dropWhile)

lemma py_strip_idem [simp]: "py_strip (py_strip s) = py_strip s"
proof -
  let ?t = "dropWhile is_space s"
  have "dropWhile is_space (rev (dropWhile is_space (rev ?t))) = rev (dropWhile is_space (rev ?t))"
  proof (cases "dropWhile is_space (rev ?t) = []")
    case False
    obtain ys where ys: "rev ?t = ys @ dropWhile is_space (rev ?t)"
      by (metis takeWhile_dropWhile_id)
    define D where "D = dropWhile is_space (rev ?t)"
    have "rev (rev ?t) = rev (ys @ D)" using ys unfolding D_def by (rule arg_cong)
    then have t: "?t = rev D @ rev ys" by simp
    have ne: "rev D \<noteq> []" using False by (simp add: D_def)
    then have "?t \<noteq> []" "hd (rev D) = hd ?t" unfolding t by simp_all
    then have "\<not> is_space (hd (rev D))" using hd_dropWhile[of is_space s] by simp
    then have "dropWhile is_space (rev D) = rev D" using ne by (cases "rev D") auto
    then show ?thesis by (simp only: D_def)
  next
    case True
    then show ?thesis by (simp only: rev.simps dropWhile.simps)
  qed
  then show ?thesis by (simp add: py_strip_def dropWhile_idem_hd)
qed

lemma py_strip_Nil: "py_strip s = [] \<longleftrightarrow> (\<forall>c \<in> set s. is_space c)"
proof -
  define D where "D = dropWhile is_space s"
  have h: "D = [] \<or> \<not> is_space (hd D)" using hd_dropWhile[of is_space s] by (auto simp only: D_def)
  have "py_strip s = [] \<longleftrightarrow> dropWhile is_space (rev D) = []"
    by (simp only: py_strip_def D_def rev_is_Nil_conv)
  also have "\<dots> \<longleftrightarrow> (\<forall>c \<in> set D. is_space c)" by (simp only: dropWhile_eq_Nil_conv set_rev)
  also have "\<dots> \<longleftrightarrow> D = []" using h by (cases D) auto
  also have "\<dots> \<longleftrightarrow> (\<forall>c \<in> set s. is_space c)" unfolding D_def by (rule dropWhile_eq_Nil_conv)
  finally show ?thesis .
qed

text \<open>The decimal text of a natural number, with its reader.\<close>

definition digit_char :: "nat \<Rightarrow> char" where
  "digit_char d = char_of (48 + d)"

fun show_nat :: "nat \<Rightarrow> string" where
  "show_nat n = (if n < 10 then [digit_char n] else show_nat (n div 10) @ [digit_char (n mod 10)])"

declare show_nat.simps [simp del]

definition read_nat :: "string \<Rightarrow> nat" where
  "read_nat s = foldl (\<lambda>a c. 10 * a + (of_char c - 48)) 0 s"

lemma of_digit_char: "d < 10 \<Longrightarrow> of_char (digit_char d) = 48 + d"
  unfolding digit_char_def by (subst of_char_of) simp

lemma read_show_nat [simp]: "read_nat (show_nat n) = n"
proof (induction n rule: show_nat.induct)
  case (1 n)
  then show ?case using of_digit_char[of n] of_digit_char[of "n mod 10"]
    by (subst show_nat.simps) (simp add: read_nat_def)
qed

lemma show_nat_inject [simp]: "show_nat m = show_nat n \<longleftrightarrow> m = n"
  by (metis read_show_nat)

section \<open>Numbers\<close>

text \<open>\<open>int(d)\<close> truncates towards zero.\<close>

definition trunc_int :: "rat \<Rightarrow> int" where
  "trunc_int q = (if 0 \<le> q then \<lfloor>q\<rfloor> else \<lceil>q\<rceil>)"

lemma trunc_int_of_int [simp]: "trunc_int (of_int k) = k"
  by (simp add: trunc_int_def)

lemma trunc_int_numerals [simp]:
  "trunc_int 0 = 0" "trunc_int 1 = 1" "trunc_int (numeral n) = numeral n"
  "trunc_int (- numeral n) = - numeral n"
  by (simp_all add: trunc_int_def)

lemma trunc_int_arith [simp]:
  "trunc_int (of_int a + of_int b) = a + b" "trunc_int (of_int a - of_int b) = a - b"
  "trunc_int (- of_int a) = - a"
  using trunc_int_of_int[of "a + b"] trunc_int_of_int[of "a - b"] trunc_int_of_int[of "- a"]
  by (simp_all only: of_int_add of_int_diff of_int_minus)

lemma trunc_int_mono: "x \<le> y \<Longrightarrow> trunc_int x \<le> trunc_int y"
proof -
  assume le: "x \<le> y"
  consider "0 \<le> x" "0 \<le> y" | "x < 0" "0 \<le> y" | "x < 0" "y < 0" using le by linarith
  then show ?thesis
  proof cases
    case 1 then show ?thesis using floor_mono[OF le] by (simp add: trunc_int_def)
  next
    case 2
    then have "\<lceil>x\<rceil> \<le> 0" "0 \<le> \<lfloor>y\<rfloor>" by simp_all
    then show ?thesis using 2 by (auto simp only: trunc_int_def split: if_splits)
  next
    case 3 then show ?thesis using ceiling_mono[OF le] by (simp add: trunc_int_def)
  qed
qed

lemma trunc_int_nonneg: "0 \<le> x \<Longrightarrow> 0 \<le> trunc_int x"
  by (simp add: trunc_int_def)

lemma trunc_int_le: "0 \<le> x \<Longrightarrow> of_int (trunc_int x) \<le> x"
  by (simp add: trunc_int_def)

end
