(* ===== verification/Rounding.thy ===== *)
theory Rounding
  imports Complex_Main
begin

text \<open>
  Rounding of exact rational numbers to a floating-point format with base \<open>b\<close> and
  \<open>p\<close> significant digits, ties to even. Python's \<open>decimal.Decimal\<close> in its default
  context is the instance with base 10 and 28 digits; the binary64 numbers behind
  Python's \<open>float\<close> are the instance with base 2 and 53 digits. A number of the program
  is modelled by the rational it denotes; every arithmetic operation of the program is
  the exact operation followed by this rounding. The range limits of the two formats
  (overflow to infinity, subnormal results) are not modelled.
\<close>

section \<open>Definitions\<close>

text \<open>Number of digits of a positive integer in base \<open>b\<close>.\<close>

fun ndig :: "nat \<Rightarrow> nat \<Rightarrow> nat" where
  "ndig b n = (if b < 2 \<or> n < b then 1 else Suc (ndig b (n div b)))"

declare ndig.simps [simp del]

text \<open>Round half to even.\<close>

definition rhe :: "rat \<Rightarrow> int" where
  "rhe x = (let f = \<lfloor>x\<rfloor>; d = x - of_int f in
     if d < 1 / 2 then f else if 1 / 2 < d then f + 1 else if even f then f else f + 1)"

text \<open>The exponent \<open>k\<close> with \<open>b\<^bsup>k-1\<^esup> \<le> x < b\<^bsup>k\<^esup>\<close>, for positive \<open>x\<close>.\<close>

definition adj :: "nat \<Rightarrow> rat \<Rightarrow> int" where
  "adj b x = (let (n, d) = quotient_of x; k = int (ndig b (nat n)) - int (ndig b (nat d)) in
     if x < power_int (of_nat b) k then k else k + 1)"

definition round_to :: "nat \<Rightarrow> nat \<Rightarrow> rat \<Rightarrow> rat" where
  "round_to b p x = (if x = 0 then 0 else
     let e = adj b \<bar>x\<bar> - int p; u = power_int (of_nat b) e in of_int (rhe (x / u)) * u)"

text \<open>The numbers of the format: at most \<open>p\<close> digits times a power of the base.\<close>

definition representable :: "nat \<Rightarrow> nat \<Rightarrow> rat \<Rightarrow> bool" where
  "representable b p x \<longleftrightarrow>
     (\<exists>m e. x = of_int m * power_int (of_nat b) e \<and> \<bar>m\<bar> \<le> int b ^ p)"

section \<open>Round half to even\<close>

lemma rhe_of_int [simp]: "rhe (of_int k) = k"
  by (simp add: rhe_def)

lemma rhe_cases: "rhe x = \<lfloor>x\<rfloor> \<or> rhe x = \<lfloor>x\<rfloor> + 1"
  by (simp add: rhe_def Let_def)

lemma rhe_error: "\<bar>of_int (rhe x) - x\<bar> \<le> 1 / 2"
proof -
  have "of_int \<lfloor>x\<rfloor> \<le> x" "x < of_int \<lfloor>x\<rfloor> + 1" by linarith+
  then show ?thesis unfolding rhe_def Let_def by auto (linarith+)?
qed

lemma rhe_minus: "rhe (- x) = - rhe x"
proof (cases "x = of_int \<lfloor>x\<rfloor>")
  case True
  then obtain k where x: "x = of_int k" by blast
  then have "- x = of_int (- k)" by simp
  then show ?thesis using x rhe_of_int by (metis rhe_of_int)
next
  case False
  have f: "\<lfloor>- x\<rfloor> = - \<lfloor>x\<rfloor> - 1"
    using False by linarith
  show ?thesis unfolding rhe_def Let_def f by (auto simp: field_simps)
qed

lemma rhe_mono: "x \<le> y \<Longrightarrow> rhe x \<le> rhe y"
proof -
  assume le: "x \<le> y"
  then have fl: "\<lfloor>x\<rfloor> \<le> \<lfloor>y\<rfloor>" by (rule floor_mono)
  show ?thesis
  proof (cases "\<lfloor>x\<rfloor> = \<lfloor>y\<rfloor>")
    case True
    then show ?thesis using le unfolding rhe_def Let_def by auto
  next
    case False
    with fl have "\<lfloor>x\<rfloor> + 1 \<le> \<lfloor>y\<rfloor>" by simp
    then show ?thesis using rhe_cases[of x] rhe_cases[of y] by linarith
  qed
qed

section \<open>Digits and exponents\<close>

lemma ndig_pos: "1 \<le> ndig b n"
  by (subst ndig.simps) simp

lemma ndig_upper: "2 \<le> b \<Longrightarrow> n < b ^ ndig b n"
proof (induction b n rule: ndig.induct)
  case (1 b n)
  show ?case
  proof (cases "n < b")
    case True
    then show ?thesis by (subst ndig.simps) simp
  next
    case False
    with 1 have IH: "n div b < b ^ ndig b (n div b)" by simp
    have "n = b * (n div b) + n mod b" by simp
    also have "\<dots> < b * (n div b) + b"
      using 1(2) mod_less_divisor[of b n] by linarith
    also have "\<dots> = b * (n div b + 1)" by simp
    also have "\<dots> \<le> b * b ^ ndig b (n div b)" using IH by (intro mult_le_mono2) simp
    finally show ?thesis using False 1(2) by (subst ndig.simps) simp
  qed
qed

lemma ndig_lower: "2 \<le> b \<Longrightarrow> 0 < n \<Longrightarrow> b ^ (ndig b n - 1) \<le> n"
proof (induction b n rule: ndig.induct)
  case (1 b n)
  show ?case
  proof (cases "n < b")
    case True
    then show ?thesis using 1 by (subst ndig.simps) simp
  next
    case False
    then have "0 < n div b" using 1(2) by (simp add: div_greater_zero_iff)
    with False 1 have IH: "b ^ (ndig b (n div b) - 1) \<le> n div b" by simp
    have "b ^ ndig b (n div b) = b * b ^ (ndig b (n div b) - 1)"
      using ndig_pos[of b "n div b"] by (cases "ndig b (n div b)") auto
    also have "\<dots> \<le> b * (n div b)" using IH by simp
    also have "\<dots> \<le> n" by simp
    finally show ?thesis using False 1(2) by (subst ndig.simps) simp
  qed
qed

text \<open>The digit count on integers, for evaluation.\<close>

function ndig_int :: "int \<Rightarrow> int \<Rightarrow> nat" where
  "ndig_int b n = (if b < 2 \<or> n < b then 1 else Suc (ndig_int b (n div b)))"
  by pat_completeness auto
termination
  by (relation "measure (\<lambda>(b, n). nat n)") (auto simp: int_one_le_iff_zero_less intro!: int_div_less_self)

declare ndig_int.simps [simp del]

lemma ndig_int_eq: "ndig_int (int b) (int n) = ndig b n"
proof (induction b n rule: ndig.induct)
  case (1 b n)
  show ?case using 1 ndig_int.simps[of "int b" "int n"] ndig.simps[of b n]
    by (auto simp: zdiv_int[symmetric])
qed

lemma ndig_nat: "ndig b (nat n) = ndig_int (int b) (max 0 n)"
  using ndig_int_eq[of b "nat n"] by (simp add: max_def split: if_splits)

lemma adj_code [code]:
  "adj b x = (let (n, d) = quotient_of x;
       k = int (ndig_int (int b) (max 0 n)) - int (ndig_int (int b) (max 0 d)) in
     if x < power_int (of_nat b) k then k else k + 1)"
  by (simp add: adj_def ndig_nat)

text \<open>A format: a base of at least two and at least one digit.\<close>

locale float_format =
  fixes b p :: nat
  assumes base: "2 \<le> b" and prec: "1 \<le> p"
begin

lemma b_pos [simp]: "0 < b" and b_ge_1 [simp]: "Suc 0 \<le> b" and b_gt_1 [simp]: "Suc 0 < b"
  and B_gt_1 [simp]: "1 < (of_nat b :: rat)"
  and B_ne [simp]: "(of_nat b :: rat) \<noteq> 0" and b_ne [simp]: "b \<noteq> 0"
  using base by auto

lemma powi_pos [simp]: "0 < power_int (of_nat b :: rat) k"
  by (simp add: power_int_def)

lemma powi_ne [simp]: "power_int (of_nat b :: rat) k \<noteq> 0"
  using powi_pos[of k] by linarith

lemma powi_less_iff: "power_int (of_nat b :: rat) j < power_int (of_nat b) k \<longleftrightarrow> j < k"
  by (meson B_gt_1 less_le_not_le linorder_not_le power_int_strict_increasing power_int_increasing)

lemma powi_split: "power_int (of_nat b :: rat) (j + k) = power_int (of_nat b) j * power_int (of_nat b) k"
  by (simp add: power_int_add)

lemma powi_scale: "of_int (int b ^ n) * power_int (of_nat b :: rat) e = power_int (of_nat b) (int n + e)"
  unfolding powi_split by simp

lemma adj_bounds:
  assumes "0 < x"
  shows "power_int (of_nat b) (adj b x - 1) \<le> x" "x < power_int (of_nat b) (adj b x)"
proof -
  obtain n d where q: "quotient_of x = (n, d)" by fastforce
  have d: "0 < d" using q by (rule quotient_of_denom_pos)
  have x: "x = of_int n / of_int d" using q by (rule quotient_of_div)
  have n: "0 < n" using assms d x by (simp add: zero_less_divide_iff)
  define N D where "N = nat n" and "D = nat d"
  have ND: "0 < N" "0 < D" "x = of_nat N / of_nat D"
    using n d x by (simp_all add: N_def D_def)
  define i j where "i = ndig b N" and "j = ndig b D"
  have ij: "1 \<le> i" "1 \<le> j" unfolding i_def j_def by (rule ndig_pos)+
  have N: "of_nat b ^ (i - 1) \<le> (of_nat N :: rat)" "(of_nat N :: rat) < of_nat b ^ i"
    using ndig_lower[OF base ND(1)] ndig_upper[OF base, of N]
    by (metis i_def of_nat_le_iff of_nat_less_iff of_nat_power)+
  have D: "of_nat b ^ (j - 1) \<le> (of_nat D :: rat)" "(of_nat D :: rat) < of_nat b ^ j"
    using ndig_lower[OF base ND(2)] ndig_upper[OF base, of D]
    by (metis j_def of_nat_le_iff of_nat_less_iff of_nat_power)+
  have ub: "x < power_int (of_nat b) (int i - int j + 1)"
  proof -
    have "x < of_nat b ^ i / of_nat b ^ (j - 1)"
      unfolding ND(3) using N D ND by (intro frac_less) auto
    also have "\<dots> = power_int (of_nat b) (int i - int (j - 1))"
      by (simp add: power_int_diff)
    also have "int i - int (j - 1) = int i - int j + 1" using ij by simp
    finally show ?thesis .
  qed
  have lb: "power_int (of_nat b) (int i - int j - 1) \<le> x"
  proof -
    have "int i - int j - 1 = int (i - 1) - int j" using ij by simp
    then have "power_int (of_nat b) (int i - int j - 1) = of_nat b ^ (i - 1) / (of_nat b ^ j :: rat)"
      by (simp only: power_int_diff power_int_of_nat B_ne simp_thms disj_not1)
    also have "\<dots> \<le> x" unfolding ND(3) using N D ND by (intro frac_le) auto
    finally show ?thesis .
  qed
  have a: "adj b x = (if x < power_int (of_nat b) (int i - int j) then int i - int j else int i - int j + 1)"
    by (simp add: adj_def q i_def j_def N_def D_def)
  show "power_int (of_nat b) (adj b x - 1) \<le> x" "x < power_int (of_nat b) (adj b x)"
    using lb ub unfolding a by (auto simp: linorder_not_less)
qed

lemma adj_unique:
  assumes "power_int (of_nat b) (k - 1) \<le> x" "x < power_int (of_nat b) k"
  shows "adj b x = k"
proof -
  have "0 < x" using assms(1) powi_pos less_le_trans by blast
  note a = adj_bounds[OF this]
  have "k - 1 < adj b x" using assms(1) a(2) powi_less_iff by (meson le_less_trans)
  moreover have "adj b x - 1 < k" using assms(2) a(1) powi_less_iff by (meson le_less_trans)
  ultimately show ?thesis by simp
qed

lemma adj_mono: "0 < x \<Longrightarrow> x \<le> y \<Longrightarrow> adj b x \<le> adj b y"
proof -
  assume x: "0 < x" and y: "x \<le> y"
  then have "0 < y" by simp
  have "power_int (of_nat b) (adj b x - 1) < (power_int (of_nat b) (adj b y) :: rat)"
    using adj_bounds(1)[OF x] adj_bounds(2)[OF \<open>0 < y\<close>] y by linarith
  then show ?thesis by (simp add: powi_less_iff)
qed

lemma adj_less: "0 < x \<Longrightarrow> x < power_int (of_nat b) k \<Longrightarrow> adj b x \<le> k"
  using adj_bounds(1)[of x] powi_less_iff[of "adj b x - 1" k] by simp

section \<open>Rounding\<close>

lemma round_zero [simp]: "round_to b p 0 = 0"
  by (simp add: round_to_def)

lemma round_minus: "round_to b p (- x) = - round_to b p x"
  by (simp add: round_to_def Let_def rhe_minus)

lemma round_pos_eq:
  "0 < x \<Longrightarrow> round_to b p x = of_int (rhe (x / power_int (of_nat b) (adj b x - int p)))
     * power_int (of_nat b) (adj b x - int p)"
  by (simp add: round_to_def Let_def)

lemma scaled_bounds:
  assumes "0 < x"
  shows "of_int (int b ^ (p - 1)) \<le> x / power_int (of_nat b) (adj b x - int p)"
    and "x / power_int (of_nat b) (adj b x - int p) < of_int (int b ^ p)"
proof -
  let ?u = "power_int (of_nat b :: rat) (adj b x - int p)"
  have "of_int (int b ^ (p - 1)) * ?u = power_int (of_nat b) (adj b x - 1)"
    unfolding powi_scale using prec by (simp add: of_nat_diff)
  then show "of_int (int b ^ (p - 1)) \<le> x / ?u"
    using adj_bounds(1)[OF assms] by (simp add: pos_le_divide_eq)
  have "of_int (int b ^ p) * ?u = power_int (of_nat b) (adj b x)" unfolding powi_scale by simp
  then show "x / ?u < of_int (int b ^ p)"
    using adj_bounds(2)[OF assms] by (simp add: pos_divide_less_eq)
qed

lemma rhe_scaled_bounds:
  assumes "0 < x"
  shows "int b ^ (p - 1) \<le> rhe (x / power_int (of_nat b) (adj b x - int p))"
    and "rhe (x / power_int (of_nat b) (adj b x - int p)) \<le> int b ^ p"
  using rhe_mono[OF scaled_bounds(1)[OF assms]]
    rhe_mono[OF less_imp_le[OF scaled_bounds(2)[OF assms]]]
  by (simp_all only: rhe_of_int)

lemma round_pos_bounds:
  assumes "0 < x"
  shows "power_int (of_nat b) (adj b x - 1) \<le> round_to b p x"
    and "round_to b p x \<le> power_int (of_nat b) (adj b x)"
proof -
  let ?u = "power_int (of_nat b :: rat) (adj b x - int p)"
  have eq: "round_to b p x = of_int (rhe (x / ?u)) * ?u" by (rule round_pos_eq[OF assms])
  have "power_int (of_nat b) (adj b x - 1) = of_int (int b ^ (p - 1)) * ?u"
    unfolding powi_scale using prec by (simp add: of_nat_diff)
  also have "\<dots> \<le> round_to b p x" unfolding eq
    using rhe_scaled_bounds(1)[OF assms] by (intro mult_right_mono) (simp_all only: of_int_le_iff less_imp_le[OF powi_pos])
  finally show "power_int (of_nat b) (adj b x - 1) \<le> round_to b p x" .
  have "round_to b p x \<le> of_int (int b ^ p) * ?u" unfolding eq
    using rhe_scaled_bounds(2)[OF assms] by (intro mult_right_mono) (simp_all only: of_int_le_iff less_imp_le[OF powi_pos])
  also have "\<dots> = power_int (of_nat b) (adj b x)" unfolding powi_scale by simp
  finally show "round_to b p x \<le> power_int (of_nat b) (adj b x)" .
qed

lemma round_pos: "0 < x \<Longrightarrow> 0 < round_to b p x"
  using round_pos_bounds(1)[of x] powi_pos[of "adj b x - 1"] by linarith

lemma round_mono_pos:
  assumes "0 < x" "x \<le> y"
  shows "round_to b p x \<le> round_to b p y"
proof -
  have y: "0 < y" using assms by simp
  show ?thesis
  proof (cases "adj b x = adj b y")
    case True
    have "rhe (x / power_int (of_nat b) (adj b y - int p)) \<le> rhe (y / power_int (of_nat b) (adj b y - int p))"
      using assms by (intro rhe_mono divide_right_mono) (simp_all add: less_imp_le)
    then show ?thesis
      unfolding round_pos_eq[OF assms(1)] round_pos_eq[OF y] True
      by (intro mult_right_mono) (simp_all add: less_imp_le)
  next
    case False
    then have "adj b x \<le> adj b y - 1" using adj_mono[OF assms] by simp
    then have "power_int (of_nat b :: rat) (adj b x) \<le> power_int (of_nat b) (adj b y - 1)"
      by (intro power_int_increasing) (simp_all add: less_imp_le)
    then show ?thesis
      using round_pos_bounds(2)[OF assms(1)] round_pos_bounds(1)[OF y] by linarith
  qed
qed

lemma round_sgn: "0 \<le> x \<Longrightarrow> 0 \<le> round_to b p x" "x \<le> 0 \<Longrightarrow> round_to b p x \<le> 0"
proof -
  show nn: "0 \<le> round_to b p x" if "0 \<le> x" for x
    using that round_pos[of x] by (cases "x = 0") auto
  show "round_to b p x \<le> 0" if "x \<le> 0"
    using nn[of "- x"] that by (simp add: round_minus)
qed

lemma round_mono: "x \<le> y \<Longrightarrow> round_to b p x \<le> round_to b p y"
proof -
  assume le: "x \<le> y"
  consider "0 < x" | "y < 0" | "x \<le> 0" "0 \<le> y" by linarith
  then show ?thesis
  proof cases
    case 1 then show ?thesis using le by (rule round_mono_pos)
  next
    case 2
    then have "round_to b p (- y) \<le> round_to b p (- x)" using le by (intro round_mono_pos) auto
    then show ?thesis by (simp add: round_minus)
  next
    case 3 then show ?thesis using round_sgn order_trans by blast
  qed
qed

lemma round_zero_iff [simp]: "round_to b p x = 0 \<longleftrightarrow> x = 0"
proof
  assume z: "round_to b p x = 0"
  show "x = 0"
  proof (rule ccontr)
    assume "x \<noteq> 0"
    then have "0 < x \<or> 0 < - x" by linarith
    then show False using round_pos[of x] round_pos[of "- x"] z by (auto simp: round_minus)
  qed
qed simp

lemma round_pos_iff [simp]: "0 < round_to b p x \<longleftrightarrow> 0 < x"
  using round_pos[of x] round_sgn(2)[of x] by (cases "0 < x") auto

lemma round_neg_iff [simp]: "round_to b p x < 0 \<longleftrightarrow> x < 0"
  using round_pos_iff[of "- x"] by (simp add: round_minus)

lemma round_nonneg_iff [simp]: "0 \<le> round_to b p x \<longleftrightarrow> 0 \<le> x"
  using round_neg_iff[of x] by (simp add: linorder_not_less[symmetric])

lemma representable_zero [simp]: "representable b p 0"
  unfolding representable_def by (rule exI[of _ 0]) simp

lemma representable_minus: "representable b p (- x) \<longleftrightarrow> representable b p x"
proof -
  have "representable b p (- y)" if "representable b p y" for y
    using that unfolding representable_def by (metis abs_minus_cancel minus_mult_left of_int_minus)
  from this[of x] this[of "- x"] show ?thesis by auto
qed

lemma representable_round: "representable b p (round_to b p x)"
proof -
  have pos: "representable b p (round_to b p x)" if "0 < x" for x
    unfolding representable_def round_pos_eq[OF that]
  proof (intro exI conjI)
    have "0 \<le> rhe (x / power_int (of_nat b) (adj b x - int p))"
      using rhe_scaled_bounds(1)[OF that] by (rule order_trans[rotated]) simp
    then show "\<bar>rhe (x / power_int (of_nat b) (adj b x - int p))\<bar> \<le> int b ^ p"
      using rhe_scaled_bounds(2)[OF that] by simp
  qed (rule refl)
  consider "x = 0" | "0 < x" | "0 < - x" by linarith
  then show ?thesis
  proof cases
    case 3 then show ?thesis using pos[OF 3] by (simp add: round_minus representable_minus)
  qed (auto intro: pos)
qed

lemma round_exact_less:
  assumes x: "x = of_int m * power_int (of_nat b) e" and m: "\<bar>m\<bar> < int b ^ p"
  shows "round_to b p x = x"
proof -
  have pos: "round_to b p x = x"
    if x: "x = of_int m * power_int (of_nat b) e" and m: "0 < m" "m < int b ^ p" for x m
  proof -
    have x0: "0 < x" using x m by simp
    have "x < of_int (int b ^ p) * power_int (of_nat b) e"
      unfolding x using m(2) by (intro mult_strict_right_mono) (simp_all only: of_int_less_iff powi_pos)
    also have "\<dots> = power_int (of_nat b) (int p + e)" by (rule powi_scale)
    finally have "adj b x \<le> int p + e" using x0 by (intro adj_less)
    then obtain i :: nat where i: "e = (adj b x - int p) + int i"
      by (metis add.commute diff_add_cancel diff_ge_0_iff_ge diff_le_eq nonneg_int_cases)
    have "x / power_int (of_nat b) (adj b x - int p) = of_int m * of_nat b ^ i"
      by (subst x, subst i) (simp add: powi_split)
    also have "\<dots> = of_int (m * int b ^ i)" by simp
    finally have "x / power_int (of_nat b) (adj b x - int p) = of_int (m * int b ^ i)" .
    then show ?thesis unfolding round_pos_eq[OF x0]
      by (metis nonzero_divide_eq_eq powi_ne rhe_of_int)
  qed
  consider "m = 0" | "0 < m" | "0 < - m" by linarith
  then show ?thesis
  proof cases
    case 2 then show ?thesis using pos[OF x] m by simp
  next
    case 3
    have "- x = of_int (- m) * power_int (of_nat b) e" using x by simp
    from pos[OF this] 3 m show ?thesis by (simp add: round_minus)
  qed (simp add: x)
qed

lemma round_exact: "representable b p x \<Longrightarrow> round_to b p x = x"
proof -
  assume "representable b p x"
  then obtain m e where x: "x = of_int m * power_int (of_nat b) e" and m: "\<bar>m\<bar> \<le> int b ^ p"
    by (auto simp: representable_def)
  show ?thesis
  proof (cases "\<bar>m\<bar> < int b ^ p")
    case True with x show ?thesis by (rule round_exact_less)
  next
    case False
    then have mm: "m = sgn m * int b ^ p" using m by (metis abs_sgn mult.commute nle_le not_le sgn_mult_abs)
    have "x = of_int (sgn m) * power_int (of_nat b) (int p + e)"
      by (subst x, subst mm) (simp add: powi_split)
    moreover have "\<bar>sgn m\<bar> < int b ^ p"
    proof -
      have "1 < int b ^ p" using base prec by (intro one_less_power) auto
      then show ?thesis by (simp add: sgn_if)
    qed
    ultimately show ?thesis by (rule round_exact_less)
  qed
qed

lemma round_idem [simp]: "round_to b p (round_to b p x) = round_to b p x"
  by (rule round_exact[OF representable_round])

lemma round_of_int: "\<bar>m\<bar> \<le> int b ^ p \<Longrightarrow> round_to b p (of_int m) = of_int m"
  by (rule round_exact) (unfold representable_def, rule exI[of _ m], rule exI[of _ 0], simp)

lemma round_error: "\<bar>round_to b p x - x\<bar> \<le> \<bar>x\<bar> * power_int (of_nat b) (1 - int p) / 2"
proof -
  have pos: "\<bar>round_to b p x - x\<bar> \<le> x * power_int (of_nat b) (1 - int p) / 2" if x: "0 < x" for x
  proof -
    let ?u = "power_int (of_nat b :: rat) (adj b x - int p)"
    have "round_to b p x - x = (of_int (rhe (x / ?u)) - x / ?u) * ?u"
      by (simp add: round_pos_eq[OF x] left_diff_distrib)
    then have "\<bar>round_to b p x - x\<bar> = \<bar>of_int (rhe (x / ?u)) - x / ?u\<bar> * ?u"
      by (simp add: abs_mult less_imp_le)
    also have "\<dots> \<le> 1 / 2 * ?u" using rhe_error by (intro mult_right_mono) (simp_all add: less_imp_le)
    also have "?u = power_int (of_nat b) (adj b x - 1) * power_int (of_nat b) (1 - int p)"
      by (simp flip: powi_split)
    also have "1 / 2 * \<dots> \<le> 1 / 2 * (x * power_int (of_nat b) (1 - int p))"
      using adj_bounds(1)[OF x] by (intro mult_left_mono mult_right_mono) (simp_all add: less_imp_le)
    finally show ?thesis by simp
  qed
  consider "x = 0" | "0 < x" | "0 < - x" by linarith
  then show ?thesis
  proof cases
    case 3
    have e: "round_to b p x - x = - (round_to b p (- x) - - x)"
      unfolding round_minus by simp
    have x: "\<bar>x\<bar> = - x" using 3 by simp
    show ?thesis unfolding e abs_minus_cancel x by (rule pos[OF 3])
  qed (use pos in auto)
qed

lemma round_le_representable: "representable b p y \<Longrightarrow> x \<le> y \<Longrightarrow> round_to b p x \<le> y"
  using round_mono[of x y] round_exact[of y] by simp

lemma round_ge_representable: "representable b p y \<Longrightarrow> y \<le> x \<Longrightarrow> y \<le> round_to b p x"
  using round_mono[of y x] round_exact[of y] by simp

end

interpretation dec_format: float_format 10 28
  by unfold_locales simp_all

interpretation flt_format: float_format 2 53
  by unfold_locales simp_all

end
