(* ===== verification/Decimals.thy ===== *)
theory Decimals
  imports Prelude Rounding
begin

text \<open>
  Python's \<open>Decimal\<close> (default context: 28 digits, ties to even) and \<open>float\<close>
  (binary64) arithmetic on the rationals they denote, as instances of
  \<^theory_text>\<open>Rounding\<close>.
  Comparisons, conversion from \<open>int\<close> and construction from a text are exact, so they
  are the operations on rationals. Division is used only where the code has excluded a
  zero divisor.
\<close>

section \<open>Operations\<close>

definition dec :: "rat \<Rightarrow> rat" where
  "dec x = round_to 10 28 x"

definition dec_add :: "rat \<Rightarrow> rat \<Rightarrow> rat" where
  "dec_add a b = dec (a + b)"

definition dec_sub :: "rat \<Rightarrow> rat \<Rightarrow> rat" where
  "dec_sub a b = dec (a - b)"

definition dec_mul :: "rat \<Rightarrow> rat \<Rightarrow> rat" where
  "dec_mul a b = dec (a * b)"

definition dec_div :: "rat \<Rightarrow> rat \<Rightarrow> rat" where
  "dec_div a b = dec (a / b)"

definition dec_abs :: "rat \<Rightarrow> rat" where
  "dec_abs a = dec \<bar>a\<bar>"

definition dec_neg :: "rat \<Rightarrow> rat" where
  "dec_neg a = dec (- a)"

text \<open>\<open>a % b\<close>: the remainder has the sign of \<open>a\<close>; a quotient of more than 28 digits
  raises.\<close>

definition dec_mod :: "rat \<Rightarrow> rat \<Rightarrow> rat res" where
  "dec_mod a b = (let q = trunc_int (a / b) in
     if 10 ^ 28 \<le> \<bar>q\<bar> then Inl InvalidOperation else Inr (dec (a - of_int q * b)))"

text \<open>Rounding half up (away from zero), as used by \<open>quantize\<close>.\<close>

definition half_up :: "rat \<Rightarrow> int" where
  "half_up x = (if 0 \<le> x then \<lfloor>x + 1 / 2\<rfloor> else \<lceil>x - 1 / 2\<rceil>)"

text \<open>
  \<open>d.quantize(Decimal(10)^e, ROUND_HALF_UP)\<close>: the multiple of \<open>10^e\<close> nearest to
  \<open>d\<close>; raises when its coefficient has more than 28 digits.
\<close>

definition dec_quantize :: "int \<Rightarrow> rat \<Rightarrow> rat res" where
  "dec_quantize e x = (let k = half_up (x / power_int 10 e) in
     if 10 ^ 28 \<le> \<bar>k\<bar> then Inl InvalidOperation else Inr (of_int k * power_int 10 e))"

text \<open>\<open>sum(xs, Decimal("0"))\<close>, also the loop \<open>total += x\<close>.\<close>

definition dec_sum :: "rat list \<Rightarrow> rat" where
  "dec_sum xs = foldl dec_add 0 xs"

text \<open>\<open>x / c * 100\<close>, the percentage the risk checks compare.\<close>

definition dec_pct :: "rat \<Rightarrow> rat \<Rightarrow> rat" where
  "dec_pct x c = dec_mul (dec_div x c) 100"

definition flt :: "rat \<Rightarrow> rat" where
  "flt x = round_to 2 53 x"

definition flt_add :: "rat \<Rightarrow> rat \<Rightarrow> rat" where
  "flt_add a b = flt (a + b)"

definition flt_sub :: "rat \<Rightarrow> rat \<Rightarrow> rat" where
  "flt_sub a b = flt (a - b)"

definition flt_mul :: "rat \<Rightarrow> rat \<Rightarrow> rat" where
  "flt_mul a b = flt (a * b)"

definition flt_div :: "rat \<Rightarrow> rat \<Rightarrow> rat" where
  "flt_div a b = flt (a / b)"

section \<open>Facts\<close>

text \<open>A number is a decimal of the context when rounding does not change it.\<close>

definition is_dec :: "rat \<Rightarrow> bool" where
  "is_dec x \<longleftrightarrow> dec x = x"

lemma dec_zero [simp]: "dec 0 = 0"
  by (simp add: dec_def)

lemma dec_minus: "dec (- x) = - dec x"
  by (simp add: dec_def dec_format.round_minus)

lemma dec_mono: "x \<le> y \<Longrightarrow> dec x \<le> dec y"
  by (simp add: dec_def dec_format.round_mono)

lemma dec_idem [simp]: "dec (dec x) = dec x"
  by (simp add: dec_def)

lemma is_dec_dec [simp]: "is_dec (dec x)"
  by (simp add: is_dec_def)

lemma dec_sign [simp]:
  "dec x = 0 \<longleftrightarrow> x = 0" "0 < dec x \<longleftrightarrow> 0 < x" "dec x < 0 \<longleftrightarrow> x < 0"
  "0 \<le> dec x \<longleftrightarrow> 0 \<le> x" "dec x \<le> 0 \<longleftrightarrow> x \<le> 0"
  using dec_format.round_pos_iff[of x] by (simp_all add: dec_def not_less[symmetric] del: dec_format.round_pos_iff)

lemma dec_le: "is_dec y \<Longrightarrow> x \<le> y \<Longrightarrow> dec x \<le> y"
  using dec_mono[of x y] by (simp add: is_dec_def)

lemma dec_ge: "is_dec y \<Longrightarrow> y \<le> x \<Longrightarrow> y \<le> dec x"
  using dec_mono[of y x] by (simp add: is_dec_def)

lemma is_dec_of_int: "\<bar>m\<bar> \<le> 10 ^ 28 \<Longrightarrow> is_dec (of_int m)"
  unfolding is_dec_def dec_def by (rule dec_format.round_of_int) simp

lemma is_dec_scaled:
  assumes "x = of_int m * power_int 10 e" "\<bar>m\<bar> < 10 ^ 28"
  shows "is_dec x"
  unfolding is_dec_def dec_def by (rule dec_format.round_exact_less[of _ m e]) (use assms in simp_all)

lemma is_dec_div_pow: "\<bar>m\<bar> < 10 ^ 28 \<Longrightarrow> is_dec (of_int m / 10 ^ n)"
  by (rule is_dec_scaled[of _ m "- int n"]) (simp_all add: power_int_minus field_simps)

lemma is_dec_simps [simp]: "is_dec 0" "is_dec 1" "is_dec 100"
  using is_dec_of_int[of 0] is_dec_of_int[of 1] is_dec_of_int[of 100] by simp_all

lemma is_dec_numeral [simp]:
  "numeral n \<le> (10 ^ 28 :: int) \<Longrightarrow> is_dec (numeral n)"
  "numeral n \<le> (10 ^ 28 :: int) \<Longrightarrow> is_dec (- numeral n)"
  using is_dec_of_int[of "numeral n"] is_dec_of_int[of "- numeral n"] by simp_all

lemma dec_numeral [simp]:
  "dec 1 = 1" "dec (- 1) = - 1"
  "numeral n \<le> (10 ^ 28 :: int) \<Longrightarrow> dec (numeral n) = numeral n"
  "numeral n \<le> (10 ^ 28 :: int) \<Longrightarrow> dec (- numeral n) = - numeral n"
  using is_dec_of_int[of 1] is_dec_of_int[of "- 1"] is_dec_numeral[of n] by (simp_all add: is_dec_def)

lemma dec_error: "\<bar>dec x - x\<bar> \<le> \<bar>x\<bar> / (2 * 10 ^ 27)"
proof -
  have "\<bar>dec x - x\<bar> \<le> \<bar>x\<bar> * power_int 10 (1 - 28) / 2"
    using dec_format.round_error[of x] by (simp add: dec_def)
  also have "power_int (10 :: rat) (1 - 28) = 1 / 10 ^ 27"
    by (simp add: power_int_def field_simps)
  finally show ?thesis by simp
qed

lemma dec_upper: "0 \<le> x \<Longrightarrow> dec x \<le> x * (1 + 1 / (2 * 10 ^ 27))"
  using dec_error[of x] by (simp add: algebra_simps abs_if split: if_splits)

lemma dec_mul_sign:
  "0 \<le> a \<Longrightarrow> 0 \<le> b \<Longrightarrow> 0 \<le> dec_mul a b" "0 < a \<Longrightarrow> 0 < b \<Longrightarrow> 0 < dec_mul a b"
  by (simp_all add: dec_mul_def)

lemma dec_div_sign: "0 \<le> a \<Longrightarrow> 0 < b \<Longrightarrow> 0 \<le> dec_div a b"
  by (simp add: dec_div_def)

lemma dec_mul_mono: "a \<le> a' \<Longrightarrow> 0 \<le> b \<Longrightarrow> dec_mul a b \<le> dec_mul a' b"
  by (simp add: dec_mul_def dec_mono mult_right_mono)

lemma dec_div_mono: "a \<le> a' \<Longrightarrow> 0 < b \<Longrightarrow> dec_div a b \<le> dec_div a' b"
  by (simp add: dec_div_def dec_mono divide_right_mono)

lemma dec_add_mono: "a \<le> a' \<Longrightarrow> b \<le> b' \<Longrightarrow> dec_add a b \<le> dec_add a' b'"
  by (simp add: dec_add_def dec_mono add_mono)

lemma dec_pct_mono: "a \<le> a' \<Longrightarrow> 0 < c \<Longrightarrow> dec_pct a c \<le> dec_pct a' c"
  by (simp add: dec_pct_def dec_mul_mono dec_div_mono)

lemma dec_sum_nil [simp]: "dec_sum [] = 0"
  by (simp add: dec_sum_def)

lemma dec_sum_snoc: "dec_sum (xs @ [x]) = dec_add (dec_sum xs) x"
  by (simp add: dec_sum_def)

lemma dec_sum_nonneg: "(\<And>x. x \<in> set xs \<Longrightarrow> 0 \<le> x) \<Longrightarrow> 0 \<le> dec_sum xs"
  by (induction xs rule: rev_induct) (auto simp: dec_sum_snoc dec_add_def)

lemma flt_mono: "x \<le> y \<Longrightarrow> flt x \<le> flt y"
  by (simp add: flt_def flt_format.round_mono)

lemma flt_zero [simp]: "flt 0 = 0"
  by (simp add: flt_def)

lemma flt_sign [simp]:
  "flt x = 0 \<longleftrightarrow> x = 0" "0 < flt x \<longleftrightarrow> 0 < x" "flt x < 0 \<longleftrightarrow> x < 0"
  "0 \<le> flt x \<longleftrightarrow> 0 \<le> x" "flt x \<le> 0 \<longleftrightarrow> x \<le> 0"
  using flt_format.round_pos_iff[of x] by (simp_all add: flt_def not_less[symmetric] del: flt_format.round_pos_iff)

lemma flt_idem [simp]: "flt (flt x) = flt x"
  by (simp add: flt_def)

lemma flt_le: "flt y = y \<Longrightarrow> x \<le> y \<Longrightarrow> flt x \<le> y"
  using flt_mono[of x y] by simp

lemma flt_ge: "flt y = y \<Longrightarrow> y \<le> x \<Longrightarrow> y \<le> flt x"
  using flt_mono[of y x] by simp

section \<open>Evaluation\<close>

text \<open>Short numbers are left as they are; the general rounding is evaluated for the others only.\<close>

lemma quotient_scaled:
  assumes "quotient_of x = (n, d)" "c mod d = 0" "0 < c"
  shows "x = of_int (n * (c div d)) / of_int c" "0 < c div d" "c div d \<le> c"
proof -
  have d: "0 < d" using quotient_of_denom_pos[OF assms(1)] .
  have c: "c = d * (c div d)" using assms(2) by (simp add: mod_0_imp_dvd)
  show k: "0 < c div d" using c d assms(3) by (metis zero_less_mult_pos)
  show "c div d \<le> c" using c d k by (smt (verit) mult_le_cancel_right1)
  have "x = of_int n / of_int d" using quotient_of_div[OF assms(1)] .
  also have "\<dots> = of_int (n * (c div d)) / of_int (d * (c div d))" using k by simp
  finally show "x = of_int (n * (c div d)) / of_int c" using c by simp
qed

lemma dec_code [code]:
  "dec x = (case quotient_of x of (n, d) \<Rightarrow>
     if 10000 mod d = 0 \<and> \<bar>n\<bar> < 1000000000000000000000000 then x else round_to 10 28 x)"
proof -
  obtain n d where q: "quotient_of x = (n, d)" by (cases "quotient_of x")
  have "dec x = x" if h: "10000 mod d = 0" "\<bar>n\<bar> < 1000000000000000000000000"
  proof -
    note s = quotient_scaled[OF q h(1)]
    have "\<bar>n * (10000 div d)\<bar> \<le> \<bar>n\<bar> * 10000" using s(2,3) by (simp add: abs_mult mult_left_mono)
    also have "\<dots> < 10 ^ 28" using h(2) by simp
    finally have "is_dec (of_int (n * (10000 div d)) / 10 ^ 4)" by (rule is_dec_div_pow)
    moreover have "x = of_int (n * (10000 div d)) / 10 ^ 4" using s(1) by simp
    ultimately have "is_dec x" by (simp only:)
    then show ?thesis by (simp add: is_dec_def)
  qed
  then show ?thesis by (simp add: q dec_def)
qed

lemma flt_code [code]:
  "flt x = (case quotient_of x of (n, d) \<Rightarrow>
     if 1024 mod d = 0 \<and> \<bar>n\<bar> < 8796093022208 then x else round_to 2 53 x)"
proof -
  obtain n d where q: "quotient_of x = (n, d)" by (cases "quotient_of x")
  have "flt x = x" if h: "1024 mod d = 0" "\<bar>n\<bar> < 8796093022208"
  proof -
    note s = quotient_scaled[OF q h(1)]
    have "\<bar>n * (1024 div d)\<bar> \<le> \<bar>n\<bar> * 1024" using s(2,3) by (simp add: abs_mult mult_left_mono)
    also have "\<dots> < 2 ^ 53" using h(2) by simp
    finally have m: "\<bar>n * (1024 div d)\<bar> \<le> int 2 ^ 53" by simp
    have "x = of_int (n * (1024 div d)) * power_int (of_nat 2) (- 10)" using s(1) by (simp add: power_int_minus)
    with m have "representable 2 53 x" unfolding representable_def by blast
    then show ?thesis unfolding flt_def by (rule flt_format.round_exact)
  qed
  then show ?thesis by (simp add: q flt_def)
qed

end
