(* ===== verification/Primitives.thy ===== *)
theory Primitives
  imports Prelude Decimals
begin

text \<open>
  The value objects \<open>Money\<close> and \<open>Quantity\<close> of \<open>domain/primitives/value_objects.py\<close>,
  the tick-size helper of \<open>domain/value_objects/price.py\<close> and the coercions of
  \<open>domain/entities/_coercion.py\<close>. A value object holds a finite decimal; the loose
  numbers it is combined with may be infinite, not a number, or a text that is no number.
\<close>

section \<open>Loose numbers\<close>

text \<open>\<open>Malformed t\<close> is a value, printed \<open>t\<close>, that \<open>Decimal\<close> does not accept;
  \<open>Infin True\<close> is the positive infinity.\<close>

datatype num_in = Fin rat | Infin bool | NaN | Malformed string

definition to_decimal_in :: "num_in \<Rightarrow> string \<Rightarrow> num_in res" where
  "to_decimal_in v name = (case v of
     Malformed t \<Rightarrow> Inl (DomainValueError (name @ '' must be a finite number, got '' @ t))
   | _ \<Rightarrow> Inr v)"

definition require_finite :: "num_in \<Rightarrow> string \<Rightarrow> rat res" where
  "require_finite v name = (case v of
     Fin a \<Rightarrow> Inr a
   | _ \<Rightarrow> Inl (DomainValueError (name @ '' must be finite'')))"

definition finite_in :: "num_in \<Rightarrow> string \<Rightarrow> rat res" where
  "finite_in v name = (case to_decimal_in v name of Inl e \<Rightarrow> Inl e | Inr d \<Rightarrow> require_finite d name)"

text \<open>Sum and difference with a finite left operand.\<close>

fun in_add :: "rat \<Rightarrow> num_in \<Rightarrow> num_in" where
  "in_add a (Fin b) = Fin (dec_add a b)"
| "in_add a v = v"

fun in_neg :: "num_in \<Rightarrow> num_in" where
  "in_neg (Fin b) = Fin (- b)"
| "in_neg (Infin s) = Infin (\<not> s)"
| "in_neg v = v"

definition in_sub :: "rat \<Rightarrow> num_in \<Rightarrow> num_in" where
  "in_sub a v = in_add a (in_neg v)"

text \<open>\<open>d < 0\<close> and \<open>d <= 0\<close>; comparing a NaN raises.\<close>

fun in_less_0 :: "num_in \<Rightarrow> bool res" where
  "in_less_0 (Fin a) = Inr (a < 0)"
| "in_less_0 (Infin s) = Inr (\<not> s)"
| "in_less_0 v = Inl InvalidOperation"

fun in_le_0 :: "num_in \<Rightarrow> bool res" where
  "in_le_0 (Fin a) = Inr (a \<le> 0)"
| "in_le_0 (Infin s) = Inr (\<not> s)"
| "in_le_0 v = Inl InvalidOperation"

section \<open>Money and Quantity\<close>

record money =
  amount :: rat
  currency :: string

record quantity =
  magnitude :: rat
  qunit :: string

text \<open>An operand: a value object, a number, or anything else.\<close>

datatype operand = MoneyV money | QuantityV quantity | NumV num_in | OtherV

definition TypeError :: exn where
  "TypeError = External ''TypeError''"

definition mk_money :: "num_in \<Rightarrow> string \<Rightarrow> money res" where
  "mk_money v cur = (case finite_in v ''amount'' of
     Inl e \<Rightarrow> Inl e
   | Inr a \<Rightarrow> (let c = py_upper (py_strip cur) in
       if c = [] then Inl (DomainValueError ''currency must be a non-empty string'')
       else Inr \<lparr>amount = a, currency = c\<rparr>))"

definition mk_quantity :: "num_in \<Rightarrow> string \<Rightarrow> quantity res" where
  "mk_quantity v u = (case finite_in v ''magnitude'' of
     Inl e \<Rightarrow> Inl e | Inr a \<Rightarrow> Inr \<lparr>magnitude = a, qunit = u\<rparr>)"

text \<open>\<open>Money.coerce\<close>; \<open>None\<close> is Python's \<open>None\<close>. The text goes to \<open>Decimal\<close>
  directly, so a malformed one raises \<open>InvalidOperation\<close>.\<close>

definition money_coerce :: "operand option \<Rightarrow> string \<Rightarrow> money res" where
  "money_coerce v cur = (case v of
     None \<Rightarrow> mk_money (Fin 0) cur
   | Some (MoneyV m) \<Rightarrow> Inr m
   | Some (QuantityV q) \<Rightarrow> mk_money (Fin (magnitude q)) cur
   | Some (NumV (Malformed t)) \<Rightarrow> Inl InvalidOperation
   | Some (NumV n) \<Rightarrow> mk_money n cur
   | Some OtherV \<Rightarrow> Inl InvalidOperation)"

definition money_add :: "money \<Rightarrow> operand \<Rightarrow> money res" where
  "money_add m v = (case v of
     MoneyV m2 \<Rightarrow>
       if currency m2 \<noteq> currency m
       then Inl (DomainValueError (''cannot add '' @ currency m @ '' and '' @ currency m2 @ ''; currencies differ''))
       else mk_money (Fin (dec_add (amount m) (amount m2))) (currency m)
   | NumV n \<Rightarrow> (case to_decimal_in n ''addend'' of
         Inl e \<Rightarrow> Inl e | Inr d \<Rightarrow> mk_money (in_add (amount m) d) (currency m))
   | _ \<Rightarrow> Inl TypeError)"

definition money_sub :: "money \<Rightarrow> operand \<Rightarrow> money res" where
  "money_sub m v = (case v of
     MoneyV m2 \<Rightarrow>
       if currency m2 \<noteq> currency m
       then Inl (DomainValueError (''cannot subtract '' @ currency m2 @ '' from '' @ currency m @ ''; currencies differ''))
       else mk_money (Fin (dec_sub (amount m) (amount m2))) (currency m)
   | NumV n \<Rightarrow> (case to_decimal_in n ''subtrahend'' of
         Inl e \<Rightarrow> Inl e | Inr d \<Rightarrow> mk_money (in_sub (amount m) d) (currency m))
   | _ \<Rightarrow> Inl TypeError)"

definition money_rsub :: "money \<Rightarrow> operand \<Rightarrow> money res" where
  "money_rsub m v = (case v of
     NumV n \<Rightarrow> (case to_decimal_in n ''minuend'' of
         Inl e \<Rightarrow> Inl e | Inr d \<Rightarrow> mk_money (in_add (- amount m) d) (currency m))
   | _ \<Rightarrow> Inl TypeError)"

definition money_neg :: "money \<Rightarrow> money res" where
  "money_neg m = mk_money (Fin (dec_neg (amount m))) (currency m)"

definition money_mul :: "money \<Rightarrow> operand \<Rightarrow> money res" where
  "money_mul m v = (case v of
     QuantityV q \<Rightarrow> mk_money (Fin (dec_mul (amount m) (magnitude q))) (currency m)
   | NumV n \<Rightarrow> (case finite_in n ''multiplier'' of
         Inl e \<Rightarrow> Inl e | Inr f \<Rightarrow> mk_money (Fin (dec_mul (amount m) f)) (currency m))
   | _ \<Rightarrow> Inl TypeError)"

text \<open>A quotient of two amounts is a plain decimal, a quotient by a number an amount.\<close>

definition money_div :: "money \<Rightarrow> operand \<Rightarrow> (rat + money) res" where
  "money_div m v = (case v of
     MoneyV m2 \<Rightarrow>
       if currency m2 \<noteq> currency m then Inl (DomainValueError ''cannot divide different currencies'')
       else if amount m2 = 0 then Inl (DomainValueError ''cannot divide Money by zero'')
       else Inr (Inl (dec_div (amount m) (amount m2)))
   | NumV n \<Rightarrow> (case finite_in n ''divisor'' of
         Inl e \<Rightarrow> Inl e
       | Inr f \<Rightarrow>
           if f = 0 then Inl (DomainValueError ''cannot divide Money by zero'')
           else (case mk_money (Fin (dec_div (amount m) f)) (currency m) of
                   Inl e \<Rightarrow> Inl e | Inr r \<Rightarrow> Inr (Inr r)))
   | _ \<Rightarrow> Inl TypeError)"

definition money_cmp_amount :: "money \<Rightarrow> operand \<Rightarrow> num_in res" where
  "money_cmp_amount m v = (case v of
     MoneyV m2 \<Rightarrow>
       if currency m2 \<noteq> currency m
       then Inl (DomainValueError (''cannot compare '' @ currency m @ '' and '' @ currency m2 @ ''; currencies differ''))
       else Inr (Fin (dec_sub (amount m) (amount m2)))
   | NumV n \<Rightarrow> (case to_decimal_in n ''other'' of Inl e \<Rightarrow> Inl e | Inr d \<Rightarrow> Inr (in_sub (amount m) d))
   | _ \<Rightarrow> Inl TypeError)"

definition money_eq :: "money \<Rightarrow> operand \<Rightarrow> bool" where
  "money_eq m v = (case v of
     MoneyV m2 \<Rightarrow> currency m = currency m2 \<and> amount m = amount m2 | _ \<Rightarrow> False)"

definition money_lt :: "money \<Rightarrow> operand \<Rightarrow> bool res" where
  "money_lt m v = (case money_cmp_amount m v of Inl e \<Rightarrow> Inl e | Inr d \<Rightarrow> in_less_0 d)"

definition money_le :: "money \<Rightarrow> operand \<Rightarrow> bool res" where
  "money_le m v = (case money_cmp_amount m v of Inl e \<Rightarrow> Inl e | Inr d \<Rightarrow> in_le_0 d)"

definition money_gt :: "money \<Rightarrow> operand \<Rightarrow> bool res" where
  "money_gt m v = (case money_cmp_amount m v of Inl e \<Rightarrow> Inl e | Inr d \<Rightarrow> in_less_0 (in_neg d))"

definition money_ge :: "money \<Rightarrow> operand \<Rightarrow> bool res" where
  "money_ge m v = (case money_cmp_amount m v of Inl e \<Rightarrow> Inl e | Inr d \<Rightarrow> in_le_0 (in_neg d))"

definition money_abs :: "money \<Rightarrow> money res" where
  "money_abs m = mk_money (Fin (dec_abs (amount m))) (currency m)"

definition money_is_zero :: "money \<Rightarrow> bool" where
  "money_is_zero m \<longleftrightarrow> amount m = 0"

definition money_is_positive :: "money \<Rightarrow> bool" where
  "money_is_positive m \<longleftrightarrow> 0 < amount m"

definition money_is_negative :: "money \<Rightarrow> bool" where
  "money_is_negative m \<longleftrightarrow> amount m < 0"

definition quantity_to_int :: "quantity \<Rightarrow> int" where
  "quantity_to_int q = trunc_int (magnitude q)"

definition quantity_add :: "quantity \<Rightarrow> operand \<Rightarrow> quantity res" where
  "quantity_add q v = (case v of
     QuantityV q2 \<Rightarrow>
       if qunit q2 \<noteq> qunit q
       then Inl (DomainValueError (''cannot add unit '' @ qunit q @ '' and '' @ qunit q2 @ ''; units differ''))
       else mk_quantity (Fin (dec_add (magnitude q) (magnitude q2))) (qunit q)
   | NumV n \<Rightarrow> (case to_decimal_in n ''addend'' of
         Inl e \<Rightarrow> Inl e | Inr d \<Rightarrow> mk_quantity (in_add (magnitude q) d) (qunit q))
   | _ \<Rightarrow> Inl TypeError)"

definition quantity_sub :: "quantity \<Rightarrow> operand \<Rightarrow> quantity res" where
  "quantity_sub q v = (case v of
     QuantityV q2 \<Rightarrow>
       if qunit q2 \<noteq> qunit q
       then Inl (DomainValueError (''cannot subtract unit '' @ qunit q2 @ '' from '' @ qunit q @ ''; units differ''))
       else mk_quantity (Fin (dec_sub (magnitude q) (magnitude q2))) (qunit q)
   | NumV n \<Rightarrow> (case to_decimal_in n ''subtrahend'' of
         Inl e \<Rightarrow> Inl e | Inr d \<Rightarrow> mk_quantity (in_sub (magnitude q) d) (qunit q))
   | _ \<Rightarrow> Inl TypeError)"

definition quantity_rsub :: "quantity \<Rightarrow> operand \<Rightarrow> quantity res" where
  "quantity_rsub q v = (case v of
     NumV n \<Rightarrow> (case to_decimal_in n ''minuend'' of
         Inl e \<Rightarrow> Inl e | Inr d \<Rightarrow> mk_quantity (in_add (- magnitude q) d) (qunit q))
   | _ \<Rightarrow> Inl TypeError)"

text \<open>Comparing with a malformed text answers \<open>False\<close>; equality ignores the unit when
  the other side is a plain number.\<close>

definition quantity_eq :: "quantity \<Rightarrow> operand \<Rightarrow> bool" where
  "quantity_eq q v = (case v of
     QuantityV q2 \<Rightarrow> qunit q = qunit q2 \<and> magnitude q = magnitude q2
   | NumV (Fin a) \<Rightarrow> magnitude q = a
   | _ \<Rightarrow> False)"

definition quantity_lt :: "quantity \<Rightarrow> operand \<Rightarrow> bool res" where
  "quantity_lt q v = (case v of
     QuantityV q2 \<Rightarrow>
       if qunit q2 \<noteq> qunit q then Inl (DomainValueError ''cannot compare different units'')
       else Inr (magnitude q < magnitude q2)
   | NumV n \<Rightarrow> (case to_decimal_in n ''other'' of Inl e \<Rightarrow> Inl e
       | Inr (Fin a) \<Rightarrow> Inr (magnitude q < a) | Inr (Infin s) \<Rightarrow> Inr s | Inr _ \<Rightarrow> Inl InvalidOperation)
   | _ \<Rightarrow> Inl TypeError)"

definition quantity_gt :: "quantity \<Rightarrow> operand \<Rightarrow> bool res" where
  "quantity_gt q v = (case v of
     QuantityV q2 \<Rightarrow>
       if qunit q2 \<noteq> qunit q then Inl (DomainValueError ''cannot compare different units'')
       else Inr (magnitude q2 < magnitude q)
   | NumV n \<Rightarrow> (case to_decimal_in n ''other'' of Inl e \<Rightarrow> Inl e
       | Inr (Fin a) \<Rightarrow> Inr (a < magnitude q) | Inr (Infin s) \<Rightarrow> Inr (\<not> s) | Inr _ \<Rightarrow> Inl InvalidOperation)
   | _ \<Rightarrow> Inl TypeError)"

definition quantity_le :: "quantity \<Rightarrow> operand \<Rightarrow> bool res" where
  "quantity_le q v = (if quantity_eq q v then Inr True else quantity_lt q v)"

definition quantity_ge :: "quantity \<Rightarrow> operand \<Rightarrow> bool res" where
  "quantity_ge q v = (if quantity_eq q v then Inr True else quantity_gt q v)"

definition quantity_neg :: "quantity \<Rightarrow> quantity res" where
  "quantity_neg q = mk_quantity (Fin (dec_neg (magnitude q))) (qunit q)"

definition quantity_mul :: "quantity \<Rightarrow> operand \<Rightarrow> quantity res" where
  "quantity_mul q v = (case v of
     NumV n \<Rightarrow> (case finite_in n ''multiplier'' of
         Inl e \<Rightarrow> Inl e | Inr f \<Rightarrow> mk_quantity (Fin (dec_mul (magnitude q) f)) (qunit q))
   | _ \<Rightarrow> Inl TypeError)"

text \<open>A ratio of two quantities does not look at their units.\<close>

definition quantity_div :: "quantity \<Rightarrow> operand \<Rightarrow> (rat + quantity) res" where
  "quantity_div q v = (case v of
     QuantityV q2 \<Rightarrow>
       if magnitude q2 = 0 then Inl (DomainValueError ''cannot divide Quantity by zero'')
       else Inr (Inl (dec_div (magnitude q) (magnitude q2)))
   | NumV n \<Rightarrow> (case finite_in n ''divisor'' of
         Inl e \<Rightarrow> Inl e
       | Inr f \<Rightarrow>
           if f = 0 then Inl (DomainValueError ''cannot divide Quantity by zero'')
           else (case mk_quantity (Fin (dec_div (magnitude q) f)) (qunit q) of
                   Inl e \<Rightarrow> Inl e | Inr r \<Rightarrow> Inr (Inr r)))
   | _ \<Rightarrow> Inl TypeError)"

definition quantity_is_zero :: "quantity \<Rightarrow> bool" where
  "quantity_is_zero q \<longleftrightarrow> magnitude q = 0"

definition quantity_abs :: "quantity \<Rightarrow> quantity res" where
  "quantity_abs q = mk_quantity (Fin (dec_abs (magnitude q))) (qunit q)"

definition quantity_notional :: "quantity \<Rightarrow> money \<Rightarrow> money res" where
  "quantity_notional q unit_price = money_mul unit_price (NumV (Fin (magnitude q)))"

section \<open>Coercions of the entities\<close>

definition as_money :: "operand option \<Rightarrow> money res" where
  "as_money v = (case v of
     None \<Rightarrow> mk_money (Fin 0) ''INR''
   | Some (MoneyV m) \<Rightarrow> Inr m
   | Some (NumV n) \<Rightarrow> mk_money n ''INR''
   | Some _ \<Rightarrow> Inl (DomainValueError ''amount must be a finite number''))"

definition as_quantity :: "operand option \<Rightarrow> quantity res" where
  "as_quantity v = (case v of
     None \<Rightarrow> mk_quantity (Fin 0) []
   | Some (QuantityV q) \<Rightarrow> Inr q
   | Some (NumV n) \<Rightarrow> mk_quantity n []
   | Some _ \<Rightarrow> Inl (DomainValueError ''magnitude must be a finite number''))"

section \<open>Tick sizes\<close>

text \<open>A tick size is given by its coefficient and exponent, \<open>0.05\<close> by \<open>5\<close> and \<open>-2\<close>,
  since \<open>quantize(tick_size)\<close> reads its exponent.\<close>

definition tick_value :: "int \<Rightarrow> int \<Rightarrow> rat" where
  "tick_value c e = of_int c * power_int 10 e"

definition dec_quantize_even :: "int \<Rightarrow> rat \<Rightarrow> rat res" where
  "dec_quantize_even e x = (let k = rhe (x / power_int 10 e) in
     if 10 ^ 28 \<le> \<bar>k\<bar> then Inl InvalidOperation else Inr (of_int k * power_int 10 e))"

definition snap_to_tick :: "rat \<Rightarrow> int \<Rightarrow> int \<Rightarrow> rat res" where
  "snap_to_tick price c e = (let tick_size = tick_value c e in
     if tick_size \<le> 0 then Inl (ValueError ''tick_size must be positive'')
     else if price < 0 then Inl (ValueError ''price must be non-negative'')
     else if price = 0 then Inr 0
     else (case dec_quantize 0 (dec_div price tick_size) of
             Inl x \<Rightarrow> Inl x
           | Inr ticks \<Rightarrow> dec_quantize_even e (dec_mul ticks tick_size)))"

definition is_tick_aligned :: "rat \<Rightarrow> rat \<Rightarrow> rat \<Rightarrow> bool res" where
  "is_tick_aligned price tick_size tolerance =
     (if tick_size \<le> 0 then Inl (ValueError ''tick_size must be positive'')
      else if price < 0 then Inl (ValueError ''price must be non-negative'')
      else if price = 0 then Inr True
      else (case dec_mod price tick_size of
              Inl x \<Rightarrow> Inl x
            | Inr r \<Rightarrow> Inr (r \<le> tolerance \<or> dec_sub tick_size r \<le> tolerance)))"

definition to_wire_float :: "rat \<Rightarrow> int \<Rightarrow> rat res" where
  "to_wire_float price max_decimals =
     (if max_decimals < 0 then Inl (ValueError ''max_decimals must be >= 0'')
      else (case dec_quantize (- max_decimals) price of Inl x \<Rightarrow> Inl x | Inr q \<Rightarrow> Inr (flt q)))"

text \<open>The class \<open>TickSize\<close>; its constructor rejects a tick that is not positive.\<close>

definition mk_tick_size :: "rat \<Rightarrow> rat res" where
  "mk_tick_size v = (if v \<le> 0 then Inl (ValueError ''tick size must be positive'') else Inr v)"

definition tick_size_snap :: "rat \<Rightarrow> rat \<Rightarrow> rat res" where
  "tick_size_snap tick price = (case dec_quantize 0 (dec_div price tick) of
     Inl x \<Rightarrow> Inl x | Inr ticks \<Rightarrow> Inr (dec_mul ticks tick))"

definition tick_size_is_valid_price :: "rat \<Rightarrow> rat \<Rightarrow> bool" where
  "tick_size_is_valid_price tick price \<longleftrightarrow>
     (if tick = 0 then False else (let q = dec_div price tick in q = of_int \<lfloor>q\<rfloor>))"

section \<open>Facts\<close>

text \<open>The amounts the constructor builds.\<close>

definition money_wf :: "money \<Rightarrow> bool" where
  "money_wf m \<longleftrightarrow> currency m \<noteq> [] \<and> py_upper (py_strip (currency m)) = currency m"

lemma finite_in_simps [simp]:
  "finite_in (Fin a) n = Inr a" "is_ok (finite_in (Infin s) n) = False"
  "is_ok (finite_in NaN n) = False" "is_ok (finite_in (Malformed t) n) = False"
  by (simp_all add: finite_in_def to_decimal_in_def require_finite_def)

lemma mk_money_wf: "mk_money v c = Inr m \<Longrightarrow> money_wf m \<and> v = Fin (amount m)"
  by (auto simp: mk_money_def money_wf_def finite_in_def to_decimal_in_def require_finite_def Let_def
      py_strip_upper split: sum.splits if_splits num_in.splits)

lemma mk_money_ok [simp]:
  "money_wf m \<Longrightarrow> mk_money (Fin a) (currency m) = Inr \<lparr>amount = a, currency = currency m\<rparr>"
  by (simp add: mk_money_def money_wf_def)

lemma mk_quantity_ok [simp]: "mk_quantity (Fin a) u = Inr \<lparr>magnitude = a, qunit = u\<rparr>"
  by (simp add: mk_quantity_def)

lemma dec_sub_sign [simp]:
  "dec_sub a b < 0 \<longleftrightarrow> a < b" "dec_sub a b \<le> 0 \<longleftrightarrow> a \<le> b" "dec_sub a b = 0 \<longleftrightarrow> a = b"
  by (simp_all add: dec_sub_def)

lemma half_up_near: "\<bar>of_int (half_up x) - x\<bar> \<le> 1 / 2"
proof (cases "0 \<le> x")
  case True
  have "of_int \<lfloor>x + 1 / 2\<rfloor> \<le> x + 1 / 2" "x + 1 / 2 < of_int \<lfloor>x + 1 / 2\<rfloor> + 1" by linarith+
  then show ?thesis unfolding half_up_def if_P[OF True] by (simp only: abs_le_iff) linarith
next
  case False
  have "x - 1 / 2 \<le> of_int \<lceil>x - 1 / 2\<rceil>" "of_int \<lceil>x - 1 / 2\<rceil> - 1 < x - 1 / 2" by linarith+
  then show ?thesis unfolding half_up_def if_not_P[OF False] by (simp only: abs_le_iff) linarith
qed

lemma half_up_of_int [simp]: "half_up (of_int k) = k"
proof -
  have "\<bar>of_int (half_up (of_int k)) - (of_int k :: rat)\<bar> \<le> 1 / 2" by (rule half_up_near)
  then have "\<bar>of_int (half_up (of_int k) - k) :: rat\<bar> < of_int 1" by simp
  then have "\<bar>half_up (of_int k) - k\<bar> < 1" by (simp only: of_int_abs[symmetric] of_int_less_iff)
  then show ?thesis by linarith
qed

lemma dec_quantize_units:
  "dec_quantize 0 x = (if 10 ^ 28 \<le> \<bar>half_up x\<bar> then Inl InvalidOperation else Inr (of_int (half_up x)))"
  by (simp add: dec_quantize_def Let_def)

lemma tick_value_pos: "0 < tick_value c e \<longleftrightarrow> 0 < c"
proof -
  have p: "0 < power_int (10 :: rat) e" by (simp add: zero_less_power_int)
  then have "\<not> power_int (10 :: rat) e < 0" by linarith
  then show ?thesis unfolding tick_value_def zero_less_mult_iff by (simp add: p)
qed

lemma dec_mul_ticks:
  "\<bar>k * c\<bar> < 10 ^ 28 \<Longrightarrow> dec_mul (of_int k) (tick_value c e) = of_int k * tick_value c e"
  using is_dec_scaled[of "of_int k * tick_value c e" "k * c" e]
  by (simp add: dec_mul_def is_dec_def tick_value_def mult.assoc)

lemma dec_quantize_even_ticks:
  "\<bar>k * c\<bar> < 10 ^ 28 \<Longrightarrow> dec_quantize_even e (of_int k * tick_value c e) = Inr (of_int k * tick_value c e)"
proof -
  assume b: "\<bar>k * c\<bar> < 10 ^ 28"
  have "of_int k * tick_value c e / power_int 10 e = of_int (k * c)"
    by (simp add: tick_value_def)
  then show ?thesis using b
    by (simp only: dec_quantize_even_def Let_def rhe_of_int) (simp add: tick_value_def)
qed

lemma snap_ticks:
  assumes "0 < c" "0 < k" "k * c < 10 ^ 28"
    and "half_up (dec_div price (tick_value c e)) = k" "0 < price"
  shows "snap_to_tick price c e = Inr (of_int k * tick_value c e)"
proof -
  have "k \<le> k * c" using assms(1,2) by (simp add: mult_le_cancel_left1)
  then have "k < 10 ^ 28" using assms(3) by linarith
  then show ?thesis using assms tick_value_pos[of c e] dec_mul_ticks[of k c e] dec_quantize_even_ticks[of k c e]
    by (simp add: snap_to_tick_def Let_def dec_quantize_units)
qed

lemma snap_error:
  assumes "0 < tick" "0 \<le> price"
  shows "\<bar>of_int (half_up (dec_div price tick)) * tick - price\<bar> \<le> tick / 2 + price / (2 * 10 ^ 27)"
proof -
  let ?q = "dec_div price tick"
  have a: "\<bar>of_int (half_up ?q) - ?q\<bar> \<le> 1 / 2" by (rule half_up_near)
  have b: "\<bar>?q - price / tick\<bar> \<le> price / tick / (2 * 10 ^ 27)"
    using dec_error[of "price / tick"] assms by (simp add: dec_div_def)
  have "\<bar>of_int (half_up ?q) - price / tick\<bar> \<le> 1 / 2 + price / tick / (2 * 10 ^ 27)"
    using a b by linarith
  then have "\<bar>of_int (half_up ?q) - price / tick\<bar> * tick \<le> (1 / 2 + price / tick / (2 * 10 ^ 27)) * tick"
    using assms by (intro mult_right_mono) simp_all
  moreover have "\<bar>of_int (half_up ?q) - price / tick\<bar> * tick = \<bar>of_int (half_up ?q) * tick - price\<bar>"
    using assms by (simp add: abs_mult_pos' abs_mult_pos left_diff_distrib)
  ultimately show ?thesis using assms by (simp add: distrib_right)
qed

section \<open>Properties\<close>

text \<open>
  Amounts of different currencies never mix, and amounts of one currency form a
  consistent arithmetic: addition commutes and is the rounded sum in that currency,
  subtraction adds the negated amount, and exactly one of less, equal and greater holds,
  as for the exact amounts in spite of the rounded subtraction the comparison makes.
\<close>

theorem money_currency_laws:
  "money_wf a \<and> money_wf b \<longrightarrow>
   (if currency a \<noteq> currency b then
      \<not> is_ok (money_add a (MoneyV b)) \<and> \<not> is_ok (money_sub a (MoneyV b)) \<and>
      \<not> is_ok (money_div a (MoneyV b)) \<and> \<not> is_ok (money_lt a (MoneyV b)) \<and>
      \<not> is_ok (money_le a (MoneyV b)) \<and> \<not> money_eq a (MoneyV b)
    else
      money_add a (MoneyV b) = Inr \<lparr>amount = dec_add (amount a) (amount b), currency = currency a\<rparr> \<and>
      money_add a (MoneyV b) = money_add b (MoneyV a) \<and>
      (is_dec (amount b) \<longrightarrow>
         (\<exists>n. money_neg b = Inr n \<and> money_sub a (MoneyV b) = money_add a (MoneyV n))) \<and>
      money_lt a (MoneyV b) = Inr (amount a < amount b) \<and>
      money_le a (MoneyV b) = Inr (amount a \<le> amount b) \<and>
      money_eq a (MoneyV b) = (amount a = amount b) \<and>
      money_gt a (MoneyV b) = money_lt b (MoneyV a) \<and>
      money_ge a (MoneyV b) = money_le b (MoneyV a))"
proof (intro impI)
  assume wf: "money_wf a \<and> money_wf b"
  have "money_neg b = Inr \<lparr>amount = - amount b, currency = currency b\<rparr>" if "is_dec (amount b)"
    using wf that by (simp add: money_neg_def dec_neg_def dec_minus is_dec_def)
  moreover have "dec_add (amount a) (amount b) = dec_add (amount b) (amount a)"
    by (simp add: dec_add_def add.commute)
  ultimately show "if currency a \<noteq> currency b then
      \<not> is_ok (money_add a (MoneyV b)) \<and> \<not> is_ok (money_sub a (MoneyV b)) \<and>
      \<not> is_ok (money_div a (MoneyV b)) \<and> \<not> is_ok (money_lt a (MoneyV b)) \<and>
      \<not> is_ok (money_le a (MoneyV b)) \<and> \<not> money_eq a (MoneyV b)
    else
      money_add a (MoneyV b) = Inr \<lparr>amount = dec_add (amount a) (amount b), currency = currency a\<rparr> \<and>
      money_add a (MoneyV b) = money_add b (MoneyV a) \<and>
      (is_dec (amount b) \<longrightarrow>
         (\<exists>n. money_neg b = Inr n \<and> money_sub a (MoneyV b) = money_add a (MoneyV n))) \<and>
      money_lt a (MoneyV b) = Inr (amount a < amount b) \<and>
      money_le a (MoneyV b) = Inr (amount a \<le> amount b) \<and>
      money_eq a (MoneyV b) = (amount a = amount b) \<and>
      money_gt a (MoneyV b) = money_lt b (MoneyV a) \<and>
      money_ge a (MoneyV b) = money_le b (MoneyV a)"
    using wf mk_money_ok[of a] mk_money_ok[of b]
    by (auto simp: money_add_def money_sub_def money_div_def money_lt_def money_le_def money_gt_def
        money_ge_def money_eq_def money_cmp_amount_def dec_add_def dec_sub_def)
qed

lemma money_currency_laws_witness:
  "money_lt \<lparr>amount = 1 / 4, currency = ''INR''\<rparr> (MoneyV \<lparr>amount = 3 / 2, currency = ''INR''\<rparr>) = Inr True"
  using money_currency_laws[of "\<lparr>amount = 1 / 4, currency = ''INR''\<rparr>" "\<lparr>amount = 3 / 2, currency = ''INR''\<rparr>"]
  by (simp add: money_wf_def py_upper_def py_strip_def up_char_def is_space_def)

text \<open>
  For a positive price and tick, and a nearest tick that fits in 28 digits,
  \<open>snap_to_tick\<close> returns a whole number of ticks that is at most half a tick (and the
  28-digit rounding of the quotient) away from the price, and snapping the result again
  does not change it.
\<close>

theorem snap_to_tick_nearest:
  assumes "0 < c" "0 < price"
    and "half_up (dec_div price (tick_value c e)) = k" "0 < k" "k * c < 10 ^ 28"
  shows "snap_to_tick price c e = Inr (of_int k * tick_value c e) \<and>
    \<bar>of_int k * tick_value c e - price\<bar> \<le> tick_value c e / 2 + price / (2 * 10 ^ 27) \<and>
    snap_to_tick (of_int k * tick_value c e) c e = Inr (of_int k * tick_value c e)"
proof (intro conjI)
  have tp: "0 < tick_value c e" using assms(1) by (simp add: tick_value_pos)
  have "k \<le> k * c" using assms(1,4) by (simp add: mult_le_cancel_left1)
  then have k: "k < 10 ^ 28" using assms(5) by linarith
  show "snap_to_tick price c e = Inr (of_int k * tick_value c e)" using assms by (intro snap_ticks)
  show "\<bar>of_int k * tick_value c e - price\<bar> \<le> tick_value c e / 2 + price / (2 * 10 ^ 27)"
    using snap_error[OF tp, of price] assms by simp
  have "dec_div (of_int k * tick_value c e) (tick_value c e) = of_int k"
    using tp is_dec_of_int[of k] k assms(4) by (simp add: dec_div_def is_dec_def)
  then show "snap_to_tick (of_int k * tick_value c e) c e = Inr (of_int k * tick_value c e)"
    using assms tp by (intro snap_ticks) simp_all
qed

lemma snap_to_tick_nearest_witness: "snap_to_tick (10013 / 100) 5 (- 2) = Inr (10015 / 100)"
proof -
  have "half_up (dec_div (10013 / 100) (tick_value 5 (- 2))) = 2003" by code_simp
  then have "snap_to_tick (10013 / 100) 5 (- 2) = Inr (of_int 2003 * tick_value 5 (- 2))"
    by (intro conjunct1[OF snap_to_tick_nearest]) simp_all
  moreover have "of_int 2003 * tick_value 5 (- 2) = 10015 / 100" by code_simp
  ultimately show ?thesis by simp
qed

end
