(* ===== verification/Order_FSM.thy ===== *)
theory Order_FSM
  imports Prelude
begin

text \<open>
  Order statuses and the machinery that moves them: the enumerations of
  \<open>domain/enums.py\<close>, the generic state machine of \<open>domain/state_machine.py\<close>, the
  transition tables of orders and positions, the status mapper registry of
  \<open>domain/status_mapper.py\<close> and the per-order transition validator of
  \<open>application/oms/_internal/order_state_validator.py\<close>.
\<close>

section \<open>Enumerations\<close>

datatype order_side = BUY | SELL

datatype order_type = MARKET | LIMIT | STOP | STOP_LIMIT | STOP_LOSS | STOP_LOSS_MARKET

datatype order_status =
    OPEN | PENDING | SUBMITTED | PARTIALLY_FILLED | FILLED | CANCELLED
  | PARTIALLY_CANCELLED | REJECTED | EXPIRED | UNKNOWN

datatype time_in_force = DAY | IOC | GTC

datatype product_type = INTRADAY | DELIVERY | CNC | MARGIN | MTF

datatype position_state = FLAT | POS_OPEN | REDUCING | POS_CLOSED | REVERSED

definition all_statuses :: "order_status list" where
  "all_statuses = [OPEN, PENDING, SUBMITTED, PARTIALLY_FILLED, FILLED, CANCELLED,
     PARTIALLY_CANCELLED, REJECTED, EXPIRED, UNKNOWN]"

fun status_value :: "order_status \<Rightarrow> string" where
  "status_value OPEN = ''OPEN''"
| "status_value PENDING = ''PENDING''"
| "status_value SUBMITTED = ''SUBMITTED''"
| "status_value PARTIALLY_FILLED = ''PARTIALLY_FILLED''"
| "status_value FILLED = ''FILLED''"
| "status_value CANCELLED = ''CANCELLED''"
| "status_value PARTIALLY_CANCELLED = ''PARTIALLY_CANCELLED''"
| "status_value REJECTED = ''REJECTED''"
| "status_value EXPIRED = ''EXPIRED''"
| "status_value UNKNOWN = ''UNKNOWN''"

text \<open>\<open>OrderStatus(text)\<close>, \<open>None\<close> where it raises \<open>ValueError\<close>.\<close>

definition status_of_value :: "string \<Rightarrow> order_status option" where
  "status_of_value v = List.find (\<lambda>s. status_value s = v) all_statuses"

fun position_state_value :: "position_state \<Rightarrow> string" where
  "position_state_value FLAT = ''FLAT''"
| "position_state_value POS_OPEN = ''OPEN''"
| "position_state_value REDUCING = ''REDUCING''"
| "position_state_value POS_CLOSED = ''CLOSED''"
| "position_state_value REVERSED = ''REVERSED''"

fun position_state_is_active :: "position_state \<Rightarrow> bool" where
  "position_state_is_active s = (s \<in> set [POS_OPEN, REDUCING, REVERSED])"

fun position_state_is_terminal :: "position_state \<Rightarrow> bool" where
  "position_state_is_terminal s = (s \<in> set [FLAT, POS_CLOSED])"

text \<open>
  \<open>OrderStatus\<close> declares no \<open>is_terminal\<close>, while \<open>Order.is_complete\<close>, the order
  manager and the lifecycle read it. Operations that read the attribute take it as an
  argument; this is its value for the class as it stands.
\<close>

type_synonym status_attr = "order_status \<Rightarrow> bool res"

definition order_status_is_terminal :: status_attr where
  "order_status_is_terminal s = Inl (AttributeError ''OrderStatus'' ''is_terminal'')"

section \<open>The generic state machine\<close>

type_synonym 's table = "('s, 's list) dict"

record 's state_machine =
  sm_transitions :: "'s table"
  sm_state :: 's

definition sm_allowed :: "'s table \<Rightarrow> 's \<Rightarrow> 's list" where
  "sm_allowed tbl s = (case dict_get tbl s of None \<Rightarrow> [] | Some xs \<Rightarrow> xs)"

definition sm_is_terminal :: "'s state_machine \<Rightarrow> bool" where
  "sm_is_terminal m \<longleftrightarrow> length (sm_allowed (sm_transitions m) (sm_state m)) = 0"

definition sm_can_transition_to :: "'s state_machine \<Rightarrow> 's \<Rightarrow> bool" where
  "sm_can_transition_to m s \<longleftrightarrow> s \<in> set (sm_allowed (sm_transitions m) (sm_state m))"

definition sm_transition_to :: "('s \<Rightarrow> string) \<Rightarrow> 's state_machine \<Rightarrow> 's \<Rightarrow> 's state_machine res" where
  "sm_transition_to nm m s =
     (if \<not> sm_can_transition_to m s then Inl (IllegalTransition (nm (sm_state m)) (nm s))
      else Inr (m\<lparr>sm_state := s\<rparr>))"

text \<open>\<open>reset(None)\<close> takes the first key of the table and raises when there is none.\<close>

definition sm_reset :: "'s state_machine \<Rightarrow> 's option \<Rightarrow> 's state_machine res" where
  "sm_reset m ns = (case ns of
       Some s \<Rightarrow> Inr (m\<lparr>sm_state := s\<rparr>)
     | None \<Rightarrow> (case dict_keys (sm_transitions m) of
           [] \<Rightarrow> Inl (External ''StopIteration'')
         | s # _ \<Rightarrow> Inr (m\<lparr>sm_state := s\<rparr>)))"

text \<open>A caller that requests a transition and goes on when it is refused.\<close>

definition sm_request :: "'s state_machine \<Rightarrow> 's \<Rightarrow> 's state_machine" where
  "sm_request m s = (case sm_transition_to (\<lambda>_. []) m s of Inl _ \<Rightarrow> m | Inr m' \<Rightarrow> m')"

inductive sm_reach :: "('s \<Rightarrow> 's list) \<Rightarrow> 's \<Rightarrow> 's \<Rightarrow> bool" for al :: "'s \<Rightarrow> 's list" where
  sm_reach_refl: "sm_reach al s s"
| sm_reach_step: "sm_reach al s t \<Longrightarrow> u \<in> set (al t) \<Longrightarrow> sm_reach al s u"

inductive_cases sm_reach_E: "sm_reach al s t"

lemma sm_reach_trans: "sm_reach al t u \<Longrightarrow> sm_reach al s t \<Longrightarrow> sm_reach al s u"
  by (induction rule: sm_reach.induct) (auto intro: sm_reach_step)

lemma sm_reach_terminal: "sm_reach al s t \<Longrightarrow> al s = [] \<Longrightarrow> t = s"
  by (induction rule: sm_reach.induct) auto

lemma sm_request_table [simp]: "sm_transitions (sm_request m s) = sm_transitions m"
  by (simp add: sm_request_def sm_transition_to_def)

lemma sm_request_state:
  "sm_state (sm_request m s) = (if sm_can_transition_to m s then s else sm_state m)"
  by (simp add: sm_request_def sm_transition_to_def)

lemma sm_run_table [simp]: "sm_transitions (run_ops sm_request m xs) = sm_transitions m"
  by (induction xs arbitrary: m) auto

lemma sm_run_reach:
  "sm_reach (sm_allowed (sm_transitions m)) (sm_state m) (sm_state (run_ops sm_request m xs))"
proof (induction xs arbitrary: m)
  case (Cons x xs)
  have "sm_reach (sm_allowed (sm_transitions m)) (sm_state m) (sm_state (sm_request m x))"
    by (auto simp: sm_request_state sm_can_transition_to_def intro: sm_reach.intros)
  moreover have "sm_reach (sm_allowed (sm_transitions m)) (sm_state (sm_request m x))
      (sm_state (run_ops sm_request (sm_request m x) xs))"
    using Cons.IH[of "sm_request m x"] by simp
  ultimately show ?case by (auto intro: sm_reach_trans)
qed (simp add: sm_reach_refl)

text \<open>
  What the program expects of a lifecycle table: the terminal states are exactly the ones
  named so, and from every other state the exit state can be reached. The rank shows the
  way to the exit.
\<close>

locale lifecycle_table =
  fixes al :: "'s \<Rightarrow> 's list" and exit :: 's and rank :: "'s \<Rightarrow> nat"
  assumes descend: "al s \<noteq> [] \<Longrightarrow> s \<noteq> exit \<Longrightarrow>
      \<exists>t. t \<in> set (al s) \<and> rank t < rank s \<and> (t = exit \<or> al t \<noteq> [])"
begin

lemma exit_reachable: "al s \<noteq> [] \<Longrightarrow> sm_reach al s exit"
proof (induction "rank s" arbitrary: s rule: less_induct)
  case less
  show ?case
  proof (cases "s = exit")
    case True
    then show ?thesis by (simp add: sm_reach_refl)
  next
    case False
    then obtain t where t: "t \<in> set (al s)" "rank t < rank s" "t = exit \<or> al t \<noteq> []"
      using descend less.prems by blast
    have st: "sm_reach al s t" using t(1) by (auto intro: sm_reach.intros)
    show ?thesis using t less.hyps[of t] st by (auto intro: sm_reach_trans)
  qed
qed

lemma closed_or_closable: "al s = [] \<or> sm_reach al s exit"
  using exit_reachable by blast

end

section \<open>Order and position tables\<close>

definition ORDER_STATUS_TRANSITIONS :: "order_status table" where
  "ORDER_STATUS_TRANSITIONS =
    [(OPEN, [PARTIALLY_FILLED, FILLED, CANCELLED, PARTIALLY_CANCELLED, REJECTED, EXPIRED, UNKNOWN]),
     (PARTIALLY_FILLED, [FILLED, CANCELLED, PARTIALLY_CANCELLED, REJECTED]),
     (FILLED, []),
     (CANCELLED, []),
     (PARTIALLY_CANCELLED, []),
     (REJECTED, []),
     (EXPIRED, []),
     (UNKNOWN, [OPEN, REJECTED, CANCELLED])]"

definition POSITION_STATE_TRANSITIONS :: "position_state table" where
  "POSITION_STATE_TRANSITIONS =
    [(FLAT, [POS_OPEN, REVERSED]),
     (POS_OPEN, [POS_OPEN, REDUCING, POS_CLOSED, REVERSED]),
     (REDUCING, [FLAT, POS_OPEN, REVERSED, POS_CLOSED]),
     (POS_CLOSED, [FLAT, POS_OPEN]),
     (REVERSED, [FLAT, POS_OPEN, REDUCING, POS_CLOSED])]"

abbreviation order_allowed :: "order_status \<Rightarrow> order_status list" where
  "order_allowed \<equiv> sm_allowed ORDER_STATUS_TRANSITIONS"

abbreviation position_allowed :: "position_state \<Rightarrow> position_state list" where
  "position_allowed \<equiv> sm_allowed POSITION_STATE_TRANSITIONS"

lemma order_allowed_simps [simp]:
  "order_allowed OPEN = [PARTIALLY_FILLED, FILLED, CANCELLED, PARTIALLY_CANCELLED, REJECTED, EXPIRED, UNKNOWN]"
  "order_allowed PENDING = []" "order_allowed SUBMITTED = []"
  "order_allowed PARTIALLY_FILLED = [FILLED, CANCELLED, PARTIALLY_CANCELLED, REJECTED]"
  "order_allowed FILLED = []" "order_allowed CANCELLED = []" "order_allowed PARTIALLY_CANCELLED = []"
  "order_allowed REJECTED = []" "order_allowed EXPIRED = []"
  "order_allowed UNKNOWN = [OPEN, REJECTED, CANCELLED]"
  by (simp_all add: sm_allowed_def ORDER_STATUS_TRANSITIONS_def dict_get_def)

lemma position_allowed_simps [simp]:
  "position_allowed FLAT = [POS_OPEN, REVERSED]"
  "position_allowed POS_OPEN = [POS_OPEN, REDUCING, POS_CLOSED, REVERSED]"
  "position_allowed REDUCING = [FLAT, POS_OPEN, REVERSED, POS_CLOSED]"
  "position_allowed POS_CLOSED = [FLAT, POS_OPEN]"
  "position_allowed REVERSED = [FLAT, POS_OPEN, REDUCING, POS_CLOSED]"
  by (simp_all add: sm_allowed_def POSITION_STATE_TRANSITIONS_def dict_get_def)

fun position_rank :: "position_state \<Rightarrow> nat" where
  "position_rank FLAT = 0" | "position_rank POS_OPEN = 2" | "position_rank s = 1"

interpretation order_table: lifecycle_table order_allowed CANCELLED "\<lambda>s. if s = CANCELLED then 0 else 1"
proof
  fix s show "order_allowed s \<noteq> [] \<Longrightarrow> s \<noteq> CANCELLED \<Longrightarrow>
      \<exists>t. t \<in> set (order_allowed s) \<and> (if t = CANCELLED then 0 else 1) < (if s = CANCELLED then 0 else 1 :: nat) \<and>
        (t = CANCELLED \<or> order_allowed t \<noteq> [])"
    by (intro exI[of _ CANCELLED]) (cases s; simp)
qed

interpretation position_table: lifecycle_table position_allowed FLAT position_rank
proof
  fix s show "position_allowed s \<noteq> [] \<Longrightarrow> s \<noteq> FLAT \<Longrightarrow>
      \<exists>t. t \<in> set (position_allowed s) \<and> position_rank t < position_rank s \<and> (t = FLAT \<or> position_allowed t \<noteq> [])"
    by (intro exI[of _ "if s = POS_OPEN then POS_CLOSED else FLAT"]) (cases s; simp)
qed

section \<open>Status mapper registry\<close>

record registry =
  reg_mappings :: "(string, (string, order_status) dict) dict"
  reg_merged :: "(string, order_status) dict option"

definition dict_update :: "('k, 'v) dict \<Rightarrow> ('k, 'v) dict \<Rightarrow> ('k, 'v) dict" where
  "dict_update d e = foldl (\<lambda>d (k, v). dict_put d k v) d e"

definition reg_register :: "registry \<Rightarrow> string \<Rightarrow> (string, order_status) dict \<Rightarrow> registry" where
  "reg_register r name mapping =
     r\<lparr>reg_mappings := dict_put (reg_mappings r) name mapping, reg_merged := None\<rparr>"

definition reg_merge :: "registry \<Rightarrow> (string, order_status) dict" where
  "reg_merge r = foldl dict_update [] (dict_values (reg_mappings r))"

definition status_key :: "string \<Rightarrow> string" where
  "status_key s = py_replace_char (CHR '' '') (CHR ''_'') (py_strip (py_upper s))"

definition reg_normalize :: "registry \<Rightarrow> string \<Rightarrow> order_status \<times> registry" where
  "reg_normalize r broker_status = (let normalized = status_key broker_status in
     if normalized = [] then (UNKNOWN, r)
     else
       let merged = (case reg_merged r of None \<Rightarrow> reg_merge r | Some m \<Rightarrow> m);
           r' = r\<lparr>reg_merged := Some merged\<rparr>
       in case dict_get merged normalized of
            Some s \<Rightarrow> (s, r')
          | None \<Rightarrow> (case status_of_value normalized of Some s \<Rightarrow> (s, r') | None \<Rightarrow> (UNKNOWN, r')))"

definition reg_normalize_strict :: "registry \<Rightarrow> string \<Rightarrow> order_status res \<times> registry" where
  "reg_normalize_strict r broker_status = (let (result, r') = reg_normalize r broker_status in
     (if result = UNKNOWN then Inl (UnmappedBrokerStatus broker_status) else Inr result, r'))"

definition COMMON_STATUS_MAP :: "(string, order_status) dict" where
  "COMMON_STATUS_MAP =
    [(''OPEN'', OPEN), (''PARTIALLY_FILLED'', PARTIALLY_FILLED), (''FILLED'', FILLED),
     (''CANCELLED'', CANCELLED), (''PARTIALLY_CANCELLED'', PARTIALLY_CANCELLED),
     (''REJECTED'', REJECTED), (''EXPIRED'', EXPIRED), (''UNKNOWN'', UNKNOWN),
     (''EXECUTED'', FILLED), (''COMPLETE'', FILLED), (''COMPLETED'', FILLED), (''TRADED'', FILLED),
     (''PARTIAL'', PARTIALLY_FILLED), (''PARTIALLY_EXECUTED'', PARTIALLY_FILLED),
     (''MARGIN_TRADED'', PARTIALLY_FILLED),
     (''AFTER_MARKET_ORDER_REQ_RECEIVED'', OPEN), (''AMO'', OPEN), (''TRANSIT'', OPEN),
     (''TRIGGER_PENDING'', OPEN), (''PENDING'', OPEN), (''QUEUED'', OPEN),
     (''PUT_ORDER_REQ_RECEIVED'', OPEN), (''OPEN_PENDING'', OPEN)]"

definition registry_at_load :: registry where
  "registry_at_load =
     reg_register \<lparr>reg_mappings = [], reg_merged = None\<rparr> ''common'' COMMON_STATUS_MAP"

datatype registry_op = Register string "(string, order_status) dict" | Normalize string

fun reg_step :: "registry \<Rightarrow> registry_op \<Rightarrow> registry" where
  "reg_step r (Register n m) = reg_register r n m"
| "reg_step r (Normalize s) = snd (reg_normalize r s)"

text \<open>The cached merge is never stale.\<close>

definition reg_inv :: "registry \<Rightarrow> bool" where
  "reg_inv r \<longleftrightarrow> (case reg_merged r of None \<Rightarrow> True | Some m \<Rightarrow> m = reg_merge r)"

lemma reg_merge_cong [simp]: "reg_merge (r\<lparr>reg_merged := x\<rparr>) = reg_merge r"
  by (simp add: reg_merge_def)

lemma reg_inv_step [inv_intros]: "reg_inv r \<Longrightarrow> reg_inv (reg_step r x)"
  by (cases x) (auto simp: reg_inv_def reg_register_def reg_normalize_def Let_def split: option.splits)

interpretation registry_system: invariant_system reg_step reg_inv
  by unfold_locales (rule reg_inv_step)

lemma reg_inv_load: "reg_inv registry_at_load"
  by (simp add: reg_inv_def registry_at_load_def reg_register_def)

text \<open>What a lookup means, without the cache.\<close>

definition status_lookup :: "(string, order_status) dict \<Rightarrow> string \<Rightarrow> order_status" where
  "status_lookup m k = (if k = [] then UNKNOWN else
     case dict_get m k of Some s \<Rightarrow> s
     | None \<Rightarrow> (case status_of_value k of Some s \<Rightarrow> s | None \<Rightarrow> UNKNOWN))"

lemma reg_normalize_lookup:
  "reg_inv r \<Longrightarrow> fst (reg_normalize r s) = status_lookup (reg_merge r) (status_key s)"
  by (auto simp: reg_normalize_def status_lookup_def reg_inv_def Let_def split: option.splits)

lemma status_key_idem [simp]: "status_key (py_upper s) = status_key s"
  by (simp add: status_key_def)

lemma status_key_strip [simp]: "status_key (py_strip s) = status_key s"
  by (simp add: status_key_def py_strip_upper[symmetric])

section \<open>The per-order transition validator\<close>

text \<open>
  The machines are kept in a size- and time-bounded cache of a third-party package.
  \<open>gone\<close> says whether the cache has dropped the entry of the order by the time of the
  call.
\<close>

record order_state_validator =
  osv_transitions :: "order_status table"
  osv_enforce :: bool
  osv_machines :: "(string, order_status state_machine) dict"

definition osv_init :: "bool \<Rightarrow> order_state_validator" where
  "osv_init enforce =
     \<lparr>osv_transitions = ORDER_STATUS_TRANSITIONS, osv_enforce = enforce, osv_machines = []\<rparr>"

definition osv_get_or_create ::
  "bool \<Rightarrow> order_state_validator \<Rightarrow> string \<Rightarrow> order_status \<Rightarrow> order_status state_machine \<times> order_state_validator" where
  "osv_get_or_create gone v oid initial =
     (case (if gone then None else dict_get (osv_machines v) oid) of
        Some m \<Rightarrow> (m, v)
      | None \<Rightarrow> (let m = \<lparr>sm_transitions = osv_transitions v, sm_state = initial\<rparr> in
           (m, v\<lparr>osv_machines := dict_put (osv_machines v) oid m\<rparr>)))"

definition osv_validate_transition ::
  "bool \<Rightarrow> order_state_validator \<Rightarrow> string \<Rightarrow> order_status \<Rightarrow> order_status \<Rightarrow> unit res \<times> order_state_validator" where
  "osv_validate_transition gone v oid old new =
     (if old = new then (Inr (), v)
      else
        let (m, v') = osv_get_or_create gone v oid old in
        case sm_transition_to status_value m new of
          Inl _ \<Rightarrow>
            if osv_enforce v' then (Inl (IllegalTransition (status_value old) (status_value new)), v')
            else (Inr (), v')
        | Inr m' \<Rightarrow> (Inr (), v'\<lparr>osv_machines := dict_put (osv_machines v') oid m'\<rparr>))"

definition osv_reset :: "order_state_validator \<Rightarrow> string \<Rightarrow> order_state_validator" where
  "osv_reset v oid = v\<lparr>osv_machines := dict_pop (osv_machines v) oid\<rparr>"

definition osv_clear :: "order_state_validator \<Rightarrow> order_state_validator" where
  "osv_clear v = v\<lparr>osv_machines := []\<rparr>"

text \<open>Every cached machine runs on the validator's table.\<close>

definition osv_wf :: "order_state_validator \<Rightarrow> bool" where
  "osv_wf v \<longleftrightarrow> (\<forall>oid m. dict_get (osv_machines v) oid = Some m \<longrightarrow> sm_transitions m = osv_transitions v)"

lemma osv_wf_validate [inv_intros]:
  "osv_wf v \<Longrightarrow> osv_wf (snd (osv_validate_transition gone v oid old new))"
  by (auto simp: osv_wf_def osv_validate_transition_def osv_get_or_create_def sm_transition_to_def
      Let_def split: option.splits prod.splits)

lemma osv_validate_config [simp]:
  "osv_transitions (snd (osv_validate_transition gone v oid old new)) = osv_transitions v"
  "osv_enforce (snd (osv_validate_transition gone v oid old new)) = osv_enforce v"
  by (auto simp: osv_validate_transition_def osv_get_or_create_def Let_def
      split: option.splits prod.splits sum.splits)

lemma osv_validate_fresh:
  assumes "gone \<or> dict_get (osv_machines v) oid = None"
  shows "fst (osv_validate_transition gone v oid old new) =
    (if old = new \<or> new \<in> set (sm_allowed (osv_transitions v) old) \<or> \<not> osv_enforce v then Inr ()
     else Inl (IllegalTransition (status_value old) (status_value new)))"
  using assms
  by (auto simp: osv_validate_transition_def osv_get_or_create_def sm_transition_to_def
      sm_can_transition_to_def Let_def)

text \<open>A caller whose book of one order moves only when the validator accepts.\<close>

fun osv_drive ::
  "string \<Rightarrow> order_state_validator \<times> order_status \<Rightarrow> bool \<times> order_status \<Rightarrow> order_state_validator \<times> order_status" where
  "osv_drive oid (v, st) (gone, new) =
     (let (r, v') = osv_validate_transition gone v oid st new in (v', if is_ok r then new else st))"

definition osv_book :: "string \<Rightarrow> order_state_validator \<times> order_status \<Rightarrow> bool" where
  "osv_book oid vs \<longleftrightarrow> osv_transitions (fst vs) = ORDER_STATUS_TRANSITIONS \<and> osv_enforce (fst vs) \<and>
     (\<forall>m. dict_get (osv_machines (fst vs)) oid = Some m \<longrightarrow>
        m = \<lparr>sm_transitions = ORDER_STATUS_TRANSITIONS, sm_state = snd vs\<rparr>)"

lemma no_self_loop: "s \<notin> set (order_allowed s)"
  by (cases s) simp_all

lemma osv_drive_step:
  assumes "osv_book oid vs"
  shows "osv_book oid (osv_drive oid vs x)"
    and "snd (osv_drive oid vs x) =
      sm_state (sm_request \<lparr>sm_transitions = ORDER_STATUS_TRANSITIONS, sm_state = snd vs\<rparr> (snd x))"
  using assms no_self_loop[of "snd vs"]
  by (cases vs; cases x; auto simp: osv_book_def osv_validate_transition_def osv_get_or_create_def
      sm_transition_to_def sm_can_transition_to_def sm_request_def Let_def split: option.splits if_splits)+

lemma osv_book_init: "osv_book oid (osv_init True, s)"
  by (simp add: osv_book_def osv_init_def)

lemma status_key_value: "status_key (status_value s) = status_value s"
  by (cases s; hypsubst; code_simp)

lemma reg_merge_load: "reg_merge registry_at_load = COMMON_STATUS_MAP"
  by code_simp

section \<open>Properties\<close>

text \<open>
  Whatever transitions are requested of an order's state machine, and in whatever
  order, it only moves along the transition table; a machine in a state without outgoing
  transitions never moves again, and every other state it comes to can still reach
  \<open>CANCELLED\<close>.
\<close>

theorem order_machine_runs:
  "let m = \<lparr>sm_transitions = ORDER_STATUS_TRANSITIONS, sm_state = s\<rparr>; m' = run_ops sm_request m reqs in
   sm_reach order_allowed s (sm_state m') \<and>
   (sm_is_terminal m \<longrightarrow> m' = m) \<and>
   (sm_is_terminal m' \<or> sm_reach order_allowed (sm_state m') CANCELLED)"
proof -
  define m where "m = \<lparr>sm_transitions = ORDER_STATUS_TRANSITIONS, sm_state = s\<rparr>"
  define m' where "m' = run_ops sm_request m reqs"
  have r: "sm_reach order_allowed s (sm_state m')"
    using sm_run_reach[of m reqs] by (simp add: m_def m'_def)
  have t: "sm_transitions m' = ORDER_STATUS_TRANSITIONS" by (simp add: m_def m'_def)
  have "sm_is_terminal m \<longrightarrow> m' = m"
    using sm_reach_terminal[OF r] t by (cases m') (simp add: sm_is_terminal_def m_def)
  moreover have "sm_is_terminal m' \<or> sm_reach order_allowed (sm_state m') CANCELLED"
    using order_table.closed_or_closable[of "sm_state m'"] t by (simp add: sm_is_terminal_def)
  ultimately show ?thesis using r by (simp add: Let_def flip: m_def m'_def)
qed

lemma order_machine_runs_witness:
  "run_ops sm_request \<lparr>sm_transitions = ORDER_STATUS_TRANSITIONS, sm_state = FILLED\<rparr> [CANCELLED, OPEN] =
   \<lparr>sm_transitions = ORDER_STATUS_TRANSITIONS, sm_state = FILLED\<rparr>"
  using order_machine_runs[of FILLED "[CANCELLED, OPEN]"]
  by (simp add: Let_def sm_is_terminal_def)

text \<open>
  In enforcing mode, the status of an order whose owner moves it only when
  \<open>validate_transition\<close> accepts follows exactly the state machine of the transition
  table, for any sequence of requests and any evictions from the bounded cache.
\<close>

theorem validator_follows_table:
  "snd (run_ops (osv_drive oid) (osv_init True, s) calls) =
   sm_state (run_ops sm_request \<lparr>sm_transitions = ORDER_STATUS_TRANSITIONS, sm_state = s\<rparr> (map snd calls))"
proof -
  have "osv_book oid vs \<Longrightarrow> snd (run_ops (osv_drive oid) vs calls) =
     sm_state (run_ops sm_request \<lparr>sm_transitions = ORDER_STATUS_TRANSITIONS, sm_state = snd vs\<rparr> (map snd calls))" for vs
  proof (induction calls arbitrary: vs)
    case (Cons x calls)
    let ?M = "\<lambda>s. \<lparr>sm_transitions = ORDER_STATUS_TRANSITIONS, sm_state = s\<rparr>"
    have "sm_request (?M (snd vs)) (snd x) = ?M (snd (osv_drive oid vs x))"
      using osv_drive_step(2)[OF Cons.prems, of x] by (intro state_machine.equality) simp_all
    then show ?case using Cons.IH[OF osv_drive_step(1)[OF Cons.prems, of x]] by simp
  qed simp
  from this[OF osv_book_init] show ?thesis by simp
qed

text \<open>
  After any sequence of broker registrations and lookups, \<open>normalize\<close> answers from
  the current mappings (the cached merge is never stale), ignores case and surrounding
  white space, and a lookup does not change later answers.
\<close>

theorem normalize_current:
  "let r = run_ops reg_step registry_at_load ops in
   fst (reg_normalize r s) = status_lookup (reg_merge r) (status_key s) \<and>
   fst (reg_normalize r (py_upper (py_strip s))) = fst (reg_normalize r s) \<and>
   fst (reg_normalize (snd (reg_normalize r t)) s) = fst (reg_normalize r s)"
proof -
  define r where "r = run_ops reg_step registry_at_load ops"
  have i: "reg_inv r" unfolding r_def by (rule registry_system.inv_run) (rule reg_inv_load)
  have j: "reg_inv (snd (reg_normalize r t))" using reg_inv_step[OF i, of "Normalize t"] by simp
  have m: "reg_merge (snd (reg_normalize r t)) = reg_merge r"
    by (auto simp: reg_normalize_def Let_def split: option.splits)
  show ?thesis
    by (simp add: Let_def reg_normalize_lookup[OF i] reg_normalize_lookup[OF j] m flip: r_def)
qed

text \<open>
  With the mappings registered at import, every canonical status text normalises to
  its own status, except \<open>PENDING\<close>, which becomes \<open>OPEN\<close>; the strict variant raises
  exactly when the plain one answers \<open>UNKNOWN\<close>.
\<close>

theorem normalize_canonical:
  "fst (reg_normalize registry_at_load (status_value s)) = (if s = PENDING then OPEN else s) \<and>
   fst (reg_normalize_strict r t) = (if fst (reg_normalize r t) = UNKNOWN
     then Inl (UnmappedBrokerStatus t) else Inr (fst (reg_normalize r t)))"
proof
  show "fst (reg_normalize registry_at_load (status_value s)) = (if s = PENDING then OPEN else s)"
    unfolding reg_normalize_lookup[OF reg_inv_load] status_key_value reg_merge_load
    by (cases s; hypsubst; code_simp)
qed (simp add: reg_normalize_strict_def case_prod_beta)

end
