(* ===== verification/Entities.thy ===== *)
theory Entities
  imports Order_FSM Decimals
begin

text \<open>
  The entities \<open>Order\<close>, \<open>OrderResponse\<close>, \<open>Trade\<close>, \<open>Position\<close> and \<open>Holding\<close> of
  \<open>domain/entities/\<close>. Their money fields hold amounts in the default currency and their
  quantities carry no unit, as the coercions of the constructors build them from plain
  numbers; both are kept as the rational they denote. Instants are naive or timezone-aware.
\<close>

section \<open>Orders\<close>

datatype datetime = Naive int | Aware int

record order =
  o_order_id :: string
  o_symbol :: string
  o_exchange :: string
  o_side :: order_side
  o_order_type :: order_type
  o_quantity :: rat
  o_filled_quantity :: rat
  o_price :: rat
  o_trigger_price :: rat
  o_status :: order_status
  o_timestamp :: "datetime option"
  o_product_type :: product_type
  o_validity :: time_in_force
  o_avg_price :: rat
  o_reject_reason :: string
  o_correlation_id :: "string option"
  o_instrument_id :: "string option"

definition order_new :: "string \<Rightarrow> string \<Rightarrow> string \<Rightarrow> order_side \<Rightarrow> order_type \<Rightarrow> rat \<Rightarrow> order" where
  "order_new oid sy exch side ot qty =
     \<lparr>o_order_id = oid, o_symbol = sy, o_exchange = exch, o_side = side, o_order_type = ot,
      o_quantity = qty, o_filled_quantity = 0, o_price = 0, o_trigger_price = 0, o_status = OPEN,
      o_timestamp = None, o_product_type = INTRADAY, o_validity = DAY, o_avg_price = 0,
      o_reject_reason = [], o_correlation_id = None, o_instrument_id = None\<rparr>"

definition order_remaining_quantity :: "order \<Rightarrow> int" where
  "order_remaining_quantity o1 = max (trunc_int (o_quantity o1) - trunc_int (o_filled_quantity o1)) 0"

definition order_is_complete :: "status_attr \<Rightarrow> order \<Rightarrow> bool res" where
  "order_is_complete is_terminal o1 = is_terminal (o_status o1)"

definition order_with_status :: "order \<Rightarrow> order_status \<Rightarrow> order res" where
  "order_with_status o1 status =
     (if status \<noteq> o_status o1 \<and> status \<notin> set (sm_allowed ORDER_STATUS_TRANSITIONS (o_status o1))
      then Inl (IllegalTransition (status_value (o_status o1)) (status_value status))
      else Inr (o1\<lparr>o_status := status\<rparr>))"

definition order_with_fill :: "order \<Rightarrow> rat \<Rightarrow> rat \<Rightarrow> order" where
  "order_with_fill o1 filled avg = o1\<lparr>o_filled_quantity := filled, o_avg_price := avg\<rparr>"

definition order_with_price :: "order \<Rightarrow> rat \<Rightarrow> order" where
  "order_with_price o1 p = o1\<lparr>o_price := p\<rparr>"

definition order_with_quantity :: "order \<Rightarrow> rat \<Rightarrow> order" where
  "order_with_quantity o1 q = o1\<lparr>o_quantity := q\<rparr>"

definition order_with_order_type :: "order \<Rightarrow> order_type \<Rightarrow> order" where
  "order_with_order_type o1 ot = o1\<lparr>o_order_type := ot\<rparr>"

text \<open>The result of an order write; latency and raw payload are left out.\<close>

record order_response =
  r_success :: bool
  r_order_id :: string
  r_message :: string
  r_status :: order_status
  r_broker_order_id :: string
  r_error_code :: string
  r_http_status :: "int option"

record order_ack =
  a_success :: bool
  a_order_id :: string
  a_message :: string
  a_status :: order_status
  a_broker_order_id :: string
  a_error_code :: string

definition response_ok :: "string \<Rightarrow> string \<Rightarrow> order_status \<Rightarrow> int option \<Rightarrow> order_response" where
  "response_ok oid msg status http =
     \<lparr>r_success = True, r_order_id = oid, r_message = msg, r_status = status,
      r_broker_order_id = oid, r_error_code = [], r_http_status = http\<rparr>"

definition response_fail :: "string \<Rightarrow> string \<Rightarrow> order_status \<Rightarrow> int option \<Rightarrow> order_response" where
  "response_fail msg code status http =
     \<lparr>r_success = False, r_order_id = [], r_message = msg, r_status = status,
      r_broker_order_id = [], r_error_code = code, r_http_status = http\<rparr>"

definition response_with_broker_id :: "order_response \<Rightarrow> string \<Rightarrow> order_response" where
  "response_with_broker_id r bid = r\<lparr>r_broker_order_id := bid\<rparr>"

definition response_to_ack :: "order_response \<Rightarrow> order_ack" where
  "response_to_ack r =
     \<lparr>a_success = r_success r, a_order_id = r_order_id r, a_message = r_message r,
      a_status = r_status r, a_broker_order_id = r_broker_order_id r, a_error_code = r_error_code r\<rparr>"

section \<open>Trades\<close>

record trade =
  t_trade_id :: string
  t_order_id :: string
  t_symbol :: string
  t_exchange :: string
  t_side :: order_side
  t_quantity :: rat
  t_price :: rat
  t_trade_value :: rat
  t_timestamp :: "datetime option"
  t_product_type :: product_type
  t_correlation_id :: "string option"

definition trade_value :: "trade \<Rightarrow> rat" where
  "trade_value t = (if 0 < t_trade_value t then t_trade_value t
     else dec_mul (t_price t) (of_int (trunc_int (t_quantity t))))"

text \<open>
  A side given as a text is a buy when its upper-case form is \<open>BUY\<close>. A member of the
  enumeration is a text too, and \<open>str\<close> of it is its qualified name, so it always gives a sale.
\<close>

fun side_str :: "order_side \<Rightarrow> string" where
  "side_str BUY = ''OrderSide.BUY''"
| "side_str SELL = ''OrderSide.SELL''"

definition side_of_text :: "string \<Rightarrow> order_side" where
  "side_of_text s = (if py_upper s = ''BUY'' then BUY else SELL)"

definition build_domain_trade ::
  "string \<Rightarrow> string \<Rightarrow> order_side + string \<Rightarrow> rat \<Rightarrow> rat \<Rightarrow> rat option \<Rightarrow> string \<Rightarrow> string \<Rightarrow> trade" where
  "build_domain_trade tid sy side qty price tv exch oid =
     \<lparr>t_trade_id = tid, t_order_id = oid, t_symbol = sy, t_exchange = exch,
      t_side = side_of_text (case side of Inl s \<Rightarrow> side_str s | Inr s \<Rightarrow> s),
      t_quantity = qty, t_price = price, t_trade_value = (case tv of Some v \<Rightarrow> v | None \<Rightarrow> 0),
      t_timestamp = None, t_product_type = INTRADAY, t_correlation_id = None\<rparr>"

section \<open>Positions\<close>

record position =
  p_symbol :: string
  p_exchange :: string
  p_quantity :: rat
  p_avg_price :: rat
  p_ltp :: rat
  p_unrealized_pnl :: rat
  p_realized_pnl :: rat
  p_product_type :: product_type
  p_correlation_id :: "string option"
  p_instrument_id :: "string option"
  p_multiplier :: rat

definition position_new :: "string \<Rightarrow> string \<Rightarrow> position" where
  "position_new sy exch =
     \<lparr>p_symbol = sy, p_exchange = exch, p_quantity = 0, p_avg_price = 0, p_ltp = 0,
      p_unrealized_pnl = 0, p_realized_pnl = 0, p_product_type = INTRADAY, p_correlation_id = None,
      p_instrument_id = None, p_multiplier = 1\<rparr>"

definition position_mult :: "position \<Rightarrow> rat" where
  "position_mult p = (if 0 < p_multiplier p then p_multiplier p else 1)"

definition position_pnl :: "position \<Rightarrow> rat" where
  "position_pnl p = (let m = position_mult p; qty = trunc_int (p_quantity p) in
     if 0 < qty then dec_mul (dec_mul (of_int qty) (dec_sub (p_ltp p) (p_avg_price p))) m
     else if qty < 0 then dec_mul (dec_mul (of_int \<bar>qty\<bar>) (dec_sub (p_avg_price p) (p_ltp p))) m
     else 0)"

definition position_with_ltp :: "position \<Rightarrow> rat \<Rightarrow> position" where
  "position_with_ltp p ltp = (let m = position_mult p; qty = trunc_int (p_quantity p);
     unrealized = (if qty \<noteq> 0
       then dec_mul (dec_mul (of_int qty) (dec_sub ltp (p_avg_price p))) m else 0) in
     p\<lparr>p_ltp := ltp, p_unrealized_pnl := unrealized\<rparr>)"

definition is_closing :: "int \<Rightarrow> int \<Rightarrow> bool" where
  "is_closing cur fill \<longleftrightarrow> (0 < cur \<and> fill < 0) \<or> (cur < 0 \<and> 0 < fill)"

definition position_compute_avg_price :: "position \<Rightarrow> int \<Rightarrow> int \<Rightarrow> rat \<Rightarrow> rat" where
  "position_compute_avg_price p new_qty fill_qty fill_price =
     (let cur_qty = trunc_int (p_quantity p); avg = p_avg_price p in
      if cur_qty = 0 then fill_price
      else if is_closing cur_qty fill_qty then
        (if new_qty = 0 then 0 else if \<bar>cur_qty\<bar> < \<bar>fill_qty\<bar> then fill_price else avg)
      else dec_div (dec_add (dec_mul (of_int cur_qty) avg) (dec_mul (of_int fill_qty) fill_price)) (of_int new_qty))"

definition position_compute_realized :: "position \<Rightarrow> int \<Rightarrow> rat \<Rightarrow> rat" where
  "position_compute_realized p fill_qty fill_price =
     (let cur_qty = trunc_int (p_quantity p); realized = p_realized_pnl p; avg = p_avg_price p in
      if cur_qty = 0 then realized
      else if \<not> is_closing cur_qty fill_qty then realized
      else
        let closed = min \<bar>cur_qty\<bar> \<bar>fill_qty\<bar>;
            pnl_factor = (if 0 < cur_qty then 1 else - 1);
            m = position_mult p
        in dec_add realized
             (dec_mul (dec_mul (dec_mul (of_int closed) (dec_sub fill_price avg)) pnl_factor) m))"

definition position_compute_unrealized :: "position \<Rightarrow> int \<Rightarrow> rat \<Rightarrow> rat \<Rightarrow> rat" where
  "position_compute_unrealized p new_qty price avg =
     (if new_qty = 0 then 0 else dec_mul (dec_mul (of_int new_qty) (dec_sub price avg)) (position_mult p))"

definition position_with_fill :: "position \<Rightarrow> rat \<Rightarrow> rat \<Rightarrow> position" where
  "position_with_fill p quantity price =
     (let fill_qty = trunc_int quantity;
          cur_qty = trunc_int (p_quantity p);
          new_qty = cur_qty + fill_qty;
          new_avg = position_compute_avg_price p new_qty fill_qty price;
          new_realized = position_compute_realized p fill_qty price;
          new_unrealized = position_compute_unrealized p new_qty price new_avg
      in p\<lparr>p_quantity := of_int new_qty, p_avg_price := new_avg, p_ltp := price,
           p_unrealized_pnl := new_unrealized, p_realized_pnl := new_realized\<rparr>)"

record holding =
  h_symbol :: string
  h_exchange :: string
  h_quantity :: rat
  h_available_quantity :: rat
  h_avg_price :: rat
  h_ltp :: rat
  h_pnl :: rat
  h_correlation_id :: "string option"

section \<open>Facts\<close>

lemma dec_sub_minus: "dec_sub a b = - dec_sub b a"
  by (simp add: dec_sub_def flip: dec_minus)

lemma dec_mul_minus [simp]: "dec_mul (- a) b = - dec_mul a b" "dec_mul a (- b) = - dec_mul a b"
  by (simp_all add: dec_mul_def flip: dec_minus)

text \<open>The value of a position marked at a price: realised plus exact open profit.\<close>

definition marked_equity :: "position \<Rightarrow> rat \<Rightarrow> rat" where
  "marked_equity p mark = p_realized_pnl p +
     of_int (trunc_int (p_quantity p)) * (mark - p_avg_price p) * position_mult p"

text \<open>The decimal operations of a fill of \<open>q\<close> units at \<open>x\<close> do not round.\<close>

definition fill_exact :: "position \<Rightarrow> int \<Rightarrow> rat \<Rightarrow> bool" where
  "fill_exact p q x =
     (let cur = trunc_int (p_quantity p); a = p_avg_price p; m = position_mult p;
          gain = of_int (min \<bar>cur\<bar> \<bar>q\<bar>) * (x - a) in
      if cur = 0 then True
      else if is_closing cur q then
        is_dec (x - a) \<and> is_dec gain \<and> is_dec (gain * m) \<and>
        is_dec (p_realized_pnl p + (if 0 < cur then 1 else - 1) * gain * m)
      else is_dec (of_int cur * a) \<and> is_dec (of_int q * x) \<and> is_dec (of_int cur * a + of_int q * x) \<and>
        is_dec ((of_int cur * a + of_int q * x) / of_int (cur + q)))"

fun fills_exact :: "position \<Rightarrow> (rat \<times> rat) list \<Rightarrow> bool" where
  "fills_exact p [] = True"
| "fills_exact p ((q, x) # fs) = (fill_exact p (trunc_int q) x \<and> fills_exact (position_with_fill p q x) fs)"

definition position_fills :: "position \<Rightarrow> (rat \<times> rat) list \<Rightarrow> position" where
  "position_fills p fs = foldl (\<lambda>p (q, x). position_with_fill p q x) p fs"

lemma position_fills_simps [simp]:
  "position_fills p [] = p"
  "position_fills p ((q, x) # fs) = position_fills (position_with_fill p q x) fs"
  by (simp_all add: position_fills_def)

lemma position_with_fill_simps [simp]:
  "p_quantity (position_with_fill p q x) = of_int (trunc_int (p_quantity p) + trunc_int q)"
  "p_ltp (position_with_fill p q x) = x"
  "p_multiplier (position_with_fill p q x) = p_multiplier p"
  "position_mult (position_with_fill p q x) = position_mult p"
  "p_symbol (position_with_fill p q x) = p_symbol p"
  "p_exchange (position_with_fill p q x) = p_exchange p"
  by (simp_all add: position_with_fill_def position_mult_def Let_def)

lemma dec_exact: "is_dec x \<Longrightarrow> dec x = x"
  by (simp add: is_dec_def)

lemma realized_closing:
  assumes "fill_exact p q x" "is_closing (trunc_int (p_quantity p)) q"
  shows "position_compute_realized p q x = p_realized_pnl p +
    (if 0 < trunc_int (p_quantity p) then 1 else - 1) *
      (of_int (min \<bar>trunc_int (p_quantity p)\<bar> \<bar>q\<bar>) * (x - p_avg_price p)) * position_mult p"
proof -
  define g where "g = of_int (min \<bar>trunc_int (p_quantity p)\<bar> \<bar>q\<bar>) * (x - p_avg_price p)"
  define f :: rat where "f = (if 0 < trunc_int (p_quantity p) then 1 else - 1)"
  have nz: "trunc_int (p_quantity p) \<noteq> 0" using assms(2) by (auto simp: is_closing_def)
  have e: "is_dec (x - p_avg_price p)" "is_dec g" "is_dec (g * position_mult p)"
      "is_dec (p_realized_pnl p + f * g * position_mult p)"
    using assms nz by (simp_all add: fill_exact_def Let_def g_def f_def)
  have f: "dec (g * f) = g * f" "dec (g * f * position_mult p) = f * g * position_mult p"
    using e(2,3) by (auto simp: f_def dec_exact dec_minus)
  have "position_compute_realized p q x =
      dec_add (p_realized_pnl p) (dec_mul (dec_mul (dec_mul (of_int (min \<bar>trunc_int (p_quantity p)\<bar> \<bar>q\<bar>))
        (dec_sub x (p_avg_price p))) f) (position_mult p))"
    using assms(2) nz by (simp add: position_compute_realized_def Let_def f_def)
  also have "\<dots> = p_realized_pnl p + f * g * position_mult p"
    using e f by (simp add: dec_mul_def dec_sub_def dec_add_def dec_exact flip: g_def)
  finally show ?thesis by (simp add: g_def f_def)
qed

lemma avg_adding:
  assumes "fill_exact p q x" "\<not> is_closing (trunc_int (p_quantity p)) q" "trunc_int (p_quantity p) \<noteq> 0"
  shows "position_compute_avg_price p (trunc_int (p_quantity p) + q) q x =
    (of_int (trunc_int (p_quantity p)) * p_avg_price p + of_int q * x) / of_int (trunc_int (p_quantity p) + q)"
  using assms
  by (simp add: position_compute_avg_price_def fill_exact_def Let_def dec_mul_def dec_add_def dec_div_def dec_exact)

lemma equity_fill:
  assumes "fill_exact p (trunc_int q) x"
  shows "marked_equity (position_with_fill p q x) mark =
    marked_equity p mark + of_int (trunc_int q) * (mark - x) * position_mult p"
proof -
  let ?c = "trunc_int (p_quantity p)" and ?q = "trunc_int q" and ?a = "p_avg_price p"
  let ?p = "position_with_fill p q x"
  have avg: "p_avg_price ?p = position_compute_avg_price p (?c + ?q) ?q x"
    and rl: "p_realized_pnl ?p = position_compute_realized p ?q x"
    by (simp_all add: position_with_fill_def Let_def)
  consider (zero) "?c = 0" | (add) "?c \<noteq> 0" "\<not> is_closing ?c ?q" | (close) "is_closing ?c ?q" by auto
  then show ?thesis
  proof cases
    case zero
    then show ?thesis by (simp add: marked_equity_def avg rl position_compute_avg_price_def position_compute_realized_def Let_def)
  next
    case add
    then have "?c + ?q \<noteq> 0" by (auto simp: is_closing_def)
    then have n: "of_int ?c + of_int ?q \<noteq> (0 :: rat)" by (simp flip: of_int_add)
    have "p_realized_pnl ?p = p_realized_pnl p"
      using add by (simp add: rl position_compute_realized_def)
    moreover have "p_avg_price ?p = (of_int ?c * ?a + of_int ?q * x) / (of_int ?c + of_int ?q)"
      using avg_adding[OF assms add(2,1)] by (simp add: avg)
    ultimately show ?thesis using n by (simp add: marked_equity_def) (simp add: field_simps)
  next
    case close
    note r = realized_closing[OF assms close]
    show ?thesis
    proof (cases "?c + ?q = 0")
      case True
      then have q: "?q = - ?c" by linarith
      show ?thesis using close r
        by (auto simp: marked_equity_def avg rl position_compute_avg_price_def Let_def is_closing_def q algebra_simps
            split: if_splits)
    next
      case False
      then show ?thesis using close r
        by (auto simp: marked_equity_def avg rl position_compute_avg_price_def Let_def is_closing_def abs_if min_def
            algebra_simps split: if_splits)
    qed
  qed
qed

lemma equity_fills:
  "fills_exact p fs \<Longrightarrow> marked_equity (position_fills p fs) mark =
     marked_equity p mark + (\<Sum>(q, x) \<leftarrow> fs. of_int (trunc_int q) * (mark - x)) * position_mult p"
  by (induction p fs rule: fills_exact.induct) (simp_all add: equity_fill distrib_right)

lemma position_fills_quantity:
  "trunc_int (p_quantity (position_fills p fs)) = trunc_int (p_quantity p) + (\<Sum>(q, x) \<leftarrow> fs. trunc_int q)"
  by (induction p fs rule: fills_exact.induct) simp_all

lemma pnl_signed:
  "position_pnl p = (if trunc_int (p_quantity p) = 0 then 0 else
     dec_mul (dec_mul (of_int (trunc_int (p_quantity p))) (dec_sub (p_ltp p) (p_avg_price p))) (position_mult p))"
  by (auto simp: position_pnl_def Let_def dec_sub_minus[of "p_avg_price p"] abs_if)

lemma position_mult_pos: "0 < position_mult p"
  by (simp add: position_mult_def)

lemma realized_mono:
  assumes "is_dec (p_realized_pnl p)" "is_closing (trunc_int (p_quantity p)) q"
    and "if 0 < trunc_int (p_quantity p) then p_avg_price p \<le> x else x \<le> p_avg_price p"
  shows "p_realized_pnl p \<le> position_compute_realized p q x"
proof -
  define g where "g = dec_mul (dec_mul (dec_mul (of_int (min \<bar>trunc_int (p_quantity p)\<bar> \<bar>q\<bar>))
        (dec_sub x (p_avg_price p))) (if 0 < trunc_int (p_quantity p) then 1 else - 1)) (position_mult p)"
  have m: "(0 :: rat) \<le> of_int (min \<bar>trunc_int (p_quantity p)\<bar> \<bar>q\<bar>)" by simp
  have "0 \<le> g"
  proof (cases "0 < trunc_int (p_quantity p)")
    case True
    then show ?thesis using assms(3) m position_mult_pos[of p]
      unfolding g_def by (intro dec_mul_sign) (simp_all add: dec_sub_def less_imp_le)
  next
    case False
    define y where "y = dec_mul (of_int (min \<bar>trunc_int (p_quantity p)\<bar> \<bar>q\<bar>)) (dec_sub x (p_avg_price p))"
    have "dec_sub x (p_avg_price p) \<le> 0" using False assms(3) by (simp add: dec_sub_def)
    then have "y \<le> 0" using m unfolding y_def dec_mul_def by (simp only: dec_sign) (rule mult_nonneg_nonpos)
    then have "0 \<le> dec_mul y (- 1)" by (simp add: dec_mul_def dec_minus)
    then have "0 \<le> dec_mul (dec_mul y (- 1)) (position_mult p)"
      by (rule dec_mul_sign(1)) (simp add: less_imp_le position_mult_pos)
    then show ?thesis using False by (simp only: g_def y_def if_False)
  qed
  moreover have "position_compute_realized p q x = dec_add (p_realized_pnl p) g"
    using assms(2) by (auto simp: position_compute_realized_def Let_def g_def is_closing_def)
  ultimately show ?thesis using assms(1) by (auto simp: dec_add_def intro: dec_ge)
qed

section \<open>Rounding of fills\<close>

text \<open>One value is near another up to a share of it; each decimal operation adds to the share.\<close>

definition dec_unit :: rat where
  "dec_unit = 1 / (2 * 10 ^ 27)"

definition near :: "rat \<Rightarrow> rat \<Rightarrow> rat \<Rightarrow> bool" where
  "near c x y \<longleftrightarrow> \<bar>y - x\<bar> \<le> c * \<bar>x\<bar>"

lemma dec_unit_bounds: "0 < dec_unit" "8 * dec_unit \<le> 1"
  by (simp_all add: dec_unit_def)

lemma dec_off: "\<bar>dec x - x\<bar> \<le> dec_unit * \<bar>x\<bar>"
  using dec_error[of x] by (simp add: dec_unit_def)

lemma near_refl: "near 0 x x"
  by (simp add: near_def)

lemma near_scale: "near c x y \<Longrightarrow> near c (k * x) (k * y)"
  unfolding near_def using mult_left_mono[of "\<bar>y - x\<bar>" "c * \<bar>x\<bar>" "\<bar>k\<bar>"]
  by (simp add: abs_mult mult.left_commute flip: right_diff_distrib)

lemma near_size: "near c x y \<Longrightarrow> c \<le> 1 \<Longrightarrow> \<bar>y\<bar> \<le> 2 * \<bar>x\<bar>"
  unfolding near_def using mult_right_mono[of c 1 "\<bar>x\<bar>"] by simp

lemma near_dec:
  assumes "near c x y" "c \<le> 1"
  shows "near (c + 2 * dec_unit) x (dec y)"
proof -
  have "\<bar>dec y - y\<bar> \<le> dec_unit * \<bar>y\<bar>" by (rule dec_off)
  also have "\<dots> \<le> dec_unit * (2 * \<bar>x\<bar>)"
    by (rule mult_left_mono[OF near_size[OF assms]]) (simp add: dec_unit_def)
  finally show ?thesis using assms(1) unfolding near_def by (simp add: distrib_right)
qed

lemma near_mul: "near c x y \<Longrightarrow> c \<le> 1 \<Longrightarrow> near (c + 2 * dec_unit) (k * x) (dec_mul k y)" "near c x y \<Longrightarrow> c \<le> 1 \<Longrightarrow> near (c + 2 * dec_unit) (x * k) (dec_mul y k)"
  using near_dec[OF near_scale, of c x y k] unfolding dec_mul_def by (simp_all add: mult.commute)

text \<open>What a fill moves, in money: the scale of its rounding error.\<close>

definition fill_weight :: "position \<Rightarrow> int \<Rightarrow> rat \<Rightarrow> rat" where
  "fill_weight p q x =
     (let cur = trunc_int (p_quantity p); a = p_avg_price p; m = position_mult p in
      if cur = 0 then 0
      else if is_closing cur q then \<bar>p_realized_pnl p\<bar> + of_int (min \<bar>cur\<bar> \<bar>q\<bar>) * \<bar>x - a\<bar> * m
      else (\<bar>of_int cur * a\<bar> + \<bar>of_int q * x\<bar>) * m)"

fun fills_weight :: "position \<Rightarrow> (rat \<times> rat) list \<Rightarrow> rat" where
  "fills_weight p [] = 0"
| "fills_weight p ((q, x) # fs) = fill_weight p (trunc_int q) x + fills_weight (position_with_fill p q x) fs"

lemma realized_off:
  assumes "is_closing (trunc_int (p_quantity p)) q"
  shows "\<bar>position_compute_realized p q x - (p_realized_pnl p +
    (if 0 < trunc_int (p_quantity p) then 1 else - 1) *
      (of_int (min \<bar>trunc_int (p_quantity p)\<bar> \<bar>q\<bar>) * (x - p_avg_price p)) * position_mult p)\<bar> \<le> 10 * dec_unit * fill_weight p q x"
proof -
  define k :: rat where "k = of_int (min \<bar>trunc_int (p_quantity p)\<bar> \<bar>q\<bar>)"
  define f :: rat where "f = (if 0 < trunc_int (p_quantity p) then 1 else - 1)"
  define g where "g = k * (x - p_avg_price p) * f * position_mult p"
  define y where "y = dec_mul (dec_mul (dec_mul k (dec_sub x (p_avg_price p))) f) (position_mult p)"
  define r where "r = p_realized_pnl p"
  have nz: "trunc_int (p_quantity p) \<noteq> 0" using assms by (auto simp: is_closing_def)
  have u: "dec_unit \<le> 1 / 8" "0 < dec_unit" using dec_unit_bounds by simp_all
  have "near (2 * dec_unit) (x - p_avg_price p) (dec_sub x (p_avg_price p))"
    using near_dec[OF near_refl] by (simp add: dec_sub_def)
  from near_mul(2)[OF near_mul(2)[OF near_mul(1)[OF this, of k], of f], of "position_mult p"] u
  have n: "near (8 * dec_unit) g y" by (simp add: g_def y_def)
  have w: "fill_weight p q x = \<bar>r\<bar> + \<bar>g\<bar>"
    using assms nz position_mult_def[of p] by (simp add: fill_weight_def Let_def g_def k_def f_def r_def abs_mult)
  have "position_compute_realized p q x = dec (r + y)"
    using assms nz by (simp add: position_compute_realized_def Let_def y_def k_def f_def r_def dec_add_def)
  moreover have "\<bar>dec (r + y) - (r + y)\<bar> \<le> dec_unit * (2 * (\<bar>r\<bar> + \<bar>g\<bar>))"
  proof -
    have "\<bar>r + y\<bar> \<le> 2 * (\<bar>r\<bar> + \<bar>g\<bar>)"
      using near_size[OF n] u abs_triangle_ineq[of r y] abs_ge_zero[of r] by (simp add: distrib_left)
    from mult_left_mono[OF this, of dec_unit] show ?thesis using dec_off[of "r + y"] u by linarith
  qed
  moreover have "\<bar>y - g\<bar> \<le> 8 * dec_unit * \<bar>g\<bar>" using n by (simp add: near_def)
  moreover have "8 * dec_unit * \<bar>g\<bar> + dec_unit * (2 * (\<bar>r\<bar> + \<bar>g\<bar>)) \<le> 10 * dec_unit * (\<bar>r\<bar> + \<bar>g\<bar>)"
    using u(2) by (simp add: algebra_simps)
  ultimately have "\<bar>position_compute_realized p q x - (r + g)\<bar> \<le> 10 * dec_unit * (\<bar>r\<bar> + \<bar>g\<bar>)" by linarith
  then show ?thesis unfolding w by (simp add: g_def k_def f_def r_def mult.commute mult.left_commute)
qed

lemma avg_off:
  assumes "\<not> is_closing (trunc_int (p_quantity p)) q" "trunc_int (p_quantity p) \<noteq> 0"
  shows "\<bar>of_int (trunc_int (p_quantity p) + q) * position_compute_avg_price p (trunc_int (p_quantity p) + q) q x -
      (of_int (trunc_int (p_quantity p)) * p_avg_price p + of_int q * x)\<bar> * position_mult p \<le> 10 * dec_unit * fill_weight p q x"
proof -
  define a :: rat where "a = of_int (trunc_int (p_quantity p)) * p_avg_price p"
  define b :: rat where "b = of_int q * x"
  define n :: rat where "n = of_int (trunc_int (p_quantity p) + q)"
  define s where "s = dec_add (dec a) (dec b)"
  have "trunc_int (p_quantity p) + q \<noteq> 0" using assms by (auto simp: is_closing_def)
  then have n: "n \<noteq> 0" by (simp only: n_def of_int_eq_0_iff not_False_eq_True)
  have u: "dec_unit \<le> 1 / 8" "0 < dec_unit" using dec_unit_bounds by simp_all
  have ab: "near (2 * dec_unit) a (dec a)" "near (2 * dec_unit) b (dec b)" using near_dec[OF near_refl] by simp_all
  have sz: "\<bar>dec a\<bar> \<le> 2 * \<bar>a\<bar>" "\<bar>dec b\<bar> \<le> 2 * \<bar>b\<bar>" using ab u by (auto intro: near_size)
  have s1: "\<bar>s - (dec a + dec b)\<bar> \<le> dec_unit * (2 * (\<bar>a\<bar> + \<bar>b\<bar>))"
  proof -
    have "\<bar>dec a + dec b\<bar> \<le> 2 * (\<bar>a\<bar> + \<bar>b\<bar>)" 
      using sz abs_triangle_ineq[of "dec a" "dec b"] by (simp add: distrib_left)
    from mult_left_mono[OF this, of dec_unit] show ?thesis
      unfolding s_def dec_add_def using dec_off[of "dec a + dec b"] u by linarith
  qed
  have "dec_unit * (2 * (\<bar>a\<bar> + \<bar>b\<bar>)) \<le> 1 * (2 * (\<bar>a\<bar> + \<bar>b\<bar>))" using u by (intro mult_right_mono) simp_all
  then have s2: "\<bar>s\<bar> \<le> 4 * (\<bar>a\<bar> + \<bar>b\<bar>)"
    using s1 sz abs_triangle_ineq[of "dec a" "dec b"] abs_triangle_ineq[of "s - (dec a + dec b)" "dec a + dec b"]
    by (simp add: distrib_left)
  have "\<bar>n * dec_div s n - s\<bar> = \<bar>n\<bar> * \<bar>dec (s / n) - s / n\<bar>"
    using n by (simp add: dec_div_def right_diff_distrib flip: abs_mult)
  also have "\<dots> \<le> \<bar>n\<bar> * (dec_unit * \<bar>s / n\<bar>)" by (intro mult_left_mono dec_off) simp
  also have "\<dots> = dec_unit * \<bar>s\<bar>" using n by (simp add: abs_divide)
  finally have s3: "\<bar>n * dec_div s n - s\<bar> \<le> dec_unit * (4 * (\<bar>a\<bar> + \<bar>b\<bar>))"
    using mult_left_mono[OF s2, of dec_unit] u by linarith
  have "\<bar>dec a - a\<bar> \<le> 2 * dec_unit * \<bar>a\<bar>" "\<bar>dec b - b\<bar> \<le> 2 * dec_unit * \<bar>b\<bar>" using ab by (simp_all add: near_def)
  moreover have "2 * dec_unit * \<bar>a\<bar> + 2 * dec_unit * \<bar>b\<bar> + dec_unit * (2 * (\<bar>a\<bar> + \<bar>b\<bar>)) + dec_unit * (4 * (\<bar>a\<bar> + \<bar>b\<bar>))
      \<le> 10 * dec_unit * (\<bar>a\<bar> + \<bar>b\<bar>)"
    using u(2) by (simp add: algebra_simps)
  ultimately have e: "\<bar>n * dec_div s n - (a + b)\<bar> \<le> 10 * dec_unit * (\<bar>a\<bar> + \<bar>b\<bar>)" using s1 s3 by linarith
  have "position_compute_avg_price p (trunc_int (p_quantity p) + q) q x = dec_div s n"
    using assms by (simp add: position_compute_avg_price_def Let_def s_def n_def a_def b_def dec_mul_def)
  moreover have "fill_weight p q x = (\<bar>a\<bar> + \<bar>b\<bar>) * position_mult p"
    using assms by (simp add: fill_weight_def Let_def a_def b_def)
  ultimately show ?thesis
    using mult_right_mono[OF e, of "position_mult p"] position_mult_pos[of p]
    by (simp add: n_def a_def b_def mult.assoc del: of_int_add)
qed

lemma equity_off:
  "\<bar>marked_equity (position_with_fill p q x) mark - (marked_equity p mark + of_int (trunc_int q) * (mark - x) * position_mult p)\<bar>
     \<le> 10 * dec_unit * fill_weight p (trunc_int q) x"
proof -
  let ?c = "trunc_int (p_quantity p)" and ?q = "trunc_int q" and ?a = "p_avg_price p" and ?m = "position_mult p"
  let ?p = "position_with_fill p q x"
  have avg: "p_avg_price ?p = position_compute_avg_price p (?c + ?q) ?q x"
    and rl: "p_realized_pnl ?p = position_compute_realized p ?q x"
    by (simp_all add: position_with_fill_def Let_def)
  have me: "marked_equity ?p mark = position_compute_realized p ?q x + of_int (?c + ?q) * (mark - position_compute_avg_price p (?c + ?q) ?q x) * ?m"
    by (simp add: marked_equity_def avg rl)
  consider (zero) "?c = 0" | (add) "?c \<noteq> 0" "\<not> is_closing ?c ?q" | (close) "is_closing ?c ?q" by auto
  then show ?thesis
  proof cases
    case zero
    then show ?thesis by (simp add: marked_equity_def avg rl position_compute_avg_price_def position_compute_realized_def fill_weight_def Let_def)
  next
    case add
    define A where "A = position_compute_avg_price p (?c + ?q) ?q x"
    have "position_compute_realized p ?q x = p_realized_pnl p" using add by (simp add: position_compute_realized_def)
    then have "marked_equity ?p mark - (marked_equity p mark + of_int ?q * (mark - x) * ?m) =
        - ((of_int (?c + ?q) * A - (of_int ?c * ?a + of_int ?q * x)) * ?m)"
      unfolding me marked_equity_def[of p] by (simp add: A_def algebra_simps)
    then have "\<bar>marked_equity ?p mark - (marked_equity p mark + of_int ?q * (mark - x) * ?m)\<bar> =
        \<bar>of_int (?c + ?q) * A - (of_int ?c * ?a + of_int ?q * x)\<bar> * ?m"
      using position_mult_pos[of p] by (simp only: abs_minus_cancel abs_mult abs_of_pos)
    then show ?thesis using avg_off[OF add(2,1), of x] by (simp only: A_def)
  next
    case close
    define R where "R = position_compute_realized p ?q x"
    define E where "E = p_realized_pnl p + (if 0 < ?c then 1 else - 1) * (of_int (min \<bar>?c\<bar> \<bar>?q\<bar>) * (x - ?a)) * ?m"
    define A where "A = position_compute_avg_price p (?c + ?q) ?q x"
    have me': "marked_equity ?p mark = R + of_int (?c + ?q) * (mark - A) * ?m" by (simp only: me R_def A_def)
    have A: "A = (if ?c + ?q = 0 then 0 else if \<bar>?c\<bar> \<le> \<bar>?q\<bar> then x else ?a)"
      using close by (auto simp: A_def position_compute_avg_price_def Let_def is_closing_def)
    have "marked_equity ?p mark - (marked_equity p mark + of_int ?q * (mark - x) * ?m) = R - E"
    proof (cases "?c + ?q = 0")
      case True
      then have q: "?q = - ?c" by linarith
      show ?thesis using close unfolding me' E_def marked_equity_def[of p] by (auto simp: is_closing_def q algebra_simps)
    next
      case False
      then show ?thesis using close
        unfolding me' A E_def marked_equity_def[of p]
        by (auto simp: is_closing_def abs_if min_def algebra_simps split: if_splits)
    qed
    then show ?thesis using realized_off[OF close, of x] by (simp only: R_def E_def)
  qed
qed

lemma equities_off:
  "\<bar>marked_equity (position_fills p fs) mark - (marked_equity p mark + (\<Sum>(q, x) \<leftarrow> fs. of_int (trunc_int q) * (mark - x)) * position_mult p)\<bar>
     \<le> 10 * dec_unit * fills_weight p fs"
proof (induction p fs rule: fills_weight.induct)
  case (2 p q x fs)
  then show ?case using equity_off[of p q x mark] by (simp add: distrib_right distrib_left)
qed simp

section \<open>Properties\<close>

text \<open>
  C8: fills conserve value up to rounding. After any sequence of signed fills, the realised
  profit plus the open quantity marked at any price is the initial value plus, for every fill,
  its quantity times the distance of the mark from the fill price and the contract multiplier;
  the decimal operations put it off by at most one part in \<open>2 * 10 ^ 26\<close> of the money the fills
  moved, and not at all when none of them rounds. Quantities add up exactly.
\<close>

theorem fills_conserve_equity:
  "(let expected = marked_equity p mark + (\<Sum>(q, x) \<leftarrow> fs. of_int (trunc_int q) * (mark - x)) * position_mult p in
    \<bar>marked_equity (position_fills p fs) mark - expected\<bar> \<le> fills_weight p fs / (2 * 10 ^ 26) \<and>
    (fills_exact p fs \<longrightarrow> marked_equity (position_fills p fs) mark = expected)) \<and>
   trunc_int (p_quantity (position_fills p fs)) = trunc_int (p_quantity p) + (\<Sum>(q, x) \<leftarrow> fs. trunc_int q)"
  using equities_off[of p fs mark] by (simp add: Let_def equity_fills position_fills_quantity dec_unit_def)

text \<open>Fills that do not round, and fills whose average price rounds.\<close>

lemma fills_conserve_equity_witness:
  "marked_equity (position_fills (position_new ''INFY'' ''NSE'') [(10, 100), (10, 110), (- 25, 120)]) 130 = 250 \<and>
   \<bar>marked_equity (position_fills (position_new ''INFY'' ''NSE'') [(1, 100), (2, 101)]) 130 - 88\<bar> \<le> 302 / (2 * 10 ^ 26)"
proof -
  have "fills_exact (position_new ''INFY'' ''NSE'') [(10, 100), (10, 110), (- 25, 120)]"
    by (simp add: fill_exact_def position_with_fill_def position_compute_avg_price_def is_closing_def
        position_compute_realized_def position_compute_unrealized_def position_new_def position_mult_def
        dec_mul_def dec_add_def dec_div_def dec_sub_def Let_def)
  moreover have "fills_weight (position_new ''INFY'' ''NSE'') [(1, 100), (2, 101)] = 302" by code_simp
  moreover have "position_mult (position_new ''INFY'' ''NSE'') = 1" "marked_equity (position_new ''INFY'' ''NSE'') 130 = 0" by code_simp+
  ultimately show ?thesis
    using fills_conserve_equity[of "position_new ''INFY'' ''NSE''" 130 "[(10, 100), (10, 110), (- 25, 120)]"]
      fills_conserve_equity[of "position_new ''INFY'' ''NSE''" 130 "[(1, 100), (2, 101)]"]
    by (simp add: Let_def)
qed

text \<open>
  The profit \<open>Position.pnl\<close> reports is the unrealised profit that \<open>with_fill\<close> and
  \<open>with_ltp\<close> store, long or short, in spite of rounding; a fill that does not close
  leaves the realised profit alone, and a fill that closes at a price no worse than the
  average never lowers it.
\<close>

theorem pnl_consistent:
  "position_pnl (position_with_fill p q x) = p_unrealized_pnl (position_with_fill p q x) \<and>
   position_pnl (position_with_ltp p l) = p_unrealized_pnl (position_with_ltp p l) \<and>
   (if is_closing (trunc_int (p_quantity p)) (trunc_int q)
    then is_dec (p_realized_pnl p) \<and>
       (if 0 < trunc_int (p_quantity p) then p_avg_price p \<le> x else x \<le> p_avg_price p) \<longrightarrow>
       p_realized_pnl p \<le> p_realized_pnl (position_with_fill p q x)
    else p_realized_pnl (position_with_fill p q x) = p_realized_pnl p)"
proof (intro conjI)
  show "position_pnl (position_with_fill p q x) = p_unrealized_pnl (position_with_fill p q x)"
    unfolding pnl_signed
    by (simp add: position_with_fill_def position_compute_unrealized_def position_mult_def Let_def)
  show "position_pnl (position_with_ltp p l) = p_unrealized_pnl (position_with_ltp p l)"
    unfolding pnl_signed by (simp add: position_with_ltp_def position_mult_def Let_def)
  have r: "p_realized_pnl (position_with_fill p q x) = position_compute_realized p (trunc_int q) x"
    by (simp add: position_with_fill_def Let_def)
  show "if is_closing (trunc_int (p_quantity p)) (trunc_int q)
    then is_dec (p_realized_pnl p) \<and>
       (if 0 < trunc_int (p_quantity p) then p_avg_price p \<le> x else x \<le> p_avg_price p) \<longrightarrow>
       p_realized_pnl p \<le> p_realized_pnl (position_with_fill p q x)
    else p_realized_pnl (position_with_fill p q x) = p_realized_pnl p"
    using realized_mono[of p "trunc_int q" x] unfolding r
    by (simp add: position_compute_realized_def Let_def)
qed

lemma pnl_consistent_witness:
  "0 \<le> p_realized_pnl (position_with_fill ((position_new ''INFY'' ''NSE'')\<lparr>p_quantity := - 10, p_avg_price := 7\<rparr>) 4 (20 / 3))"
  using pnl_consistent[of "(position_new ''INFY'' ''NSE'')\<lparr>p_quantity := - 10, p_avg_price := 7\<rparr>" 4 "20 / 3" 0]
  by (simp add: position_new_def is_closing_def)

end
