(* ===== verification/Fills.thy ===== *)
theory Fills
  imports Entities "HOL-Library.Product_Lexorder" "HOL-Library.List_Lexorder" "HOL-Library.Char_ord"
    "HOL-Library.Multiset"
begin

text \<open>
  From fills to positions: the keys of \<open>domain/symbols.py\<close>, the fill reducer of
  \<open>domain/fill_reducer.py\<close>, the portfolio projector and the simulation fill pipeline of
  \<open>domain/simulation.py\<close>, and the rebuilding of a projector from ledger fills
  (\<open>domain/ledger_recovery.py\<close>, \<open>LedgerFillRecord\<close> of \<open>domain/execution_contracts.py\<close>).
\<close>

section \<open>Keys\<close>

definition normalize_symbol :: "string \<Rightarrow> string" where
  "normalize_symbol s = py_upper (py_strip s)"

definition normalize_exchange :: "string \<Rightarrow> string" where
  "normalize_exchange s = py_upper (py_strip s)"

definition make_position_key :: "string \<Rightarrow> string \<Rightarrow> string" where
  "make_position_key symbol exchange = normalize_symbol symbol @ '':'' @ normalize_exchange exchange"

definition make_instrument_key :: "string \<Rightarrow> string \<Rightarrow> string \<times> string" where
  "make_instrument_key symbol exchange = (normalize_symbol symbol, normalize_exchange exchange)"

section \<open>Fill reducer\<close>

text \<open>
  Fees, taxes, times and broker annotations of a fill are not read by the reducer. It works
  on any kind of quantity: the order book hands it quantity objects, whose sums are rounded
  decimals, the simulation plain integers. The addition is an argument where it is used.
\<close>

record 'q fill_event =
  f_fill_id :: string
  f_order_id :: string
  f_quantity :: 'q
  f_cumulative_quantity :: 'q
  f_price :: rat

definition is_blank :: "string \<Rightarrow> bool" where
  "is_blank s \<longleftrightarrow> s = [] \<or> py_strip s = []"

definition mk_fill_event :: "('q :: {linorder, zero}) fill_event \<Rightarrow> 'q fill_event res" where
  "mk_fill_event f =
     (if is_blank (f_fill_id f) then Inl (ValueError ''fill_id is required'')
      else if is_blank (f_order_id f) then Inl (ValueError ''order_id is required'')
      else if f_quantity f < 0 then Inl (ValueError ''fill quantity cannot be negative'')
      else if f_cumulative_quantity f < 0 then Inl (ValueError ''cumulative_quantity cannot be negative'')
      else Inr f)"

datatype 'q fill_reject =
    DuplicateFill string
  | CumulativeDecreased 'q 'q
  | ExceedsOrder 'q 'q

record 'q fill_reducer =
  fr_seen :: "string list"
  fr_cumulative :: "(string, 'q) dict"

definition fr_init :: "'q fill_reducer" where
  "fr_init = \<lparr>fr_seen = [], fr_cumulative = []\<rparr>"

definition dict_get_or :: "('k, 'v) dict \<Rightarrow> 'k \<Rightarrow> 'v \<Rightarrow> 'v" where
  "dict_get_or d k v = (case dict_get d k of None \<Rightarrow> v | Some w \<Rightarrow> w)"

text \<open>\<open>None\<close>: the fill is accepted.\<close>

definition fr_validate ::
  "('q :: {linorder, zero}) fill_reducer \<Rightarrow> 'q fill_event \<Rightarrow> 'q \<Rightarrow> 'q \<Rightarrow> 'q fill_reject option" where
  "fr_validate r f order_quantity prior_cumulative =
     (if f_fill_id f \<in> set (fr_seen r) then Some (DuplicateFill (f_fill_id f))
      else
        let baseline = max prior_cumulative (dict_get_or (fr_cumulative r) (f_order_id f) 0) in
        if f_cumulative_quantity f < baseline
        then Some (CumulativeDecreased (f_cumulative_quantity f) baseline)
        else if order_quantity < f_cumulative_quantity f
        then Some (ExceedsOrder (f_cumulative_quantity f) order_quantity)
        else None)"

definition fr_commit :: "'q fill_reducer \<Rightarrow> 'q fill_event \<Rightarrow> 'q fill_reducer" where
  "fr_commit r f =
     r\<lparr>fr_seen := List.insert (f_fill_id f) (fr_seen r),
       fr_cumulative := dict_put (fr_cumulative r) (f_order_id f) (f_cumulative_quantity f)\<rparr>"

definition fr_apply ::
  "('q :: {linorder, zero}) fill_reducer \<Rightarrow> 'q fill_event \<Rightarrow> 'q \<Rightarrow> 'q \<Rightarrow> 'q fill_reject option \<times> 'q fill_reducer" where
  "fr_apply r f order_quantity prior_cumulative =
     (case fr_validate r f order_quantity prior_cumulative of
        None \<Rightarrow> (None, fr_commit r f)
      | Some e \<Rightarrow> (Some e, r))"

definition fill_from_trade ::
  "('q \<Rightarrow> 'q \<Rightarrow> 'q) \<Rightarrow> string \<Rightarrow> string \<Rightarrow> 'q :: {linorder, zero} \<Rightarrow> 'q \<Rightarrow> rat \<Rightarrow> 'q fill_event res" where
  "fill_from_trade add tid oid qty prior_filled price =
     mk_fill_event \<lparr>f_fill_id = tid, f_order_id = oid, f_quantity = qty,
       f_cumulative_quantity = add prior_filled qty, f_price = price\<rparr>"

section \<open>Portfolio projector\<close>

definition project_trade :: "position \<Rightarrow> trade \<Rightarrow> position" where
  "project_trade current t =
     (let qty = trunc_int (t_quantity t); delta = (if t_side t = BUY then qty else - qty)
      in position_with_fill current (of_int delta) (t_price t))"

type_synonym projector = "(string, position) dict"

definition projector_apply_trade :: "projector \<Rightarrow> trade \<Rightarrow> projector" where
  "projector_apply_trade ps t =
     (let key = make_position_key (t_symbol t) (t_exchange t);
          current = dict_get_or ps key (position_new (t_symbol t) (t_exchange t))
      in dict_put ps key (project_trade current t))"

definition projector_get_position :: "projector \<Rightarrow> string \<Rightarrow> string \<Rightarrow> position option" where
  "projector_get_position ps symbol exchange = dict_get ps (make_position_key symbol exchange)"

definition projector_mark_ltp :: "projector \<Rightarrow> string \<Rightarrow> string \<Rightarrow> rat \<Rightarrow> projector" where
  "projector_mark_ltp ps symbol exchange ltp =
     (let key = make_position_key symbol exchange in
      case dict_get ps key of
        Some p \<Rightarrow> if trunc_int (p_quantity p) \<noteq> 0 then dict_put ps key (position_with_ltp p ltp) else ps
      | None \<Rightarrow> ps)"

definition projector_total_realized :: "projector \<Rightarrow> rat" where
  "projector_total_realized ps = flt (dec_sum (map p_realized_pnl (dict_values ps)))"

section \<open>Simulation fill pipeline\<close>

record pipeline =
  pl_reducer :: "int fill_reducer"
  pl_projector :: projector
  pl_filled :: "(string, int) dict"

definition pl_init :: pipeline where
  "pl_init = \<lparr>pl_reducer = fr_init, pl_projector = [], pl_filled = []\<rparr>"

definition pl_order_id :: "trade \<Rightarrow> string" where
  "pl_order_id t = (if t_order_id t = [] then ''sim-'' @ t_trade_id t else t_order_id t)"

definition pipeline_apply_trade :: "pipeline \<Rightarrow> trade \<Rightarrow> int option \<Rightarrow> bool res \<times> pipeline" where
  "pipeline_apply_trade p t order_quantity =
     (if t_quantity t \<le> 0 then (Inr False, p)
      else
        let order_id = pl_order_id t;
            qty_int = trunc_int (t_quantity t);
            oq = (case order_quantity of Some q \<Rightarrow> q | None \<Rightarrow> qty_int);
            prior = dict_get_or (pl_filled p) order_id 0
        in case fill_from_trade (+) (t_trade_id t) order_id qty_int prior (t_price t) of
             Inl e \<Rightarrow> (Inl e, p)
           | Inr fill \<Rightarrow>
               (case fr_apply (pl_reducer p) fill oq prior of
                  (Some _, r) \<Rightarrow> (Inr False, p\<lparr>pl_reducer := r\<rparr>)
                | (None, r) \<Rightarrow>
                    (Inr True, p\<lparr>pl_reducer := r,
                       pl_filled := dict_put (pl_filled p) order_id (prior + qty_int),
                       pl_projector := projector_apply_trade (pl_projector p) t\<rparr>)))"

section \<open>Ledger recovery\<close>

text \<open>The counts of a ledger fill are plain integers when it is read back, and quantity objects when the order book writes it.\<close>

record 'q ledger_fill =
  lf_fill_id :: string
  lf_order_id :: string
  lf_symbol :: string
  lf_exchange :: string
  lf_side :: order_side
  lf_quantity :: 'q
  lf_cumulative_quantity :: 'q
  lf_order_quantity :: 'q
  lf_price :: rat
  lf_event_time :: int

definition mk_ledger_fill :: "('q :: {linorder, zero}) ledger_fill \<Rightarrow> datetime \<Rightarrow> 'q ledger_fill res" where
  "mk_ledger_fill f when =
     (if lf_fill_id f = [] \<or> lf_order_id f = [] then Inl (ValueError ''ledger fill identifiers are required'')
      else if lf_quantity f \<le> 0 then Inl (ValueError ''ledger fill quantity must be positive'')
      else (case when of
              Naive _ \<Rightarrow> Inl (ValueError ''ledger fill event_time must be timezone-aware'')
            | Aware n \<Rightarrow> Inr (f\<lparr>lf_event_time := n\<rparr>)))"

definition trade_of_fill :: "int ledger_fill \<Rightarrow> trade" where
  "trade_of_fill f =
     \<lparr>t_trade_id = lf_fill_id f, t_order_id = lf_order_id f, t_symbol = lf_symbol f,
      t_exchange = lf_exchange f, t_side = lf_side f, t_quantity = of_int (lf_quantity f),
      t_price = lf_price f, t_trade_value = dec_mul (lf_price f) (of_int (lf_quantity f)),
      t_timestamp = Some (Aware (lf_event_time f)), t_product_type = INTRADAY, t_correlation_id = None\<rparr>"

text \<open>The replay loop; an exception ends it.\<close>

fun replay_fills :: "pipeline \<Rightarrow> int ledger_fill list \<Rightarrow> pipeline res" where
  "replay_fills p [] = Inr p"
| "replay_fills p (f # fs) =
     (case pipeline_apply_trade p (trade_of_fill f) (Some (lf_order_quantity f)) of
        (Inl e, _) \<Rightarrow> Inl e
      | (Inr _, p') \<Rightarrow> replay_fills p' fs)"

definition fill_sort_key :: "int ledger_fill \<Rightarrow> int \<times> string" where
  "fill_sort_key f = (lf_event_time f, lf_fill_id f)"

definition rebuild_projector_from_fills :: "int ledger_fill list \<Rightarrow> projector res" where
  "rebuild_projector_from_fills fills =
     (case replay_fills pl_init (sort_key fill_sort_key fills) of
        Inl e \<Rightarrow> Inl e | Inr p \<Rightarrow> Inr (pl_projector p))"

section \<open>Facts about the reducer\<close>

lemma dict_get_or_put [simp]:
  "dict_get_or (dict_put d k v) k' w = (if k' = k then v else dict_get_or d k' w)"
  by (simp add: dict_get_or_def)

lemma dict_get_or_nil [simp]: "dict_get_or [] k w = w"
  by (simp add: dict_get_or_def)

fun fr_step :: "('q :: {linorder, zero}) fill_reducer \<Rightarrow> 'q fill_event \<times> 'q \<times> 'q \<Rightarrow> 'q fill_reducer" where
  "fr_step r (f, oq, prior) = snd (fr_apply r f oq prior)"

definition fr_total :: "('q :: {linorder, zero}) fill_reducer \<Rightarrow> string \<Rightarrow> 'q" where
  "fr_total r oid = dict_get_or (fr_cumulative r) oid 0"

lemma fr_commit_simps [simp]:
  "set (fr_seen (fr_commit r f)) = insert (f_fill_id f) (set (fr_seen r))"
  "dict_get_or (fr_cumulative (fr_commit r f)) oid 0 =
     (if oid = f_order_id f then f_cumulative_quantity f else dict_get_or (fr_cumulative r) oid 0)"
  by (simp_all add: fr_commit_def)

lemma fr_step_total: "fr_total r \<le> fr_total (fr_step r x)"
  by (cases x) (auto simp: fr_apply_def fr_validate_def fr_total_def le_fun_def Let_def not_less)

lemma fr_step_seen: "set (fr_seen r) \<subseteq> set (fr_seen (fr_step r x))"
  by (cases x) (auto simp: fr_apply_def fr_validate_def Let_def split: option.splits)

interpretation reducer_total: monotone_system fr_step fr_total
  by unfold_locales (rule fr_step_total)

interpretation reducer_seen: monotone_system fr_step "\<lambda>r. set (fr_seen r)"
  by unfold_locales (rule fr_step_seen)

section \<open>Facts about the pipeline\<close>

fun pl_step :: "pipeline \<Rightarrow> trade \<times> int option \<Rightarrow> pipeline" where
  "pl_step p (t, oq) = snd (pipeline_apply_trade p t oq)"

fun pl_accepts :: "pipeline \<Rightarrow> trade \<times> int option \<Rightarrow> bool" where
  "pl_accepts p (t, oq) \<longleftrightarrow> fst (pipeline_apply_trade p t oq) = Inr True"

text \<open>The limit an operation imposes on its order.\<close>

fun pl_limit :: "trade \<times> int option \<Rightarrow> int" where
  "pl_limit (t, oq) = (case oq of Some q \<Rightarrow> q | None \<Rightarrow> trunc_int (t_quantity t))"

definition pl_total :: "pipeline \<Rightarrow> string \<Rightarrow> int" where
  "pl_total p oid = dict_get_or (pl_filled p) oid 0"

definition pl_inv :: "pipeline \<Rightarrow> bool" where
  "pl_inv p \<longleftrightarrow> (\<forall>oid. fr_total (pl_reducer p) oid = pl_total p oid \<and> 0 \<le> pl_total p oid)"

lemma pl_inv_init: "pl_inv pl_init"
  by (simp add: pl_inv_def pl_init_def fr_init_def fr_total_def pl_total_def)

lemma pl_accepts_iff:
  assumes "pl_inv p"
  shows "pl_accepts p (t, oq) \<longleftrightarrow> 0 < t_quantity t \<and> \<not> is_blank (t_trade_id t) \<and> \<not> is_blank (pl_order_id t) \<and>
    t_trade_id t \<notin> set (fr_seen (pl_reducer p)) \<and>
    pl_total p (pl_order_id t) + trunc_int (t_quantity t) \<le> pl_limit (t, oq)"
proof (cases "0 < t_quantity t")
  case True
  then have q: "0 \<le> trunc_int (t_quantity t)" by (simp add: trunc_int_nonneg)
  have i: "dict_get_or (fr_cumulative (pl_reducer p)) (pl_order_id t) 0 = pl_total p (pl_order_id t)"
      "0 \<le> pl_total p (pl_order_id t)"
    using assms by (simp_all add: pl_inv_def fr_total_def)
  then show ?thesis using True q
    by (auto simp: pipeline_apply_trade_def fill_from_trade_def mk_fill_event_def fr_apply_def fr_validate_def
        Let_def not_le pl_total_def[symmetric] split: option.splits)
qed (simp add: pipeline_apply_trade_def)

lemma pl_step_rejected: "\<not> pl_accepts p x \<Longrightarrow> pl_step p x = p"
  by (cases x) (auto simp: pipeline_apply_trade_def fr_apply_def Let_def split: sum.splits option.splits if_splits)

lemma pl_step_accepted:
  assumes "pl_accepts p (t, oq)"
  shows "pl_projector (pl_step p (t, oq)) = projector_apply_trade (pl_projector p) t"
    and "pl_total (pl_step p (t, oq)) oid =
      pl_total p oid + (if oid = pl_order_id t then trunc_int (t_quantity t) else 0)"
    and "set (fr_seen (pl_reducer (pl_step p (t, oq)))) = insert (t_trade_id t) (set (fr_seen (pl_reducer p)))"
    and "fr_total (pl_reducer (pl_step p (t, oq))) oid =
      (if oid = pl_order_id t then pl_total p oid + trunc_int (t_quantity t) else fr_total (pl_reducer p) oid)"
  using assms
  by (auto simp: pipeline_apply_trade_def fill_from_trade_def mk_fill_event_def fr_apply_def pl_total_def fr_total_def
      Let_def split: sum.splits option.splits if_splits)

declare pl_step.simps [simp del] pl_accepts.simps [simp del] pl_limit.simps [simp del]

lemma pl_inv_step [inv_intros]: "pl_inv p \<Longrightarrow> pl_inv (pl_step p x)"
proof (cases x; cases "pl_accepts p x")
  fix t oq assume x: "x = (t, oq)" and a: "pl_accepts p x" and i: "pl_inv p"
  then have "0 < t_quantity t" using pl_accepts_iff[OF i] by simp
  then have "0 \<le> trunc_int (t_quantity t)" by (simp add: trunc_int_nonneg)
  then show ?thesis using i a pl_step_accepted[of p t oq] by (simp add: pl_inv_def x)
qed (simp add: pl_step_rejected)

lemma pl_total_mono: "pl_inv p \<Longrightarrow> pl_total p oid \<le> pl_total (pl_step p x) oid"
proof (cases x; cases "pl_accepts p x")
  fix t oq assume x: "x = (t, oq)" and a: "pl_accepts p x" and i: "pl_inv p"
  then have "0 < t_quantity t" using pl_accepts_iff[OF i] by simp
  then have "0 \<le> trunc_int (t_quantity t)" by (simp add: trunc_int_nonneg)
  then show ?thesis using a pl_step_accepted[of p t oq] by (simp add: x)
qed (simp add: pl_step_rejected)

lemma pl_seen_mono: "set (fr_seen (pl_reducer p)) \<subseteq> set (fr_seen (pl_reducer (pl_step p x)))"
  by (cases x; cases "pl_accepts p x") (auto simp: pl_step_rejected pl_step_accepted)

lemma pl_reject_stays: "pl_inv p \<Longrightarrow> \<not> pl_accepts p x \<Longrightarrow> \<not> pl_accepts (pl_step p y) x"
proof (cases x)
  fix t oq assume i: "pl_inv p" and r: "\<not> pl_accepts p x" and x: "x = (t, oq)"
  show ?thesis
    using r pl_accepts_iff[OF i, of t oq] pl_accepts_iff[OF pl_inv_step[OF i, of y], of t oq]
      pl_total_mono[OF i, of "pl_order_id t" y] pl_seen_mono[of p y]
    unfolding x by auto
qed

lemma pl_reject_after: "pl_inv p \<Longrightarrow> \<not> pl_accepts (pl_step p x) x"
proof (cases "pl_accepts p x"; cases x)
  fix t oq assume i: "pl_inv p" and a: "pl_accepts p x" and x: "x = (t, oq)"
  then have "t_trade_id t \<in> set (fr_seen (pl_reducer (pl_step p x)))"
    using pl_step_accepted(3)[of p t oq] by simp
  then show ?thesis using pl_accepts_iff[OF pl_inv_step[OF i, of x], of t oq] x by blast
qed (simp_all add: pl_step_rejected)

interpretation pipeline_redelivery: redelivery pl_step "\<lambda>p x. \<not> pl_accepts p x" pl_inv
  by unfold_locales (simp_all add: pl_step_rejected pl_reject_after pl_reject_stays pl_inv_step)

interpretation pipeline_system: invariant_system pl_step pl_inv
  by unfold_locales (rule pl_inv_step)

text \<open>The trades a run lets through.\<close>

fun accepted_trades :: "pipeline \<Rightarrow> (trade \<times> int option) list \<Rightarrow> trade list" where
  "accepted_trades p [] = []"
| "accepted_trades p (x # xs) = (if pl_accepts p x then [fst x] else []) @ accepted_trades (pl_step p x) xs"

lemma accepted_projector:
  "pl_projector (run_ops pl_step p xs) = foldl projector_apply_trade (pl_projector p) (accepted_trades p xs)"
  by (induction p xs rule: accepted_trades.induct)
     (auto simp: pl_step_rejected pl_step_accepted)

lemma accepted_total:
  "pl_total (run_ops pl_step p xs) oid =
   pl_total p oid + (\<Sum>t \<leftarrow> filter (\<lambda>t. pl_order_id t = oid) (accepted_trades p xs). trunc_int (t_quantity t))"
  by (induction p xs rule: accepted_trades.induct)
     (auto simp: pl_step_rejected pl_step_accepted)

lemma accepted_fresh:
  "pl_inv p \<Longrightarrow> distinct (map t_trade_id (accepted_trades p xs)) \<and>
     set (map t_trade_id (accepted_trades p xs)) \<inter> set (fr_seen (pl_reducer p)) = {}"
proof (induction p xs rule: accepted_trades.induct)
  case (2 p x xs)
  obtain t oq where x: "x = (t, oq)" by (cases x)
  note ih = 2(1)[OF pl_inv_step[OF 2(2)]]
  show ?case
  proof (cases "pl_accepts p x")
    case True
    then have "t_trade_id t \<notin> set (fr_seen (pl_reducer p))" using pl_accepts_iff[OF 2(2), of t oq] by (simp add: x)
    then show ?thesis using ih True pl_step_accepted(3)[of p t oq]
      by (auto simp: x)
  next
    case False
    then show ?thesis using ih by (simp add: pl_step_rejected)
  qed
qed simp

lemma run_total_limit:
  "pl_inv p \<Longrightarrow> pl_total p oid \<le> L \<Longrightarrow> (\<And>x. x \<in> set xs \<Longrightarrow> pl_order_id (fst x) = oid \<Longrightarrow> pl_limit x \<le> L) \<Longrightarrow>
   pl_total (run_ops pl_step p xs) oid \<le> L"
proof (induction xs arbitrary: p)
  case (Cons x xs)
  obtain t oq where x: "x = (t, oq)" by (cases x)
  have "pl_total (pl_step p x) oid \<le> L"
  proof (cases "pl_accepts p x")
    case True
    then show ?thesis using pl_accepts_iff[OF Cons.prems(1), of t oq] pl_step_accepted(2)[of p t oq oid]
        Cons.prems(2) Cons.prems(3)[of x] by (auto simp: x)
  qed (simp add: pl_step_rejected Cons.prems)
  then show ?case using Cons.IH[OF pl_inv_step[OF Cons.prems(1)]] Cons.prems(3) by simp
qed simp

section \<open>Facts about recovery\<close>

definition lf_op :: "int ledger_fill \<Rightarrow> trade \<times> int option" where
  "lf_op f = (trade_of_fill f, Some (lf_order_quantity f))"

lemma replay_twice: "pl_inv p \<Longrightarrow> replay_fills p (f # f # fs) = replay_fills p (f # fs)"
proof -
  assume i: "pl_inv p"
  obtain r p' where rp: "pipeline_apply_trade p (trade_of_fill f) (Some (lf_order_quantity f)) = (r, p')"
    by (cases "pipeline_apply_trade p (trade_of_fill f) (Some (lf_order_quantity f))")
  show ?thesis
  proof (cases r)
    case (Inr b)
    have p': "p' = pl_step p (lf_op f)" by (simp add: lf_op_def pl_step.simps rp)
    obtain r2 p2 where rp2: "pipeline_apply_trade p' (trade_of_fill f) (Some (lf_order_quantity f)) = (r2, p2)"
      by (cases "pipeline_apply_trade p' (trade_of_fill f) (Some (lf_order_quantity f))")
    have "p2 = p'"
      using pipeline_redelivery.absorbed_skip[OF pl_reject_after[OF i, of "lf_op f"]]
      by (simp add: p' lf_op_def pl_step.simps rp2[unfolded p' lf_op_def pl_step.simps])
    moreover have "\<exists>b2. r2 = Inr b2"
    proof -
      have "0 < t_quantity (trade_of_fill f) \<Longrightarrow> \<not> is_blank (lf_fill_id f) \<and> \<not> is_blank (pl_order_id (trade_of_fill f)) \<and>
          0 \<le> trunc_int (t_quantity (trade_of_fill f))"
        using rp Inr by (auto simp: pipeline_apply_trade_def fill_from_trade_def mk_fill_event_def Let_def trade_of_fill_def
            split: if_splits)
      moreover have "0 \<le> pl_total p' (pl_order_id (trade_of_fill f))"
        using pl_inv_step[OF i, of "lf_op f"] by (simp add: pl_inv_def p')
      ultimately show ?thesis using rp2
        by (auto simp: pipeline_apply_trade_def fill_from_trade_def mk_fill_event_def Let_def trade_of_fill_def pl_total_def
            split: if_splits option.splits prod.splits)
    qed
    ultimately show ?thesis using Inr rp rp2 by auto
  qed (simp add: rp)
qed

lemma replay_remdups_adj: "pl_inv p \<Longrightarrow> replay_fills p fs = replay_fills p (remdups_adj fs)"
proof (induction fs arbitrary: p rule: remdups_adj.induct)
  case (3 x y xs)
  show ?case
  proof (cases "x = y")
    case True
    then show ?thesis using 3 replay_twice[of p x xs] by simp
  next
    case False
    obtain r p' where rp: "pipeline_apply_trade p (trade_of_fill x) (Some (lf_order_quantity x)) = (r, p')"
      by (cases "pipeline_apply_trade p (trade_of_fill x) (Some (lf_order_quantity x))")
    have "pl_inv p'" using pl_inv_step[OF 3(3), of "lf_op x"] by (simp add: lf_op_def pl_step.simps rp)
    then show ?thesis using False 3(2)[of p'] rp by (simp split: sum.splits)
  qed
qed simp_all

lemma strict_remdups_adj:
  "sorted (map k xs) \<Longrightarrow> inj_on k (set xs) \<Longrightarrow> sorted_wrt (<) (map k (remdups_adj xs))"
  for k :: "'a \<Rightarrow> 'b :: linorder"
proof (induction xs rule: remdups_adj.induct)
  case (3 x y xs)
  show ?case
  proof (cases "x = y")
    case True
    then show ?thesis using 3 by simp
  next
    case False
    have "k x < k z" if "z \<in> set (y # xs)" for z
    proof -
      have "k x \<le> k y" "k y \<le> k z" using 3(3) that by auto
      moreover have "k x \<noteq> k y" using False 3(4) by (auto simp: inj_on_def)
      ultimately show ?thesis by simp
    qed
    then show ?thesis using False 3 by (auto simp: inj_on_def)
  qed
qed simp_all

lemma strict_keys_unique:
  fixes k :: "'a \<Rightarrow> 'b :: linorder"
  assumes "sorted_wrt (<) (map k xs)" "sorted_wrt (<) (map k ys)" "set xs = set ys" "inj_on k (set xs)"
  shows "xs = ys"
proof -
  have "map k xs = map k ys" using assms(1-3) by (intro strict_sorted_equal) simp_all
  then show ?thesis using assms(3,4) by (simp add: inj_on_map_eq_map)
qed

lemma sort_key_remdups_adj:
  fixes k :: "'a \<Rightarrow> 'b :: linorder"
  assumes "set fs = set gs" "inj_on k (set fs)"
  shows "remdups_adj (sort_key k fs) = remdups_adj (sort_key k gs)"
  by (rule strict_keys_unique[of k]) (use assms in \<open>auto intro: strict_remdups_adj\<close>)

section \<open>Properties\<close>

text \<open>
  Whatever fills a reducer is offered, with whatever limits and prior totals, the
  cumulative quantity it keeps for an order never decreases, and a fill id it has accepted
  is from then on refused as a duplicate.
\<close>

theorem reducer_monotone:
  "fr_total r \<le> fr_total (run_ops fr_step r xs) \<and>
   (f_fill_id f \<in> set (fr_seen (fr_step r (f, oq, prior))) \<longrightarrow>
      fr_apply (run_ops fr_step (fr_step r (f, oq, prior)) xs) f oq' prior' =
        (Some (DuplicateFill (f_fill_id f)), run_ops fr_step (fr_step r (f, oq, prior)) xs))"
proof (intro conjI impI)
  show "fr_total r \<le> fr_total (run_ops fr_step r xs)" by (rule reducer_total.meas_run)
  assume "f_fill_id f \<in> set (fr_seen (fr_step r (f, oq, prior)))"
  then have "f_fill_id f \<in> set (fr_seen (run_ops fr_step (fr_step r (f, oq, prior)) xs))"
    using reducer_seen.meas_run by blast
  then show "fr_apply (run_ops fr_step (fr_step r (f, oq, prior)) xs) f oq' prior' =
      (Some (DuplicateFill (f_fill_id f)), run_ops fr_step (fr_step r (f, oq, prior)) xs)"
    by (simp add: fr_apply_def fr_validate_def)
qed

lemma reducer_monotone_witness:
  "fr_apply (run_ops fr_step (fr_step (fr_init :: int fill_reducer)
      (\<lparr>f_fill_id = ''T1'', f_order_id = ''O1'', f_quantity = 5, f_cumulative_quantity = 5, f_price = 100\<rparr>, 10, 0))
      [(\<lparr>f_fill_id = ''T2'', f_order_id = ''O1'', f_quantity = 5, f_cumulative_quantity = 10, f_price = 101\<rparr>, 10, 5)])
     \<lparr>f_fill_id = ''T1'', f_order_id = ''O1'', f_quantity = 5, f_cumulative_quantity = 5, f_price = 100\<rparr> 10 0 =
   (Some (DuplicateFill ''T1''),
    \<lparr>fr_seen = [''T2'', ''T1''], fr_cumulative = [(''O1'', 10)]\<rparr>)"
  using reducer_monotone[of "fr_init :: int fill_reducer" "[(\<lparr>f_fill_id = ''T2'', f_order_id = ''O1'', f_quantity = 5,
      f_cumulative_quantity = 10, f_price = 101\<rparr>, 10, 5)]"
      "\<lparr>f_fill_id = ''T1'', f_order_id = ''O1'', f_quantity = 5, f_cumulative_quantity = 5, f_price = 100\<rparr>" 10 0 10 0]
  by (simp add: fr_apply_def fr_validate_def fr_commit_def fr_init_def dict_get_or_def dict_get_def dict_put_def)

text \<open>
  C4: a pipeline that starts empty projects exactly the trades it accepts: their ids are
  distinct, the quantity booked for an order is the sum of its accepted trades and never
  exceeds a limit that all its operations respect, and delivering any of the trades again,
  in any order, changes nothing.
\<close>

theorem pipeline_exactly_once:
  "let p = run_ops pl_step pl_init xs; acc = accepted_trades pl_init xs in
   pl_projector p = foldl projector_apply_trade [] acc \<and>
   distinct (map t_trade_id acc) \<and>
   pl_total p oid = (\<Sum>t \<leftarrow> filter (\<lambda>t. pl_order_id t = oid) acc. trunc_int (t_quantity t)) \<and>
   (0 \<le> L \<and> (\<forall>x \<in> set xs. pl_order_id (fst x) = oid \<longrightarrow> pl_limit x \<le> L) \<longrightarrow> pl_total p oid \<le> L) \<and>
   (set ys \<subseteq> set xs \<longrightarrow> run_ops pl_step pl_init (xs @ ys) = p)"
proof -
  have z: "pl_total pl_init oid = 0" "pl_projector pl_init = []"
    by (simp_all add: pl_init_def pl_total_def)
  have "0 \<le> L \<and> (\<forall>x \<in> set xs. pl_order_id (fst x) = oid \<longrightarrow> pl_limit x \<le> L) \<longrightarrow>
      pl_total (run_ops pl_step pl_init xs) oid \<le> L"
    using run_total_limit[OF pl_inv_init, of oid L xs] by (simp add: z)
  moreover have "set ys \<subseteq> set xs \<longrightarrow> run_ops pl_step pl_init (xs @ ys) = run_ops pl_step pl_init xs"
    using pipeline_redelivery.redelivered[OF pl_inv_init] by blast
  ultimately show ?thesis
    using accepted_projector[of pl_init xs] accepted_total[of pl_init xs oid] accepted_fresh[OF pl_inv_init, of xs]
    by (simp add: Let_def z)
qed

lemma pipeline_exactly_once_witness:
  "let b = build_domain_trade ''T1'' ''INFY'' (Inr ''BUY'') 5 100 None ''NSE'' ''O1'' in
   run_ops pl_step pl_init [(b, Some 5), (b, Some 5)] = run_ops pl_step pl_init [(b, Some 5)]"
  using pipeline_exactly_once[of "[(build_domain_trade ''T1'' ''INFY'' (Inr ''BUY'') 5 100 None ''NSE'' ''O1'', Some 5)]" _ 0
      "[(build_domain_trade ''T1'' ''INFY'' (Inr ''BUY'') 5 100 None ''NSE'' ''O1'', Some 5)]"]
  by (simp add: Let_def)

text \<open>
  When no two different fills share both time and id, the positions rebuilt from the
  ledger depend only on the set of its fills: not on the order in which they are listed
  nor on how often one of them is listed. An exception of the rebuilding is the same too.
\<close>

theorem rebuild_order_independent:
  "set fs = set gs \<and> inj_on fill_sort_key (set fs) \<longrightarrow>
   rebuild_projector_from_fills fs = rebuild_projector_from_fills gs"
  by (auto simp: rebuild_projector_from_fills_def replay_remdups_adj[OF pl_inv_init, of "sort_key fill_sort_key fs"]
      replay_remdups_adj[OF pl_inv_init, of "sort_key fill_sort_key gs"] sort_key_remdups_adj[of fs gs])

lemma rebuild_order_independent_witness:
  "let a = \<lparr>lf_fill_id = ''A'', lf_order_id = ''O1'', lf_symbol = ''INFY'', lf_exchange = ''NSE'', lf_side = BUY,
        lf_quantity = 5, lf_cumulative_quantity = 5, lf_order_quantity = 10, lf_price = 100, lf_event_time = 1\<rparr>;
       b = a\<lparr>lf_fill_id := ''B'', lf_cumulative_quantity := 10, lf_event_time := 2\<rparr> in
   rebuild_projector_from_fills [b, a, b] = rebuild_projector_from_fills [a, b]"
proof -
  define a :: "int ledger_fill" where "a = \<lparr>lf_fill_id = ''A'', lf_order_id = ''O1'', lf_symbol = ''INFY'', lf_exchange = ''NSE'', lf_side = BUY,
        lf_quantity = 5, lf_cumulative_quantity = 5, lf_order_quantity = 10, lf_price = 100, lf_event_time = 1\<rparr>"
  define b :: "int ledger_fill" where "b = a\<lparr>lf_fill_id := ''B'', lf_cumulative_quantity := 10, lf_event_time := 2\<rparr>"
  have "inj_on fill_sort_key {a, b}" by (simp add: inj_on_def fill_sort_key_def a_def b_def)
  then have "rebuild_projector_from_fills [b, a, b] = rebuild_projector_from_fills [a, b]"
    using rebuild_order_independent[of "[b, a, b]" "[a, b]"] by (simp add: insert_commute)
  then show ?thesis by (simp add: Let_def a_def b_def)
qed

end
