(* ===== verification/Position_Manager.thy ===== *)
theory Position_Manager
  imports Fills
begin

text \<open>
  The position book (\<open>application/oms/position_manager.py\<close>): trades accepted by the order
  manager, last prices and broker snapshots move positions; every key has a state machine,
  and a bounded memory of trade ids absorbs redelivery. The metrics and the optional mirror
  of fills, whose exceptions are swallowed, are left out.
\<close>

section \<open>State\<close>

datatype position_event =
    PositionOpened string rat rat
  | PositionClosed string rat
  | PositionUpdated position

text \<open>
  The remembered ids are a set and a queue, oldest first, of at most \<open>pm_maxlen\<close> ids.
  \<open>pm_bus\<close>: an event bus is attached.
\<close>

record position_manager =
  pm_positions :: "(string, position) dict"
  pm_states :: "(string, position_state state_machine) dict"
  pm_applied :: nat
  pm_seen :: "string list"
  pm_order :: "string list"
  pm_maxlen :: nat
  pm_enforce :: bool
  pm_bus :: bool
  pm_events :: "position_event list"

definition pm_init :: "bool \<Rightarrow> bool \<Rightarrow> position_manager" where
  "pm_init enforce bus =
     \<lparr>pm_positions = [], pm_states = [], pm_applied = 0, pm_seen = [], pm_order = [], pm_maxlen = 10000,
      pm_enforce = enforce, pm_bus = bus, pm_events = []\<rparr>"

definition pm_publish :: "position_event list \<Rightarrow> position_manager \<Rightarrow> position_manager" where
  "pm_publish es pm = (if pm_bus pm then pm\<lparr>pm_events := pm_events pm @ es\<rparr> else pm)"

section \<open>Trades\<close>

definition classify_move :: "position_state \<Rightarrow> rat \<Rightarrow> rat \<Rightarrow> position_state" where
  "classify_move old_state cur new =
     (if cur = 0 \<and> new \<noteq> 0 then POS_OPEN
      else if cur \<noteq> 0 \<and> new = 0 then POS_CLOSED
      else if cur \<noteq> 0 \<and> new \<noteq> 0 then
        (if \<bar>new\<bar> < \<bar>cur\<bar> then REDUCING
         else if (0 < cur \<and> new < 0) \<or> (cur < 0 \<and> 0 < new) then REVERSED
         else POS_OPEN)
      else old_state)"

definition move_events :: "position \<Rightarrow> position \<Rightarrow> position_event list" where
  "move_events current updated =
     (if p_quantity current = 0 \<and> p_quantity updated \<noteq> 0
      then [PositionOpened (p_symbol updated) (p_quantity updated) (flt (p_avg_price updated))]
      else if p_quantity current \<noteq> 0 \<and> p_quantity updated = 0
      then [PositionClosed (p_symbol updated) (flt (p_realized_pnl updated))]
      else []) @ [PositionUpdated updated]"

definition pm_machine :: "position_manager \<Rightarrow> string \<Rightarrow> position_state state_machine" where
  "pm_machine pm key =
     dict_get_or (pm_states pm) key \<lparr>sm_transitions = POSITION_STATE_TRANSITIONS, sm_state = FLAT\<rparr>"

definition pm_apply_trade :: "position_manager \<Rightarrow> trade \<Rightarrow> position res \<times> position_manager" where
  "pm_apply_trade pm t =
     (let key = make_position_key (t_symbol t) (t_exchange t);
          current = dict_get_or (pm_positions pm) key (position_new (t_symbol t) (t_exchange t));
          m = pm_machine pm key;
          pm1 = pm\<lparr>pm_states := dict_put (pm_states pm) key m\<rparr>;
          updated = project_trade current t;
          new_state = classify_move (sm_state m) (p_quantity current) (p_quantity updated);
          moved = (if sm_state m = new_state then Inr pm1
                   else case sm_transition_to position_state_value m new_state of
                          Inl e \<Rightarrow> if pm_enforce pm then Inl e else Inr pm1
                        | Inr m' \<Rightarrow> Inr (pm1\<lparr>pm_states := dict_put (pm_states pm1) key m'\<rparr>))
      in case moved of
           Inl e \<Rightarrow> (Inl e, pm1)
         | Inr pm2 \<Rightarrow>
             (Inr updated, pm_publish (move_events current updated)
                (pm2\<lparr>pm_positions := dict_put (pm_positions pm2) key updated, pm_applied := Suc (pm_applied pm2)\<rparr>)))"

section \<open>Prices, queries and snapshots\<close>

definition pm_update_ltp :: "position_manager \<Rightarrow> string \<Rightarrow> string \<Rightarrow> rat \<Rightarrow> position option \<times> position_manager" where
  "pm_update_ltp pm symbol exchange ltp =
     (let key = make_position_key symbol exchange in
      case dict_get (pm_positions pm) key of
        None \<Rightarrow> (None, pm)
      | Some p \<Rightarrow> (let u = position_with_ltp p ltp in
          (Some u, pm\<lparr>pm_positions := dict_put (pm_positions pm) key u\<rparr>)))"

definition pm_get_position :: "position_manager \<Rightarrow> string \<Rightarrow> string \<Rightarrow> position option" where
  "pm_get_position pm symbol exchange = dict_get (pm_positions pm) (make_position_key symbol exchange)"

definition pm_get_positions :: "position_manager \<Rightarrow> position list" where
  "pm_get_positions pm = dict_values (pm_positions pm)"

text \<open>
  The first non-zero of the unrealised profit, a money object, and the computed profit, a
  decimal, goes through its text. The text of a money object ends with its currency.
\<close>

definition net_pnl_add :: "rat res \<Rightarrow> position \<Rightarrow> rat res" where
  "net_pnl_add acc p =
     (case acc of
        Inl e \<Rightarrow> Inl e
      | Inr acc0 \<Rightarrow>
          if p_unrealized_pnl p \<noteq> 0 then Inl InvalidOperation
          else if position_pnl p \<noteq> 0 then Inr (dec_add acc0 (position_pnl p))
          else Inr acc0)"

definition pm_get_net_pnl :: "position_manager \<Rightarrow> rat res" where
  "pm_get_net_pnl pm = foldl net_pnl_add (Inr 0) (pm_get_positions pm)"

definition pm_reset :: "position_manager \<Rightarrow> position_manager" where
  "pm_reset pm = pm\<lparr>pm_positions := []\<rparr>"

text \<open>
  A broker snapshot is a dictionary of texts, numbers and nulls. A text in a numeric field
  is read as a decimal literal; exponents, underscores and special values are left out.
\<close>

datatype pos_value = PvText string | PvNum rat | PvNone

definition is_digit :: "char \<Rightarrow> bool" where
  "is_digit c \<longleftrightarrow> c \<in> set ''0123456789''"

definition read_decimal :: "string \<Rightarrow> rat option" where
  "read_decimal s =
     (let b = py_strip s;
          neg = (b \<noteq> [] \<and> hd b = CHR ''-'');
          u = (if b \<noteq> [] \<and> hd b \<in> set ''+-'' then tl b else b);
          ip = takeWhile (\<lambda>c. c \<noteq> CHR ''.'') u;
          fp = drop (Suc (length ip)) u
      in if ip @ fp \<noteq> [] \<and> list_all is_digit (ip @ fp)
         then Some ((if neg then - 1 else 1) * of_nat (read_nat (ip @ fp)) / 10 ^ length fp)
         else None)"

fun int_field :: "pos_value option \<Rightarrow> int res" where
  "int_field (Some (PvNum x)) = Inr (trunc_int x)"
| "int_field (Some (PvText s)) =
     (if s = [] then Inr 0
      else case (if CHR ''.'' \<in> set s then None else read_decimal s) of
             Some x \<Rightarrow> Inr (trunc_int x) | None \<Rightarrow> Inl (ValueError ''invalid literal for int()''))"
| "int_field _ = Inr 0"

fun dec_field :: "pos_value option \<Rightarrow> rat res" where
  "dec_field (Some (PvNum x)) = Inr x"
| "dec_field (Some (PvText s)) =
     (if s = [] then Inr 0 else case read_decimal s of Some x \<Rightarrow> Inr x | None \<Rightarrow> Inl InvalidOperation)"
| "dec_field _ = Inr 0"

text \<open>Symbol and exchange must be texts to be stripped; an absent or empty symbol is refused.\<close>

fun text_field :: "string \<Rightarrow> pos_value option \<Rightarrow> string res" where
  "text_field d None = Inr d"
| "text_field d (Some (PvText s)) = Inr s"
| "text_field d (Some PvNone) = Inl (AttributeError ''NoneType'' ''strip'')"
| "text_field d (Some (PvNum x)) = Inl (AttributeError ''int'' ''strip'')"

definition snapshot_symbol :: "(string, pos_value) dict \<Rightarrow> string res" where
  "snapshot_symbol n =
     (case dict_get n ''symbol'' of
        Some PvNone \<Rightarrow> Inr [] | Some (PvNum x) \<Rightarrow> (if x = 0 then Inr [] else text_field [] (Some (PvNum x)))
      | v \<Rightarrow> text_field [] v)"

definition snapshot_keys :: "(string, string) dict" where
  "snapshot_keys =
     [(''trading_symbol'', ''symbol''), (''exchange_segment'', ''exchange''), (''net_quantity'', ''quantity''),
      (''buy_average_price'', ''avg_price''), (''average_price'', ''avg_price''), (''last_price'', ''ltp'')]"

definition normalize_snapshot :: "(string, pos_value) dict \<Rightarrow> (string, pos_value) dict" where
  "normalize_snapshot d = foldl (\<lambda>n (k, v). dict_put n (dict_get_or snapshot_keys k k) v) [] d"

definition snapshot_position :: "position_manager \<Rightarrow> string \<Rightarrow> string \<Rightarrow> int \<Rightarrow> rat \<Rightarrow> rat \<Rightarrow> position" where
  "snapshot_position pm symbol exchange quantity avg ltp =
     (let base = (case dict_get (pm_positions pm) (make_position_key symbol exchange) of
            None \<Rightarrow> (let p = position_new symbol exchange in
              if quantity \<noteq> 0 then position_with_fill p (of_int quantity) avg else p)
          | Some p \<Rightarrow> (let delta = dec_sub (of_int quantity) (p_quantity p) in
              if delta \<noteq> 0 then position_with_fill p delta avg else p))
      in if ltp \<noteq> 0 then position_with_ltp base ltp else base)"

definition pm_upsert_position :: "position_manager \<Rightarrow> (string, pos_value) dict \<Rightarrow> position res \<times> position_manager" where
  "pm_upsert_position pm d =
     (let n = normalize_snapshot d in
      case (int_field (dict_get n ''quantity''), dec_field (dict_get n ''avg_price''), dec_field (dict_get n ''ltp'')) of
        (Inl e, _, _) \<Rightarrow> (Inl e, pm)
      | (Inr _, Inl e, _) \<Rightarrow> (Inl e, pm)
      | (Inr _, Inr _, Inl e) \<Rightarrow> (Inl e, pm)
      | (Inr quantity, Inr avg, Inr ltp) \<Rightarrow>
          (case snapshot_symbol n of
             Inl e \<Rightarrow> (Inl e, pm)
           | Inr symbol \<Rightarrow>
               if symbol = [] then (Inl (ValueError (''Position data must contain 'symbol' or 'trading_symbol'' @ [CHR 0x27])), pm)
               else case text_field ''NSE'' (dict_get n ''exchange'') of
                      Inl e \<Rightarrow> (Inl e, pm)
                    | Inr exchange \<Rightarrow>
                        (let u = snapshot_position pm symbol exchange quantity avg ltp in
                         (Inr u, pm_publish [PositionUpdated u]
                            (pm\<lparr>pm_positions := dict_put (pm_positions pm) (make_position_key symbol exchange) u\<rparr>)))))"

section \<open>Event handlers\<close>

definition pm_on_trade :: "bool \<Rightarrow> trade res \<Rightarrow> position_manager \<Rightarrow> exn option \<times> position_manager" where
  "pm_on_trade reentered payload pm =
     (if reentered then (None, pm)
      else case payload of
        Inl e \<Rightarrow> (if is_value_error e then None else Some e, pm)
      | Inr t \<Rightarrow>
          if t_trade_id t \<in> set (pm_seen pm) then (None, pm)
          else case pm_apply_trade pm t of
                 (Inl e, pm1) \<Rightarrow> (if is_value_error e then None else Some e, pm1)
               | (Inr _, pm1) \<Rightarrow> (None, pm1))"

text \<open>The id is remembered before the trade is applied; a full queue forgets its oldest id.\<close>

definition pm_remember :: "string \<Rightarrow> position_manager \<Rightarrow> position_manager" where
  "pm_remember tid pm =
     (let full = (length (pm_order pm) = pm_maxlen pm);
          seen = (if full then (case pm_order pm of [] \<Rightarrow> pm_seen pm | x # _ \<Rightarrow> removeAll x (pm_seen pm)) else pm_seen pm);
          order = (if full then tl (pm_order pm) else pm_order pm)
      in pm\<lparr>pm_seen := List.insert tid seen, pm_order := order @ [tid]\<rparr>)"

definition pm_on_trade_applied :: "bool \<Rightarrow> trade res \<Rightarrow> position_manager \<Rightarrow> exn option \<times> position_manager" where
  "pm_on_trade_applied reentered payload pm =
     (if reentered then (None, pm)
      else case payload of
        Inl e \<Rightarrow> (if is_value_error e then None else Some e, pm)
      | Inr t \<Rightarrow>
          if t_trade_id t \<in> set (pm_seen pm) then (None, pm)
          else case pm_apply_trade (pm_remember (t_trade_id t) pm) t of
                 (Inl e, pm1) \<Rightarrow> (if is_value_error e then None else Some e, pm1)
               | (Inr _, pm1) \<Rightarrow> (None, pm1))"

section \<open>Facts\<close>

definition pm_wf :: "position_manager \<Rightarrow> bool" where
  "pm_wf pm \<longleftrightarrow> (\<forall>key. sm_transitions (pm_machine pm key) = POSITION_STATE_TRANSITIONS \<and>
     (\<forall>p. dict_get (pm_positions pm) key = Some p \<and> p_quantity p \<noteq> 0 \<longrightarrow>
        position_state_is_active (sm_state (pm_machine pm key))))"

lemma pm_wf_init [inv_intros]: "pm_wf (pm_init enforce bus)"
  by (simp add: pm_wf_def pm_init_def pm_machine_def dict_get_or_def)

lemma pm_publish_simps [simp]:
  "pm_positions (pm_publish es pm) = pm_positions pm" "pm_states (pm_publish es pm) = pm_states pm"
  "pm_seen (pm_publish es pm) = pm_seen pm" "pm_order (pm_publish es pm) = pm_order pm"
  "pm_maxlen (pm_publish es pm) = pm_maxlen pm" "pm_enforce (pm_publish es pm) = pm_enforce pm"
  "pm_machine (pm_publish es pm) key = pm_machine pm key"
  by (simp_all add: pm_publish_def pm_machine_def)

text \<open>From a state that fits the quantity every move is allowed, and leads to one that fits.\<close>

lemma move_allowed:
  assumes "cur \<noteq> 0 \<longrightarrow> position_state_is_active st"
  shows "classify_move st cur new = st \<or> classify_move st cur new \<in> set (position_allowed st)"
    and "new \<noteq> 0 \<Longrightarrow> position_state_is_active (classify_move st cur new)"
  using assms by (cases st; auto simp: classify_move_def)+

lemma apply_trade_wf:
  assumes "pm_wf pm"
  shows "\<exists>p pm'. pm_apply_trade pm t = (Inr p, pm') \<and> pm_wf pm' \<and> p = the (dict_get (pm_positions pm') (make_position_key (t_symbol t) (t_exchange t))) \<and>
    pm_positions pm' = projector_apply_trade (pm_positions pm) t \<and> pm_seen pm' = pm_seen pm \<and>
    pm_order pm' = pm_order pm \<and> pm_maxlen pm' = pm_maxlen pm"
proof -
  let ?key = "make_position_key (t_symbol t) (t_exchange t)"
  let ?cur = "dict_get_or (pm_positions pm) ?key (position_new (t_symbol t) (t_exchange t))"
  let ?m = "pm_machine pm ?key"
  let ?u = "project_trade ?cur t"
  let ?n = "classify_move (sm_state ?m) (p_quantity ?cur) (p_quantity ?u)"
  have tr: "sm_transitions (pm_machine pm k) = POSITION_STATE_TRANSITIONS" for k using assms by (simp add: pm_wf_def)
  have fit: "p_quantity ?cur \<noteq> 0 \<longrightarrow> position_state_is_active (sm_state ?m)"
    using assms by (auto simp: pm_wf_def dict_get_or_def position_new_def split: option.splits)
  note ok = move_allowed[OF fit, of "p_quantity ?u"]
  let ?pm = "pm_publish (move_events ?cur ?u) (pm\<lparr>pm_states := dict_put (pm_states pm) ?key (?m\<lparr>sm_state := ?n\<rparr>),
      pm_positions := dict_put (pm_positions pm) ?key ?u, pm_applied := Suc (pm_applied pm)\<rparr>)"
  have put: "dict_put (dict_put d k v) k w = dict_put d k w" for d :: "(string, position_state state_machine) dict" and k v w
    by (induction d) (auto simp: dict_put_def)
  have "pm_apply_trade pm t = (Inr ?u, ?pm)"
  proof (cases "sm_state ?m = ?n")
    case True
    then have "?m\<lparr>sm_state := ?n\<rparr> = ?m" by (metis state_machine.surjective state_machine.update_convs(2))
    then show ?thesis using True by (simp add: pm_apply_trade_def Let_def)
  next
    case False
    then have "sm_transition_to position_state_value ?m ?n = Inr (?m\<lparr>sm_state := ?n\<rparr>)"
      using ok(1) tr by (auto simp: sm_transition_to_def sm_can_transition_to_def)
    then show ?thesis using False by (simp add: pm_apply_trade_def Let_def put)
  qed
  moreover have "pm_machine ?pm k = (if k = ?key then ?m\<lparr>sm_state := ?n\<rparr> else pm_machine pm k)" for k
    by (simp add: pm_machine_def dict_get_or_def)
  then have "pm_wf ?pm" using assms ok(2) tr by (auto simp: pm_wf_def)
  ultimately show ?thesis by (auto simp: projector_apply_trade_def Let_def)
qed

text \<open>Trades, prices and resets, on the manager and on the plain projection of the book.\<close>

datatype pm_op = ApplyTrade trade | UpdateLtp string string rat | ResetBook

fun pm_step :: "position_manager \<Rightarrow> pm_op \<Rightarrow> position_manager" where
  "pm_step pm (ApplyTrade t) = snd (pm_apply_trade pm t)"
| "pm_step pm (UpdateLtp sy ex x) = snd (pm_update_ltp pm sy ex x)"
| "pm_step pm ResetBook = pm_reset pm"

fun book_step :: "projector \<Rightarrow> pm_op \<Rightarrow> projector" where
  "book_step ps (ApplyTrade t) = projector_apply_trade ps t"
| "book_step ps (UpdateLtp sy ex x) =
     (case projector_get_position ps sy ex of
        None \<Rightarrow> ps | Some p \<Rightarrow> dict_put ps (make_position_key sy ex) (position_with_ltp p x))"
| "book_step ps ResetBook = []"

lemma pm_step_wf: "pm_wf pm \<Longrightarrow> pm_wf (pm_step pm x) \<and> pm_positions (pm_step pm x) = book_step (pm_positions pm) x"
proof (cases x)
  case (ApplyTrade t)
  then show "pm_wf pm \<Longrightarrow> ?thesis" using apply_trade_wf[of pm t] by auto
next
  case (UpdateLtp sy ex l)
  then show "pm_wf pm \<Longrightarrow> ?thesis"
    by (auto simp: pm_update_ltp_def pm_wf_def pm_machine_def projector_get_position_def position_with_ltp_def Let_def split: option.split)
next
  case ResetBook
  then show "pm_wf pm \<Longrightarrow> ?thesis" by (simp add: pm_reset_def pm_wf_def pm_machine_def)
qed

interpretation position_book: invariant_system pm_step pm_wf
  by unfold_locales (simp add: pm_step_wf)

lemma pm_run_book: "pm_wf pm \<Longrightarrow> pm_positions (run_ops pm_step pm xs) = run_ops book_step (pm_positions pm) xs"
  by (induction xs arbitrary: pm) (simp_all add: pm_step_wf)

subsection \<open>The memory of trade ids\<close>

definition pm_memory :: "position_manager \<Rightarrow> bool" where
  "pm_memory pm \<longleftrightarrow> distinct (pm_order pm) \<and> set (pm_seen pm) = set (pm_order pm) \<and>
     length (pm_order pm) \<le> pm_maxlen pm \<and> 0 < pm_maxlen pm"

lemma pm_memory_init [inv_intros]: "pm_memory (pm_init enforce bus)"
  by (simp add: pm_memory_def pm_init_def)

lemma remember_maxlen: "pm_maxlen (pm_remember tid pm) = pm_maxlen pm"
  by (simp add: pm_remember_def Let_def)

lemma remember_memory [inv_intros]:
  assumes "pm_memory pm" "tid \<notin> set (pm_seen pm)"
  shows "pm_memory (pm_remember tid pm)"
proof (cases "length (pm_order pm) = pm_maxlen pm")
  case False
  then show ?thesis using assms by (simp add: pm_memory_def pm_remember_def)
next
  case True
  then obtain x xs where c: "pm_order pm = x # xs" using assms(1) by (cases "pm_order pm") (simp_all add: pm_memory_def)
  have d: "x \<notin> set xs" "distinct xs" "set (pm_seen pm) = insert x (set xs)" "0 < pm_maxlen pm" "length xs < pm_maxlen pm"
    using assms(1) c by (simp_all add: pm_memory_def)
  have "tid \<notin> set xs" using assms(2) d(3) by simp
  moreover have "pm_order (pm_remember tid pm) = xs @ [tid]" "set (pm_seen (pm_remember tid pm)) = insert tid (set xs)"
    using True c d(1,3) by (simp_all add: pm_remember_def)
  ultimately show ?thesis using d by (simp add: pm_memory_def remember_maxlen)
qed

lemma remember_fields [simp]:
  "pm_positions (pm_remember tid pm) = pm_positions pm" "pm_states (pm_remember tid pm) = pm_states pm"
  "pm_maxlen (pm_remember tid pm) = pm_maxlen pm" "pm_enforce (pm_remember tid pm) = pm_enforce pm"
  "pm_machine (pm_remember tid pm) key = pm_machine pm key" "pm_wf (pm_remember tid pm) = pm_wf pm"
  by (simp_all add: pm_remember_def pm_machine_def pm_wf_def Let_def)

lemma remember_room:
  "length (pm_order pm) < pm_maxlen pm \<Longrightarrow> pm_order (pm_remember tid pm) = pm_order pm @ [tid]"
  by (simp add: pm_remember_def Let_def)

definition deliver :: "position_manager \<Rightarrow> trade \<Rightarrow> position_manager" where
  "deliver pm t = snd (pm_on_trade_applied False (Inr t) pm)"

text \<open>The trades of a list of deliveries whose id has not come before.\<close>

fun first_by_id :: "string list \<Rightarrow> trade list \<Rightarrow> trade list" where
  "first_by_id known [] = []"
| "first_by_id known (t # ts) =
     (if t_trade_id t \<in> set known then first_by_id known ts else t # first_by_id (known @ [t_trade_id t]) ts)"

lemma deliver_known: "t_trade_id t \<in> set (pm_seen pm) \<Longrightarrow> deliver pm t = pm"
  by (simp add: deliver_def pm_on_trade_applied_def)

lemma deliver_new:
  assumes "pm_wf pm" "t_trade_id t \<notin> set (pm_seen pm)"
  shows "pm_wf (deliver pm t)" "pm_positions (deliver pm t) = projector_apply_trade (pm_positions pm) t"
    "pm_order (deliver pm t) = pm_order (pm_remember (t_trade_id t) pm)"
    "pm_seen (deliver pm t) = pm_seen (pm_remember (t_trade_id t) pm)" "pm_maxlen (deliver pm t) = pm_maxlen pm"
proof -
  obtain p pm' where "pm_apply_trade (pm_remember (t_trade_id t) pm) t = (Inr p, pm')" "pm_wf pm'"
    "pm_positions pm' = projector_apply_trade (pm_positions (pm_remember (t_trade_id t) pm)) t"
    "pm_seen pm' = pm_seen (pm_remember (t_trade_id t) pm)" "pm_order pm' = pm_order (pm_remember (t_trade_id t) pm)"
    "pm_maxlen pm' = pm_maxlen (pm_remember (t_trade_id t) pm)"
    using apply_trade_wf[of "pm_remember (t_trade_id t) pm" t] assms(1) by auto
  then show "pm_wf (deliver pm t)" "pm_positions (deliver pm t) = projector_apply_trade (pm_positions pm) t"
    "pm_order (deliver pm t) = pm_order (pm_remember (t_trade_id t) pm)"
    "pm_seen (deliver pm t) = pm_seen (pm_remember (t_trade_id t) pm)" "pm_maxlen (deliver pm t) = pm_maxlen pm"
    using assms by (simp_all add: deliver_def pm_on_trade_applied_def)
qed

lemma deliver_memory:
  assumes "pm_wf pm" "pm_memory pm"
  shows "pm_wf (deliver pm t) \<and> pm_memory (deliver pm t) \<and> pm_maxlen (deliver pm t) = pm_maxlen pm"
proof (cases "t_trade_id t \<in> set (pm_seen pm)")
  case False
  note d = deliver_new[OF assms(1) False]
  have "pm_memory (deliver pm t)"
    using remember_memory[OF assms(2) False] d(3,4,5) by (simp add: pm_memory_def)
  then show ?thesis using d by blast
qed (simp add: deliver_known assms)

interpretation trade_memory: invariant_system deliver "\<lambda>pm. pm_wf pm \<and> pm_memory pm \<and> pm_maxlen pm = 10000"
  by unfold_locales (use deliver_memory in auto)

lemma deliver_evicted:
  assumes "pm_wf pm" "pm_memory pm" "length (pm_order pm) = pm_maxlen pm"
    "t_trade_id t = hd (pm_order pm)" "t_trade_id u \<notin> set (pm_seen pm)"
  shows "pm_positions (deliver (deliver pm u) t) = projector_apply_trade (projector_apply_trade (pm_positions pm) u) t"
proof -
  obtain x xs where c: "pm_order pm = x # xs" using assms(2,3) by (cases "pm_order pm") (simp_all add: pm_memory_def)
  note d = deliver_new[OF assms(1,5)]
  have m: "pm_memory (deliver pm u)" using deliver_memory[OF assms(1,2), of u] by blast
  have x: "x \<in> set (pm_seen pm)" "x \<notin> set xs" using assms(2) c by (simp_all add: pm_memory_def)
  have "pm_order (deliver pm u) = xs @ [t_trade_id u]" using d(3) assms(3) c by (simp add: pm_remember_def)
  then have "t_trade_id t \<notin> set (pm_seen (deliver pm u))"
    using m x assms(4,5) c by (auto simp: pm_memory_def)
  then show ?thesis using deliver_new(2)[OF d(1)] d(2) by simp
qed

lemma deliver_run:
  "pm_wf pm \<Longrightarrow> pm_memory pm \<Longrightarrow> length (pm_order pm) + length (first_by_id (pm_order pm) ts) \<le> pm_maxlen pm \<Longrightarrow>
   pm_positions (run_ops deliver pm ts) = run_ops projector_apply_trade (pm_positions pm) (first_by_id (pm_order pm) ts) \<and>
   pm_memory (run_ops deliver pm ts) \<and> set ts \<subseteq> {t. t_trade_id t \<in> set (pm_seen (run_ops deliver pm ts))} \<and>
   set (pm_seen pm) \<subseteq> set (pm_seen (run_ops deliver pm ts))"
proof (induction ts arbitrary: pm)
  case (Cons t ts)
  have so: "set (pm_seen pm) = set (pm_order pm)" using Cons.prems(2) by (simp add: pm_memory_def)
  show ?case
  proof (cases "t_trade_id t \<in> set (pm_seen pm)")
    case True
    then have "t_trade_id t \<in> set (pm_order pm)" using so by simp
    then show ?thesis using True Cons.prems Cons.IH[of pm] by (simp add: deliver_known subset_iff)
  next
    case False
    note d = deliver_new[OF Cons.prems(1) False]
    have new: "t_trade_id t \<notin> set (pm_order pm)" using False so by simp
    then have room: "length (pm_order pm) < pm_maxlen pm" using Cons.prems(3) by simp
    have o: "pm_order (deliver pm t) = pm_order pm @ [t_trade_id t]" using d(3) remember_room[OF room] by simp
    have m: "pm_memory (deliver pm t)"
      using remember_memory[OF Cons.prems(2) False] d(3,4,5) by (simp add: pm_memory_def)
    have "set (pm_seen (deliver pm t)) = insert (t_trade_id t) (set (pm_seen pm))"
      using m o so by (auto simp: pm_memory_def)
    moreover have "length (pm_order (deliver pm t)) + length (first_by_id (pm_order (deliver pm t)) ts) \<le> pm_maxlen (deliver pm t)"
      using Cons.prems(3) new o d(5) by simp
    ultimately show ?thesis using Cons.IH[OF d(1) m] new o d(2) by auto
  qed
qed (simp add: pm_memory_def)

lemma with_ltp_fields [simp]:
  "p_symbol (position_with_ltp p x) = p_symbol p" "p_exchange (position_with_ltp p x) = p_exchange p"
  by (simp_all add: position_with_ltp_def Let_def)

text \<open>Every position is stored under its own key.\<close>

definition pm_keyed :: "position_manager \<Rightarrow> bool" where
  "pm_keyed pm \<longleftrightarrow> (\<forall>k p. dict_get (pm_positions pm) k = Some p \<longrightarrow> make_position_key (p_symbol p) (p_exchange p) = k)"

lemma upsert_stored:
  assumes "pm_upsert_position pm d = (Inr p, pm1)" "pm_keyed pm"
  shows "pm1 = pm_publish [PositionUpdated p]
    (pm\<lparr>pm_positions := dict_put (pm_positions pm) (make_position_key (p_symbol p) (p_exchange p)) p\<rparr>)"
proof -
  obtain sy ex q avg ltp where n: "p = snapshot_position pm sy ex q avg ltp"
    "pm1 = pm_publish [PositionUpdated p] (pm\<lparr>pm_positions := dict_put (pm_positions pm) (make_position_key sy ex) p\<rparr>)"
    using assms(1) by (auto simp: pm_upsert_position_def Let_def split: sum.splits if_splits)
  have "make_position_key (p_symbol p) (p_exchange p) = make_position_key sy ex"
    using assms(2) n(1) by (auto simp: snapshot_position_def pm_keyed_def position_new_def Let_def split: option.splits)
  then show ?thesis using n(2) by simp
qed

section \<open>Properties\<close>

text \<open>
  C37: trades, price updates and resets alone never bring the state machine of a key out of
  step with its quantity: from an empty book no trade is ever refused, and the book is the
  plain projection of the same operations.
\<close>

theorem positions_follow_projector:
  "pm_positions (run_ops pm_step (pm_init enforce bus) xs) = run_ops book_step [] xs \<and>
   (\<exists>p pm'. pm_apply_trade (run_ops pm_step (pm_init enforce bus) xs) t = (Inr p, pm') \<and>
      dict_get (pm_positions pm') (make_position_key (t_symbol t) (t_exchange t)) = Some p)"
proof -
  have "pm_wf (run_ops pm_step (pm_init enforce bus) xs)" by (intro position_book.inv_run inv_intros)
  from apply_trade_wf[OF this, of t] obtain p pm' where
    "pm_apply_trade (run_ops pm_step (pm_init enforce bus) xs) t = (Inr p, pm')"
    "p = the (dict_get (pm_positions pm') (make_position_key (t_symbol t) (t_exchange t)))"
    "pm_positions pm' = projector_apply_trade (pm_positions (run_ops pm_step (pm_init enforce bus) xs)) t" by blast
  moreover have "dict_get (pm_positions pm') (make_position_key (t_symbol t) (t_exchange t)) \<noteq> None"
    using calculation(3) by (simp add: projector_apply_trade_def Let_def)
  moreover have "pm_positions (run_ops pm_step (pm_init enforce bus) xs) = run_ops book_step [] xs"
    using pm_run_book[OF pm_wf_init, of enforce bus xs] by (simp add: pm_init_def)
  ultimately show ?thesis by auto
qed

text \<open>
  C31: under any redelivery, in any order, of up to ten thousand different trade ids the book
  is the projection of the first delivery of each id, and delivering any of them again
  changes nothing. The bound is sharp: with a full memory, a new id makes the oldest one
  forgotten, and its trade is applied a second time.
\<close>

theorem positions_apply_once:
  "(let pm = run_ops deliver (pm_init enforce bus) ts in
    (length (first_by_id [] ts) \<le> 10000 \<longrightarrow>
       pm_positions pm = run_ops projector_apply_trade [] (first_by_id [] ts) \<and>
       (\<forall>ts'. set ts' \<subseteq> set ts \<longrightarrow> run_ops deliver pm ts' = pm)) \<and>
    (length (pm_order pm) = 10000 \<and> t_trade_id t = hd (pm_order pm) \<and> t_trade_id u \<notin> set (pm_seen pm) \<longrightarrow>
       pm_positions (deliver (deliver pm u) t) = projector_apply_trade (projector_apply_trade (pm_positions pm) u) t))"
  unfolding Let_def
proof (intro conjI[OF impI impI])
  let ?pm = "run_ops deliver (pm_init enforce bus) ts"
  assume a: "length (first_by_id [] ts) \<le> 10000"
  have "length (pm_order (pm_init enforce bus)) + length (first_by_id (pm_order (pm_init enforce bus)) ts) \<le> pm_maxlen (pm_init enforce bus)"
    using a by (simp add: pm_init_def)
  from deliver_run[OF pm_wf_init pm_memory_init this]
  have r: "pm_positions ?pm = run_ops projector_apply_trade [] (first_by_id [] ts)"
    "set ts \<subseteq> {t. t_trade_id t \<in> set (pm_seen ?pm)}" by (simp_all add: pm_init_def)
  have "run_ops deliver ?pm ts' = ?pm" if "set ts' \<subseteq> set ts" for ts'
    using that r(2) by (induction ts') (auto simp: deliver_known)
  then show "pm_positions ?pm = run_ops projector_apply_trade [] (first_by_id [] ts) \<and>
    (\<forall>ts'. set ts' \<subseteq> set ts \<longrightarrow> run_ops deliver ?pm ts' = ?pm)" using r(1) by simp
next
  let ?pm = "run_ops deliver (pm_init enforce bus) ts"
  assume a: "length (pm_order ?pm) = 10000 \<and> t_trade_id t = hd (pm_order ?pm) \<and> t_trade_id u \<notin> set (pm_seen ?pm)"
  have "pm_wf ?pm \<and> pm_memory ?pm \<and> pm_maxlen ?pm = 10000"
    by (rule trade_memory.inv_run) (simp add: pm_wf_init pm_memory_init, simp add: pm_init_def)
  then show "pm_positions (deliver (deliver ?pm u) t) = projector_apply_trade (projector_apply_trade (pm_positions ?pm) u) t"
    using a by (intro deliver_evicted) simp_all
qed

text \<open>Three deliveries of two trades.\<close>

definition sample_buy :: "string \<Rightarrow> rat \<Rightarrow> trade" where
  "sample_buy tid q = build_domain_trade tid ''INFY'' (Inr ''BUY'') q 100 None ''NSE'' ''O1''"

lemma positions_apply_once_witness:
  "pm_positions (run_ops deliver (pm_init True True) [sample_buy ''T1'' 4, sample_buy ''T2'' 6, sample_buy ''T1'' 4]) =
   run_ops projector_apply_trade [] [sample_buy ''T1'' 4, sample_buy ''T2'' 6]"
  using positions_apply_once[of True True "[sample_buy ''T1'' 4, sample_buy ''T2'' 6, sample_buy ''T1'' 4]"]
  by (simp add: Let_def sample_buy_def build_domain_trade_def)

text \<open>
  A position that a broker snapshot brings in has no state machine that fits it. The
  first trade that reduces or closes it is refused with an illegal transition and leaves the
  book as it is; its id is remembered all the same, so its redelivery is skipped and the fill
  never reaches the position.
\<close>

theorem reconciled_position_refuses:
  "pm_enforce pm \<and> dict_get (pm_states pm) key = None \<and> pm_keyed pm \<and>
   pm_upsert_position pm d = (Inr p, pm1) \<and> make_position_key (p_symbol p) (p_exchange p) = key \<and>
   make_position_key (t_symbol t) (t_exchange t) = key \<and> t_trade_id t \<notin> set (pm_seen pm) \<and>
   p_quantity p \<noteq> 0 \<and> \<bar>p_quantity (project_trade p t)\<bar> < \<bar>p_quantity p\<bar> \<longrightarrow>
   (\<exists>a b pm2. pm_on_trade_applied False (Inr t) pm1 = (Some (IllegalTransition a b), pm2) \<and>
      dict_get (pm_positions pm2) key = Some p \<and> pm_on_trade_applied False (Inr t) pm2 = (None, pm2))"
proof (intro impI)
  assume a: "pm_enforce pm \<and> dict_get (pm_states pm) key = None \<and> pm_keyed pm \<and>
   pm_upsert_position pm d = (Inr p, pm1) \<and> make_position_key (p_symbol p) (p_exchange p) = key \<and>
   make_position_key (t_symbol t) (t_exchange t) = key \<and> t_trade_id t \<notin> set (pm_seen pm) \<and>
   p_quantity p \<noteq> 0 \<and> \<bar>p_quantity (project_trade p t)\<bar> < \<bar>p_quantity p\<bar>"
  then have u: "pm_upsert_position pm d = (Inr p, pm1)" "pm_keyed pm" by blast+
  note k = upsert_stored[OF u]
  let ?pm2 = "(pm_remember (t_trade_id t) pm1)\<lparr>pm_states := dict_put (pm_states pm1) key
      \<lparr>sm_transitions = POSITION_STATE_TRANSITIONS, sm_state = FLAT\<rparr>\<rparr>"
  let ?n = "classify_move FLAT (p_quantity p) (p_quantity (project_trade p t))"
  have n: "?n = REDUCING \<or> ?n = POS_CLOSED" using a by (auto simp: classify_move_def)
  have m: "pm_machine pm1 key = \<lparr>sm_transitions = POSITION_STATE_TRANSITIONS, sm_state = FLAT\<rparr>"
    using a k by (simp add: pm_machine_def dict_get_or_def)
  have f: "sm_transition_to position_state_value \<lparr>sm_transitions = POSITION_STATE_TRANSITIONS, sm_state = FLAT\<rparr> ?n =
      Inl (IllegalTransition (position_state_value FLAT) (position_state_value ?n))"
    using n by (auto simp: sm_transition_to_def sm_can_transition_to_def)
  have "dict_get (pm_positions pm1) key = Some p" "pm_enforce pm1" "pm_seen pm1 = pm_seen pm" using a k by simp_all
  note g = this
  have "pm_apply_trade (pm_remember (t_trade_id t) pm1) t =
      (Inl (IllegalTransition (position_state_value FLAT) (position_state_value ?n)), ?pm2)"
    using a g m f n by (auto simp: pm_apply_trade_def Let_def dict_get_or_def)
  then have "pm_on_trade_applied False (Inr t) pm1 =
      (Some (IllegalTransition (position_state_value FLAT) (position_state_value ?n)), ?pm2)"
    using a g(3) by (simp add: pm_on_trade_applied_def)
  moreover have "t_trade_id t \<in> set (pm_seen ?pm2)" by (simp add: pm_remember_def Let_def)
  then have "pm_on_trade_applied False (Inr t) ?pm2 = (None, ?pm2)" by (simp add: pm_on_trade_applied_def)
  ultimately show "\<exists>a b pm2. pm_on_trade_applied False (Inr t) pm1 = (Some (IllegalTransition a b), pm2) \<and>
      dict_get (pm_positions pm2) key = Some p \<and> pm_on_trade_applied False (Inr t) pm2 = (None, pm2)"
    using g(1) by (intro exI conjI) simp_all
qed

text \<open>A snapshot of ten shares in an empty book, and a sale of four.\<close>

definition sample_snapshot :: "(string, pos_value) dict" where
  "sample_snapshot =
     [(''trading_symbol'', PvText ''INFY''), (''net_quantity'', PvText ''10''), (''average_price'', PvNum 100)]"

definition sample_sell :: trade where
  "sample_sell = build_domain_trade ''T1'' ''INFY'' (Inr ''SELL'') 4 105 None ''NSE'' ''O1''"

lemma reconciled_position_refuses_witness:
  "\<exists>a b pm2. pm_on_trade_applied False (Inr sample_sell) (snd (pm_upsert_position (pm_init True False) sample_snapshot)) =
      (Some (IllegalTransition a b), pm2) \<and> pm_on_trade_applied False (Inr sample_sell) pm2 = (None, pm2)"
proof -
  let ?p = "(position_new ''INFY'' ''NSE'')\<lparr>p_quantity := 10, p_avg_price := 100, p_ltp := 100\<rparr>"
  have "fst (pm_upsert_position (pm_init True False) sample_snapshot) = Inr ?p" by code_simp
  then have "pm_upsert_position (pm_init True False) sample_snapshot =
      (Inr ?p, snd (pm_upsert_position (pm_init True False) sample_snapshot))" by (metis prod.collapse)
  moreover have "p_quantity (project_trade ?p sample_sell) = 6" "t_trade_id sample_sell = ''T1''"
    "make_position_key (t_symbol sample_sell) (t_exchange sample_sell) = ''INFY:NSE''"
    "make_position_key (p_symbol ?p) (p_exchange ?p) = ''INFY:NSE''" by code_simp+
  moreover have "pm_enforce (pm_init True False)" "pm_keyed (pm_init True False)" "pm_states (pm_init True False) = []"
    "pm_seen (pm_init True False) = []" by (simp_all add: pm_init_def pm_keyed_def)
  ultimately show ?thesis
    using reconciled_position_refuses[of "pm_init True False" "''INFY:NSE''" sample_snapshot ?p
        "snd (pm_upsert_position (pm_init True False) sample_snapshot)" sample_sell]
    by (auto simp: position_new_def)
qed

text \<open>
  The net profit of the book cannot be read while a position carries unrealised profit:
  the query raises, whatever the other positions are. Otherwise it is the sum of the
  computed profits.
\<close>

theorem net_pnl_raises:
  "pm_get_net_pnl pm =
     (if \<exists>p \<in> set (pm_get_positions pm). p_unrealized_pnl p \<noteq> 0 then Inl InvalidOperation
      else Inr (dec_sum (filter (\<lambda>x. x \<noteq> 0) (map position_pnl (pm_get_positions pm)))))"
proof -
  have stuck: "foldl net_pnl_add (Inl e) ps = Inl e" for e ps
    by (induction ps) (simp_all add: net_pnl_add_def)
  have "foldl net_pnl_add (Inr x) ps =
     (if \<exists>p \<in> set ps. p_unrealized_pnl p \<noteq> 0 then Inl InvalidOperation
      else Inr (foldl dec_add x (filter (\<lambda>x. x \<noteq> 0) (map position_pnl ps))))" for x ps
    by (induction ps arbitrary: x) (auto simp: net_pnl_add_def stuck)
  then show ?thesis by (simp add: pm_get_net_pnl_def dec_sum_def)
qed

end
