(* ===== verification/Risk_Policy.thy ===== *)
theory Risk_Policy
  imports Entities Primitives
begin

text \<open>
  The rules the risk manager is built from: the policies of \<open>domain/risk/policy.py\<close>, the
  notional of \<open>domain/risk/notional.py\<close>, the exchange segments of
  \<open>domain/exchange_segments.py\<close>, and the trading state, the throttler and the loss circuit
  breaker of \<open>application/oms/_internal/\<close>. A clock reading is an argument; an operation
  that reads a clock several times gets one reading.
\<close>

section \<open>Results and reasons\<close>

text \<open>A denial keeps the numbers its message formats.\<close>

datatype risk_reason =
    Because string
  | NotionalExceeds rat rat
  | ConcentrationExceeds rat rat
  | GrossExceeds rat rat
  | DailyLossBreached rat rat
  | DailyLossPct rat rat rat
  | InCooldown rat
  | NotAligned rat rat
  | InsufficientMargin rat rat rat
  | LookupFailed string exn

datatype risk_result = Allowed | Denied risk_reason

definition approved :: "risk_result \<Rightarrow> bool" where
  "approved r \<longleftrightarrow> r = Allowed"

section \<open>Policies\<close>

definition notional_limit_check :: "rat \<Rightarrow> rat \<Rightarrow> risk_result" where
  "notional_limit_check max_not order_notional =
     (if max_not < order_notional then Denied (NotionalExceeds order_notional max_not) else Allowed)"

definition concentration_check :: "rat \<Rightarrow> rat \<Rightarrow> rat \<Rightarrow> risk_result" where
  "concentration_check max_pct order_notional portfolio =
     (if portfolio \<le> 0 then Allowed
      else
        let ratio = dec_div order_notional portfolio in
        if max_pct < ratio then Denied (ConcentrationExceeds ratio max_pct) else Allowed)"

definition gross_exposure_check :: "rat \<Rightarrow> rat \<Rightarrow> rat \<Rightarrow> risk_result" where
  "gross_exposure_check max_pct total_exposure capital =
     (if capital \<le> 0 then Denied (Because ''capital must be positive'')
      else
        let ratio = dec_div total_exposure capital in
        if max_pct < ratio then Denied (GrossExceeds ratio max_pct) else Allowed)"

record daily_loss_breaker =
  dl_limit :: rat
  dl_cumulative :: rat
  dl_tripped :: bool

definition dl_record_pnl :: "daily_loss_breaker \<Rightarrow> rat \<Rightarrow> daily_loss_breaker" where
  "dl_record_pnl b pnl =
     (let c = dec_add (dl_cumulative b) pnl in
      b\<lparr>dl_cumulative := c, dl_tripped := (if c \<le> dec_neg (dl_limit b) then True else dl_tripped b)\<rparr>)"

definition dl_reset :: "daily_loss_breaker \<Rightarrow> daily_loss_breaker" where
  "dl_reset b = b\<lparr>dl_cumulative := 0, dl_tripped := False\<rparr>"

definition dl_check :: "daily_loss_breaker \<Rightarrow> risk_result" where
  "dl_check b = (if dl_tripped b then Denied (DailyLossBreached (dl_cumulative b) (dl_limit b)) else Allowed)"

definition kill_switch_check :: "bool \<Rightarrow> risk_result" where
  "kill_switch_check active =
     (if active then Denied (Because ''kill switch active - all orders rejected'') else Allowed)"

definition check_daily_loss_pct :: "rat \<Rightarrow> rat \<Rightarrow> rat \<Rightarrow> risk_result" where
  "check_daily_loss_pct daily_pnl capital max_pct =
     (if max_pct \<le> 0 \<or> capital \<le> 0 then Allowed
      else if daily_pnl < 0 \<and> max_pct \<le> dec_pct (dec_abs daily_pnl) capital
      then Denied (DailyLossPct daily_pnl max_pct capital)
      else Allowed)"

record risk_gate =
  rg_max_notional :: rat
  rg_max_concentration :: rat
  rg_max_gross :: rat

definition risk_gate_check_order :: "risk_gate \<Rightarrow> rat \<Rightarrow> rat \<Rightarrow> rat \<Rightarrow> rat \<Rightarrow> risk_result" where
  "risk_gate_check_order g order_notional portfolio total_exposure capital =
     (let r = notional_limit_check (rg_max_notional g) order_notional in
      if \<not> approved r then r
      else let r = concentration_check (rg_max_concentration g) order_notional portfolio in
      if \<not> approved r then r
      else let r = gross_exposure_check (rg_max_gross g) total_exposure capital in
      if \<not> approved r then r else Allowed)"

definition build_risk_gate :: "rat \<Rightarrow> rat \<Rightarrow> risk_gate" where
  "build_risk_gate max_position_pct max_gross_pct =
     \<lparr>rg_max_notional = 999999999999, rg_max_concentration = dec_div max_position_pct 100,
      rg_max_gross = dec_div max_gross_pct 100\<rparr>"

section \<open>Notional\<close>

definition resolve_effective_price :: "rat \<Rightarrow> rat option \<Rightarrow> rat option" where
  "resolve_effective_price order_price ref_price =
     (if 0 < order_price then Some order_price
      else (case ref_price of None \<Rightarrow> None | Some ref \<Rightarrow> if 0 < ref then Some ref else None))"

text \<open>\<open>resolve_multiplier(multiplier, instrument=...)\<close> with the multiplier attribute of the
  instrument.\<close>

definition resolve_multiplier :: "rat option \<Rightarrow> rat option \<Rightarrow> rat" where
  "resolve_multiplier multiplier instrument_multiplier =
     (case multiplier of
        Some m \<Rightarrow> if 0 < m then m else 1
      | None \<Rightarrow> (case instrument_multiplier of Some m \<Rightarrow> if 0 < m then m else 1 | None \<Rightarrow> 1))"

definition effective_notional :: "rat \<Rightarrow> rat \<Rightarrow> rat option \<Rightarrow> rat option \<Rightarrow> rat option \<Rightarrow> rat option" where
  "effective_notional quantity order_price ref_price multiplier instrument_multiplier =
     (case resolve_effective_price order_price ref_price of
        None \<Rightarrow> None
      | Some price \<Rightarrow> Some (dec_mul (dec_mul (of_int \<bar>trunc_int quantity\<bar>) price)
          (resolve_multiplier multiplier instrument_multiplier)))"

section \<open>Exchange segments\<close>

datatype exchange_segment =
  SEG_NSE | SEG_BSE | SEG_NSE_FNO | SEG_BSE_FNO | SEG_MCX | SEG_NSE_CURRENCY | SEG_BSE_CURRENCY | SEG_IDX_I

fun segment_value :: "exchange_segment \<Rightarrow> string" where
  "segment_value SEG_NSE = ''NSE_EQ''"
| "segment_value SEG_BSE = ''BSE_EQ''"
| "segment_value SEG_NSE_FNO = ''NSE_FNO''"
| "segment_value SEG_BSE_FNO = ''BSE_FNO''"
| "segment_value SEG_MCX = ''MCXCOMM''"
| "segment_value SEG_NSE_CURRENCY = ''NSE_CURRENCY''"
| "segment_value SEG_BSE_CURRENCY = ''BSE_CURRENCY''"
| "segment_value SEG_IDX_I = ''IDX_I''"

definition segment_aliases :: "(string, exchange_segment) dict" where
  "segment_aliases =
    [(''NSE'', SEG_NSE), (''NSE_EQ'', SEG_NSE), (''BSE'', SEG_BSE), (''BSE_EQ'', SEG_BSE),
     (''MCX'', SEG_MCX), (''MCXCOMM'', SEG_MCX), (''MCX_COMM'', SEG_MCX),
     (''NSE_FNO'', SEG_NSE_FNO), (''NFO'', SEG_NSE_FNO), (''BSE_FNO'', SEG_BSE_FNO), (''BFO'', SEG_BSE_FNO),
     (''NSE_CURRENCY'', SEG_NSE_CURRENCY), (''CDS'', SEG_NSE_CURRENCY),
     (''BSE_CURRENCY'', SEG_BSE_CURRENCY), (''BCD'', SEG_BSE_CURRENCY),
     (''IDX_I'', SEG_IDX_I), (''INDEX'', SEG_IDX_I)]"

definition segment_of_value :: "string \<Rightarrow> exchange_segment option" where
  "segment_of_value v = List.find (\<lambda>s. segment_value s = v)
     [SEG_NSE, SEG_BSE, SEG_NSE_FNO, SEG_BSE_FNO, SEG_MCX, SEG_NSE_CURRENCY, SEG_BSE_CURRENCY, SEG_IDX_I]"

definition parse_segment :: "string \<Rightarrow> exchange_segment option" where
  "parse_segment v = (let key = py_upper (py_strip v) in
     case dict_get segment_aliases key of Some s \<Rightarrow> Some s | None \<Rightarrow> segment_of_value key)"

definition is_equity_segment :: "string \<Rightarrow> bool" where
  "is_equity_segment v \<longleftrightarrow> parse_segment v \<in> Some ` set [SEG_NSE, SEG_BSE]"

definition is_derivative_segment :: "string \<Rightarrow> bool" where
  "is_derivative_segment v \<longleftrightarrow>
     parse_segment v \<in> Some ` set [SEG_NSE_FNO, SEG_BSE_FNO, SEG_MCX, SEG_NSE_CURRENCY, SEG_BSE_CURRENCY]"

definition is_currency_segment :: "string \<Rightarrow> bool" where
  "is_currency_segment v \<longleftrightarrow> parse_segment v \<in> Some ` set [SEG_NSE_CURRENCY, SEG_BSE_CURRENCY]"

definition is_commodity_segment :: "string \<Rightarrow> bool" where
  "is_commodity_segment v \<longleftrightarrow> parse_segment v = Some SEG_MCX"

definition wire_value :: "string \<Rightarrow> string res" where
  "wire_value v = (case parse_segment v of
     None \<Rightarrow> Inl (ValueError (''Unknown exchange segment: '' @ v)) | Some s \<Rightarrow> Inr (segment_value s))"

fun segment_short :: "exchange_segment \<Rightarrow> string" where
  "segment_short SEG_NSE = ''NSE''"
| "segment_short SEG_BSE = ''BSE''"
| "segment_short SEG_NSE_FNO = ''NFO''"
| "segment_short SEG_BSE_FNO = ''BFO''"
| "segment_short SEG_MCX = ''MCX''"
| "segment_short SEG_NSE_CURRENCY = ''CDS''"
| "segment_short SEG_BSE_CURRENCY = ''BCD''"
| "segment_short SEG_IDX_I = ''IDX''"

definition canonical_exchange_short :: "string \<Rightarrow> string res" where
  "canonical_exchange_short v = (case parse_segment v of
     None \<Rightarrow> Inl (ValueError (''Unknown exchange segment: '' @ v)) | Some s \<Rightarrow> Inr (segment_short s))"

section \<open>Trading state\<close>

datatype trading_state = TS_ACTIVE | TS_REDUCING | TS_HALTED

definition allows_new_order :: "trading_state \<Rightarrow> string \<Rightarrow> int \<Rightarrow> int \<Rightarrow> bool" where
  "allows_new_order st side current_qty new_qty =
     (if st = TS_HALTED then False
      else if st = TS_ACTIVE then True
      else if current_qty = 0 then False
      else if side = ''SELL'' \<and> 0 < current_qty \<and> new_qty \<le> current_qty then True
      else side = ''BUY'' \<and> current_qty < 0 \<and> \<bar>current_qty\<bar> \<le> new_qty)"

section \<open>Throttler\<close>

record throttler =
  th_max :: int
  th_window :: rat
  th_timestamps :: "rat list"

definition th_init :: throttler where
  "th_init = \<lparr>th_max = 10, th_window = 1, th_timestamps = []\<rparr>"

definition th_evict :: "throttler \<Rightarrow> rat \<Rightarrow> throttler" where
  "th_evict t now = t\<lparr>th_timestamps := dropWhile (\<lambda>x. x < flt_sub now (th_window t)) (th_timestamps t)\<rparr>"

definition th_allow :: "throttler \<Rightarrow> rat \<Rightarrow> bool \<times> throttler" where
  "th_allow t now = (let t' = th_evict t now in
     if th_max t' \<le> int (length (th_timestamps t')) then (False, t')
     else (True, t'\<lparr>th_timestamps := th_timestamps t' @ [now]\<rparr>))"

definition th_remaining :: "throttler \<Rightarrow> rat \<Rightarrow> int \<times> throttler" where
  "th_remaining t now = (let t' = th_evict t now in
     (max 0 (th_max t' - int (length (th_timestamps t'))), t'))"

definition th_reset :: "throttler \<Rightarrow> throttler" where
  "th_reset t = t\<lparr>th_timestamps := []\<rparr>"

section \<open>Loss circuit breaker\<close>

datatype loss_state = LC_CLOSED | LC_OPEN | LC_COOLDOWN

record loss_config =
  lc_threshold_pct :: rat
  lc_cooldown_seconds :: int
  lc_window_seconds :: int

definition mk_loss_config :: "loss_config \<Rightarrow> loss_config res" where
  "mk_loss_config c =
     (if lc_threshold_pct c \<le> 0 then Inl (ValueError ''loss_threshold_pct must be positive'')
      else if lc_cooldown_seconds c \<le> 0 then Inl (ValueError ''cooldown_seconds must be positive'')
      else if lc_window_seconds c \<le> 0 then Inl (ValueError ''window_seconds must be positive'')
      else Inr c)"

record loss_sample =
  ls_timestamp :: rat
  ls_loss :: rat
  ls_capital :: rat

record loss_breaker =
  lb_config :: loss_config
  lb_state :: loss_state
  lb_samples :: "loss_sample list"
  lb_opened_at :: rat
  lb_cooldown_started_at :: rat
  lb_trip_count :: nat

definition lb_init :: "loss_config \<Rightarrow> loss_breaker" where
  "lb_init c = \<lparr>lb_config = c, lb_state = LC_CLOSED, lb_samples = [], lb_opened_at = 0,
     lb_cooldown_started_at = 0, lb_trip_count = 0\<rparr>"

definition lb_transition_to :: "loss_breaker \<Rightarrow> rat \<Rightarrow> loss_state \<Rightarrow> loss_breaker" where
  "lb_transition_to b now new_state =
     (if lb_state b \<noteq> new_state then
        b\<lparr>lb_state := new_state,
          lb_opened_at := (if new_state = LC_OPEN then now else lb_opened_at b),
          lb_trip_count := (if new_state = LC_OPEN then Suc (lb_trip_count b) else lb_trip_count b),
          lb_cooldown_started_at := (if new_state = LC_COOLDOWN then now else lb_cooldown_started_at b)\<rparr>
      else b)"

definition lb_purge :: "loss_breaker \<Rightarrow> rat \<Rightarrow> loss_breaker" where
  "lb_purge b now = (let cutoff = flt_sub now (of_int (lc_window_seconds (lb_config b))) in
     b\<lparr>lb_samples := filter (\<lambda>s. cutoff \<le> ls_timestamp s) (lb_samples b)\<rparr>)"

definition lb_cumulative :: "loss_breaker \<Rightarrow> rat" where
  "lb_cumulative b = dec_sum (map ls_loss (lb_samples b))"

text \<open>Whether the window holds a loss of at least the threshold, and whether it has
  recovered: both need a positive capital.\<close>

definition lb_breached :: "loss_breaker \<Rightarrow> rat \<Rightarrow> bool" where
  "lb_breached b capital \<longleftrightarrow> 0 < capital \<and> lb_cumulative b < 0 \<and>
     lc_threshold_pct (lb_config b) \<le> dec_pct (dec_abs (lb_cumulative b)) capital"

definition lb_recovered :: "loss_breaker \<Rightarrow> rat \<Rightarrow> bool" where
  "lb_recovered b capital \<longleftrightarrow> 0 < capital \<and>
     (0 \<le> lb_cumulative b \<or> dec_pct (dec_abs (lb_cumulative b)) capital < lc_threshold_pct (lb_config b))"

definition lb_record_loss :: "loss_breaker \<Rightarrow> rat \<Rightarrow> rat \<Rightarrow> rat \<Rightarrow> loss_breaker" where
  "lb_record_loss b now loss capital =
     (let b' = lb_purge (b\<lparr>lb_samples := lb_samples b @ [\<lparr>ls_timestamp = now, ls_loss = loss, ls_capital = capital\<rparr>]\<rparr>) now
      in case lb_state b' of
           LC_CLOSED \<Rightarrow> if lb_breached b' capital then lb_transition_to b' now LC_OPEN else b'
         | LC_OPEN \<Rightarrow> if lb_recovered b' capital then lb_transition_to b' now LC_COOLDOWN else b'
         | LC_COOLDOWN \<Rightarrow> b')"

definition lb_maybe_cooldown :: "loss_breaker \<Rightarrow> rat \<Rightarrow> loss_breaker" where
  "lb_maybe_cooldown b now =
     (if lb_state b = LC_COOLDOWN \<and> of_int (lc_cooldown_seconds (lb_config b)) \<le> flt_sub now (lb_cooldown_started_at b)
      then lb_transition_to b now LC_CLOSED else b)"

definition lb_maybe_open_recovery :: "loss_breaker \<Rightarrow> rat \<Rightarrow> loss_breaker" where
  "lb_maybe_open_recovery b now =
     (if lb_state b = LC_OPEN \<and> lb_samples b \<noteq> [] \<and> lb_recovered b (ls_capital (last (lb_samples b)))
      then lb_transition_to b now LC_COOLDOWN else b)"

definition lb_cooldown_remaining :: "loss_breaker \<Rightarrow> rat \<Rightarrow> rat" where
  "lb_cooldown_remaining b now =
     (if lb_state b \<noteq> LC_COOLDOWN then 0
      else max 0 (flt_sub (of_int (lc_cooldown_seconds (lb_config b))) (flt_sub now (lb_cooldown_started_at b))))"

definition lb_allow_trading :: "loss_breaker \<Rightarrow> rat \<Rightarrow> risk_result \<times> loss_breaker" where
  "lb_allow_trading b now =
     (let b' = lb_maybe_open_recovery (lb_maybe_cooldown b now) now in
      (case lb_state b' of
         LC_CLOSED \<Rightarrow> Allowed
       | LC_OPEN \<Rightarrow> Denied (Because ''Loss circuit breaker is OPEN'')
       | LC_COOLDOWN \<Rightarrow> Denied (InCooldown (lb_cooldown_remaining b' now)), b'))"

definition lb_reset :: "loss_breaker \<Rightarrow> rat \<Rightarrow> loss_breaker" where
  "lb_reset b now =
     (case lb_state b of
        LC_OPEN \<Rightarrow> lb_transition_to b now LC_COOLDOWN
      | LC_COOLDOWN \<Rightarrow> lb_transition_to b now LC_CLOSED
      | LC_CLOSED \<Rightarrow> b)"

section \<open>Facts\<close>

lemma approved_simps [simp]: "approved Allowed" "\<not> approved (Denied r)"
  by (simp_all add: approved_def)

lemma gate_approved_iff:
  "approved (risk_gate_check_order g n p t c) \<longleftrightarrow>
     n \<le> rg_max_notional g \<and> (p \<le> 0 \<or> dec_div n p \<le> rg_max_concentration g) \<and>
     0 < c \<and> dec_div t c \<le> rg_max_gross g"
  by (auto simp: risk_gate_check_order_def notional_limit_check_def concentration_check_def
      gross_exposure_check_def Let_def not_less)

lemma dec_div_capital: "0 \<le> n \<Longrightarrow> 0 < c \<Longrightarrow> c \<le> c' \<Longrightarrow> dec_div n c' \<le> dec_div n c"
  unfolding dec_div_def by (intro dec_mono divide_left_mono) (simp_all add: mult_pos_pos)

text \<open>The sliding window keeps every accepted time that is not older than its cutoff.\<close>

fun th_drive :: "throttler \<times> rat list \<Rightarrow> rat \<Rightarrow> throttler \<times> rat list" where
  "th_drive (t, acc) now = (let (ok, t') = th_allow t now in (t', if ok then acc @ [now] else acc))"

definition th_inv :: "throttler \<Rightarrow> rat \<Rightarrow> throttler \<times> rat list \<Rightarrow> bool" where
  "th_inv t0 now ta \<longleftrightarrow> th_max (fst ta) = th_max t0 \<and> th_window (fst ta) = th_window t0 \<and>
     length (th_timestamps (fst ta)) \<le> nat (th_max t0) \<and>
     (\<exists>old. snd ta = old @ th_timestamps (fst ta) \<and> (\<forall>x \<in> set old. x < flt_sub now (th_window t0)))"

lemma flt_sub_mono: "a \<le> b \<Longrightarrow> flt_sub a c \<le> flt_sub b c"
  by (simp add: flt_sub_def flt_mono)

lemma flt_sub_antimono: "b \<le> c \<Longrightarrow> flt_sub a c \<le> flt_sub a b"
  by (simp add: flt_sub_def flt_mono)

lemma th_inv_step:
  assumes "th_inv t0 now ta" "now \<le> now'"
  shows "th_inv t0 now' (th_drive ta now')"
proof -
  obtain t acc where ta: "ta = (t, acc)" by (cases ta)
  let ?c = "flt_sub now' (th_window t0)"
  have m: "flt_sub now (th_window t0) \<le> ?c" using assms(2) by (rule flt_sub_mono)
  obtain old where old: "acc = old @ th_timestamps t" "\<forall>x \<in> set old. x < flt_sub now (th_window t0)"
    using assms(1) by (auto simp: th_inv_def ta)
  define gone where "gone = takeWhile (\<lambda>x. x < ?c) (th_timestamps t)"
  have w: "th_window t = th_window t0" "th_max t = th_max t0" "length (th_timestamps t) \<le> nat (th_max t0)"
    using assms(1) by (simp_all add: th_inv_def ta)
  have ev: "th_timestamps (th_evict t now') = dropWhile (\<lambda>x. x < ?c) (th_timestamps t)"
    by (simp add: th_evict_def w)
  have acc: "acc = (old @ gone) @ th_timestamps (th_evict t now')"
    using old(1) by (simp add: ev gone_def)
  have small: "\<forall>x \<in> set (old @ gone). x < ?c"
    using old(2) m by (auto simp: gone_def dest: set_takeWhileD)
  have len: "length (th_timestamps (th_evict t now')) \<le> nat (th_max t0)"
    using w(3) length_dropWhile_le[of "\<lambda>x. x < ?c" "th_timestamps t"] by (simp add: ev)
  show ?thesis
    unfolding th_inv_def ta using acc small len w
    by (auto simp: th_allow_def Let_def th_evict_def intro!: exI[of _ "old @ gone"])
qed

lemma th_inv_run:
  "th_inv t0 now ta \<Longrightarrow> sorted (now # ts) \<Longrightarrow> th_inv t0 (last (now # ts)) (run_ops th_drive ta ts)"
proof (induction ts arbitrary: now ta)
  case (Cons a ts)
  have "th_inv t0 a (th_drive ta a)" using th_inv_step[OF Cons.prems(1), of a] Cons.prems(2) by simp
  then show ?case using Cons.IH[of a "th_drive ta a"] Cons.prems(2) by simp
qed simp

lemma th_inv_window:
  assumes "th_inv t0 now ta"
  shows "length (filter (\<lambda>x. flt_sub now (th_window t0) \<le> x) (snd ta)) \<le> nat (th_max t0)"
proof -
  obtain old where old: "snd ta = old @ th_timestamps (fst ta)" "\<forall>x \<in> set old. x < flt_sub now (th_window t0)"
    using assms by (auto simp: th_inv_def)
  have e: "filter (\<lambda>x. flt_sub now (th_window t0) \<le> x) old = []"
    using old(2) by (auto simp: filter_empty_conv not_le)
  have "length (filter (\<lambda>x. flt_sub now (th_window t0) \<le> x) (snd ta)) \<le> length (th_timestamps (fst ta))"
    unfolding old(1) filter_append e by simp
  also have "\<dots> \<le> nat (th_max t0)" using assms by (simp add: th_inv_def)
  finally show ?thesis .
qed

text \<open>The operations on the loss breaker that happen without an operator.\<close>

datatype loss_op = RecordLoss rat rat | AllowTrading

fun lb_step :: "loss_breaker \<Rightarrow> rat \<times> loss_op \<Rightarrow> loss_breaker" where
  "lb_step b (now, RecordLoss l c) = lb_record_loss b now l c"
| "lb_step b (now, AllowTrading) = snd (lb_allow_trading b now)"

definition lb_halted :: "rat \<Rightarrow> loss_breaker \<Rightarrow> bool" where
  "lb_halted t0 b \<longleftrightarrow> lb_state b \<noteq> LC_CLOSED \<and> (lb_state b = LC_COOLDOWN \<longrightarrow> t0 \<le> lb_cooldown_started_at b)"

lemma lb_config_step [simp]:
  "lb_config (lb_transition_to b now st) = lb_config b" "lb_config (lb_purge b now) = lb_config b"
  "lb_config (lb_record_loss b now l c) = lb_config b" "lb_config (lb_maybe_cooldown b now) = lb_config b"
  "lb_config (lb_maybe_open_recovery b now) = lb_config b" "lb_config (snd (lb_allow_trading b now)) = lb_config b"
  by (simp_all add: lb_transition_to_def lb_purge_def lb_record_loss_def lb_maybe_cooldown_def
      lb_maybe_open_recovery_def lb_allow_trading_def Let_def split: loss_state.split)

lemma lb_cooldown_holds:
  assumes "lb_halted t0 b" "flt_sub now t0 < of_int (lc_cooldown_seconds (lb_config b))"
  shows "lb_maybe_cooldown b now = b"
proof (cases "lb_state b = LC_COOLDOWN")
  case True
  then have "flt_sub now (lb_cooldown_started_at b) \<le> flt_sub now t0"
    using assms(1) by (intro flt_sub_antimono) (simp add: lb_halted_def)
  then show ?thesis using assms(2) by (simp add: lb_maybe_cooldown_def)
qed (simp add: lb_maybe_cooldown_def)

lemma lb_halted_step:
  assumes "lb_halted t0 b" "t0 \<le> now" "flt_sub now t0 < of_int (lc_cooldown_seconds (lb_config b))"
  shows "lb_halted t0 (lb_step b (now, x))" and "fst (lb_allow_trading b now) \<noteq> Allowed"
proof -
  note c = lb_cooldown_holds[OF assms(1,3)]
  have a: "lb_halted t0 (lb_maybe_open_recovery b now)"
    using assms(1,2) by (auto simp: lb_halted_def lb_maybe_open_recovery_def lb_transition_to_def)
  show "lb_halted t0 (lb_step b (now, x))"
  proof (cases x)
    case (RecordLoss l cap)
    then show ?thesis using assms(1,2)
      by (auto simp: lb_halted_def lb_record_loss_def lb_purge_def lb_transition_to_def Let_def split: loss_state.splits)
  next
    case AllowTrading
    then show ?thesis using a by (simp add: lb_allow_trading_def c Let_def)
  qed
  show "fst (lb_allow_trading b now) \<noteq> Allowed"
    using a by (auto simp: lb_allow_trading_def c Let_def lb_halted_def split: loss_state.split)
qed

lemma lb_config_lb_step [simp]: "lb_config (lb_step b x) = lb_config b"
  by (cases x; cases "snd x") (auto simp: lb_step.simps)

lemma lb_halted_run:
  "lb_halted t0 b \<Longrightarrow> \<forall>(now, x) \<in> set ops. t0 \<le> now \<and> flt_sub now t0 < of_int (lc_cooldown_seconds (lb_config b)) \<Longrightarrow>
   lb_halted t0 (run_ops lb_step b ops) \<and> lb_config (run_ops lb_step b ops) = lb_config b"
proof (induction ops arbitrary: b)
  case (Cons a ops)
  obtain now x where a: "a = (now, x)" by (cases a)
  have "lb_halted t0 (lb_step b a)" unfolding a using Cons.prems by (intro lb_halted_step(1)) (simp_all add: a)
  then show ?case using Cons.IH[of "lb_step b a"] Cons.prems(2) by simp
qed simp

lemma dl_cumulative_run: "dl_cumulative (run_ops dl_record_pnl b xs) = foldl dec_add (dl_cumulative b) xs"
  by (induction xs arbitrary: b) (simp_all add: dl_record_pnl_def Let_def)

lemma dl_limit_step [simp]: "dl_limit (dl_record_pnl b x) = dl_limit b"
  by (simp add: dl_record_pnl_def Let_def)

lemma dl_tripped_run:
  "dl_tripped (run_ops dl_record_pnl b xs) \<longleftrightarrow> dl_tripped b \<or>
     (\<exists>n \<in> {1..length xs}. foldl dec_add (dl_cumulative b) (take n xs) \<le> dec_neg (dl_limit b))"
proof (induction xs arbitrary: b)
  case (Cons x xs)
  have c: "dl_cumulative (dl_record_pnl b x) = dec_add (dl_cumulative b) x"
    "dl_tripped (dl_record_pnl b x) \<longleftrightarrow> dl_tripped b \<or> dec_add (dl_cumulative b) x \<le> dec_neg (dl_limit b)"
    by (simp_all add: dl_record_pnl_def Let_def)
  have split: "(\<exists>n \<in> {1..length (x # xs)}. Q n) \<longleftrightarrow> Q 1 \<or> (\<exists>n \<in> {1..length xs}. Q (Suc n))" for Q
  proof -
    have "{1..length (x # xs)} = insert 1 (Suc ` {1..length xs})" by (auto simp: image_iff)
    then show ?thesis by (simp only:) blast
  qed
  show ?case unfolding split run_ops.simps Cons.IH c by auto
qed simp

lemma parse_segment_wire: "parse_segment (segment_value s) = Some s"
  by (cases s; hypsubst; code_simp)

lemma parse_segment_short: "parse_segment (segment_short s) = (if s = SEG_IDX_I then None else Some s)"
  by (cases s; hypsubst; code_simp)

section \<open>Properties\<close>

text \<open>
  The risk gate is monotone: an order it approves stays approved with a smaller symbol
  exposure, a smaller total exposure, and, for exposures that are not negative, with more
  capital; it approves only with positive capital.
\<close>

theorem risk_gate_monotone:
  "approved (risk_gate_check_order g n c t c) \<and> n' \<le> n \<and> t' \<le> t \<and> 0 \<le> n' \<and> 0 \<le> t' \<and> c \<le> c' \<longrightarrow>
   0 < c \<and> approved (risk_gate_check_order g n' c' t' c')"
proof (intro impI)
  assume a: "approved (risk_gate_check_order g n c t c) \<and> n' \<le> n \<and> t' \<le> t \<and> 0 \<le> n' \<and> 0 \<le> t' \<and> c \<le> c'"
  then have c: "0 < c" by (simp add: gate_approved_iff)
  have "dec_div n' c' \<le> dec_div n c" "dec_div t' c' \<le> dec_div t c"
    using a c dec_div_capital[of n' c c'] dec_div_capital[of t' c c'] dec_div_mono[of n' n c] dec_div_mono[of t' t c]
    by linarith+
  then show "0 < c \<and> approved (risk_gate_check_order g n' c' t' c')"
    using a c by (auto simp: gate_approved_iff)
qed

lemma risk_gate_monotone_witness:
  "approved (risk_gate_check_order (build_risk_gate 10 100) 4000 200000 50000 200000)"
proof -
  have "approved (risk_gate_check_order (build_risk_gate 10 100) 5000 100000 60000 100000)"
    by code_simp
  then show ?thesis
    using risk_gate_monotone[of "build_risk_gate 10 100" 5000 100000 60000 4000 50000 200000] by simp
qed

text \<open>
  The throttler bounds the rate: when submissions are attempted at non-decreasing
  times, at most \<open>max_per_second\<close> of those it let through lie in the window that ends at
  the last attempt.
\<close>

theorem throttler_window_bound:
  "sorted (now # ts) \<and> 0 < th_max t0 \<and> th_timestamps t0 = [] \<longrightarrow>
   (let (t, accepted) = run_ops th_drive (t0, []) (now # ts) in
    int (length (filter (\<lambda>x. flt_sub (last (now # ts)) (th_window t0) \<le> x) accepted)) \<le> th_max t0)"
proof (intro impI)
  assume a: "sorted (now # ts) \<and> 0 < th_max t0 \<and> th_timestamps t0 = []"
  then have "th_inv t0 now (t0, [])" by (simp add: th_inv_def)
  then have i: "th_inv t0 (last (now # now # ts)) (run_ops th_drive (t0, []) (now # ts))"
    by (rule th_inv_run) (use a in simp)
  have "length (filter (\<lambda>x. flt_sub (last (now # ts)) (th_window t0) \<le> x) (snd (run_ops th_drive (t0, []) (now # ts))))
      \<le> nat (th_max t0)"
    using th_inv_window[OF i] by simp
  then have "int (length (filter (\<lambda>x. flt_sub (last (now # ts)) (th_window t0) \<le> x)
      (snd (run_ops th_drive (t0, []) (now # ts))))) \<le> th_max t0"
    using a by linarith
  then show "let (t, accepted) = run_ops th_drive (t0, []) (now # ts) in
    int (length (filter (\<lambda>x. flt_sub (last (now # ts)) (th_window t0) \<le> x) accepted)) \<le> th_max t0"
    by (simp only: Let_def case_prod_beta)
qed

lemma throttler_window_bound_witness:
  "let (t, accepted) = run_ops th_drive (th_init, []) [0, 1 / 2, 1] in
   int (length (filter (\<lambda>x. flt_sub 1 1 \<le> x) accepted)) \<le> 10"
  using throttler_window_bound[of 0 "[1 / 2, 1]" th_init] by (simp add: th_init_def)

text \<open>
  C36: once the loss circuit breaker has tripped, no sequence of recorded results and
  trading checks lets an order through before \<open>cooldown_seconds\<close> have passed, even if the
  losses are recovered at once; when the cooldown is over it lets orders through again.
\<close>

theorem loss_breaker_halts:
  "(lb_state (lb_record_loss b t0 loss capital) = LC_OPEN \<and>
    (\<forall>(now, x) \<in> set ((now1, AllowTrading) # ops).
       t0 \<le> now \<and> flt_sub now t0 < of_int (lc_cooldown_seconds (lb_config b))) \<longrightarrow>
    fst (lb_allow_trading (run_ops lb_step (lb_record_loss b t0 loss capital) ops) now1) \<noteq> Allowed) \<and>
   (lb_state b = LC_COOLDOWN \<and>
    of_int (lc_cooldown_seconds (lb_config b)) \<le> flt_sub now1 (lb_cooldown_started_at b) \<longrightarrow>
    fst (lb_allow_trading b now1) = Allowed)"
proof (intro conjI impI)
  let ?b = "lb_record_loss b t0 loss capital"
  assume a: "lb_state ?b = LC_OPEN \<and> (\<forall>(now, x) \<in> set ((now1, AllowTrading) # ops).
       t0 \<le> now \<and> flt_sub now t0 < of_int (lc_cooldown_seconds (lb_config b)))"
  then have "lb_halted t0 ?b" by (simp add: lb_halted_def)
  then have r: "lb_halted t0 (run_ops lb_step ?b ops)" "lb_config (run_ops lb_step ?b ops) = lb_config b"
    using lb_halted_run[of t0 ?b ops] a by auto
  show "fst (lb_allow_trading (run_ops lb_step ?b ops) now1) \<noteq> Allowed"
    by (rule lb_halted_step(2)[OF r(1)]) (use a r(2) in auto)
next
  assume "lb_state b = LC_COOLDOWN \<and>
    of_int (lc_cooldown_seconds (lb_config b)) \<le> flt_sub now1 (lb_cooldown_started_at b)"
  then show "fst (lb_allow_trading b now1) = Allowed"
    by (simp add: lb_allow_trading_def lb_maybe_cooldown_def lb_transition_to_def lb_maybe_open_recovery_def Let_def)
qed

lemma loss_breaker_halts_witness:
  "let b = lb_record_loss (lb_init \<lparr>lc_threshold_pct = 2, lc_cooldown_seconds = 1800, lc_window_seconds = 86400\<rparr>)
       100 (- 3000) 100000 in
   lb_state b = LC_OPEN \<and>
   fst (lb_allow_trading (run_ops lb_step b [(200, RecordLoss 5000 100000)]) 300) \<noteq> Allowed"
proof -
  define c where "c = \<lparr>lc_threshold_pct = 2, lc_cooldown_seconds = 1800, lc_window_seconds = 86400\<rparr>"
  have "lb_state (lb_record_loss (lb_init c) 100 (- 3000) 100000) = LC_OPEN"
    unfolding c_def by code_simp
  moreover have "flt_sub 200 100 < 1800" "flt_sub 300 100 < 1800" by code_simp+
  ultimately show ?thesis
    using loss_breaker_halts[of "lb_init c" 100 "- 3000" 100000 300 "[(200, RecordLoss 5000 100000)]"]
    unfolding c_def[symmetric] by (simp add: lb_init_def c_def Let_def)
qed

text \<open>
  The daily loss breaker latches: starting from a reset, it is tripped exactly when
  some running total of the recorded results has reached the limit, no matter how much is
  gained afterwards.
\<close>

theorem daily_loss_latched:
  "dl_check (run_ops dl_record_pnl (dl_reset b) xs) = Allowed \<longleftrightarrow>
   (\<forall>n \<in> {1..length xs}. dec_neg (dl_limit b) < dec_sum (take n xs))"
  using dl_tripped_run[of "dl_reset b" xs] by (auto simp: dl_check_def dl_reset_def dec_sum_def not_less)

lemma daily_loss_latched_witness:
  "dl_check (run_ops dl_record_pnl (dl_reset \<lparr>dl_limit = 50000, dl_cumulative = 7, dl_tripped = True\<rparr>) [- 60000, 90000]) \<noteq> Allowed"
proof -
  have "\<not> dec_neg 50000 < dec_sum (take 1 [- 60000, 90000])" by code_simp
  moreover have "1 \<in> {1..length [- 60000 :: rat, 90000]}" by simp
  ultimately have "\<not> (\<forall>n \<in> {1..length [- 60000 :: rat, 90000]}. dec_neg 50000 < dec_sum (take n [- 60000, 90000]))"
    by blast
  then show ?thesis
    using daily_loss_latched[of "\<lparr>dl_limit = 50000, dl_cumulative = 7, dl_tripped = True\<rparr>" "[- 60000, 90000]"]
    by (simp only: daily_loss_breaker.simps) blast
qed

text \<open>
  Every exchange segment is parsed back from its wire value, and from its short code
  except the index segment, whose code \<open>IDX\<close> is not recognised; parsing ignores case and
  surrounding white space.
\<close>

theorem segment_codes_parse_back:
  "parse_segment (segment_value s) = Some s \<and> wire_value (segment_value s) = Inr (segment_value s) \<and>
   parse_segment (segment_short s) = (if s = SEG_IDX_I then None else Some s) \<and>
   parse_segment (py_upper (py_strip v)) = parse_segment v"
  by (simp add: parse_segment_wire parse_segment_short wire_value_def)
     (simp add: parse_segment_def py_strip_upper)

end
