(* ===== verification/Risk_Manager.thy ===== *)
theory Risk_Manager
  imports Risk_Policy Fills
begin

text \<open>
  Pre-trade risk management: the kill switch, the daily profit tracker, the margin checker
  with its pending-exposure reservations and the risk manager that composes them with the
  policies of \<^theory_text>\<open>Risk_Policy\<close> (\<open>application/oms/_internal/\<close>). The capital source, the
  instrument master and the margin provider are arguments, and so are the clock readings
  and the positions the position manager reports; one call reads each clock once. Events
  published for listeners are appended to an outbox.
\<close>

section \<open>Configuration, environment, events\<close>

record risk_config =
  rc_max_daily_loss_pct :: rat
  rc_max_position_pct :: rat
  rc_max_gross_pct :: rat
  rc_kill_switch :: bool
  rc_margin_multiplier :: rat
  rc_enable_margin_check :: bool

text \<open>What the code reads of an instrument: its tick size if it has one, the well-formed
  ones of \<open>ltp\<close>, \<open>last_price\<close>, \<open>last_traded_price\<close> in this order, and its multiplier.\<close>

record instrument_info =
  in_tick_size :: "rat option"
  in_prices :: "rat list"
  in_multiplier :: "rat option"

record margin_quote =
  mq_required :: rat
  mq_available :: rat

record risk_env =
  re_monotonic :: rat
  re_time :: rat
  re_today :: int
  re_capital :: "rat res"
  re_instruments :: "(string \<Rightarrow> string \<Rightarrow> instrument_info option res) option"
  re_margin :: "(order \<Rightarrow> margin_quote res) option"
  re_positions :: "(string, position) dict"

datatype risk_event = KillSwitchToggled bool bool | RiskLimitBreached rat rat

section \<open>Kill switch\<close>

record kill_switch =
  ks_config_active :: bool
  ks_domain :: "bool option"
  ks_toggles :: nat

definition ks_is_active :: "kill_switch \<Rightarrow> bool" where
  "ks_is_active k = (if ks_config_active k then True else ks_domain k = Some True)"

definition ks_set :: "kill_switch \<Rightarrow> bool \<Rightarrow> kill_switch \<times> risk_event list" where
  "ks_set k active =
     (let previous = ks_config_active k in
      (k\<lparr>ks_config_active := active,
         ks_domain := (case ks_domain k of None \<Rightarrow> None | Some _ \<Rightarrow> Some active),
         ks_toggles := (if previous \<noteq> active then Suc (ks_toggles k) else ks_toggles k)\<rparr>,
       if previous \<noteq> active then [KillSwitchToggled active previous] else []))"

section \<open>Daily profit tracker\<close>

record pnl_tracker =
  pt_daily_pnl :: rat
  pt_breach_notified :: bool
  pt_reset_count :: nat
  pt_last_reset_at :: rat

definition pt_init :: pnl_tracker where
  "pt_init = \<lparr>pt_daily_pnl = 0, pt_breach_notified = False, pt_reset_count = 0, pt_last_reset_at = 0\<rparr>"

definition pt_reset :: "pnl_tracker \<Rightarrow> rat \<Rightarrow> pnl_tracker" where
  "pt_reset t now = t\<lparr>pt_daily_pnl := 0, pt_reset_count := Suc (pt_reset_count t), pt_last_reset_at := now\<rparr>"

text \<open>The day in India of a Unix time, which \<open>fromtimestamp\<close> first rounds to microseconds.\<close>

definition ist_day :: "rat \<Rightarrow> int" where
  "ist_day ts = \<lfloor>(of_int (rhe (ts * 1000000)) / 1000000 + 19800) / (86400 :: rat)\<rfloor>"

definition pt_is_stale :: "pnl_tracker \<Rightarrow> int \<Rightarrow> bool" where
  "pt_is_stale t today = (if pt_last_reset_at t = 0 then True else ist_day (pt_last_reset_at t) < today)"

definition pt_breached :: "rat \<Rightarrow> rat \<Rightarrow> rat \<Rightarrow> bool" where
  "pt_breached max_pct pnl capital =
     (let loss_budget = dec_mul capital (dec_div max_pct 100);
          consumed = (if pnl < 0 then dec_div (dec_abs pnl) loss_budget else 0)
      in 8 / 10 \<le> consumed)"

definition pt_maybe_publish ::
  "bool \<Rightarrow> pnl_tracker \<Rightarrow> rat \<Rightarrow> rat \<Rightarrow> rat \<Rightarrow> pnl_tracker \<times> risk_event list" where
  "pt_maybe_publish listening t max_pct pnl capital =
     (if \<not> listening \<or> capital \<le> 0 \<or> max_pct \<le> 0 then (t, [])
      else if dec_mul capital (dec_div max_pct 100) \<le> 0 then (t, [])
      else if pt_breached max_pct pnl capital \<and> \<not> pt_breach_notified t
      then (t\<lparr>pt_breach_notified := True\<rparr>, [RiskLimitBreached pnl max_pct])
      else if \<not> pt_breached max_pct pnl capital then (t\<lparr>pt_breach_notified := False\<rparr>, [])
      else (t, []))"

definition pt_update ::
  "bool \<Rightarrow> pnl_tracker \<Rightarrow> loss_breaker \<Rightarrow> rat \<Rightarrow> rat \<Rightarrow> rat res \<Rightarrow> rat
     \<Rightarrow> unit res \<times> pnl_tracker \<times> loss_breaker \<times> risk_event list" where
  "pt_update listening t b max_pct now capital_res pnl =
     (let previous = pt_daily_pnl t; t' = t\<lparr>pt_daily_pnl := pnl\<rparr> in
      case capital_res of
        Inl e \<Rightarrow> (Inl e, t', b, [])
      | Inr capital \<Rightarrow>
          (let b' = lb_record_loss b now (dec_sub pnl previous) capital;
               (t2, evs) = pt_maybe_publish listening t' max_pct pnl capital
           in (Inr (), t2, b', evs)))"

section \<open>Margin checker and pending exposure\<close>

record margin_checker =
  mc_pending :: "(string, rat) dict"
  mc_meta :: "(string, string \<times> string) dict"
  mc_at :: "(string, rat) dict"
  mc_ttl :: rat

definition mc_init :: margin_checker where
  "mc_init = \<lparr>mc_pending = [], mc_meta = [], mc_at = [], mc_ttl = 600\<rparr>"

definition mc_drop :: "margin_checker \<Rightarrow> string \<Rightarrow> margin_checker" where
  "mc_drop m cid = m\<lparr>mc_pending := dict_pop (mc_pending m) cid, mc_meta := dict_pop (mc_meta m) cid,
     mc_at := dict_pop (mc_at m) cid\<rparr>"

definition mc_sweep :: "margin_checker \<Rightarrow> rat \<Rightarrow> margin_checker" where
  "mc_sweep m now = foldl mc_drop m
     (map fst (filter (\<lambda>(cid, started). mc_ttl m \<le> flt_sub now started) (mc_at m)))"

definition mc_release :: "margin_checker \<Rightarrow> string option \<Rightarrow> margin_checker" where
  "mc_release m correlation_id = (case correlation_id of
     None \<Rightarrow> m | Some cid \<Rightarrow> if cid = [] then m else mc_drop m cid)"

definition mc_reduce :: "margin_checker \<Rightarrow> string \<Rightarrow> int \<Rightarrow> rat \<Rightarrow> margin_checker" where
  "mc_reduce m cid filled_quantity price =
     (if cid = [] then m
      else
        let current = dict_get_or (mc_pending m) cid 0;
            fill_notional = dec_mul (of_int filled_quantity) price;
            new_pending = max 0 (dec_sub current fill_notional)
        in if new_pending \<le> 0 then mc_drop m cid
           else m\<lparr>mc_pending := dict_put (mc_pending m) cid new_pending\<rparr>)"

definition mc_reserve :: "margin_checker \<Rightarrow> rat \<Rightarrow> order \<Rightarrow> rat \<Rightarrow> margin_checker" where
  "mc_reserve m now ord notional =
     (let m' = mc_sweep m now in
      case o_correlation_id ord of
        None \<Rightarrow> m'
      | Some cid \<Rightarrow>
          if cid = [] then m'
          else m'\<lparr>mc_pending := dict_put (mc_pending m') cid notional,
                  mc_meta := dict_put (mc_meta m') cid (o_symbol ord, o_exchange ord),
                  mc_at := dict_put (mc_at m') cid now\<rparr>)"

definition mc_gross :: "margin_checker \<Rightarrow> rat" where
  "mc_gross m = dec_sum (dict_values (mc_pending m))"

definition mc_symbol :: "margin_checker \<Rightarrow> string \<Rightarrow> string \<Rightarrow> rat" where
  "mc_symbol m symbol exchange = dec_sum
     (map (\<lambda>(cid, _). dict_get_or (mc_pending m) cid 0)
        (filter (\<lambda>(cid, sy, ex). sy = symbol \<and> ex = exchange) (mc_meta m)))"

text \<open>Reading the pending exposure first drops the expired reservations.\<close>

definition mc_pending_gross :: "margin_checker \<Rightarrow> rat \<Rightarrow> rat \<times> margin_checker" where
  "mc_pending_gross m now = (let m' = mc_sweep m now in (mc_gross m', m'))"

definition mc_pending_symbol_notional ::
  "margin_checker \<Rightarrow> rat \<Rightarrow> string \<Rightarrow> string \<Rightarrow> rat \<times> margin_checker" where
  "mc_pending_symbol_notional m now symbol exchange =
     (let m' = mc_sweep m now in (mc_symbol m' symbol exchange, m'))"

text \<open>Reference price, multiplier and instrument; a failing lookup counts as no instrument.\<close>

definition mc_resolve_market_context ::
  "risk_env \<Rightarrow> order \<Rightarrow> rat option \<times> rat option \<times> instrument_info option" where
  "mc_resolve_market_context env ord =
     (case re_instruments env of
        None \<Rightarrow> (None, None, None)
      | Some look \<Rightarrow>
          (case look (o_symbol ord) (o_exchange ord) of
             Inr (Some i) \<Rightarrow>
               (List.find (\<lambda>c. 0 < c) (in_prices i),
                (case in_multiplier i of Some m \<Rightarrow> if 0 < m then Some m else None | None \<Rightarrow> None),
                Some i)
           | _ \<Rightarrow> (None, None, None)))"

definition mc_check :: "risk_config \<Rightarrow> risk_env \<Rightarrow> order \<Rightarrow> risk_result" where
  "mc_check cfg env ord =
     (case re_margin env of
        None \<Rightarrow> Denied (Because ''F&O order rejected: no margin provider configured'')
      | Some quote \<Rightarrow>
          (case quote ord of
             Inl e \<Rightarrow> Denied (LookupFailed ''F&O order rejected: margin check error'' e)
           | Inr q \<Rightarrow>
               let required_with_buffer = dec_mul (mq_required q) (rc_margin_multiplier cfg) in
               if mq_available q < required_with_buffer
               then Denied (InsufficientMargin (mq_required q) required_with_buffer (mq_available q))
               else Allowed))"

section \<open>Risk manager\<close>

record risk_manager =
  rk_config :: risk_config
  rk_gate :: risk_gate
  rk_legacy :: bool
  rk_kill :: kill_switch
  rk_loss_cb :: loss_breaker
  rk_tracker :: pnl_tracker
  rk_margin :: margin_checker
  rk_throttler :: throttler
  rk_trading_state :: trading_state
  rk_listening :: bool
  rk_events :: "risk_event list"

definition default_loss_config :: loss_config where
  "default_loss_config = \<lparr>lc_threshold_pct = 2, lc_cooldown_seconds = 1800, lc_window_seconds = 86400\<rparr>"

text \<open>Without a domain kill switch from outside, the manager makes its own, set as configured.\<close>

definition rk_init :: "risk_config \<Rightarrow> bool option \<Rightarrow> bool \<Rightarrow> loss_config option \<Rightarrow> bool \<Rightarrow> risk_manager" where
  "rk_init cfg domain legacy lcfg listening =
     \<lparr>rk_config = cfg, rk_gate = build_risk_gate (rc_max_position_pct cfg) (rc_max_gross_pct cfg),
      rk_legacy = legacy,
      rk_kill = \<lparr>ks_config_active = rc_kill_switch cfg,
        ks_domain = (case domain of None \<Rightarrow> Some (rc_kill_switch cfg) | Some a \<Rightarrow> Some a), ks_toggles = 0\<rparr>,
      rk_loss_cb = lb_init (case lcfg of None \<Rightarrow> default_loss_config | Some c \<Rightarrow> c),
      rk_tracker = pt_init, rk_margin = mc_init, rk_throttler = th_init, rk_trading_state = TS_ACTIVE,
      rk_listening = listening, rk_events = []\<rparr>"

type_synonym policy = "risk_env \<Rightarrow> order \<Rightarrow> risk_manager \<Rightarrow> risk_result option res \<times> risk_manager"

definition policy_kill_switch :: policy where
  "policy_kill_switch env ord rm =
     (Inr (if ks_is_active (rk_kill rm) then Some (Denied (Because ''Kill switch is active'')) else None), rm)"

definition policy_domain_kill_switch :: policy where
  "policy_domain_kill_switch env ord rm =
     (Inr (case ks_domain (rk_kill rm) of
        None \<Rightarrow> None
      | Some a \<Rightarrow> (case kill_switch_check a of Allowed \<Rightarrow> None | Denied r \<Rightarrow> Some (Denied r))), rm)"

definition policy_trading_state :: policy where
  "policy_trading_state env ord rm =
     (Inr (if \<not> allows_new_order (rk_trading_state rm) [] 0 0
           then Some (Denied (Because ''Trading halted'')) else None), rm)"

definition policy_loss_circuit :: policy where
  "policy_loss_circuit env ord rm =
     (let (r, b) = lb_allow_trading (rk_loss_cb rm) (re_time env) in
      (Inr (case r of Allowed \<Rightarrow> None | Denied d \<Rightarrow> Some (Denied d)), rm\<lparr>rk_loss_cb := b\<rparr>))"

definition policy_throttle :: policy where
  "policy_throttle env ord rm =
     (let (ok, t) = th_allow (rk_throttler rm) (re_monotonic env) in
      (Inr (if \<not> ok then Some (Denied (Because ''Order submission rate limit exceeded'')) else None),
       rm\<lparr>rk_throttler := t\<rparr>))"

definition DEFAULT_TICK_SIZE :: rat where
  "DEFAULT_TICK_SIZE = 5 / 100"

definition tick_size_of :: "risk_env \<Rightarrow> order \<Rightarrow> rat res" where
  "tick_size_of env ord = (case re_instruments env of
     None \<Rightarrow> Inr DEFAULT_TICK_SIZE
   | Some look \<Rightarrow>
       (case look (o_symbol ord) (o_exchange ord) of
          Inl e \<Rightarrow> Inl e
        | Inr None \<Rightarrow> Inr DEFAULT_TICK_SIZE
        | Inr (Some i) \<Rightarrow> Inr (case in_tick_size i of None \<Rightarrow> DEFAULT_TICK_SIZE | Some t \<Rightarrow> t)))"

definition tick_verdict :: "risk_env \<Rightarrow> order \<Rightarrow> risk_result option res" where
  "tick_verdict env ord =
     (if o_order_type ord \<in> set [MARKET, STOP_LOSS_MARKET] then Inr None
      else if o_price ord \<le> 0 then Inr None
      else case tick_size_of env ord of
        Inl e \<Rightarrow> Inr (Some (Denied (LookupFailed (''Instrument lookup failed for '' @ o_symbol ord) e)))
      | Inr tick \<Rightarrow>
          if tick \<le> 0 then Inr None
          else (case is_tick_aligned (o_price ord) tick (1 / 10000) of
                  Inl e \<Rightarrow> Inl e
                | Inr ok \<Rightarrow> Inr (if \<not> ok then Some (Denied (NotAligned (o_price ord) tick)) else None)))"

definition policy_tick_align :: policy where
  "policy_tick_align env ord rm = (tick_verdict env ord, rm)"

definition pre_trade_policies :: "policy list" where
  "pre_trade_policies = [policy_kill_switch, policy_domain_kill_switch, policy_trading_state,
     policy_loss_circuit, policy_throttle, policy_tick_align]"

text \<open>The first denial ends the chain.\<close>

fun run_policy_chain :: "policy list \<Rightarrow> policy" where
  "run_policy_chain [] env ord rm = (Inr None, rm)"
| "run_policy_chain (p # ps) env ord rm =
     (case p env ord rm of
        (Inl e, rm') \<Rightarrow> (Inl e, rm')
      | (Inr (Some (Denied r)), rm') \<Rightarrow> (Inr (Some (Denied r)), rm')
      | (Inr _, rm') \<Rightarrow> run_policy_chain ps env ord rm')"

text \<open>\<open>abs(int(quantity)) * avg_price * (multiplier or 1)\<close>\<close>

definition book_notional :: "position \<Rightarrow> rat" where
  "book_notional p = dec_mul (dec_mul (of_int \<bar>trunc_int (p_quantity p)\<bar>) (p_avg_price p))
     (if p_multiplier p \<noteq> 0 then p_multiplier p else 1)"

definition check_exposure_limits ::
  "risk_manager \<Rightarrow> risk_env \<Rightarrow> order \<Rightarrow> rat \<Rightarrow> position option \<Rightarrow> rat \<Rightarrow> risk_result \<times> risk_manager" where
  "check_exposure_limits rm env ord capital current notional =
     (let current_notional = (case current of Some p \<Rightarrow> book_notional p | None \<Rightarrow> 0);
          (pending_symbol, m1) =
            mc_pending_symbol_notional (rk_margin rm) (re_monotonic env) (o_symbol ord) (o_exchange ord);
          symbol_exposure = dec_add (dec_add current_notional pending_symbol) notional;
          gross = dec_sum (map book_notional (dict_values (re_positions env)));
          (pending_gross, m2) = mc_pending_gross m1 (re_monotonic env);
          total_exposure = dec_add (dec_add gross pending_gross) notional;
          rm' = rm\<lparr>rk_margin := m2\<rparr>
      in if rk_legacy rm then
           (if rc_max_position_pct (rk_config rm) < dec_pct symbol_exposure capital
            then Denied (Because (''Exceeds max position pct for '' @ o_symbol ord))
            else if rc_max_gross_pct (rk_config rm) < dec_pct total_exposure capital
            then Denied (Because ''Exceeds max gross exposure pct'')
            else Allowed, rm')
         else (risk_gate_check_order (rk_gate rm) symbol_exposure capital total_exposure capital, rm'))"

text \<open>The notional of an order: its price, else the instrument's, else the last price of the
  open position; \<open>None\<close> when there is no price.\<close>

definition order_notional :: "risk_env \<Rightarrow> order \<Rightarrow> rat option" where
  "order_notional env ord =
     (let current = dict_get (re_positions env) (make_position_key (o_symbol ord) (o_exchange ord));
          (ref0, mult, inst) = mc_resolve_market_context env ord;
          ref = (case (ref0, current) of (None, Some p) \<Rightarrow> if 0 < p_ltp p then Some (p_ltp p) else None | _ \<Rightarrow> ref0)
      in effective_notional (o_quantity ord) (o_price ord) ref mult
           (case inst of Some i \<Rightarrow> in_multiplier i | None \<Rightarrow> None))"

text \<open>A reset that is a day old is repeated; without any reset the total is of today.\<close>

definition self_heal :: "pnl_tracker \<Rightarrow> risk_env \<Rightarrow> pnl_tracker" where
  "self_heal t env = (if pt_is_stale t (re_today env) \<and> pt_last_reset_at t \<noteq> 0 then pt_reset t (re_time env) else t)"

definition daily_loss_reached :: "risk_config \<Rightarrow> pnl_tracker \<Rightarrow> rat \<Rightarrow> bool" where
  "daily_loss_reached cfg t capital \<longleftrightarrow>
     pt_daily_pnl t < 0 \<and> rc_max_daily_loss_pct cfg \<le> dec_pct (dec_abs (pt_daily_pnl t)) capital"

text \<open>The last part of \<open>check_order\<close>: exposure, daily loss, reservation.\<close>

definition check_limits ::
  "risk_manager \<Rightarrow> risk_env \<Rightarrow> order \<Rightarrow> rat \<Rightarrow> rat \<Rightarrow> risk_result res \<times> risk_manager" where
  "check_limits rm env ord capital notional =
     (let current = dict_get (re_positions env) (make_position_key (o_symbol ord) (o_exchange ord));
          (gate, rm1) = check_exposure_limits rm env ord capital current notional
      in if \<not> approved gate then (Inr gate, rm1)
         else
           let t = self_heal (rk_tracker rm1) env; rm2 = rm1\<lparr>rk_tracker := t\<rparr> in
           if daily_loss_reached (rk_config rm) t capital
           then (Inr (Denied (Because ''Daily loss limit reached'')), rm2)
           else (Inr Allowed,
             rm2\<lparr>rk_margin := mc_reserve (rk_margin rm2) (re_monotonic env) ord notional\<rparr>))"

definition margin_verdict :: "risk_config \<Rightarrow> risk_env \<Rightarrow> order \<Rightarrow> risk_result" where
  "margin_verdict cfg env ord =
     (if rc_enable_margin_check cfg \<and> is_derivative_segment (o_exchange ord) then mc_check cfg env ord else Allowed)"

definition check_order :: "risk_manager \<Rightarrow> risk_env \<Rightarrow> order \<Rightarrow> risk_result res \<times> risk_manager" where
  "check_order rm0 env ord =
     (case run_policy_chain pre_trade_policies env ord rm0 of
        (Inl e, rm) \<Rightarrow> (Inl e, rm)
      | (Inr (Some r), rm) \<Rightarrow> (Inr r, rm)
      | (Inr None, rm) \<Rightarrow>
          (case re_capital env of
             Inl e \<Rightarrow> (Inl e, rm)
           | Inr capital \<Rightarrow>
               if capital \<le> 0 then (Inr (Denied (Because ''Insufficient capital'')), rm)
               else if \<not> approved (margin_verdict (rk_config rm) env ord)
               then (Inr (margin_verdict (rk_config rm) env ord), rm)
               else (case order_notional env ord of
                       None \<Rightarrow> (Inr (Denied (Because (''Cannot size risk for '' @ o_symbol ord))), rm)
                     | Some notional \<Rightarrow> check_limits rm env ord capital notional)))"

definition rk_publish :: "risk_manager \<Rightarrow> risk_event list \<Rightarrow> risk_manager" where
  "rk_publish rm evs = (if rk_listening rm then rm\<lparr>rk_events := rk_events rm @ evs\<rparr> else rm)"

definition update_daily_pnl :: "risk_manager \<Rightarrow> risk_env \<Rightarrow> rat \<Rightarrow> unit res \<times> risk_manager" where
  "update_daily_pnl rm env pnl =
     (let (r, t, b, evs) = pt_update (rk_listening rm) (rk_tracker rm) (rk_loss_cb rm)
            (rc_max_daily_loss_pct (rk_config rm)) (re_time env) (re_capital env) pnl
      in (r, rk_publish (rm\<lparr>rk_tracker := t, rk_loss_cb := b\<rparr>) evs))"

definition set_kill_switch :: "risk_manager \<Rightarrow> bool \<Rightarrow> risk_manager" where
  "set_kill_switch rm active =
     (let (k, evs) = ks_set (rk_kill rm) active in
      rk_publish (rm\<lparr>rk_kill := k, rk_config := (rk_config rm)\<lparr>rc_kill_switch := ks_is_active k\<rparr>\<rparr>) evs)"

definition reset_daily_pnl :: "risk_manager \<Rightarrow> rat \<Rightarrow> risk_manager" where
  "reset_daily_pnl rm now = rm\<lparr>rk_tracker := pt_reset (rk_tracker rm) now\<rparr>"

definition reset_loss_circuit_breaker :: "risk_manager \<Rightarrow> rat \<Rightarrow> risk_manager" where
  "reset_loss_circuit_breaker rm now = rm\<lparr>rk_loss_cb := lb_reset (rk_loss_cb rm) now\<rparr>"

definition rk_release_pending :: "risk_manager \<Rightarrow> string option \<Rightarrow> risk_manager" where
  "rk_release_pending rm cid = rm\<lparr>rk_margin := mc_release (rk_margin rm) cid\<rparr>"

definition rk_reduce_pending :: "risk_manager \<Rightarrow> string \<Rightarrow> int \<Rightarrow> rat \<Rightarrow> risk_manager" where
  "rk_reduce_pending rm cid qty price = rm\<lparr>rk_margin := mc_reduce (rk_margin rm) cid qty price\<rparr>"

definition rk_set_trading_state :: "risk_manager \<Rightarrow> trading_state \<Rightarrow> risk_manager" where
  "rk_set_trading_state rm st = rm\<lparr>rk_trading_state := st\<rparr>"

section \<open>Driving the manager\<close>

datatype risk_op =
    CheckOrder risk_env order
  | UpdatePnl risk_env rat
  | SetKillSwitch bool
  | ResetPnl rat
  | ResetLossBreaker rat
  | ReleasePending "string option"
  | ReducePending string int rat
  | SetTradingState trading_state

fun rk_step :: "risk_manager \<Rightarrow> risk_op \<Rightarrow> risk_manager" where
  "rk_step rm (CheckOrder env ord) = snd (check_order rm env ord)"
| "rk_step rm (UpdatePnl env pnl) = snd (update_daily_pnl rm env pnl)"
| "rk_step rm (SetKillSwitch a) = set_kill_switch rm a"
| "rk_step rm (ResetPnl now) = reset_daily_pnl rm now"
| "rk_step rm (ResetLossBreaker now) = reset_loss_circuit_breaker rm now"
| "rk_step rm (ReleasePending cid) = rk_release_pending rm cid"
| "rk_step rm (ReducePending cid q p) = rk_reduce_pending rm cid q p"
| "rk_step rm (SetTradingState st) = rk_set_trading_state rm st"

section \<open>Facts about the policies\<close>

lemma allows_new_order_default [simp]: "allows_new_order st [] 0 0 \<longleftrightarrow> st = TS_ACTIVE"
  by (cases st) (simp_all add: allows_new_order_def)

lemma policy_frame:
  assumes "p \<in> set pre_trade_policies"
  shows "rk_kill (snd (p env ord rm)) = rk_kill rm \<and> rk_trading_state (snd (p env ord rm)) = rk_trading_state rm \<and>
    rk_margin (snd (p env ord rm)) = rk_margin rm \<and> rk_config (snd (p env ord rm)) = rk_config rm \<and>
    rk_gate (snd (p env ord rm)) = rk_gate rm \<and> rk_legacy (snd (p env ord rm)) = rk_legacy rm \<and>
    rk_tracker (snd (p env ord rm)) = rk_tracker rm"
  using assms
  by (auto simp: pre_trade_policies_def policy_kill_switch_def policy_domain_kill_switch_def policy_trading_state_def
      policy_loss_circuit_def policy_throttle_def policy_tick_align_def case_prod_beta)

lemma chain_frame:
  assumes "set ps \<subseteq> set pre_trade_policies"
  shows "rk_kill (snd (run_policy_chain ps env ord rm)) = rk_kill rm \<and>
    rk_trading_state (snd (run_policy_chain ps env ord rm)) = rk_trading_state rm \<and>
    rk_margin (snd (run_policy_chain ps env ord rm)) = rk_margin rm \<and>
    rk_config (snd (run_policy_chain ps env ord rm)) = rk_config rm \<and>
    rk_gate (snd (run_policy_chain ps env ord rm)) = rk_gate rm \<and>
    rk_legacy (snd (run_policy_chain ps env ord rm)) = rk_legacy rm \<and>
    rk_tracker (snd (run_policy_chain ps env ord rm)) = rk_tracker rm"
  using assms
proof (induction ps arbitrary: rm)
  case (Cons p ps)
  obtain r rm' where p: "p env ord rm = (r, rm')" by (cases "p env ord rm")
  note f = policy_frame[of p env ord rm, unfolded p snd_conv]
  show ?case using Cons.IH[of rm'] Cons.prems f
    by (auto simp: p split: sum.splits option.splits risk_result.splits)
qed simp

lemma chain_passed:
  assumes "run_policy_chain pre_trade_policies env ord rm = (Inr None, rm')"
  shows "\<not> ks_is_active (rk_kill rm)" "rk_trading_state rm = TS_ACTIVE"
    "fst (lb_allow_trading (rk_loss_cb rm) (re_time env)) = Allowed"
    "fst (th_allow (rk_throttler rm) (re_monotonic env))"
  using assms
  by (auto simp: pre_trade_policies_def policy_kill_switch_def policy_domain_kill_switch_def policy_trading_state_def
      policy_loss_circuit_def policy_throttle_def Let_def case_prod_beta
      split: if_splits risk_result.splits sum.splits option.splits)

lemma chain_denies_kill:
  "ks_is_active (rk_kill rm) \<Longrightarrow>
   run_policy_chain pre_trade_policies env ord rm = (Inr (Some (Denied (Because ''Kill switch is active''))), rm)"
  by (simp add: pre_trade_policies_def policy_kill_switch_def)

lemma check_order_kill:
  "ks_is_active (rk_kill rm) \<Longrightarrow> check_order rm env ord = (Inr (Denied (Because ''Kill switch is active'')), rm)"
  by (simp add: check_order_def chain_denies_kill)

lemma check_exposure_frame:
  "rk_kill (snd (check_exposure_limits rm env ord c cur n)) = rk_kill rm \<and>
   rk_trading_state (snd (check_exposure_limits rm env ord c cur n)) = rk_trading_state rm \<and>
   rk_tracker (snd (check_exposure_limits rm env ord c cur n)) = rk_tracker rm"
  by (simp add: check_exposure_limits_def Let_def case_prod_beta)

lemma check_limits_frame: "rk_kill (snd (check_limits rm env ord c n)) = rk_kill rm"
  using check_exposure_frame[of rm env ord c _ n] by (simp add: check_limits_def Let_def case_prod_beta)

lemma check_order_kill_frame: "rk_kill (snd (check_order rm env ord)) = rk_kill rm"
proof -
  obtain r rm1 where c: "run_policy_chain pre_trade_policies env ord rm = (r, rm1)"
    by (cases "run_policy_chain pre_trade_policies env ord rm")
  have f: "rk_kill rm1 = rk_kill rm" using chain_frame[of pre_trade_policies env ord rm] by (simp add: c)
  show ?thesis
    using f by (simp add: check_order_def c check_limits_frame split: sum.split option.split)
qed

lemma update_pnl_kill_frame: "rk_kill (snd (update_daily_pnl rm env pnl)) = rk_kill rm"
  by (simp add: update_daily_pnl_def rk_publish_def Let_def case_prod_beta)

lemma set_kill_switch_active: "ks_is_active (rk_kill (set_kill_switch rm True))"
  by (simp add: set_kill_switch_def ks_set_def ks_is_active_def rk_publish_def Let_def)

lemma rk_step_kill:
  "ks_is_active (rk_kill rm) \<Longrightarrow> x \<noteq> SetKillSwitch False \<Longrightarrow> ks_is_active (rk_kill (rk_step rm x))"
  by (cases x)
     (auto simp: check_order_kill_frame update_pnl_kill_frame set_kill_switch_active reset_daily_pnl_def
       reset_loss_circuit_breaker_def rk_release_pending_def rk_reduce_pending_def rk_set_trading_state_def)

lemma rk_run_kill:
  "ks_is_active (rk_kill rm) \<Longrightarrow> SetKillSwitch False \<notin> set ops \<Longrightarrow> ks_is_active (rk_kill (run_ops rk_step rm ops))"
proof (induction ops arbitrary: rm)
  case (Cons x ops)
  have "x \<noteq> SetKillSwitch False" "SetKillSwitch False \<notin> set ops" using Cons.prems(2) by auto
  then show ?case
    unfolding run_ops.simps by (intro Cons.IH rk_step_kill[OF Cons.prems(1)])
qed simp

section \<open>What an approval means\<close>

lemma chain_not_allowed: "run_policy_chain ps env ord rm \<noteq> (Inr (Some Allowed), rm')"
  by (induction ps arbitrary: rm) (auto split: sum.splits option.splits risk_result.splits prod.splits)

lemma check_order_allowed:
  assumes "check_order rm0 env ord = (Inr Allowed, rm')"
  shows "\<exists>rm capital notional. run_policy_chain pre_trade_policies env ord rm0 = (Inr None, rm) \<and>
    re_capital env = Inr capital \<and> 0 < capital \<and> margin_verdict (rk_config rm0) env ord = Allowed \<and>
    order_notional env ord = Some notional \<and> check_limits rm env ord capital notional = (Inr Allowed, rm')"
proof -
  obtain r rm where c: "run_policy_chain pre_trade_policies env ord rm0 = (r, rm)"
    by (cases "run_policy_chain pre_trade_policies env ord rm0")
  have f: "rk_config rm = rk_config rm0"
    using chain_frame[of pre_trade_policies env ord rm0] by (simp add: c)
  show ?thesis
    using assms chain_not_allowed[of pre_trade_policies env ord rm0]
    by (auto simp: check_order_def c approved_def f split: sum.splits option.splits if_splits)
qed

lemma check_limits_allowed:
  assumes "check_limits rm env ord capital notional = (Inr Allowed, rm')"
  shows "\<exists>rm1. check_exposure_limits rm env ord capital
      (dict_get (re_positions env) (make_position_key (o_symbol ord) (o_exchange ord))) notional = (Allowed, rm1) \<and>
    \<not> daily_loss_reached (rk_config rm) (self_heal (rk_tracker rm1) env) capital \<and>
    rm' = rm1\<lparr>rk_tracker := self_heal (rk_tracker rm1) env,
      rk_margin := mc_reserve (rk_margin rm1) (re_monotonic env) ord notional\<rparr>"
  using assms
  by (auto simp: check_limits_def Let_def approved_def case_prod_beta prod_eq_iff split: if_splits)

lemma check_exposure_result:
  "check_exposure_limits rm env ord capital current notional =
     (let m1 = mc_sweep (rk_margin rm) (re_monotonic env);
          m2 = mc_sweep m1 (re_monotonic env);
          symbol_exposure = dec_add (dec_add (case current of Some p \<Rightarrow> book_notional p | None \<Rightarrow> 0)
            (mc_symbol m1 (o_symbol ord) (o_exchange ord))) notional;
          total_exposure = dec_add (dec_add (dec_sum (map book_notional (dict_values (re_positions env)))) (mc_gross m2)) notional;
          rm' = rm\<lparr>rk_margin := m2\<rparr>
      in if rk_legacy rm then
           (if rc_max_position_pct (rk_config rm) < dec_pct symbol_exposure capital
            then Denied (Because (''Exceeds max position pct for '' @ o_symbol ord))
            else if rc_max_gross_pct (rk_config rm) < dec_pct total_exposure capital
            then Denied (Because ''Exceeds max gross exposure pct'')
            else Allowed, rm')
         else (risk_gate_check_order (rk_gate rm) symbol_exposure capital total_exposure capital, rm'))"
  by (simp add: check_exposure_limits_def mc_pending_symbol_notional_def mc_pending_gross_def Let_def)

section \<open>Pending exposure\<close>

text \<open>The three dictionaries have the same keys in the same order, and no reservation is
  negative.\<close>

definition mc_inv :: "margin_checker \<Rightarrow> bool" where
  "mc_inv m \<longleftrightarrow> distinct (map fst (mc_pending m)) \<and> map fst (mc_meta m) = map fst (mc_pending m) \<and>
     map fst (mc_at m) = map fst (mc_pending m) \<and> (\<forall>v \<in> set (map snd (mc_pending m)). 0 \<le> v)"

lemma dict_pop_keys: "map fst (dict_pop d k) = filter (\<lambda>x. x \<noteq> k) (map fst d)"
  by (induction d) (auto simp: dict_pop_def AList.delete_eq)

lemma dict_put_keys: "map fst (dict_put d k v) = (if k \<in> set (map fst d) then map fst d else map fst d @ [k])"
  by (simp add: dict_put_def update_keys)

lemma dict_put_values_nonneg:
  "(\<forall>w \<in> set (map snd d). 0 \<le> w) \<Longrightarrow> 0 \<le> v \<Longrightarrow> \<forall>w \<in> set (map snd (dict_put d k v)). (0 :: rat) \<le> w"
  by (induction d) (auto simp: dict_put_def)

lemma dict_pop_values: "set (map snd (dict_pop d k)) \<subseteq> set (map snd d)"
  by (auto simp: dict_pop_def AList.delete_eq)

lemma mc_inv_init: "mc_inv mc_init"
  by (simp add: mc_inv_def mc_init_def)

text \<open>The invariant over the three fields alone.\<close>

definition lockstep :: "(string, rat) dict \<Rightarrow> (string, 'b) dict \<Rightarrow> (string, 'c) dict \<Rightarrow> bool" where
  "lockstep p me a \<longleftrightarrow> distinct (map fst p) \<and> map fst me = map fst p \<and> map fst a = map fst p \<and>
     (\<forall>v \<in> set (map snd p). 0 \<le> v)"

lemma mc_inv_lockstep: "mc_inv m \<longleftrightarrow> lockstep (mc_pending m) (mc_meta m) (mc_at m)"
  by (simp add: mc_inv_def lockstep_def)

definition nonneg_values :: "(string, rat) dict \<Rightarrow> bool" where
  "nonneg_values p \<longleftrightarrow> (\<forall>v \<in> set (map snd p). 0 \<le> v)"

lemma nonneg_values_pop: "nonneg_values p \<Longrightarrow> nonneg_values (dict_pop p k)"
  using dict_pop_values[of p k] unfolding nonneg_values_def by blast

lemma nonneg_values_put: "nonneg_values p \<Longrightarrow> 0 \<le> v \<Longrightarrow> nonneg_values (dict_put p k v)"
  unfolding nonneg_values_def by (rule dict_put_values_nonneg)

lemma lockstep_iff: "lockstep p me a \<longleftrightarrow> distinct (map fst p) \<and> map fst me = map fst p \<and> map fst a = map fst p \<and>
     nonneg_values p"
  by (simp only: lockstep_def nonneg_values_def)

lemma lockstep_pop: "lockstep p me a \<Longrightarrow> lockstep (dict_pop p k) (dict_pop me k) (dict_pop a k)"
  unfolding lockstep_iff dict_pop_keys by (metis distinct_filter nonneg_values_pop)

lemma lockstep_put:
  assumes "lockstep p me a" "0 \<le> v"
  shows "lockstep (dict_put p k v) (dict_put me k x) (dict_put a k y)"
  using assms nonneg_values_put[of p v k] unfolding lockstep_iff dict_put_keys by (simp del: set_map)

lemma lockstep_put_value:
  assumes "lockstep p me a" "0 \<le> v" "k \<in> set (map fst p)"
  shows "lockstep (dict_put p k v) me a"
  using assms nonneg_values_put[of p v k] unfolding lockstep_iff dict_put_keys by (simp del: set_map)

lemma mc_inv_drop [inv_intros]: "mc_inv m \<Longrightarrow> mc_inv (mc_drop m cid)"
  by (simp add: mc_inv_lockstep mc_drop_def lockstep_pop)

lemma mc_inv_sweep [inv_intros]: "mc_inv m \<Longrightarrow> mc_inv (mc_sweep m now)"
proof -
  have "mc_inv m \<Longrightarrow> mc_inv (foldl mc_drop m cids)" for cids
    by (induction cids arbitrary: m) (auto intro: mc_inv_drop)
  then show "mc_inv m \<Longrightarrow> ?thesis" by (simp add: mc_sweep_def)
qed

lemma mc_inv_release [inv_intros]: "mc_inv m \<Longrightarrow> mc_inv (mc_release m cid)"
  by (auto simp: mc_release_def split: option.split intro: mc_inv_drop)

lemma mc_inv_reserve [inv_intros]:
  assumes "mc_inv m" "0 \<le> n"
  shows "mc_inv (mc_reserve m now ord n)"
proof -
  have i: "mc_inv (mc_sweep m now)" by (rule mc_inv_sweep[OF assms(1)])
  then show ?thesis using assms(2)
    by (simp add: mc_reserve_def Let_def mc_inv_lockstep lockstep_put split: option.split)
qed

lemma dict_get_key: "k \<notin> set (map fst d) \<longleftrightarrow> dict_get d k = None"
  by (simp add: dict_get_def map_of_eq_None_iff)

lemma mc_inv_reduce [inv_intros]:
  assumes "mc_inv m" "0 \<le> of_int q * price"
  shows "mc_inv (mc_reduce m cid q price)"
proof (cases "cid \<in> set (map fst (mc_pending m))")
  case True
  let ?v = "max 0 (dec_sub (dict_get_or (mc_pending m) cid 0) (dec_mul (of_int q) price))"
  have "mc_inv (m\<lparr>mc_pending := dict_put (mc_pending m) cid ?v\<rparr>)"
    using assms(1) True unfolding mc_inv_lockstep by (simp add: lockstep_put_value)
  then show ?thesis using mc_inv_drop[OF assms(1), of cid] assms(1) by (simp add: mc_reduce_def Let_def)
next
  case False
  then have "dict_get (mc_pending m) cid = None" by (simp only: dict_get_key)
  then have "dict_get_or (mc_pending m) cid 0 = 0" by (simp add: dict_get_or_def)
  then have "dec_sub (dict_get_or (mc_pending m) cid 0) (dec_mul (of_int q) price) \<le> 0"
    using assms(2) by (simp add: dec_mul_def)
  then show ?thesis using mc_inv_drop[OF assms(1), of cid] assms(1) by (simp add: mc_reduce_def Let_def)
qed

lemma dec_sum_filter_le:
  "(\<forall>x \<in> set xs. 0 \<le> f x) \<Longrightarrow> dec_sum (map f (filter P xs)) \<le> dec_sum (map f xs)"
proof (induction xs rule: rev_induct)
  case (snoc x xs)
  then have ih: "dec_sum (map f (filter P xs)) \<le> dec_sum (map f xs)" by simp
  have d: "is_dec (dec_sum (map f xs))" for xs
    by (cases "map f xs" rule: rev_cases) (simp_all add: dec_sum_snoc dec_add_def)
  have "dec_sum (map f xs) \<le> dec_add (dec_sum (map f xs)) (f x)"
    unfolding dec_add_def by (rule dec_ge[OF d]) (use snoc.prems in simp)
  then show ?case using ih dec_add_mono[OF ih order_refl, of "f x"]
    by (auto simp: dec_sum_snoc)
qed simp

lemma mc_symbol_le_gross:
  assumes "mc_inv m"
  shows "mc_symbol m sy ex \<le> mc_gross m"
proof -
  define g where "g = (\<lambda>cid. dict_get_or (mc_pending m) cid 0)"
  have d: "distinct (map fst (mc_pending m))" and k: "map fst (mc_meta m) = map fst (mc_pending m)"
    and nn: "\<forall>v \<in> set (map snd (mc_pending m)). 0 \<le> v"
    using assms unfolding mc_inv_def by blast+
  have v: "map snd (mc_pending m) = map g (map fst (mc_pending m))"
    using d by (auto simp: g_def dict_get_or_def dict_get_def)
  have s: "mc_symbol m sy ex = dec_sum (map (\<lambda>x. g (fst x)) (filter (\<lambda>(cid, sy', ex'). sy' = sy \<and> ex' = ex) (mc_meta m)))"
    unfolding mc_symbol_def g_def by (intro arg_cong[where f = dec_sum] map_cong) auto
  have m: "map (\<lambda>x. g (fst x)) (mc_meta m) = map snd (mc_pending m)"
    unfolding v k[symmetric] by simp
  have "mc_gross m = dec_sum (map (\<lambda>x. g (fst x)) (mc_meta m))"
    by (simp only: m mc_gross_def dict_values_def)
  moreover have "\<forall>y \<in> set (map (\<lambda>x. g (fst x)) (mc_meta m)). 0 \<le> y" unfolding m by (rule nn)
  then have "\<forall>x \<in> set (mc_meta m). 0 \<le> g (fst x)" by simp
  ultimately show ?thesis unfolding s by (simp add: dec_sum_filter_le)
qed

lemma mc_drop_all:
  "mc_at (foldl mc_drop m cids) = filter (\<lambda>(c, _). c \<notin> set cids) (mc_at m) \<and>
   mc_ttl (foldl mc_drop m cids) = mc_ttl m"
proof (induction cids arbitrary: m)
  case (Cons c cids)
  have "mc_at (mc_drop m c) = filter (\<lambda>(x, _). x \<noteq> c) (mc_at m)" "mc_ttl (mc_drop m c) = mc_ttl m"
    by (auto simp: mc_drop_def dict_pop_def AList.delete_eq intro!: filter_cong)
  then show ?case using Cons.IH[of "mc_drop m c"] by (auto intro!: filter_cong)
qed simp

lemma mc_sweep_idem [simp]: "mc_sweep (mc_sweep m now) now = mc_sweep m now"
proof -
  let ?e = "\<lambda>(cid, started). mc_ttl m \<le> flt_sub now started"
  have "filter ?e (mc_at (mc_sweep m now)) = []" and "mc_ttl (mc_sweep m now) = mc_ttl m"
    using mc_drop_all[of m "map fst (filter ?e (mc_at m))"] by (force simp: mc_sweep_def filter_empty_conv)+
  then show ?thesis by (simp add: mc_sweep_def[of "mc_sweep m now"])
qed

lemma effective_notional_nonneg: "effective_notional q p ref m im = Some n \<Longrightarrow> 0 \<le> n"
proof -
  have "0 < resolve_multiplier m im" by (auto simp: resolve_multiplier_def split: option.split)
  moreover have "resolve_effective_price p ref = Some x \<Longrightarrow> 0 < x" for x
    by (auto simp: resolve_effective_price_def split: option.splits if_splits)
  ultimately show "effective_notional q p ref m im = Some n \<Longrightarrow> 0 \<le> n"
    by (fastforce simp: effective_notional_def intro!: dec_mul_sign split: option.splits)
qed

lemma order_notional_nonneg: "order_notional env ord = Some n \<Longrightarrow> 0 \<le> n"
  by (auto simp: order_notional_def Let_def case_prod_beta dest: effective_notional_nonneg)

lemma check_limits_inv:
  assumes "mc_inv (rk_margin rm)" "0 \<le> n"
  shows "mc_inv (rk_margin (snd (check_limits rm env ord c n)))"
proof -
  have "mc_inv (rk_margin (snd (check_exposure_limits rm env ord c cur n)))" for cur
    using mc_inv_sweep[OF assms(1)]
    by (simp add: check_exposure_result Let_def)
  then show ?thesis using assms(2)
    by (simp add: check_limits_def Let_def case_prod_beta mc_inv_reserve)
qed

lemma check_order_inv:
  assumes "mc_inv (rk_margin rm)"
  shows "mc_inv (rk_margin (snd (check_order rm env ord)))"
proof -
  obtain r rm1 where c: "run_policy_chain pre_trade_policies env ord rm = (r, rm1)"
    by (cases "run_policy_chain pre_trade_policies env ord rm")
  have f: "mc_inv (rk_margin rm1)" using chain_frame[of pre_trade_policies env ord rm] assms by (simp add: c)
  have "order_notional env ord = Some n \<Longrightarrow> mc_inv (rk_margin (snd (check_limits rm1 env ord x n)))" for n x
    using check_limits_inv[OF f] order_notional_nonneg by blast
  then show ?thesis using f by (simp add: check_order_def c split: sum.split option.split)
qed

text \<open>Fills have a price that is not negative.\<close>

fun sane_op :: "risk_op \<Rightarrow> bool" where
  "sane_op (ReducePending cid q p) = (0 \<le> of_int q * p)"
| "sane_op _ = True"

lemma rk_step_margin:
  "mc_inv (rk_margin rm) \<Longrightarrow> sane_op x \<Longrightarrow> mc_inv (rk_margin (rk_step rm x))"
  by (cases x)
     (simp_all add: check_order_inv update_daily_pnl_def set_kill_switch_def rk_publish_def Let_def case_prod_beta
       reset_daily_pnl_def reset_loss_circuit_breaker_def rk_release_pending_def rk_reduce_pending_def
       rk_set_trading_state_def mc_inv_release mc_inv_reduce)

lemma rk_run_margin:
  "mc_inv (rk_margin rm) \<Longrightarrow> \<forall>x \<in> set ops. sane_op x \<Longrightarrow> mc_inv (rk_margin (run_ops rk_step rm ops))"
proof (induction ops arbitrary: rm)
  case (Cons x ops)
  then have "mc_inv (rk_margin (rk_step rm x))" "\<forall>x \<in> set ops. sane_op x" by (simp_all add: rk_step_margin)
  then show ?case unfolding run_ops.simps by (rule Cons.IH)
qed simp

section \<open>Properties\<close>

text \<open>An account of 100000, an empty book and a limit order of ten shares at 100.\<close>

definition sample_config :: risk_config where
  "sample_config = \<lparr>rc_max_daily_loss_pct = 5, rc_max_position_pct = 20, rc_max_gross_pct = 100,
     rc_kill_switch = False, rc_margin_multiplier = 1, rc_enable_margin_check = True\<rparr>"

definition sample_env :: risk_env where
  "sample_env = \<lparr>re_monotonic = 100, re_time = 100, re_today = 0, re_capital = Inr 100000,
     re_instruments = None, re_margin = None, re_positions = []\<rparr>"

definition sample_order :: order where
  "sample_order = (order_new ''O1'' ''INFY'' ''NSE'' BUY LIMIT 10)
     \<lparr>o_price := 100, o_correlation_id := Some ''C1''\<rparr>"

text \<open>
  C5: once the kill switch is set, every order is denied, and denied without any effect on
  the manager, whatever else happens - price updates, resets, fills, changes of the trading
  state - until the switch is released.
\<close>

theorem kill_switch_freezes:
  "SetKillSwitch False \<notin> set ops \<longrightarrow>
   (let rm' = run_ops rk_step (set_kill_switch rm True) ops in
    check_order rm' env ord = (Inr (Denied (Because ''Kill switch is active'')), rm'))"
  using rk_run_kill[OF set_kill_switch_active, of ops rm] by (auto simp: Let_def intro: check_order_kill)

lemma kill_switch_freezes_witness:
  "fst (check_order (rk_step (set_kill_switch (rk_init sample_config None False None True) True)
     (SetTradingState TS_ACTIVE)) sample_env sample_order) = Inr (Denied (Because ''Kill switch is active''))"
  using kill_switch_freezes[of "[SetTradingState TS_ACTIVE]" "rk_init sample_config None False None True" sample_env
      sample_order] by (simp add: Let_def)

text \<open>What the policies before the limits ask, with tick size and margin spelled out.\<close>

lemma tick_verdict_passes:
  "tick_verdict env ord = Inr None \<longleftrightarrow>
     o_order_type ord \<in> {MARKET, STOP_LOSS_MARKET} \<or> o_price ord \<le> 0 \<or>
     (\<exists>tick. tick_size_of env ord = Inr tick \<and> (tick \<le> 0 \<or> is_tick_aligned (o_price ord) tick (1 / 10000) = Inr True))"
  by (auto simp: tick_verdict_def split: sum.splits)

lemma margin_verdict_passes:
  "margin_verdict cfg env ord = Allowed \<longleftrightarrow>
     (rc_enable_margin_check cfg \<and> is_derivative_segment (o_exchange ord) \<longrightarrow>
      (\<exists>quote q. re_margin env = Some quote \<and> quote ord = Inr q \<and> dec_mul (mq_required q) (rc_margin_multiplier cfg) \<le> mq_available q))"
  by (auto simp: margin_verdict_def mc_check_def Let_def not_less split: option.splits sum.splits)

lemma tick_verdict_not_allowed: "tick_verdict env ord \<noteq> Inr (Some Allowed)"
  by (auto simp: tick_verdict_def split: sum.splits)

lemma chain_passes_iff:
  "fst (run_policy_chain pre_trade_policies env ord rm) = Inr None \<longleftrightarrow>
     \<not> ks_is_active (rk_kill rm) \<and> rk_trading_state rm = TS_ACTIVE \<and>
     fst (lb_allow_trading (rk_loss_cb rm) (re_time env)) = Allowed \<and>
     fst (th_allow (rk_throttler rm) (re_monotonic env)) \<and> tick_verdict env ord = Inr None"
  using tick_verdict_not_allowed[of env ord]
  by (auto simp: pre_trade_policies_def policy_kill_switch_def policy_domain_kill_switch_def policy_trading_state_def
      policy_loss_circuit_def policy_throttle_def policy_tick_align_def Let_def case_prod_beta ks_is_active_def kill_switch_check_def
      allows_new_order_def
      split: if_splits risk_result.splits sum.splits option.splits)

lemma check_limits_allowed_iff:
  "fst (check_limits rm env ord capital notional) = Inr Allowed \<longleftrightarrow>
     fst (check_exposure_limits rm env ord capital (dict_get (re_positions env) (make_position_key (o_symbol ord) (o_exchange ord))) notional)
       = Allowed \<and> \<not> daily_loss_reached (rk_config rm) (self_heal (rk_tracker rm) env) capital"
proof -
  have f: "rk_tracker (snd (check_exposure_limits rm env ord c cur n)) = rk_tracker rm" for c cur n using check_exposure_frame by blast
  show ?thesis using f
    by (auto simp: check_limits_def Let_def approved_def case_prod_beta split: if_splits)
qed

text \<open>The exposure of the symbol and of the whole book, live reservations and the order included.\<close>

definition within_exposure :: "risk_manager \<Rightarrow> risk_env \<Rightarrow> order \<Rightarrow> rat \<Rightarrow> rat \<Rightarrow> bool" where
  "within_exposure rm env ord capital notional \<longleftrightarrow>
     (let live = mc_sweep (rk_margin rm) (re_monotonic env);
          held = (case dict_get (re_positions env) (make_position_key (o_symbol ord) (o_exchange ord)) of
            Some p \<Rightarrow> book_notional p | None \<Rightarrow> 0);
          book = dec_sum (map book_notional (dict_values (re_positions env)));
          symb = dec_add (dec_add held (mc_symbol live (o_symbol ord) (o_exchange ord))) notional;
          total = dec_add (dec_add book (mc_gross live)) notional
      in if rk_legacy rm
         then dec_pct symb capital \<le> rc_max_position_pct (rk_config rm) \<and> dec_pct total capital \<le> rc_max_gross_pct (rk_config rm)
         else symb \<le> rg_max_notional (rk_gate rm) \<and> dec_div symb capital \<le> rg_max_concentration (rk_gate rm) \<and>
              dec_div total capital \<le> rg_max_gross (rk_gate rm))"

lemma exposure_allowed_iff:
  "0 < capital \<Longrightarrow> fst (check_exposure_limits rm env ord capital
      (dict_get (re_positions env) (make_position_key (o_symbol ord) (o_exchange ord))) notional) = Allowed \<longleftrightarrow>
    within_exposure rm env ord capital notional"
  using gate_approved_iff unfolding check_exposure_result
  by (auto simp: within_exposure_def Let_def approved_def not_less)

text \<open>
  C3: an order is approved exactly when all limits hold: no kill switch, normal trading state,
  loss breaker closed, rate limit kept, a price on the tick of its instrument, positive capital,
  for a derivative with the margin check on a margin quote that is covered, a notional that can
  be sized, the exposure of its symbol and of the whole book with all live reservations and the
  order itself within the limits - those of the risk gate, its cap on the notional included, or
  the configured percentages in the legacy mode - and no daily loss at the limit. The notional
  of an approved order with a correlation id is then reserved under it.
\<close>

theorem approval_respects_limits:
  "(fst (check_order rm env ord) = Inr Allowed \<longleftrightarrow>
    \<not> ks_is_active (rk_kill rm) \<and> rk_trading_state rm = TS_ACTIVE \<and>
    fst (lb_allow_trading (rk_loss_cb rm) (re_time env)) = Allowed \<and>
    fst (th_allow (rk_throttler rm) (re_monotonic env)) \<and>
    (o_order_type ord \<in> {MARKET, STOP_LOSS_MARKET} \<or> o_price ord \<le> 0 \<or>
     (\<exists>tick. tick_size_of env ord = Inr tick \<and> (tick \<le> 0 \<or> is_tick_aligned (o_price ord) tick (1 / 10000) = Inr True))) \<and>
    (rc_enable_margin_check (rk_config rm) \<and> is_derivative_segment (o_exchange ord) \<longrightarrow>
     (\<exists>quote q. re_margin env = Some quote \<and> quote ord = Inr q \<and>
        dec_mul (mq_required q) (rc_margin_multiplier (rk_config rm)) \<le> mq_available q)) \<and>
    (\<exists>capital notional. re_capital env = Inr capital \<and> 0 < capital \<and> order_notional env ord = Some notional \<and>
       within_exposure rm env ord capital notional \<and> \<not> daily_loss_reached (rk_config rm) (self_heal (rk_tracker rm) env) capital)) \<and>
   (fst (check_order rm env ord) = Inr Allowed \<and> o_correlation_id ord = Some cid \<and> cid \<noteq> [] \<longrightarrow>
    dict_get (mc_pending (rk_margin (snd (check_order rm env ord)))) cid = order_notional env ord)"
proof (intro conjI impI)
  obtain r rm0 where c: "run_policy_chain pre_trade_policies env ord rm = (r, rm0)" by (metis prod.exhaust)
  have f: "rk_margin rm0 = rk_margin rm" "rk_config rm0 = rk_config rm" "rk_gate rm0 = rk_gate rm"
      "rk_legacy rm0 = rk_legacy rm" "rk_tracker rm0 = rk_tracker rm"
    using chain_frame[of pre_trade_policies env ord rm] by (simp_all add: c)
  have na: "r \<noteq> Inr (Some Allowed)" using chain_not_allowed[of pre_trade_policies env ord rm rm0] by (auto simp: c)
  have o: "fst (check_order rm env ord) = Inr Allowed \<longleftrightarrow>
      r = Inr None \<and> margin_verdict (rk_config rm) env ord = Allowed \<and>
      (\<exists>capital notional. re_capital env = Inr capital \<and> 0 < capital \<and> order_notional env ord = Some notional \<and>
         fst (check_limits rm0 env ord capital notional) = Inr Allowed)"
    using na by (auto simp: check_order_def c approved_def f not_le split: sum.splits option.splits)
  have w: "within_exposure rm0 env ord c n = within_exposure rm env ord c n" for c n by (simp add: within_exposure_def f)
  note x = exposure_allowed_iff[of _ rm0 env ord]
  show "fst (check_order rm env ord) = Inr Allowed \<longleftrightarrow> \<not> ks_is_active (rk_kill rm) \<and> rk_trading_state rm = TS_ACTIVE \<and>
    fst (lb_allow_trading (rk_loss_cb rm) (re_time env)) = Allowed \<and>
    fst (th_allow (rk_throttler rm) (re_monotonic env)) \<and>
    (o_order_type ord \<in> {MARKET, STOP_LOSS_MARKET} \<or> o_price ord \<le> 0 \<or>
     (\<exists>tick. tick_size_of env ord = Inr tick \<and> (tick \<le> 0 \<or> is_tick_aligned (o_price ord) tick (1 / 10000) = Inr True))) \<and>
    (rc_enable_margin_check (rk_config rm) \<and> is_derivative_segment (o_exchange ord) \<longrightarrow>
     (\<exists>quote q. re_margin env = Some quote \<and> quote ord = Inr q \<and>
        dec_mul (mq_required q) (rc_margin_multiplier (rk_config rm)) \<le> mq_available q)) \<and>
    (\<exists>capital notional. re_capital env = Inr capital \<and> 0 < capital \<and> order_notional env ord = Some notional \<and>
       within_exposure rm env ord capital notional \<and> \<not> daily_loss_reached (rk_config rm) (self_heal (rk_tracker rm) env) capital)"
    unfolding o margin_verdict_passes check_limits_allowed_iff f tick_verdict_passes[symmetric]
    using chain_passes_iff[of env ord rm, unfolded c fst_conv] x w by auto
next
  assume a: "fst (check_order rm env ord) = Inr Allowed \<and> o_correlation_id ord = Some cid \<and> cid \<noteq> []"
  then obtain rm' where rm': "check_order rm env ord = (Inr Allowed, rm')" by (metis prod.collapse)
  from check_order_allowed[OF this] obtain rm0 capital notional where l: "order_notional env ord = Some notional"
    "check_limits rm0 env ord capital notional = (Inr Allowed, rm')" by blast
  from check_limits_allowed[OF l(2)] show "dict_get (mc_pending (rk_margin (snd (check_order rm env ord)))) cid = order_notional env ord"
    using a l(1) by (auto simp: rm' mc_reserve_def Let_def)
qed

lemma sample_order_approved:
  "fst (check_order (rk_init sample_config None False None True) sample_env sample_order) = Inr Allowed"
  by code_simp

lemma approval_respects_limits_witness:
  "dict_get (mc_pending (rk_margin (snd (check_order (rk_init sample_config None False None True) sample_env sample_order)))) ''C1''
     = order_notional sample_env sample_order \<and> order_notional sample_env sample_order = Some 1000"
proof -
  have "order_notional sample_env sample_order = Some 1000" by code_simp
  then show ?thesis
    using sample_order_approved
      approval_respects_limits[of "rk_init sample_config None False None True" sample_env sample_order "''C1''", THEN conjunct2]
    by (simp add: sample_order_def)
qed

text \<open>
  In the states \<open>REDUCING\<close> and \<open>HALTED\<close> the risk manager approves no order at all, not
  even one that reduces a position: the policy asks \<open>allows_new_order\<close> without saying
  what the order does. Asked with a side and quantities, \<open>REDUCING\<close> lets a sell through
  when it stays within a long position, but a buy exactly when it is at least as large as
  the short position it should reduce.
\<close>

theorem reducing_denies_everything:
  "(rk_trading_state rm \<noteq> TS_ACTIVE \<longrightarrow> fst (check_order rm env ord) \<noteq> Inr Allowed) \<and>
   (0 < cur \<longrightarrow> (allows_new_order TS_REDUCING ''SELL'' cur q \<longleftrightarrow> q \<le> cur)) \<and>
   (cur < 0 \<longrightarrow> (allows_new_order TS_REDUCING ''BUY'' cur q \<longleftrightarrow> \<bar>cur\<bar> \<le> q))"
proof (intro conjI impI)
  assume s: "rk_trading_state rm \<noteq> TS_ACTIVE"
  show "fst (check_order rm env ord) \<noteq> Inr Allowed"
  proof
    assume "fst (check_order rm env ord) = Inr Allowed"
    then have "check_order rm env ord = (Inr Allowed, snd (check_order rm env ord))" by (simp add: prod_eq_iff)
    from check_order_allowed[OF this] show False using chain_passed(2) s by blast
  qed
qed (simp_all add: allows_new_order_def)

lemma reducing_denies_everything_witness:
  "\<not> allows_new_order TS_REDUCING ''BUY'' (- 10) 4 \<and> allows_new_order TS_REDUCING ''BUY'' (- 10) 25"
  using reducing_denies_everything[where cur = "- 10" and q = 4] reducing_denies_everything[where cur = "- 10" and q = 25]
  by simp

text \<open>
  The reservations are booked consistently: after any sequence of checks, fills,
  releases, price updates and switches, starting from a fresh manager, the three
  dictionaries have the same keys, no reservation is negative, and the pending exposure of
  a symbol never exceeds the pending exposure of the book.
\<close>

theorem pending_exposure_consistent:
  "(\<forall>x \<in> set ops. sane_op x) \<longrightarrow>
   (let m = rk_margin (run_ops rk_step (rk_init cfg domain legacy lcfg listening) ops) in
    mc_inv m \<and> 0 \<le> mc_symbol m sy ex \<and> mc_symbol m sy ex \<le> mc_gross m \<and>
    fst (mc_pending_symbol_notional m now sy ex) \<le> fst (mc_pending_gross m now))"
proof (intro impI)
  assume s: "\<forall>x \<in> set ops. sane_op x"
  define m where "m = rk_margin (run_ops rk_step (rk_init cfg domain legacy lcfg listening) ops)"
  have "mc_inv (rk_margin (rk_init cfg domain legacy lcfg listening))"
    by (simp add: rk_init_def mc_inv_init)
  then have i: "mc_inv m" using rk_run_margin s by (simp add: m_def)
  have "\<forall>v \<in> set (map snd (mc_pending m)). 0 \<le> v" using i unfolding mc_inv_def by blast
  then have "0 \<le> dict_get_or (mc_pending m) cid 0" for cid
    by (auto simp: dict_get_or_def dict_get_def dest!: map_of_SomeD split: option.split)
  then have "0 \<le> mc_symbol m sy ex" by (auto simp: mc_symbol_def intro!: dec_sum_nonneg)
  then show "let m = rk_margin (run_ops rk_step (rk_init cfg domain legacy lcfg listening) ops) in
    mc_inv m \<and> 0 \<le> mc_symbol m sy ex \<and> mc_symbol m sy ex \<le> mc_gross m \<and>
    fst (mc_pending_symbol_notional m now sy ex) \<le> fst (mc_pending_gross m now)"
    using i mc_symbol_le_gross[OF i] mc_symbol_le_gross[OF mc_inv_sweep[OF i]]
    by (simp add: Let_def mc_pending_symbol_notional_def mc_pending_gross_def flip: m_def)
qed

lemma pending_exposure_consistent_witness:
  "mc_inv (rk_margin (run_ops rk_step (rk_init sample_config None False None True)
     [ReducePending ''C1'' 5 100, ReleasePending (Some ''C1'')]))"
  using pending_exposure_consistent[of "[ReducePending ''C1'' 5 100, ReleasePending (Some ''C1'')]" sample_config None False None True]
  by (simp add: Let_def)

end
