(* ===== verification/Ledger.thy ===== *)
theory Ledger
  imports Fills
begin

text \<open>
  The durable execution ledger: the contracts of \<open>domain/execution_contracts.py\<close>, the port
  of \<open>domain/ports/execution_ledger.py\<close>, and \<open>SqliteExecutionLedger\<close> of
  \<open>infrastructure/persistence/sqlite_execution_ledger.py\<close>, whose tables are kept as rows
  in the order of their insertion.
\<close>

section \<open>Contracts\<close>

datatype submission_state = ACCEPTED | SUB_REJECTED | SUB_UNKNOWN

text \<open>
  The order book fills an intent from an order, whose price is a money object and whose
  quantity is a quantity object; other callers use plain decimals and integers.
\<close>

datatype price_obj = DecimalPrice rat | MoneyPrice rat

record 'q intent =
  in_intent_id :: string
  in_order_id :: string
  in_correlation_id :: string
  in_symbol :: string
  in_exchange :: string
  in_side :: order_side
  in_quantity :: 'q
  in_price :: price_obj
  in_order_type :: order_type
  in_product_type :: product_type
  in_created_at :: datetime

fun is_aware :: "datetime \<Rightarrow> bool" where
  "is_aware (Aware _) = True"
| "is_aware (Naive _) = False"

definition mk_intent :: "('q :: {linorder, zero}) intent \<Rightarrow> 'q intent res" where
  "mk_intent i =
     (if in_intent_id i = [] \<or> in_order_id i = [] \<or> in_correlation_id i = []
      then Inl (ValueError ''execution intent identifiers are required'')
      else if in_quantity i \<le> 0 then Inl (ValueError ''execution intent quantity must be positive'')
      else if \<not> is_aware (in_created_at i)
      then Inl (ValueError ''execution intent timestamp must be timezone-aware'')
      else Inr i)"

record outcome =
  so_intent_id :: string
  so_state :: submission_state
  so_broker_order_id :: string
  so_reason :: string
  so_observed_at :: "datetime option"

definition mk_outcome :: "outcome \<Rightarrow> outcome res" where
  "mk_outcome u =
     (if so_intent_id u = [] then Inl (ValueError ''submission outcome intent_id is required'')
      else if (\<exists>w \<in> set_option (so_observed_at u). \<not> is_aware w)
      then Inl (ValueError ''submission outcome timestamp must be timezone-aware'')
      else if so_state u = ACCEPTED \<and> so_broker_order_id u = []
      then Inl (ValueError ''accepted submission requires broker_order_id'')
      else Inr u)"

definition outcome_accepted :: "string \<Rightarrow> string \<Rightarrow> datetime \<Rightarrow> outcome res" where
  "outcome_accepted iid bid now = mk_outcome
     \<lparr>so_intent_id = iid, so_state = ACCEPTED, so_broker_order_id = bid, so_reason = [], so_observed_at = Some now\<rparr>"

definition outcome_rejected :: "string \<Rightarrow> string \<Rightarrow> datetime \<Rightarrow> outcome res" where
  "outcome_rejected iid reason now = mk_outcome
     \<lparr>so_intent_id = iid, so_state = SUB_REJECTED, so_broker_order_id = [], so_reason = reason, so_observed_at = Some now\<rparr>"

definition outcome_unknown :: "string \<Rightarrow> string \<Rightarrow> datetime \<Rightarrow> outcome res" where
  "outcome_unknown iid reason now = mk_outcome
     \<lparr>so_intent_id = iid, so_state = SUB_UNKNOWN, so_broker_order_id = [], so_reason = reason, so_observed_at = Some now\<rparr>"

section \<open>The SQLite ledger\<close>

text \<open>
  The price column holds the text of the price; the text of a money object carries its
  currency and does not parse as a decimal.
\<close>

fun parse_price :: "price_obj \<Rightarrow> rat res" where
  "parse_price (DecimalPrice q) = Inr q"
| "parse_price (MoneyPrice q) = Inl InvalidOperation"

text \<open>
  Binding a count as a statement parameter: the driver takes integers; it has no adapter for
  quantity objects and raises.
\<close>

definition sql_bind_int :: "int \<Rightarrow> int option" where
  "sql_bind_int n = Some n"

definition sql_bind_quantity :: "rat \<Rightarrow> int option" where
  "sql_bind_quantity q = None"

definition ProgrammingError :: exn where
  "ProgrammingError = External ''type Quantity is not supported''"

record sql_ledger =
  sl_intents :: "int intent list"
  sl_outcomes :: "(string, outcome) dict"
  sl_fills :: "int ledger_fill list"

definition sql_init :: sql_ledger where
  "sql_init = \<lparr>sl_intents = [], sl_outcomes = [], sl_fills = []\<rparr>"

definition sql_record_intent ::
  "('q \<Rightarrow> int option) \<Rightarrow> sql_ledger \<Rightarrow> 'q intent \<Rightarrow> exn option \<times> sql_ledger" where
  "sql_record_intent bind l i =
     (case find (\<lambda>r. in_intent_id r = in_intent_id i) (sl_intents l) of
        Some r \<Rightarrow>
          (if in_correlation_id r \<noteq> in_correlation_id i
           then (Some (ValueError (''intent_id collision: '' @ in_intent_id i)), l)
           else (None, l))
      | None \<Rightarrow>
          (case find (\<lambda>r. in_correlation_id r = in_correlation_id i) (sl_intents l) of
             Some r \<Rightarrow> (Some (ValueError (''correlation_id collision: '' @ in_correlation_id i)), l)
           | None \<Rightarrow>
               (case bind (in_quantity i) of
                  None \<Rightarrow> (Some ProgrammingError, l)
                | Some n \<Rightarrow>
                    (None, l\<lparr>sl_intents := sl_intents l @
                       [\<lparr>in_intent_id = in_intent_id i, in_order_id = in_order_id i,
                         in_correlation_id = in_correlation_id i, in_symbol = in_symbol i,
                         in_exchange = in_exchange i, in_side = in_side i, in_quantity = n,
                         in_price = in_price i, in_order_type = in_order_type i,
                         in_product_type = in_product_type i, in_created_at = in_created_at i\<rparr>]\<rparr>))))"

definition sql_record_outcome :: "sql_ledger \<Rightarrow> outcome \<Rightarrow> sql_ledger" where
  "sql_record_outcome l u = l\<lparr>sl_outcomes := dict_put (sl_outcomes l) (so_intent_id u) u\<rparr>"

definition sql_outcome_for :: "sql_ledger \<Rightarrow> string \<Rightarrow> outcome option res" where
  "sql_outcome_for l iid =
     (case dict_get (sl_outcomes l) iid of
        None \<Rightarrow> Inr None
      | Some u \<Rightarrow> (case mk_outcome u of Inl e \<Rightarrow> Inl e | Inr v \<Rightarrow> Inr (Some v)))"

definition sql_intent_for_correlation :: "sql_ledger \<Rightarrow> string \<Rightarrow> int intent option res" where
  "sql_intent_for_correlation l cid =
     (case find (\<lambda>r. in_correlation_id r = cid) (sl_intents l) of
        None \<Rightarrow> Inr None
      | Some r \<Rightarrow>
          (case parse_price (in_price r) of
             Inl e \<Rightarrow> Inl e
           | Inr p \<Rightarrow>
               (case mk_intent (r\<lparr>in_price := DecimalPrice p\<rparr>) of Inl e \<Rightarrow> Inl e | Inr i \<Rightarrow> Inr (Some i))))"

definition sql_order_id_for_correlation :: "sql_ledger \<Rightarrow> string \<Rightarrow> string option res" where
  "sql_order_id_for_correlation l cid =
     (case sql_intent_for_correlation l cid of
        Inl e \<Rightarrow> Inl e | Inr None \<Rightarrow> Inr None | Inr (Some i) \<Rightarrow> Inr (Some (in_order_id i)))"

definition sql_record_fill ::
  "('q \<Rightarrow> int option) \<Rightarrow> sql_ledger \<Rightarrow> 'q ledger_fill \<Rightarrow> exn option \<times> sql_ledger" where
  "sql_record_fill bind l f =
     (if (\<exists>r \<in> set (sl_fills l). lf_fill_id r = lf_fill_id f) then (None, l)
      else case (bind (lf_quantity f), bind (lf_cumulative_quantity f), bind (lf_order_quantity f)) of
             (Some q, Some c, Some oq) \<Rightarrow>
               (None, l\<lparr>sl_fills := sl_fills l @
                  [\<lparr>lf_fill_id = lf_fill_id f, lf_order_id = lf_order_id f, lf_symbol = lf_symbol f,
                    lf_exchange = lf_exchange f, lf_side = lf_side f, lf_quantity = q,
                    lf_cumulative_quantity = c, lf_order_quantity = oq, lf_price = lf_price f,
                    lf_event_time = lf_event_time f\<rparr>]\<rparr>)
           | _ \<Rightarrow> (Some ProgrammingError, l))"

definition sql_list_fills :: "sql_ledger \<Rightarrow> int ledger_fill list" where
  "sql_list_fills l = sort_key fill_sort_key (sl_fills l)"

section \<open>The port\<close>

text \<open>The ledger as the order book sees it: any state with these operations.\<close>

record 'l ledger_port =
  lg_record_intent :: "'l \<Rightarrow> rat intent \<Rightarrow> exn option \<times> 'l"
  lg_record_outcome :: "'l \<Rightarrow> outcome \<Rightarrow> exn option \<times> 'l"
  lg_outcome_for :: "'l \<Rightarrow> string \<Rightarrow> outcome option res"
  lg_intent_for_correlation :: "'l \<Rightarrow> string \<Rightarrow> rat intent option res"
  lg_record_fill :: "'l \<Rightarrow> rat ledger_fill \<Rightarrow> exn option \<times> 'l"

definition intent_objects :: "int intent \<Rightarrow> rat intent" where
  "intent_objects i =
     \<lparr>in_intent_id = in_intent_id i, in_order_id = in_order_id i, in_correlation_id = in_correlation_id i,
      in_symbol = in_symbol i, in_exchange = in_exchange i, in_side = in_side i,
      in_quantity = of_int (in_quantity i), in_price = in_price i, in_order_type = in_order_type i,
      in_product_type = in_product_type i, in_created_at = in_created_at i\<rparr>"

text \<open>The SQLite ledger behind the port, for a driver that binds quantity objects as given.\<close>

definition sql_port_with :: "(rat \<Rightarrow> int option) \<Rightarrow> sql_ledger ledger_port" where
  "sql_port_with bind =
     \<lparr>lg_record_intent = sql_record_intent bind,
      lg_record_outcome = (\<lambda>l u. (None, sql_record_outcome l u)),
      lg_outcome_for = sql_outcome_for,
      lg_intent_for_correlation =
        (\<lambda>l cid. case sql_intent_for_correlation l cid of
           Inl e \<Rightarrow> Inl e | Inr None \<Rightarrow> Inr None | Inr (Some i) \<Rightarrow> Inr (Some (intent_objects i))),
      lg_record_fill = sql_record_fill bind\<rparr>"

definition sql_port :: "sql_ledger ledger_port" where
  "sql_port = sql_port_with sql_bind_quantity"

section \<open>The contract of a ledger\<close>

text \<open>
  What the recovery of an order by its correlation id needs: an intent that was recorded is
  found again with its order id, and no later operation loses it. \<open>good\<close> singles out
  the intents whose columns read back.
\<close>

locale intent_ledger =
  fixes rec_intent :: "'l \<Rightarrow> 'i \<Rightarrow> exn option \<times> 'l"
    and other :: "'l \<Rightarrow> 'op \<Rightarrow> 'l"
    and lookup :: "'l \<Rightarrow> string \<Rightarrow> string option res"
    and corr :: "'i \<Rightarrow> string" and oid :: "'i \<Rightarrow> string"
    and good :: "'i \<Rightarrow> bool" and inv :: "'l \<Rightarrow> bool"
  assumes recorded: "inv l \<Longrightarrow> good i \<Longrightarrow> rec_intent l i = (None, l') \<Longrightarrow>
        lookup l (corr i) = Inr None \<Longrightarrow> lookup l' (corr i) = Inr (Some (oid i))"
    and kept: "inv l \<Longrightarrow> lookup l c = Inr (Some x) \<Longrightarrow> lookup (snd (rec_intent l i)) c = Inr (Some x)"
    and kept_other: "lookup (other l y) c = lookup l c"
    and inv_record: "inv l \<Longrightarrow> good i \<Longrightarrow> inv (snd (rec_intent l i))"
    and inv_other: "inv l \<Longrightarrow> inv (other l y)"
begin

fun led_step :: "'l \<Rightarrow> 'i + 'op \<Rightarrow> 'l" where
  "led_step l (Inl i) = snd (rec_intent l i)"
| "led_step l (Inr y) = other l y"

lemma lookup_stays:
  "inv l \<Longrightarrow> (\<And>i. Inl i \<in> set xs \<Longrightarrow> good i) \<Longrightarrow> lookup l c = Inr (Some x) \<Longrightarrow>
   lookup (run_ops led_step l xs) c = Inr (Some x)"
proof (induction xs arbitrary: l)
  case (Cons z zs)
  show ?case
  proof (cases z)
    case (Inl i)
    then show ?thesis using Cons.IH[of "snd (rec_intent l i)"] Cons.prems inv_record[of l i] kept[of l c x i] by simp
  next
    case (Inr y)
    then show ?thesis using Cons.IH[of "other l y"] Cons.prems by (simp add: kept_other inv_other)
  qed
qed simp

lemma recorded_for_good:
  "inv l \<Longrightarrow> good i \<Longrightarrow> rec_intent l i = (None, l') \<Longrightarrow> lookup l (corr i) = Inr None \<Longrightarrow>
   (\<And>j. Inl j \<in> set xs \<Longrightarrow> good j) \<Longrightarrow> lookup (run_ops led_step l' xs) (corr i) = Inr (Some (oid i))"
  using recorded[of l i l'] inv_record[of l i] by (intro lookup_stays) auto

end

section \<open>The SQLite ledger keeps the contract\<close>

definition good_intent :: "int intent \<Rightarrow> bool" where
  "good_intent i \<longleftrightarrow> (\<exists>q. in_price i = DecimalPrice q) \<and> mk_intent i = Inr i"

definition sql_inv :: "sql_ledger \<Rightarrow> bool" where
  "sql_inv l \<longleftrightarrow> (\<forall>r \<in> set (sl_intents l). good_intent r) \<and> distinct (map in_correlation_id (sl_intents l))"

datatype sql_write = WriteOutcome outcome | WriteFill "int ledger_fill"

fun sql_other :: "sql_ledger \<Rightarrow> sql_write \<Rightarrow> sql_ledger" where
  "sql_other l (WriteOutcome u) = sql_record_outcome l u"
| "sql_other l (WriteFill f) = snd (sql_record_fill sql_bind_int l f)"

lemma find_append: "find P (xs @ ys) = (case find P xs of None \<Rightarrow> find P ys | Some x \<Rightarrow> Some x)"
  by (induction xs) auto

lemma mk_intent_price: "mk_intent i = Inr i \<Longrightarrow> mk_intent (i\<lparr>in_price := p\<rparr>) = Inr (i\<lparr>in_price := p\<rparr>)"
  by (auto simp: mk_intent_def split: if_splits)

lemma sql_lookup_good:
  assumes "sql_inv l"
  shows "sql_order_id_for_correlation l c =
    Inr (map_option in_order_id (find (\<lambda>r. in_correlation_id r = c) (sl_intents l)))"
proof (cases "find (\<lambda>r. in_correlation_id r = c) (sl_intents l)")
  case None
  then show ?thesis by (simp add: sql_order_id_for_correlation_def sql_intent_for_correlation_def)
next
  case (Some r)
  then have g: "good_intent r" using assms by (auto simp: sql_inv_def find_Some_iff)
  then obtain q where "in_price r = DecimalPrice q" "mk_intent r = Inr r" by (auto simp: good_intent_def)
  then show ?thesis using Some mk_intent_price[of r]
    by (simp add: sql_order_id_for_correlation_def sql_intent_for_correlation_def)
qed

lemma sql_record_int:
  "sql_record_intent sql_bind_int l i = (None, l') \<Longrightarrow>
   find (\<lambda>r. in_correlation_id r = in_correlation_id i) (sl_intents l) = None \<Longrightarrow>
   l' = l\<lparr>sl_intents := sl_intents l @ [i]\<rparr>"
  by (auto simp: sql_record_intent_def sql_bind_int_def find_None_iff find_Some_iff split: option.splits if_splits)

lemma sql_record_intents:
  "sl_intents (snd (sql_record_intent sql_bind_int l i)) = sl_intents l \<or>
   (sl_intents (snd (sql_record_intent sql_bind_int l i)) = sl_intents l @ [i] \<and>
    in_correlation_id i \<notin> in_correlation_id ` set (sl_intents l))"
  by (auto simp: sql_record_intent_def sql_bind_int_def find_None_iff split: option.splits)

lemma sql_other_intents [simp]: "sl_intents (sql_other l y) = sl_intents l"
  by (cases y) (auto simp: sql_record_outcome_def sql_record_fill_def split: option.splits)

lemma sql_inv_append: "sql_inv l \<Longrightarrow> good_intent i \<Longrightarrow> sql_inv (snd (sql_record_intent sql_bind_int l i))"
  using sql_record_intents[of l i] by (auto simp: sql_inv_def)

lemma sql_lookup_other: "sql_order_id_for_correlation (sql_other l y) c = sql_order_id_for_correlation l c"
  by (simp add: sql_order_id_for_correlation_def sql_intent_for_correlation_def)

lemma sql_lookup_kept:
  assumes "sql_inv l" "sql_order_id_for_correlation l c = Inr (Some x)"
  shows "sql_order_id_for_correlation (snd (sql_record_intent sql_bind_int l i)) c = Inr (Some x)"
proof -
  obtain r where r: "find (\<lambda>r. in_correlation_id r = c) (sl_intents l) = Some r"
    using assms(2) by (auto simp: sql_lookup_good[OF assms(1)])
  have "find (\<lambda>r. in_correlation_id r = c) (sl_intents (snd (sql_record_intent sql_bind_int l i))) = Some r"
    using sql_record_intents[of l i] by (auto simp: find_append r)
  then have "sql_intent_for_correlation (snd (sql_record_intent sql_bind_int l i)) c = sql_intent_for_correlation l c"
    by (simp add: sql_intent_for_correlation_def r)
  then show ?thesis using assms(2) by (simp add: sql_order_id_for_correlation_def)
qed

interpretation sqlite: intent_ledger "sql_record_intent sql_bind_int" sql_other sql_order_id_for_correlation
  in_correlation_id in_order_id good_intent sql_inv
proof unfold_locales
  fix l i l' assume a: "sql_inv l" "good_intent i" "sql_record_intent sql_bind_int l i = (None, l')"
    "sql_order_id_for_correlation l (in_correlation_id i) = Inr None"
  then have n: "find (\<lambda>r. in_correlation_id r = in_correlation_id i) (sl_intents l) = None"
    by (simp add: sql_lookup_good)
  have l': "l' = l\<lparr>sl_intents := sl_intents l @ [i]\<rparr>" by (rule sql_record_int[OF a(3) n])
  have "sql_inv l'" using sql_inv_append[OF a(1,2)] a(3) by simp
  then show "sql_order_id_for_correlation l' (in_correlation_id i) = Inr (Some (in_order_id i))"
    by (simp only: sql_lookup_good) (simp add: l' find_append n)
qed (simp_all add: sql_lookup_kept sql_lookup_other sql_inv_append, simp add: sql_inv_def)

section \<open>Properties\<close>

text \<open>
  An intent with a plain integer quantity and a decimal price that the SQLite ledger
  records under a fresh correlation id is found by that id for ever, with its order id,
  whatever intents, outcomes and fills are written later; a second intent under the same
  correlation id is refused.
\<close>

theorem sqlite_keeps_intents:
  "sql_inv l \<and> good_intent i \<and> sql_record_intent sql_bind_int l i = (None, l') \<and>
   sql_order_id_for_correlation l (in_correlation_id i) = Inr None \<and> (\<forall>j. Inl j \<in> set xs \<longrightarrow> good_intent j) \<longrightarrow>
   (let l'' = run_ops sqlite.led_step l' xs in
    sql_order_id_for_correlation l'' (in_correlation_id i) = Inr (Some (in_order_id i)) \<and>
    (in_intent_id j \<noteq> in_intent_id i \<and> in_correlation_id j = in_correlation_id i \<longrightarrow>
       (\<exists>e. sql_record_intent sql_bind_int l'' j = (Some e, l''))))"
proof (intro impI)
  assume a: "sql_inv l \<and> good_intent i \<and> sql_record_intent sql_bind_int l i = (None, l') \<and>
    sql_order_id_for_correlation l (in_correlation_id i) = Inr None \<and> (\<forall>j. Inl j \<in> set xs \<longrightarrow> good_intent j)"
  define l'' where "l'' = run_ops sqlite.led_step l' xs"
  have n: "find (\<lambda>r. in_correlation_id r = in_correlation_id i) (sl_intents l) = None"
    using a sql_lookup_good[of l "in_correlation_id i"] by auto
  have l': "l' = l\<lparr>sl_intents := sl_intents l @ [i]\<rparr>" using a sql_record_int[OF _ n] by blast
  have pre: "\<exists>ys. sl_intents (run_ops sqlite.led_step s zs) = sl_intents s @ ys" for s zs
  proof (induction zs arbitrary: s)
    case (Cons z zs)
    have "\<exists>ys. sl_intents (sqlite.led_step s z) = sl_intents s @ ys"
    proof (cases z)
      case (Inl j) then show ?thesis using sql_record_intents[of s j] by auto
    qed simp
    then show ?case using Cons.IH[of "sqlite.led_step s z"] by auto
  qed simp
  have f: "find (\<lambda>r. in_correlation_id r = in_correlation_id i) (sl_intents l'') = Some i"
    using pre[of l' xs] by (auto simp: l''_def l' find_append n)
  have inv': "sql_inv l'" using a sql_inv_append[of l i] by simp
  have inv: "sql_inv l''"
  proof -
    have "sql_inv (run_ops sqlite.led_step s zs)" if "sql_inv s" "\<forall>j. Inl j \<in> set zs \<longrightarrow> good_intent j" for s zs
      using that
    proof (induction zs arbitrary: s)
      case (Cons z zs)
      then have "sql_inv (sqlite.led_step s z)"
        by (cases z) (auto intro: sql_inv_append sqlite.inv_other)
      then show ?case using Cons by simp
    qed simp
    then show ?thesis unfolding l''_def using inv' a by blast
  qed
  have 1: "sql_order_id_for_correlation l'' (in_correlation_id i) = Inr (Some (in_order_id i))"
    unfolding l''_def using a by (intro sqlite.recorded_for_good) auto
  have 2: "\<exists>e. sql_record_intent sql_bind_int l'' j = (Some e, l'')"
    if "in_intent_id j \<noteq> in_intent_id i" "in_correlation_id j = in_correlation_id i"
  proof (cases "find (\<lambda>r. in_intent_id r = in_intent_id j) (sl_intents l'')")
    case (Some r)
    have "in_correlation_id r \<noteq> in_correlation_id j"
    proof
      assume c: "in_correlation_id r = in_correlation_id j"
      have "r \<in> set (sl_intents l'')" "in_intent_id r = in_intent_id j" "i \<in> set (sl_intents l'')"
        using Some f by (auto simp: find_Some_iff)
      then have "r = i" using inv c that(2) by (auto simp: sql_inv_def distinct_map inj_on_def)
      then show False using that(1) \<open>in_intent_id r = in_intent_id j\<close> by simp
    qed
    then show ?thesis by (simp add: sql_record_intent_def Some)
  qed (simp add: sql_record_intent_def that f)
  show "let l'' = run_ops sqlite.led_step l' xs in
    sql_order_id_for_correlation l'' (in_correlation_id i) = Inr (Some (in_order_id i)) \<and>
    (in_intent_id j \<noteq> in_intent_id i \<and> in_correlation_id j = in_correlation_id i \<longrightarrow>
       (\<exists>e. sql_record_intent sql_bind_int l'' j = (Some e, l'')))"
    using 1 2 by (simp add: l''_def[symmetric])
qed

lemma sqlite_keeps_intents_witness:
  "let i = \<lparr>in_intent_id = ''I1'', in_order_id = ''O1'', in_correlation_id = ''c1'', in_symbol = ''INFY'',
        in_exchange = ''NSE'', in_side = BUY, in_quantity = 10, in_price = DecimalPrice 2500, in_order_type = LIMIT,
        in_product_type = INTRADAY, in_created_at = Aware 0\<rparr>;
       l'' = run_ops sqlite.led_step (snd (sql_record_intent sql_bind_int sql_init i)) [] in
   sql_order_id_for_correlation l'' ''c1'' = Inr (Some ''O1'') \<and>
   (\<exists>e. sql_record_intent sql_bind_int l'' (i\<lparr>in_intent_id := ''I2''\<rparr>) = (Some e, l''))"
proof -
  define i :: "int intent" where "i = \<lparr>in_intent_id = ''I1'', in_order_id = ''O1'', in_correlation_id = ''c1'', in_symbol = ''INFY'',
        in_exchange = ''NSE'', in_side = BUY, in_quantity = 10, in_price = DecimalPrice 2500, in_order_type = LIMIT,
        in_product_type = INTRADAY, in_created_at = Aware 0\<rparr>"
  have "sql_inv sql_init \<and> good_intent i \<and>
      sql_record_intent sql_bind_int sql_init i = (None, snd (sql_record_intent sql_bind_int sql_init i)) \<and>
      sql_order_id_for_correlation sql_init (in_correlation_id i) = Inr None"
    by (simp add: sql_inv_def sql_init_def good_intent_def mk_intent_def i_def sql_record_intent_def sql_bind_int_def
        sql_order_id_for_correlation_def sql_intent_for_correlation_def)
  then show ?thesis
    using sqlite_keeps_intents[of sql_init i "snd (sql_record_intent sql_bind_int sql_init i)" "[]" "i\<lparr>in_intent_id := ''I2''\<rparr>"]
    by (simp add: Let_def i_def)
qed

text \<open>
  The SQLite ledger cannot hold what the order book writes. The driver refuses the
  quantity object of an intent or a fill, so over any run of such writes a ledger that was
  empty holds no intent and no fill, and each of these writes raises. With a driver that
  does bind quantity objects, the intent is stored, but its price, the text of a money
  object, cannot be read back, so a lookup by correlation id raises.
\<close>

theorem ledger_refuses_order_objects:
  "(let l = run_ops (\<lambda>l w. case w of Inl i \<Rightarrow> snd (lg_record_intent sql_port l i)
                             | Inr f \<Rightarrow> snd (lg_record_fill sql_port l f)) sql_init ws in
    l = sql_init \<and>
    fst (lg_record_intent sql_port l i) = Some ProgrammingError \<and>
    fst (lg_record_fill sql_port l f) = Some ProgrammingError) \<and>
   (let l = snd (lg_record_intent (sql_port_with bind) sql_init (i\<lparr>in_price := MoneyPrice p\<rparr>)) in
    bind (in_quantity i) = Some n \<longrightarrow>
    fst (lg_record_intent (sql_port_with bind) sql_init (i\<lparr>in_price := MoneyPrice p\<rparr>)) = None \<and>
    lg_intent_for_correlation (sql_port_with bind) l (in_correlation_id i) = Inl InvalidOperation)"
proof -
  have w: "lg_record_intent sql_port sql_init i = (Some ProgrammingError, sql_init)"
      "lg_record_fill sql_port sql_init f = (Some ProgrammingError, sql_init)" for i f
    by (simp_all add: sql_port_def sql_port_with_def sql_init_def sql_record_intent_def sql_record_fill_def sql_bind_quantity_def)
  have "run_ops (\<lambda>l w. case w of Inl i \<Rightarrow> snd (lg_record_intent sql_port l i)
      | Inr f \<Rightarrow> snd (lg_record_fill sql_port l f)) sql_init ws = sql_init"
    by (induction ws) (auto simp: w split: sum.splits)
  moreover have "bind (in_quantity i) = Some n \<longrightarrow>
    fst (lg_record_intent (sql_port_with bind) sql_init (i\<lparr>in_price := MoneyPrice p\<rparr>)) = None \<and>
    lg_intent_for_correlation (sql_port_with bind)
      (snd (lg_record_intent (sql_port_with bind) sql_init (i\<lparr>in_price := MoneyPrice p\<rparr>))) (in_correlation_id i) = Inl InvalidOperation"
    by (simp add: sql_port_with_def sql_init_def sql_record_intent_def sql_intent_for_correlation_def)
  ultimately show ?thesis by (simp add: Let_def w)
qed

lemma ledger_refuses_order_objects_witness:
  "let i = \<lparr>in_intent_id = ''I1'', in_order_id = ''O1'', in_correlation_id = ''c1'', in_symbol = ''INFY'',
        in_exchange = ''NSE'', in_side = BUY, in_quantity = 10, in_price = MoneyPrice 2500, in_order_type = LIMIT,
        in_product_type = INTRADAY, in_created_at = Aware 0\<rparr>;
       bind = (\<lambda>q. Some (trunc_int q)) in
   lg_intent_for_correlation (sql_port_with bind) (snd (lg_record_intent (sql_port_with bind) sql_init i)) ''c1''
     = Inl InvalidOperation"
  using ledger_refuses_order_objects[of "[]" "\<lparr>in_intent_id = ''I1'', in_order_id = ''O1'', in_correlation_id = ''c1'',
      in_symbol = ''INFY'', in_exchange = ''NSE'', in_side = BUY, in_quantity = 10, in_price = MoneyPrice 0,
      in_order_type = LIMIT, in_product_type = INTRADAY, in_created_at = Aware 0\<rparr>" undefined
      "\<lambda>q. Some (trunc_int q)" 2500 10]
  by (simp add: Let_def)

end
