(* ===== verification/Processed_Trades.thy ===== *)
theory Processed_Trades
  imports Fills
begin

text \<open>
  The idempotency ledger of trades: \<open>TradeIdKey\<close> of \<open>domain/events/trade_id.py\<close> and
  \<open>ProcessedTradeRepository\<close> of \<open>infrastructure/event_bus/processed_trade_repository.py\<close>
  with its hot and durable sets, age eviction, and the append-only file that a restart
  reads back.
\<close>

section \<open>Keys\<close>

record trade_key =
  k_trade_id :: string
  k_broker_trade_id :: "string option"
  k_order_id :: "string option"

definition mk_trade_key :: "string \<Rightarrow> string option \<Rightarrow> string option \<Rightarrow> trade_key res" where
  "mk_trade_key tid btid oid =
     (if tid = [] then Inl (ValueError ''TradeIdKey requires a non-empty trade_id'')
      else Inr \<lparr>k_trade_id = py_strip tid, k_broker_trade_id = map_option py_strip btid,
                k_order_id = map_option py_strip oid\<rparr>)"

text \<open>A domain trade has no broker or exchange trade id.\<close>

definition key_from_trade :: "trade \<Rightarrow> trade_key res" where
  "key_from_trade t = mk_trade_key (t_trade_id t) None (if t_order_id t = [] then None else Some (t_order_id t))"

section \<open>The file\<close>

text \<open>
  A line of the file holds the three fields of a key, is empty, or does not parse. A write
  that breaks off leaves a line without its end, and the next write continues that line.
\<close>

datatype disk_line = KeyLine string "string option" "string option" | BlankLine | BadLine | TornLine

datatype write_outcome = Written | WriteFailed exn | WriteTorn exn

definition key_to_line :: "trade_key \<Rightarrow> disk_line" where
  "key_to_line k = KeyLine (k_trade_id k) (k_broker_trade_id k) (k_order_id k)"

definition disk_append :: "disk_line list \<Rightarrow> disk_line \<Rightarrow> disk_line list" where
  "disk_append d l =
     (if d \<noteq> [] \<and> last d = TornLine then butlast d @ [if l = TornLine then TornLine else BadLine]
      else d @ [l])"

fun line_key :: "disk_line \<Rightarrow> trade_key option" where
  "line_key (KeyLine tid btid oid) = (case mk_trade_key tid btid oid of Inl _ \<Rightarrow> None | Inr k \<Rightarrow> Some k)"
| "line_key _ = None"

section \<open>The repository\<close>

record trade_repo =
  rp_seen :: "trade_key list"
  rp_durable :: "trade_key list"
  rp_stamps :: "(trade_key, rat) dict"
  rp_max_age :: int
  rp_disk :: "disk_line list option"
  rp_duplicates :: nat
  rp_total :: nat
  rp_evicted :: nat

definition repo_load :: "trade_repo \<Rightarrow> trade_repo" where
  "repo_load r =
     (case rp_disk r of
        None \<Rightarrow> r
      | Some d \<Rightarrow>
          let ks = List.map_filter line_key d in
          r\<lparr>rp_seen := fold List.insert ks (rp_seen r), rp_durable := fold List.insert ks (rp_durable r),
            rp_total := length ks\<rparr>)"

definition repo_init :: "disk_line list option \<Rightarrow> int \<Rightarrow> trade_repo" where
  "repo_init disk max_age = repo_load
     \<lparr>rp_seen = [], rp_durable = [], rp_stamps = [], rp_max_age = max_age, rp_disk = disk,
      rp_duplicates = 0, rp_total = 0, rp_evicted = 0\<rparr>"

definition repo_is_processed :: "trade_repo \<Rightarrow> trade_key \<Rightarrow> bool" where
  "repo_is_processed r k \<longleftrightarrow> k \<in> set (rp_seen r) \<or> k \<in> set (rp_durable r)"

definition repo_append_to_disk :: "trade_repo \<Rightarrow> trade_key \<Rightarrow> write_outcome \<Rightarrow> bool res \<times> trade_repo" where
  "repo_append_to_disk r k w =
     (case rp_disk r of
        None \<Rightarrow> (Inr True, r)
      | Some d \<Rightarrow>
          (case w of
             Written \<Rightarrow> (Inr True, r\<lparr>rp_disk := Some (disk_append d (key_to_line k))\<rparr>)
           | WriteFailed e \<Rightarrow> (Inl e, r)
           | WriteTorn e \<Rightarrow> (Inl e, r\<lparr>rp_disk := Some (disk_append d TornLine)\<rparr>)))"

text \<open>The key enters both sets before its line is written.\<close>

definition repo_mark_processed ::
  "trade_repo \<Rightarrow> trade_key \<Rightarrow> rat \<Rightarrow> write_outcome \<Rightarrow> bool res \<times> trade_repo" where
  "repo_mark_processed r k now w =
     (if k_trade_id k = []
      then (Inl (ValueError ''ProcessedTradeRepository.mark_processed requires a non-empty trade_id''), r)
      else if k \<in> set (rp_seen r) \<or> k \<in> set (rp_durable r)
      then (Inr False, r\<lparr>rp_duplicates := rp_duplicates r + 1\<rparr>)
      else repo_append_to_disk
             (r\<lparr>rp_seen := List.insert k (rp_seen r), rp_durable := List.insert k (rp_durable r),
                rp_stamps := dict_put (rp_stamps r) k now, rp_total := rp_total r + 1\<rparr>) k w)"

definition repo_clear :: "trade_repo \<Rightarrow> trade_repo" where
  "repo_clear r = r\<lparr>rp_seen := [], rp_durable := [], rp_stamps := [], rp_duplicates := 0, rp_total := 0\<rparr>"

definition repo_expired :: "trade_repo \<Rightarrow> rat \<Rightarrow> trade_key list" where
  "repo_expired r now = map fst (filter (\<lambda>(k, ts). ts < flt_sub now (of_int (rp_max_age r))) (rp_stamps r))"

definition repo_cleanup :: "trade_repo \<Rightarrow> rat \<Rightarrow> int \<times> trade_repo" where
  "repo_cleanup r now =
     (if rp_max_age r \<le> 0 then (0, r)
      else
        let ex = repo_expired r now in
        (int (length ex),
         r\<lparr>rp_seen := filter (\<lambda>k. k \<notin> set ex) (rp_seen r),
           rp_stamps := fold (\<lambda>k d. dict_pop d k) ex (rp_stamps r),
           rp_evicted := rp_evicted r + length ex\<rparr>))"

text \<open>A restart keeps the file and the configured age, and nothing else.\<close>

definition repo_restart :: "trade_repo \<Rightarrow> trade_repo" where
  "repo_restart r = repo_init (rp_disk r) (rp_max_age r)"

datatype repo_op = Mark trade_key rat write_outcome | Cleanup rat

fun repo_step :: "trade_repo \<Rightarrow> repo_op \<Rightarrow> trade_repo" where
  "repo_step r (Mark k now w) = snd (repo_mark_processed r k now w)"
| "repo_step r (Cleanup now) = snd (repo_cleanup r now)"

section \<open>Facts\<close>

lemma py_strip_nonempty_key: "mk_trade_key a b c = Inr k \<Longrightarrow> mk_trade_key (k_trade_id k) (k_broker_trade_id k) (k_order_id k) = Inr k \<or> k_trade_id k = []"
  by (auto simp: mk_trade_key_def option.map_comp comp_def split: if_splits)

text \<open>The keys the code builds: stripped fields.\<close>

definition key_wf :: "trade_key \<Rightarrow> bool" where
  "key_wf k \<longleftrightarrow> k_trade_id k \<noteq> [] \<and> mk_trade_key (k_trade_id k) (k_broker_trade_id k) (k_order_id k) = Inr k"

lemma key_line_back [simp]: "key_wf k \<Longrightarrow> line_key (key_to_line k) = Some k"
  by (simp add: key_wf_def key_to_line_def)

lemma key_from_trade_wf:
  "\<not> is_blank (t_trade_id t) \<Longrightarrow> \<exists>k. key_from_trade t = Inr k \<and> key_wf k \<and> k_trade_id k = py_strip (t_trade_id t)"
  by (auto simp: key_from_trade_def mk_trade_key_def key_wf_def is_blank_def)

lemma set_fold_insert [simp]: "set (fold List.insert ks xs) = set ks \<union> set xs"
  by (induction ks arbitrary: xs) auto

lemma map_filter_set: "set (List.map_filter f xs) = {y. \<exists>x \<in> set xs. f x = Some y}"
  by (induction xs) (auto simp: List.map_filter_simps split: option.splits)

lemma ex_list: "(\<exists>ys. P ys) \<longleftrightarrow> P [] \<or> (\<exists>y ys. P (y # ys))"
  by (metis list.exhaust)

lemma repo_load_processed:
  "repo_is_processed (repo_load r) k \<longleftrightarrow>
   repo_is_processed r k \<or> (\<exists>d. rp_disk r = Some d \<and> (\<exists>l \<in> set d. line_key l = Some k))"
  by (auto simp: repo_load_def repo_is_processed_def Let_def map_filter_set split: option.splits)

lemma repo_restart_processed:
  "repo_is_processed (repo_restart r) k \<longleftrightarrow> (\<exists>d. rp_disk r = Some d \<and> (\<exists>l \<in> set d. line_key l = Some k))"
  by (simp add: repo_restart_def repo_init_def repo_load_processed) (simp add: repo_is_processed_def)

text \<open>The repository after a key is marked, whatever happens to the file.\<close>

lemma repo_mark_processed_iff:
  "repo_is_processed (snd (repo_mark_processed r k now w)) k' \<longleftrightarrow>
   repo_is_processed r k' \<or> (k_trade_id k \<noteq> [] \<and> k' = k)"
  by (auto simp: repo_mark_processed_def repo_append_to_disk_def repo_is_processed_def
      split: option.splits write_outcome.splits)

lemma repo_mark_fresh:
  "fst (repo_mark_processed r k now w) = Inr True \<Longrightarrow> \<not> repo_is_processed r k"
  by (auto simp: repo_mark_processed_def repo_is_processed_def split: if_splits)

lemma repo_cleanup_keeps: "rp_durable (snd (repo_cleanup r now)) = rp_durable r"
  by (simp add: repo_cleanup_def Let_def)

definition repo_inv :: "trade_repo \<Rightarrow> bool" where
  "repo_inv r \<longleftrightarrow> set (rp_seen r) \<subseteq> set (rp_durable r)"

lemma repo_inv_init [simp]: "repo_inv (repo_init d a)"
  by (simp add: repo_init_def repo_load_def repo_inv_def Let_def split: option.splits)

lemma repo_inv_step [inv_intros]: "repo_inv r \<Longrightarrow> repo_inv (repo_step r x)"
  by (cases x)
     (auto simp: repo_mark_processed_def repo_append_to_disk_def repo_cleanup_def repo_inv_def Let_def
       split: option.splits write_outcome.splits)

interpretation repo_system: invariant_system repo_step repo_inv
  by unfold_locales (rule repo_inv_step)

lemma repo_step_processed:
  "repo_inv r \<Longrightarrow> repo_is_processed (repo_step r x) k \<longleftrightarrow>
   repo_is_processed r k \<or> (\<exists>now w. x = Mark k now w \<and> k_trade_id k \<noteq> [])"
proof (cases x)
  case (Cleanup now)
  assume "repo_inv r"
  then show ?thesis using Cleanup
    by (auto simp: repo_is_processed_def repo_inv_def repo_cleanup_def Let_def)
qed (auto simp: repo_mark_processed_iff)

lemma repo_run_processed:
  "repo_inv r \<Longrightarrow> repo_is_processed (run_ops repo_step r xs) k \<longleftrightarrow>
   repo_is_processed r k \<or> (k_trade_id k \<noteq> [] \<and> (\<exists>now w. Mark k now w \<in> set xs))"
proof (induction xs arbitrary: r)
  case (Cons x xs)
  show ?case using Cons.IH[OF repo_inv_step[OF Cons.prems, of x]] repo_step_processed[OF Cons.prems, of x k]
    by auto
qed simp

text \<open>A file that every write ended properly holds exactly the keys whose write succeeded.\<close>

fun untorn_op :: "repo_op \<Rightarrow> bool" where
  "untorn_op (Mark k now w) \<longleftrightarrow> key_wf k \<and> (\<forall>e. w \<noteq> WriteTorn e)"
| "untorn_op (Cleanup now) \<longleftrightarrow> True"

definition disk_keys :: "trade_repo \<Rightarrow> trade_key set" where
  "disk_keys r = {k. \<exists>d. rp_disk r = Some d \<and> (\<exists>l \<in> set d. line_key l = Some k)}"

definition disk_ok :: "trade_repo \<Rightarrow> bool" where
  "disk_ok r \<longleftrightarrow> (\<exists>d. rp_disk r = Some d \<and> TornLine \<notin> set d) \<and> disk_keys r \<subseteq> set (rp_durable r)"

lemma key_to_line_whole [simp]: "key_to_line k \<noteq> TornLine" "TornLine \<noteq> key_to_line k"
  by (simp_all add: key_to_line_def)

lemma disk_append_whole: "TornLine \<notin> set d \<Longrightarrow> disk_append d l = d @ [l]"
  by (auto simp: disk_append_def dest: last_in_set)

lemma disk_step:
  assumes "repo_inv r" "disk_ok r" "untorn_op x"
  shows "disk_ok (repo_step r x) \<and>
    disk_keys (repo_step r x) = disk_keys r \<union> {k. \<exists>now. x = Mark k now Written \<and> \<not> repo_is_processed r k}"
proof (cases x)
  case (Mark k now w)
  have k: "key_wf k" "k_trade_id k \<noteq> []" using assms(3) by (auto simp: Mark key_wf_def)
  obtain d where d: "rp_disk r = Some d" "TornLine \<notin> set d" using assms(2) by (auto simp: disk_ok_def)
  have keys: "disk_keys r = {k. \<exists>l \<in> set d. line_key l = Some k}" "disk_keys r \<subseteq> set (rp_durable r)"
    using assms(2) by (auto simp: disk_keys_def disk_ok_def d)
  have p: "repo_is_processed r k \<longleftrightarrow> k \<in> set (rp_seen r) \<or> k \<in> set (rp_durable r)"
    by (simp add: repo_is_processed_def)
  show ?thesis
  proof (cases "repo_is_processed r k")
    case True
    then show ?thesis using k d keys
      by (auto simp: Mark repo_mark_processed_def p disk_ok_def disk_keys_def)
  next
    case False
    show ?thesis
    proof (cases w)
      case Written
      then show ?thesis using False k d keys
        by (auto simp: Mark repo_mark_processed_def repo_append_to_disk_def p disk_ok_def disk_keys_def disk_append_whole)
    next
      case (WriteFailed e)
      then show ?thesis using False k d keys
        by (auto simp: Mark repo_mark_processed_def repo_append_to_disk_def p disk_ok_def disk_keys_def)
    qed (use assms(3) in \<open>simp add: Mark\<close>)
  qed
next
  case (Cleanup now)
  then show ?thesis using assms(2) by (auto simp: repo_cleanup_def disk_ok_def disk_keys_def Let_def)
qed

section \<open>Properties\<close>

text \<open>
  C30: a key that was marked once is processed for ever: no cleanup at any time makes the
  repository forget it, a mark answers true only for a key it has not seen, and a second
  mark of a key answers false, also where the file write of the first one failed.
\<close>

theorem processed_never_forgotten:
  "repo_inv r \<and> k_trade_id k \<noteq> [] \<longrightarrow>
   (fst (repo_mark_processed r k now w) = Inr True \<longrightarrow> \<not> repo_is_processed r k) \<and>
   (let r' = run_ops repo_step (repo_step r (Mark k now w)) xs in
    repo_is_processed r' k \<and> fst (repo_mark_processed r' k now' w') = Inr False)"
proof (intro impI conjI)
  assume a: "repo_inv r \<and> k_trade_id k \<noteq> []"
  then have i: "repo_inv (repo_step r (Mark k now w))" by (blast intro: repo_inv_step)
  have "repo_is_processed (run_ops repo_step (repo_step r (Mark k now w)) xs) k"
    using a by (simp only: repo_run_processed[OF i]) (simp add: repo_mark_processed_iff)
  then show "let r' = run_ops repo_step (repo_step r (Mark k now w)) xs in
      repo_is_processed r' k \<and> fst (repo_mark_processed r' k now' w') = Inr False"
    using a unfolding Let_def by (simp add: repo_mark_processed_def repo_is_processed_def[symmetric] del: repo_step.simps)
qed (auto dest: repo_mark_fresh)

lemma processed_never_forgotten_witness:
  "let k = \<lparr>k_trade_id = ''T1'', k_broker_trade_id = None, k_order_id = Some ''O1''\<rparr>;
       r' = run_ops repo_step (repo_step (repo_init (Some []) 60) (Mark k 0 Written)) [Cleanup 1000] in
   repo_is_processed r' k \<and> fst (repo_mark_processed r' k 1001 Written) = Inr False"
  using processed_never_forgotten[of "repo_init (Some []) 60"
      "\<lparr>k_trade_id = ''T1'', k_broker_trade_id = None, k_order_id = Some ''O1''\<rparr>" 0 Written "[Cleanup 1000]" 1001 Written]
  by (simp add: Let_def)

text \<open>
  Where no write broke off in the middle, a restart knows exactly the keys it knew
  before the run and those first marked with a write that succeeded: a key whose write
  failed is open again after the restart. A write that breaks off also takes the next key
  with it, whose own write succeeded.
\<close>

theorem restart_keeps_written_keys:
  "(repo_inv r \<and> disk_ok r \<and> (\<forall>x \<in> set xs. untorn_op x) \<longrightarrow>
      (repo_is_processed (repo_restart (run_ops repo_step r xs)) k \<longleftrightarrow>
       k \<in> disk_keys r \<or>
       (\<exists>ys zs now. xs = ys @ Mark k now Written # zs \<and> \<not> repo_is_processed (run_ops repo_step r ys) k))) \<and>
   (let a = \<lparr>k_trade_id = ''A'', k_broker_trade_id = None, k_order_id = None\<rparr>;
        b = \<lparr>k_trade_id = ''B'', k_broker_trade_id = None, k_order_id = None\<rparr>;
        r0 = repo_step (repo_init (Some []) 0) (Mark a 1 (WriteTorn (External ''disk full''))) in
    fst (repo_mark_processed r0 b 2 Written) = Inr True \<and>
    \<not> repo_is_processed (repo_restart (repo_step r0 (Mark b 2 Written))) b)"
proof (rule conjI)
  have iff: "repo_is_processed (repo_restart s) k \<longleftrightarrow> k \<in> disk_keys s" for s
    by (simp add: repo_restart_processed disk_keys_def)
  show "repo_inv r \<and> disk_ok r \<and> (\<forall>x \<in> set xs. untorn_op x) \<longrightarrow>
      (repo_is_processed (repo_restart (run_ops repo_step r xs)) k \<longleftrightarrow>
       k \<in> disk_keys r \<or>
       (\<exists>ys zs now. xs = ys @ Mark k now Written # zs \<and> \<not> repo_is_processed (run_ops repo_step r ys) k))"
    unfolding iff
  proof (induction xs arbitrary: r)
    case (Cons x xs)
    show ?case
    proof
      assume a: "repo_inv r \<and> disk_ok r \<and> (\<forall>y \<in> set (x # xs). untorn_op y)"
      then have s: "disk_ok (repo_step r x)"
          "disk_keys (repo_step r x) = disk_keys r \<union> {k. \<exists>now. x = Mark k now Written \<and> \<not> repo_is_processed r k}"
        using disk_step[of r x] by simp_all
      have split: "(\<exists>ys zs now. x # xs = ys @ Mark k now Written # zs \<and> \<not> repo_is_processed (run_ops repo_step r ys) k) \<longleftrightarrow>
          (\<exists>now. x = Mark k now Written \<and> \<not> repo_is_processed r k) \<or>
          (\<exists>ys zs now. xs = ys @ Mark k now Written # zs \<and> \<not> repo_is_processed (run_ops repo_step (repo_step r x) ys) k)"
        by (subst ex_list) auto
      have "k \<in> disk_keys (run_ops repo_step (repo_step r x) xs) \<longleftrightarrow>
          k \<in> disk_keys (repo_step r x) \<or>
          (\<exists>ys zs now. xs = ys @ Mark k now Written # zs \<and> \<not> repo_is_processed (run_ops repo_step (repo_step r x) ys) k)"
        using Cons.IH[of "repo_step r x"] a s(1) by (simp add: repo_inv_step)
      then show "k \<in> disk_keys (run_ops repo_step r (x # xs)) \<longleftrightarrow>
          k \<in> disk_keys r \<or>
          (\<exists>ys zs now. x # xs = ys @ Mark k now Written # zs \<and> \<not> repo_is_processed (run_ops repo_step r ys) k)"
        unfolding split s(2) by auto
    qed
  qed simp
qed code_simp

lemma restart_keeps_written_keys_witness:
  "let a = \<lparr>k_trade_id = ''A'', k_broker_trade_id = None, k_order_id = None\<rparr> in
   repo_is_processed (repo_restart (run_ops repo_step (repo_init (Some []) 0) [Mark a 1 Written])) a"
proof -
  define a :: trade_key where "a = \<lparr>k_trade_id = ''A'', k_broker_trade_id = None, k_order_id = None\<rparr>"
  have n: "\<not> repo_is_processed (repo_init (Some []) 0) a" "disk_ok (repo_init (Some []) 0)" "untorn_op (Mark a 1 Written)"
    unfolding a_def by (simp_all add: repo_is_processed_def repo_init_def repo_load_def disk_ok_def disk_keys_def
        List.map_filter_simps key_wf_def mk_trade_key_def py_strip_def is_space_def)
  have "\<exists>ys zs now. [Mark a 1 Written] = ys @ Mark a now Written # zs \<and>
      \<not> repo_is_processed (run_ops repo_step (repo_init (Some []) 0) ys) a"
    by (rule exI[of _ "[]"]) (use n(1) in simp)
  then have "repo_is_processed (repo_restart (run_ops repo_step (repo_init (Some []) 0) [Mark a 1 Written])) a"
    using restart_keeps_written_keys[of "repo_init (Some []) 0" "[Mark a 1 Written]" a] n(2,3) by simp
  then show ?thesis by (simp add: Let_def a_def)
qed

end
