(* ===== verification/Trade_Recorder.thy ===== *)
theory Trade_Recorder
  imports Risk_Manager Ledger Processed_Trades
begin

text \<open>
  The state of the order management core and the recording of trades:
  \<open>TradeRecorder\<close> of \<open>application/oms/trade_recorder.py\<close> and \<open>OrderPositionUpdater\<close> of
  \<open>application/oms/_internal/order_position_updater.py\<close>. Loggers, the audit logger and
  the metric counters of the recorder only observe and are left out.
\<close>

section \<open>The state of the order management core\<close>

text \<open>\<open>OmsOrderCommand\<close>.\<close>

record command =
  cm_symbol :: string
  cm_exchange :: string
  cm_side :: order_side
  cm_quantity :: int
  cm_price :: rat
  cm_order_type :: order_type
  cm_product_type :: product_type
  cm_correlation_id :: string

datatype oms_event =
    OrderPlaced order
  | OrderUpdated order "string option"
  | OrderCancelled order
  | OrderRejected order risk_reason
  | RiskApproved string
  | RiskRejected string risk_reason
  | TradeApplied trade

text \<open>
  The fields of \<open>OrderManager\<close> and of the collaborators it owns: both indexes of the order
  book, the recorder's buffer, counters and reducer, the repository of processed trades,
  the execution ledger, the state validator, the reservations of the idempotency guard
  (with their expiry), the order store, the risk manager, the gauge of active orders, whether
  a placement gate is set, the events published and the commands handed to a broker so far.
\<close>

record 'l oms =
  om_orders :: "(string, order) dict"
  om_by_corr :: "(string, order) dict"
  om_buffer :: "(string, trade list) dict"
  om_trades_processed :: nat
  om_trades_duplicated :: nat
  om_reducer :: "rat fill_reducer"
  om_repo :: "trade_repo option"
  om_ledger :: 'l
  om_validator :: order_state_validator
  om_reserved :: "(string, rat) dict"
  om_store :: "(string, order) dict option"
  om_risk :: "risk_manager option"
  om_active :: "int option"
  om_placed :: nat
  om_gated :: bool
  om_broker :: "command list"
  om_events :: "oms_event list"

text \<open>
  What a call meets outside: the ledger port if one is wired, clock readings, the outcome of
  a write to the repository's file and to the order store, whether an event bus is there,
  the \<open>is_terminal\<close> attribute of an order status, what the risk manager asks for, the
  process configuration, whether the validator's cache has dropped an entry, and the answer
  of the placement gate.
\<close>

record 'l oms_env =
  ev_port :: "'l ledger_port option"
  ev_now :: datetime
  ev_time :: rat
  ev_write :: write_outcome
  ev_store_ok :: bool
  ev_bus :: bool
  ev_is_terminal :: status_attr
  ev_risk :: risk_env
  ev_production :: bool
  ev_ledger_authority :: bool
  ev_evicted :: bool
  ev_gate :: "bool \<times> string option"

definition publish :: "'l oms_env \<Rightarrow> oms_event \<Rightarrow> 'l oms \<Rightarrow> 'l oms" where
  "publish env e s = (if ev_bus env then s\<lparr>om_events := om_events s @ [e]\<rparr> else s)"

definition truthy :: "string option \<Rightarrow> string option" where
  "truthy c = (case c of None \<Rightarrow> None | Some s \<Rightarrow> if s = [] then None else Some s)"

text \<open>Both book indexes; the second only for an order with a correlation id.\<close>

definition store_order :: "order \<Rightarrow> 'l oms \<Rightarrow> 'l oms" where
  "store_order ord s =
     s\<lparr>om_orders := dict_put (om_orders s) (o_order_id ord) ord,
       om_by_corr := (case truthy (o_correlation_id ord) of
         None \<Rightarrow> om_by_corr s | Some c \<Rightarrow> dict_put (om_by_corr s) c ord)\<rparr>"

section \<open>Applying a fill to an order\<close>

definition order_fill_avg_price :: "order \<Rightarrow> trade \<Rightarrow> rat" where
  "order_fill_avg_price ord t =
     (if t_quantity t = 0 then o_avg_price ord
      else if o_filled_quantity ord = 0 then t_price t
      else
        let total_value = dec_add (dec_mul (o_avg_price ord) (o_filled_quantity ord)) (dec_mul (t_price t) (t_quantity t));
            total_qty = dec_add (o_filled_quantity ord) (t_quantity t)
        in if total_qty \<noteq> 0 then dec_div total_value total_qty else 0)"

definition derive_status :: "order \<Rightarrow> rat \<Rightarrow> order_status" where
  "derive_status ord new_filled = (if o_quantity ord \<le> new_filled then FILLED else PARTIALLY_FILLED)"

definition apply_trade :: "order \<Rightarrow> trade \<Rightarrow> order res" where
  "apply_trade ord t =
     (let new_filled = dec_add (o_filled_quantity ord) (t_quantity t) in
      order_with_status (order_with_fill ord new_filled (order_fill_avg_price ord t)) (derive_status ord new_filled))"

section \<open>Recording\<close>

definition pending_max :: nat where
  "pending_max = 32"

definition buffer_trade :: "trade \<Rightarrow> 'l oms \<Rightarrow> 'l oms" where
  "buffer_trade t s =
     (let buf = dict_get_or (om_buffer s) (t_order_id t) [] in
      s\<lparr>om_buffer := dict_put (om_buffer s) (t_order_id t) (if length buf < pending_max then buf @ [t] else buf)\<rparr>)"

text \<open>A naive trade time is read as UTC; a missing one is replaced by the clock.\<close>

definition fill_event_time :: "'l oms_env \<Rightarrow> trade \<Rightarrow> datetime" where
  "fill_event_time env t =
     (case t_timestamp t of Some (Naive n) \<Rightarrow> Aware n | Some (Aware n) \<Rightarrow> Aware n | None \<Rightarrow> ev_now env)"

definition persist_fill_to_ledger ::
  "'l oms_env \<Rightarrow> rat fill_event \<Rightarrow> order \<Rightarrow> trade \<Rightarrow> 'l oms \<Rightarrow> exn option \<times> 'l oms" where
  "persist_fill_to_ledger env f ord t s =
     (case ev_port env of
        None \<Rightarrow> (None, s)
      | Some port \<Rightarrow>
          (case mk_ledger_fill
             \<lparr>lf_fill_id = t_trade_id t, lf_order_id = t_order_id t, lf_symbol = t_symbol t,
              lf_exchange = t_exchange t, lf_side = t_side t, lf_quantity = t_quantity t,
              lf_cumulative_quantity = f_cumulative_quantity f, lf_order_quantity = o_quantity ord,
              lf_price = t_price t, lf_event_time = 0\<rparr> (fill_event_time env t) of
             Inl e \<Rightarrow> (Some e, s)
           | Inr r \<Rightarrow> (let (e, l) = lg_record_fill port (om_ledger s) r in (e, s\<lparr>om_ledger := l\<rparr>))))"

definition publish_applied :: "'l oms_env \<Rightarrow> order \<Rightarrow> trade \<Rightarrow> 'l oms \<Rightarrow> 'l oms" where
  "publish_applied env ord t s = publish env (TradeApplied t) (publish env (OrderUpdated ord None) s)"

definition mark_trade :: "'l oms_env \<Rightarrow> trade_key \<Rightarrow> 'l oms \<Rightarrow> bool res \<times> 'l oms" where
  "mark_trade env k s =
     (case om_repo s of
        None \<Rightarrow> (Inr True, s)
      | Some r \<Rightarrow> (let (res, r') = repo_mark_processed r k (ev_time env) (ev_write env) in (res, s\<lparr>om_repo := Some r'\<rparr>)))"

definition commit_fill :: "rat fill_event \<Rightarrow> 'l oms \<Rightarrow> 'l oms" where
  "commit_fill f s = s\<lparr>om_reducer := fr_commit (om_reducer s) f\<rparr>"

text \<open>The order is known and the trade is not: validate, persist, apply, publish, mark, commit.\<close>

definition record_known :: "'l oms_env \<Rightarrow> trade_key \<Rightarrow> order \<Rightarrow> trade \<Rightarrow> 'l oms \<Rightarrow> bool res \<times> 'l oms" where
  "record_known env k ord t s =
     (case fill_from_trade dec_add (t_trade_id t) (t_order_id t) (t_quantity t) (o_filled_quantity ord) (t_price t) of
        Inl e \<Rightarrow> (Inl e, s)
      | Inr fill \<Rightarrow>
          (case fr_validate (om_reducer s) fill (o_quantity ord) (o_filled_quantity ord) of
             Some _ \<Rightarrow> (Inr False, s)
           | None \<Rightarrow>
               (case persist_fill_to_ledger env fill ord t s of
                  (Some e, s1) \<Rightarrow> (Inl e, s1)
                | (None, s1) \<Rightarrow>
                    (case apply_trade ord t of
                       Inl e \<Rightarrow> (Inl e, s1)
                     | Inr updated \<Rightarrow>
                         (let s2 = publish_applied env updated t
                                ((store_order updated s1)\<lparr>om_trades_processed := Suc (om_trades_processed s1)\<rparr>)
                          in case mark_trade env k s2 of
                               (Inl e, s3) \<Rightarrow> (Inl e, s3)
                             | (Inr False, s3) \<Rightarrow> (Inr True, s3)
                             | (Inr True, s3) \<Rightarrow> (Inr True, commit_fill fill s3))))))"

definition repo_knows :: "'l oms \<Rightarrow> trade_key \<Rightarrow> bool" where
  "repo_knows s k = (case om_repo s of None \<Rightarrow> False | Some r \<Rightarrow> repo_is_processed r k)"

definition recorder_record_trade :: "'l oms_env \<Rightarrow> trade \<Rightarrow> 'l oms \<Rightarrow> bool res \<times> 'l oms" where
  "recorder_record_trade env t s =
     (if is_blank (t_trade_id t)
      then (Inl (ValueError ''OrderManager.record_trade requires a non-empty trade.trade_id''), s)
      else case key_from_trade t of
             Inl e \<Rightarrow> (Inl e, s)
           | Inr k \<Rightarrow>
               if repo_knows s k
               then (Inr False, s\<lparr>om_trades_duplicated := Suc (om_trades_duplicated s)\<rparr>)
               else (case dict_get (om_orders s) (t_order_id t) of
                       None \<Rightarrow> (Inr False, buffer_trade t s)
                     | Some ord \<Rightarrow> record_known env k ord t s))"

section \<open>Flushing the buffer\<close>

text \<open>One buffered trade; the reducer commits the fill before the order takes it.\<close>

definition flush_known ::
  "'l oms_env \<Rightarrow> trade_key option \<Rightarrow> order \<Rightarrow> trade \<Rightarrow> 'l oms \<Rightarrow> exn option \<times> 'l oms" where
  "flush_known env ko ord t s =
     (case fill_from_trade dec_add (t_trade_id t) (t_order_id t) (t_quantity t) (o_filled_quantity ord) (t_price t) of
        Inl e \<Rightarrow> (Some e, s)
      | Inr fill \<Rightarrow>
          (case fr_apply (om_reducer s) fill (o_quantity ord) (o_filled_quantity ord) of
             (Some _, r) \<Rightarrow> (None, s\<lparr>om_reducer := r\<rparr>)
           | (None, r) \<Rightarrow>
               (case persist_fill_to_ledger env fill ord t (s\<lparr>om_reducer := r\<rparr>) of
                  (Some e, s1) \<Rightarrow> (Some e, s1)
                | (None, s1) \<Rightarrow>
                    (case apply_trade ord t of
                       Inl e \<Rightarrow> (Some e, s1)
                     | Inr updated \<Rightarrow>
                         (let s2 = publish_applied env updated t
                                ((store_order updated s1)\<lparr>om_trades_processed := Suc (om_trades_processed s1)\<rparr>);
                              (m, s3) = (case ko of None \<Rightarrow> (Inr True, s2) | Some k \<Rightarrow> mark_trade env k s2)
                          in case m of
                               Inl e \<Rightarrow> (Some e, s3)
                             | Inr _ \<Rightarrow> (None, s3\<lparr>om_reducer := (om_reducer s3)
                                  \<lparr>fr_seen := List.insert (f_fill_id fill) (fr_seen (om_reducer s3))\<rparr>\<rparr>))))))"

definition flush_one :: "'l oms_env \<Rightarrow> trade \<Rightarrow> 'l oms \<Rightarrow> exn option \<times> 'l oms" where
  "flush_one env t s =
     (case (case om_repo s of None \<Rightarrow> Inr None
            | Some r \<Rightarrow> (case key_from_trade t of Inl e \<Rightarrow> Inl e | Inr k \<Rightarrow> Inr (Some k))) of
        Inl e \<Rightarrow> (Some e, s)
      | Inr ko \<Rightarrow>
          (if (\<exists>k \<in> set_option ko. repo_knows s k) then (None, s)
           else case dict_get (om_orders s) (t_order_id t) of
                  None \<Rightarrow> (None, s)
                | Some ord \<Rightarrow> flush_known env ko ord t s))"

text \<open>An exception ends the loop; the trades after it are gone with the buffer.\<close>

fun flush_all :: "'l oms_env \<Rightarrow> trade list \<Rightarrow> 'l oms \<Rightarrow> exn option \<times> 'l oms" where
  "flush_all env [] s = (None, s)"
| "flush_all env (t # ts) s =
     (case flush_one env t s of
        (Some e, s') \<Rightarrow> (Some e, s')
      | (None, s') \<Rightarrow> flush_all env ts s')"

definition flush_pending_trades :: "'l oms_env \<Rightarrow> string \<Rightarrow> 'l oms \<Rightarrow> exn option \<times> 'l oms" where
  "flush_pending_trades env oid s =
     (case dict_get (om_buffer s) oid of
        None \<Rightarrow> (None, s)
      | Some ts \<Rightarrow> flush_all env ts (s\<lparr>om_buffer := dict_pop (om_buffer s) oid\<rparr>))"

section \<open>Facts about recording\<close>

definition applied_events :: "'l oms \<Rightarrow> trade list" where
  "applied_events s = List.map_filter (\<lambda>e. case e of TradeApplied t \<Rightarrow> Some t | _ \<Rightarrow> None) (om_events s)"

definition book_keyed :: "'l oms \<Rightarrow> bool" where
  "book_keyed s \<longleftrightarrow> (\<forall>oid ord. dict_get (om_orders s) oid = Some ord \<longrightarrow> o_order_id ord = oid)"

lemma map_filter_append [simp]: "List.map_filter f (xs @ ys) = List.map_filter f xs @ List.map_filter f ys"
  by (induction xs) (auto simp: List.map_filter_simps split: option.split)

lemma publish_frame [simp]:
  "om_orders (publish env e s) = om_orders s" "om_by_corr (publish env e s) = om_by_corr s"
  "om_repo (publish env e s) = om_repo s" "om_reducer (publish env e s) = om_reducer s"
  "om_trades_processed (publish env e s) = om_trades_processed s"
  "om_trades_duplicated (publish env e s) = om_trades_duplicated s"
  "om_buffer (publish env e s) = om_buffer s" "om_ledger (publish env e s) = om_ledger s"
  "om_validator (publish env e s) = om_validator s" "om_reserved (publish env e s) = om_reserved s"
  "om_store (publish env e s) = om_store s" "om_risk (publish env e s) = om_risk s"
  "om_active (publish env e s) = om_active s" "om_placed (publish env e s) = om_placed s"
  "om_gated (publish env e s) = om_gated s" "om_broker (publish env e s) = om_broker s"
  by (simp_all add: publish_def)

lemma publish_applied_frame [simp]:
  "om_orders (publish_applied env u t s) = om_orders s" "om_by_corr (publish_applied env u t s) = om_by_corr s"
  "om_repo (publish_applied env u t s) = om_repo s" "om_reducer (publish_applied env u t s) = om_reducer s"
  "om_trades_processed (publish_applied env u t s) = om_trades_processed s"
  "om_trades_duplicated (publish_applied env u t s) = om_trades_duplicated s"
  "om_buffer (publish_applied env u t s) = om_buffer s"
  "ev_bus env \<Longrightarrow> applied_events (publish_applied env u t s) = applied_events s @ [t]"
  by (simp_all add: publish_applied_def) (simp add: applied_events_def publish_def List.map_filter_simps)

lemma store_order_frame [simp]:
  "om_orders (store_order ord s) = dict_put (om_orders s) (o_order_id ord) ord"
  "om_repo (store_order ord s) = om_repo s" "om_reducer (store_order ord s) = om_reducer s"
  "om_trades_processed (store_order ord s) = om_trades_processed s"
  "om_trades_duplicated (store_order ord s) = om_trades_duplicated s"
  "om_events (store_order ord s) = om_events s" "om_buffer (store_order ord s) = om_buffer s"
  "om_ledger (store_order ord s) = om_ledger s"
  by (simp_all add: store_order_def)

lemma applied_events_cong: "om_events s = om_events s' \<Longrightarrow> applied_events s = applied_events s'"
  by (simp add: applied_events_def)

lemma persist_frame:
  "persist_fill_to_ledger env f ord t s = (e, s1) \<Longrightarrow> \<exists>l. s1 = s\<lparr>om_ledger := l\<rparr>"
  by (auto simp: persist_fill_to_ledger_def split: option.splits sum.splits prod.splits intro: exI[of _ "om_ledger s"])

lemma mark_trade_cases:
  assumes "mark_trade env k s = (res, s')"
  shows "\<exists>ro. s' = s\<lparr>om_repo := ro\<rparr>" and "om_repo s \<noteq> None \<Longrightarrow> om_repo s' \<noteq> None"
    and "om_repo s \<noteq> None \<Longrightarrow> repo_knows s' k' \<longleftrightarrow> repo_knows s k' \<or> (k_trade_id k \<noteq> [] \<and> k' = k)"
proof -
  show "\<exists>ro. s' = s\<lparr>om_repo := ro\<rparr>"
    using assms by (auto simp: mark_trade_def split: option.splits prod.splits intro: exI[of _ None])
  show "om_repo s \<noteq> None \<Longrightarrow> om_repo s' \<noteq> None"
    using assms by (auto simp: mark_trade_def split: prod.splits)
  show "om_repo s \<noteq> None \<Longrightarrow> repo_knows s' k' \<longleftrightarrow> repo_knows s k' \<or> (k_trade_id k \<noteq> [] \<and> k' = k)"
    using assms repo_mark_processed_iff[of "the (om_repo s)" k "ev_time env" "ev_write env" k']
    by (auto simp: mark_trade_def repo_knows_def split: prod.splits)
qed

lemma apply_trade_fields:
  "apply_trade ord t = Inr u \<Longrightarrow>
     o_order_id u = o_order_id ord \<and> o_quantity u = o_quantity ord \<and>
     o_filled_quantity u = dec_add (o_filled_quantity ord) (t_quantity t) \<and>
     o_status u = derive_status ord (o_filled_quantity u) \<and> o_correlation_id u = o_correlation_id ord"
  by (auto simp: apply_trade_def order_with_status_def order_with_fill_def Let_def split: if_splits)

lemma fill_from_trade_fields:
  "fill_from_trade add tid oid q prior p = Inr f \<Longrightarrow>
     f_fill_id f = tid \<and> f_order_id f = oid \<and> f_quantity f = q \<and> f_cumulative_quantity f = add prior q \<and>
     0 \<le> q \<and> 0 \<le> add prior q"
  by (auto simp: fill_from_trade_def mk_fill_event_def split: if_splits)

text \<open>The two ways a recorded trade of a known order can go.\<close>

lemma record_known_cases:
  obtains (rejected) res l where "record_known env k ord t s = (res, s\<lparr>om_ledger := l\<rparr>)" "res \<noteq> Inr True"
  | (applied) u l s2 res s3 where
      "apply_trade ord t = Inr u"
      "dec_add (o_filled_quantity ord) (t_quantity t) \<le> o_quantity ord"
      "s2 = publish_applied env u t ((store_order u (s\<lparr>om_ledger := l\<rparr>))\<lparr>om_trades_processed := Suc (om_trades_processed s)\<rparr>)"
      "mark_trade env k s2 = (res, s3)"
      "\<exists>r. snd (record_known env k ord t s) = s3\<lparr>om_reducer := r\<rparr>"
proof -
  consider (e) e where "fill_from_trade dec_add (t_trade_id t) (t_order_id t) (t_quantity t) (o_filled_quantity ord) (t_price t) = Inl e"
    | (f) f where "fill_from_trade dec_add (t_trade_id t) (t_order_id t) (t_quantity t) (o_filled_quantity ord) (t_price t) = Inr f"
    by (meson sumE)
  then show thesis
  proof cases
    case e
    then show thesis by (intro rejected[of "Inl e" "om_ledger s"]) (simp_all add: record_known_def)
  next
    case f
    note fi = fill_from_trade_fields[OF f]
    show thesis
    proof (cases "fr_validate (om_reducer s) f (o_quantity ord) (o_filled_quantity ord)")
      case (Some x)
      then show thesis using f by (intro rejected[of "Inr False" "om_ledger s"]) (simp_all add: record_known_def)
    next
      case None
      then have le: "dec_add (o_filled_quantity ord) (t_quantity t) \<le> o_quantity ord"
        using fi by (auto simp: fr_validate_def Let_def split: if_splits)
      obtain ex s1 where p: "persist_fill_to_ledger env f ord t s = (ex, s1)" by fastforce
      obtain l where l: "s1 = s\<lparr>om_ledger := l\<rparr>" using persist_frame[OF p] by blast
      show thesis
      proof (cases ex)
        case (Some e)
        then show thesis using f None p l by (intro rejected[of "Inl e" l]) (simp_all add: record_known_def)
      next
        case n: None
        show thesis
        proof (cases "apply_trade ord t")
          case (Inl e)
          then show thesis using f None p n l by (intro rejected[of "Inl e" l]) (simp_all add: record_known_def)
        next
          case (Inr u)
          obtain res s3 where m: "mark_trade env k (publish_applied env u t
              ((store_order u (s\<lparr>om_ledger := l\<rparr>))\<lparr>om_trades_processed := Suc (om_trades_processed s)\<rparr>)) = (res, s3)"
            by fastforce
          have "\<exists>r. snd (record_known env k ord t s) = s3\<lparr>om_reducer := r\<rparr>"
            using f None p n l Inr m
            by (auto simp: record_known_def commit_fill_def Let_def split: sum.split bool.split intro: exI[of _ "om_reducer s3"])
          then show thesis by (rule applied[OF Inr le refl m])
        qed
      qed
    qed
  qed
qed

fun rt_step :: "'l oms \<Rightarrow> 'l oms_env \<times> trade \<Rightarrow> 'l oms" where
  "rt_step s (env, t) = snd (recorder_record_trade env t s)"

fun rt_applies :: "'l oms \<Rightarrow> 'l oms_env \<times> trade \<Rightarrow> bool" where
  "rt_applies s (env, t) \<longleftrightarrow> om_trades_processed (snd (recorder_record_trade env t s)) \<noteq> om_trades_processed s"

fun applied_trades :: "'l oms \<Rightarrow> ('l oms_env \<times> trade) list \<Rightarrow> trade list" where
  "applied_trades s [] = []"
| "applied_trades s (x # xs) = (if rt_applies s x then [snd x] else []) @ applied_trades (rt_step s x) xs"

declare rt_step.simps [simp del] rt_applies.simps [simp del]

text \<open>A trade that is not applied leaves the book and the repository as they are.\<close>

lemma rt_step_skip:
  assumes "\<not> rt_applies s (env, t)"
  shows "om_orders (rt_step s (env, t)) = om_orders s" "om_by_corr (rt_step s (env, t)) = om_by_corr s"
    "om_repo (rt_step s (env, t)) = om_repo s" "om_events (rt_step s (env, t)) = om_events s"
proof -
  have "om_orders (rt_step s (env, t)) = om_orders s \<and> om_by_corr (rt_step s (env, t)) = om_by_corr s \<and>
      om_repo (rt_step s (env, t)) = om_repo s \<and> om_events (rt_step s (env, t)) = om_events s"
  proof (cases "is_blank (t_trade_id t) \<or> (\<exists>e. key_from_trade t = Inl e)")
    case True
    then show ?thesis by (auto simp: rt_step.simps recorder_record_trade_def)
  next
    case False
    then obtain k where k: "\<not> is_blank (t_trade_id t)" "key_from_trade t = Inr k" by (metis sumE)
    show ?thesis
    proof (cases "repo_knows s k \<or> dict_get (om_orders s) (t_order_id t) = None")
      case True
      then show ?thesis using k by (auto simp: rt_step.simps recorder_record_trade_def buffer_trade_def Let_def)
    next
      case F: False
      then obtain ord where o: "\<not> repo_knows s k" "dict_get (om_orders s) (t_order_id t) = Some ord" by auto
      have r: "recorder_record_trade env t s = record_known env k ord t s"
        using k o by (simp add: recorder_record_trade_def)
      show ?thesis
      proof (rule record_known_cases[of env k ord t s])
        fix res l assume "record_known env k ord t s = (res, s\<lparr>om_ledger := l\<rparr>)"
        then show ?thesis by (simp add: rt_step.simps r)
      next
        fix u l s2 res s3
        assume a: "s2 = publish_applied env u t ((store_order u (s\<lparr>om_ledger := l\<rparr>))\<lparr>om_trades_processed := Suc (om_trades_processed s)\<rparr>)"
          "mark_trade env k s2 = (res, s3)" "\<exists>r. snd (record_known env k ord t s) = s3\<lparr>om_reducer := r\<rparr>"
        obtain ro where "s3 = s2\<lparr>om_repo := ro\<rparr>" using mark_trade_cases(1)[OF a(2)] by blast
        then have "rt_applies s (env, t)" using a(1,3) by (auto simp: rt_applies.simps r)
        then show ?thesis using assms by simp
      qed
    qed
  qed
  then show "om_orders (rt_step s (env, t)) = om_orders s" "om_by_corr (rt_step s (env, t)) = om_by_corr s"
    "om_repo (rt_step s (env, t)) = om_repo s" "om_events (rt_step s (env, t)) = om_events s" by simp_all
qed

text \<open>What an applied trade does.\<close>

lemma rt_step_applied:
  assumes "rt_applies s (env, t)" "om_repo s \<noteq> None"
  obtains k ord u where "key_from_trade t = Inr k" "\<not> repo_knows s k"
    "dict_get (om_orders s) (t_order_id t) = Some ord" "apply_trade ord t = Inr u"
    "o_filled_quantity u \<le> o_quantity ord"
    "om_orders (rt_step s (env, t)) = dict_put (om_orders s) (o_order_id ord) u"
    "om_repo (rt_step s (env, t)) \<noteq> None"
    "\<And>k'. repo_knows (rt_step s (env, t)) k' \<longleftrightarrow> repo_knows s k' \<or> k' = k"
    "ev_bus env \<Longrightarrow> applied_events (rt_step s (env, t)) = applied_events s @ [t]"
proof -
  have nb: "\<not> is_blank (t_trade_id t)"
    using assms(1) by (auto simp: rt_applies.simps recorder_record_trade_def)
  then obtain k where k: "key_from_trade t = Inr k" "key_wf k" using key_from_trade_wf by blast
  have nk: "\<not> repo_knows s k" using assms(1) nb k by (auto simp: rt_applies.simps recorder_record_trade_def)
  obtain ord where o: "dict_get (om_orders s) (t_order_id t) = Some ord"
    using assms(1) nb k nk
    by (auto simp: rt_applies.simps recorder_record_trade_def buffer_trade_def Let_def split: option.splits)
  have r: "recorder_record_trade env t s = record_known env k ord t s"
    using nb k nk o by (simp add: recorder_record_trade_def)
  show thesis
  proof (rule record_known_cases[of env k ord t s])
    fix res l assume "record_known env k ord t s = (res, s\<lparr>om_ledger := l\<rparr>)"
    then show thesis using assms(1) by (simp add: rt_applies.simps r)
  next
    fix u l s2 res s3
    assume a: "apply_trade ord t = Inr u" "dec_add (o_filled_quantity ord) (t_quantity t) \<le> o_quantity ord"
      "s2 = publish_applied env u t ((store_order u (s\<lparr>om_ledger := l\<rparr>))\<lparr>om_trades_processed := Suc (om_trades_processed s)\<rparr>)"
      "mark_trade env k s2 = (res, s3)" "\<exists>r. snd (record_known env k ord t s) = s3\<lparr>om_reducer := r\<rparr>"
    obtain r3 where r3: "snd (record_known env k ord t s) = s3\<lparr>om_reducer := r3\<rparr>" using a(5) by blast
    obtain ro where ro: "s3 = s2\<lparr>om_repo := ro\<rparr>" using mark_trade_cases(1)[OF a(4)] by blast
    have s2: "om_repo s2 = om_repo s" by (simp add: a(3))
    note u = apply_trade_fields[OF a(1)]
    note m = mark_trade_cases(2,3)[OF a(4), unfolded s2, OF assms(2)]
    have kn: "repo_knows (s3\<lparr>om_reducer := r3\<rparr>) k' = repo_knows s3 k'" "repo_knows s2 k' = repo_knows s k'" for k'
      by (simp_all add: repo_knows_def s2)
    have ids: "k_trade_id k \<noteq> []" using k(2) by (simp add: key_wf_def)
    have ev: "applied_events (s3\<lparr>om_reducer := r3\<rparr>) = applied_events s2"
      by (rule applied_events_cong) (simp add: ro)
    have ev2: "applied_events ((store_order u (s\<lparr>om_ledger := l\<rparr>))\<lparr>om_trades_processed := n\<rparr>) = applied_events s" for n
      by (rule applied_events_cong) simp
    have e: "rt_step s (env, t) = s3\<lparr>om_reducer := r3\<rparr>" by (simp add: rt_step.simps r r3)
    show thesis
      by (rule that[OF k(1) nk o a(1)]) (use u a(2) m ids in \<open>simp_all add: e kn ev\<close>, simp_all add: ro a(3) ev2)
  qed
qed

lemma book_keyed_step: "book_keyed s \<Longrightarrow> om_repo s \<noteq> None \<Longrightarrow> book_keyed (rt_step s (env, t)) \<and> om_repo (rt_step s (env, t)) \<noteq> None"
proof (cases "rt_applies s (env, t)")
  case True
  assume b: "book_keyed s" "om_repo s \<noteq> None"
  from True b(2) show ?thesis
    by (rule rt_step_applied) (use b(1) in \<open>auto simp: book_keyed_def dest!: apply_trade_fields\<close>)
qed (auto simp: book_keyed_def rt_step_skip)

text \<open>What a run leaves of an order.\<close>

definition order_after :: "order \<Rightarrow> trade list \<Rightarrow> order \<Rightarrow> bool" where
  "order_after ord ts ord' \<longleftrightarrow>
     o_filled_quantity ord' = foldl dec_add (o_filled_quantity ord) (map t_quantity ts) \<and>
     o_quantity ord' = o_quantity ord \<and>
     (ts = [] \<longrightarrow> ord' = ord) \<and>
     (ts \<noteq> [] \<longrightarrow> o_filled_quantity ord' \<le> o_quantity ord \<and>
        o_status ord' = (if o_filled_quantity ord' = o_quantity ord then FILLED else PARTIALLY_FILLED))"

lemma order_after_refl [simp]: "order_after ord [] ord' \<longleftrightarrow> ord' = ord"
  by (auto simp: order_after_def)

lemma order_after_step:
  assumes "apply_trade ord t = Inr u" "o_filled_quantity u \<le> o_quantity ord" "order_after u ts ord'"
  shows "order_after ord (t # ts) ord'"
proof -
  note u = apply_trade_fields[OF assms(1)]
  show ?thesis
    using assms(2,3) u by (cases "ts = []") (auto simp: order_after_def derive_status_def)
qed

lemma applied_run:
  assumes "book_keyed s" "om_repo s \<noteq> None"
  shows "distinct (map key_from_trade (applied_trades s xs)) \<and>
     (\<forall>t \<in> set (applied_trades s xs). \<forall>k. key_from_trade t = Inr k \<longrightarrow> \<not> repo_knows s k) \<and>
     (\<forall>t \<in> set (applied_trades s xs). is_ok (key_from_trade t)) \<and>
     (\<forall>oid ord. dict_get (om_orders s) oid = Some ord \<longrightarrow>
        (\<exists>ord'. dict_get (om_orders (run_ops rt_step s xs)) oid = Some ord' \<and>
          order_after ord (filter (\<lambda>t. t_order_id t = oid) (applied_trades s xs)) ord')) \<and>
     ((\<forall>(env, t) \<in> set xs. ev_bus env) \<longrightarrow>
        applied_events (run_ops rt_step s xs) = applied_events s @ applied_trades s xs)"
  using assms
proof (induction xs arbitrary: s)
  case (Cons x xs)
  obtain env t where x: "x = (env, t)" by (cases x)
  let ?s = "rt_step s x" and ?ap = "applied_trades (rt_step s x) xs"
  have i: "book_keyed ?s" "om_repo ?s \<noteq> None" using book_keyed_step[OF Cons.prems] by (simp_all add: x)
  note ih = Cons.IH[OF i]
  show ?case
  proof (cases "rt_applies s x")
    case False
    have "repo_knows ?s k = repo_knows s k" for k using rt_step_skip(3)[of s env t] False by (simp add: x repo_knows_def)
    moreover have "om_orders ?s = om_orders s" "applied_events ?s = applied_events s"
      using rt_step_skip(1,4)[of s env t] False by (simp_all add: x applied_events_def)
    ultimately show ?thesis using ih False by simp
  next
    case True
    obtain k ord u where k: "key_from_trade t = Inr k" "\<not> repo_knows s k"
      and o: "dict_get (om_orders s) (t_order_id t) = Some ord" "apply_trade ord t = Inr u"
        "o_filled_quantity u \<le> o_quantity ord" "om_orders ?s = dict_put (om_orders s) (o_order_id ord) u"
      and kn: "\<And>k'. repo_knows ?s k' \<longleftrightarrow> repo_knows s k' \<or> k' = k"
      and ev: "ev_bus env \<Longrightarrow> applied_events ?s = applied_events s @ [t]"
      by (rule rt_step_applied[OF True[unfolded x] Cons.prems(2)]) (rule that, simp_all add: x)
    have id: "o_order_id ord = t_order_id t" using Cons.prems(1) o(1) by (simp add: book_keyed_def)
    have ap: "applied_trades s (x # xs) = t # ?ap" using True by (simp add: x)
    have fresh: "key_from_trade t \<notin> key_from_trade ` set ?ap"
      using ih k(1) kn by (metis imageE)
    have ords: "\<exists>ord'. dict_get (om_orders (run_ops rt_step s (x # xs))) oid = Some ord' \<and>
          order_after ord0 (filter (\<lambda>t. t_order_id t = oid) (applied_trades s (x # xs))) ord'"
      if a: "dict_get (om_orders s) oid = Some ord0" for oid ord0
    proof (cases "oid = t_order_id t")
      case True
      then have "dict_get (om_orders ?s) oid = Some u" by (simp add: o(4) id)
      then obtain ord' where "dict_get (om_orders (run_ops rt_step ?s xs)) oid = Some ord'"
          "order_after u (filter (\<lambda>t. t_order_id t = oid) ?ap) ord'" using ih by blast
      then show ?thesis using order_after_step[OF o(2,3)] a o(1) True ap by auto
    next
      case False
      then have "dict_get (om_orders ?s) oid = Some ord0" by (simp add: o(4) id a)
      then show ?thesis using ih False ap by auto
    qed
    have 1: "distinct (map key_from_trade (t # ?ap))" using ih fresh by simp
    have 2: "\<forall>t' \<in> set (t # ?ap). \<forall>k. key_from_trade t' = Inr k \<longrightarrow> \<not> repo_knows s k" using ih k kn by simp
    have 3: "\<forall>t' \<in> set (t # ?ap). is_ok (key_from_trade t')" using ih k(1) by simp
    have 4: "(\<forall>(env, t) \<in> set (x # xs). ev_bus env) \<longrightarrow>
        applied_events (run_ops rt_step s (x # xs)) = applied_events s @ t # ?ap" using ih ev by (simp add: x)
    have 5: "\<forall>oid ord. dict_get (om_orders s) oid = Some ord \<longrightarrow>
        (\<exists>ord'. dict_get (om_orders (run_ops rt_step s (x # xs))) oid = Some ord' \<and>
          order_after ord (filter (\<lambda>t. t_order_id t = oid) (t # ?ap)) ord')" using ords unfolding ap by blast
    show ?thesis unfolding ap by (intro conjI 1 2 3 4 5)
  qed
qed simp

text \<open>The reducer commutes with everything between validation and commit.\<close>

lemma reducer_commutes:
  "publish env e (s\<lparr>om_reducer := r\<rparr>) = (publish env e s)\<lparr>om_reducer := r\<rparr>"
  "publish_applied env u t (s\<lparr>om_reducer := r\<rparr>) = (publish_applied env u t s)\<lparr>om_reducer := r\<rparr>"
  "publish_applied env u t (s\<lparr>om_reducer := r, om_trades_processed := n\<rparr>) =
     (publish_applied env u t (s\<lparr>om_trades_processed := n\<rparr>))\<lparr>om_reducer := r\<rparr>"
  "store_order u (s\<lparr>om_reducer := r\<rparr>) = (store_order u s)\<lparr>om_reducer := r\<rparr>"
  "mark_trade env k (s\<lparr>om_reducer := r\<rparr>) = (let (res, s') = mark_trade env k s in (res, s'\<lparr>om_reducer := r\<rparr>))"
  "persist_fill_to_ledger env f ord t (s\<lparr>om_reducer := r\<rparr>) =
     (let (e, s') = persist_fill_to_ledger env f ord t s in (e, s'\<lparr>om_reducer := r\<rparr>))"
  by (simp_all add: publish_def publish_applied_def store_order_def mark_trade_def persist_fill_to_ledger_def Let_def
      split: option.splits sum.splits prod.splits)

lemma mark_unknown:
  "om_repo s \<noteq> None \<Longrightarrow> \<not> repo_knows s k \<Longrightarrow> k_trade_id k \<noteq> [] \<Longrightarrow> mark_trade env k s = (res, s') \<Longrightarrow> res \<noteq> Inr False"
  by (auto simp: mark_trade_def repo_knows_def repo_is_processed_def repo_mark_processed_def repo_append_to_disk_def
      split: option.splits write_outcome.splits)

lemma mark_written:
  "om_repo s \<noteq> None \<Longrightarrow> \<not> repo_knows s k \<Longrightarrow> k_trade_id k \<noteq> [] \<Longrightarrow> ev_write env = Written \<Longrightarrow>
   fst (mark_trade env k s) = Inr True"
  by (auto simp: mark_trade_def repo_knows_def repo_is_processed_def repo_mark_processed_def repo_append_to_disk_def
      split: option.splits)

text \<open>What a recorded trade that is accepted has met.\<close>

lemma record_accepted:
  assumes "recorder_record_trade env t s = (Inr True, s')" "om_repo s \<noteq> None"
  obtains k ord f s1 u s3 where "\<not> is_blank (t_trade_id t)" "key_from_trade t = Inr k" "key_wf k" "\<not> repo_knows s k"
    "dict_get (om_orders s) (t_order_id t) = Some ord"
    "fill_from_trade dec_add (t_trade_id t) (t_order_id t) (t_quantity t) (o_filled_quantity ord) (t_price t) = Inr f"
    "fr_validate (om_reducer s) f (o_quantity ord) (o_filled_quantity ord) = None"
    "persist_fill_to_ledger env f ord t s = (None, s1)" "apply_trade ord t = Inr u"
    "mark_trade env k (publish_applied env u t ((store_order u s1)\<lparr>om_trades_processed := Suc (om_trades_processed s1)\<rparr>)) = (Inr True, s3)"
    "s' = commit_fill f s3"
proof -
  have nb: "\<not> is_blank (t_trade_id t)" using assms(1) by (auto simp: recorder_record_trade_def)
  then obtain k where k: "key_from_trade t = Inr k" "key_wf k" using key_from_trade_wf by blast
  have nk: "\<not> repo_knows s k" using assms(1) nb k by (auto simp: recorder_record_trade_def)
  obtain ord where o: "dict_get (om_orders s) (t_order_id t) = Some ord"
    using assms(1) nb k nk by (auto simp: recorder_record_trade_def split: option.splits)
  have r: "record_known env k ord t s = (Inr True, s')"
    using assms(1) nb k nk o by (simp add: recorder_record_trade_def)
  obtain f where f: "fill_from_trade dec_add (t_trade_id t) (t_order_id t) (t_quantity t) (o_filled_quantity ord) (t_price t) = Inr f"
    using r by (auto simp: record_known_def split: sum.splits)
  have v: "fr_validate (om_reducer s) f (o_quantity ord) (o_filled_quantity ord) = None"
    using r by (auto simp: record_known_def f split: option.splits)
  obtain s1 where p: "persist_fill_to_ledger env f ord t s = (None, s1)"
    using r by (auto simp: record_known_def f v split: prod.splits option.splits)
  obtain u where u: "apply_trade ord t = Inr u"
    using r by (auto simp: record_known_def f v p split: sum.splits)
  let ?s2 = "publish_applied env u t ((store_order u s1)\<lparr>om_trades_processed := Suc (om_trades_processed s1)\<rparr>)"
  obtain res s3 where m: "mark_trade env k ?s2 = (res, s3)" by fastforce
  have "om_repo ?s2 = om_repo s" using persist_frame[OF p] by auto
  then have "res \<noteq> Inr False"
    using mark_unknown[OF _ _ _ m] nk k(2) assms(2) by (auto simp: repo_knows_def key_wf_def)
  then have "res = Inr True \<and> s' = commit_fill f s3"
    using r m by (cases res) (auto simp: record_known_def f v p u Let_def split: bool.splits)
  then show thesis using that[OF nb k nk o f v p u] m by simp
qed

lemma record_accepted_fresh:
  assumes "recorder_record_trade env t s = (Inr True, s')" "om_repo s \<noteq> None"
  shows "t_trade_id t \<notin> set (fr_seen (om_reducer s))"
  by (rule record_accepted[OF assms]) (auto simp: fr_validate_def dest: fill_from_trade_fields)

lemma flush_one_like_record:
  assumes "om_repo s \<noteq> None" "recorder_record_trade env t s = (Inr b, s')"
    "om_trades_duplicated s' = om_trades_duplicated s" "dict_get (om_orders s) (t_order_id t) = Some ord"
  shows "flush_one env t s = (None, s')"
proof -
  have nb: "\<not> is_blank (t_trade_id t)" using assms(2) by (auto simp: recorder_record_trade_def)
  then obtain k where k: "key_from_trade t = Inr k" "key_wf k" using key_from_trade_wf by blast
  have nk: "\<not> repo_knows s k" using assms(2,3) nb k by (auto simp: recorder_record_trade_def)
  obtain r where r: "om_repo s = Some r" using assms(1) by auto
  have fo: "flush_one env t s = flush_known env (Some k) ord t s"
    using k nk assms(4) by (simp add: flush_one_def r)
  have rk: "record_known env k ord t s = (Inr b, s')"
    using assms(2,4) nb k nk by (simp add: recorder_record_trade_def)
  obtain f where f: "fill_from_trade dec_add (t_trade_id t) (t_order_id t) (t_quantity t) (o_filled_quantity ord) (t_price t) = Inr f"
    using rk by (auto simp: record_known_def split: sum.splits)
  show ?thesis
  proof (cases "fr_validate (om_reducer s) f (o_quantity ord) (o_filled_quantity ord)")
    case (Some x)
    then have "s' = s" using rk by (simp add: record_known_def f)
    then show ?thesis using Some by (simp only: fo) (simp add: flush_known_def f fr_apply_def)
  next
    case None
    have "b = True"
      using rk by (auto simp: record_known_def f None Let_def split: prod.splits option.splits sum.splits bool.splits)
    then have rt: "recorder_record_trade env t s = (Inr True, s')" using assms(2) by simp
    obtain s1 u s3 where p: "persist_fill_to_ledger env f ord t s = (None, s1)" "apply_trade ord t = Inr u"
      and m: "mark_trade env k (publish_applied env u t ((store_order u s1)\<lparr>om_trades_processed := Suc (om_trades_processed s1)\<rparr>)) = (Inr True, s3)"
      and s': "s' = commit_fill f s3"
      by (rule record_accepted[OF rt assms(1)]) (rule that, use k f assms(4) in simp_all)
    obtain l where l: "s1 = s\<lparr>om_ledger := l\<rparr>" using persist_frame[OF p(1)] by blast
    obtain ro where ro: "s3 = (publish_applied env u t ((store_order u s1)\<lparr>om_trades_processed := Suc (om_trades_processed s1)\<rparr>))\<lparr>om_repo := ro\<rparr>"
      using mark_trade_cases(1)[OF m] by blast
    have red: "om_reducer s3 = om_reducer s" by (simp add: ro l)
    show ?thesis
      by (simp add: fo flush_known_def f fr_apply_def None reducer_commutes p Let_def m s' commit_fill_def red)
  qed
qed

fun record_all :: "'l oms_env \<Rightarrow> trade list \<Rightarrow> 'l oms \<Rightarrow> exn option \<times> 'l oms" where
  "record_all env [] s = (None, s)"
| "record_all env (t # ts) s =
     (case recorder_record_trade env t s of
        (Inl e, s') \<Rightarrow> (Some e, s')
      | (Inr _, s') \<Rightarrow> record_all env ts s')"

lemma duplicated_mono:
  "om_trades_duplicated s \<le> om_trades_duplicated (snd (recorder_record_trade env t s))"
proof (cases "is_blank (t_trade_id t) \<or> (\<exists>e. key_from_trade t = Inl e)")
  case False
  then obtain k where k: "\<not> is_blank (t_trade_id t)" "key_from_trade t = Inr k" by (metis sumE)
  show ?thesis
  proof (cases "dict_get (om_orders s) (t_order_id t)")
    case (Some ord)
    have "om_trades_duplicated (snd (record_known env k ord t s)) = om_trades_duplicated s"
    proof (rule record_known_cases[of env k ord t s])
      fix u l s2 res s3
      assume a: "s2 = publish_applied env u t ((store_order u (s\<lparr>om_ledger := l\<rparr>))\<lparr>om_trades_processed := Suc (om_trades_processed s)\<rparr>)"
        "mark_trade env k s2 = (res, s3)" "\<exists>r. snd (record_known env k ord t s) = s3\<lparr>om_reducer := r\<rparr>"
      obtain ro where "s3 = s2\<lparr>om_repo := ro\<rparr>" using mark_trade_cases(1)[OF a(2)] by blast
      then show ?thesis using a(1,3) by auto
    qed simp
    then show ?thesis using k Some by (simp add: recorder_record_trade_def)
  qed (use k in \<open>simp add: recorder_record_trade_def buffer_trade_def Let_def\<close>)
qed (auto simp: recorder_record_trade_def)

lemma duplicated_mono_all:
  "record_all env ts s = (x, s') \<Longrightarrow> om_trades_duplicated s \<le> om_trades_duplicated s'"
proof (induction ts arbitrary: s)
  case (Cons t ts)
  then show ?case using duplicated_mono[of s env t]
    by (force split: prod.splits sum.splits intro: order_trans)
qed simp

lemma record_keeps_known:
  "om_repo s \<noteq> None \<Longrightarrow> dict_get (om_orders s) oid \<noteq> None \<Longrightarrow>
   om_repo (rt_step s (env, t)) \<noteq> None \<and> dict_get (om_orders (rt_step s (env, t))) oid \<noteq> None"
proof (cases "rt_applies s (env, t)")
  case True
  assume "om_repo s \<noteq> None" "dict_get (om_orders s) oid \<noteq> None"
  with True show ?thesis by (metis (no_types, lifting) rt_step_applied dict_get_put option.distinct(1))
qed (simp add: rt_step_skip)

lemma flush_all_like_record:
  "om_repo s \<noteq> None \<Longrightarrow> record_all env ts s = (None, s') \<Longrightarrow> om_trades_duplicated s' = om_trades_duplicated s \<Longrightarrow>
   \<forall>t \<in> set ts. dict_get (om_orders s) (t_order_id t) \<noteq> None \<Longrightarrow> flush_all env ts s = (None, s')"
proof (induction ts arbitrary: s)
  case (Cons t ts)
  obtain ord where o: "dict_get (om_orders s) (t_order_id t) = Some ord" using Cons.prems(4) by auto
  obtain b s1 where r: "recorder_record_trade env t s = (Inr b, s1)" and rest: "record_all env ts s1 = (None, s')"
    using Cons.prems(2) by (auto split: prod.splits sum.splits)
  have d: "om_trades_duplicated s1 = om_trades_duplicated s" "om_trades_duplicated s' = om_trades_duplicated s1"
    using duplicated_mono[of s env t] duplicated_mono_all[OF rest] Cons.prems(3) by (simp_all add: r)
  have s1: "s1 = rt_step s (env, t)" by (simp add: rt_step.simps r)
  have "om_repo s1 \<noteq> None" using record_keeps_known[OF Cons.prems(1), of "t_order_id t"] o by (simp add: s1)
  moreover have "\<forall>t \<in> set ts. dict_get (om_orders s1) (t_order_id t) \<noteq> None"
    unfolding s1 using record_keeps_known[OF Cons.prems(1)] Cons.prems(4) by auto
  ultimately have "flush_all env ts s1 = (None, s')" using Cons.IH[OF _ rest d(2)] by simp
  then show ?case using flush_one_like_record[OF Cons.prems(1) r d(1) o] by simp
qed simp

section \<open>Properties\<close>

text \<open>
  C2: with a repository of processed trades, whatever trades are delivered to the recorder,
  how often, in what order, and whichever file or ledger writes fail: a trade is applied at
  most once, none is applied that was processed before, an order ends with its old filled
  quantity plus exactly the quantities applied to it, never above its own quantity, in the
  status that this quantity implies, and the position book is told of exactly the applied
  trades, in the order of their application.
\<close>

theorem fills_applied_once:
  "book_keyed s \<and> om_repo s \<noteq> None \<longrightarrow>
   (let s' = run_ops rt_step s xs; ap = applied_trades s xs in
     distinct (map key_from_trade ap) \<and>
     (\<forall>t \<in> set ap. \<forall>k. key_from_trade t = Inr k \<longrightarrow> \<not> repo_knows s k) \<and>
     (\<forall>oid ord. dict_get (om_orders s) oid = Some ord \<longrightarrow>
        (\<exists>ord'. dict_get (om_orders s') oid = Some ord' \<and>
          order_after ord (filter (\<lambda>t. t_order_id t = oid) ap) ord')) \<and>
     ((\<forall>(env, t) \<in> set xs. ev_bus env) \<longrightarrow> applied_events s' = applied_events s @ ap))"
  using applied_run[of s xs] by (simp add: Let_def)

text \<open>A fresh core without risk manager, order store and ledger, a call environment, an order and its fills.\<close>

definition sample_oms :: "unit oms" where
  "sample_oms =
     \<lparr>om_orders = [(''O1'', (order_new ''O1'' ''INFY'' ''NSE'' BUY LIMIT 10)\<lparr>o_correlation_id := Some ''c1''\<rparr>)],
      om_by_corr = [], om_buffer = [], om_trades_processed = 0, om_trades_duplicated = 0, om_reducer = fr_init,
      om_repo = Some (repo_init (Some []) 0), om_ledger = (), om_validator = osv_init True, om_reserved = [],
      om_store = None, om_risk = None, om_active = None, om_placed = 0, om_gated = False, om_broker = [], om_events = []\<rparr>"

definition sample_oms_env :: "unit oms_env" where
  "sample_oms_env =
     \<lparr>ev_port = None, ev_now = Aware 0, ev_time = 0, ev_write = Written, ev_store_ok = True, ev_bus = True,
      ev_is_terminal = order_status_is_terminal, ev_risk = sample_env, ev_production = False,
      ev_ledger_authority = False, ev_evicted = False, ev_gate = (True, None)\<rparr>"

definition sample_trade :: "string \<Rightarrow> rat \<Rightarrow> trade" where
  "sample_trade tid q = build_domain_trade tid ''INFY'' (Inr ''BUY'') q 100 None ''NSE'' ''O1''"

lemma sample_book_keyed: "book_keyed sample_oms"
  by (simp add: book_keyed_def sample_oms_def order_new_def dict_get_def)

lemma fills_applied_once_witness:
  "let xs = [(sample_oms_env, sample_trade ''T1'' 4), (sample_oms_env, sample_trade ''T1'' 4), (sample_oms_env, sample_trade ''T2'' 6)] in
   applied_events (run_ops rt_step sample_oms xs) = applied_trades sample_oms xs"
proof -
  have "applied_events sample_oms = []" by (simp add: applied_events_def sample_oms_def List.map_filter_simps)
  then show ?thesis
    using fills_applied_once[of sample_oms "[(sample_oms_env, sample_trade ''T1'' 4), (sample_oms_env, sample_trade ''T1'' 4),
        (sample_oms_env, sample_trade ''T2'' 6)]"] sample_book_keyed
    by (simp add: Let_def sample_oms_env_def) (simp add: sample_oms_def)
qed

text \<open>
  Flushing the trades that were buffered for an order does exactly what recording them
  one after the other does, where recording them raises nothing and meets no duplicate.
\<close>

theorem flush_like_recording:
  "om_repo s \<noteq> None \<and> dict_get (om_buffer s) oid = Some ts \<and>
   (\<forall>t \<in> set ts. dict_get (om_orders s) (t_order_id t) \<noteq> None) \<and>
   record_all env ts (s\<lparr>om_buffer := dict_pop (om_buffer s) oid\<rparr>) = (None, s') \<and>
   om_trades_duplicated s' = om_trades_duplicated s \<longrightarrow>
   flush_pending_trades env oid s = (None, s')"
  using flush_all_like_record[of "s\<lparr>om_buffer := dict_pop (om_buffer s) oid\<rparr>" env ts s']
  by (simp add: flush_pending_trades_def)

definition sample_buffered :: "unit oms" where
  "sample_buffered = sample_oms\<lparr>om_buffer := [(''O1'', [sample_trade ''T1'' 4, sample_trade ''T2'' 6])]\<rparr>"

lemma sample_buffered_recorded:
  "map_prod id (\<lambda>s. (om_trades_duplicated s, map o_status (dict_values (om_orders s))))
     (record_all sample_oms_env [sample_trade ''T1'' 4, sample_trade ''T2'' 6] sample_oms) = (None, 0, [FILLED])"
  by code_simp

lemma flush_like_recording_witness:
  "\<exists>s'. flush_pending_trades sample_oms_env ''O1'' sample_buffered = (None, s') \<and>
     map o_status (dict_values (om_orders s')) = [FILLED]"
proof -
  obtain s' where r: "record_all sample_oms_env [sample_trade ''T1'' 4, sample_trade ''T2'' 6] sample_oms = (None, s')"
      "om_trades_duplicated s' = 0" "map o_status (dict_values (om_orders s')) = [FILLED]"
    using sample_buffered_recorded
    by (cases "record_all sample_oms_env [sample_trade ''T1'' 4, sample_trade ''T2'' 6] sample_oms") auto
  have e: "sample_buffered\<lparr>om_buffer := dict_pop (om_buffer sample_buffered) ''O1''\<rparr> = sample_oms"
    by (simp add: sample_buffered_def sample_oms_def dict_pop_def)
  have b: "om_repo sample_buffered \<noteq> None" "om_trades_duplicated sample_buffered = 0"
      "dict_get (om_buffer sample_buffered) ''O1'' = Some [sample_trade ''T1'' 4, sample_trade ''T2'' 6]"
      "dict_get (om_orders sample_buffered) (t_order_id (sample_trade tid q)) \<noteq> None" for tid q
    by (simp_all add: sample_buffered_def sample_oms_def dict_get_def sample_trade_def build_domain_trade_def)
  show ?thesis
    using flush_like_recording[of sample_buffered "''O1''" "[sample_trade ''T1'' 4, sample_trade ''T2'' 6]" sample_oms_env s']
      e b r by auto
qed


lemma sample_recorded: "fst (recorder_record_trade (sample_oms_env\<lparr>ev_write := Written\<rparr>) (sample_trade ''T1'' 4) sample_oms) = Inr True"
  by code_simp


text \<open>
  A fill whose order refuses it is treated differently on the two paths. Recorded
  directly, it raises and leaves no trace, so it can be delivered again when the order is
  in a state that takes it. From the buffer, it raises after the reducer has kept its id:
  the buffered trades behind it are gone, and the trade is refused as a duplicate from then
  on, whatever becomes of the order.
\<close>

theorem flush_failure_loses_fills:
  "om_repo s \<noteq> None \<and> ev_port env = None \<and> key_from_trade t = Inr k \<and> \<not> is_blank (t_trade_id t) \<and> \<not> repo_knows s k \<and>
   dict_get (om_orders s) (t_order_id t) = Some ord \<and> apply_trade ord t = Inl e \<and>
   fill_from_trade dec_add (t_trade_id t) (t_order_id t) (t_quantity t) (o_filled_quantity ord) (t_price t) = Inr f \<and>
   fr_validate (om_reducer s) f (o_quantity ord) (o_filled_quantity ord) = None \<longrightarrow>
   recorder_record_trade env t s = (Inl e, s) \<and>
   (let (x, s') = flush_pending_trades env (t_order_id t) (s\<lparr>om_buffer := dict_put (om_buffer s) (t_order_id t) (t # ts)\<rparr>) in
    x = Some e \<and> dict_get (om_buffer s') (t_order_id t) = None \<and> om_orders s' = om_orders s \<and>
    (o_order_id ord' = t_order_id t \<longrightarrow> fst (recorder_record_trade env' t (store_order ord' s')) \<noteq> Inr True))"
proof (intro impI)
  assume a: "om_repo s \<noteq> None \<and> ev_port env = None \<and> key_from_trade t = Inr k \<and> \<not> is_blank (t_trade_id t) \<and> \<not> repo_knows s k \<and>
   dict_get (om_orders s) (t_order_id t) = Some ord \<and> apply_trade ord t = Inl e \<and>
   fill_from_trade dec_add (t_trade_id t) (t_order_id t) (t_quantity t) (o_filled_quantity ord) (t_price t) = Inr f \<and>
   fr_validate (om_reducer s) f (o_quantity ord) (o_filled_quantity ord) = None"
  then obtain rp where rp: "om_repo s = Some rp" by auto
  note f = fill_from_trade_fields[of dec_add "t_trade_id t" "t_order_id t" "t_quantity t" "o_filled_quantity ord" "t_price t" f]
  have po: "persist_fill_to_ledger env f ord t x = (None, x)" for x
    using a by (simp add: persist_fill_to_ledger_def)
  have direct: "recorder_record_trade env t s = (Inl e, s)"
    using a po by (simp add: recorder_record_trade_def record_known_def)
  define s1 where "s1 = s\<lparr>om_buffer := dict_pop (dict_put (om_buffer s) (t_order_id t) (t # ts)) (t_order_id t),
      om_reducer := fr_commit (om_reducer s) f\<rparr>"
  have fl: "flush_pending_trades env (t_order_id t) (s\<lparr>om_buffer := dict_put (om_buffer s) (t_order_id t) (t # ts)\<rparr>) = (Some e, s1)"
    using a po by (simp add: flush_pending_trades_def flush_one_def rp repo_knows_def flush_known_def fr_apply_def s1_def)
  have kn: "repo_knows (store_order ord' s1) k = repo_knows s k" by (simp add: repo_knows_def s1_def)
  have "fst (recorder_record_trade env' t (store_order ord' s1)) \<noteq> Inr True" if i: "o_order_id ord' = t_order_id t"
  proof
    assume "fst (recorder_record_trade env' t (store_order ord' s1)) = Inr True"
    then obtain s9 where r9: "recorder_record_trade env' t (store_order ord' s1) = (Inr True, s9)" by (metis prod.collapse)
    have "om_repo (store_order ord' s1) \<noteq> None" by (simp add: s1_def rp)
    from record_accepted_fresh[OF r9 this] show False using f a by (simp add: s1_def)
  qed
  then show "recorder_record_trade env t s = (Inl e, s) \<and>
   (let (x, s') = flush_pending_trades env (t_order_id t) (s\<lparr>om_buffer := dict_put (om_buffer s) (t_order_id t) (t # ts)\<rparr>) in
    x = Some e \<and> dict_get (om_buffer s') (t_order_id t) = None \<and> om_orders s' = om_orders s \<and>
    (o_order_id ord' = t_order_id t \<longrightarrow> fst (recorder_record_trade env' t (store_order ord' s')) \<noteq> Inr True))"
    using direct by (simp add: fl) (simp add: s1_def)
qed

text \<open>The order was cancelled when its fill and a second one come out of the buffer.\<close>

definition sample_cancelled :: "unit oms" where
  "sample_cancelled = sample_oms\<lparr>om_orders :=
     [(''O1'', (order_new ''O1'' ''INFY'' ''NSE'' BUY LIMIT 10)\<lparr>o_status := CANCELLED\<rparr>)]\<rparr>"

lemma flush_failure_loses_fills_witness:
  "\<exists>e s'. flush_pending_trades sample_oms_env ''O1''
       (sample_cancelled\<lparr>om_buffer := dict_put [] ''O1'' [sample_trade ''T1'' 4, sample_trade ''T2'' 6]\<rparr>) = (Some e, s') \<and>
     dict_get (om_buffer s') ''O1'' = None \<and>
     fst (recorder_record_trade sample_oms_env (sample_trade ''T1'' 4)
       (store_order (order_new ''O1'' ''INFY'' ''NSE'' BUY LIMIT 10) s')) \<noteq> Inr True"
proof -
  define ord where "ord = (order_new ''O1'' ''INFY'' ''NSE'' BUY LIMIT 10)\<lparr>o_status := CANCELLED\<rparr>"
  define t where "t = sample_trade ''T1'' 4"
  obtain k where k: "key_from_trade t = Inr k" "\<not> is_blank (t_trade_id t)" "\<not> repo_knows sample_cancelled k"
    by (simp add: t_def sample_trade_def build_domain_trade_def key_from_trade_def mk_trade_key_def is_blank_def
        py_strip_def is_space_def repo_knows_def sample_cancelled_def sample_oms_def repo_init_def repo_load_def
        List.map_filter_simps repo_is_processed_def)
  have o: "dict_get (om_orders sample_cancelled) (t_order_id t) = Some ord" "om_repo sample_cancelled \<noteq> None"
      "ev_port sample_oms_env = None" "om_buffer sample_cancelled = []" "t_order_id t = ''O1''"
      "om_reducer sample_cancelled = fr_init"
    by (simp_all add: t_def sample_trade_def build_domain_trade_def sample_cancelled_def sample_oms_def sample_oms_env_def
        ord_def dict_get_def)
  have "\<not> is_ok (apply_trade ord t)" unfolding ord_def t_def by code_simp
  then obtain e where e: "apply_trade ord t = Inl e" by (cases "apply_trade ord t") auto
  have "is_ok (fill_from_trade dec_add (t_trade_id t) (t_order_id t) (t_quantity t) (o_filled_quantity ord) (t_price t))"
    unfolding ord_def t_def by code_simp
  then obtain f where f: "fill_from_trade dec_add (t_trade_id t) (t_order_id t) (t_quantity t) (o_filled_quantity ord) (t_price t) = Inr f"
    by (cases "fill_from_trade dec_add (t_trade_id t) (t_order_id t) (t_quantity t) (o_filled_quantity ord) (t_price t)") auto
  have "(case fill_from_trade dec_add (t_trade_id t) (t_order_id t) (t_quantity t) (o_filled_quantity ord) (t_price t) of
      Inl _ \<Rightarrow> False | Inr f \<Rightarrow> fr_validate fr_init f (o_quantity ord) (o_filled_quantity ord) = None)"
    unfolding ord_def t_def by code_simp
  then have v: "fr_validate (om_reducer sample_cancelled) f (o_quantity ord) (o_filled_quantity ord) = None"
    by (simp add: f o(6))
  show ?thesis
    using flush_failure_loses_fills[of sample_cancelled sample_oms_env t k ord e f "[sample_trade ''T2'' 6]"
        "order_new ''O1'' ''INFY'' ''NSE'' BUY LIMIT 10" sample_oms_env] k o e f v
    by (auto simp: t_def order_new_def)
qed

end
