(* ===== verification/Order_Lifecycle.thy ===== *)
theory Order_Lifecycle
  imports Trade_Recorder
begin

text \<open>
  The collaborators of the order manager: the idempotency guard
  (\<open>application/oms/idempotency_guard.py\<close>), the order validator
  (\<open>application/oms/order_validator.py\<close>), the mutation guard
  (\<open>application/oms/_internal/order_mutation_guard.py\<close>) and the order lifecycle
  (\<open>application/oms/_internal/order_lifecycle.py\<close>). Every operation is a function from the
  state of the core to a result and a state; an exception is the left value of the result
  and keeps the changes made before it.
\<close>

section \<open>Results\<close>

record order_result =
  or_success :: bool
  or_order :: "order option"
  or_error :: "risk_reason option"
  or_state :: "submission_state option"

definition fail_with :: "risk_reason \<Rightarrow> order_result" where
  "fail_with e = \<lparr>or_success = False, or_order = None, or_error = Some e, or_state = None\<rparr>"

definition ok_order :: "order \<Rightarrow> submission_state option \<Rightarrow> order_result" where
  "ok_order ord st = \<lparr>or_success = True, or_order = Some ord, or_error = None, or_state = st\<rparr>"

definition unknown_result :: "order \<Rightarrow> string \<Rightarrow> order_result" where
  "unknown_result ord msg =
     \<lparr>or_success = False, or_order = Some ord, or_error = Some (Because msg), or_state = Some SUB_UNKNOWN\<rparr>"

section \<open>Commands\<close>

text \<open>\<open>generated\<close> is the id made up under the test runner, where there is one.\<close>

definition mk_command :: "command \<Rightarrow> string option \<Rightarrow> command res" where
  "mk_command c generated =
     (let c' = c\<lparr>cm_symbol := normalize_symbol (cm_symbol c), cm_exchange := normalize_exchange (cm_exchange c)\<rparr> in
      if cm_correlation_id c \<noteq> [] then Inr c'
      else case generated of
             Some g \<Rightarrow> Inr (c'\<lparr>cm_correlation_id := g\<rparr>)
           | None \<Rightarrow> Inl (ValueError (''correlation_id is required for OMS idempotency. '' @
               ''Pass an explicit correlation_id at the call site.'')))"

definition order_of_command :: "string \<Rightarrow> command \<Rightarrow> order_status \<Rightarrow> datetime \<Rightarrow> order" where
  "order_of_command oid c status now =
     (order_new oid (cm_symbol c) (cm_exchange c) (cm_side c) (cm_order_type c) (of_int (cm_quantity c)))
       \<lparr>o_price := cm_price c, o_product_type := cm_product_type c, o_status := status,
        o_timestamp := Some now, o_correlation_id := Some (cm_correlation_id c)\<rparr>"

section \<open>Idempotency guard\<close>

definition PENDING_TTL :: rat where
  "PENDING_TTL = 86400"

definition pending_get :: "(string, rat) dict \<Rightarrow> string \<Rightarrow> rat \<Rightarrow> bool \<times> (string, rat) dict" where
  "pending_get d c now =
     (case dict_get d c of
        None \<Rightarrow> (False, d)
      | Some expires \<Rightarrow> if expires < now then (False, dict_pop d c) else (True, d))"

definition pending_put :: "(string, rat) dict \<Rightarrow> string \<Rightarrow> rat \<Rightarrow> (string, rat) dict" where
  "pending_put d c now = dict_put d c (flt_add now PENDING_TTL)"

definition release_reservation :: "string \<Rightarrow> 'l oms \<Rightarrow> 'l oms" where
  "release_reservation c s = s\<lparr>om_reserved := dict_pop (om_reserved s) c\<rparr>"

text \<open>\<open>OrderManager._lookup_durable_order\<close>: an order recovered from the ledger by its correlation id.\<close>

fun price_value :: "price_obj \<Rightarrow> rat" where
  "price_value (DecimalPrice q) = q"
| "price_value (MoneyPrice q) = q"

definition recovered_status :: "outcome option \<Rightarrow> order_status" where
  "recovered_status u =
     (case u of
        None \<Rightarrow> OPEN
      | Some v \<Rightarrow> (case so_state v of SUB_UNKNOWN \<Rightarrow> UNKNOWN | SUB_REJECTED \<Rightarrow> REJECTED | ACCEPTED \<Rightarrow> OPEN))"

definition order_of_intent :: "rat intent \<Rightarrow> order_status \<Rightarrow> order" where
  "order_of_intent i status =
     (order_new (in_order_id i) (in_symbol i) (in_exchange i) (in_side i) (in_order_type i) (in_quantity i))
       \<lparr>o_price := price_value (in_price i), o_product_type := in_product_type i, o_status := status,
        o_timestamp := Some (in_created_at i), o_correlation_id := Some (in_correlation_id i)\<rparr>"

definition lookup_durable_order :: "'l oms_env \<Rightarrow> string \<Rightarrow> 'l oms \<Rightarrow> order option res \<times> 'l oms" where
  "lookup_durable_order env c s =
     (case dict_get (om_by_corr s) c of
        Some ord \<Rightarrow> (Inr (Some ord), s)
      | None \<Rightarrow>
          (case ev_port env of
             None \<Rightarrow> (Inr None, s)
           | Some port \<Rightarrow>
               (case lg_intent_for_correlation port (om_ledger s) c of
                  Inl _ \<Rightarrow> (Inr None, s)
                | Inr None \<Rightarrow> (Inr None, s)
                | Inr (Some i) \<Rightarrow>
                    (case dict_get (om_orders s) (in_order_id i) of
                       Some ord \<Rightarrow> (Inr (Some ord), s)
                     | None \<Rightarrow>
                         (case lg_outcome_for port (om_ledger s) (in_intent_id i) of
                            Inl e \<Rightarrow> (Inl e, s)
                          | Inr u \<Rightarrow>
                              (let ord = order_of_intent i (recovered_status u) in
                               (Inr (Some ord), s\<lparr>om_orders := dict_put (om_orders s) (o_order_id ord) ord\<rparr>)))))))"

definition answer_existing :: "order \<Rightarrow> order_result" where
  "answer_existing ord =
     (if o_status ord = UNKNOWN
      then unknown_result ord ''Order submission outcome is unknown; reconcile before retry''
      else ok_order ord (Some ACCEPTED))"

text \<open>
  The first phase of a placement, under the lock. \<open>Inr (Inr oid)\<close>: reserved, with the fresh
  order id \<open>oid\<close>; \<open>Inr (Inl r)\<close>: answered without placing anything.
\<close>

definition check_and_reserve ::
  "'l oms_env \<Rightarrow> string \<Rightarrow> string \<Rightarrow> 'l oms \<Rightarrow> (order_result + string) res \<times> 'l oms" where
  "check_and_reserve env fresh_id c s =
     (case dict_get (om_by_corr s) c of
        Some ord \<Rightarrow> (Inr (Inl (answer_existing ord)), s)
      | None \<Rightarrow>
          (case lookup_durable_order env c s of
             (Inl e, s1) \<Rightarrow> (Inl e, s1)
           | (Inr (Some ord), s1) \<Rightarrow>
               (Inr (Inl (answer_existing ord)), s1\<lparr>om_by_corr := dict_put (om_by_corr s1) c ord\<rparr>)
           | (Inr None, s1) \<Rightarrow>
               (let now = re_monotonic (ev_risk env); (held, d) = pending_get (om_reserved s1) c now in
                if held then (Inr (Inl (fail_with (Because ''Order already in-flight''))), s1\<lparr>om_reserved := d\<rparr>)
                else (Inr (Inr (''OM-'' @ fresh_id)), s1\<lparr>om_reserved := pending_put d c now\<rparr>))))"

section \<open>Order validator\<close>

definition set_placement_gate :: "'l oms \<Rightarrow> 'l oms" where
  "set_placement_gate s = s\<lparr>om_gated := True\<rparr>"

definition clear_placement_gate :: "'l oms \<Rightarrow> 'l oms" where
  "clear_placement_gate s = s\<lparr>om_gated := False\<rparr>"

definition check_placement_gate :: "'l oms_env \<Rightarrow> 'l oms \<Rightarrow> string option" where
  "check_placement_gate env s =
     (if \<not> om_gated s then None
      else case ev_gate env of
             (True, _) \<Rightarrow> None
           | (False, reason) \<Rightarrow>
               Some (case truthy reason of Some r \<Rightarrow> r | None \<Rightarrow> ''Order placement blocked by gate''))"

text \<open>\<open>OrderValidator.check_order\<close> and \<open>OrderManager.check_order\<close>.\<close>

definition oms_check_order :: "'l oms_env \<Rightarrow> order \<Rightarrow> 'l oms \<Rightarrow> bool res \<times> 'l oms" where
  "oms_check_order env ord s =
     (case om_risk s of
        None \<Rightarrow> (Inr True, s)
      | Some rm \<Rightarrow>
          (case check_order rm (ev_risk env) ord of
             (Inl e, rm') \<Rightarrow> (Inl e, s\<lparr>om_risk := Some rm'\<rparr>)
           | (Inr r, rm') \<Rightarrow> (Inr (approved r), s\<lparr>om_risk := Some rm'\<rparr>)))"

definition build_and_validate ::
  "'l oms_env \<Rightarrow> string \<Rightarrow> command \<Rightarrow> 'l oms \<Rightarrow> (order_result + order) res \<times> 'l oms" where
  "build_and_validate env oid c s =
     (case check_placement_gate env s of
        Some reason \<Rightarrow>
          (Inr (Inl (fail_with (Because reason))),
           publish env (OrderRejected (order_of_command oid c REJECTED (ev_now env)) (Because reason)) s)
      | None \<Rightarrow>
          let ord = order_of_command oid c OPEN (ev_now env) in
          case om_risk s of
            None \<Rightarrow> (Inr (Inr ord), s)
          | Some rm \<Rightarrow>
              (case check_order rm (ev_risk env) ord of
                 (Inl e, rm') \<Rightarrow> (Inl e, s\<lparr>om_risk := Some rm'\<rparr>)
               | (Inr (Denied r), rm') \<Rightarrow>
                   (Inr (Inl (fail_with r)),
                    publish env (OrderRejected ord r) (publish env (RiskRejected oid r) (s\<lparr>om_risk := Some rm'\<rparr>)))
               | (Inr Allowed, rm') \<Rightarrow> (Inr (Inr ord), publish env (RiskApproved oid) (s\<lparr>om_risk := Some rm'\<rparr>))))"

section \<open>Mutation guard\<close>

definition mutation_guard :: "'l oms_env \<Rightarrow> string \<Rightarrow> 'l oms \<Rightarrow> order_result option" where
  "mutation_guard env action s =
     (case om_risk s of
        None \<Rightarrow>
          if ev_production env
          then Some (fail_with (Because (''Order blocked: risk manager unavailable ('' @ action @ '')'')))
          else None
      | Some rm \<Rightarrow>
          if ks_is_active (rk_kill rm)
          then Some (fail_with (Because (''Order blocked: kill switch active ('' @ action @ '')'')))
          else None)"

section \<open>Submission\<close>

text \<open>Both indexes, the second under the correlation id of the request.\<close>

definition store_under :: "string \<Rightarrow> order \<Rightarrow> 'l oms \<Rightarrow> 'l oms" where
  "store_under c ord s =
     s\<lparr>om_orders := dict_put (om_orders s) (o_order_id ord) ord, om_by_corr := dict_put (om_by_corr s) c ord\<rparr>"

definition intent_of_order :: "'l oms_env \<Rightarrow> command \<Rightarrow> order \<Rightarrow> rat intent" where
  "intent_of_order env c ord =
     \<lparr>in_intent_id = o_order_id ord, in_order_id = o_order_id ord, in_correlation_id = cm_correlation_id c,
      in_symbol = o_symbol ord, in_exchange = o_exchange ord, in_side = o_side ord,
      in_quantity = o_quantity ord, in_price = MoneyPrice (o_price ord), in_order_type = o_order_type ord,
      in_product_type = o_product_type ord,
      in_created_at = (case o_timestamp ord of Some w \<Rightarrow> w | None \<Rightarrow> ev_now env)\<rparr>"

definition record_outcome :: "'l oms_env \<Rightarrow> outcome res \<Rightarrow> 'l oms \<Rightarrow> exn option \<times> 'l oms" where
  "record_outcome env u s =
     (case ev_port env of
        None \<Rightarrow> (None, s)
      | Some port \<Rightarrow>
          (case u of
             Inl e \<Rightarrow> (Some e, s)
           | Inr v \<Rightarrow> (let (e, l) = lg_record_outcome port (om_ledger s) v in (e, s\<lparr>om_ledger := l\<rparr>))))"

text \<open>What a broker answers to a submission.\<close>

type_synonym broker = "command \<Rightarrow> order res"

text \<open>
  The part before the broker is called: the guard, the intent, the stub in the book, and the
  intent in the ledger. \<open>Inr None\<close>: go on to the broker. \<open>Inr (Some e)\<close>: an exception
  inside the \<open>try\<close>, which is handled as an unknown outcome.
\<close>

definition begin_submit ::
  "'l oms_env \<Rightarrow> command \<Rightarrow> order \<Rightarrow> 'l oms \<Rightarrow> exn option res \<times> 'l oms" where
  "begin_submit env c ord s =
     (case ev_port env of
        None \<Rightarrow>
          (Inr (if ev_ledger_authority env
                then Some (RuntimeError ''TRADEX_LEDGER_AUTHORITY=1 requires execution ledger at composition root'')
                else None),
           store_under (cm_correlation_id c) ord s)
      | Some port \<Rightarrow>
          (case mk_intent (intent_of_order env c ord) of
             Inl e \<Rightarrow> (Inl e, s)
           | Inr i \<Rightarrow>
               (let s1 = store_under (cm_correlation_id c) ord s; (e, l) = lg_record_intent port (om_ledger s1) i in
                (Inr e, s1\<lparr>om_ledger := l\<rparr>))))"

definition call_broker :: "broker \<Rightarrow> command \<Rightarrow> 'l oms \<Rightarrow> order res \<times> 'l oms" where
  "call_broker submit c s = (submit c, s\<lparr>om_broker := om_broker s @ [c]\<rparr>)"

text \<open>The handler of an exception from the ledger or the broker.\<close>

definition settle_unknown ::
  "'l oms_env \<Rightarrow> command \<Rightarrow> order \<Rightarrow> exn \<Rightarrow> 'l oms \<Rightarrow> (order_result + order) res \<times> 'l oms" where
  "settle_unknown env c ord e s =
     (case order_with_status ord UNKNOWN of
        Inl e' \<Rightarrow> (Inl e', s)
      | Inr unknown \<Rightarrow>
          (case record_outcome env (outcome_unknown (o_order_id ord) (exn_text e) (ev_now env))
                  (store_under (cm_correlation_id c) unknown s) of
             (Some e', s1) \<Rightarrow> (Inl e', s1)
           | (None, s1) \<Rightarrow>
               (Inr (Inl (unknown_result unknown (exn_text e))),
                publish env (OrderUpdated unknown (Some (exn_text e))) s1)))"

text \<open>The broker has accepted: the outcome is recorded; a failure there is unknown again.\<close>

definition settle_accepted ::
  "'l oms_env \<Rightarrow> command \<Rightarrow> string \<Rightarrow> order \<Rightarrow> 'l oms \<Rightarrow> (order_result + order) res \<times> 'l oms" where
  "settle_accepted env c intent_id ord s =
     (case record_outcome env (outcome_accepted intent_id (o_order_id ord) (ev_now env)) s of
        (None, s1) \<Rightarrow> (Inr (Inr ord), s1)
      | (Some e, s1) \<Rightarrow>
          (let msg = ''accepted broker order could not be durably recorded: '' @ exn_text e in
           case order_with_status ord UNKNOWN of
             Inl e' \<Rightarrow> (Inl e', s1)
           | Inr unknown \<Rightarrow>
               (Inr (Inl (unknown_result unknown msg)),
                publish env (OrderUpdated unknown (Some msg)) (store_under (cm_correlation_id c) unknown s1))))"

definition settle ::
  "'l oms_env \<Rightarrow> command \<Rightarrow> order \<Rightarrow> order res \<Rightarrow> 'l oms \<Rightarrow> (order_result + order) res \<times> 'l oms" where
  "settle env c ord answer s =
     (case answer of
        Inl e \<Rightarrow> settle_unknown env c ord e s
      | Inr bord \<Rightarrow> settle_accepted env c (o_order_id ord) bord s)"

definition submit_to_broker ::
  "'l oms_env \<Rightarrow> command \<Rightarrow> order \<Rightarrow> broker option \<Rightarrow> 'l oms \<Rightarrow> (order_result + order) res \<times> 'l oms" where
  "submit_to_broker env c ord submit s =
     (case mutation_guard env ''place'' s of
        Some blocked \<Rightarrow> (Inr (Inl blocked), s)
      | None \<Rightarrow>
          (case submit of
             None \<Rightarrow> (Inr (Inr ord), s)
           | Some f \<Rightarrow>
               (case begin_submit env c ord s of
                  (Inl e, s1) \<Rightarrow> (Inl e, s1)
                | (Inr (Some e), s1) \<Rightarrow> settle_unknown env c ord e s1
                | (Inr None, s1) \<Rightarrow> (let (answer, s2) = call_broker f c s1 in settle env c ord answer s2))))"

section \<open>Book operations\<close>

definition record_and_publish :: "'l oms_env \<Rightarrow> command \<Rightarrow> order \<Rightarrow> 'l oms \<Rightarrow> 'l oms" where
  "record_and_publish env c ord s =
     (let cid = cm_correlation_id c;
          s1 = release_reservation cid s;
          s2 = (case dict_get (om_by_corr s1) cid of
                  Some prior \<Rightarrow>
                    if o_order_id prior \<noteq> o_order_id ord
                    then s1\<lparr>om_orders := dict_pop (om_orders s1) (o_order_id prior)\<rparr> else s1
                | None \<Rightarrow> s1);
          s3 = publish env (OrderPlaced ord) (store_under cid ord s2)
      in s3\<lparr>om_active := map_option (\<lambda>n. n + 1) (om_active s3)\<rparr>)"

text \<open>A broker's update. The attribute of the status is read only for a known order whose status changes.\<close>

definition lifecycle_upsert :: "'l oms_env \<Rightarrow> order \<Rightarrow> 'l oms \<Rightarrow> exn option \<times> 'l oms" where
  "lifecycle_upsert env ord s =
     (let changed = (case dict_get (om_orders s) (o_order_id ord) of
            Some old \<Rightarrow> if o_status old \<noteq> o_status ord then Some (o_status old) else None | None \<Rightarrow> None);
          (v, s1) = (case changed of
             None \<Rightarrow> (Inr (), s)
           | Some old \<Rightarrow>
               (let (r, w) = osv_validate_transition (ev_evicted env) (om_validator s) (o_order_id ord) old (o_status ord)
                in (r, s\<lparr>om_validator := w\<rparr>)))
      in case v of
           Inl e \<Rightarrow> (Some e, s1)
         | Inr _ \<Rightarrow>
             (let s2 = store_order ord s1;
                  (t, s3) = (case changed of
                     None \<Rightarrow> (Inr (), s2)
                   | Some _ \<Rightarrow>
                       (case ev_is_terminal env (o_status ord) of
                          Inl e \<Rightarrow> (Inl e, s2)
                        | Inr b \<Rightarrow> (Inr (), if b then s2\<lparr>om_active := map_option (\<lambda>n. n - 1) (om_active s2)\<rparr> else s2)))
              in case t of
                   Inl e \<Rightarrow> (Some e, s3)
                 | Inr _ \<Rightarrow> flush_pending_trades env (o_order_id ord) (publish env (OrderUpdated ord None) s3)))"

text \<open>What a broker answers to a cancel or a modify request; no answer is taken as success.\<close>

datatype reply = NoReply | ReplyOk | ReplyFail string | ReplyRaise exn

text \<open>The checks of the first critical section: the order must be known and not final.\<close>

definition find_live :: "'l oms_env \<Rightarrow> string \<Rightarrow> 'l oms \<Rightarrow> (order_result + order) res" where
  "find_live env oid s =
     (case dict_get (om_orders s) oid of
        None \<Rightarrow> Inr (Inl (fail_with (Because ''Order not found'')))
      | Some ord \<Rightarrow>
          (case ev_is_terminal env (o_status ord) of
             Inl e \<Rightarrow> Inl e
           | Inr True \<Rightarrow> Inr (Inl (fail_with (Because ''Order already final'')))
           | Inr False \<Rightarrow> Inr (Inr ord)))"

definition cancel_finish :: "'l oms_env \<Rightarrow> string \<Rightarrow> 'l oms \<Rightarrow> order_result res \<times> 'l oms" where
  "cancel_finish env oid s =
     (case find_live env oid s of
        Inl e \<Rightarrow> (Inl e, s)
      | Inr (Inl r) \<Rightarrow> (Inr r, s)
      | Inr (Inr ord) \<Rightarrow>
          (case order_with_status ord CANCELLED of
             Inl e \<Rightarrow> (Inl e, s)
           | Inr updated \<Rightarrow>
               (let s1 = store_order updated s;
                    s2 = s1\<lparr>om_active := map_option (\<lambda>n. n - 1) (om_active s1)\<rparr>
                in (Inr (ok_order updated None), publish env (OrderCancelled updated) s2))))"

fun cancel_answer :: "reply \<Rightarrow> order_result option" where
  "cancel_answer (ReplyFail _) = Some (fail_with (Because ''Broker cancel failed''))"
| "cancel_answer (ReplyRaise e) = Some (fail_with (Because (exn_text e)))"
| "cancel_answer _ = None"

definition cancel_order :: "'l oms_env \<Rightarrow> string \<Rightarrow> reply \<Rightarrow> 'l oms \<Rightarrow> order_result res \<times> 'l oms" where
  "cancel_order env oid answer s =
     (case find_live env oid s of
        Inl e \<Rightarrow> (Inl e, s)
      | Inr (Inl r) \<Rightarrow> (Inr r, s)
      | Inr (Inr _) \<Rightarrow>
          (case mutation_guard env ''cancel'' s of
             Some blocked \<Rightarrow> (Inr blocked, s)
           | None \<Rightarrow>
               (case cancel_answer answer of
                  Some r \<Rightarrow> (Inr r, s)
                | None \<Rightarrow> cancel_finish env oid s)))"

record modify_request =
  mr_order_id :: string
  mr_quantity :: "int option"
  mr_price :: "rat option"
  mr_trigger_price :: "rat option"
  mr_order_type :: "order_type option"
  mr_validity :: "time_in_force option"
  mr_product_type :: "product_type option"

definition apply_modify_fields :: "order \<Rightarrow> modify_request \<Rightarrow> order" where
  "apply_modify_fields ord r =
     (let o1 = (case mr_price r of None \<Rightarrow> ord | Some p \<Rightarrow> order_with_price ord p);
          o2 = (case mr_quantity r of None \<Rightarrow> o1 | Some q \<Rightarrow> order_with_quantity o1 (of_int q))
      in case mr_order_type r of None \<Rightarrow> o2 | Some t \<Rightarrow> order_with_order_type o2 t)"

definition modify_begin :: "'l oms_env \<Rightarrow> modify_request \<Rightarrow> 'l oms \<Rightarrow> (order_result + order) res" where
  "modify_begin env r s =
     (case find_live env (mr_order_id r) s of
        Inr (Inr ord) \<Rightarrow> (case mutation_guard env ''modify'' s of Some b \<Rightarrow> Inr (Inl b) | None \<Rightarrow> Inr (Inr ord))
      | x \<Rightarrow> x)"

fun modify_answer :: "reply \<Rightarrow> order_result option" where
  "modify_answer (ReplyFail m) = Some (fail_with (Because (if m = [] then ''broker modify failed'' else m)))"
| "modify_answer (ReplyRaise e) = Some (fail_with (Because (exn_text e)))"
| "modify_answer _ = None"

text \<open>The second critical section writes back the order read in the first one.\<close>

definition modify_finish :: "'l oms_env \<Rightarrow> order \<Rightarrow> modify_request \<Rightarrow> 'l oms \<Rightarrow> order_result \<times> 'l oms" where
  "modify_finish env ord r s =
     (let updated = apply_modify_fields ord r in
      (ok_order updated None, publish env (OrderUpdated updated None) (store_order updated s)))"

definition modify_order :: "'l oms_env \<Rightarrow> modify_request \<Rightarrow> reply \<Rightarrow> 'l oms \<Rightarrow> order_result res \<times> 'l oms" where
  "modify_order env r answer s =
     (case modify_begin env r s of
        Inl e \<Rightarrow> (Inl e, s)
      | Inr (Inl res) \<Rightarrow> (Inr res, s)
      | Inr (Inr ord) \<Rightarrow>
          (case modify_answer answer of
             Some res \<Rightarrow> (Inr res, s)
           | None \<Rightarrow> (let (res, s') = modify_finish env ord r s in (Inr res, s'))))"

end
