(* ===== verification/Order_Manager.thy ===== *)
theory Order_Manager
  imports Order_Lifecycle
begin

text \<open>
  The order manager (\<open>application/oms/order_manager.py\<close>): placement, updates, fills,
  queries, the handlers of bus events, start-up from the order store, and the interleaving
  of placements by several threads.
\<close>

section \<open>Operations\<close>

definition persist_order :: "'l oms_env \<Rightarrow> order \<Rightarrow> 'l oms \<Rightarrow> 'l oms" where
  "persist_order env ord s =
     (case om_store s of
        None \<Rightarrow> s
      | Some d \<Rightarrow> if ev_store_ok env then s\<lparr>om_store := Some (dict_put d (o_order_id ord) ord)\<rparr> else s)"

text \<open>\<open>_release_pending\<close>: the reservation of the guard and the pending exposure.\<close>

definition release_all :: "string \<Rightarrow> 'l oms \<Rightarrow> 'l oms" where
  "release_all c s =
     (release_reservation c s)\<lparr>om_risk := map_option (\<lambda>rm. rk_release_pending rm (Some c)) (om_risk s)\<rparr>"

definition finish_place :: "'l oms_env \<Rightarrow> command \<Rightarrow> order \<Rightarrow> 'l oms \<Rightarrow> order_result \<times> 'l oms" where
  "finish_place env c ord s =
     (let s1 = persist_order env ord (record_and_publish env c ord s) in
      (ok_order ord (Some ACCEPTED), s1\<lparr>om_placed := Suc (om_placed s1)\<rparr>))"

definition place_order ::
  "'l oms_env \<Rightarrow> string \<Rightarrow> command \<Rightarrow> broker option \<Rightarrow> 'l oms \<Rightarrow> order_result res \<times> 'l oms" where
  "place_order env fresh_id c submit s =
     (let cid = cm_correlation_id c in
      case check_and_reserve env fresh_id cid s of
        (Inl e, s1) \<Rightarrow> (Inl e, s1)
      | (Inr (Inl r), s1) \<Rightarrow> (Inr r, s1)
      | (Inr (Inr oid), s1) \<Rightarrow>
          (case build_and_validate env oid c s1 of
             (Inl e, s2) \<Rightarrow> (Inl e, release_all cid s2)
           | (Inr (Inl r), s2) \<Rightarrow> (Inr r, release_all cid s2)
           | (Inr (Inr ord), s2) \<Rightarrow>
               (case submit_to_broker env c ord submit s2 of
                  (Inl e, s3) \<Rightarrow> (Inl e, release_all cid s3)
                | (Inr (Inl r), s3) \<Rightarrow> (Inr r, release_all cid s3)
                | (Inr (Inr bord), s3) \<Rightarrow> (let (r, s4) = finish_place env c bord s3 in (Inr r, s4)))))"

definition upsert_order :: "'l oms_env \<Rightarrow> order \<Rightarrow> 'l oms \<Rightarrow> exn option \<times> 'l oms" where
  "upsert_order env ord s =
     (case lifecycle_upsert env ord s of
        (Some e, s1) \<Rightarrow> (Some e, s1)
      | (None, s1) \<Rightarrow>
          (let s2 = persist_order env ord s1 in
           case om_risk s2 of
             None \<Rightarrow> (None, s2)
           | Some rm \<Rightarrow>
               (case ev_is_terminal env (o_status ord) of
                  Inl e \<Rightarrow> (Some e, s2)
                | Inr b \<Rightarrow> (None, if b then s2\<lparr>om_risk := Some (rk_release_pending rm (o_correlation_id ord))\<rparr> else s2))))"

text \<open>After an accepted trade: persist, reduce the pending exposure, release it for a final order.\<close>

definition after_trade :: "'l oms_env \<Rightarrow> trade \<Rightarrow> order \<Rightarrow> 'l oms \<Rightarrow> exn option \<times> 'l oms" where
  "after_trade env t ord s =
     (let s1 = persist_order env ord s in
      case om_risk s1 of
        None \<Rightarrow> (None, s1)
      | Some rm \<Rightarrow>
          (let rm1 = (case truthy (o_correlation_id ord) of
                 None \<Rightarrow> rm | Some c \<Rightarrow> rk_reduce_pending rm c (trunc_int (t_quantity t)) (t_price t));
               s2 = s1\<lparr>om_risk := Some rm1\<rparr>
           in case ev_is_terminal env (o_status ord) of
                Inl e \<Rightarrow> (Some e, s2)
              | Inr b \<Rightarrow>
                  (None, if b then (case truthy (o_correlation_id ord) of
                      None \<Rightarrow> s2 | Some c \<Rightarrow> s2\<lparr>om_risk := Some (rk_release_pending rm1 (Some c))\<rparr>) else s2)))"

definition record_trade :: "'l oms_env \<Rightarrow> trade \<Rightarrow> 'l oms \<Rightarrow> bool res \<times> 'l oms" where
  "record_trade env t s =
     (case recorder_record_trade env t s of
        (Inr True, s1) \<Rightarrow>
          (case dict_get (om_orders s1) (t_order_id t) of
             None \<Rightarrow> (Inr True, s1)
           | Some ord \<Rightarrow>
               (case after_trade env t ord s1 of
                  (Some e, s2) \<Rightarrow> (Inl e, s2)
                | (None, s2) \<Rightarrow> (Inr True, s2)))
      | r \<Rightarrow> r)"

definition get_order :: "'l oms \<Rightarrow> string \<Rightarrow> order option" where
  "get_order s oid = dict_get (om_orders s) oid"

definition get_order_by_correlation :: "'l oms \<Rightarrow> string \<Rightarrow> order option" where
  "get_order_by_correlation s c = dict_get (om_by_corr s) c"

definition get_orders :: "'l oms \<Rightarrow> string option \<Rightarrow> order_status option \<Rightarrow> order list" where
  "get_orders s sy st =
     filter (\<lambda>ord. (case sy of None \<Rightarrow> True | Some x \<Rightarrow> o_symbol ord = normalize_symbol x) \<and>
                   (case st of None \<Rightarrow> True | Some x \<Rightarrow> o_status ord = x))
       (dict_values (om_orders s))"

text \<open>
  The handlers of bus events. \<open>reentered\<close>: the handler is already active on this thread.
  The payload is an order or trade, or does not parse. Value errors are logged and dropped.
\<close>

definition on_order_update :: "'l oms_env \<Rightarrow> bool \<Rightarrow> order res \<Rightarrow> 'l oms \<Rightarrow> exn option \<times> 'l oms" where
  "on_order_update env reentered payload s =
     (if reentered then (None, s)
      else case (case payload of Inl e \<Rightarrow> (Some e, s) | Inr ord \<Rightarrow> upsert_order env ord s) of
             (Some e, s1) \<Rightarrow> (if is_value_error e then None else Some e, s1)
           | (None, s1) \<Rightarrow> (None, s1))"

definition on_trade :: "'l oms_env \<Rightarrow> bool \<Rightarrow> trade res \<Rightarrow> 'l oms \<Rightarrow> bool res \<times> 'l oms" where
  "on_trade env reentered payload s =
     (if reentered then (Inr False, s)
      else case (case payload of Inl e \<Rightarrow> (Inl e, s) | Inr t \<Rightarrow> record_trade env t s) of
             (Inl e, s1) \<Rightarrow> (if is_value_error e then Inr False else Inl e, s1)
           | r \<Rightarrow> r)"

section \<open>Start-up\<close>

definition hydrate_one ::
  "order \<Rightarrow> (string, order) dict \<times> (string, order) dict \<Rightarrow> (string, order) dict \<times> (string, order) dict" where
  "hydrate_one ord ab =
     (dict_put (fst ab) (o_order_id ord) ord,
      case truthy (o_correlation_id ord) of None \<Rightarrow> snd ab | Some c \<Rightarrow> dict_put (snd ab) c ord)"

definition hydrate :: "order list \<Rightarrow> (string, order) dict \<times> (string, order) dict" where
  "hydrate stored = fold hydrate_one stored ([], [])"

definition oms_init ::
  "bool \<Rightarrow> (string, order) dict option \<Rightarrow> trade_repo option \<Rightarrow> 'l \<Rightarrow> risk_manager option \<Rightarrow> bool \<Rightarrow> 'l oms" where
  "oms_init enforce store repo ledger risk gauge =
     (let (a, b) = (case store of None \<Rightarrow> ([], []) | Some d \<Rightarrow> hydrate (dict_values d)) in
      \<lparr>om_orders = a, om_by_corr = b, om_buffer = [], om_trades_processed = 0, om_trades_duplicated = 0,
       om_reducer = fr_init, om_repo = repo, om_ledger = ledger, om_validator = osv_init enforce, om_reserved = [],
       om_store = store, om_risk = risk, om_active = (if gauge then Some 0 else None), om_placed = 0,
       om_gated = False, om_broker = [], om_events = []\<rparr>)"

text \<open>
  A restart keeps the order store, the repository's file and the ledger; the log of broker
  calls belongs to the broker and goes on.
\<close>

definition oms_restart :: "bool \<Rightarrow> risk_manager option \<Rightarrow> 'l oms \<Rightarrow> 'l oms" where
  "oms_restart enforce risk s =
     (oms_init enforce (om_store s) (map_option repo_restart (om_repo s)) (om_ledger s) risk (om_active s \<noteq> None))
       \<lparr>om_broker := om_broker s\<rparr>"

section \<open>Facts about placement\<close>

lemma release_all_reserved [simp]: "dict_get (om_reserved (release_all c s)) c = None"
  by (simp add: release_all_def release_reservation_def)

lemma release_all_pending:
  "c \<noteq> [] \<Longrightarrow> om_risk (release_all c s) = Some rm \<Longrightarrow> dict_get (mc_pending (rk_margin rm)) c = None"
  by (auto simp: release_all_def release_reservation_def rk_release_pending_def mc_release_def mc_drop_def)

lemma finish_place_fields:
  assumes "finish_place env c ord s = (r, s')"
  shows "r = ok_order ord (Some ACCEPTED)" "dict_get (om_reserved s') (cm_correlation_id c) = None"
    "dict_get (om_by_corr s') (cm_correlation_id c) = Some ord" "dict_get (om_orders s') (o_order_id ord) = Some ord"
  using assms
  by (auto simp: finish_place_def record_and_publish_def persist_order_def store_under_def release_reservation_def Let_def
      split: option.splits)

text \<open>What the phases leave of the ledger and of the broker's log.\<close>

lemma reserve_ledger:
  "check_and_reserve env fid c s = (res, s') \<Longrightarrow> om_ledger s' = om_ledger s \<and> om_broker s' = om_broker s \<and>
     (\<forall>r. res = Inr (Inl r) \<longrightarrow> om_risk s' = om_risk s)"
  by (auto simp: check_and_reserve_def lookup_durable_order_def Let_def split: option.splits sum.splits prod.splits if_splits)

lemma validate_ledger:
  "build_and_validate env oid c s = (res, s') \<Longrightarrow> om_ledger s' = om_ledger s \<and> om_broker s' = om_broker s \<and>
     (\<forall>r. res = Inr (Inl r) \<longrightarrow> \<not> or_success r)"
  by (auto simp: build_and_validate_def Let_def fail_with_def split: option.splits sum.splits prod.splits risk_result.splits)

lemma release_all_ledger [simp]:
  "om_ledger (release_all c s) = om_ledger s" "om_broker (release_all c s) = om_broker s"
  by (simp_all add: release_all_def release_reservation_def)

lemma store_under_fields [simp]:
  "om_ledger (store_under c ord s) = om_ledger s" "om_broker (store_under c ord s) = om_broker s"
  "om_risk (store_under c ord s) = om_risk s"
  by (simp_all add: store_under_def)

text \<open>Behind the SQLite ledger the submission ends before the broker is called.\<close>

lemma sqlite_begin:
  "ev_port env = Some sql_port \<Longrightarrow> sl_intents (om_ledger s) = [] \<Longrightarrow>
   (\<exists>e. begin_submit env c ord s = (Inl e, s)) \<or>
   begin_submit env c ord s = (Inr (Some ProgrammingError), store_under (cm_correlation_id c) ord s)"
  by (auto simp: begin_submit_def sql_port_def sql_port_with_def sql_record_intent_def sql_bind_quantity_def store_under_def
      split: sum.split)

lemma sqlite_unknown:
  "ev_port env = Some sql_port \<Longrightarrow> settle_unknown env c ord e s = (res, s') \<Longrightarrow>
   om_broker s' = om_broker s \<and> sl_intents (om_ledger s') = sl_intents (om_ledger s) \<and>
   (\<forall>r. res \<noteq> Inr (Inr r)) \<and> (\<forall>r. res = Inr (Inl r) \<longrightarrow> \<not> or_success r)"
  by (auto simp: settle_unknown_def record_outcome_def sql_port_def sql_port_with_def sql_record_outcome_def unknown_result_def
      Let_def split: sum.splits)

lemma sqlite_submit:
  assumes "ev_port env = Some sql_port" "sl_intents (om_ledger s) = []" "submit_to_broker env c ord (Some f) s = (res, s')"
  shows "om_broker s' = om_broker s \<and> sl_intents (om_ledger s') = [] \<and>
    (\<forall>r. res \<noteq> Inr (Inr r)) \<and> (\<forall>r. res = Inr (Inl r) \<longrightarrow> \<not> or_success r)"
proof (cases "mutation_guard env ''place'' s")
  case (Some b)
  then have "\<not> or_success b" by (auto simp: mutation_guard_def fail_with_def split: option.splits if_splits)
  then show ?thesis using assms Some by (auto simp: submit_to_broker_def)
next
  case None
  from sqlite_begin[OF assms(1,2), of c ord] show ?thesis
  proof (elim disjE exE)
    fix e assume "begin_submit env c ord s = (Inl e, s)"
    then show ?thesis using assms None by (auto simp: submit_to_broker_def)
  next
    assume "begin_submit env c ord s = (Inr (Some ProgrammingError), store_under (cm_correlation_id c) ord s)"
    then have "settle_unknown env c ord ProgrammingError (store_under (cm_correlation_id c) ord s) = (res, s')"
      using assms(3) None by (simp add: submit_to_broker_def)
    from sqlite_unknown[OF assms(1) this] show ?thesis using assms(2) by simp
  qed
qed

section \<open>Properties\<close>

text \<open>
  C7: a placement that got past the idempotency check leaves no reservation behind, however
  it ends. When it succeeds, the order it returns is the one both indexes hold; when it is
  refused or raises, its pending exposure is released too.
\<close>

theorem placement_releases:
  "check_and_reserve env fid (cm_correlation_id c) s = (Inr (Inr oid), s1) \<and> cm_correlation_id c \<noteq> [] \<and>
   place_order env fid c f s = (res, s') \<longrightarrow>
   dict_get (om_reserved s') (cm_correlation_id c) = None \<and>
   ((\<exists>ord. res = Inr (ok_order ord (Some ACCEPTED)) \<and> dict_get (om_by_corr s') (cm_correlation_id c) = Some ord \<and>
        dict_get (om_orders s') (o_order_id ord) = Some ord) \<or>
    (\<forall>rm. om_risk s' = Some rm \<longrightarrow> dict_get (mc_pending (rk_margin rm)) (cm_correlation_id c) = None))"
proof (intro impI)
  assume a: "check_and_reserve env fid (cm_correlation_id c) s = (Inr (Inr oid), s1) \<and> cm_correlation_id c \<noteq> [] \<and>
   place_order env fid c f s = (res, s')"
  then have ne: "cm_correlation_id c \<noteq> []" by simp
  have "(\<exists>x. s' = release_all (cm_correlation_id c) x) \<or> (\<exists>ord x r. finish_place env c ord x = (r, s') \<and> res = Inr r)"
    using a by (auto simp: place_order_def Let_def split: prod.splits sum.splits)
  then show "dict_get (om_reserved s') (cm_correlation_id c) = None \<and>
   ((\<exists>ord. res = Inr (ok_order ord (Some ACCEPTED)) \<and> dict_get (om_by_corr s') (cm_correlation_id c) = Some ord \<and>
        dict_get (om_orders s') (o_order_id ord) = Some ord) \<or>
    (\<forall>rm. om_risk s' = Some rm \<longrightarrow> dict_get (mc_pending (rk_margin rm)) (cm_correlation_id c) = None))"
  proof (elim disjE exE conjE)
    fix x assume "s' = release_all (cm_correlation_id c) x"
    then show ?thesis using release_all_pending[OF ne] by (metis release_all_reserved)
  next
    fix ord x r assume f: "finish_place env c ord x = (r, s')" and r: "res = Inr r"
    show ?thesis using finish_place_fields[OF f] r by blast
  qed
qed

text \<open>A placement of ten shares, answered by the broker with an order of its own.\<close>

definition sample_command :: command where
  "sample_command = \<lparr>cm_symbol = ''INFY'', cm_exchange = ''NSE'', cm_side = BUY, cm_quantity = 10, cm_price = 100,
     cm_order_type = LIMIT, cm_product_type = INTRADAY, cm_correlation_id = ''c9''\<rparr>"

definition sample_broker :: broker where
  "sample_broker c = Inr (order_of_command ''B1'' c OPEN (Aware 0))"

lemma sample_reserved: "fst (check_and_reserve sample_oms_env ''f1'' ''c9'' sample_oms) = Inr (Inr ''OM-f1'')"
  by code_simp

lemma placement_releases_witness:
  "dict_get (om_reserved (snd (place_order sample_oms_env ''f1'' sample_command (Some sample_broker) sample_oms))) ''c9'' = None"
  using placement_releases[of sample_oms_env "''f1''" sample_command sample_oms "''OM-f1''"
      "snd (check_and_reserve sample_oms_env ''f1'' ''c9'' sample_oms)" "Some sample_broker"
      "fst (place_order sample_oms_env ''f1'' sample_command (Some sample_broker) sample_oms)"
      "snd (place_order sample_oms_env ''f1'' sample_command (Some sample_broker) sample_oms)"] sample_reserved
  by (simp add: prod_eq_iff) (simp add: sample_command_def)

text \<open>Start-up keeps, under a correlation id and under an order id, the last order of the store.\<close>

definition stored_orders :: "'l oms \<Rightarrow> order list" where
  "stored_orders s = (case om_store s of None \<Rightarrow> [] | Some d \<Rightarrow> dict_values d)"

lemma find_append_or: "find P (xs @ ys) = (case find P xs of Some x \<Rightarrow> Some x | None \<Rightarrow> find P ys)"
  by (induction xs) auto

lemma hydrate_corr:
  "c \<noteq> [] \<Longrightarrow> dict_get (snd (fold hydrate_one os ab)) c =
     (case find (\<lambda>ord. o_correlation_id ord = Some c) (rev os) of Some ord \<Rightarrow> Some ord | None \<Rightarrow> dict_get (snd ab) c)"
  by (induction os arbitrary: ab) (auto simp: hydrate_one_def truthy_def find_append_or split: option.splits)

lemma hydrate_orders:
  "dict_get (fst (fold hydrate_one os ab)) oid =
     (case find (\<lambda>ord. o_order_id ord = oid) (rev os) of Some ord \<Rightarrow> Some ord | None \<Rightarrow> dict_get (fst ab) oid)"
  by (induction os arbitrary: ab) (auto simp: hydrate_one_def find_append_or split: option.splits)

lemma restart_books:
  "c \<noteq> [] \<Longrightarrow> dict_get (om_by_corr (oms_restart enforce risk s)) c = find (\<lambda>ord. o_correlation_id ord = Some c) (rev (stored_orders s))"
  "dict_get (om_orders (oms_restart enforce risk s)) oid = find (\<lambda>ord. o_order_id ord = oid) (rev (stored_orders s))"
  "om_ledger (oms_restart enforce risk s) = om_ledger s" "om_broker (oms_restart enforce risk s) = om_broker s"
  by (auto simp: oms_restart_def oms_init_def hydrate_def case_prod_beta stored_orders_def hydrate_corr hydrate_orders split: option.splits)

text \<open>
  C35: a restart does not place an order again. After it, a placement under the correlation id
  of orders in the order store is answered with the last of them, and nothing changes. When
  only the ledger has an intent under the id, the placement is answered with the last stored
  order of that intent's order id, or else with an order made from the intent in the status of
  its recorded outcome. In each case the broker is not called, and a second placement gets the
  same answer. The answer reports success even when the recorded outcome is a rejection, and
  only an unknown outcome is reported as such.
\<close>

theorem recovery_blocks_resubmission:
  "cm_correlation_id c \<noteq> [] \<longrightarrow>
   (let s1 = oms_restart enforce risk s; (res, s2) = place_order env fid c f s1;
        kept = find (\<lambda>ord. o_correlation_id ord = Some (cm_correlation_id c)) (rev (stored_orders s)) in
    (\<forall>ord. kept = Some ord \<longrightarrow> res = Inr (answer_existing ord) \<and> s2 = s1) \<and>
    (kept = None \<and> ev_port env = Some port \<and> lg_intent_for_correlation port (om_ledger s) (cm_correlation_id c) = Inr (Some i) \<and>
       lg_outcome_for port (om_ledger s) (in_intent_id i) = Inr u \<longrightarrow>
     (let ord = (case find (\<lambda>ord. o_order_id ord = in_order_id i) (rev (stored_orders s)) of
           Some ord \<Rightarrow> ord | None \<Rightarrow> order_of_intent i (recovered_status u)) in
      res = Inr (answer_existing ord) \<and> om_broker s2 = om_broker s \<and> om_ledger s2 = om_ledger s \<and>
      place_order env2 fid2 c f2 s2 = (Inr (answer_existing ord), s2) \<and>
      (o_status ord \<noteq> UNKNOWN \<longrightarrow> or_success (answer_existing ord)))))"
proof (intro impI)
  assume ne: "cm_correlation_id c \<noteq> []"
  let ?c = "cm_correlation_id c" and ?s1 = "oms_restart enforce risk s"
  note b = restart_books(1)[OF ne, of enforce risk s] restart_books(2-4)[of enforce risk s]
  have known: "place_order env fid c f x = (Inr (answer_existing ord), x)" if "dict_get (om_by_corr x) ?c = Some ord"
    for env :: "'a oms_env" and fid f x ord
    using that by (simp add: place_order_def check_and_reserve_def)
  show "let s1 = ?s1; (res, s2) = place_order env fid c f s1;
        kept = find (\<lambda>ord. o_correlation_id ord = Some ?c) (rev (stored_orders s)) in
    (\<forall>ord. kept = Some ord \<longrightarrow> res = Inr (answer_existing ord) \<and> s2 = s1) \<and>
    (kept = None \<and> ev_port env = Some port \<and> lg_intent_for_correlation port (om_ledger s) ?c = Inr (Some i) \<and>
       lg_outcome_for port (om_ledger s) (in_intent_id i) = Inr u \<longrightarrow>
     (let ord = (case find (\<lambda>ord. o_order_id ord = in_order_id i) (rev (stored_orders s)) of
           Some ord \<Rightarrow> ord | None \<Rightarrow> order_of_intent i (recovered_status u)) in
      res = Inr (answer_existing ord) \<and> om_broker s2 = om_broker s \<and> om_ledger s2 = om_ledger s \<and>
      place_order env2 fid2 c f2 s2 = (Inr (answer_existing ord), s2) \<and>
      (o_status ord \<noteq> UNKNOWN \<longrightarrow> or_success (answer_existing ord))))"
  proof (cases "find (\<lambda>ord. o_correlation_id ord = Some ?c) (rev (stored_orders s))")
    case (Some ord)
    then show ?thesis using known[of ?s1 ord env fid f] b(1) by (simp add: Let_def)
  next
    case None
    have r: "\<exists>s2. place_order env fid c f ?s1 = (Inr (answer_existing ord), s2) \<and> om_broker s2 = om_broker s \<and> om_ledger s2 = om_ledger s \<and>
        dict_get (om_by_corr s2) ?c = Some ord"
      if "ev_port env = Some port" "lg_intent_for_correlation port (om_ledger s) ?c = Inr (Some i)"
        "lg_outcome_for port (om_ledger s) (in_intent_id i) = Inr u"
        "ord = (case find (\<lambda>ord. o_order_id ord = in_order_id i) (rev (stored_orders s)) of
           Some ord \<Rightarrow> ord | None \<Rightarrow> order_of_intent i (recovered_status u))" for ord
      using that None b by (auto simp: place_order_def check_and_reserve_def lookup_durable_order_def Let_def split: option.splits)
    have ok: "o_status ord \<noteq> UNKNOWN \<Longrightarrow> or_success (answer_existing ord)" for ord by (simp add: answer_existing_def ok_order_def)
    show ?thesis
    proof (cases "ev_port env = Some port \<and> lg_intent_for_correlation port (om_ledger s) ?c = Inr (Some i) \<and>
        lg_outcome_for port (om_ledger s) (in_intent_id i) = Inr u")
      case True
      with r[OF _ _ _ refl] obtain s2 where s2: "place_order env fid c f ?s1 =
          (Inr (answer_existing (case find (\<lambda>ord. o_order_id ord = in_order_id i) (rev (stored_orders s)) of
            Some ord \<Rightarrow> ord | None \<Rightarrow> order_of_intent i (recovered_status u))), s2)"
        "om_broker s2 = om_broker s" "om_ledger s2 = om_ledger s"
        "dict_get (om_by_corr s2) ?c = Some (case find (\<lambda>ord. o_order_id ord = in_order_id i) (rev (stored_orders s)) of
            Some ord \<Rightarrow> ord | None \<Rightarrow> order_of_intent i (recovered_status u))" by blast
      from known[OF s2(4)] show ?thesis unfolding Let_def s2(1) prod.case None using s2(2,3) ok by simp
    next
      case False
      then show ?thesis using None by (auto simp: Let_def case_prod_beta)
    qed
  qed
qed

text \<open>An environment over the SQLite ledger, with the given port.\<close>

definition sql_env :: "sql_ledger ledger_port \<Rightarrow> sql_ledger oms_env" where
  "sql_env port =
     \<lparr>ev_port = Some port, ev_now = Aware 0, ev_time = 0, ev_write = Written, ev_store_ok = True, ev_bus = False,
      ev_is_terminal = order_status_is_terminal, ev_risk = sample_env, ev_production = False,
      ev_ledger_authority = True, ev_evicted = False, ev_gate = (True, None)\<rparr>"

text \<open>
  An order in the store; and an intent that the SQLite ledger holds, as callers other than the
  order manager write it, with a recorded rejection.
\<close>

definition sample_intent :: "int intent" where
  "sample_intent = \<lparr>in_intent_id = ''I1'', in_order_id = ''O7'', in_correlation_id = ''c9'', in_symbol = ''INFY'', in_exchange = ''NSE'',
     in_side = BUY, in_quantity = 10, in_price = DecimalPrice 100, in_order_type = LIMIT, in_product_type = INTRADAY, in_created_at = Aware 0\<rparr>"

definition sample_outcome :: outcome where
  "sample_outcome = \<lparr>so_intent_id = ''I1'', so_state = SUB_REJECTED, so_broker_order_id = [], so_reason = ''no'', so_observed_at = Some (Aware 0)\<rparr>"

definition sample_sql_oms :: "sql_ledger oms" where
  "sample_sql_oms = oms_init True None None
     (sql_record_outcome (snd (sql_record_intent sql_bind_int sql_init sample_intent)) sample_outcome) None False"

lemma sample_sql_facts:
  "lg_intent_for_correlation sql_port (om_ledger sample_sql_oms) ''c9'' = Inr (Some (intent_objects sample_intent))"
  "lg_outcome_for sql_port (om_ledger sample_sql_oms) ''I1'' = Inr (Some sample_outcome)" "stored_orders sample_sql_oms = []"
  by code_simp+

lemma recovery_blocks_resubmission_witness:
  "(let s = sample_oms\<lparr>om_store := Some [(''B1'', order_of_command ''B1'' sample_command OPEN (Aware 0))]\<rparr> in
    fst (place_order sample_oms_env ''f2'' sample_command (Some sample_broker) (oms_restart True None s)) =
      Inr (answer_existing (order_of_command ''B1'' sample_command OPEN (Aware 0)))) \<and>
   (let (res, s2) = place_order (sql_env sql_port) ''f2'' sample_command (Some sample_broker) (oms_restart True None sample_sql_oms) in
    res = Inr (answer_existing (order_of_intent (intent_objects sample_intent) REJECTED)) \<and>
    or_success (answer_existing (order_of_intent (intent_objects sample_intent) REJECTED)) \<and> om_broker s2 = [])"
proof (rule conjI)
  have c: "cm_correlation_id sample_command = ''c9''" by (simp add: sample_command_def)
  let ?o = "order_of_command ''B1'' sample_command OPEN (Aware 0)"
  let ?s = "sample_oms\<lparr>om_store := Some [(''B1'', ?o)]\<rparr>"
  have st: "find (\<lambda>ord. o_correlation_id ord = Some (cm_correlation_id sample_command)) (rev (stored_orders ?s)) = Some ?o"
    by (simp add: stored_orders_def dict_values_def order_of_command_def)
  show "let s = ?s in fst (place_order sample_oms_env ''f2'' sample_command (Some sample_broker) (oms_restart True None s)) = Inr (answer_existing ?o)"
    using recovery_blocks_resubmission[of sample_command True None ?s sample_oms_env "''f2''" "Some sample_broker"] c st
    by (simp add: Let_def case_prod_beta)
  have u: "in_intent_id (intent_objects sample_intent) = ''I1''" "recovered_status (Some sample_outcome) = REJECTED"
    "o_status (order_of_intent (intent_objects sample_intent) REJECTED) = REJECTED" "om_broker sample_sql_oms = []" by code_simp+
  have p: "ev_port (sql_env sql_port) = Some sql_port" by (simp add: sql_env_def)
  show "let (res, s2) = place_order (sql_env sql_port) ''f2'' sample_command (Some sample_broker) (oms_restart True None sample_sql_oms) in
    res = Inr (answer_existing (order_of_intent (intent_objects sample_intent) REJECTED)) \<and>
    or_success (answer_existing (order_of_intent (intent_objects sample_intent) REJECTED)) \<and> om_broker s2 = []"
    using recovery_blocks_resubmission[of sample_command True None sample_sql_oms "sql_env sql_port" "''f2''" "Some sample_broker" sql_port
        "intent_objects sample_intent" "Some sample_outcome" "sql_env sql_port" "''f2''" "Some sample_broker"] c u p sample_sql_facts
    by (simp add: Let_def case_prod_beta)
qed

text \<open>
  With the SQLite ledger, an order manager submits nothing. A placement that gets past
  the idempotency check never reaches the broker and never succeeds, and no intent is ever
  stored. With a driver that does bind quantity objects, the first placement succeeds; after
  a restart without an order store the intent cannot be read back, so the same command is
  not answered with its order: it is not submitted again either, since the ledger refuses the
  second intent, but an accepted order is reported as unknown.
\<close>

theorem sqlite_ledger_never_submits:
  "(ev_port env = Some sql_port \<and> sl_intents (om_ledger s) = [] \<longrightarrow>
    (let (res, s') = place_order env fid c (Some f) s in
     om_broker s' = om_broker s \<and> sl_intents (om_ledger s') = [] \<and>
     (\<forall>oid s1. check_and_reserve env fid (cm_correlation_id c) s = (Inr (Inr oid), s1) \<longrightarrow>
        (\<forall>r. res = Inr r \<longrightarrow> \<not> or_success r)))) \<and>
   (let env1 = sql_env (sql_port_with (\<lambda>q. Some (trunc_int q)));
        s1 = snd (place_order env1 ''f1'' sample_command (Some sample_broker) (oms_init True None None sql_init None False));
        (res, s2) = place_order env1 ''f2'' sample_command (Some sample_broker) (oms_restart True None s1)
    in sl_intents (om_ledger s1) \<noteq> [] \<and> om_broker s1 = [sample_command] \<and> om_broker s2 = [sample_command] \<and>
       map_sum id or_success res = Inr False \<and> map_sum id or_state res = Inr (Some SUB_UNKNOWN))"
proof (rule conjI)
  show "ev_port env = Some sql_port \<and> sl_intents (om_ledger s) = [] \<longrightarrow>
    (let (res, s') = place_order env fid c (Some f) s in
     om_broker s' = om_broker s \<and> sl_intents (om_ledger s') = [] \<and>
     (\<forall>oid s1. check_and_reserve env fid (cm_correlation_id c) s = (Inr (Inr oid), s1) \<longrightarrow>
        (\<forall>r. res = Inr r \<longrightarrow> \<not> or_success r)))"
  proof (intro impI)
    assume a: "ev_port env = Some sql_port \<and> sl_intents (om_ledger s) = []"
    obtain r0 s1 where 1: "check_and_reserve env fid (cm_correlation_id c) s = (r0, s1)" by fastforce
    note l1 = reserve_ledger[OF 1]
    show "let (res, s') = place_order env fid c (Some f) s in
     om_broker s' = om_broker s \<and> sl_intents (om_ledger s') = [] \<and>
     (\<forall>oid s1. check_and_reserve env fid (cm_correlation_id c) s = (Inr (Inr oid), s1) \<longrightarrow>
        (\<forall>r. res = Inr r \<longrightarrow> \<not> or_success r))"
    proof (cases "\<exists>oid. r0 = Inr (Inr oid)")
      case False
      then show ?thesis using a l1 by (auto simp: place_order_def 1 Let_def split: sum.splits)
    next
      case True
      then obtain oid where oid: "r0 = Inr (Inr oid)" by blast
      obtain r2 s2 where 2: "build_and_validate env oid c s1 = (r2, s2)" by fastforce
      note l2 = validate_ledger[OF 2]
      show ?thesis
      proof (cases "\<exists>ord. r2 = Inr (Inr ord)")
        case False
        then show ?thesis using a l1 l2 by (auto simp: place_order_def 1 oid 2 Let_def split: sum.splits)
      next
        case True
        then obtain ord where ord: "r2 = Inr (Inr ord)" by blast
        obtain r3 s3 where 3: "submit_to_broker env c ord (Some f) s2 = (r3, s3)" by fastforce
        have "sl_intents (om_ledger s2) = []" "ev_port env = Some sql_port" using a l1 l2 by simp_all
        note l3 = sqlite_submit[OF this(2,1) 3]
        show ?thesis using a l1 l2 l3 by (auto simp: place_order_def 1 oid 2 ord 3 Let_def split: sum.splits)
      qed
    qed
  qed
qed code_simp

lemma sqlite_ledger_never_submits_witness:
  "om_broker (snd (place_order (sql_env sql_port) ''f1'' sample_command (Some sample_broker) (oms_init True None None sql_init None False))) = []"
proof -
  have "ev_port (sql_env sql_port) = Some sql_port" "sl_intents (om_ledger (oms_init True None None sql_init None False)) = []"
    "om_broker (oms_init True None None sql_init None False) = []"
    by (simp_all add: sql_env_def oms_init_def sql_init_def)
  then show ?thesis
    using sqlite_ledger_never_submits[of "sql_env sql_port" "oms_init True None None sql_init None False" "''f1''" sample_command sample_broker]
    by (simp add: case_prod_beta Let_def)
qed

end
