(* ===== verification/Placement.thy ===== *)
theory Placement
  imports Order_Manager
begin

text \<open>
  Placements by several threads. \<open>OrderManager.place_order\<close> holds its lock only for single
  state changes, so other threads run between its phases. A thread is a command, the broker
  it submits to and a program counter; one step of a thread is one phase, and between two
  phases any other operation of the core may happen.
\<close>

section \<open>Phases\<close>

datatype pc =
    Started
  | Reserved string
  | Checked order
  | Guarded order
  | Stubbed order
  | Answered order "order res"
  | Placing order
  | Releasing "order_result res"
  | Finished "order_result res"

fun advance ::
  "'l oms_env \<Rightarrow> string \<Rightarrow> command \<Rightarrow> broker option \<Rightarrow> pc \<Rightarrow> 'l oms \<Rightarrow> pc \<times> 'l oms" where
  "advance env fresh_id c f Started s =
     (case check_and_reserve env fresh_id (cm_correlation_id c) s of
        (Inl e, s1) \<Rightarrow> (Finished (Inl e), s1)
      | (Inr (Inl r), s1) \<Rightarrow> (Finished (Inr r), s1)
      | (Inr (Inr oid), s1) \<Rightarrow> (Reserved oid, s1))"
| "advance env fresh_id c f (Reserved oid) s =
     (case build_and_validate env oid c s of
        (Inl e, s1) \<Rightarrow> (Releasing (Inl e), s1)
      | (Inr (Inl r), s1) \<Rightarrow> (Releasing (Inr r), s1)
      | (Inr (Inr ord), s1) \<Rightarrow> (Checked ord, s1))"
| "advance env fresh_id c f (Checked ord) s =
     (case mutation_guard env ''place'' s of
        Some blocked \<Rightarrow> (Releasing (Inr blocked), s)
      | None \<Rightarrow> (if f = None then Placing ord else Guarded ord, s))"
| "advance env fresh_id c f (Guarded ord) s =
     (case begin_submit env c ord s of
        (Inl e, s1) \<Rightarrow> (Releasing (Inl e), s1)
      | (Inr (Some e), s1) \<Rightarrow> (Answered ord (Inl e), s1)
      | (Inr None, s1) \<Rightarrow> (Stubbed ord, s1))"
| "advance env fresh_id c f (Stubbed ord) s =
     (case f of
        None \<Rightarrow> (Placing ord, s)
      | Some g \<Rightarrow> (let (answer, s1) = call_broker g c s in (Answered ord answer, s1)))"
| "advance env fresh_id c f (Answered ord answer) s =
     (case settle env c ord answer s of
        (Inl e, s1) \<Rightarrow> (Releasing (Inl e), s1)
      | (Inr (Inl r), s1) \<Rightarrow> (Releasing (Inr r), s1)
      | (Inr (Inr bord), s1) \<Rightarrow> (Placing bord, s1))"
| "advance env fresh_id c f (Placing ord) s = (let (r, s1) = finish_place env c ord s in (Finished (Inr r), s1))"
| "advance env fresh_id c f (Releasing r) s = (Finished r, release_all (cm_correlation_id c) s)"
| "advance env fresh_id c f (Finished r) s = (Finished r, s)"

type_synonym thread = "command \<times> broker option \<times> pc"

type_synonym 'l config = "'l oms \<times> thread list"

fun sched_step :: "'l config \<Rightarrow> nat \<times> 'l oms_env \<times> string \<Rightarrow> 'l config" where
  "sched_step (s, ts) (i, env, fresh_id) =
     (if i < length ts
      then (case ts ! i of (c, f, p) \<Rightarrow> let (p', s') = advance env fresh_id c f p s in (s', ts[i := (c, f, p')]))
      else (s, ts))"

section \<open>Termination\<close>

fun pc_rank :: "pc \<Rightarrow> nat" where
  "pc_rank Started = 7"
| "pc_rank (Reserved _) = 6"
| "pc_rank (Checked _) = 5"
| "pc_rank (Guarded _) = 4"
| "pc_rank (Stubbed _) = 3"
| "pc_rank (Answered _ _) = 2"
| "pc_rank (Placing _) = 1"
| "pc_rank (Releasing _) = 1"
| "pc_rank (Finished _) = 0"

lemma pc_rank_0 [simp]: "pc_rank p = 0 \<longleftrightarrow> (\<exists>r. p = Finished r)"
  by (cases p) simp_all

lemma advance_rank: "pc_rank p \<noteq> 0 \<Longrightarrow> pc_rank (fst (advance env fid c f p s)) < pc_rank p"
  by (cases p) (auto split: prod.splits sum.splits option.splits)

lemma advance_done: "pc_rank p = 0 \<Longrightarrow> fst (advance env fid c f p s) = p"
  by auto

definition thread_rank :: "'l config \<Rightarrow> nat \<Rightarrow> nat" where
  "thread_rank k i = pc_rank (snd (snd (snd k ! i)))"

lemma sched_length [simp]: "length (snd (sched_step k x)) = length (snd k)"
  by (cases k; cases x) (auto simp: Let_def split: prod.splits)

lemma sched_rank:
  "i < length (snd k) \<Longrightarrow>
   thread_rank (sched_step k (j, env, fid)) i \<le> thread_rank k i - (if j = i then 1 else 0)"
proof -
  obtain s ts where k: "k = (s, ts)" by (cases k)
  assume i: "i < length (snd k)"
  obtain c f p where t: "ts ! i = (c, f, p)" by (cases "ts ! i")
  obtain p' s' where a: "advance env fid c f p s = (p', s')" by fastforce
  have "pc_rank p' \<le> pc_rank p - 1"
    using advance_rank[of p env fid c f s] advance_done[of p env fid c f s] a
    by (cases "pc_rank p = 0") (auto simp del: pc_rank_0)
  then show ?thesis using i t a by (cases "j = i") (auto simp: k thread_rank_def Let_def nth_list_update split: prod.splits)
qed

lemma run_rank:
  "i < length (snd k) \<Longrightarrow>
   thread_rank (run_ops sched_step k xs) i \<le> thread_rank k i - length (filter (\<lambda>x. fst x = i) xs)"
proof (induction xs arbitrary: k)
  case (Cons x xs)
  obtain j env fid where x: "x = (j, env, fid)" by (cases x)
  show ?case using Cons.IH[of "sched_step k x"] Cons.prems sched_rank[OF Cons.prems, of j env fid]
    by (auto simp: x)
qed simp

lemma run_length: "length (snd (run_ops sched_step k xs)) = length (snd k)"
  by (induction xs arbitrary: k) simp_all

section \<open>Interleaving\<close>

text \<open>
  The window is a day after \<open>t0\<close>: a reservation made at \<open>t0\<close> or later has not expired
  within it.
\<close>

definition within_ttl :: "rat \<Rightarrow> 'l oms_env \<Rightarrow> bool" where
  "within_ttl t0 env \<longleftrightarrow> t0 \<le> re_monotonic (ev_risk env) \<and> re_monotonic (ev_risk env) \<le> flt_add t0 PENDING_TTL"

inductive om_step :: "rat \<Rightarrow> 'l config \<Rightarrow> 'l config \<Rightarrow> bool" for t0 where
  spawn: "om_step t0 (s, ts) (s, ts @ [(c, f, Started)])"
| thread: "i < length ts \<Longrightarrow> within_ttl t0 env \<Longrightarrow> om_step t0 (s, ts) (sched_step (s, ts) (i, env, fid))"
| update: "om_step t0 (s, ts) (snd (upsert_order env ord s), ts)"
| trade: "om_step t0 (s, ts) (snd (record_trade env t s), ts)"
| cancel: "om_step t0 (s, ts) (snd (cancel_order env oid answer s), ts)"
| modify: "om_step t0 (s, ts) (snd (modify_finish env ord r s), ts)"
| risk: "om_step t0 (s, ts) (s\<lparr>om_risk := rm\<rparr>, ts)"
| gate: "om_step t0 (s, ts) (s\<lparr>om_gated := b\<rparr>, ts)"

inductive_cases om_stepE: "om_step t0 (s, ts) k"

text \<open>
  What no operation but a placement changes: the reservations, the broker's log, and that a
  correlation id has an entry in the index.
\<close>

definition frame :: "'l oms \<Rightarrow> 'l oms \<Rightarrow> bool" where
  "frame s s' \<longleftrightarrow> om_reserved s' = om_reserved s \<and> om_broker s' = om_broker s \<and>
     (\<forall>c. dict_get (om_by_corr s) c \<noteq> None \<longrightarrow> dict_get (om_by_corr s') c \<noteq> None)"

named_theorems frames \<open>operations that keep the frame\<close>

lemma frame_refl [simp, frames]: "frame s s"
  by (simp add: frame_def)

lemma frame_trans: "frame s s' \<Longrightarrow> frame s' s'' \<Longrightarrow> frame s s''"
  by (simp add: frame_def)

lemma frame_fields [frames]:
  "frame s s' \<Longrightarrow> frame s (s'\<lparr>om_orders := a\<rparr>)" "frame s s' \<Longrightarrow> frame s (s'\<lparr>om_buffer := b\<rparr>)"
  "frame s s' \<Longrightarrow> frame s (s'\<lparr>om_trades_processed := n\<rparr>)" "frame s s' \<Longrightarrow> frame s (s'\<lparr>om_trades_duplicated := n\<rparr>)"
  "frame s s' \<Longrightarrow> frame s (s'\<lparr>om_reducer := r\<rparr>)" "frame s s' \<Longrightarrow> frame s (s'\<lparr>om_repo := p\<rparr>)"
  "frame s s' \<Longrightarrow> frame s (s'\<lparr>om_ledger := l\<rparr>)" "frame s s' \<Longrightarrow> frame s (s'\<lparr>om_validator := v\<rparr>)"
  "frame s s' \<Longrightarrow> frame s (s'\<lparr>om_store := d\<rparr>)" "frame s s' \<Longrightarrow> frame s (s'\<lparr>om_risk := rm\<rparr>)"
  "frame s s' \<Longrightarrow> frame s (s'\<lparr>om_active := i\<rparr>)" "frame s s' \<Longrightarrow> frame s (s'\<lparr>om_placed := n\<rparr>)"
  "frame s s' \<Longrightarrow> frame s (s'\<lparr>om_gated := g\<rparr>)" "frame s s' \<Longrightarrow> frame s (s'\<lparr>om_events := e\<rparr>)"
  "frame s s' \<Longrightarrow> frame s (publish env ev s')" "frame s s' \<Longrightarrow> frame s (publish_applied env u t s')"
  "frame s s' \<Longrightarrow> frame s (store_order u s')" "frame s s' \<Longrightarrow> frame s (store_under c u s')"
  "frame s s' \<Longrightarrow> frame s (persist_order env u s')" "frame s s' \<Longrightarrow> frame s (commit_fill f s')"
  by (auto simp: frame_def publish_def publish_applied_def store_order_def store_under_def persist_order_def
      commit_fill_def split: option.splits)

lemma frame_mark [frames]: "frame s s' \<Longrightarrow> frame s (snd (mark_trade env k s'))"
  by (auto simp: mark_trade_def frames split: option.split prod.split)

lemma frame_persist_fill [frames]: "frame s s' \<Longrightarrow> frame s (snd (persist_fill_to_ledger env f ord t s'))"
  by (auto simp: persist_fill_to_ledger_def frames split: option.split sum.split prod.split)

lemma frame_record_known [frames]: "frame s (snd (record_known env k ord t s))"
proof (rule record_known_cases[of env k ord t s])
  fix u l s2 res s3
  assume a: "s2 = publish_applied env u t ((store_order u (s\<lparr>om_ledger := l\<rparr>))\<lparr>om_trades_processed := Suc (om_trades_processed s)\<rparr>)"
    "mark_trade env k s2 = (res, s3)" "\<exists>r. snd (record_known env k ord t s) = s3\<lparr>om_reducer := r\<rparr>"
  obtain r where r: "snd (record_known env k ord t s) = s3\<lparr>om_reducer := r\<rparr>" using a(3) by blast
  have "frame s s2" unfolding a(1) by (intro frames)
  then have "frame s (snd (mark_trade env k s2))" by (intro frames)
  then show ?thesis unfolding r by (intro frames) (simp add: a(2))
qed (simp add: frames)

lemma frame_recorder [frames]: "frame s (snd (recorder_record_trade env t s))"
  by (auto simp: recorder_record_trade_def buffer_trade_def Let_def frames split: sum.split option.split)

text \<open>The same facts, read off the equation of a call.\<close>

lemma frame_eqs:
  "persist_fill_to_ledger env f ord t s' = (e, s'') \<Longrightarrow> frame s s' \<Longrightarrow> frame s s''"
  "mark_trade env k s' = (res, s'') \<Longrightarrow> frame s s' \<Longrightarrow> frame s s''"
  using frame_persist_fill[of s s' env f ord t] frame_mark[of s s' env k] by simp_all

lemma frame_flush_known [frames]: "frame s (snd (flush_known env ko ord t s))"
  by (auto simp: flush_known_def Let_def intro!: frames split: sum.split option.split prod.split
      elim!: frame_eqs)

lemma frame_flush_all [frames]: "frame s (snd (flush_all env ts s))"
proof (induction ts arbitrary: s)
  case (Cons t ts)
  have "frame s (snd (flush_one env t s))"
    by (auto simp: flush_one_def frames split: sum.split option.split)
  then show ?case using Cons[of "snd (flush_one env t s)"]
    by (auto split: prod.split option.split intro: frame_trans)
qed simp

lemma frame_flush [frames]: "frame s s' \<Longrightarrow> frame s (snd (flush_pending_trades env oid s'))"
proof -
  assume f: "frame s s'"
  have "frame s' (snd (flush_all env ts (s'\<lparr>om_buffer := b\<rparr>)))" for ts b
    using frame_trans[OF frame_fields(2)[OF frame_refl] frame_flush_all] by blast
  then show ?thesis using f by (auto simp: flush_pending_trades_def split: option.split intro: frame_trans)
qed

lemma frame_lifecycle_upsert: "frame s (snd (lifecycle_upsert env ord s))"
  by (auto simp: lifecycle_upsert_def Let_def intro!: frames split: option.split sum.split prod.split)

lemma frame_upsert: "frame s (snd (upsert_order env ord s))"
proof -
  obtain e s1 where l: "lifecycle_upsert env ord s = (e, s1)" by fastforce
  have f: "frame s s1" using frame_lifecycle_upsert[of s env ord] by (simp add: l)
  show ?thesis using f by (auto simp: upsert_order_def l Let_def intro!: frames split: option.split sum.split)
qed

lemma frame_record_trade: "frame s (snd (record_trade env t s))"
proof -
  obtain r s1 where l: "recorder_record_trade env t s = (r, s1)" by fastforce
  have f: "frame s s1" using frame_recorder[of s env t] by (simp add: l)
  show ?thesis using f
    by (cases r) (auto simp: record_trade_def after_trade_def l Let_def intro!: frames
        split: option.split sum.split bool.split prod.split)
qed

lemma frame_cancel: "frame s (snd (cancel_order env oid answer s))"
  by (auto simp: cancel_order_def cancel_finish_def Let_def intro!: frames split: option.split sum.split)

lemma frame_modify: "frame s (snd (modify_finish env ord r s))"
  by (auto simp: modify_finish_def Let_def intro!: frames)

section \<open>The phases and the frame\<close>

lemma frame_validate: "frame s (snd (build_and_validate env oid c s))"
  by (auto simp: build_and_validate_def Let_def intro!: frames split: option.split sum.split prod.split risk_result.split)

lemma frame_begin: "frame s (snd (begin_submit env c ord s))"
  by (auto simp: begin_submit_def Let_def intro!: frames split: option.split sum.split prod.split)

lemma frame_record_outcome [frames]: "frame s s' \<Longrightarrow> frame s (snd (record_outcome env u s'))"
  by (auto simp: record_outcome_def intro!: frames split: option.split sum.split prod.split)

lemma frame_outcome_eq: "record_outcome env u s' = (e, s'') \<Longrightarrow> frame s s' \<Longrightarrow> frame s s''"
  using frame_record_outcome[of s s' env u] by simp

lemma frame_settle: "frame s (snd (settle env c ord answer s))"
  by (auto simp: settle_def settle_unknown_def settle_accepted_def Let_def split: sum.split option.split prod.split
      intro!: frames elim!: frame_outcome_eq)

lemma reserve_cases:
  assumes "check_and_reserve env fid c s = (res, s')"
  shows "om_broker s' = om_broker s \<and> (\<forall>x. dict_get (om_by_corr s) x \<noteq> None \<longrightarrow> dict_get (om_by_corr s') x \<noteq> None) \<and>
    (\<forall>x. x \<noteq> c \<longrightarrow> dict_get (om_reserved s') x = dict_get (om_reserved s) x) \<and>
    ((\<forall>oid. res \<noteq> Inr (Inr oid)) \<longrightarrow>
       dict_get (om_reserved s') c = dict_get (om_reserved s) c \<or>
       (\<exists>x. dict_get (om_reserved s) c = Some x \<and> x < re_monotonic (ev_risk env))) \<and>
    (\<forall>oid. res = Inr (Inr oid) \<longrightarrow>
       dict_get (om_by_corr s) c = None \<and>
       dict_get (om_reserved s') c = Some (flt_add (re_monotonic (ev_risk env)) PENDING_TTL) \<and>
       (\<forall>x. dict_get (om_reserved s) c = Some x \<longrightarrow> x < re_monotonic (ev_risk env)))"
proof (cases "dict_get (om_by_corr s) c")
  case None
  obtain lo s1 where l: "lookup_durable_order env c s = (lo, s1)" by fastforce
  have s1: "\<exists>a. s1 = s\<lparr>om_orders := a\<rparr>"
    using l by (auto simp: lookup_durable_order_def Let_def None split: option.splits sum.splits
        intro: exI[of _ "om_orders s"])
  then show ?thesis using assms
    by (auto simp: check_and_reserve_def None l pending_get_def pending_put_def Let_def
        split: sum.splits option.splits if_splits prod.splits)
qed (use assms in \<open>auto simp: check_and_reserve_def\<close>)

lemma reserve_parts:
  assumes "check_and_reserve env fid c s = (res, s')"
  shows "om_broker s' = om_broker s"
    and "dict_get (om_by_corr s) x \<noteq> None \<Longrightarrow> dict_get (om_by_corr s') x \<noteq> None"
    and "x \<noteq> c \<Longrightarrow> dict_get (om_reserved s') x = dict_get (om_reserved s) x"
    and "(\<And>oid. res \<noteq> Inr (Inr oid)) \<Longrightarrow> dict_get (om_reserved s') c = dict_get (om_reserved s) c \<or>
       (\<exists>x. dict_get (om_reserved s) c = Some x \<and> x < re_monotonic (ev_risk env))"
    and "res = Inr (Inr oid) \<Longrightarrow> dict_get (om_by_corr s) c = None"
    and "res = Inr (Inr oid) \<Longrightarrow> dict_get (om_reserved s') c = Some (flt_add (re_monotonic (ev_risk env)) PENDING_TTL)"
    and "res = Inr (Inr oid) \<Longrightarrow> dict_get (om_reserved s) c = Some y \<Longrightarrow> y < re_monotonic (ev_risk env)"
  using reserve_cases[OF assms] by blast+

section \<open>The invariant of the interleaving\<close>

fun holding :: "pc \<Rightarrow> bool" where
  "holding Started = False"
| "holding (Finished _) = False"
| "holding _ = True"

fun may_call :: "pc \<Rightarrow> bool" where
  "may_call (Reserved _) = True"
| "may_call (Checked _) = True"
| "may_call (Guarded _) = True"
| "may_call (Stubbed _) = True"
| "may_call _ = False"

abbreviation cid_of :: "thread \<Rightarrow> string" where
  "cid_of t \<equiv> cm_correlation_id (fst t)"

abbreviation pc_of :: "thread \<Rightarrow> pc" where
  "pc_of t \<equiv> snd (snd t)"

definition calls :: "string \<Rightarrow> 'l oms \<Rightarrow> nat" where
  "calls c s = length (filter (\<lambda>k. cm_correlation_id k = c) (om_broker s))"

definition conf_inv :: "rat \<Rightarrow> 'l config \<Rightarrow> bool" where
  "conf_inv t0 k \<longleftrightarrow> (case k of (s, ts) \<Rightarrow>
     (\<forall>i < length ts. \<forall>j < length ts.
        holding (pc_of (ts ! i)) \<and> holding (pc_of (ts ! j)) \<and> cid_of (ts ! i) = cid_of (ts ! j) \<longrightarrow> i = j) \<and>
     (\<forall>i < length ts. holding (pc_of (ts ! i)) \<longrightarrow>
        (\<exists>x. dict_get (om_reserved s) (cid_of (ts ! i)) = Some x \<and> flt_add t0 PENDING_TTL \<le> x)) \<and>
     (\<forall>c. calls c s \<le> 1 \<and> (calls c s \<noteq> 0 \<longrightarrow> dict_get (om_by_corr s) c \<noteq> None)) \<and>
     (\<forall>i < length ts. may_call (pc_of (ts ! i)) \<longrightarrow> calls (cid_of (ts ! i)) s = 0) \<and>
     (\<forall>i < length ts. \<forall>ord. pc_of (ts ! i) = Stubbed ord \<longrightarrow> dict_get (om_by_corr s) (cid_of (ts ! i)) \<noteq> None))"

lemma conf_invI:
  assumes "\<And>i j. i < length ts \<Longrightarrow> j < length ts \<Longrightarrow> holding (pc_of (ts ! i)) \<Longrightarrow> holding (pc_of (ts ! j)) \<Longrightarrow>
      cid_of (ts ! i) = cid_of (ts ! j) \<Longrightarrow> i = j"
    and "\<And>i. i < length ts \<Longrightarrow> holding (pc_of (ts ! i)) \<Longrightarrow>
      \<exists>x. dict_get (om_reserved s) (cid_of (ts ! i)) = Some x \<and> flt_add t0 PENDING_TTL \<le> x"
    and "\<And>c. calls c s \<le> 1" and "\<And>c. calls c s \<noteq> 0 \<Longrightarrow> dict_get (om_by_corr s) c \<noteq> None"
    and "\<And>i. i < length ts \<Longrightarrow> may_call (pc_of (ts ! i)) \<Longrightarrow> calls (cid_of (ts ! i)) s = 0"
    and "\<And>i ord. i < length ts \<Longrightarrow> pc_of (ts ! i) = Stubbed ord \<Longrightarrow> dict_get (om_by_corr s) (cid_of (ts ! i)) \<noteq> None"
  shows "conf_inv t0 (s, ts)"
  unfolding conf_inv_def prod.case using assms by blast

lemma conf_invD:
  assumes "conf_inv t0 (s, ts)"
  shows "i < length ts \<Longrightarrow> j < length ts \<Longrightarrow> holding (pc_of (ts ! i)) \<Longrightarrow> holding (pc_of (ts ! j)) \<Longrightarrow>
      cid_of (ts ! i) = cid_of (ts ! j) \<Longrightarrow> i = j"
    and "i < length ts \<Longrightarrow> holding (pc_of (ts ! i)) \<Longrightarrow>
      \<exists>x. dict_get (om_reserved s) (cid_of (ts ! i)) = Some x \<and> flt_add t0 PENDING_TTL \<le> x"
    and "calls c s \<le> 1" and "calls c s \<noteq> 0 \<Longrightarrow> dict_get (om_by_corr s) c \<noteq> None"
    and "i < length ts \<Longrightarrow> may_call (pc_of (ts ! i)) \<Longrightarrow> calls (cid_of (ts ! i)) s = 0"
    and "i < length ts \<Longrightarrow> pc_of (ts ! i) = Stubbed ord \<Longrightarrow> dict_get (om_by_corr s) (cid_of (ts ! i)) \<noteq> None"
  using assms unfolding conf_inv_def prod.case by blast+

lemma holding_may_call: "may_call p \<Longrightarrow> holding p"
  by (cases p) simp_all

lemma frame_calls: "frame s s' \<Longrightarrow> calls c s' = calls c s"
  by (simp add: frame_def calls_def)

text \<open>Steps of the environment, and of a thread that neither reserves, calls nor releases.\<close>

lemma inv_frame: "conf_inv t0 (s, ts) \<Longrightarrow> frame s s' \<Longrightarrow> conf_inv t0 (s', ts)"
  using frame_calls[of s s'] by (simp add: conf_inv_def frame_def)

lemma inv_quiet:
  assumes "conf_inv t0 (s, ts)" "frame s s'" "i < length ts" "ts ! i = (c, f, p)"
    "holding p' \<Longrightarrow> holding p" "may_call p' \<Longrightarrow> may_call p"
    "\<And>ord. p' = Stubbed ord \<Longrightarrow> dict_get (om_by_corr s') (cm_correlation_id c) \<noteq> None"
  shows "conf_inv t0 (s', ts[i := (c, f, p')])"
proof -
  let ?ts = "ts[i := (c, f, p')]"
  have k: "cid_of (?ts ! j) = cid_of (ts ! j)" for j
    using assms(3,4) by (cases "j = i") auto
  have p: "pc_of (?ts ! j) = (if j = i then p' else pc_of (ts ! j))" for j
    using assms(3) by auto
  have h: "holding (pc_of (?ts ! j)) \<Longrightarrow> holding (pc_of (ts ! j))" for j
    using assms(4,5) by (auto simp: p split: if_splits)
  have m: "may_call (pc_of (?ts ! j)) \<Longrightarrow> may_call (pc_of (ts ! j))" for j
    using assms(4,6) by (auto simp: p split: if_splits)
  note inv = conf_invD[OF inv_frame[OF assms(1,2)]]
  show ?thesis
  proof (rule conf_invI, unfold length_list_update k)
    fix j l assume "j < length ts" "l < length ts" "holding (pc_of (?ts ! j))" "holding (pc_of (?ts ! l))"
      "cid_of (ts ! j) = cid_of (ts ! l)"
    then show "j = l" using inv(1)[of j l] h by blast
  next
    fix j ord assume j: "j < length ts" "pc_of (?ts ! j) = Stubbed ord"
    then show "dict_get (om_by_corr s') (cid_of (ts ! j)) \<noteq> None"
      using inv(6)[of j ord] assms(4) assms(7)[of ord] p[of j] by (cases "j = i") auto
  qed (use inv(2-5) h m in blast)+
qed

text \<open>A thread that leaves: its reservation goes, and no other thread had one under its id.\<close>

lemma inv_leave:
  assumes "conf_inv t0 (s, ts)" "i < length ts" "ts ! i = (c, f, p)" "holding p"
    "om_broker s' = om_broker s" "\<And>x. dict_get (om_by_corr s) x \<noteq> None \<Longrightarrow> dict_get (om_by_corr s') x \<noteq> None"
    "om_reserved s' = dict_pop (om_reserved s) (cm_correlation_id c)"
  shows "conf_inv t0 (s', ts[i := (c, f, Finished r)])"
proof -
  let ?ts = "ts[i := (c, f, Finished r)]"
  note inv = conf_invD[OF assms(1)]
  have other: "cid_of (ts ! j) \<noteq> cm_correlation_id c" if "j \<noteq> i" "j < length ts" "holding (pc_of (ts ! j))" for j
    using inv(1)[of i j] assms(2-4) that by auto
  have n: "?ts ! j = (if j = i then (c, f, Finished r) else ts ! j)" for j
    using assms(2) by auto
  have e: "calls x s' = calls x s" for x by (simp add: calls_def assms(5))
  have hi: "holding (pc_of (?ts ! j)) \<Longrightarrow> j \<noteq> i" "may_call (pc_of (?ts ! j)) \<Longrightarrow> j \<noteq> i"
      "pc_of (?ts ! j) = Stubbed ord \<Longrightarrow> j \<noteq> i" for j ord
    by (auto simp: n)
  have nj: "j \<noteq> i \<Longrightarrow> ?ts ! j = ts ! j" for j by simp
  show ?thesis
  proof (rule conf_invI, unfold length_list_update e)
    fix j l assume "j < length ts" "l < length ts" "holding (pc_of (?ts ! j))" "holding (pc_of (?ts ! l))"
      "cid_of (?ts ! j) = cid_of (?ts ! l)"
    then show "j = l" using inv(1)[of j l] hi nj by metis
  next
    fix j assume "j < length ts" "holding (pc_of (?ts ! j))"
    then show "\<exists>x. dict_get (om_reserved s') (cid_of (?ts ! j)) = Some x \<and> flt_add t0 PENDING_TTL \<le> x"
      using inv(2)[of j] hi(1)[of j] other[of j] by (simp add: nj assms(7))
  next
    fix j ord assume "j < length ts" "pc_of (?ts ! j) = Stubbed ord"
    then show "dict_get (om_by_corr s') (cid_of (?ts ! j)) \<noteq> None"
      using inv(6)[of j ord] hi(3)[of j ord] assms(6) by (simp add: nj)
  next
    fix j assume "j < length ts" "may_call (pc_of (?ts ! j))"
    then show "calls (cid_of (?ts ! j)) s = 0" using inv(5)[of j] hi(2)[of j] by (simp add: nj)
  qed (use inv(3,4) assms(6) in blast)+
qed

lemma finish_place_frame:
  "om_broker (snd (finish_place env c ord s)) = om_broker s"
  "dict_get (om_by_corr s) x \<noteq> None \<Longrightarrow> dict_get (om_by_corr (snd (finish_place env c ord s))) x \<noteq> None"
  "om_reserved (snd (finish_place env c ord s)) = dict_pop (om_reserved s) (cm_correlation_id c)"
  by (auto simp: finish_place_def record_and_publish_def persist_order_def store_under_def release_reservation_def Let_def
      split: option.split)

lemma release_all_frame:
  "om_broker (release_all c s) = om_broker s" "om_by_corr (release_all c s) = om_by_corr s"
  "om_reserved (release_all c s) = dict_pop (om_reserved s) c"
  by (simp_all add: release_all_def release_reservation_def)

lemma flt_add_mono: "x \<le> y \<Longrightarrow> flt_add x a \<le> flt_add y a"
  unfolding flt_add_def flt_def by (intro flt_format.round_mono) simp

lemma inv_started:
  assumes "conf_inv t0 (s, ts)" "i < length ts" "ts ! i = (c, f, Started)" "within_ttl t0 env"
    "advance env fid c f Started s = (p', s')"
  shows "conf_inv t0 (s', ts[i := (c, f, p')])"
proof -
  let ?c = "cm_correlation_id c"
  obtain res s1 where cr: "check_and_reserve env fid ?c s = (res, s1)" by fastforce
  note rc = reserve_parts[OF cr] and inv = conf_invD[OF assms(1)]
  have s': "s' = s1" "(\<exists>oid. res = Inr (Inr oid) \<and> p' = Reserved oid) \<or> ((\<forall>oid. res \<noteq> Inr (Inr oid)) \<and> (\<exists>r. p' = Finished r))"
    using assms(5) by (auto simp: cr split: sum.splits)
  have n: "ts[i := (c, f, p')] ! j = (if j = i then (c, f, p') else ts ! j)" for j
    using assms(2) by auto
  have e: "calls x s1 = calls x s" for x by (simp add: calls_def rc(1))
  have live: "\<not> x < re_monotonic (ev_risk env)" if "flt_add t0 PENDING_TTL \<le> x" for x
    using that assms(4) by (simp add: within_ttl_def)
  have free: "\<not> (holding (pc_of (ts ! j)) \<and> cid_of (ts ! j) = ?c)" if j: "j < length ts"
    and x: "\<And>x. dict_get (om_reserved s) ?c = Some x \<Longrightarrow> x < re_monotonic (ev_risk env)" for j
  proof
    assume h: "holding (pc_of (ts ! j)) \<and> cid_of (ts ! j) = ?c"
    then obtain x where "dict_get (om_reserved s) ?c = Some x" "flt_add t0 PENDING_TTL \<le> x"
      using inv(2)[OF j] by auto
    then show False using x live by blast
  qed
  from s'(2) show ?thesis
  proof
    assume "(\<forall>oid. res \<noteq> Inr (Inr oid)) \<and> (\<exists>r. p' = Finished r)"
    then obtain r where p': "p' = Finished r" and nr: "\<forall>oid. res \<noteq> Inr (Inr oid)" by blast
    have kept: "dict_get (om_reserved s1) ?c = dict_get (om_reserved s) ?c \<or>
        (\<forall>j < length ts. \<not> (holding (pc_of (ts ! j)) \<and> cid_of (ts ! j) = ?c))"
    proof (cases "\<exists>x. dict_get (om_reserved s) ?c = Some x \<and> x < re_monotonic (ev_risk env)")
      case True
      then have "x < re_monotonic (ev_risk env)" if "dict_get (om_reserved s) ?c = Some x" for x using that by auto
      then show ?thesis using free by blast
    next
      case False
      then show ?thesis using rc(4) nr by blast
    qed
    have h: "holding (pc_of (ts ! j)) \<Longrightarrow> j < length ts \<Longrightarrow>
        dict_get (om_reserved s1) (cid_of (ts ! j)) = dict_get (om_reserved s) (cid_of (ts ! j))" for j
      using kept rc(3)[of "cid_of (ts ! j)"] by (cases "cid_of (ts ! j) = ?c") auto
    have n1: "ts[i := (c, f, p')] ! j = (if j = i then (c, f, Finished r) else ts ! j)" for j using assms(2) by (auto simp: p')
    show ?thesis
    proof (rule conf_invI, unfold length_list_update s'(1) e)
      fix j l assume "j < length ts" "l < length ts" "holding (pc_of (ts[i := (c, f, p')] ! j))"
        "holding (pc_of (ts[i := (c, f, p')] ! l))" "cid_of (ts[i := (c, f, p')] ! j) = cid_of (ts[i := (c, f, p')] ! l)"
      then show "j = l" using inv(1)[of j l] by (auto simp: n1 split: if_splits)
    next
      fix j assume j: "j < length ts" "holding (pc_of (ts[i := (c, f, p')] ! j))"
      then have "j \<noteq> i" by (auto simp: n1)
      then show "\<exists>x. dict_get (om_reserved s1) (cid_of (ts[i := (c, f, p')] ! j)) = Some x \<and> flt_add t0 PENDING_TTL \<le> x"
        using j inv(2)[of j] h[of j] by (simp add: n1)
    next
      fix j ord assume "j < length ts" "pc_of (ts[i := (c, f, p')] ! j) = Stubbed ord"
      then show "dict_get (om_by_corr s1) (cid_of (ts[i := (c, f, p')] ! j)) \<noteq> None"
        using inv(6)[of j ord] rc(2)[of "cid_of (ts ! j)"] by (auto simp: n1 split: if_splits)
    next
      fix j assume "j < length ts" "may_call (pc_of (ts[i := (c, f, p')] ! j))"
      then show "calls (cid_of (ts[i := (c, f, p')] ! j)) s = 0"
        using inv(5)[of j] by (auto simp: n1 split: if_splits)
    next
      fix x show "calls x s \<le> 1" by (rule inv(3))
    next
      fix x assume "calls x s \<noteq> 0"
      then show "dict_get (om_by_corr s1) x \<noteq> None" using inv(4) rc(2) by simp
    qed
  next
    assume "\<exists>oid. res = Inr (Inr oid) \<and> p' = Reserved oid"
    then obtain oid where p': "p' = Reserved oid" and r: "res = Inr (Inr oid)" by blast
    have nb: "dict_get (om_by_corr s) ?c = None" and put: "dict_get (om_reserved s1) ?c = Some (flt_add (re_monotonic (ev_risk env)) PENDING_TTL)"
      and old: "\<And>x. dict_get (om_reserved s) ?c = Some x \<Longrightarrow> x < re_monotonic (ev_risk env)"
      and keep: "\<And>x. x \<noteq> ?c \<Longrightarrow> dict_get (om_reserved s1) x = dict_get (om_reserved s) x"
      using rc(3,5-7) r by auto
    have z: "calls ?c s = 0" using inv(4)[of ?c] nb by auto
    have lim: "flt_add t0 PENDING_TTL \<le> flt_add (re_monotonic (ev_risk env)) PENDING_TTL"
      using assms(4) by (intro flt_add_mono) (simp add: within_ttl_def)
    have other: "j \<noteq> i \<Longrightarrow> j < length ts \<Longrightarrow> holding (pc_of (ts ! j)) \<Longrightarrow> cid_of (ts ! j) \<noteq> ?c" for j
      using free old by blast
    have hold: "\<exists>x. dict_get (om_reserved s1) (cid_of (ts[i := (c, f, p')] ! j)) = Some x \<and> flt_add t0 PENDING_TTL \<le> x"
      if "j < length ts" "holding (pc_of (ts[i := (c, f, p')] ! j))" for j
      using that put lim other[of j] keep[of "cid_of (ts ! j)"] inv(2)[of j] by (cases "j = i") (auto simp: n)
    have n1: "ts[i := (c, f, p')] ! j = (if j = i then (c, f, Reserved oid) else ts ! j)" for j using assms(2) by (auto simp: p')
    show ?thesis
    proof (rule conf_invI, unfold length_list_update s'(1) e)
      fix j l assume "j < length ts" "l < length ts" "holding (pc_of (ts[i := (c, f, p')] ! j))"
        "holding (pc_of (ts[i := (c, f, p')] ! l))" "cid_of (ts[i := (c, f, p')] ! j) = cid_of (ts[i := (c, f, p')] ! l)"
      then show "j = l" using inv(1)[of j l] other[of j] other[of l] by (auto simp: n1 split: if_splits)
    next
      fix j ord assume "j < length ts" "pc_of (ts[i := (c, f, p')] ! j) = Stubbed ord"
      then show "dict_get (om_by_corr s1) (cid_of (ts[i := (c, f, p')] ! j)) \<noteq> None"
        using inv(6)[of j ord] rc(2)[of "cid_of (ts ! j)"] by (auto simp: n1 split: if_splits)
    next
      fix j assume "j < length ts" "may_call (pc_of (ts[i := (c, f, p')] ! j))"
      then show "calls (cid_of (ts[i := (c, f, p')] ! j)) s = 0"
        using inv(5)[of j] z by (auto simp: n1 split: if_splits)
    next
      fix j assume "j < length ts" "holding (pc_of (ts[i := (c, f, p')] ! j))"
      then show "\<exists>x. dict_get (om_reserved s1) (cid_of (ts[i := (c, f, p')] ! j)) = Some x \<and> flt_add t0 PENDING_TTL \<le> x"
        by (rule hold)
    next
      fix x show "calls x s \<le> 1" by (rule inv(3))
    next
      fix x assume "calls x s \<noteq> 0"
      then show "dict_get (om_by_corr s1) x \<noteq> None" using inv(4) rc(2) by simp
    qed
  qed
qed

lemma inv_advance:
  assumes "conf_inv t0 (s, ts)" "i < length ts" "ts ! i = (c, f, p)" "within_ttl t0 env"
    "advance env fid c f p s = (p', s')"
  shows "conf_inv t0 (s', ts[i := (c, f, p')])"
proof (cases p)
  case Started
  then show ?thesis using inv_started assms by metis
next
  case (Reserved oid)
  have "frame s s'" "p' \<noteq> Stubbed ord" for ord
    using assms(5) frame_validate[of s env oid c] by (auto simp: Reserved split: prod.splits sum.splits)
  then show ?thesis using Reserved by (intro inv_quiet[OF assms(1) _ assms(2,3)]) auto
next
  case (Checked ord)
  have "s' = s" "(\<exists>r. p' = Releasing r) \<or> p' = Placing ord \<or> p' = Guarded ord"
    using assms(5) by (auto simp: Checked split: option.splits if_splits)
  then show ?thesis using Checked by (intro inv_quiet[OF assms(1) _ assms(2,3)]) auto
next
  case (Guarded ord)
  obtain r s1 where b: "begin_submit env c ord s = (r, s1)" by fastforce
  have s': "s' = s1" "(\<exists>x. p' = Releasing x) \<or> (\<exists>e. p' = Answered ord e) \<or> (r = Inr None \<and> p' = Stubbed ord)"
    using assms(5) by (auto simp: Guarded b split: sum.splits option.splits)
  have "dict_get (om_by_corr s1) (cm_correlation_id c) \<noteq> None" if "r = Inr None"
    using b that by (auto simp: begin_submit_def store_under_def Let_def split: option.splits sum.splits prod.splits)
  moreover have "frame s s1" using frame_begin[of s env c ord] by (simp add: b)
  ultimately show ?thesis using Guarded s' by (intro inv_quiet[OF assms(1) _ assms(2,3)]) auto
next
  case (Stubbed ord)
  show ?thesis
  proof (cases f)
    case None
    then have "p' = Placing ord" "s' = s" using assms(5) by (simp_all add: Stubbed)
    then show ?thesis using Stubbed by (intro inv_quiet[OF assms(1) _ assms(2,3)]) auto
  next
    case (Some g)
    have p': "p' = Answered ord (g c)" and s': "s' = s\<lparr>om_broker := om_broker s @ [c]\<rparr>"
      using assms(5) by (simp_all add: Stubbed Some call_broker_def)
    let ?ts = "ts[i := (c, f, p')]"
    note inv = conf_invD[OF assms(1)]
    have n: "?ts ! j = (if j = i then (c, f, p') else ts ! j)" for j using assms(2) by auto
    have e: "calls x s' = calls x s + (if x = cm_correlation_id c then 1 else 0)" for x
      by (auto simp: calls_def s')
    have z: "calls (cm_correlation_id c) s = 0" "dict_get (om_by_corr s) (cm_correlation_id c) \<noteq> None"
      using inv(5)[of i] inv(6)[of i ord] assms(2,3) Stubbed by simp_all
    have other: "cid_of (ts ! j) \<noteq> cm_correlation_id c" if "j \<noteq> i" "j < length ts" "may_call (pc_of (ts ! j))" for j
      using inv(1)[of i j] assms(2,3) Stubbed that holding_may_call by auto
    have same: "om_by_corr s' = om_by_corr s" "om_reserved s' = om_reserved s" by (simp_all add: s')
    show ?thesis
    proof (rule conf_invI, unfold length_list_update same)
      fix j l assume "j < length ts" "l < length ts" "holding (pc_of (?ts ! j))" "holding (pc_of (?ts ! l))"
        "cid_of (?ts ! j) = cid_of (?ts ! l)"
      then show "j = l" using inv(1)[of j l] assms(3) Stubbed by (auto simp: n split: if_splits)
    next
      fix j assume "j < length ts" "holding (pc_of (?ts ! j))"
      then show "\<exists>x. dict_get (om_reserved s) (cid_of (?ts ! j)) = Some x \<and> flt_add t0 PENDING_TTL \<le> x"
        using inv(2)[of j] assms(3) Stubbed by (auto simp: n split: if_splits)
    next
      fix x show "calls x s' \<le> 1" using inv(3)[of x] z by (simp add: e)
    next
      fix x assume "calls x s' \<noteq> 0"
      then show "dict_get (om_by_corr s) x \<noteq> None" using inv(4)[of x] z by (auto simp: e split: if_splits)
    next
      fix j assume j: "j < length ts" "may_call (pc_of (?ts ! j))"
      then have "j \<noteq> i" by (auto simp: n p')
      then show "calls (cid_of (?ts ! j)) s' = 0" using j inv(5)[of j] other[of j] by (simp add: n e)
    next
      fix j ord' assume j: "j < length ts" "pc_of (?ts ! j) = Stubbed ord'"
      then have "j \<noteq> i" by (auto simp: n p')
      then show "dict_get (om_by_corr s) (cid_of (?ts ! j)) \<noteq> None" using j inv(6)[of j ord'] by (simp add: n)
    qed
  qed
next
  case (Answered ord answer)
  have "frame s s'" "(\<exists>r. p' = Releasing r) \<or> (\<exists>b. p' = Placing b)"
    using assms(5) frame_settle[of s env c ord answer] by (auto simp: Answered split: prod.splits sum.splits)
  then show ?thesis using Answered by (intro inv_quiet[OF assms(1) _ assms(2,3)]) auto
next
  case (Placing ord)
  have "s' = snd (finish_place env c ord s)" "p' = Finished (Inr (fst (finish_place env c ord s)))"
    using assms(5) by (simp_all add: Placing case_prod_beta Let_def)
  then show ?thesis using finish_place_frame[where env = env and c = c and ord = ord and s = s] Placing
    by (simp only:) (rule inv_leave[OF assms(1-3)], simp_all only: holding.simps Placing)
next
  case (Releasing r)
  then have "s' = release_all (cm_correlation_id c) s" "p' = Finished r" using assms(5) by simp_all
  then show ?thesis using release_all_frame[of "cm_correlation_id c" s] Releasing
    by (simp only:) (rule inv_leave[OF assms(1-3)], simp_all only: holding.simps Releasing not_False_eq_True)
next
  case (Finished r)
  then have "s' = s" "p' = p" using assms(5) by auto
  then show ?thesis using assms(1,3) by (metis list_update_id)
qed

lemma conf_inv_step: "om_step t0 k k' \<Longrightarrow> conf_inv t0 k \<Longrightarrow> conf_inv t0 k'"
proof (induction rule: om_step.induct)
  case (spawn s ts c f)
  note inv = conf_invD[OF spawn]
  have n: "(ts @ [(c, f, Started)]) ! i = (if i < length ts then ts ! i else (c, f, Started))" if "i < Suc (length ts)" for i
    using that by (auto simp: nth_append less_Suc_eq)
  show ?case
    by (rule conf_invI) (use inv in \<open>auto simp: n split: if_splits\<close>)
next
  case (thread i ts env s fid)
  then show ?case by (cases "ts ! i") (auto simp: Let_def split: prod.splits intro: inv_advance)
qed (auto intro: inv_frame frames frame_upsert frame_record_trade frame_cancel frame_modify)

lemma conf_inv_reach: "(om_step t0)\<^sup>*\<^sup>* k k' \<Longrightarrow> conf_inv t0 k \<Longrightarrow> conf_inv t0 k'"
  by (induction rule: rtranclp_induct) (blast intro: conf_inv_step)+

section \<open>Properties\<close>

text \<open>
  C1: at most one submission per correlation id. Whatever commands any number of threads
  place, with whatever ids, brokers and ledgers, however their phases interleave with each
  other and with broker updates, fills, cancellations, modifications and changes of the
  risk manager, while no reservation is older than a day: a broker receives at most one
  command under a correlation id, also when it failed or its outcome is unknown, and once
  it has received one, every further placement under that id is answered from the book.
\<close>

theorem at_most_one_submission:
  "(om_step t0)\<^sup>*\<^sup>* (s0, []) (s, ts) \<and>
   (\<forall>c. calls c s0 \<le> 1 \<and> (calls c s0 \<noteq> 0 \<longrightarrow> dict_get (om_by_corr s0) c \<noteq> None)) \<longrightarrow>
   calls c s \<le> 1 \<and>
   (calls c s = 1 \<longrightarrow> (\<exists>ord. check_and_reserve env fid c s = (Inr (Inl (answer_existing ord)), s)))"
proof (intro impI)
  assume a: "(om_step t0)\<^sup>*\<^sup>* (s0, []) (s, ts) \<and>
   (\<forall>c. calls c s0 \<le> 1 \<and> (calls c s0 \<noteq> 0 \<longrightarrow> dict_get (om_by_corr s0) c \<noteq> None))"
  then have "conf_inv t0 (s0, [])" by (simp add: conf_inv_def)
  then have "conf_inv t0 (s, ts)" using a conf_inv_reach by blast
  note inv = conf_invD(3,4)[OF this, of c]
  show "calls c s \<le> 1 \<and>
   (calls c s = 1 \<longrightarrow> (\<exists>ord. check_and_reserve env fid c s = (Inr (Inl (answer_existing ord)), s)))"
    using inv by (cases "dict_get (om_by_corr s) c") (auto simp: check_and_reserve_def)
qed

text \<open>The sample placement, run alone.\<close>

definition sample_config_run :: "unit config" where
  "sample_config_run = run_ops sched_step (sample_oms, [(sample_command, Some sample_broker, Started)])
     (replicate 7 (0, sample_oms_env, ''f1''))"

lemma sched_reach:
  "(\<And>i env fid. (i, env, fid) \<in> set xs \<Longrightarrow> within_ttl t0 env) \<Longrightarrow> (om_step t0)\<^sup>*\<^sup>* k (run_ops sched_step k xs)"
proof (induction xs arbitrary: k)
  case (Cons x xs)
  obtain i env fid where x: "x = (i, env, fid)" by (cases x)
  have "(om_step t0)\<^sup>*\<^sup>* k (sched_step k x)"
  proof (cases "i < length (snd k)")
    case True
    then have "om_step t0 k (sched_step k x)"
      using om_step.thread[of i "snd k" t0 env "fst k" fid] Cons.prems[of i env fid] by (simp add: x)
    then show ?thesis by blast
  qed (cases k, simp add: x)
  moreover have "(om_step t0)\<^sup>*\<^sup>* (sched_step k x) (run_ops sched_step (sched_step k x) xs)"
    by (rule Cons.IH) (use Cons.prems in auto)
  ultimately show ?case by simp
qed simp

lemma sample_run_reached: "(om_step 100)\<^sup>*\<^sup>* (sample_oms, []) sample_config_run"
proof -
  have w: "within_ttl 100 sample_oms_env" by code_simp
  have "om_step 100 (sample_oms, []) (sample_oms, [(sample_command, Some sample_broker, Started)])"
    using om_step.spawn[of 100 sample_oms "[]"] by simp
  moreover have "(om_step 100)\<^sup>*\<^sup>* (sample_oms, [(sample_command, Some sample_broker, Started)]) sample_config_run"
    unfolding sample_config_run_def by (rule sched_reach) (auto simp: w)
  ultimately show ?thesis by (rule converse_rtranclp_into_rtranclp)
qed

lemma sample_run_calls: "calls ''c9'' (fst sample_config_run) = 1"
  by code_simp

lemma at_most_one_submission_witness:
  "\<exists>ord. check_and_reserve sample_oms_env ''f2'' ''c9'' (fst sample_config_run) =
     (Inr (Inl (answer_existing ord)), fst sample_config_run)"
  using at_most_one_submission[of 100 sample_oms "fst sample_config_run" "snd sample_config_run" "''c9''" sample_oms_env "''f2''"]
    sample_run_reached sample_run_calls
  by (simp add: calls_def) (simp add: sample_oms_def)

text \<open>
  Every placement ends. Whatever the schedule, a thread that was given seven steps has
  returned or raised, whatever the other threads did in between.
\<close>

theorem placement_terminates:
  "i < length ts \<and> 7 \<le> length (filter (\<lambda>x. fst x = i) xs) \<longrightarrow>
   (\<exists>c f r. snd (run_ops sched_step (s, ts) xs) ! i = (c, f, Finished r))"
proof (intro impI)
  assume a: "i < length ts \<and> 7 \<le> length (filter (\<lambda>x. fst x = i) xs)"
  obtain c f p where t: "ts ! i = (c, f, p)" by (cases "ts ! i")
  have "pc_rank p \<le> 7" by (cases p) simp_all
  then have "thread_rank (run_ops sched_step (s, ts) xs) i = 0"
    using run_rank[of i "(s, ts)" xs] a t by (simp add: thread_rank_def)
  then show "\<exists>c f r. snd (run_ops sched_step (s, ts) xs) ! i = (c, f, Finished r)"
    by (cases "snd (run_ops sched_step (s, ts) xs) ! i") (simp add: thread_rank_def)
qed

lemma placement_terminates_witness:
  "\<exists>c f r. snd (run_ops sched_step (sample_oms, [(sample_command, None, Started), (sample_command, Some sample_broker, Started)])
     (concat (replicate 7 [(0, sample_oms_env, ''f1''), (1, sample_oms_env, ''f2'')]))) ! 1 = (c, f, Finished r)"
  by (rule placement_terminates[rule_format]) (simp add: numeral_eq_Suc)

text \<open>
  A placement that runs alone is the placement of the order manager: seven steps of its
  thread end with the result and the state of \<open>place_order\<close>.
\<close>

theorem placement_refines:
  "run_ops sched_step (s, [(c, f, Started)]) (replicate 7 (0, env, fid)) =
   (let (r, s') = place_order env fid c f s in (s', [(c, f, Finished r)]))"
proof -
  have seven: "replicate 7 x = x # x # x # x # x # x # [x]" for x :: "nat \<times> 'a oms_env \<times> string"
    by (simp add: numeral_eq_Suc)
  show ?thesis
    unfolding seven
    by (simp add: place_order_def submit_to_broker_def settle_def call_broker_def Let_def
        split: prod.split sum.split option.split)
qed

end
