(* ===== verification/Desk_Operations.thy ===== *)
theory Desk_Operations
  imports Position_Manager Placement "HOL-Library.Sublist"
begin

text \<open>
  Operations that drive the whole core: squaring off positions through the order manager
  (\<open>application/oms/square_off_service.py\<close>, \<open>position_to_close_command\<close> of
  \<open>application/oms/order_command_mapper.py\<close>) and the shutdown sequence
  (\<open>application/oms/shutdown_coordinator.py\<close>). What a call meets outside, a fresh order id
  and the random end of a correlation id are arguments, one set for every position.
\<close>

section \<open>Squaring off\<close>

record square_result =
  sr_symbol :: string
  sr_quantity :: rat
  sr_side :: order_side
  sr_order_id :: "string option"
  sr_success :: bool
  sr_error :: "risk_reason option"

record square_summary =
  ss_status :: string
  ss_squared :: nat
  ss_failed :: nat
  ss_details :: "square_result list"

definition closing_side :: "position \<Rightarrow> order_side" where
  "closing_side p = (if 0 < p_quantity p then SELL else BUY)"

definition position_to_close_command :: "position \<Rightarrow> string \<Rightarrow> command res" where
  "position_to_close_command p hex = mk_command
     \<lparr>cm_symbol = p_symbol p, cm_exchange = p_exchange p, cm_side = closing_side p,
      cm_quantity = \<bar>trunc_int (p_quantity p)\<bar>, cm_price = 0, cm_order_type = MARKET,
      cm_product_type = p_product_type p, cm_correlation_id = ''so-'' @ p_symbol p @ ''-'' @ hex\<rparr> None"

definition refusal :: "risk_reason option \<Rightarrow> risk_reason" where
  "refusal e = (case e of None \<Rightarrow> Because ''OMS rejected order'' | Some r \<Rightarrow> if r = Because [] then Because ''OMS rejected order'' else r)"

type_synonym 'l call_ctx = "'l oms_env \<times> string \<times> string"

definition close_position ::
  "'l call_ctx \<Rightarrow> broker option \<Rightarrow> position \<Rightarrow> 'l oms \<Rightarrow> square_result \<times> 'l oms" where
  "close_position ctx submit p s =
     (case ctx of (env, fresh, hex) \<Rightarrow>
        let raised = (\<lambda>e. \<lparr>sr_symbol = p_symbol p, sr_quantity = \<bar>p_quantity p\<bar>, sr_side = closing_side p,
              sr_order_id = None, sr_success = False, sr_error = Some (Because (exn_text e))\<rparr>) in
        case position_to_close_command p hex of
          Inl e \<Rightarrow> (raised e, s)
        | Inr c \<Rightarrow>
            (case place_order env fresh c submit s of
               (Inl e, s1) \<Rightarrow> (raised e, s1)
             | (Inr r, s1) \<Rightarrow>
                 (\<lparr>sr_symbol = p_symbol p, sr_quantity = of_int (cm_quantity c), sr_side = cm_side c,
                   sr_order_id = (if or_success r then map_option o_order_id (or_order r) else None),
                   sr_success = or_success r,
                   sr_error = (if or_success r then None else Some (refusal (or_error r)))\<rparr>, s1)))"

definition square_targets :: "position_manager \<Rightarrow> string option \<Rightarrow> position list" where
  "square_targets pm symbol =
     (case truthy symbol of
        Some sy \<Rightarrow> filter (\<lambda>p. py_upper (p_symbol p) = normalize_symbol sy) (pm_get_positions pm)
      | None \<Rightarrow> filter (\<lambda>p. p_quantity p \<noteq> 0) (pm_get_positions pm))"

fun close_all :: "'l call_ctx list \<Rightarrow> broker option \<Rightarrow> position list \<Rightarrow> 'l oms \<Rightarrow> square_result list \<times> 'l oms" where
  "close_all (x # ctxs) submit (p # ps) s =
     (let (r, s1) = close_position x submit p s; (rs, s2) = close_all ctxs submit ps s1 in (r # rs, s2))"
| "close_all _ _ _ s = ([], s)"

text \<open>The aggregate that is published: how many were closed and failed, and which symbols.\<close>

definition square_off ::
  "(nat \<Rightarrow> 'l call_ctx) \<Rightarrow> position_manager \<Rightarrow> string option \<Rightarrow> broker option \<Rightarrow> 'l oms \<Rightarrow>
   square_summary \<times> (nat \<times> nat \<times> string list) option \<times> 'l oms" where
  "square_off ctx pm symbol submit s =
     (let ps = square_targets pm symbol in
      if ps = [] then (\<lparr>ss_status = ''no_positions'', ss_squared = 0, ss_failed = 0, ss_details = []\<rparr>, None, s)
      else
        let (rs, s1) = close_all (map ctx [0..<length ps]) submit ps s; ok = filter sr_success rs in
        (\<lparr>ss_status = ''completed'', ss_squared = length ok, ss_failed = length rs - length ok, ss_details = rs\<rparr>,
         Some (length ok, length rs - length ok, map sr_symbol ok), s1))"

section \<open>Shutdown\<close>

text \<open>
  The answers of the broker to cancel requests are an argument, \<open>None\<close> without a gateway; the
  requests sent to it are part of the result. Any other answer than a success counts as a
  failure.
\<close>

record shutdown_result =
  sd_cancelled :: nat
  sd_failed :: "string list"
  sd_requests :: "string list"
  sd_log_flushed :: bool

definition cancel_one ::
  "'l oms_env \<Rightarrow> (string \<Rightarrow> reply) option \<Rightarrow> shutdown_result \<times> 'l oms \<Rightarrow> order \<Rightarrow> shutdown_result \<times> 'l oms" where
  "cancel_one env gateway x ord =
     (case x of (r, s) \<Rightarrow>
        let oid = o_order_id ord;
            r1 = (if gateway = None then r else r\<lparr>sd_requests := sd_requests r @ [oid]\<rparr>);
            failed = r1\<lparr>sd_failed := sd_failed r1 @ [oid]\<rparr> in
        if (case gateway of None \<Rightarrow> False | Some g \<Rightarrow> g oid \<noteq> ReplyOk) then (failed, s)
        else case cancel_order env oid NoReply s of
               (Inl e, s1) \<Rightarrow> (failed, s1)
             | (Inr res, s1) \<Rightarrow> (if or_success res then r1\<lparr>sd_cancelled := Suc (sd_cancelled r1)\<rparr> else failed, s1))"

definition open_orders :: "'l oms \<Rightarrow> order list" where
  "open_orders s = filter (\<lambda>ord. o_status ord = OPEN) (get_orders s None None)"

definition cancel_all ::
  "'l oms_env \<Rightarrow> (string \<Rightarrow> reply) option \<Rightarrow> 'l oms \<Rightarrow> shutdown_result \<times> 'l oms" where
  "cancel_all env gateway s =
     foldl (cancel_one env gateway) (\<lparr>sd_cancelled = 0, sd_failed = [], sd_requests = [], sd_log_flushed = False\<rparr>, s)
       (open_orders s)"

text \<open>\<open>elog\<close>: whether an event log is attached, and whether flushing and closing it raises.\<close>

definition shutdown ::
  "'l oms_env \<Rightarrow> bool \<Rightarrow> (string \<Rightarrow> reply) option \<Rightarrow> exn option option \<Rightarrow> 'l oms \<Rightarrow> shutdown_result \<times> 'l oms" where
  "shutdown env cancel gateway elog s =
     (let s1 = s\<lparr>om_risk := map_option (\<lambda>rm. set_kill_switch rm True) (om_risk s)\<rparr>;
          (r, s2) = (if cancel then cancel_all env gateway s1
            else (\<lparr>sd_cancelled = 0, sd_failed = [], sd_requests = [], sd_log_flushed = False\<rparr>, s1))
      in (r\<lparr>sd_log_flushed := (elog = Some None)\<rparr>, s2))"

section \<open>Facts\<close>

definition frozen :: "'l oms \<Rightarrow> bool" where
  "frozen s \<longleftrightarrow> (\<exists>rm. om_risk s = Some rm \<and> ks_is_active (rk_kill rm))"

lemma frozen_release_all [simp]: "frozen (release_all c s) = frozen s"
  by (cases "om_risk s") (auto simp: frozen_def release_all_def release_reservation_def rk_release_pending_def)

lemma reserve_risk: "check_and_reserve env fid c s = (res, s') \<Longrightarrow> om_risk s' = om_risk s"
  by (auto simp: check_and_reserve_def lookup_durable_order_def Let_def split: option.splits sum.splits prod.splits if_splits)

lemma validate_frozen:
  assumes "frozen s" "build_and_validate env oid c s = (res, s')"
  shows "frozen s' \<and> om_broker s' = om_broker s \<and> (\<exists>r. res = Inr (Inl r) \<and> \<not> or_success r)"
proof -
  obtain rm where rm: "om_risk s = Some rm" "ks_is_active (rk_kill rm)" using assms(1) by (auto simp: frozen_def)
  show ?thesis using assms(2) rm
    by (auto simp: build_and_validate_def check_order_kill fail_with_def publish_def frozen_def Let_def split: option.splits)
qed

text \<open>While the kill switch is set nothing is submitted, and only an order already known is answered with success.\<close>

lemma place_order_frozen:
  assumes "frozen s" "place_order env fid c submit s = (r, s')"
  shows "frozen s' \<and> om_broker s' = om_broker s \<and>
    ((\<exists>x s1. check_and_reserve env fid (cm_correlation_id c) s = (Inr (Inl x), s1)) \<or>
     (\<forall>x. r = Inr x \<longrightarrow> \<not> or_success x))"
proof -
  obtain r1 s1 where 1: "check_and_reserve env fid (cm_correlation_id c) s = (r1, s1)" by fastforce
  have f1: "frozen s1" "om_broker s1 = om_broker s"
    using assms(1) reserve_risk[OF 1] reserve_parts(1)[OF 1] by (simp_all add: frozen_def)
  show ?thesis
  proof (cases "\<exists>oid. r1 = Inr (Inr oid)")
    case False
    then show ?thesis using assms(2) f1 by (auto simp: place_order_def 1 Let_def split: sum.splits)
  next
    case True
    then obtain oid where oid: "r1 = Inr (Inr oid)" by blast
    obtain r2 s2 where 2: "build_and_validate env oid c s1 = (r2, s2)" by fastforce
    from validate_frozen[OF f1(1) 2] obtain x where x: "frozen s2" "om_broker s2 = om_broker s1" "r2 = Inr (Inl x)" "\<not> or_success x"
      by blast
    show ?thesis using assms(2) x f1 by (auto simp: place_order_def 1 oid 2 Let_def)
  qed
qed

lemma submit_broker:
  assumes "submit_to_broker env c ord submit s = (r, s')"
  shows "om_broker s' = om_broker s \<or> om_broker s' = om_broker s @ [c]"
proof -
  have u: "om_broker (snd (settle env c ord a x)) = om_broker x" for a x
    using frame_settle[of x env c ord a] by (simp add: frame_def)
  have e: "om_broker (snd (settle_unknown env c ord e x)) = om_broker x" for e x
    using u[of "Inl e" x] by (simp add: settle_def)
  show ?thesis
  proof (cases "mutation_guard env ''place'' s = None \<and> submit \<noteq> None")
    case False
    then show ?thesis using assms by (auto simp: submit_to_broker_def split: option.splits)
  next
    case True
    then obtain f where f: "mutation_guard env ''place'' s = None" "submit = Some f" by blast
    obtain b s1 where b: "begin_submit env c ord s = (b, s1)" by fastforce
    have s1: "om_broker s1 = om_broker s" using frame_begin[of s env c ord] by (simp add: frame_def b)
    consider (refused) x where "b = Inl x" | (failed) x where "b = Inr (Some x)" | (on) "b = Inr None"
      by (cases b) (fastforce, metis option.exhaust)
    then show ?thesis
    proof cases
      case refused then show ?thesis using assms f b s1 by (simp add: submit_to_broker_def)
    next
      case failed then show ?thesis using assms f b s1 e[of x s1] by (simp add: submit_to_broker_def)
    next
      case on
      then have "settle env c ord (f c) (s1\<lparr>om_broker := om_broker s1 @ [c]\<rparr>) = (r, s')"
        using assms f b by (simp add: submit_to_broker_def call_broker_def)
      then show ?thesis using u[of "f c" "s1\<lparr>om_broker := om_broker s1 @ [c]\<rparr>"] s1 by simp
    qed
  qed
qed

lemma place_order_broker:
  assumes "place_order env fid c submit s = (r, s')"
  shows "om_broker s' = om_broker s \<or> om_broker s' = om_broker s @ [c]"
proof -
  obtain r1 s1 where 1: "check_and_reserve env fid (cm_correlation_id c) s = (r1, s1)" by fastforce
  note b1 = reserve_parts(1)[OF 1]
  show ?thesis
  proof (cases "\<exists>oid. r1 = Inr (Inr oid)")
    case False
    then show ?thesis using assms b1 by (auto simp: place_order_def 1 Let_def split: sum.splits)
  next
    case True
    then obtain oid where oid: "r1 = Inr (Inr oid)" by blast
    obtain r2 s2 where 2: "build_and_validate env oid c s1 = (r2, s2)" by fastforce
    have b2: "om_broker s2 = om_broker s1" using validate_ledger[OF 2] by blast
    show ?thesis
    proof (cases "\<exists>ord. r2 = Inr (Inr ord)")
      case False
      then show ?thesis using assms b1 b2 by (auto simp: place_order_def 1 oid 2 Let_def split: sum.splits)
    next
      case True
      then obtain ord where ord: "r2 = Inr (Inr ord)" by blast
      obtain r3 s3 where 3: "submit_to_broker env c ord submit s2 = (r3, s3)" by fastforce
      have "om_broker s' = om_broker s3"
      proof (cases "\<exists>x. r3 = Inr (Inr x)")
        case True
        then show ?thesis using assms finish_place_frame(1)[of env c _ s3]
          by (auto simp: place_order_def 1 oid 2 ord 3 Let_def case_prod_beta)
      qed (use assms in \<open>auto simp: place_order_def 1 oid 2 ord 3 Let_def split: sum.splits\<close>)
      then show ?thesis using submit_broker[OF 3] b1 b2 by simp
    qed
  qed
qed

lemma close_command:
  "\<exists>c. position_to_close_command p hex = Inr c \<and> cm_side c = closing_side p \<and> cm_quantity c = \<bar>trunc_int (p_quantity p)\<bar>"
  by (simp add: position_to_close_command_def mk_command_def Let_def)

lemma trunc_int_sign: "0 < q \<Longrightarrow> 0 \<le> trunc_int q" "\<not> 0 < q \<Longrightarrow> trunc_int q \<le> 0"
  using trunc_int_mono[of 0 q] trunc_int_mono[of q 0] by simp_all

lemma close_position_sent:
  assumes "close_position (env, fresh, hex) submit p s = (r, s')"
  shows "\<exists>c sent. position_to_close_command p hex = Inr c \<and> (sent = [] \<or> sent = [c]) \<and> om_broker s' = om_broker s @ sent \<and>
    (frozen s \<longrightarrow> sent = [] \<and> frozen s')"
proof -
  obtain c where c: "position_to_close_command p hex = Inr c" using close_command by blast
  obtain r1 s1 where 1: "place_order env fresh c submit s = (r1, s1)" by fastforce
  have s': "s' = s1" using assms by (auto simp: close_position_def c 1 Let_def split: sum.splits)
  show ?thesis
  proof (cases "frozen s")
    case True
    then show ?thesis using place_order_frozen[OF True 1] c by (intro exI[of _ c] exI[of _ "[]"]) (simp add: s')
  next
    case False
    obtain sent where "sent = [] \<or> sent = [c]" "om_broker s1 = om_broker s @ sent"
      using place_order_broker[OF 1] by (metis append_Nil2)
    with False c show ?thesis unfolding s' by blast
  qed
qed

lemma close_all_sent:
  assumes "length ctxs = length ps" "close_all ctxs submit ps s = (rs, s')"
  shows "length rs = length ps \<and>
    (\<exists>cs sent. list_all2 (\<lambda>(x, p) c. position_to_close_command p (snd (snd x)) = Inr c) (zip ctxs ps) cs \<and>
       subseq sent cs \<and> om_broker s' = om_broker s @ sent \<and> (frozen s \<longrightarrow> sent = [] \<and> frozen s'))"
  using assms
proof (induction ctxs submit ps s arbitrary: rs s' rule: close_all.induct)
  case (1 x ctxs submit p ps s)
  obtain env fresh hex where x: "x = (env, fresh, hex)" by (cases x)
  obtain r s1 where r: "close_position x submit p s = (r, s1)" by fastforce
  obtain rs2 s2 where rs: "close_all ctxs submit ps s1 = (rs2, s2)" by fastforce
  have e: "rs = r # rs2" "s' = s2" using "1.prems"(2) r rs by simp_all
  from "1.IH"[OF refl r[symmetric] _ rs] "1.prems"(1) obtain cs sent where
    ih: "length rs2 = length ps" "list_all2 (\<lambda>(x, p) c. position_to_close_command p (snd (snd x)) = Inr c) (zip ctxs ps) cs"
      "subseq sent cs" "om_broker s2 = om_broker s1 @ sent" "frozen s1 \<longrightarrow> sent = [] \<and> frozen s2" by auto
  from close_position_sent[OF r[unfolded x]] obtain c sent1 where
    h: "position_to_close_command p hex = Inr c" "sent1 = [] \<or> sent1 = [c]" "om_broker s1 = om_broker s @ sent1"
      "frozen s \<longrightarrow> sent1 = [] \<and> frozen s1" by blast
  show ?case using ih h
    by (intro conjI exI[of _ "c # cs"] exI[of _ "sent1 @ sent"]) (auto simp: e x)
qed auto

section \<open>Properties\<close>

text \<open>
  Squaring off hands to the broker, in the order of the positions, at most one closing
  command for each, and nothing else; with the kill switch set it hands over nothing. Every
  position is accounted for as closed or failed, whatever the others do. A full fill of a
  closing command makes its position flat. A position that is flat already is asked for
  only when its symbol is named; then a purchase of zero shares is sent for it.
\<close>

theorem square_off_orders:
  "let (sm, ev, s') = square_off ctx pm symbol submit s; ps = square_targets pm symbol in
   (\<exists>cs sent. list_all2 (\<lambda>(x, p) c. position_to_close_command p (snd (snd x)) = Inr c) (zip (map ctx [0..<length ps]) ps) cs \<and>
      subseq sent cs \<and> om_broker s' = om_broker s @ sent \<and>
      ((\<exists>rm. om_risk s = Some rm \<and> ks_is_active (rk_kill rm)) \<longrightarrow> sent = [])) \<and>
   ss_squared sm + ss_failed sm = length ps \<and>
   (\<forall>p hex c t. position_to_close_command p hex = Inr c \<and> t_side t = cm_side c \<and> t_quantity t = of_int (cm_quantity c) \<longrightarrow>
      p_quantity (project_trade p t) = 0) \<and>
   (\<forall>p hex. p \<in> set ps \<and> p_quantity p = 0 \<longrightarrow>
      truthy symbol \<noteq> None \<and>
      (\<exists>c. position_to_close_command p hex = Inr c \<and> cm_side c = BUY \<and> cm_quantity c = 0)) \<and>
   (\<forall>p sy. truthy symbol = Some sy \<and> p \<in> set (pm_get_positions pm) \<and> py_upper (p_symbol p) = normalize_symbol sy \<longrightarrow>
      p \<in> set ps)"
proof -
  define ps where "ps = square_targets pm symbol"
  obtain rs s1 where c: "close_all (map ctx [0..<length ps]) submit ps s = (rs, s1)" by fastforce
  obtain sm ev s' where q: "square_off ctx pm symbol submit s = (sm, ev, s')" by (cases "square_off ctx pm symbol submit s")
  have n: "length (map ctx [0..<length ps]) = length ps" by simp
  note sent = close_all_sent[OF n c]
  have sm: "s' = s1" "ss_squared sm + ss_failed sm = length ps"
  proof -
    have "length (filter sr_success rs) \<le> length ps" using length_filter_le[of sr_success rs] sent by simp
    then show "s' = s1" "ss_squared sm + ss_failed sm = length ps" using q sent c
      by (auto simp: square_off_def Let_def simp flip: ps_def split: if_splits)
  qed
  have flat: "p_quantity (project_trade p t) = 0"
    if h: "position_to_close_command p hex = Inr c" "t_side t = cm_side c" "t_quantity t = of_int (cm_quantity c)" for p hex c t
  proof -
    have "cm_side c = closing_side p" "cm_quantity c = \<bar>trunc_int (p_quantity p)\<bar>" using h(1) close_command[of p hex] by auto
    then show ?thesis using h(2,3) trunc_int_sign[of "p_quantity p"]
      by (simp add: project_trade_def position_with_fill_def closing_side_def Let_def split: if_splits)
  qed
  have zero: "truthy symbol \<noteq> None \<and> (\<exists>c. position_to_close_command p hex = Inr c \<and> cm_side c = BUY \<and> cm_quantity c = 0)"
    if "p \<in> set ps" "p_quantity p = 0" for p hex
    using that close_command[of p hex] by (auto simp: ps_def square_targets_def closing_side_def split: option.splits)
  have all: "p \<in> set ps" if "truthy symbol = Some sy" "p \<in> set (pm_get_positions pm)" "py_upper (p_symbol p) = normalize_symbol sy"
    for p sy using that by (simp add: ps_def square_targets_def)
  show ?thesis
    using sent sm flat zero all by (simp add: q Let_def frozen_def flip: ps_def) blast
qed

definition sample_desk :: position_manager where
  "sample_desk = (pm_init True False)\<lparr>pm_positions := [(''NSE:TCS'', position_new ''TCS'' ''NSE'')]\<rparr>"

definition sample_frozen :: "unit oms" where
  "sample_frozen = sample_oms\<lparr>om_risk := Some (set_kill_switch (rk_init sample_config None False None True) True)\<rparr>"

lemma sample_targets: "square_targets sample_desk (Some ''tcs'') = [position_new ''TCS'' ''NSE'']"
  by code_simp

lemma square_off_orders_witness:
  "let (sm, ev, s') = square_off (\<lambda>i. (sample_oms_env, ''f1'', ''ab'')) sample_desk (Some ''tcs'') None sample_frozen in
   om_broker s' = [] \<and> ss_squared sm + ss_failed sm = 1 \<and>
   (\<exists>c. position_to_close_command (position_new ''TCS'' ''NSE'') ''ab'' = Inr c \<and> cm_side c = BUY \<and> cm_quantity c = 0)"
proof -
  obtain sm ev s' where q: "square_off (\<lambda>i. (sample_oms_env, ''f1'', ''ab'')) sample_desk (Some ''tcs'') None sample_frozen = (sm, ev, s')"
    by (cases "square_off (\<lambda>i. (sample_oms_env, ''f1'', ''ab'')) sample_desk (Some ''tcs'') None sample_frozen")
  have z: "p_quantity (position_new ''TCS'' ''NSE'') = 0" by (simp add: position_new_def)
  have k: "\<exists>rm. om_risk sample_frozen = Some rm \<and> ks_is_active (rk_kill rm)" "om_broker sample_frozen = []"
    using set_kill_switch_active by (auto simp: sample_frozen_def sample_oms_def)
  show ?thesis
    using square_off_orders[of "\<lambda>i. (sample_oms_env, ''f1'', ''ab'')" sample_desk "Some ''tcs''" None sample_frozen] k z
    unfolding q Let_def sample_targets by auto
qed

text \<open>With the kill switch set no cancel goes through, whether or not the status attribute is there.\<close>

lemma cancel_frozen:
  "frozen s \<Longrightarrow> cancel_order env oid answer s = (r, s') \<Longrightarrow> s' = s \<and> (\<forall>x. r = Inr x \<longrightarrow> \<not> or_success x)"
  by (auto simp: cancel_order_def find_live_def mutation_guard_def frozen_def fail_with_def
      split: option.splits sum.splits bool.splits)

lemma cancel_all_frozen:
  assumes "frozen s"
  shows "foldl (cancel_one env gateway) (r, s) os =
    (r\<lparr>sd_failed := sd_failed r @ map o_order_id os,
       sd_requests := sd_requests r @ (if gateway = None then [] else map o_order_id os)\<rparr>, s)"
proof (induction os arbitrary: r)
  case (Cons ord os)
  obtain a s' where a: "cancel_order env (o_order_id ord) NoReply s = (a, s')" by fastforce
  have "cancel_one env gateway (r, s) ord =
      (r\<lparr>sd_failed := sd_failed r @ [o_order_id ord],
         sd_requests := sd_requests r @ (if gateway = None then [] else [o_order_id ord])\<rparr>, s)"
    using cancel_frozen[OF assms a] by (auto simp: cancel_one_def a Let_def split: sum.split option.split)
  then show ?case by (auto simp: Cons.IH)
qed simp

text \<open>
  The shutdown sequence sets the kill switch first, and the kill switch blocks every
  cancel. So no open order is cancelled in the book: each is counted as failed, also one that
  the broker has just cancelled on request. The book and the order store stay as they are,
  and nothing is submitted any more.
\<close>

theorem shutdown_cancels_nothing:
  "om_risk s \<noteq> None \<longrightarrow>
   (let (r, s') = shutdown env True gateway elog s; ids = map o_order_id (open_orders s) in
    om_orders s' = om_orders s \<and> om_store s' = om_store s \<and> sd_cancelled r = 0 \<and> sd_failed r = ids \<and>
    sd_requests r = (if gateway = None then [] else ids) \<and>
    om_broker (snd (place_order env' fid c submit s')) = om_broker s)"
proof (intro impI)
  assume "om_risk s \<noteq> None"
  then obtain rm where rm: "om_risk s = Some rm" by blast
  define s1 where "s1 = s\<lparr>om_risk := Some (set_kill_switch rm True)\<rparr>"
  have f: "frozen s1" by (simp add: s1_def frozen_def set_kill_switch_active)
  have o: "open_orders s1 = open_orders s" by (simp add: open_orders_def get_orders_def s1_def)
  obtain res s2 where p: "place_order env' fid c submit s1 = (res, s2)" by fastforce
  have "om_broker s2 = om_broker s" using place_order_frozen[OF f p] by (simp add: s1_def)
  then show "let (r, s') = shutdown env True gateway elog s; ids = map o_order_id (open_orders s) in
    om_orders s' = om_orders s \<and> om_store s' = om_store s \<and> sd_cancelled r = 0 \<and> sd_failed r = ids \<and>
    sd_requests r = (if gateway = None then [] else ids) \<and>
    om_broker (snd (place_order env' fid c submit s')) = om_broker s"
    by (simp add: shutdown_def rm cancel_all_def cancel_all_frozen[OF f] o p Let_def flip: s1_def)
       (simp add: s1_def)
qed

lemma shutdown_cancels_nothing_witness:
  "let (r, s') = shutdown sample_oms_env True (Some (\<lambda>oid. ReplyOk)) None sample_frozen in
   om_orders s' = om_orders sample_frozen \<and> sd_cancelled r = 0 \<and> sd_failed r = [''O1'']"
proof -
  have "om_risk sample_frozen \<noteq> None" by (simp add: sample_frozen_def)
  moreover have "map o_order_id (open_orders sample_frozen) = [''O1'']" by code_simp
  ultimately show ?thesis
    using shutdown_cancels_nothing[of sample_frozen sample_oms_env "Some (\<lambda>oid. ReplyOk)" None]
    by (auto simp: Let_def split: prod.splits)
qed

end
