(* ===== verification/Order_Updates.thy ===== *)
theory Order_Updates
  imports Order_Manager
begin

text \<open>
  What a book of orders can rely on after its placement: cancelling, modifying, broker
  updates and their interplay with fills. The status attribute \<open>is_terminal\<close> is an
  argument of the environment; \<open>order_status_is_terminal\<close> is the one the enumeration has.
\<close>

section \<open>Facts about updates\<close>

lemma known_fields:
  "om_validator (snd (record_known env k ord t s)) = om_validator s \<and>
   om_risk (snd (record_known env k ord t s)) = om_risk s \<and> om_store (snd (record_known env k ord t s)) = om_store s"
proof (cases rule: record_known_cases[of env k ord t s])
  case (rejected res l)
  then show ?thesis by simp
next
  case (applied u l s2 res s3)
  obtain ro where "s3 = s2\<lparr>om_repo := ro\<rparr>" using mark_trade_cases(1)[OF applied(4)] by blast
  then show ?thesis using applied(3,5) by (auto simp: publish_applied_def store_order_def)
qed

lemma recorder_fields:
  assumes "recorder_record_trade env t s = (res, s')"
  shows "om_validator s' = om_validator s" "om_risk s' = om_risk s" "om_store s' = om_store s"
proof -
  have "s' = s \<or> s' = s\<lparr>om_trades_duplicated := Suc (om_trades_duplicated s)\<rparr> \<or> s' = buffer_trade t s \<or>
      (\<exists>k ord. s' = snd (record_known env k ord t s))"
    using assms by (auto simp: recorder_record_trade_def split: sum.splits option.splits if_splits) (metis snd_conv)
  then have "om_validator s' = om_validator s \<and> om_risk s' = om_risk s \<and> om_store s' = om_store s"
    using known_fields[of env _ _ t s] by (auto simp: buffer_trade_def Let_def)
  then show "om_validator s' = om_validator s" "om_risk s' = om_risk s" "om_store s' = om_store s" by simp_all
qed

lemma fills_keep_validator: "om_validator (rt_step s x) = om_validator s"
proof (cases x)
  case (Pair env t)
  then show ?thesis using recorder_fields(1)[of env t s, OF prod.collapse[symmetric]] by (simp add: rt_step.simps)
qed

lemma upsert_known:
  "dict_get (om_orders s) (o_order_id ord) = Some old \<Longrightarrow> o_status old \<noteq> o_status ord \<Longrightarrow>
   osv_validate_transition (ev_evicted env) (om_validator s) (o_order_id ord) (o_status old) (o_status ord) = (Inr u, w) \<Longrightarrow>
   lifecycle_upsert env ord s =
     (case ev_is_terminal env (o_status ord) of
        Inl e \<Rightarrow> (Some e, store_order ord (s\<lparr>om_validator := w\<rparr>))
      | Inr b \<Rightarrow> (let s2 = store_order ord (s\<lparr>om_validator := w\<rparr>);
                     s3 = (if b then s2\<lparr>om_active := map_option (\<lambda>n. n - 1) (om_active s2)\<rparr> else s2)
                in flush_pending_trades env (o_order_id ord) (publish env (OrderUpdated ord None) s3)))"
  by (simp add: lifecycle_upsert_def split: sum.split)

lemma upsert_refused:
  "dict_get (om_orders s) (o_order_id ord) = Some old \<Longrightarrow> o_status old \<noteq> o_status ord \<Longrightarrow>
   osv_validate_transition (ev_evicted env) (om_validator s) (o_order_id ord) (o_status old) (o_status ord) = (Inl e, w) \<Longrightarrow>
   lifecycle_upsert env ord s = (Some e, s\<lparr>om_validator := w\<rparr>)"
  by (simp add: lifecycle_upsert_def)

lemma modify_fields [simp]:
  "o_order_id (apply_modify_fields ord r) = o_order_id ord"
  "o_filled_quantity (apply_modify_fields ord r) = o_filled_quantity ord"
  "o_status (apply_modify_fields ord r) = o_status ord"
  "mr_quantity r = Some q \<Longrightarrow> o_quantity (apply_modify_fields ord r) = of_int q"
  by (simp_all add: apply_modify_fields_def order_with_price_def order_with_quantity_def order_with_order_type_def Let_def
      split: option.split)

section \<open>Properties\<close>

text \<open>
  The class \<open>OrderStatus\<close> has no attribute \<open>is_terminal\<close>, and every operation that reads it raises.
  Cancelling or modifying a known order raises and changes nothing. A fill recorded with a
  risk manager raises after it was applied. A broker update that moves a known order raises
  after the book was changed, before the update is published, persisted, or any buffered
  fill of the order is taken.
\<close>

theorem status_attribute_missing:
  "ev_is_terminal env = order_status_is_terminal \<longrightarrow>
   (let missing = AttributeError ''OrderStatus'' ''is_terminal'' in
    (dict_get (om_orders s) oid = Some old \<longrightarrow>
       cancel_order env oid answer s = (Inl missing, s) \<and>
       (mr_order_id r = oid \<longrightarrow> modify_order env r answer s = (Inl missing, s))) \<and>
    (recorder_record_trade env t s = (Inr True, s1) \<and> dict_get (om_orders s1) (t_order_id t) = Some ord \<and> om_risk s \<noteq> None \<longrightarrow>
       (\<exists>s2. record_trade env t s = (Inl missing, s2) \<and> om_orders s2 = om_orders s1)) \<and>
    (dict_get (om_orders s) (o_order_id ord) = Some old \<and> o_status old \<noteq> o_status ord \<longrightarrow>
       (\<exists>e w. upsert_order env ord s = (Some e, s\<lparr>om_validator := w\<rparr>) \<and> (\<exists>a b. e = IllegalTransition a b)) \<or>
       (\<exists>w. upsert_order env ord s = (Some missing, store_order ord (s\<lparr>om_validator := w\<rparr>)))))"
proof (intro impI)
  let ?m = "AttributeError ''OrderStatus'' ''is_terminal''"
  assume a: "ev_is_terminal env = order_status_is_terminal"
  have cancel: "dict_get (om_orders s) oid = Some old \<Longrightarrow> cancel_order env oid answer s = (Inl ?m, s)"
    by (simp add: cancel_order_def find_live_def a order_status_is_terminal_def)
  have modify: "dict_get (om_orders s) oid = Some old \<Longrightarrow> mr_order_id r = oid \<Longrightarrow> modify_order env r answer s = (Inl ?m, s)"
    by (simp add: modify_order_def modify_begin_def find_live_def a order_status_is_terminal_def)
  have trade: "\<exists>s2. record_trade env t s = (Inl ?m, s2) \<and> om_orders s2 = om_orders s1"
    if "recorder_record_trade env t s = (Inr True, s1)" "dict_get (om_orders s1) (t_order_id t) = Some ord" "om_risk s \<noteq> None"
  proof -
    have "om_risk s1 \<noteq> None" using recorder_fields(2)[OF that(1)] that(3) by simp
    then show ?thesis using that
      by (auto simp: record_trade_def after_trade_def persist_order_def a order_status_is_terminal_def Let_def
          split: option.splits)
  qed
  have upsert: "(\<exists>e w. upsert_order env ord s = (Some e, s\<lparr>om_validator := w\<rparr>) \<and> (\<exists>a b. e = IllegalTransition a b)) \<or>
       (\<exists>w. upsert_order env ord s = (Some ?m, store_order ord (s\<lparr>om_validator := w\<rparr>)))"
    if o: "dict_get (om_orders s) (o_order_id ord) = Some old" "o_status old \<noteq> o_status ord"
  proof -
    obtain v w where v: "osv_validate_transition (ev_evicted env) (om_validator s) (o_order_id ord) (o_status old) (o_status ord) = (v, w)"
      by fastforce
    show ?thesis
    proof (cases v)
      case (Inl e)
      then have "\<exists>a b. e = IllegalTransition a b"
        using v o(2) by (auto simp: osv_validate_transition_def Let_def split: prod.splits sum.splits if_splits)
      moreover have "upsert_order env ord s = (Some e, s\<lparr>om_validator := w\<rparr>)"
        using upsert_refused[OF o, of env e w] v Inl by (simp add: upsert_order_def)
      ultimately show ?thesis by blast
    next
      case (Inr u)
      then have "upsert_order env ord s = (Some ?m, store_order ord (s\<lparr>om_validator := w\<rparr>))"
        using upsert_known[OF o, of env u w] v by (simp add: upsert_order_def a order_status_is_terminal_def)
      then show ?thesis by blast
    qed
  qed
  show "let missing = ?m in
    (dict_get (om_orders s) oid = Some old \<longrightarrow>
       cancel_order env oid answer s = (Inl missing, s) \<and>
       (mr_order_id r = oid \<longrightarrow> modify_order env r answer s = (Inl missing, s))) \<and>
    (recorder_record_trade env t s = (Inr True, s1) \<and> dict_get (om_orders s1) (t_order_id t) = Some ord \<and> om_risk s \<noteq> None \<longrightarrow>
       (\<exists>s2. record_trade env t s = (Inl missing, s2) \<and> om_orders s2 = om_orders s1)) \<and>
    (dict_get (om_orders s) (o_order_id ord) = Some old \<and> o_status old \<noteq> o_status ord \<longrightarrow>
       (\<exists>e w. upsert_order env ord s = (Some e, s\<lparr>om_validator := w\<rparr>) \<and> (\<exists>a b. e = IllegalTransition a b)) \<or>
       (\<exists>w. upsert_order env ord s = (Some missing, store_order ord (s\<lparr>om_validator := w\<rparr>))))"
    unfolding Let_def using cancel modify trade upsert by blast
qed

definition sample_live :: order where
  "sample_live = (order_new ''O1'' ''INFY'' ''NSE'' BUY LIMIT 10)\<lparr>o_correlation_id := Some ''c1''\<rparr>"

lemma sample_attr: "ev_is_terminal sample_oms_env = order_status_is_terminal"
  by (simp add: sample_oms_env_def)

lemma status_attribute_missing_witness:
  "cancel_order sample_oms_env ''O1'' ReplyOk sample_oms = (Inl (AttributeError ''OrderStatus'' ''is_terminal''), sample_oms)"
proof -
  have "dict_get (om_orders sample_oms) ''O1'' = Some sample_live"
    by (simp add: sample_oms_def sample_live_def dict_get_def)
  then show ?thesis
    using status_attribute_missing[of sample_oms_env sample_oms "''O1''" sample_live ReplyOk
        "\<lparr>mr_order_id = ''O1'', mr_quantity = None, mr_price = None, mr_trigger_price = None,
     mr_order_type = None, mr_validity = None, mr_product_type = None\<rparr>" "sample_trade ''T1'' 4" sample_oms sample_live]
    unfolding Let_def by (simp only: sample_attr)
qed

text \<open>
  Cancelling. Without the status attribute it raises; an unknown or final order, the kill
  switch, and a broker that refuses or raises leave the state as it was. Otherwise the order
  of the book becomes cancelled under both indexes and the cancellation is published, but
  neither the order store nor the pending exposure of the order is touched: a restart brings
  the order back as it was stored, and its exposure still counts against the limits.
\<close>

theorem cancel_functional:
  "(let (res, s') = cancel_order env oid answer s in
    case dict_get (om_orders s) oid of
      None \<Rightarrow> res = Inr (fail_with (Because ''Order not found'')) \<and> s' = s
    | Some ord \<Rightarrow>
        (case ev_is_terminal env (o_status ord) of
           Inl e \<Rightarrow> res = Inl e \<and> s' = s
         | Inr True \<Rightarrow> res = Inr (fail_with (Because ''Order already final'')) \<and> s' = s
         | Inr False \<Rightarrow>
             (case (mutation_guard env ''cancel'' s, cancel_answer answer) of
                (Some r, _) \<Rightarrow> res = Inr r \<and> \<not> or_success r \<and> s' = s
              | (None, Some r) \<Rightarrow> res = Inr r \<and> \<not> or_success r \<and> s' = s
              | (None, None) \<Rightarrow>
                  if o_status ord \<noteq> CANCELLED \<and> CANCELLED \<notin> set (order_allowed (o_status ord))
                  then res = Inl (IllegalTransition (status_value (o_status ord)) (status_value CANCELLED)) \<and> s' = s
                  else let updated = ord\<lparr>o_status := CANCELLED\<rparr> in
                    res = Inr (ok_order updated None) \<and>
                    dict_get (om_orders s') (o_order_id ord) = Some updated \<and>
                    (\<forall>c. truthy (o_correlation_id ord) = Some c \<longrightarrow> dict_get (om_by_corr s') c = Some updated) \<and>
                    om_store s' = om_store s \<and> om_risk s' = om_risk s \<and>
                    om_orders (oms_restart enforce rm s') = om_orders (oms_restart enforce rm s))))"
proof (cases "dict_get (om_orders s) oid")
  case None
  then show ?thesis by (simp add: cancel_order_def find_live_def)
next
  case (Some ord)
  consider (raises) e where "ev_is_terminal env (o_status ord) = Inl e" | (final) "ev_is_terminal env (o_status ord) = Inr True"
    | (live) "ev_is_terminal env (o_status ord) = Inr False"
    by (cases "ev_is_terminal env (o_status ord)") auto
  then show ?thesis
  proof cases
    case raises
    then show ?thesis using Some by (simp add: cancel_order_def find_live_def)
  next
    case final
    then show ?thesis using Some by (simp add: cancel_order_def find_live_def)
  next
    case live
    note f = Some live
    show ?thesis
    proof (cases "mutation_guard env ''cancel'' s")
      case (Some b)
      then have "\<not> or_success b" by (auto simp: mutation_guard_def fail_with_def split: option.splits if_splits)
      then show ?thesis using Some f by (simp add: cancel_order_def find_live_def)
    next
      case None
      show ?thesis
      proof (cases "cancel_answer answer")
        case (Some b)
        then have "\<not> or_success b" by (cases answer) (auto simp: fail_with_def)
        then show ?thesis using Some None f by (simp add: cancel_order_def find_live_def)
      next
        case none: None
        then show ?thesis using None f
          by (auto simp: cancel_order_def find_live_def cancel_finish_def order_with_status_def store_order_def
              publish_def oms_restart_def oms_init_def Let_def)
      qed
    qed
  qed
qed

text \<open>An environment whose statuses answer the attribute as the transition table has it.\<close>

definition live_env :: "unit oms_env" where
  "live_env = sample_oms_env\<lparr>ev_is_terminal := (\<lambda>st. Inr (order_allowed st = []))\<rparr>"

lemma cancel_functional_witness:
  "snd (cancel_order live_env ''O1'' ReplyOk sample_oms) \<noteq> sample_oms \<and>
   om_store (snd (cancel_order live_env ''O1'' ReplyOk sample_oms)) = om_store sample_oms"
proof -
  have o: "dict_get (om_orders sample_oms) ''O1'' = Some sample_live"
    by (simp add: sample_oms_def sample_live_def dict_get_def)
  have "ev_is_terminal live_env (o_status sample_live) = Inr False" "mutation_guard live_env ''cancel'' sample_oms = None"
    "CANCELLED \<in> set (order_allowed (o_status sample_live))" "o_status sample_live \<noteq> CANCELLED" "o_order_id sample_live = ''O1''"
    by code_simp+
  moreover have "sample_live\<lparr>o_status := CANCELLED\<rparr> \<noteq> sample_live" by code_simp
  ultimately show ?thesis
    using cancel_functional[of live_env "''O1''" ReplyOk sample_oms] o by (auto simp: Let_def case_prod_beta)
qed

text \<open>
  Modifying writes back the order it read before it asked the broker. Whatever happened
  in between, the book ends with the old filled quantity and status and the modified fields;
  a fill applied in between is lost: redelivered, it is refused as a duplicate.
\<close>

theorem modify_overwrites_fills:
  "modify_begin env r s = Inr (Inr ord) \<longrightarrow>
   (let (res, s2) = modify_finish env ord r s1 in
    or_success res \<and>
    (\<exists>o2. dict_get (om_orders s2) (o_order_id ord) = Some o2 \<and> o_filled_quantity o2 = o_filled_quantity ord \<and>
       o_status o2 = o_status ord \<and> (\<forall>q. mr_quantity r = Some q \<longrightarrow> o_quantity o2 = of_int q)) \<and>
    (\<forall>t k. key_from_trade t = Inr k \<and> \<not> is_blank (t_trade_id t) \<and> repo_knows s1 k \<longrightarrow>
       (\<exists>s3. recorder_record_trade env t s2 = (Inr False, s3) \<and> om_orders s3 = om_orders s2)))"
proof -
  let ?u = "apply_modify_fields ord r" and ?s2 = "snd (modify_finish env ord r s1)"
  have o: "om_orders ?s2 = dict_put (om_orders s1) (o_order_id ord) ?u" "om_repo ?s2 = om_repo s1"
    by (simp_all add: modify_finish_def Let_def)
  have "or_success (fst (modify_finish env ord r s1))" by (simp add: modify_finish_def ok_order_def Let_def)
  moreover have "\<exists>s3. recorder_record_trade env t ?s2 = (Inr False, s3) \<and> om_orders s3 = om_orders ?s2"
    if "key_from_trade t = Inr k" "\<not> is_blank (t_trade_id t)" "repo_knows s1 k" for t k
    using that o(2) by (simp add: recorder_record_trade_def repo_knows_def)
  ultimately show ?thesis using o(1) by (auto simp: case_prod_beta Let_def)
qed

text \<open>The sample order is read, ten shares fill four, and the write-back forgets them.\<close>

definition sample_modify :: modify_request where
  "sample_modify = \<lparr>mr_order_id = ''O1'', mr_quantity = Some 8, mr_price = None, mr_trigger_price = None,
     mr_order_type = None, mr_validity = None, mr_product_type = None\<rparr>"

lemma modify_overwrites_fills_witness:
  "\<exists>o2. dict_get (om_orders (snd (modify_finish live_env sample_live sample_modify
       (snd (recorder_record_trade live_env (sample_trade ''T1'' 4) sample_oms))))) ''O1'' = Some o2 \<and> o_filled_quantity o2 = 0"
proof -
  have "modify_begin live_env sample_modify sample_oms = Inr (Inr sample_live)"
    "o_order_id sample_live = ''O1''" "o_filled_quantity sample_live = 0" by code_simp+
  then show ?thesis
    using modify_overwrites_fills[of live_env sample_modify sample_oms sample_live
        "snd (recorder_record_trade live_env (sample_trade ''T1'' 4) sample_oms)"] by (auto simp: Let_def case_prod_beta)
qed


text \<open>
  The machine that checks broker updates does not follow fills. Once a broker update has
  made the machine of an order, every later update that moves the order is judged by the
  machine's own state, not by the status in the book: an order that fills have completed can
  be moved to any status the machine's state allows.
\<close>

theorem stale_machine:
  "ev_is_terminal env = order_status_is_terminal \<and> \<not> ev_evicted env \<and>
   dict_get (osv_machines (om_validator s)) oid = Some m \<and> osv_enforce (om_validator s) \<and>
   s1 = run_ops rt_step s xs \<and> dict_get (om_orders s1) oid = Some old \<and>
   o_order_id ord = oid \<and> o_status old \<noteq> o_status ord \<longrightarrow>
   dict_get (om_orders (snd (upsert_order env ord s1))) oid =
     Some (if o_status ord \<in> set (sm_allowed (sm_transitions m) (sm_state m)) then ord else old)"
proof (intro impI)
  assume a: "ev_is_terminal env = order_status_is_terminal \<and> \<not> ev_evicted env \<and>
   dict_get (osv_machines (om_validator s)) oid = Some m \<and> osv_enforce (om_validator s) \<and>
   s1 = run_ops rt_step s xs \<and> dict_get (om_orders s1) oid = Some old \<and>
   o_order_id ord = oid \<and> o_status old \<noteq> o_status ord"
  have "om_validator (run_ops rt_step s xs) = om_validator s" for s :: "'a oms"
    by (induction xs arbitrary: s) (auto simp: fills_keep_validator)
  then have v: "om_validator s1 = om_validator s" using a by simp
  then have m: "osv_get_or_create (ev_evicted env) (om_validator s1) oid (o_status old) = (m, om_validator s1)"
    using a by (simp add: osv_get_or_create_def)
  have o: "dict_get (om_orders s1) (o_order_id ord) = Some old" "o_status old \<noteq> o_status ord" using a by blast+
  show "dict_get (om_orders (snd (upsert_order env ord s1))) oid =
     Some (if o_status ord \<in> set (sm_allowed (sm_transitions m) (sm_state m)) then ord else old)"
  proof (cases "o_status ord \<in> set (sm_allowed (sm_transitions m) (sm_state m))")
    case True
    then obtain w where "osv_validate_transition (ev_evicted env) (om_validator s1) (o_order_id ord) (o_status old) (o_status ord) = (Inr (), w)"
      using m a by (auto simp: osv_validate_transition_def sm_transition_to_def sm_can_transition_to_def)
    from upsert_known[OF o this] show ?thesis using True a by (simp add: upsert_order_def order_status_is_terminal_def)
  next
    case False
    then obtain e w where "osv_validate_transition (ev_evicted env) (om_validator s1) (o_order_id ord) (o_status old) (o_status ord) = (Inl e, w)"
      using m a v by (auto simp: osv_validate_transition_def sm_transition_to_def sm_can_transition_to_def)
    moreover have "o_order_id ord = oid" using a by blast
    ultimately show ?thesis using upsert_refused[OF o] o(1) False by (simp add: upsert_order_def)
  qed
qed

text \<open>The sample order, unknown at first, is opened by a broker update, filled, and then cancelled by another.\<close>

definition sample_opened :: "unit oms" where
  "sample_opened = (snd (upsert_order sample_oms_env sample_live
     (sample_oms\<lparr>om_orders := [(''O1'', sample_live\<lparr>o_status := UNKNOWN\<rparr>)]\<rparr>)))"

definition sample_fill :: "unit oms" where
  "sample_fill = run_ops rt_step sample_opened [(sample_oms_env, sample_trade ''T1'' 10)]"

lemma stale_machine_witness:
  "map_option o_status (dict_get (om_orders sample_fill) ''O1'') = Some FILLED \<and>
   dict_get (om_orders (snd (upsert_order sample_oms_env (sample_live\<lparr>o_status := CANCELLED\<rparr>) sample_fill))) ''O1'' =
     Some (sample_live\<lparr>o_status := CANCELLED\<rparr>)"
proof -
  let ?m = "\<lparr>sm_transitions = ORDER_STATUS_TRANSITIONS, sm_state = OPEN\<rparr>"
  let ?f = "sample_live\<lparr>o_status := FILLED, o_filled_quantity := 10, o_avg_price := 100\<rparr>"
  have f: "dict_get (om_orders sample_fill) ''O1'' = Some ?f" by code_simp
  moreover have "dict_get (osv_machines (om_validator sample_opened)) ''O1'' = Some ?m" by code_simp
  moreover have "osv_enforce (om_validator sample_opened)" "\<not> ev_evicted sample_oms_env" "CANCELLED \<in> set (order_allowed OPEN)" by code_simp+
  moreover have "o_order_id (sample_live\<lparr>o_status := CANCELLED\<rparr>) = ''O1''" by code_simp
  ultimately show ?thesis
    using stale_machine[of sample_oms_env sample_opened "''O1''" ?m sample_fill "[(sample_oms_env, sample_trade ''T1'' 10)]" ?f
        "sample_live\<lparr>o_status := CANCELLED\<rparr>"]
    by (simp add: sample_attr sample_fill_def)
qed

end
