(* ===== verification/Reconciliation.thy ===== *)
theory Reconciliation
  imports Position_Manager Placement Order_Updates
begin

text \<open>
  Comparing the core with the broker: the engine that finds drift
  (\<open>application/services/reconciliation_service.py\<close>), the reconcilers of the two brokers
  (\<open>brokers/providers/dhan/portfolio/reconciliation.py\<close> and
  \<open>brokers/providers/upstox/reconciliation/service.py\<close>), healing from a snapshot
  (\<open>ExecutionEngine.apply_mass_status\<close>), the periodic service
  (\<open>application/oms/reconciliation_service.py\<close>) and the placement gate of the trading
  context that it opens. What the broker answers is an argument.
\<close>

section \<open>Finding drift\<close>

text \<open>
  Every kind with the values that its details format; the first text is the order id or the
  exchange, the second the symbol.
\<close>

datatype drift_item =
    FetchError string exn
  | MissingLocalOrder string string
  | MissingBrokerOrder string string order_status
  | StatusMismatch string string order_status order_status
  | FillMismatch string string rat rat
  | AvgPriceMismatch string string rat rat
  | MissingLocalPosition string string rat
  | QuantityMismatch string string rat rat
  | PositionAvgMismatch string string rat rat
  | MissingBrokerPosition string string rat
  | FundsMismatch rat rat
  | FundsUnreadable

fun drift_high :: "drift_item \<Rightarrow> bool" where
  "drift_high (StatusMismatch _ _ _ _) = False"
| "drift_high FundsUnreadable = False"
| "drift_high _ = True"

definition price_tolerance :: rat where
  "price_tolerance = 1 / 100"

definition by_order_id :: "order list \<Rightarrow> (string, order) dict" where
  "by_order_id os = foldl (\<lambda>d ord. if o_order_id ord = [] then d else dict_put d (o_order_id ord) ord) [] os"

definition compare_filled :: "string \<Rightarrow> order \<Rightarrow> order \<Rightarrow> drift_item list" where
  "compare_filled oid l b =
     (if o_filled_quantity l \<noteq> o_filled_quantity b
      then [FillMismatch oid (o_symbol l) (o_filled_quantity l) (o_filled_quantity b)]
      else if 0 < o_filled_quantity l \<and> 0 < o_filled_quantity b \<and>
              price_tolerance < dec_abs (dec_sub (o_avg_price l) (o_avg_price b))
      then [AvgPriceMismatch oid (o_symbol l) (o_avg_price l) (o_avg_price b)]
      else [])"

definition compare_order :: "(string, order) dict \<Rightarrow> string \<times> order \<Rightarrow> drift_item list" where
  "compare_order broker kl =
     (case kl of (oid, l) \<Rightarrow>
        (case dict_get broker oid of
           None \<Rightarrow> (if o_status l \<in> {OPEN, PARTIALLY_FILLED} then [MissingBrokerOrder oid (o_symbol l) (o_status l)] else [])
         | Some b \<Rightarrow>
             (if o_status l \<noteq> o_status b then [StatusMismatch oid (o_symbol l) (o_status l) (o_status b)] else []) @
             compare_filled oid l b))"

definition compare_orders :: "order list \<Rightarrow> order list \<Rightarrow> drift_item list" where
  "compare_orders local broker =
     (let ls = by_order_id local; bs = by_order_id broker in
      map (\<lambda>(oid, b). MissingLocalOrder oid (o_symbol b)) (filter (\<lambda>(oid, b). dict_get ls oid = None) bs) @
      concat (map (compare_order bs) ls))"

definition by_position_key :: "position list \<Rightarrow> (string \<times> string, position) dict" where
  "by_position_key ps = foldl (\<lambda>d p. dict_put d (p_exchange p, p_symbol p) p) [] ps"

definition compare_position :: "(string \<times> string, position) dict \<Rightarrow> (string \<times> string) \<times> position \<Rightarrow> drift_item list" where
  "compare_position local kb =
     (case kb of (k, b) \<Rightarrow>
        (case dict_get local k of
           None \<Rightarrow> [MissingLocalPosition (p_exchange b) (p_symbol b) (p_quantity b)]
         | Some l \<Rightarrow>
             if p_quantity l \<noteq> p_quantity b
             then [QuantityMismatch (p_exchange b) (p_symbol b) (p_quantity l) (p_quantity b)]
             else if p_quantity l \<noteq> 0 \<and> price_tolerance < dec_abs (dec_sub (p_avg_price l) (p_avg_price b))
             then [PositionAvgMismatch (p_exchange b) (p_symbol b) (p_avg_price l) (p_avg_price b)]
             else []))"

definition compare_positions :: "position list \<Rightarrow> position list \<Rightarrow> drift_item list" where
  "compare_positions local broker =
     (let ls = by_position_key local; bs = by_position_key broker in
      concat (map (compare_position ls) bs) @
      map (\<lambda>(k, l). MissingBrokerPosition (p_exchange l) (p_symbol l) (p_quantity l))
        (filter (\<lambda>(k, l). dict_get bs k = None \<and> p_quantity l \<noteq> 0) ls))"

text \<open>Balances are read through their text.\<close>

fun read_balance :: "pos_value \<Rightarrow> rat option" where
  "read_balance (PvNum x) = Some x"
| "read_balance (PvText s) = read_decimal s"
| "read_balance PvNone = None"

definition compare_funds :: "pos_value \<Rightarrow> pos_value \<Rightarrow> rat \<Rightarrow> drift_item list" where
  "compare_funds local broker tolerance =
     (if local = PvNone \<or> broker = PvNone then []
      else case (read_balance local, read_balance broker) of
             (Some l, Some b) \<Rightarrow> if dec_abs (dec_sub l b) \<le> tolerance then [] else [FundsMismatch l b]
           | _ \<Rightarrow> [FundsUnreadable])"

section \<open>Healing from a snapshot\<close>

text \<open>\<open>str(money)\<close>: two decimals, ties to even, and the currency.\<close>

definition money_text :: "rat \<Rightarrow> string" where
  "money_text q =
     (let n = nat \<bar>rhe (100 * q)\<bar> in
      (if q < 0 then ''-'' else []) @ show_nat (n div 100) @ ''.'' @
      [digit_char (n div 10 mod 10), digit_char (n mod 10)] @ '' INR'')"

datatype mass_drift =
    MissingOrderHealed string
  | OrderMismatchHealed string
  | MissingPositionHealed string
  | PositionMismatchHealed string
  | PositionUpdate string

text \<open>Exceptions of an update are logged; what it had changed stays.\<close>

definition mass_order :: "'l oms_env \<Rightarrow> order \<Rightarrow> 'l oms \<Rightarrow> mass_drift list \<times> 'l oms" where
  "mass_order env ord s =
     (if o_order_id ord = [] then ([], s)
      else case get_order s (o_order_id ord) of
             None \<Rightarrow> ([MissingOrderHealed (o_order_id ord)], snd (upsert_order env ord s))
           | Some old \<Rightarrow>
               if o_status old \<noteq> o_status ord \<or> o_filled_quantity old \<noteq> o_filled_quantity ord
               then ([OrderMismatchHealed (o_order_id ord)], snd (upsert_order env ord s))
               else ([], s))"

definition mass_payload :: "position \<Rightarrow> (string, pos_value) dict" where
  "mass_payload p =
     [(''symbol'', PvText (p_symbol p)), (''exchange'', PvText (if p_exchange p = [] then ''NSE'' else p_exchange p)),
      (''quantity'', PvNum (of_int (trunc_int (p_quantity p)))),
      (''avg_price'', PvText (money_text (p_avg_price p))), (''ltp'', PvText (money_text (p_ltp p)))]"

definition mass_position :: "position \<Rightarrow> position_manager \<Rightarrow> mass_drift list \<times> position_manager" where
  "mass_position p pm =
     (let sy = p_symbol p; ex = (if p_exchange p = [] then ''NSE'' else p_exchange p);
          healed = snd (pm_upsert_position pm (mass_payload p)) in
      if sy = [] then ([], pm)
      else case pm_get_position pm (normalize_symbol sy) (normalize_exchange ex) of
             None \<Rightarrow> if trunc_int (p_quantity p) \<noteq> 0 then ([MissingPositionHealed sy], healed) else ([PositionUpdate sy], pm)
           | Some l \<Rightarrow>
               if p_quantity l \<noteq> of_int (trunc_int (p_quantity p)) then ([PositionMismatchHealed sy], healed)
               else ([PositionUpdate sy], healed))"

fun mass_orders :: "('l oms_env \<times> order) list \<Rightarrow> 'l oms \<Rightarrow> mass_drift list \<times> 'l oms" where
  "mass_orders [] s = ([], s)"
| "mass_orders ((env, ord) # xs) s =
     (let (ds, s1) = mass_order env ord s; (es, s2) = mass_orders xs s1 in (ds @ es, s2))"

fun mass_positions :: "position list \<Rightarrow> position_manager \<Rightarrow> mass_drift list \<times> position_manager" where
  "mass_positions [] pm = ([], pm)"
| "mass_positions (p # ps) pm =
     (let (ds, pm1) = mass_position p pm; (es, pm2) = mass_positions ps pm1 in (ds @ es, pm2))"

text \<open>Every update meets a world of its own, the \<open>i\<close>-th the world \<open>envs i\<close>.\<close>

definition apply_mass_status ::
  "(nat \<Rightarrow> 'l oms_env) \<Rightarrow> order list \<Rightarrow> position list \<Rightarrow> 'l oms \<Rightarrow> position_manager \<Rightarrow>
   mass_drift list \<times> 'l oms \<times> position_manager" where
  "apply_mass_status envs orders positions s pm =
     (let (ds, s1) = mass_orders (zip (map envs [0..<length orders]) orders) s;
          (es, pm1) = mass_positions positions pm
      in (ds @ es, s1, pm1))"

section \<open>The reconcilers of the brokers\<close>

record recon_report =
  rr_drift :: "drift_item list"
  rr_orders :: "order list"
  rr_positions :: "position list"
  rr_orders_repaired :: nat
  rr_positions_repaired :: nat

definition fetched :: "string \<Rightarrow> 'a list res \<Rightarrow> 'a list \<times> drift_item list" where
  "fetched what r = (case r of Inl e \<Rightarrow> ([], [FetchError what e]) | Inr xs \<Rightarrow> (xs, []))"

fun repair_order_id :: "drift_item \<Rightarrow> string option" where
  "repair_order_id (MissingLocalOrder oid _) = Some oid"
| "repair_order_id (StatusMismatch oid _ _ _) = Some oid"
| "repair_order_id (FillMismatch oid _ _ _) = Some oid"
| "repair_order_id (AvgPriceMismatch oid _ _ _) = Some oid"
| "repair_order_id _ = None"

text \<open>
  The order manager, which is what both reconcilers are given, has no \<open>upsert_position\<close> and no
  position manager: positions are not repaired here.
\<close>

fun dhan_repair :: "('l oms_env \<times> drift_item) list \<Rightarrow> (string, order) dict \<Rightarrow> 'l oms \<Rightarrow> nat \<times> 'l oms" where
  "dhan_repair [] broker s = (0, s)"
| "dhan_repair ((env, d) # xs) broker s =
     (case (case repair_order_id d of None \<Rightarrow> None
            | Some oid \<Rightarrow> if take 6 oid = ''Broker'' then None else dict_get broker oid) of
        None \<Rightarrow> dhan_repair xs broker s
      | Some b \<Rightarrow>
          (let (e, s1) = upsert_order env b s; (n, s2) = dhan_repair xs broker s1 in
           (if e = None then Suc n else n, s2)))"

definition dhan_reconcile ::
  "(nat \<Rightarrow> 'l oms_env) \<Rightarrow> bool \<Rightarrow> order list res \<Rightarrow> position list res \<Rightarrow> pos_value \<times> pos_value \<Rightarrow>
   order list \<Rightarrow> position list \<Rightarrow> 'l oms \<Rightarrow> recon_report \<times> 'l oms" where
  "dhan_reconcile envs auto_repair orders positions funds local_orders local_positions s =
     (let (os, d1) = fetched ''orders'' orders; (ps, d2) = fetched ''positions'' positions;
          drift = d1 @ d2 @ compare_orders local_orders os @ compare_positions local_positions ps @
            compare_funds (fst funds) (snd funds) price_tolerance;
          (n, s1) = (if auto_repair
            then dhan_repair (zip (map envs [0..<length drift]) drift) (foldl (\<lambda>d ord. dict_put d (o_order_id ord) ord) [] os) s
            else (0, s))
      in (\<lparr>rr_drift = drift, rr_orders = os, rr_positions = ps, rr_orders_repaired = n, rr_positions_repaired = 0\<rparr>, s1))"

text \<open>
  The Upstox reconciler repairs a missing order with the payload of the drift item, a
  dictionary, where the order manager expects an order.
\<close>

definition upstox_reconcile ::
  "bool \<Rightarrow> order list res \<Rightarrow> position list res \<Rightarrow> order list \<Rightarrow> position list \<Rightarrow> recon_report res" where
  "upstox_reconcile auto_repair orders positions local_orders local_positions =
     (let (os, d1) = fetched ''orders'' orders; (ps, d2) = fetched ''positions'' positions;
          drift = d1 @ d2 @ compare_orders local_orders os @ compare_positions local_positions ps
      in if auto_repair \<and> (\<exists>d \<in> set drift. case d of MissingLocalOrder _ _ \<Rightarrow> True | _ \<Rightarrow> False)
         then Inl (AttributeError ''dict'' ''order_id'')
         else Inr \<lparr>rr_drift = drift, rr_orders = os, rr_positions = ps, rr_orders_repaired = 0, rr_positions_repaired = 0\<rparr>)"

section \<open>The service and the gate\<close>

datatype recon_event = ReconCompleted nat nat bool | ReconDrift nat "drift_item list"

text \<open>
  The fields of the service, with the book it reconciles and the flag of the trading context
  that its callback sets. \<open>rs_engine\<close>, \<open>rs_bus\<close>, \<open>rs_callback\<close>: what it was given.
\<close>

record 'l session =
  se_oms :: "'l oms"
  se_pm :: position_manager
  se_ready :: bool
  rs_engine :: bool
  rs_bus :: bool
  rs_callback :: bool
  rs_notified :: bool
  rs_last_drift :: nat
  rs_last_error :: "exn option"
  rs_runs :: nat
  rs_last_run :: "rat option"
  rs_requested :: bool
  rs_stopping :: bool
  rs_events :: "recon_event list"

definition attach_reconciliation :: "'l oms \<Rightarrow> position_manager \<Rightarrow> bool \<Rightarrow> 'l session" where
  "attach_reconciliation s pm bus =
     \<lparr>se_oms = set_placement_gate s, se_pm = pm, se_ready = False, rs_engine = True, rs_bus = bus, rs_callback = True,
      rs_notified = False, rs_last_drift = 0, rs_last_error = None, rs_runs = 0, rs_last_run = None,
      rs_requested = False, rs_stopping = False, rs_events = []\<rparr>"

definition recon_finish :: "rat \<Rightarrow> drift_item list \<Rightarrow> 'l session \<Rightarrow> 'l session" where
  "recon_finish now items z =
     (let n = rs_last_drift z; runs = Suc (rs_runs z) in
      z\<lparr>rs_runs := runs, rs_last_run := Some now,
        rs_events := rs_events z @ (if \<not> rs_bus z then [] else
          if 0 < n then [ReconCompleted n runs True, ReconDrift n items] else [ReconCompleted 0 runs False])\<rparr>)"

definition notify_first_success :: "'l session \<Rightarrow> 'l session" where
  "notify_first_success z =
     (if rs_notified z \<or> \<not> rs_callback z then z else z\<lparr>rs_notified := True, se_ready := True\<rparr>)"

definition recon_run_once ::
  "(nat \<Rightarrow> 'l oms_env) \<Rightarrow> rat \<Rightarrow> (order list \<Rightarrow> position list \<Rightarrow> 'l oms \<Rightarrow> recon_report res \<times> 'l oms) \<Rightarrow>
   'l session \<Rightarrow> recon_report option \<times> 'l session" where
  "recon_run_once envs now reconcile z =
     (let (res, s1) = reconcile (get_orders (se_oms z) None None) (pm_get_positions (se_pm z)) (se_oms z) in
      case res of
        Inl e \<Rightarrow> (None, recon_finish now [] (z\<lparr>se_oms := s1, rs_last_error := Some e\<rparr>))
      | Inr rep \<Rightarrow>
          (let (s2, pm2) = (if rs_engine z then snd (apply_mass_status envs (rr_orders rep) (rr_positions rep) s1 (se_pm z))
                 else (s1, se_pm z));
               z1 = z\<lparr>se_oms := s2, se_pm := pm2, rs_last_drift := length (rr_drift rep), rs_last_error := None\<rparr>;
               z2 = (if rr_drift rep = [] then notify_first_success z1 else z1)
           in (Some rep, recon_finish now (rr_drift rep) z2)))"

definition request_reconciliation :: "'l session \<Rightarrow> 'l session" where
  "request_reconciliation z = z\<lparr>rs_requested := True\<rparr>"

definition stop_reconciliation :: "'l session \<Rightarrow> 'l session" where
  "stop_reconciliation z = z\<lparr>rs_stopping := True, rs_requested := True\<rparr>"

text \<open>One turn of the loop, after the wait for a request or for the interval.\<close>

definition recon_turn ::
  "(nat \<Rightarrow> 'l oms_env) \<Rightarrow> rat \<Rightarrow> (order list \<Rightarrow> position list \<Rightarrow> 'l oms \<Rightarrow> recon_report res \<times> 'l oms) \<Rightarrow>
   'l session \<Rightarrow> 'l session" where
  "recon_turn envs now reconcile z =
     (if rs_stopping z then z else snd (recon_run_once envs now reconcile (z\<lparr>rs_requested := False\<rparr>)))"

definition reconciliation_gate :: "'l session \<Rightarrow> bool \<times> string option" where
  "reconciliation_gate z =
     (if se_ready z then (True, None) else (False, Some ''Orders blocked until post-restart reconciliation completes''))"

definition session_place ::
  "'l oms_env \<Rightarrow> string \<Rightarrow> command \<Rightarrow> broker option \<Rightarrow> 'l session \<Rightarrow> order_result res \<times> 'l session" where
  "session_place env fresh c submit z =
     (let (r, s1) = place_order (env\<lparr>ev_gate := reconciliation_gate z\<rparr>) fresh c submit (se_oms z) in (r, z\<lparr>se_oms := s1\<rparr>))"

section \<open>Facts about comparing\<close>

lemma by_key_get:
  "dict_get (foldl (\<lambda>d x. if skip x then d else dict_put d (key x) x) d xs) k =
   (case find (\<lambda>x. key x = k \<and> \<not> skip x) (rev xs) of Some x \<Rightarrow> Some x | None \<Rightarrow> dict_get d k)"
proof (induction xs rule: rev_induct)
  case (snoc x xs)
  then show ?case by (auto split: option.split)
qed simp

lemma by_key_wf: "dict_wf d \<Longrightarrow> dict_wf (foldl (\<lambda>d x. if skip x then d else dict_put d (key x) x) d xs)"
  by (induction xs arbitrary: d) auto

lemma by_order_id_get:
  "dict_get (by_order_id os) oid = (if oid = [] then None else find (\<lambda>ord. o_order_id ord = oid) (rev os))"
proof (cases "oid = []")
  case True
  then show ?thesis by (simp add: by_order_id_def by_key_get find_None_iff split: option.split)
next
  case False
  have "(\<lambda>ord :: order. o_order_id ord = oid \<and> o_order_id ord \<noteq> []) = (\<lambda>ord. o_order_id ord = oid)" using False by auto
  then show ?thesis using False by (simp add: by_order_id_def by_key_get split: option.split)
qed

lemma by_order_id_wf [simp]: "dict_wf (by_order_id os)"
  unfolding by_order_id_def by (rule by_key_wf) simp

lemma by_position_key_get:
  "dict_get (by_position_key ps) k = find (\<lambda>p. (p_exchange p, p_symbol p) = k) (rev ps)"
  using by_key_get[of "\<lambda>_. False" "\<lambda>p. (p_exchange p, p_symbol p)" "[]" ps k]
  by (simp add: by_position_key_def split: option.splits)

lemma by_position_key_wf [simp]: "dict_wf (by_position_key ps)"
  unfolding by_position_key_def using by_key_wf[of "[]" "\<lambda>_. False" "\<lambda>p. (p_exchange p, p_symbol p)" ps] by simp

definition orders_agree :: "order option \<Rightarrow> order option \<Rightarrow> bool" where
  "orders_agree l b =
     (case (l, b) of
        (None, None) \<Rightarrow> True
      | (None, Some _) \<Rightarrow> False
      | (Some x, None) \<Rightarrow> o_status x \<notin> {OPEN, PARTIALLY_FILLED}
      | (Some x, Some y) \<Rightarrow>
          o_status x = o_status y \<and> o_filled_quantity x = o_filled_quantity y \<and>
          (o_filled_quantity x \<le> 0 \<or> dec_abs (dec_sub (o_avg_price x) (o_avg_price y)) \<le> price_tolerance))"

definition positions_agree :: "position option \<Rightarrow> position option \<Rightarrow> bool" where
  "positions_agree l b =
     (case (l, b) of
        (None, None) \<Rightarrow> True
      | (None, Some _) \<Rightarrow> False
      | (Some x, None) \<Rightarrow> p_quantity x = 0
      | (Some x, Some y) \<Rightarrow>
          p_quantity x = p_quantity y \<and>
          (p_quantity x = 0 \<or> dec_abs (dec_sub (p_avg_price x) (p_avg_price y)) \<le> price_tolerance))"

lemma dict_all: "dict_wf d \<Longrightarrow> (\<forall>kv \<in> set d. P kv) \<longleftrightarrow> (\<forall>k v. dict_get d k = Some v \<longrightarrow> P (k, v))"
  by (auto simp: dict_mem[symmetric])

lemma compare_filled_none:
  "compare_filled oid x y = [] \<longleftrightarrow>
   o_filled_quantity x = o_filled_quantity y \<and>
   (o_filled_quantity x \<le> 0 \<or> dec_abs (dec_sub (o_avg_price x) (o_avg_price y)) \<le> price_tolerance)"
  by (auto simp: compare_filled_def)

lemma orders_agree_iff:
  "(\<forall>v. dict_get b k = Some v \<longrightarrow> dict_get l k \<noteq> None) \<and>
   (\<forall>v. dict_get l k = Some v \<longrightarrow> compare_order b (k, v) = []) \<longleftrightarrow> orders_agree (dict_get l k) (dict_get b k)"
  by (cases "dict_get b k"; cases "dict_get l k") (simp_all add: orders_agree_def compare_order_def compare_filled_none)

lemma positions_agree_iff:
  "(\<forall>v. dict_get b k = Some v \<longrightarrow> compare_position l (k, v) = []) \<and>
   (\<forall>v. dict_get l k = Some v \<longrightarrow> dict_get b k \<noteq> None \<or> p_quantity v = 0) \<longleftrightarrow>
   positions_agree (dict_get l k) (dict_get b k)"
  by (cases "dict_get b k"; cases "dict_get l k") (auto simp: positions_agree_def compare_position_def)

text \<open>
  C39: the engine reports no drift exactly when the two books agree: every order the broker has
  is known with its status, its filled quantity and, up to a cent, its average price, and no
  order that is open here is unknown there; and likewise for positions. Where a snapshot
  lists an order or position twice, the last entry counts; orders without an id are passed
  over.
\<close>

theorem drift_free_iff_agree:
  "(compare_orders local broker = [] \<longleftrightarrow>
      (\<forall>oid. orders_agree (dict_get (by_order_id local) oid) (dict_get (by_order_id broker) oid))) \<and>
   (compare_positions plocal pbroker = [] \<longleftrightarrow>
      (\<forall>k. positions_agree (dict_get (by_position_key plocal) k) (dict_get (by_position_key pbroker) k))) \<and>
   dict_get (by_order_id broker) oid = (if oid = [] then None else find (\<lambda>ord. o_order_id ord = oid) (rev broker)) \<and>
   dict_get (by_position_key pbroker) k = find (\<lambda>p. (p_exchange p, p_symbol p) = k) (rev pbroker)"
proof (intro conjI)
  let ?l = "by_order_id local" and ?b = "by_order_id broker"
  have "compare_orders local broker = [] \<longleftrightarrow>
      (\<forall>kv \<in> set ?b. dict_get ?l (fst kv) \<noteq> None) \<and> (\<forall>kv \<in> set ?l. compare_order ?b kv = [])"
    by (simp add: compare_orders_def Let_def filter_empty_conv case_prod_beta)
  also have "\<dots> \<longleftrightarrow> (\<forall>k v. dict_get ?b k = Some v \<longrightarrow> dict_get ?l k \<noteq> None) \<and>
      (\<forall>k v. dict_get ?l k = Some v \<longrightarrow> compare_order ?b (k, v) = [])"
    by (simp add: dict_all)
  also have "\<dots> \<longleftrightarrow> (\<forall>oid. orders_agree (dict_get ?l oid) (dict_get ?b oid))"
    using orders_agree_iff[of ?b _ ?l] by blast
  finally show "compare_orders local broker = [] \<longleftrightarrow> (\<forall>oid. orders_agree (dict_get ?l oid) (dict_get ?b oid))" .
next
  let ?l = "by_position_key plocal" and ?b = "by_position_key pbroker"
  have "compare_positions plocal pbroker = [] \<longleftrightarrow>
      (\<forall>kv \<in> set ?b. compare_position ?l kv = []) \<and> (\<forall>kv \<in> set ?l. dict_get ?b (fst kv) \<noteq> None \<or> p_quantity (snd kv) = 0)"
    by (simp add: compare_positions_def Let_def filter_empty_conv case_prod_beta)
  also have "\<dots> \<longleftrightarrow> (\<forall>k v. dict_get ?b k = Some v \<longrightarrow> compare_position ?l (k, v) = []) \<and>
      (\<forall>k v. dict_get ?l k = Some v \<longrightarrow> dict_get ?b k \<noteq> None \<or> p_quantity v = 0)"
    by (simp add: dict_all)
  also have "\<dots> \<longleftrightarrow> (\<forall>k. positions_agree (dict_get ?l k) (dict_get ?b k))"
    using positions_agree_iff[of ?b _ ?l] by blast
  finally show "compare_positions plocal pbroker = [] \<longleftrightarrow> (\<forall>k. positions_agree (dict_get ?l k) (dict_get ?b k))" .
qed (rule by_order_id_get, rule by_position_key_get)

section \<open>Facts about healing\<close>

lemma strip_keeps:
  assumes "c \<in> set s" "\<not> is_space c"
  shows "c \<in> set (py_strip s)"
proof -
  have d: "c \<in> set (dropWhile is_space xs)" if "c \<in> set xs" for xs
    using that assms(2) by (induction xs) auto
  show ?thesis using d[of "rev (dropWhile is_space s)"] d[OF assms(1)] by (simp add: py_strip_def)
qed

lemma dot_split:
  "c \<in> set u \<Longrightarrow> c \<noteq> CHR ''.'' \<Longrightarrow>
   c \<in> set (takeWhile (\<lambda>c. c \<noteq> CHR ''.'') u @ drop (Suc (length (takeWhile (\<lambda>c. c \<noteq> CHR ''.'') u))) u)"
  by (induction u) auto

text \<open>A text with a letter in it is no number.\<close>

lemma read_decimal_letter:
  assumes "c \<in> set s" "\<not> is_space c" "c \<notin> set ''+-.''" "\<not> is_digit c"
  shows "read_decimal s = None"
proof -
  define b where "b = py_strip s"
  define u where "u = (if b \<noteq> [] \<and> hd b \<in> set ''+-'' then tl b else b)"
  define i where "i = takeWhile (\<lambda>c. c \<noteq> CHR ''.'') u"
  define f where "f = drop (Suc (length i)) u"
  have "c \<in> set b" using strip_keeps[OF assms(1,2)] by (simp add: b_def)
  then have "c \<in> set u" using assms(3) by (cases b) (auto simp: u_def)
  then have "c \<in> set (i @ f)" using dot_split[of c u] assms(3) by (simp add: i_def f_def)
  then have "\<not> list_all is_digit (i @ f)" using assms(4) by (auto simp: list_all_iff)
  then show ?thesis unfolding read_decimal_def Let_def b_def[symmetric] u_def[symmetric] i_def[symmetric] f_def[symmetric]
    by simp
qed

lemma money_text_unreadable: "dec_field (Some (PvText (money_text q))) = Inl InvalidOperation"
proof -
  have "CHR ''R'' \<in> set (money_text q)" by (simp add: money_text_def Let_def)
  moreover have "\<not> is_space (CHR ''R'')" "CHR ''R'' \<notin> set ''+-.''" "\<not> is_digit (CHR ''R'')"
    by (simp_all add: is_space_def is_digit_def)
  ultimately have "read_decimal (money_text q) = None" by (rule read_decimal_letter)
  then show ?thesis by (simp add: money_text_def Let_def)
qed

lemma mass_payload_refused: "pm_upsert_position pm (mass_payload p) = (Inl InvalidOperation, pm)"
proof -
  define n where "n = normalize_snapshot (mass_payload p)"
  have k: "dict_get_or snapshot_keys ''symbol'' ''symbol'' = ''symbol''"
    "dict_get_or snapshot_keys ''exchange'' ''exchange'' = ''exchange''"
    "dict_get_or snapshot_keys ''quantity'' ''quantity'' = ''quantity''"
    "dict_get_or snapshot_keys ''avg_price'' ''avg_price'' = ''avg_price''"
    "dict_get_or snapshot_keys ''ltp'' ''ltp'' = ''ltp''"
    by code_simp+
  have q: "dict_get n ''quantity'' = Some (PvNum (of_int (trunc_int (p_quantity p))))"
    and a: "dict_get n ''avg_price'' = Some (PvText (money_text (p_avg_price p)))"
    by (simp_all add: n_def normalize_snapshot_def mass_payload_def k)
  show ?thesis
    unfolding pm_upsert_position_def n_def[symmetric] Let_def q a money_text_unreadable int_field.simps by simp
qed

lemma mass_position_pm [simp]: "snd (mass_position p pm) = pm"
  by (simp add: mass_position_def Let_def mass_payload_refused split: option.split)

lemma mass_positions_pm: "mass_positions ps pm = (concat (map (\<lambda>p. fst (mass_position p pm)) ps), pm)"
proof (induction ps)
  case (Cons p ps)
  obtain ds where "mass_position p pm = (ds, pm)" using mass_position_pm[of p pm] by (metis prod.collapse)
  then show ?case using Cons by simp
qed simp

text \<open>The validator refuses to move the order from the status the book has.\<close>

definition refuses :: "'l oms_env \<Rightarrow> order_state_validator \<Rightarrow> order \<Rightarrow> order \<Rightarrow> bool" where
  "refuses env v old ord \<longleftrightarrow>
     o_status old \<noteq> o_status ord \<and>
     fst (osv_validate_transition (ev_evicted env) v (o_order_id ord) (o_status old) (o_status ord)) \<noteq> Inr ()"

definition same_view :: "string \<Rightarrow> order_state_validator \<Rightarrow> order_state_validator \<Rightarrow> bool" where
  "same_view oid v w \<longleftrightarrow> osv_transitions v = osv_transitions w \<and> osv_enforce v = osv_enforce w \<and>
     dict_get (osv_machines v) oid = dict_get (osv_machines w) oid"

lemma refuses_view: "same_view (o_order_id ord) v w \<Longrightarrow> refuses env v old ord = refuses env w old ord"
  by (auto simp: refuses_def same_view_def osv_validate_transition_def osv_get_or_create_def Let_def
      split: option.splits sum.splits if_splits)

lemma validate_view:
  "oid \<noteq> k \<Longrightarrow> same_view oid (snd (osv_validate_transition gone v k old new)) v"
  by (auto simp: same_view_def osv_validate_transition_def osv_get_or_create_def Let_def split: option.split sum.split)

lemma flush_none: "dict_get (om_buffer s) oid = None \<Longrightarrow> flush_pending_trades env oid (publish env ev s) = (None, publish env ev s)"
  by (simp add: flush_pending_trades_def publish_def)

lemma publish_fields [simp]:
  "om_orders (publish env ev s) = om_orders s" "om_buffer (publish env ev s) = om_buffer s"
  "om_validator (publish env ev s) = om_validator s"
  by (simp_all add: publish_def)

lemma lifecycle_heals:
  assumes "dict_get (om_buffer s) (o_order_id ord) = None" "lifecycle_upsert env ord s = (e, s1)"
  shows "om_buffer s1 = om_buffer s \<and> (\<forall>oid. oid \<noteq> o_order_id ord \<longrightarrow> same_view oid (om_validator s1) (om_validator s)) \<and>
    (om_orders s1 = dict_put (om_orders s) (o_order_id ord) ord \<or>
     (om_orders s1 = om_orders s \<and> (\<exists>old. dict_get (om_orders s) (o_order_id ord) = Some old \<and> refuses env (om_validator s) old ord)))"
proof -
  have r: "same_view oid v v" for oid v by (simp add: same_view_def)
  show ?thesis
  proof (cases "\<exists>old. dict_get (om_orders s) (o_order_id ord) = Some old \<and> o_status old \<noteq> o_status ord")
    case False
    then have e: "(case dict_get (om_orders s) (o_order_id ord) of
            Some old \<Rightarrow> if o_status old \<noteq> o_status ord then Some (o_status old) else None | None \<Rightarrow> None) = None"
      by (auto split: option.split)
    show ?thesis using assms(2)
      by (auto simp: lifecycle_upsert_def e flush_none assms(1) store_order_def r Let_def)
  next
    case True
    then obtain old where old: "dict_get (om_orders s) (o_order_id ord) = Some old" "o_status old \<noteq> o_status ord" by blast
    obtain v w where v: "osv_validate_transition (ev_evicted env) (om_validator s) (o_order_id ord) (o_status old) (o_status ord) = (v, w)"
      by fastforce
    have w: "oid \<noteq> o_order_id ord \<Longrightarrow> same_view oid w (om_validator s)" for oid
      using validate_view[of oid "o_order_id ord" "ev_evicted env" "om_validator s" "o_status old" "o_status ord"] by (simp add: v)
    show ?thesis
    proof (cases v)
      case (Inl x)
      then show ?thesis using assms(2) old w by (simp add: lifecycle_upsert_def v refuses_def) auto
    next
      case (Inr x)
      obtain t s3 where t: "(case ev_is_terminal env (o_status ord) of
            Inl e \<Rightarrow> (Inl e, store_order ord (s\<lparr>om_validator := w\<rparr>))
          | Inr b \<Rightarrow> (Inr (), if b then (store_order ord (s\<lparr>om_validator := w\<rparr>))\<lparr>om_active :=
              map_option (\<lambda>n. n - 1) (om_active (store_order ord (s\<lparr>om_validator := w\<rparr>)))\<rparr>
            else store_order ord (s\<lparr>om_validator := w\<rparr>))) = (t, s3)"
        by fastforce
      have s3: "om_buffer s3 = om_buffer s" "om_validator s3 = w" "om_orders s3 = dict_put (om_orders s) (o_order_id ord) ord"
        using t by (auto simp: store_order_def split: sum.splits if_splits)
      have "s1 = s3 \<or> s1 = publish env (OrderUpdated ord None) s3"
        using assms old Inr t s3
        by (cases t) (auto simp: lifecycle_upsert_def v flush_none Let_def)
      then show ?thesis using s3 w by auto
    qed
  qed
qed

lemma upsert_heals:
  assumes "dict_get (om_buffer s) (o_order_id ord) = None" and s'_def: "s' = snd (upsert_order env ord s)"
  shows "om_buffer s' = om_buffer s" "oid \<noteq> o_order_id ord \<Longrightarrow> same_view oid (om_validator s') (om_validator s)"
    "om_orders s' = dict_put (om_orders s) (o_order_id ord) ord \<or>
     (om_orders s' = om_orders s \<and> (\<exists>old. dict_get (om_orders s) (o_order_id ord) = Some old \<and> refuses env (om_validator s) old ord))"
proof -
  obtain e s1 where l: "lifecycle_upsert env ord s = (e, s1)" by fastforce
  have "om_buffer s' = om_buffer s1 \<and> om_validator s' = om_validator s1 \<and> om_orders s' = om_orders s1"
    by (simp add: s'_def upsert_order_def l persist_order_def Let_def split: option.split sum.split)
  then show "om_buffer s' = om_buffer s" "oid \<noteq> o_order_id ord \<Longrightarrow> same_view oid (om_validator s') (om_validator s)"
    "om_orders s' = dict_put (om_orders s) (o_order_id ord) ord \<or>
     (om_orders s' = om_orders s \<and> (\<exists>old. dict_get (om_orders s) (o_order_id ord) = Some old \<and> refuses env (om_validator s) old ord))"
    using lifecycle_heals[OF assms(1) l] by simp_all
qed

definition agrees_with :: "order \<Rightarrow> order option \<Rightarrow> bool" where
  "agrees_with ord e \<longleftrightarrow> (\<exists>b. e = Some b \<and> o_status b = o_status ord \<and> o_filled_quantity b = o_filled_quantity ord)"

definition refused_in :: "'l oms_env \<Rightarrow> order \<Rightarrow> 'l oms \<Rightarrow> bool" where
  "refused_in env ord s \<longleftrightarrow> (\<exists>old. dict_get (om_orders s) (o_order_id ord) = Some old \<and> refuses env (om_validator s) old ord)"

lemma mass_order_heals:
  assumes "o_order_id ord \<noteq> []" "dict_get (om_buffer s) (o_order_id ord) = None" "mass_order env ord s = (ds, s')"
  shows "om_buffer s' = om_buffer s \<and> om_broker s' = om_broker s \<and>
    (\<forall>oid. oid \<noteq> o_order_id ord \<longrightarrow> same_view oid (om_validator s') (om_validator s) \<and>
       dict_get (om_orders s') oid = dict_get (om_orders s) oid) \<and>
    (agrees_with ord (dict_get (om_orders s') (o_order_id ord)) \<or>
     dict_get (om_orders s') (o_order_id ord) = dict_get (om_orders s) (o_order_id ord) \<and> refused_in env ord s)"
proof -
  have s': "s' = snd (upsert_order env ord s) \<or> s' = s \<and> agrees_with ord (dict_get (om_orders s) (o_order_id ord))"
    using assms(1,3) by (auto simp: mass_order_def get_order_def agrees_with_def split: option.splits if_splits)
  then show ?thesis
  proof
    assume u: "s' = snd (upsert_order env ord s)"
    have "om_broker s' = om_broker s" using frame_upsert[of s env ord] by (simp add: frame_def u)
    moreover have "agrees_with ord (Some ord)" by (simp add: agrees_with_def)
    ultimately show ?thesis using upsert_heals[OF assms(2) u] by (auto simp: refused_in_def)
  qed (simp add: same_view_def)
qed

lemma mass_orders_heal:
  assumes "distinct (map (o_order_id \<circ> snd) xs)"
    "\<forall>(env, ord) \<in> set xs. o_order_id ord \<noteq> [] \<and> dict_get (om_buffer s) (o_order_id ord) = None"
    "mass_orders xs s = (ds, s')"
  shows "om_broker s' = om_broker s \<and>
    (\<forall>oid. oid \<notin> set (map (o_order_id \<circ> snd) xs) \<longrightarrow> dict_get (om_orders s') oid = dict_get (om_orders s) oid) \<and>
    (\<forall>(env, ord) \<in> set xs. agrees_with ord (dict_get (om_orders s') (o_order_id ord)) \<or>
       dict_get (om_orders s') (o_order_id ord) = dict_get (om_orders s) (o_order_id ord) \<and> refused_in env ord s)"
  using assms
proof (induction xs arbitrary: s ds)
  case (Cons x xs)
  obtain env ord where x: "x = (env, ord)" by (cases x)
  obtain ds1 s1 where 1: "mass_order env ord s = (ds1, s1)" by fastforce
  obtain ds2 where 2: "mass_orders xs s1 = (ds2, s')" using Cons.prems(3) by (auto simp: x 1 split: prod.splits)
  have h: "o_order_id ord \<noteq> []" "dict_get (om_buffer s) (o_order_id ord) = None" using Cons.prems(2) by (auto simp: x)
  note m = mass_order_heals[OF h 1]
  have d: "distinct (map (o_order_id \<circ> snd) xs)" "o_order_id ord \<notin> set (map (o_order_id \<circ> snd) xs)"
    using Cons.prems(1) by (simp_all add: x comp_def)
  have b: "\<forall>(env, ord) \<in> set xs. o_order_id ord \<noteq> [] \<and> dict_get (om_buffer s1) (o_order_id ord) = None"
    using Cons.prems(2) m by auto
  note ih = Cons.IH[OF d(1) b 2]
  have other: "o_order_id o2 \<noteq> o_order_id ord" if "(e2, o2) \<in> set xs" for e2 o2
    using that d(2) by force
  have same: "refused_in e2 o2 s1 = refused_in e2 o2 s" "dict_get (om_orders s1) (o_order_id o2) = dict_get (om_orders s) (o_order_id o2)"
    if "(e2, o2) \<in> set xs" for e2 o2
    using m other[OF that] refuses_view[of o2 "om_validator s1" "om_validator s" e2] by (auto simp: refused_in_def)
  have own: "dict_get (om_orders s') (o_order_id ord) = dict_get (om_orders s1) (o_order_id ord)" using ih d(2) by blast
  show ?case
  proof (intro conjI ballI)
    show "om_broker s' = om_broker s" using ih m by simp
    show "\<forall>oid. oid \<notin> set (map (o_order_id \<circ> snd) (x # xs)) \<longrightarrow> dict_get (om_orders s') oid = dict_get (om_orders s) oid"
      using ih m by (auto simp: x)
    fix y assume y: "y \<in> set (x # xs)"
    show "case y of (env, ord) \<Rightarrow> agrees_with ord (dict_get (om_orders s') (o_order_id ord)) \<or>
       dict_get (om_orders s') (o_order_id ord) = dict_get (om_orders s) (o_order_id ord) \<and> refused_in env ord s"
    proof (cases "y = x")
      case True
      then show ?thesis using m own by (simp add: x)
    next
      case False
      obtain e2 o2 where y2: "y = (e2, o2)" by (cases y)
      then have "(e2, o2) \<in> set xs" using y False by simp
      then show ?thesis using ih same[of e2 o2] by (auto simp: y2)
    qed
  qed
qed simp

section \<open>Facts about the gate\<close>

text \<open>No operation of the core touches the gate.\<close>

lemma gated_fields [simp]:
  "om_gated (publish env ev s) = om_gated s" "om_gated (store_order ord s) = om_gated s"
  "om_gated (store_under c ord s) = om_gated s" "om_gated (release_all c s) = om_gated s"
  "om_gated (persist_order env ord s) = om_gated s" "om_gated (commit_fill f s) = om_gated s"
  by (simp_all add: publish_def store_order_def store_under_def release_all_def release_reservation_def persist_order_def
      commit_fill_def split: option.split)

lemma gated_mark: "mark_trade env k s = (r, s') \<Longrightarrow> om_gated s' = om_gated s"
  by (auto simp: mark_trade_def split: option.splits prod.splits)

lemma gated_persist_fill: "persist_fill_to_ledger env f ord t s = (r, s') \<Longrightarrow> om_gated s' = om_gated s"
  by (auto simp: persist_fill_to_ledger_def split: option.splits sum.splits prod.splits)

lemma gated_flush_known: "om_gated (snd (flush_known env ko ord t s)) = om_gated s"
  by (auto simp: flush_known_def publish_applied_def Let_def dest!: gated_mark gated_persist_fill
      split: sum.split option.split prod.split)

lemma gated_flush_all: "om_gated (snd (flush_all env ts s)) = om_gated s"
proof (induction ts arbitrary: s)
  case (Cons t ts)
  obtain e s1 where 1: "flush_one env t s = (e, s1)" by fastforce
  have "om_gated s1 = om_gated s" using 1 gated_flush_known[of env _ _ t s]
    by (auto simp: flush_one_def split: option.splits sum.splits if_splits) (metis snd_conv)+
  then show ?case using Cons by (auto simp: 1 split: option.split)
qed simp

lemma gated_lifecycle: "om_gated (snd (lifecycle_upsert env ord s)) = om_gated s"
  by (auto simp: lifecycle_upsert_def flush_pending_trades_def gated_flush_all Let_def
      split: option.split sum.split prod.split)

lemma gated_upsert: "om_gated (snd (upsert_order env ord s)) = om_gated s"
proof -
  obtain e s1 where l: "lifecycle_upsert env ord s = (e, s1)" by fastforce
  then show ?thesis using gated_lifecycle[of env ord s] by (simp add: upsert_order_def Let_def split: option.split sum.split)
qed

lemma gated_reserve: "check_and_reserve env fid c s = (r, s') \<Longrightarrow> om_gated s' = om_gated s"
  by (auto simp: check_and_reserve_def lookup_durable_order_def Let_def split: option.splits sum.splits prod.splits if_splits)

lemma gate_blocks:
  assumes "om_gated s" "\<not> fst (ev_gate env)" "place_order env fid c submit s = (r, s')"
  shows "om_gated s' \<and> om_broker s' = om_broker s"
proof -
  obtain r1 s1 where 1: "check_and_reserve env fid (cm_correlation_id c) s = (r1, s1)" by fastforce
  have g1: "om_gated s1" "om_broker s1 = om_broker s" using gated_reserve[OF 1] reserve_parts(1)[OF 1] assms(1) by simp_all
  show ?thesis
  proof (cases "\<exists>oid. r1 = Inr (Inr oid)")
    case False
    then show ?thesis using assms(3) g1 by (auto simp: place_order_def 1 Let_def split: sum.splits)
  next
    case True
    then obtain oid where oid: "r1 = Inr (Inr oid)" by blast
    obtain b m where "ev_gate env = (b, m)" by fastforce
    then obtain x where "check_placement_gate env s1 = Some x" using g1(1) assms(2) by (simp add: check_placement_gate_def)
    then have "\<exists>res s2. build_and_validate env oid c s1 = (Inr (Inl res), s2) \<and> om_gated s2 \<and> om_broker s2 = om_broker s1"
      using g1(1) by (simp add: build_and_validate_def)
    then show ?thesis using assms(3) g1 by (auto simp: place_order_def 1 oid Let_def)
  qed
qed

definition quiet :: "'l oms \<Rightarrow> 'l oms \<Rightarrow> bool" where
  "quiet s s' \<longleftrightarrow> om_gated s' = om_gated s \<and> om_broker s' = om_broker s"

lemma quiet_refl [simp]: "quiet s s"
  by (simp add: quiet_def)

lemma quiet_trans: "quiet s s' \<Longrightarrow> quiet s' s'' \<Longrightarrow> quiet s s''"
  by (simp add: quiet_def)

lemma quiet_upsert: "quiet s (snd (upsert_order env ord s))"
  using frame_upsert[of s env ord] gated_upsert[of env ord s] by (simp add: quiet_def frame_def)

lemma quiet_repair: "dhan_repair xs broker s = (n, s') \<Longrightarrow> quiet s s'"
proof (induction xs arbitrary: s n s')
  case (Cons x xs)
  obtain env d where x: "x = (env, d)" by (cases x)
  define b where "b = (case repair_order_id d of None \<Rightarrow> None
      | Some oid \<Rightarrow> if take 6 oid = ''Broker'' then None else dict_get broker oid)"
  show ?case
  proof (cases b)
    case None
    then show ?thesis using Cons by (simp add: x flip: b_def)
  next
    case (Some ord)
    obtain e s1 where 1: "upsert_order env ord s = (e, s1)" by fastforce
    obtain m s2 where 2: "dhan_repair xs broker s1 = (m, s2)" by fastforce
    have "s' = s2" using Cons.prems Some 1 2 by (simp add: x flip: b_def split: if_splits)
    then show ?thesis using Cons.IH[OF 2] quiet_upsert[of s env ord] by (simp add: 1 quiet_def)
  qed
qed (simp add: quiet_def)

lemma quiet_mass_orders: "mass_orders xs s = (ds, s') \<Longrightarrow> quiet s s'"
proof (induction xs arbitrary: s ds)
  case (Cons x xs)
  obtain env ord where x: "x = (env, ord)" by (cases x)
  obtain ds1 s1 where 1: "mass_order env ord s = (ds1, s1)" by fastforce
  obtain ds2 where 2: "mass_orders xs s1 = (ds2, s')" using Cons.prems by (auto simp: x 1 split: prod.splits)
  have "s1 = s \<or> s1 = snd (upsert_order env ord s)" using 1 by (auto simp: mass_order_def split: option.splits if_splits)
  then have "quiet s s1" using quiet_upsert[of s env ord] by (auto simp: quiet_def)
  then show ?case using Cons.IH[OF 2] by (rule quiet_trans)
qed (simp add: quiet_def)

lemma quiet_mass: "apply_mass_status envs orders positions s pm = (ds, s', pm') \<Longrightarrow> quiet s s'"
  by (auto simp: apply_mass_status_def dest: quiet_mass_orders split: prod.splits)

section \<open>The session under all operations\<close>

text \<open>
  Turns of the loop with either reconciler and whatever the broker answers, placements through
  the gate, requests and the stop of the service.
\<close>

datatype 'l session_op =
    DhanTurn "nat \<Rightarrow> 'l oms_env" "nat \<Rightarrow> 'l oms_env" rat bool "order list res" "position list res" "pos_value \<times> pos_value"
  | UpstoxTurn "nat \<Rightarrow> 'l oms_env" rat bool "order list res" "position list res"
  | PlaceOrder "'l oms_env" string command "broker option"
  | RequestTurn
  | StopTurns

definition via_dhan ::
  "(nat \<Rightarrow> 'l oms_env) \<Rightarrow> bool \<Rightarrow> order list res \<Rightarrow> position list res \<Rightarrow> pos_value \<times> pos_value \<Rightarrow>
   order list \<Rightarrow> position list \<Rightarrow> 'l oms \<Rightarrow> recon_report res \<times> 'l oms" where
  "via_dhan envs auto_repair os ps funds lo lp s = (let (rep, s1) = dhan_reconcile envs auto_repair os ps funds lo lp s in (Inr rep, s1))"

definition via_upstox ::
  "bool \<Rightarrow> order list res \<Rightarrow> position list res \<Rightarrow> order list \<Rightarrow> position list \<Rightarrow> 'l oms \<Rightarrow> recon_report res \<times> 'l oms" where
  "via_upstox auto_repair os ps lo lp s = (upstox_reconcile auto_repair os ps lo lp, s)"

fun session_step :: "'l session \<Rightarrow> 'l session_op \<Rightarrow> 'l session" where
  "session_step z (DhanTurn envs envs' now auto_repair os ps funds) = recon_turn envs now (via_dhan envs' auto_repair os ps funds) z"
| "session_step z (UpstoxTurn envs now auto_repair os ps) = recon_turn envs now (via_upstox auto_repair os ps) z"
| "session_step z (PlaceOrder env fresh c submit) = snd (session_place env fresh c submit z)"
| "session_step z RequestTurn = request_reconciliation z"
| "session_step z StopTurns = stop_reconciliation z"

text \<open>The report of a turn, if the operation is one that runs and does not fail.\<close>

definition turn_report :: "'l session \<Rightarrow> 'l session_op \<Rightarrow> recon_report option" where
  "turn_report z x =
     (if rs_stopping z then None
      else case x of
             DhanTurn envs envs' now auto_repair os ps funds \<Rightarrow>
               fst (recon_run_once envs now (via_dhan envs' auto_repair os ps funds) (z\<lparr>rs_requested := False\<rparr>))
           | UpstoxTurn envs now auto_repair os ps \<Rightarrow>
               fst (recon_run_once envs now (via_upstox auto_repair os ps) (z\<lparr>rs_requested := False\<rparr>))
           | _ \<Rightarrow> None)"

lemma recon_finish_core [simp]: "se_oms (recon_finish now items y) = se_oms y" "se_ready (recon_finish now items y) = se_ready y"
  by (simp_all add: recon_finish_def Let_def)

definition shut :: "command list \<Rightarrow> 'l session \<Rightarrow> bool" where
  "shut sent z \<longleftrightarrow> om_gated (se_oms z) \<and> \<not> se_ready z \<and> om_broker (se_oms z) = sent"

lemma run_once_shut:
  assumes "shut sent z" "\<And>lo lp s r s'. reconcile lo lp s = (r, s') \<Longrightarrow> quiet s s'"
    "recon_run_once envs now reconcile z = (rep, z')" "\<And>r. rep = Some r \<Longrightarrow> rr_drift r \<noteq> []"
  shows "shut sent z'"
proof -
  obtain res s1 where 1: "reconcile (get_orders (se_oms z) None None) (pm_get_positions (se_pm z)) (se_oms z) = (res, s1)"
    by fastforce
  have q: "quiet (se_oms z) s1" by (rule assms(2)[OF 1])
  show ?thesis
  proof (cases res)
    case (Inl e)
    then show ?thesis using assms(1,3) q by (auto simp: recon_run_once_def 1 shut_def quiet_def)
  next
    case (Inr r)
    obtain ds s2 pm2 where m: "apply_mass_status envs (rr_orders r) (rr_positions r) s1 (se_pm z) = (ds, s2, pm2)"
      by (cases "apply_mass_status envs (rr_orders r) (rr_positions r) s1 (se_pm z)")
    have "quiet (se_oms z) s2" using quiet_trans[OF q quiet_mass[OF m]] .
    moreover have "rr_drift r \<noteq> []" using assms(3,4) Inr by (simp add: recon_run_once_def 1 Let_def split: prod.splits)
    ultimately show ?thesis using assms(1,3) q Inr
      by (auto simp: recon_run_once_def 1 m shut_def quiet_def Let_def split: if_splits)
  qed
qed

lemma session_step_shut:
  assumes "shut sent z" "\<And>r. turn_report z x = Some r \<Longrightarrow> rr_drift r \<noteq> []"
  shows "shut sent (session_step z x)"
proof -
  let ?z = "z\<lparr>rs_requested := False\<rparr>"
  have z: "shut sent ?z" using assms(1) by (simp add: shut_def)
  show ?thesis
  proof (cases x)
    case (DhanTurn envs envs' now auto_repair os ps funds)
    have "quiet s s'" if "via_dhan envs' auto_repair os ps funds lo lp s = (r, s')" for lo lp s r s'
      using that by (auto simp: via_dhan_def dhan_reconcile_def Let_def split: prod.splits if_splits
          dest: quiet_repair)
    from run_once_shut[OF z this] show ?thesis using assms DhanTurn
      by (cases "recon_run_once envs now (via_dhan envs' auto_repair os ps funds) ?z") (auto simp: recon_turn_def turn_report_def)
  next
    case (UpstoxTurn envs now auto_repair os ps)
    have "quiet s s'" if "via_upstox auto_repair os ps lo lp s = (r, s')" for lo lp s r s'
      using that by (simp add: via_upstox_def quiet_def)
    from run_once_shut[OF z this] show ?thesis using assms UpstoxTurn
      by (cases "recon_run_once envs now (via_upstox auto_repair os ps) ?z") (auto simp: recon_turn_def turn_report_def)
  next
    case (PlaceOrder env fresh c submit)
    obtain r s1 where "place_order (env\<lparr>ev_gate := reconciliation_gate z\<rparr>) fresh c submit (se_oms z) = (r, s1)" by fastforce
    then show ?thesis using gate_blocks[of "se_oms z" "env\<lparr>ev_gate := reconciliation_gate z\<rparr>" fresh c submit r s1] assms(1)
      by (simp add: PlaceOrder session_place_def shut_def reconciliation_gate_def)
  qed (use assms(1) in \<open>simp_all add: request_reconciliation_def stop_reconciliation_def shut_def\<close>)
qed

lemma session_run_shut:
  "shut sent z \<Longrightarrow> (\<And>i r. i < length ops \<Longrightarrow> turn_report (run_ops session_step z (take i ops)) (ops ! i) = Some r \<Longrightarrow> rr_drift r \<noteq> []) \<Longrightarrow>
   shut sent (run_ops session_step z ops)"
proof (induction ops arbitrary: z)
  case (Cons x ops)
  have "shut sent (session_step z x)" using Cons.prems(1) Cons.prems(2)[of 0] by (intro session_step_shut) auto
  then show ?case using Cons.prems(2)[of "Suc _"] by (auto intro!: Cons.IH)
qed simp

section \<open>Properties\<close>

text \<open>
  Healing from a snapshot. Orders: every order of the snapshot is then in the book with
  the broker's status and filled quantity, unless the state validator refuses the transition,
  which leaves it as it was; no other order moves, and nothing is sent to the broker.
  Positions are never healed: the payload holds the text of a money value, which is no
  number, so every update is refused and only reported as done.
\<close>

theorem mass_status_heals_orders_only:
  "let (ds, s', pm') = apply_mass_status envs orders positions s pm in
   pm' = pm \<and>
   (distinct (map o_order_id orders) \<and>
    (\<forall>ord \<in> set orders. o_order_id ord \<noteq> [] \<and> dict_get (om_buffer s) (o_order_id ord) = None) \<longrightarrow>
      om_broker s' = om_broker s \<and>
      (\<forall>oid. oid \<notin> o_order_id ` set orders \<longrightarrow> dict_get (om_orders s') oid = dict_get (om_orders s) oid) \<and>
      (\<forall>i < length orders. let ord = orders ! i; e = dict_get (om_orders s') (o_order_id ord) in
         (\<exists>b. e = Some b \<and> o_status b = o_status ord \<and> o_filled_quantity b = o_filled_quantity ord) \<or>
         (\<exists>old. e = Some old \<and> dict_get (om_orders s) (o_order_id ord) = Some old \<and> o_status old \<noteq> o_status ord \<and>
            fst (osv_validate_transition (ev_evicted (envs i)) (om_validator s) (o_order_id ord) (o_status old) (o_status ord)) \<noteq> Inr ())))"
proof -
  let ?xs = "zip (map envs [0..<length orders]) orders"
  obtain ds s' where m: "mass_orders ?xs s = (ds, s')" by fastforce
  have a: "apply_mass_status envs orders positions s pm =
      (ds @ concat (map (\<lambda>p. fst (mass_position p pm)) positions), s', pm)"
    by (simp add: apply_mass_status_def m mass_positions_pm)
  have ids: "map (o_order_id \<circ> snd) ?xs = map o_order_id orders" by (simp flip: map_map)
  have heal: "om_broker s' = om_broker s \<and>
      (\<forall>oid. oid \<notin> o_order_id ` set orders \<longrightarrow> dict_get (om_orders s') oid = dict_get (om_orders s) oid) \<and>
      (\<forall>i < length orders. let ord = orders ! i; e = dict_get (om_orders s') (o_order_id ord) in
         (\<exists>b. e = Some b \<and> o_status b = o_status ord \<and> o_filled_quantity b = o_filled_quantity ord) \<or>
         (\<exists>old. e = Some old \<and> dict_get (om_orders s) (o_order_id ord) = Some old \<and> o_status old \<noteq> o_status ord \<and>
            fst (osv_validate_transition (ev_evicted (envs i)) (om_validator s) (o_order_id ord) (o_status old) (o_status ord)) \<noteq> Inr ()))"
    if h: "distinct (map o_order_id orders)"
      "\<forall>ord \<in> set orders. o_order_id ord \<noteq> [] \<and> dict_get (om_buffer s) (o_order_id ord) = None"
  proof -
    have "\<forall>(env, ord) \<in> set ?xs. o_order_id ord \<noteq> [] \<and> dict_get (om_buffer s) (o_order_id ord) = None"
      using h(2) by (auto dest: set_zip_rightD)
    note r = mass_orders_heal[OF _ this m, unfolded ids, OF h(1)]
    have "agrees_with (orders ! i) (dict_get (om_orders s') (o_order_id (orders ! i))) \<or>
       dict_get (om_orders s') (o_order_id (orders ! i)) = dict_get (om_orders s) (o_order_id (orders ! i)) \<and>
       refused_in (envs i) (orders ! i) s" if "i < length orders" for i
    proof -
      have "(envs i, orders ! i) \<in> set ?xs" using that by (force simp: set_zip)
      then show ?thesis using r by blast
    qed
    then show ?thesis using r by (simp add: agrees_with_def refused_in_def refuses_def Let_def) (metis (no_types, lifting))
  qed
  show ?thesis using heal by (simp add: a)
qed

definition sample_snapshot :: order where
  "sample_snapshot = sample_live\<lparr>o_status := FILLED, o_filled_quantity := 10\<rparr>"

lemma mass_status_heals_orders_only_witness:
  "map_option o_status (dict_get (om_orders (fst (snd (apply_mass_status (\<lambda>i. sample_oms_env) [sample_snapshot] [] sample_oms
      (pm_init True False))))) ''O1'') \<in> {Some FILLED, Some OPEN}"
proof -
  have "o_order_id sample_snapshot = ''O1''" "o_status sample_snapshot = FILLED" "dict_get (om_buffer sample_oms) ''O1'' = None"
    "map_option o_status (dict_get (om_orders sample_oms) ''O1'') = Some OPEN"
    by code_simp+
  then show ?thesis
    using mass_status_heals_orders_only[of "\<lambda>i. sample_oms_env" "[sample_snapshot]" "[]" sample_oms "pm_init True False"]
    by (auto simp: Let_def split: prod.splits)
qed

text \<open>
  C9: no order before a clean run. After the context has attached the service, whatever turns
  of either reconciler, requests, stops and placements follow, and whatever the brokers answer,
  the broker sees no order unless an earlier turn ran to its end and found no drift at all.
\<close>

theorem no_orders_before_clean_run:
  "om_gated (se_oms z) \<and> \<not> se_ready z \<and> om_broker (se_oms (run_ops session_step z ops)) \<noteq> om_broker (se_oms z) \<longrightarrow>
   (\<exists>i < length ops. \<exists>rep. turn_report (run_ops session_step z (take i ops)) (ops ! i) = Some rep \<and> rr_drift rep = [])"
  using session_run_shut[of "om_broker (se_oms z)" z ops] by (auto simp: shut_def)

definition sample_session :: "unit session" where
  "sample_session = attach_reconciliation (sample_oms\<lparr>om_orders := []\<rparr>) (pm_init True False) True"

definition sample_turns :: "unit session_op list" where
  "sample_turns = [PlaceOrder sample_oms_env ''f1'' sample_command (Some sample_broker),
     DhanTurn (\<lambda>i. sample_oms_env) (\<lambda>i. sample_oms_env) 5 False (Inr []) (Inr []) (PvNone, PvNone),
     PlaceOrder sample_oms_env ''f2'' sample_command (Some sample_broker)]"

lemma no_orders_before_clean_run_witness:
  "\<exists>i < 3. \<exists>rep. turn_report (run_ops session_step sample_session (take i sample_turns)) (sample_turns ! i) = Some rep \<and> rr_drift rep = []"
proof -
  have "length (om_broker (se_oms (run_ops session_step sample_session sample_turns))) = 1" by code_simp
  moreover have "om_broker (se_oms sample_session) = []" "om_gated (se_oms sample_session)" "\<not> se_ready sample_session"
    "length sample_turns = 3" by code_simp+
  ultimately show ?thesis using no_orders_before_clean_run[of sample_session sample_turns] by auto
qed

text \<open>
  An order that only the broker knows stops the Upstox run. With repair on, every order
  with an id that the local book lacks makes the whole run fail: nothing is healed, no report
  is returned and the gate stays as it is, and yet the bus hears of a completed run without
  drift when the last finished run had none.
\<close>

theorem upstox_missing_order_blocks:
  "rs_last_drift z = 0 \<and> rs_bus z \<and> ord \<in> set os \<and> o_order_id ord \<noteq> [] \<and>
   (\<forall>l \<in> set (get_orders (se_oms z) None None). o_order_id l \<noteq> o_order_id ord) \<longrightarrow>
   (let (rep, z') = recon_run_once envs now (via_upstox True (Inr os) ps) z in
    rep = None \<and> se_oms z' = se_oms z \<and> se_pm z' = se_pm z \<and> se_ready z' = se_ready z \<and>
    rs_last_error z' = Some (AttributeError ''dict'' ''order_id'') \<and>
    rs_events z' = rs_events z @ [ReconCompleted 0 (Suc (rs_runs z)) False])"
proof -
  let ?ls = "get_orders (se_oms z) None None" and ?lp = "pm_get_positions (se_pm z)"
  have "upstox_reconcile True (Inr os) ps ?ls ?lp = Inl (AttributeError ''dict'' ''order_id'')"
    if h: "ord \<in> set os" "o_order_id ord \<noteq> []" "\<forall>l \<in> set ?ls. o_order_id l \<noteq> o_order_id ord"
  proof -
    obtain b where "dict_get (by_order_id os) (o_order_id ord) = Some b"
      using h(1,2) find_None_iff[of "\<lambda>x. o_order_id x = o_order_id ord" "rev os"] by (auto simp: by_order_id_get)
    then have "(o_order_id ord, b) \<in> set (by_order_id os)" by (simp add: dict_get_def map_of_SomeD)
    moreover have "dict_get (by_order_id ?ls) (o_order_id ord) = None"
      using h(3) by (auto simp: by_order_id_get find_None_iff)
    ultimately have "MissingLocalOrder (o_order_id ord) (o_symbol b) \<in> set (compare_orders ?ls os)"
      by (force simp: compare_orders_def Let_def)
    then show ?thesis by (force simp: upstox_reconcile_def fetched_def split: sum.split)
  qed
  then show ?thesis by (auto simp: recon_run_once_def via_upstox_def recon_finish_def Let_def)
qed

lemma upstox_missing_order_blocks_witness:
  "rs_last_error (snd (recon_run_once (\<lambda>i. sample_oms_env) 5 (via_upstox True (Inr [sample_live]) (Inr [])) sample_session)) =
     Some (AttributeError ''dict'' ''order_id'')"
proof -
  have "get_orders (se_oms sample_session) None None = []" "rs_last_drift sample_session = 0" "rs_bus sample_session"
    "o_order_id sample_live = ''O1''" by code_simp+
  then show ?thesis
    using upstox_missing_order_blocks[of sample_session sample_live "[sample_live]" "\<lambda>i. sample_oms_env" 5 "Inr []"]
    by (simp add: case_prod_beta)
qed

end
