(* ===== verification/Sizing_Plan.thy ===== *)
theory Sizing_Plan
  imports Entities
begin

text \<open>
  From a signal to order requests: position sizing (\<open>domain/orders/sizing.py\<close>), the
  execution plan (\<open>domain/orders/execution_plan.py\<close>), the order intent and request shapes
  (\<open>domain/orders/intent.py\<close>, \<open>domain/orders/requests.py\<close>), their placement helpers
  (\<open>domain/orders/placement.py\<close>) and \<open>SignalDTO\<close> of \<open>domain/models/trading.py\<close>.
  A generated identifier is an argument of the operation that draws it.
\<close>

section \<open>Sizing\<close>

datatype sizing_method = PCT_EQUITY | ATR | FIXED

text \<open>\<open>equity * (pct / 100)\<close>\<close>

definition max_notional :: "rat \<Rightarrow> rat \<Rightarrow> rat" where
  "max_notional equity pct = dec_mul equity (dec_div pct 100)"

definition compute_order_quantity :: "rat \<Rightarrow> rat \<Rightarrow> rat \<Rightarrow> int" where
  "compute_order_quantity equity price pct =
     (if price \<le> 0 \<or> equity \<le> 0 \<or> pct \<le> 0 then 0
      else max 0 (trunc_int (dec_div (max_notional equity pct) price)))"

definition compute_remaining_quantity :: "rat \<Rightarrow> rat \<Rightarrow> rat \<Rightarrow> rat \<Rightarrow> int" where
  "compute_remaining_quantity equity pct price existing =
     (if price \<le> 0 \<or> equity \<le> 0 \<or> pct \<le> 0 then 0
      else
        let remaining = max 0 (dec_sub (max_notional equity pct) existing)
        in max 0 (trunc_int (dec_div remaining price)))"

definition compute_atr_quantity :: "rat \<Rightarrow> rat \<Rightarrow> rat \<Rightarrow> rat \<Rightarrow> int" where
  "compute_atr_quantity equity atr risk_pct mult =
     (if atr \<le> 0 \<or> equity \<le> 0 \<or> risk_pct \<le> 0 then 0
      else
        let risk_budget = dec_mul equity (dec_div risk_pct 100);
            risk_per_share = dec_mul atr mult
        in if risk_per_share \<le> 0 then 0
           else max 0 (trunc_int (dec_div risk_budget risk_per_share)))"

section \<open>Intents and requests\<close>

record order_intent =
  i_symbol :: string
  i_exchange :: string
  i_side :: order_side
  i_quantity :: int
  i_price :: rat
  i_order_type :: order_type
  i_product_type :: product_type
  i_trigger_price :: "rat option"
  i_validity :: time_in_force
  i_correlation_id :: string
  i_tag :: "string option"

text \<open>Validation on construction; a blank correlation id is replaced by a fresh one.\<close>

definition mk_order_intent :: "string \<Rightarrow> order_intent \<Rightarrow> order_intent res" where
  "mk_order_intent fresh i =
     (if i_quantity i \<le> 0 then Inl (ValueError ''quantity must be positive'')
      else if i_symbol i = [] then Inl (ValueError ''symbol is required'')
      else if py_strip (i_correlation_id i) = []
      then Inr (i\<lparr>i_correlation_id := ''intent:'' @ fresh\<rparr>)
      else Inr i)"

record order_request =
  q_symbol :: string
  q_exchange :: string
  q_transaction_type :: order_side
  q_quantity :: int
  q_price :: rat
  q_trigger_price :: "rat option"
  q_order_type :: order_type
  q_product_type :: product_type
  q_validity :: time_in_force
  q_correlation_id :: "string option"
  q_slice :: bool
  q_disclosed_quantity :: "int option"
  q_slicing_algo :: string
  q_slice_count :: int
  q_slice_interval :: int
  q_twap_duration :: "int option"
  q_vwap_participation_rate :: "rat option"

definition order_request_default :: order_request where
  "order_request_default =
     \<lparr>q_symbol = [], q_exchange = ''NSE'', q_transaction_type = BUY, q_quantity = 0, q_price = 0,
      q_trigger_price = None, q_order_type = MARKET, q_product_type = INTRADAY, q_validity = DAY,
      q_correlation_id = None, q_slice = False, q_disclosed_quantity = None, q_slicing_algo = ''NONE'',
      q_slice_count = 1, q_slice_interval = 0, q_twap_duration = None, q_vwap_participation_rate = None\<rparr>"

record slice_request =
  s_symbol :: string
  s_exchange :: string
  s_side :: order_side
  s_quantity :: int
  s_order_type :: order_type
  s_product_type :: product_type

text \<open>\<open>[disc] * (n - 1) + [tot - disc * (n - 1)]\<close>, and \<open>n\<close> chunks that differ by at
  most one.\<close>

definition iceberg_chunks :: "int \<Rightarrow> int \<Rightarrow> int \<Rightarrow> int list" where
  "iceberg_chunks tot disc n = replicate (nat (n - 1)) disc @ [tot - disc * (n - 1)]"

definition even_chunks :: "int \<Rightarrow> int \<Rightarrow> int list" where
  "even_chunks tot n = (let base = tot div n; r = tot mod n in
     map (\<lambda>i. base + (if i < r then 1 else 0)) [0..n - 1])"

definition slice_child :: "slice_request \<Rightarrow> int \<Rightarrow> int option \<Rightarrow> string \<Rightarrow> int \<Rightarrow> order_request" where
  "slice_child req n out_disc algo qty = order_request_default
     \<lparr>q_symbol := s_symbol req, q_exchange := s_exchange req, q_transaction_type := s_side req,
      q_quantity := qty, q_order_type := s_order_type req, q_product_type := s_product_type req,
      q_slice := True, q_slice_count := n, q_disclosed_quantity := out_disc, q_slicing_algo := algo\<rparr>"

definition expand_slice_request :: "slice_request \<Rightarrow> int \<Rightarrow> int option \<Rightarrow> order_request list" where
  "expand_slice_request req slice_count disclosed =
     (let tot = max 0 (s_quantity req) in
      if tot \<le> 0 then []
      else
        let (qtys, n, algo, out_disc) =
          (case disclosed of
             Some d \<Rightarrow>
               if 0 < d then
                 (let disc = max 1 d; n = (tot + disc - 1) div disc
                  in (iceberg_chunks tot disc n, n, ''ICEBERG'', Some disc))
               else (let n = (if 0 < slice_count then slice_count else 1)
                     in (even_chunks tot n, n, ''TWAP'', None))
           | None \<Rightarrow> (let n = (if 0 < slice_count then slice_count else 1)
                     in (even_chunks tot n, n, ''TWAP'', None)))
        in map (slice_child req n out_disc algo) (filter (\<lambda>q. 0 < q) qtys))"

section \<open>Signals and plans\<close>

record signal_dto =
  g_symbol :: string
  g_exchange :: string
  g_signal_type :: string
  g_confidence :: rat
  g_quantity :: int
  g_price :: "rat option"
  g_entry_price :: "rat option"
  g_strategy :: string
  g_position_size_pct :: rat

definition signal_is_actionable :: "signal_dto \<Rightarrow> bool" where
  "signal_is_actionable s \<longleftrightarrow>
     g_signal_type s \<in> set [''BUY'', ''SELL'', ''STRONG_BUY'', ''STRONG_SELL'', ''ENTRY'', ''EXIT''] \<and>
     0 < g_confidence s"

datatype slicing_algo = NO_SLICING | TWAP | VWAP | ICEBERG

fun slicing_algo_value :: "slicing_algo \<Rightarrow> string" where
  "slicing_algo_value NO_SLICING = ''NONE''"
| "slicing_algo_value TWAP = ''TWAP''"
| "slicing_algo_value VWAP = ''VWAP''"
| "slicing_algo_value ICEBERG = ''ICEBERG''"

record order_sizing =
  z_total_qty :: int
  z_per_leg_allocation :: "int list"
  z_method :: sizing_method
  z_equity :: rat
  z_max_position_pct :: rat
  z_existing_notional :: rat
  z_atr :: "rat option"
  z_atr_risk_pct :: rat

definition order_sizing_new :: "int \<Rightarrow> sizing_method \<Rightarrow> order_sizing" where
  "order_sizing_new qty meth =
     \<lparr>z_total_qty = qty, z_per_leg_allocation = [qty], z_method = meth, z_equity = 0,
      z_max_position_pct = 0, z_existing_notional = 0, z_atr = None, z_atr_risk_pct = 0\<rparr>"

record slicing_plan =
  l_algo :: slicing_algo
  l_slice_count :: int
  l_interval_seconds :: int
  l_disclosed_qty :: "int option"
  l_twap_duration_seconds :: "int option"
  l_vwap_participation_rate :: "rat option"

definition slicing_plan_default :: slicing_plan where
  "slicing_plan_default =
     \<lparr>l_algo = NO_SLICING, l_slice_count = 1, l_interval_seconds = 0, l_disclosed_qty = None,
      l_twap_duration_seconds = None, l_vwap_participation_rate = None\<rparr>"

record plan_context =
  c_equity :: rat
  c_max_position_pct :: rat
  c_existing_notional :: rat
  c_atr :: "rat option"
  c_atr_risk_pct :: rat
  c_default_order_type :: order_type
  c_default_product_type :: product_type
  c_default_exchange :: string
  c_min_confidence :: rat
  c_kill_switch_active :: bool
  c_correlation_id :: "string option"
  c_strategy :: string
  c_slicing :: slicing_plan
  c_cap_explicit_quantity :: bool

record execution_plan =
  x_source_strategy :: string
  x_symbol :: string
  x_exchange :: string
  x_signal_type :: string
  x_confidence :: rat
  x_correlation_id :: "string option"
  x_legs :: "order_intent list"
  x_sizing :: order_sizing
  x_slicing :: slicing_plan
  x_min_confidence :: rat
  x_kill_switch_active :: bool

definition pct_equity_qty :: "signal_dto \<Rightarrow> plan_context \<Rightarrow> rat \<Rightarrow> int" where
  "pct_equity_qty s ctx price =
     (let pct = (if 0 < g_position_size_pct s then g_position_size_pct s else c_max_position_pct ctx) in
      if pct \<le> 0 \<or> price \<le> 0 then 0
      else compute_remaining_quantity (c_equity ctx) pct price (c_existing_notional ctx))"

definition effective_pct :: "signal_dto \<Rightarrow> plan_context \<Rightarrow> rat" where
  "effective_pct s ctx =
     (let pct = (if 0 < g_position_size_pct s then g_position_size_pct s else 0) in
      if 0 < c_max_position_pct ctx
      then (if 0 < pct then min pct (c_max_position_pct ctx) else c_max_position_pct ctx)
      else pct)"

definition resolve_sizing :: "signal_dto \<Rightarrow> plan_context \<Rightarrow> rat \<Rightarrow> order_sizing" where
  "resolve_sizing s ctx price =
     (if 0 < g_quantity s then
        order_sizing_new (if c_cap_explicit_quantity ctx
           then min (g_quantity s) (pct_equity_qty s ctx price) else g_quantity s) FIXED
      else
        let pct = effective_pct s ctx in
        if 0 < pct \<and> 0 < price then
          (order_sizing_new
             (compute_remaining_quantity (c_equity ctx) pct price (c_existing_notional ctx)) PCT_EQUITY)
          \<lparr>z_equity := c_equity ctx, z_max_position_pct := pct, z_existing_notional := c_existing_notional ctx\<rparr>
        else (case c_atr ctx of
            Some a \<Rightarrow>
              if 0 < a \<and> 0 < price then
                (order_sizing_new (compute_atr_quantity (c_equity ctx) a (c_atr_risk_pct ctx) 2) ATR)
                \<lparr>z_atr := c_atr ctx, z_atr_risk_pct := c_atr_risk_pct ctx\<rparr>
              else order_sizing_new 0 FIXED
          | None \<Rightarrow> order_sizing_new 0 FIXED))"

definition str_or :: "string \<Rightarrow> string \<Rightarrow> string" where
  "str_or a b = (if a = [] then b else a)"

definition plan_from_signal :: "string \<Rightarrow> signal_dto \<Rightarrow> plan_context \<Rightarrow> execution_plan res" where
  "plan_from_signal fresh s ctx =
     (if \<not> signal_is_actionable s then Inl (ValueError ''Signal is not actionable'')
      else case (case g_entry_price s of Some p \<Rightarrow> Some p | None \<Rightarrow> g_price s) of
        None \<Rightarrow> Inl (ValueError ''Signal has no usable price'')
      | Some price \<Rightarrow>
          if price \<le> 0 then Inl (ValueError ''Signal has no usable price'')
          else
            let side = (if g_signal_type s \<in> set [''BUY'', ''STRONG_BUY'', ''ENTRY''] then BUY else SELL);
                sizing = resolve_sizing s ctx price;
                exch = str_or (g_exchange s) (c_default_exchange ctx);
                leg_cid = (case c_correlation_id ctx of
                    Some base \<Rightarrow>
                      if base \<noteq> [] then base @ '':'' @ str_or (c_strategy ctx) (str_or (g_strategy s) ''strategy'')
                      else ''plan:'' @ fresh
                  | None \<Rightarrow> ''plan:'' @ fresh);
                legs = (if 0 < z_total_qty sizing then
                    (case mk_order_intent fresh
                       \<lparr>i_symbol = g_symbol s, i_exchange = exch, i_side = side, i_quantity = z_total_qty sizing,
                        i_price = price, i_order_type = c_default_order_type ctx,
                        i_product_type = c_default_product_type ctx, i_trigger_price = None, i_validity = DAY,
                        i_correlation_id = leg_cid, i_tag = None\<rparr> of
                       Inl e \<Rightarrow> Inl e | Inr i \<Rightarrow> Inr [i])
                  else Inr [])
            in case legs of
                 Inl e \<Rightarrow> Inl e
               | Inr ls \<Rightarrow> Inr
                   \<lparr>x_source_strategy = str_or (c_strategy ctx) (g_strategy s), x_symbol = g_symbol s,
                    x_exchange = exch, x_signal_type = g_signal_type s, x_confidence = g_confidence s,
                    x_correlation_id = c_correlation_id ctx, x_legs = ls, x_sizing = sizing,
                    x_slicing = c_slicing ctx, x_min_confidence = c_min_confidence ctx,
                    x_kill_switch_active = c_kill_switch_active ctx\<rparr>)"

definition plan_sliced_quantities :: "execution_plan \<Rightarrow> int list" where
  "plan_sliced_quantities p =
     (let tot = z_total_qty (x_sizing p); sl = x_slicing p in
      if tot \<le> 0 \<or> l_algo sl = NO_SLICING then [tot]
      else if l_algo sl = ICEBERG \<and> l_disclosed_qty sl \<noteq> None \<and> l_disclosed_qty sl \<noteq> Some 0 then
        (let disc = max 1 (the (l_disclosed_qty sl)); n = (tot + disc - 1) div disc in
         if n \<le> 1 then [tot] else iceberg_chunks tot disc n)
      else even_chunks tot (max 1 (l_slice_count sl)))"

section \<open>Placement helpers\<close>

definition slice_cid :: "string \<Rightarrow> nat \<Rightarrow> string" where
  "slice_cid base i = base @ '':slice'' @ show_nat (i + 1)"

text \<open>\<open>replace(leg, ...)\<close> runs the validation of the intent again; a child without base id
  gets \<open>None\<close>, for which the constructor draws a fresh id.\<close>

definition slice_leg :: "string \<Rightarrow> order_intent \<Rightarrow> nat \<times> int \<Rightarrow> order_intent res" where
  "slice_leg fresh leg iq = (case iq of (i, qty) \<Rightarrow>
     mk_order_intent fresh (leg\<lparr>i_quantity := qty, i_correlation_id :=
       (if i_correlation_id leg \<noteq> [] then slice_cid (i_correlation_id leg) i else [])\<rparr>))"

fun collect :: "'a res list \<Rightarrow> 'a list res" where
  "collect [] = Inr []"
| "collect (Inl e # rs) = Inl e"
| "collect (Inr x # rs) = (case collect rs of Inl e \<Rightarrow> Inl e | Inr xs \<Rightarrow> Inr (x # xs))"

definition plan_to_intents :: "string \<Rightarrow> execution_plan \<Rightarrow> order_intent list res" where
  "plan_to_intents fresh p =
     (if l_algo (x_slicing p) = NO_SLICING \<or> x_legs p = [] then Inr (x_legs p)
      else collect [slice_leg fresh leg iq.
             leg \<leftarrow> x_legs p, iq \<leftarrow> filter (\<lambda>(i, q). 0 < q) (enumerate 0 (plan_sliced_quantities p))])"

definition plan_to_order_requests :: "execution_plan \<Rightarrow> order_request list" where
  "plan_to_order_requests p = map (\<lambda>i. order_request_default
     \<lparr>q_symbol := i_symbol i, q_exchange := i_exchange i, q_transaction_type := i_side i,
      q_quantity := i_quantity i, q_price := i_price i, q_order_type := i_order_type i,
      q_product_type := i_product_type i, q_correlation_id := Some (i_correlation_id i),
      q_slice := (l_algo (x_slicing p) \<noteq> NO_SLICING), q_slice_count := l_slice_count (x_slicing p),
      q_slice_interval := l_interval_seconds (x_slicing p),
      q_twap_duration := l_twap_duration_seconds (x_slicing p),
      q_vwap_participation_rate := l_vwap_participation_rate (x_slicing p),
      q_slicing_algo := slicing_algo_value (l_algo (x_slicing p)),
      q_disclosed_quantity := l_disclosed_qty (x_slicing p)\<rparr>) (x_legs p)"

text \<open>\<open>SignalDTO.to_intent\<close>; capital, limit and exposure come from the risk profile and the
  account.\<close>

definition to_intent_context :: "signal_dto \<Rightarrow> rat \<Rightarrow> rat \<Rightarrow> rat \<Rightarrow> plan_context" where
  "to_intent_context s capital max_position_pct existing =
     \<lparr>c_equity = capital, c_max_position_pct = max_position_pct, c_existing_notional = existing,
      c_atr = None, c_atr_risk_pct = 1, c_default_order_type = LIMIT, c_default_product_type = INTRADAY,
      c_default_exchange = g_exchange s, c_min_confidence = 0, c_kill_switch_active = False,
      c_correlation_id = None, c_strategy = [], c_slicing = slicing_plan_default,
      c_cap_explicit_quantity = True\<rparr>"

definition signal_to_intent :: "string \<Rightarrow> signal_dto \<Rightarrow> rat \<Rightarrow> rat \<Rightarrow> rat \<Rightarrow> order_intent res" where
  "signal_to_intent fresh s capital max_position_pct existing =
     (case plan_from_signal fresh s (to_intent_context s capital max_position_pct existing) of
        Inl e \<Rightarrow> Inl e
      | Inr p \<Rightarrow>
          (case x_legs p of
             [] \<Rightarrow> Inl (ValueError ''No remaining position room'')
           | i # _ \<Rightarrow>
               if z_total_qty (x_sizing p) \<le> 0 then Inl (ValueError ''No remaining position room'')
               else Inr i))"

section \<open>Facts about sizing\<close>

text \<open>The relative error of one decimal operation.\<close>

definition eps :: rat where
  "eps = 1 / (2 * 10 ^ 27)"

lemma eps_bounds [simp]: "0 < eps" "0 \<le> eps" "eps < 1" "eps \<le> 1" "0 \<le> 1 - eps" "0 \<le> 1 + eps" "0 < 1 + eps"
  by (simp_all add: eps_def)

lemma dec_between: "0 \<le> x \<Longrightarrow> x * (1 - eps) \<le> dec x \<and> dec x \<le> x * (1 + eps)"
proof -
  assume x: "0 \<le> x"
  define y where "y = x / (2 * 10 ^ 27)"
  have "\<bar>dec x - x\<bar> \<le> y" using dec_error[of x] x by (simp add: y_def)
  moreover have "x * (1 - eps) = x - y" by (simp add: eps_def y_def right_diff_distrib)
  moreover have "x * (1 + eps) = x + y" by (simp add: eps_def y_def distrib_left)
  ultimately show ?thesis by (simp add: abs_le_iff)
qed

lemma share_count:
  assumes "0 < price" "0 \<le> r"
  defines "n \<equiv> max 0 (trunc_int (dec_div r price))"
  shows "of_int n * price \<le> r * (1 + eps)" and "r * (1 - eps) < (of_int n + 1) * price"
proof -
  have q: "0 \<le> dec_div r price" using assms by (simp add: dec_div_sign)
  have b: "r / price * (1 - eps) \<le> dec_div r price" "dec_div r price \<le> r / price * (1 + eps)"
    using dec_between[of "r / price"] assms by (simp_all add: dec_div_def)
  have n: "n = \<lfloor>dec_div r price\<rfloor>" using q by (simp add: n_def trunc_int_def)
  have "of_int n \<le> r / price * (1 + eps)" "r / price * (1 - eps) < of_int n + 1"
    using b unfolding n by linarith+
  then show "of_int n * price \<le> r * (1 + eps)" "r * (1 - eps) < (of_int n + 1) * price"
    using assms(1) by (simp_all add: field_simps)
qed

lemma remaining_between:
  "max 0 x * (1 - eps) \<le> max 0 (dec x) \<and> max 0 (dec x) \<le> max 0 x * (1 + eps)"
  using dec_between[of x] by (cases "0 \<le> x") (simp_all add: max_def)

lemma remaining_mono:
  "existing \<le> existing' \<Longrightarrow> compute_remaining_quantity eq pct price existing' \<le> compute_remaining_quantity eq pct price existing"
proof -
  assume "existing \<le> existing'"
  then have m: "max 0 (dec_sub (max_notional eq pct) existing') \<le> max 0 (dec_sub (max_notional eq pct) existing)"
    unfolding dec_sub_def by (intro max.mono dec_mono) simp_all
  show ?thesis
  proof (cases "0 < price")
    case True
    then show ?thesis
      using max.mono[OF order_refl trunc_int_mono[OF dec_div_mono[OF m True]], of 0]
      by (simp add: compute_remaining_quantity_def Let_def)
  qed (simp add: compute_remaining_quantity_def)
qed

section \<open>Facts about slicing\<close>

lemma iceberg_sum: "1 \<le> n \<Longrightarrow> sum_list (iceberg_chunks tot disc n) = tot"
  by (simp add: iceberg_chunks_def sum_list_replicate mult.commute)

lemma iceberg_parts:
  assumes "0 < tot" "0 < disc" "q \<in> set (iceberg_chunks tot disc ((tot + disc - 1) div disc))"
  shows "1 \<le> q \<and> q \<le> disc"
proof -
  define n where "n = (tot + disc - 1) div disc"
  define m where "m = (tot + disc - 1) mod disc"
  have "disc * n + m = tot + disc - 1" by (simp add: n_def m_def)
  moreover have "0 \<le> m" "m < disc" using assms(2) by (simp_all add: m_def)
  ultimately have "disc * n \<le> tot + disc - 1" "tot + disc - 1 < disc * n + disc" by linarith+
  then have "1 \<le> tot - disc * (n - 1)" "tot - disc * (n - 1) \<le> disc" by (simp_all add: algebra_simps)
  then show ?thesis using assms(2,3) unfolding n_def[symmetric]
    by (auto simp: iceberg_chunks_def set_replicate_conv_if split: if_splits)
qed

lemma count_below: "0 \<le> r \<Longrightarrow> r \<le> n \<Longrightarrow> (\<Sum>i \<in> {0..n - 1}. if i < r then 1 else 0) = (r :: int)"
proof -
  assume r: "0 \<le> r" "r \<le> n"
  have "{i \<in> {0..n - 1}. i < r} = {0..r - 1}" using r by auto
  then have "(\<Sum>i \<in> {0..n - 1}. if i < r then 1 else 0) = (\<Sum>i \<in> {0..r - 1}. 1 :: int)"
    by (simp add: sum.If_cases Int_def)
  then show ?thesis using r by simp
qed

lemma even_sum: "1 \<le> n \<Longrightarrow> sum_list (even_chunks tot n) = tot"
proof -
  assume n: "1 \<le> n"
  have "sum_list (even_chunks tot n) = (\<Sum>i \<in> {0..n - 1}. tot div n + (if i < tot mod n then 1 else 0))"
    by (simp add: even_chunks_def Let_def interv_sum_list_conv_sum_set_int)
  also have "\<dots> = n * (tot div n) + tot mod n"
    using n by (simp add: sum.distrib count_below less_imp_le)
  finally show ?thesis by simp
qed

lemma even_parts: "q \<in> set (even_chunks tot n) \<Longrightarrow> q = tot div n \<or> q = tot div n + 1"
  by (auto simp: even_chunks_def Let_def)

lemma even_nonneg: "1 \<le> n \<Longrightarrow> 0 \<le> tot \<Longrightarrow> q \<in> set (even_chunks tot n) \<Longrightarrow> 0 \<le> q"
  using even_parts[of q tot n] by (auto simp: pos_imp_zdiv_nonneg_iff add_nonneg_nonneg)

lemma sum_filter_pos: "(\<And>q. q \<in> set qs \<Longrightarrow> 0 \<le> q) \<Longrightarrow> sum_list (filter (\<lambda>q. 0 < q) qs) = sum_list qs" for qs :: "int list"
  by (induction qs) (auto simp: order.order_iff_strict)

lemma sliced_sum: "sum_list (plan_sliced_quantities p) = z_total_qty (x_sizing p)"
  by (auto simp: plan_sliced_quantities_def Let_def iceberg_sum even_sum)

lemma sliced_nonneg: "0 < z_total_qty (x_sizing p) \<Longrightarrow> q \<in> set (plan_sliced_quantities p) \<Longrightarrow> 0 \<le> q"
proof -
  assume t: "0 < z_total_qty (x_sizing p)" and q: "q \<in> set (plan_sliced_quantities p)"
  have "1 \<le> q" if "q \<in> set (iceberg_chunks (z_total_qty (x_sizing p)) (max 1 d)
      ((z_total_qty (x_sizing p) + max 1 d - 1) div max 1 d))" for d
    using iceberg_parts[OF t _ that] by simp
  moreover have "0 \<le> q" if "q \<in> set (even_chunks (z_total_qty (x_sizing p)) (max 1 m))" for m
    using even_nonneg[OF _ _ that] t by simp
  ultimately show ?thesis using q t
    by (fastforce simp: plan_sliced_quantities_def Let_def split: if_splits)
qed

lemma collect_ok: "(\<And>r. r \<in> set rs \<Longrightarrow> \<exists>x. r = Inr x) \<Longrightarrow> collect rs = Inr (map (\<lambda>r. projr r) rs)"
proof (induction rs)
  case (Cons r rs)
  then obtain x where "r = Inr x" by auto
  then show ?case using Cons by simp
qed simp

lemma mk_order_intent_ok: "mk_order_intent fresh i = Inr j \<Longrightarrow>
    0 < i_quantity j \<and> i_symbol j \<noteq> [] \<and> i_quantity j = i_quantity i \<and> i_symbol j = i_symbol i \<and>
    i_side j = i_side i \<and> i_price j = i_price i \<and> i_correlation_id j \<noteq> []"
  by (auto simp: mk_order_intent_def py_strip_def split: if_splits)

lemma plan_from_signal_legs:
  assumes "plan_from_signal fresh s ctx = Inr p"
  shows "x_legs p = [] \<and> z_total_qty (x_sizing p) \<le> 0 \<or>
    (\<exists>i. x_legs p = [i] \<and> 0 < i_quantity i \<and> i_quantity i = z_total_qty (x_sizing p) \<and>
       i_symbol i \<noteq> [] \<and> i_symbol i = g_symbol s \<and> i_correlation_id i \<noteq> [] \<and>
       Some (i_price i) = (case g_entry_price s of Some p \<Rightarrow> Some p | None \<Rightarrow> g_price s))"
    and "\<exists>price. (case g_entry_price s of Some p \<Rightarrow> Some p | None \<Rightarrow> g_price s) = Some price \<and> 0 < price \<and>
      x_sizing p = resolve_sizing s ctx price"
  using assms
  by (auto simp: plan_from_signal_def Let_def dest!: mk_order_intent_ok
      split: if_splits option.splits sum.splits)

text \<open>A plan reads the position limit only through its sizing.\<close>

lemma plan_from_signal_cong:
  assumes "\<And>price. resolve_sizing s (ctx\<lparr>c_max_position_pct := m\<rparr>) price = resolve_sizing s ctx price"
  shows "plan_from_signal fresh s (ctx\<lparr>c_max_position_pct := m\<rparr>) = plan_from_signal fresh s ctx"
  unfolding plan_from_signal_def assms by (simp cong: option.case_cong sum.case_cong if_cong)

lemma to_intent_context_simps [simp]:
  "c_equity (to_intent_context s capital m existing) = capital"
  "c_max_position_pct (to_intent_context s capital m existing) = m"
  "c_existing_notional (to_intent_context s capital m existing) = existing"
  "c_cap_explicit_quantity (to_intent_context s capital m existing) = True"
  "c_atr (to_intent_context s capital m existing) = None"
  "(to_intent_context s capital m existing)\<lparr>c_max_position_pct := m'\<rparr> = to_intent_context s capital m' existing"
  by (simp_all add: to_intent_context_def)

definition leg_children :: "order_intent \<Rightarrow> int list \<Rightarrow> order_intent list" where
  "leg_children leg qs = map (\<lambda>(i, q). leg\<lparr>i_quantity := q, i_correlation_id := slice_cid (i_correlation_id leg) i\<rparr>)
     (filter (\<lambda>(i, q). 0 < q) (enumerate 0 qs))"

lemma slice_leg_ok:
  "0 < q \<Longrightarrow> i_symbol leg \<noteq> [] \<Longrightarrow> i_correlation_id leg \<noteq> [] \<Longrightarrow>
   slice_leg fresh leg (i, q) = Inr (leg\<lparr>i_quantity := q, i_correlation_id := slice_cid (i_correlation_id leg) i\<rparr>)"
  by (auto simp: slice_leg_def mk_order_intent_def slice_cid_def py_strip_Nil is_space_def)

lemma collect_Inr: "collect (map Inr xs) = Inr xs"
  by (induction xs) auto

lemma collect_leg:
  assumes "i_symbol leg \<noteq> []" "i_correlation_id leg \<noteq> []"
  shows "collect (map (slice_leg fresh leg) (filter (\<lambda>(i, q). 0 < q) (enumerate 0 qs))) = Inr (leg_children leg qs)"
proof -
  have "map (slice_leg fresh leg) (filter (\<lambda>(i, q). 0 < q) (enumerate 0 qs)) = map Inr (leg_children leg qs)"
    using assms by (auto simp: leg_children_def slice_leg_ok)
  then show ?thesis by (simp add: collect_Inr)
qed

lemma leg_children_sum: "sum_list (map i_quantity (leg_children leg qs)) = sum_list (filter (\<lambda>q. 0 < q) qs)"
proof -
  have "sum_list (map snd (filter (\<lambda>(i, q). 0 < q) (enumerate n qs))) = sum_list (filter (\<lambda>q. 0 < q) qs)" for n
    by (induction qs arbitrary: n) auto
  then show ?thesis by (simp add: leg_children_def o_def case_prod_beta)
qed

lemma leg_children_cids: "distinct (map i_correlation_id (leg_children leg qs))"
proof -
  have "inj_on (\<lambda>iq. slice_cid (i_correlation_id leg) (fst iq)) (set (filter (\<lambda>(i, q). 0 < q) (enumerate 0 qs)))"
  proof (rule inj_onI, rule prod_eqI)
    fix x y assume xy: "x \<in> set (filter (\<lambda>(i, q). 0 < q) (enumerate 0 qs))" "y \<in> set (filter (\<lambda>(i, q). 0 < q) (enumerate 0 qs))"
      and e: "slice_cid (i_correlation_id leg) (fst x) = slice_cid (i_correlation_id leg) (fst y)"
    then show f: "fst x = fst y" by (simp add: slice_cid_def)
    show "snd x = snd y" using xy f by (auto simp: in_set_enumerate_eq)
  qed
  moreover have "distinct (filter (\<lambda>(i, q). 0 < q) (enumerate 0 qs))"
    by (intro distinct_filter) (metis distinct_enumerate)
  ultimately show ?thesis
    by (simp add: leg_children_def distinct_map o_def case_prod_beta)
qed

lemma leg_children_parts:
  "c \<in> set (leg_children leg qs) \<Longrightarrow> 0 < i_quantity c \<and> i_quantity c \<in> set qs \<and> i_symbol c = i_symbol leg \<and> i_side c = i_side leg"
  by (auto simp: leg_children_def in_set_enumerate_eq)

section \<open>Properties\<close>

text \<open>
  Position-aware sizing stays within the remaining budget and uses it up. For positive
  equity, price and percentage, the number of shares is not negative; their cost is at most
  the budget left over the exposure already held, up to the error of two decimal
  operations; one more share would exceed that budget; and a larger exposure never gives a
  larger quantity.
\<close>

theorem sizing_within_budget:
  "0 < equity \<and> 0 < price \<and> 0 < pct \<and> existing \<le> existing' \<longrightarrow>
   (let n = compute_remaining_quantity equity pct price existing;
        room = max 0 (max_notional equity pct - existing) in
    0 \<le> n \<and> of_int n * price \<le> room * (1 + eps) * (1 + eps) \<and>
    room * (1 - eps) * (1 - eps) < (of_int n + 1) * price \<and>
    compute_remaining_quantity equity pct price existing' \<le> n)"
proof (intro impI)
  assume a: "0 < equity \<and> 0 < price \<and> 0 < pct \<and> existing \<le> existing'"
  define x where "x = max_notional equity pct - existing"
  define r where "r = max 0 (dec x)"
  define n where "n = max 0 (trunc_int (dec_div r price))"
  have n: "compute_remaining_quantity equity pct price existing = n"
    using a by (simp add: compute_remaining_quantity_def Let_def n_def r_def x_def dec_sub_def)
  have r: "0 \<le> r" "max 0 x * (1 - eps) \<le> r" "r \<le> max 0 x * (1 + eps)"
    using remaining_between[of x] by (simp_all add: r_def)
  have c: "of_int n * price \<le> r * (1 + eps)" "r * (1 - eps) < (of_int n + 1) * price"
    using share_count[of price r] a r(1) by (simp_all add: n_def)
  have "of_int n * price \<le> max 0 x * (1 + eps) * (1 + eps)"
    using c(1) mult_right_mono[OF r(3), of "1 + eps"] by (rule order_trans) simp
  moreover have "max 0 x * (1 - eps) * (1 - eps) < (of_int n + 1) * price"
    by (rule le_less_trans[OF mult_right_mono[OF r(2)] c(2)]) simp
  ultimately show "let n = compute_remaining_quantity equity pct price existing;
        room = max 0 (max_notional equity pct - existing) in
    0 \<le> n \<and> of_int n * price \<le> room * (1 + eps) * (1 + eps) \<and>
    room * (1 - eps) * (1 - eps) < (of_int n + 1) * price \<and>
    compute_remaining_quantity equity pct price existing' \<le> n"
    using remaining_mono[of existing existing' equity pct price] a
    by (simp add: Let_def n flip: x_def) (simp add: n_def)
qed

lemma sizing_within_budget_witness:
  "compute_remaining_quantity 100000 10 (3 / 2) 8000 \<le> compute_remaining_quantity 100000 10 (3 / 2) 4000"
  using sizing_within_budget[of 100000 "3 / 2" 10 4000 8000] by (simp add: Let_def)

text \<open>
  C33: slicing conserves quantity. The intents of a plan built from a signal add up to the
  planned quantity, whatever the slicing algorithm and its parameters, each has a positive
  quantity and the symbol of the signal, and their correlation ids are pairwise distinct;
  the expansion cannot fail.
\<close>

theorem plan_intents_conserve_quantity:
  "plan_from_signal fresh s ctx = Inr p \<longrightarrow>
   (\<exists>is. plan_to_intents fresh' p = Inr is \<and>
      sum_list (map i_quantity is) = max 0 (z_total_qty (x_sizing p)) \<and>
      distinct (map i_correlation_id is) \<and>
      (\<forall>i \<in> set is. 0 < i_quantity i \<and> i_symbol i = g_symbol s))"
proof (intro impI)
  assume ok: "plan_from_signal fresh s ctx = Inr p"
  from plan_from_signal_legs(1)[OF ok] consider
      (none) "x_legs p = []" "z_total_qty (x_sizing p) \<le> 0"
    | (leg) i where "x_legs p = [i]" "0 < i_quantity i" "i_quantity i = z_total_qty (x_sizing p)"
        "i_symbol i \<noteq> []" "i_symbol i = g_symbol s" "i_correlation_id i \<noteq> []" by blast
  then show "\<exists>is. plan_to_intents fresh' p = Inr is \<and>
      sum_list (map i_quantity is) = max 0 (z_total_qty (x_sizing p)) \<and>
      distinct (map i_correlation_id is) \<and>
      (\<forall>i \<in> set is. 0 < i_quantity i \<and> i_symbol i = g_symbol s)"
  proof cases
    case none
    then show ?thesis by (simp add: plan_to_intents_def)
  next
    case leg
    let ?cs = "leg_children i (plan_sliced_quantities p)"
    have "sum_list (map i_quantity ?cs) = z_total_qty (x_sizing p)"
      unfolding leg_children_sum using sum_filter_pos[of "plan_sliced_quantities p"] sliced_nonneg[of p] sliced_sum[of p] leg
      by simp
    moreover have "l_algo (x_slicing p) = NO_SLICING \<Longrightarrow> plan_to_intents fresh' p = Inr [i]"
      using leg by (simp add: plan_to_intents_def)
    moreover have "l_algo (x_slicing p) \<noteq> NO_SLICING \<Longrightarrow> plan_to_intents fresh' p = Inr ?cs"
      using leg collect_leg[of i fresh' "plan_sliced_quantities p"] by (simp add: plan_to_intents_def)
    ultimately show ?thesis using leg leg_children_cids[of i] leg_children_parts[of _ i]
      by (cases "l_algo (x_slicing p) = NO_SLICING") auto
  qed
qed

lemma plan_intents_conserve_quantity_witness:
  "\<exists>p is. plan_from_signal ''u1''
      \<lparr>g_symbol = ''INFY'', g_exchange = ''NSE'', g_signal_type = ''BUY'', g_confidence = 1, g_quantity = 10,
       g_price = Some 100, g_entry_price = None, g_strategy = ''s'', g_position_size_pct = 0\<rparr>
      \<lparr>c_equity = 100000, c_max_position_pct = 10, c_existing_notional = 0, c_atr = None, c_atr_risk_pct = 1,
       c_default_order_type = MARKET, c_default_product_type = INTRADAY, c_default_exchange = ''NSE'',
       c_min_confidence = 0, c_kill_switch_active = False, c_correlation_id = Some ''c'', c_strategy = [],
       c_slicing = slicing_plan_default\<lparr>l_algo := TWAP, l_slice_count := 3\<rparr>, c_cap_explicit_quantity = False\<rparr> = Inr p \<and>
     plan_to_intents ''u2'' p = Inr is \<and> sum_list (map i_quantity is) = 10"
proof -
  define s where "s = \<lparr>g_symbol = ''INFY'', g_exchange = ''NSE'', g_signal_type = ''BUY'', g_confidence = 1, g_quantity = 10,
       g_price = Some 100, g_entry_price = None, g_strategy = ''s'', g_position_size_pct = 0\<rparr>"
  define ctx where "ctx = \<lparr>c_equity = 100000, c_max_position_pct = 10, c_existing_notional = 0, c_atr = None, c_atr_risk_pct = 1,
       c_default_order_type = MARKET, c_default_product_type = INTRADAY, c_default_exchange = ''NSE'',
       c_min_confidence = 0, c_kill_switch_active = False, c_correlation_id = Some ''c'', c_strategy = [],
       c_slicing = slicing_plan_default\<lparr>l_algo := TWAP, l_slice_count := 3\<rparr>, c_cap_explicit_quantity = False\<rparr>"
  have "\<exists>p. plan_from_signal ''u1'' s ctx = Inr p \<and> z_total_qty (x_sizing p) = 10"
    by (simp add: s_def ctx_def plan_from_signal_def signal_is_actionable_def resolve_sizing_def order_sizing_new_def
        mk_order_intent_def str_or_def py_strip_def is_space_def Let_def)
  then obtain p where "plan_from_signal ''u1'' s ctx = Inr p" "z_total_qty (x_sizing p) = 10" by blast
  then show ?thesis using plan_intents_conserve_quantity[of "''u1''" s ctx p "''u2''"]
    unfolding s_def[symmetric] ctx_def[symmetric] by auto
qed

text \<open>
  An explicit signal quantity with its own position percentage is capped by that
  percentage alone: the account's \<open>max_position_pct\<close> plays no part in \<open>to_intent\<close>, while
  a signal without a quantity is held to the smaller of the two percentages.
\<close>

theorem explicit_quantity_ignores_account_limit:
  "(0 < g_quantity s \<and> 0 < g_position_size_pct s \<longrightarrow>
      signal_to_intent fresh s capital m existing = signal_to_intent fresh s capital m' existing) \<and>
   (g_quantity s \<le> 0 \<and> signal_to_intent fresh s capital m existing = Inr i \<and> 0 < m \<longrightarrow>
      i_quantity i = compute_remaining_quantity capital
        (if 0 < g_position_size_pct s then min (g_position_size_pct s) m else m) (i_price i) existing)"
proof (intro conjI impI)
  assume "0 < g_quantity s \<and> 0 < g_position_size_pct s"
  then have "resolve_sizing s ((to_intent_context s capital m existing)\<lparr>c_max_position_pct := m'\<rparr>) price =
      resolve_sizing s (to_intent_context s capital m existing) price" for price
    by (simp add: resolve_sizing_def pct_equity_qty_def)
  from plan_from_signal_cong[OF this, of fresh]
  show "signal_to_intent fresh s capital m existing = signal_to_intent fresh s capital m' existing"
    by (simp add: signal_to_intent_def)
next
  assume a: "g_quantity s \<le> 0 \<and> signal_to_intent fresh s capital m existing = Inr i \<and> 0 < m"
  define ctx where "ctx = to_intent_context s capital m existing"
  have ctx: "c_equity ctx = capital" "c_max_position_pct ctx = m" "c_existing_notional ctx = existing"
    by (simp_all add: ctx_def)
  from a obtain p where p: "plan_from_signal fresh s ctx = Inr p" "x_legs p \<noteq> []" "hd (x_legs p) = i"
    unfolding ctx_def by (auto simp: signal_to_intent_def split: sum.splits list.splits if_splits)
  obtain price where pr: "(case g_entry_price s of Some p \<Rightarrow> Some p | None \<Rightarrow> g_price s) = Some price" "0 < price"
      "x_sizing p = resolve_sizing s ctx price"
    using plan_from_signal_legs(2)[OF p(1)] by blast
  have "i_price i = price" "i_quantity i = z_total_qty (resolve_sizing s ctx price)"
    using plan_from_signal_legs(1)[OF p(1)] p(2,3) pr by auto
  then show "i_quantity i = compute_remaining_quantity capital
        (if 0 < g_position_size_pct s then min (g_position_size_pct s) m else m) (i_price i) existing"
    using a pr(2) ctx by (simp add: resolve_sizing_def effective_pct_def order_sizing_new_def Let_def)
qed

lemma explicit_quantity_ignores_account_limit_witness:
  "let s = \<lparr>g_symbol = ''INFY'', g_exchange = ''NSE'', g_signal_type = ''BUY'', g_confidence = 1, g_quantity = 10000,
       g_price = Some 100, g_entry_price = None, g_strategy = ''s'', g_position_size_pct = 50\<rparr> in
   signal_to_intent ''u'' s 100000 10 0 = signal_to_intent ''u'' s 100000 90 0"
  using explicit_quantity_ignores_account_limit[of "\<lparr>g_symbol = ''INFY'', g_exchange = ''NSE'', g_signal_type = ''BUY'',
       g_confidence = 1, g_quantity = 10000, g_price = Some 100, g_entry_price = None, g_strategy = ''s'',
       g_position_size_pct = 50\<rparr>" "''u''" 100000 10 0 90]
  by (simp add: Let_def)

end
