(* ===== verification/Trading_Loop.thy ===== *)
theory Trading_Loop
  imports Desk_Operations Reconciliation Sizing_Plan "HOL-Library.Char_ord" "HOL-Library.List_Lexorder"
begin

text \<open>
  From a scanner's candidate to orders: choosing among the signals of one bar
  (\<open>application/trading/signal_coordinator.py\<close>), gating and planning
  (\<open>application/trading/execution_planner.py\<close>), placement
  (\<open>application/trading/order_placer.py\<close>), the mapping to commands
  (\<open>application/oms/order_command_mapper.py\<close>) and the orchestrator that composes them
  (\<open>application/trading/trading_orchestrator.py\<close>, wired in \<open>runtime/factory.py\<close>). The
  feature source and the strategies are injected and stay arguments, as do drawn ids.
\<close>

section \<open>Coordinating signals\<close>

text \<open>Confidences are compared as floats.\<close>

definition pick_winner :: "signal_dto \<Rightarrow> signal_dto \<Rightarrow> signal_dto" where
  "pick_winner a b =
     (if flt (g_confidence a) < flt (g_confidence b) then b
      else if flt (g_confidence b) < flt (g_confidence a) then a
      else if g_strategy a \<le> g_strategy b then b else a)"

type_synonym 'b pending_signals = "(string \<times> 'b, signal_dto) dict"

definition coordinator_submit :: "signal_dto \<Rightarrow> 'b \<Rightarrow> 'b pending_signals \<Rightarrow> signal_dto option \<times> 'b pending_signals" where
  "coordinator_submit s bar d =
     (let k = (g_symbol s, bar) in
      case dict_get d k of
        None \<Rightarrow> (Some s, dict_put d k s)
      | Some old \<Rightarrow>
          (let w = pick_winner old s in (if w \<noteq> s then Some w else None, dict_put d k w)))"

definition coordinator_flush :: "'b \<Rightarrow> 'b pending_signals \<Rightarrow> signal_dto list \<times> 'b pending_signals" where
  "coordinator_flush bar d =
     (map snd (filter (\<lambda>(k, s). snd k = bar) d), filter (\<lambda>(k, s). snd k \<noteq> bar) d)"

definition winners_step :: "(string, signal_dto) dict \<Rightarrow> signal_dto \<Rightarrow> (string, signal_dto) dict" where
  "winners_step d s =
     (case dict_get d (g_symbol s) of
        None \<Rightarrow> dict_put d (g_symbol s) s
      | Some old \<Rightarrow>
          if flt (g_confidence old) < flt (g_confidence s) then dict_put d (g_symbol s) s
          else if flt (g_confidence s) = flt (g_confidence old) \<and> g_strategy old \<le> g_strategy s
          then dict_put d (g_symbol s) s
          else d)"

definition coalesce_strategy_signals :: "signal_dto list \<Rightarrow> signal_dto list" where
  "coalesce_strategy_signals ss =
     (if length ss \<le> 1 then ss
      else filter (\<lambda>s. \<not> signal_is_actionable s) ss @
        dict_values (foldl winners_step [] (filter signal_is_actionable ss)))"

section \<open>Commands\<close>

definition order_intent_to_oms_command :: "order_intent \<Rightarrow> command res" where
  "order_intent_to_oms_command i = mk_command
     \<lparr>cm_symbol = i_symbol i, cm_exchange = i_exchange i, cm_side = i_side i, cm_quantity = i_quantity i,
      cm_price = i_price i, cm_order_type = i_order_type i, cm_product_type = i_product_type i,
      cm_correlation_id = i_correlation_id i\<rparr> None"

definition order_request_to_oms_command :: "string \<Rightarrow> order_request \<Rightarrow> command res" where
  "order_request_to_oms_command fresh q = mk_command
     \<lparr>cm_symbol = q_symbol q, cm_exchange = q_exchange q, cm_side = q_transaction_type q, cm_quantity = q_quantity q,
      cm_price = q_price q, cm_order_type = q_order_type q, cm_product_type = q_product_type q,
      cm_correlation_id = (case truthy (q_correlation_id q) of Some c \<Rightarrow> c | None \<Rightarrow> fresh)\<rparr> None"

definition backtest_market_command ::
  "string \<Rightarrow> string \<Rightarrow> order_side \<Rightarrow> int \<Rightarrow> rat \<Rightarrow> string \<Rightarrow> product_type \<Rightarrow> command res" where
  "backtest_market_command symbol exchange side qty price cid product = mk_command
     \<lparr>cm_symbol = symbol, cm_exchange = exchange, cm_side = side, cm_quantity = qty, cm_price = price,
      cm_order_type = MARKET, cm_product_type = product, cm_correlation_id = cid\<rparr> None"

definition cli_place_to_oms_command ::
  "string \<Rightarrow> string \<Rightarrow> string \<Rightarrow> order_side \<Rightarrow> int \<Rightarrow> rat \<Rightarrow> order_type \<Rightarrow> product_type \<Rightarrow> string option \<Rightarrow> command res" where
  "cli_place_to_oms_command fresh symbol exchange side qty price otype product cid = mk_command
     \<lparr>cm_symbol = symbol, cm_exchange = exchange, cm_side = side, cm_quantity = qty, cm_price = price,
      cm_order_type = otype, cm_product_type = product,
      cm_correlation_id = (case truthy cid of Some c \<Rightarrow> c | None \<Rightarrow> ''cli:'' @ fresh)\<rparr> None"

text \<open>\<open>entry_price or price or 0\<close>\<close>

definition first_price :: "signal_dto \<Rightarrow> rat" where
  "first_price s =
     (case g_entry_price s of
        Some p \<Rightarrow> if p \<noteq> 0 then p else (case g_price s of Some q \<Rightarrow> q | None \<Rightarrow> 0)
      | None \<Rightarrow> (case g_price s of Some q \<Rightarrow> q | None \<Rightarrow> 0))"

definition empty_plan_oms_command :: "signal_dto \<Rightarrow> string \<Rightarrow> order_type \<Rightarrow> product_type \<Rightarrow> string \<Rightarrow> command res" where
  "empty_plan_oms_command s exchange otype product cid = mk_command
     \<lparr>cm_symbol = g_symbol s, cm_exchange = exchange,
      cm_side = (if g_signal_type s \<in> set [''BUY'', ''STRONG_BUY''] then BUY else SELL), cm_quantity = 0,
      cm_price = first_price s, cm_order_type = otype, cm_product_type = product, cm_correlation_id = cid\<rparr> None"

section \<open>Planning\<close>

text \<open>Numbers of the configuration that are floats are given as they print.\<close>

record loop_config =
  oc_min_confidence :: rat
  oc_dry_run :: bool
  oc_product_type :: product_type
  oc_order_type :: order_type
  oc_max_position_pct :: rat
  oc_exchange :: string

definition loop_config_default :: loop_config where
  "loop_config_default =
     \<lparr>oc_min_confidence = 7 / 10, oc_dry_run = False, oc_product_type = INTRADAY, oc_order_type = MARKET,
      oc_max_position_pct = 0, oc_exchange = ''NSE''\<rparr>"

text \<open>
  The balance, as its float prints: \<open>None\<close> without a risk manager or provider, \<open>Inl\<close> when
  asking for it raises.
\<close>

definition resolve_equity :: "rat res option \<Rightarrow> rat" where
  "resolve_equity balance = (case balance of Some (Inr q) \<Rightarrow> q | _ \<Rightarrow> 0)"

text \<open>The order manager has no attribute \<open>position_manager\<close>, so nothing counts as held.\<close>

definition resolve_existing_notional :: "string \<Rightarrow> string \<Rightarrow> rat" where
  "resolve_existing_notional symbol exchange = 0"

definition build_plan_context :: "loop_config \<Rightarrow> rat res option \<Rightarrow> signal_dto \<Rightarrow> string option \<Rightarrow> plan_context" where
  "build_plan_context cfg balance s cid =
     \<lparr>c_equity = resolve_equity balance, c_max_position_pct = oc_max_position_pct cfg,
      c_existing_notional = resolve_existing_notional (g_symbol s) (str_or (g_exchange s) (oc_exchange cfg)),
      c_atr = None, c_atr_risk_pct = 1, c_default_order_type = oc_order_type cfg,
      c_default_product_type = oc_product_type cfg, c_default_exchange = oc_exchange cfg,
      c_min_confidence = oc_min_confidence cfg, c_kill_switch_active = False,
      c_correlation_id = Some (case truthy cid of Some c \<Rightarrow> c
        | None \<Rightarrow> g_symbol s @ '':'' @ str_or (g_strategy s) ''strategy''),
      c_strategy = g_strategy s, c_slicing = slicing_plan_default, c_cap_explicit_quantity = False\<rparr>"

record plan_result =
  pr_commands :: "command list"
  pr_plan :: "execution_plan option"
  pr_rejected :: bool
  pr_dry_run :: bool

text \<open>
  Only a \<open>ValueError\<close> of the construction of the plan is a rejection; everything after it is
  outside the \<open>try\<close>.
\<close>

definition planner_plan :: "string \<Rightarrow> loop_config \<Rightarrow> rat res option \<Rightarrow> signal_dto \<Rightarrow> string option \<Rightarrow> plan_result res" where
  "planner_plan fresh cfg balance s cid =
     (let no = \<lparr>pr_commands = [], pr_plan = None, pr_rejected = False, pr_dry_run = False\<rparr> in
      if \<not> signal_is_actionable s then Inr no
      else if flt (g_confidence s) < flt (oc_min_confidence cfg) then Inr (no\<lparr>pr_rejected := True\<rparr>)
      else if oc_dry_run cfg then Inr (no\<lparr>pr_dry_run := True\<rparr>)
      else case plan_from_signal fresh s (build_plan_context cfg balance s cid) of
             Inl e \<Rightarrow> if is_value_error e then Inr (no\<lparr>pr_rejected := True\<rparr>) else Inl e
           | Inr p \<Rightarrow>
               (case plan_to_intents fresh p of
                  Inl e \<Rightarrow> Inl e
                | Inr intents \<Rightarrow>
                    if intents = [] then Inr (no\<lparr>pr_plan := Some p, pr_rejected := True\<rparr>)
                    else case collect (map order_intent_to_oms_command (filter (\<lambda>i. 0 < i_quantity i) intents)) of
                           Inl e \<Rightarrow> Inl e
                         | Inr cs \<Rightarrow> Inr (no\<lparr>pr_commands := cs, pr_plan := Some p, pr_rejected := (cs = [])\<rparr>)))"

definition calculate_quantity :: "string \<Rightarrow> loop_config \<Rightarrow> rat res option \<Rightarrow> signal_dto \<Rightarrow> int res" where
  "calculate_quantity fresh cfg balance s =
     (case plan_from_signal fresh s (build_plan_context cfg balance s None) of
        Inl e \<Rightarrow> Inl e | Inr p \<Rightarrow> Inr (z_total_qty (x_sizing p)))"

definition signal_to_order_command :: "string \<Rightarrow> loop_config \<Rightarrow> rat res option \<Rightarrow> signal_dto \<Rightarrow> string option \<Rightarrow> command res" where
  "signal_to_order_command fresh cfg balance s cid =
     (case plan_from_signal fresh s (build_plan_context cfg balance s cid) of
        Inl e \<Rightarrow> Inl e
      | Inr p \<Rightarrow>
          (case plan_to_intents fresh p of
             Inl e \<Rightarrow> Inl e
           | Inr [] \<Rightarrow>
               empty_plan_oms_command s (str_or (g_exchange s) (oc_exchange cfg)) (oc_order_type cfg) (oc_product_type cfg)
                 ((case truthy cid of Some c \<Rightarrow> c | None \<Rightarrow> g_symbol s @ '':'' @ str_or (g_strategy s) ''strategy'') @
                  '':'' @ str_or (g_strategy s) ''strategy'')
           | Inr (i # _) \<Rightarrow> order_intent_to_oms_command i))"

section \<open>The orchestrator\<close>

datatype loop_event =
    PlanBuilt execution_plan
  | OrderRequested order_request
  | SignalExecuted signal_dto string "string option"

text \<open>\<open>lo_handlers\<close>: the tokens under which the bus holds its handler.\<close>

record 'l orchestrator =
  lo_oms :: "'l oms"
  lo_config :: loop_config
  lo_submit :: "broker option"
  lo_executed :: nat
  lo_rejected :: nat
  lo_errors :: nat
  lo_token :: "string option"
  lo_handlers :: "string list"
  lo_events :: "loop_event list"

definition orchestrator_new :: "'l oms \<Rightarrow> loop_config \<Rightarrow> broker option \<Rightarrow> 'l orchestrator" where
  "orchestrator_new s cfg submit =
     \<lparr>lo_oms = s, lo_config = cfg, lo_submit = submit, lo_executed = 0, lo_rejected = 0, lo_errors = 0,
      lo_token = None, lo_handlers = [], lo_events = []\<rparr>"

definition inc_executed :: "'l orchestrator \<Rightarrow> 'l orchestrator" where
  "inc_executed z = z\<lparr>lo_executed := Suc (lo_executed z)\<rparr>"

definition inc_rejected :: "'l orchestrator \<Rightarrow> 'l orchestrator" where
  "inc_rejected z = z\<lparr>lo_rejected := Suc (lo_rejected z)\<rparr>"

definition inc_error :: "'l orchestrator \<Rightarrow> 'l orchestrator" where
  "inc_error z = z\<lparr>lo_errors := Suc (lo_errors z)\<rparr>"

definition loop_publish :: "loop_event \<Rightarrow> 'l orchestrator \<Rightarrow> 'l orchestrator" where
  "loop_publish ev z = z\<lparr>lo_events := lo_events z @ [ev]\<rparr>"

definition requested_order :: "command \<Rightarrow> slicing_plan \<Rightarrow> order_request" where
  "requested_order c l = order_request_default
     \<lparr>q_symbol := cm_symbol c, q_exchange := cm_exchange c, q_transaction_type := cm_side c, q_quantity := cm_quantity c,
      q_price := cm_price c, q_order_type := cm_order_type c, q_product_type := cm_product_type c,
      q_correlation_id := Some (cm_correlation_id c), q_slice := (l_algo l \<noteq> NO_SLICING),
      q_slice_count := l_slice_count l, q_slice_interval := l_interval_seconds l,
      q_twap_duration := l_twap_duration_seconds l, q_vwap_participation_rate := l_vwap_participation_rate l,
      q_slicing_algo := slicing_algo_value (l_algo l), q_disclosed_quantity := l_disclosed_qty l\<rparr>"

definition publish_order_requested :: "command \<Rightarrow> execution_plan option \<Rightarrow> 'l orchestrator \<Rightarrow> 'l orchestrator" where
  "publish_order_requested c plan z =
     (case plan of None \<Rightarrow> z | Some p \<Rightarrow> loop_publish (OrderRequested (requested_order c (x_slicing p))) z)"

definition place_leg :: "'l oms_env \<times> string \<Rightarrow> command \<Rightarrow> 'l orchestrator \<Rightarrow> order_result \<times> 'l orchestrator" where
  "place_leg ef c z =
     (case place_order (fst ef) (snd ef) c (lo_submit z) (lo_oms z) of
        (Inl e, s1) \<Rightarrow> (fail_with (Because (exn_text e)), inc_error (z\<lparr>lo_oms := s1\<rparr>))
      | (Inr r, s1) \<Rightarrow> (r, z\<lparr>lo_oms := s1\<rparr>))"

fun place_legs ::
  "(nat \<Rightarrow> 'l oms_env \<times> string) \<Rightarrow> execution_plan option \<Rightarrow> nat \<Rightarrow> command list \<Rightarrow> 'l orchestrator \<Rightarrow>
   order_result list \<times> 'l orchestrator" where
  "place_legs envs plan j [] z = ([], z)"
| "place_legs envs plan j (c # cs) z =
     (let (r, z1) = place_leg (envs j) c z;
          (rs, z2) = place_legs envs plan (Suc j) cs (publish_order_requested c plan z1)
      in (r # rs, z2))"

definition publish_result :: "signal_dto \<Rightarrow> 'l orchestrator \<Rightarrow> order_result \<Rightarrow> 'l orchestrator" where
  "publish_result s z r =
     (case or_order r of
        Some ord \<Rightarrow>
          if or_success r then loop_publish (SignalExecuted s (o_order_id ord) (o_correlation_id ord)) (inc_executed z)
          else inc_rejected z
      | None \<Rightarrow> if or_success r then z else inc_rejected z)"

definition publish_plan_built :: "execution_plan option \<Rightarrow> 'l orchestrator \<Rightarrow> 'l orchestrator" where
  "publish_plan_built plan z = (case plan of None \<Rightarrow> z | Some p \<Rightarrow> loop_publish (PlanBuilt p) z)"

definition execute_signal ::
  "string \<Rightarrow> rat res option \<Rightarrow> (nat \<Rightarrow> 'l oms_env \<times> string) \<Rightarrow> signal_dto \<Rightarrow> string option \<Rightarrow>
   'l orchestrator \<Rightarrow> exn option \<times> 'l orchestrator" where
  "execute_signal fresh balance envs s cid z =
     (case planner_plan fresh (lo_config z) balance s cid of
        Inl e \<Rightarrow> (Some e, z)
      | Inr pr \<Rightarrow>
          if pr_rejected pr then (None, inc_rejected z)
          else if pr_dry_run pr then (None, inc_executed z)
          else if pr_commands pr = [] then (None, z)
          else
            let (rs, z1) = place_legs envs (pr_plan pr) 0 (pr_commands pr) (publish_plan_built (pr_plan pr) z)
            in (None, foldl (publish_result s) z1 rs))"

text \<open>A candidate event; \<open>ce_extra\<close> holds the entries of its payload that have no role of their own.\<close>

record candidate_event =
  ce_symbol :: "string option"
  ce_exchange :: "string option"
  ce_score :: "pos_value option"
  ce_reason :: "string option"
  ce_candidate_id :: "string option"
  ce_extra :: "(string \<times> pos_value) list"
  ce_correlation :: "string option"

record candidate =
  cd_symbol :: string
  cd_exchange :: string
  cd_score :: rat
  cd_reasons :: "string list"
  cd_metrics :: "(string \<times> rat) list"

text \<open>\<open>Decimal(str(v))\<close>\<close>

fun decimal_of :: "pos_value \<Rightarrow> rat res" where
  "decimal_of (PvNum x) = Inr x"
| "decimal_of (PvText s) = (case read_decimal s of Some x \<Rightarrow> Inr x | None \<Rightarrow> Inl InvalidOperation)"
| "decimal_of PvNone = Inl InvalidOperation"

definition decimal_entry :: "string \<times> pos_value \<Rightarrow> (string \<times> rat) res" where
  "decimal_entry kv = (case decimal_of (snd kv) of Inl e \<Rightarrow> Inl e | Inr x \<Rightarrow> Inr (fst kv, x))"

definition candidate_of_event :: "loop_config \<Rightarrow> candidate_event \<Rightarrow> string \<Rightarrow> candidate res" where
  "candidate_of_event cfg ev symbol =
     (case decimal_of (case ce_score ev of Some v \<Rightarrow> v | None \<Rightarrow> PvNum 0) of
        Inl e \<Rightarrow> Inl e
      | Inr score \<Rightarrow>
          (case collect (map decimal_entry
                  ((case ce_candidate_id ev of Some c \<Rightarrow> [(''candidate_id'', PvText c)] | None \<Rightarrow> []) @ ce_extra ev)) of
             Inl e \<Rightarrow> Inl e
           | Inr metrics \<Rightarrow> Inr
               \<lparr>cd_symbol = symbol, cd_exchange = (case ce_exchange ev of Some x \<Rightarrow> x | None \<Rightarrow> oc_exchange cfg),
                cd_score = score, cd_reasons = [case ce_reason ev of Some x \<Rightarrow> x | None \<Rightarrow> []], cd_metrics = metrics\<rparr>))"

text \<open>What a handling meets: features, strategies, the balance, drawn ids and the worlds of its placements.\<close>

record ('l, 'f) handling =
  hw_fetch :: "string \<Rightarrow> 'f option res"
  hw_evaluate :: "candidate \<Rightarrow> 'f \<Rightarrow> signal_dto list res"
  hw_balance :: "rat res option"
  hw_fresh :: "nat \<Rightarrow> string"
  hw_env :: "nat \<Rightarrow> nat \<Rightarrow> 'l oms_env \<times> string"

definition fetch_features :: "('l, 'f) handling \<Rightarrow> string \<Rightarrow> 'f option" where
  "fetch_features w symbol = (case hw_fetch w symbol of Inl e \<Rightarrow> None | Inr f \<Rightarrow> f)"

definition evaluate_candidate :: "('l, 'f) handling \<Rightarrow> candidate \<Rightarrow> 'f \<Rightarrow> signal_dto list" where
  "evaluate_candidate w cd f = (case hw_evaluate w cd f of Inl e \<Rightarrow> [] | Inr ss \<Rightarrow> coalesce_strategy_signals ss)"

definition candidate_cid :: "candidate_event \<Rightarrow> string \<Rightarrow> string" where
  "candidate_cid ev symbol =
     (case truthy (ce_correlation ev) of
        Some c \<Rightarrow> c
      | None \<Rightarrow> (case truthy (ce_candidate_id ev) of Some c \<Rightarrow> c | None \<Rightarrow> ''trading_orchestrator:'' @ symbol))"

text \<open>An exception ends the handling; the signals after it are not looked at.\<close>

fun execute_signals ::
  "('l, 'f) handling \<Rightarrow> string \<Rightarrow> nat \<Rightarrow> signal_dto list \<Rightarrow> 'l orchestrator \<Rightarrow> 'l orchestrator" where
  "execute_signals w cid i [] z = z"
| "execute_signals w cid i (s # ss) z =
     (case execute_signal (hw_fresh w i) (hw_balance w) (hw_env w i) s (Some cid) z of
        (Some e, z1) \<Rightarrow> inc_error z1
      | (None, z1) \<Rightarrow> execute_signals w cid (Suc i) ss z1)"

definition on_candidate :: "('l, 'f) handling \<Rightarrow> candidate_event \<Rightarrow> 'l orchestrator \<Rightarrow> 'l orchestrator" where
  "on_candidate w ev z =
     (case truthy (ce_symbol ev) of
        None \<Rightarrow> inc_error z
      | Some symbol \<Rightarrow>
          (case candidate_of_event (lo_config z) ev symbol of
             Inl e \<Rightarrow> inc_error z
           | Inr cd \<Rightarrow>
               (case fetch_features w symbol of
                  None \<Rightarrow> inc_error z
                | Some f \<Rightarrow> execute_signals w (candidate_cid ev symbol) 0 (evaluate_candidate w cd f) z)))"

section \<open>Lifecycle\<close>

text \<open>The factory subscribes the handler itself, apart from the orchestrator's own subscription.\<close>

definition wire_orchestrator :: "string \<Rightarrow> 'l orchestrator \<Rightarrow> 'l orchestrator" where
  "wire_orchestrator token z = z\<lparr>lo_handlers := lo_handlers z @ [token]\<rparr>"

definition attach_event_subscription :: "string \<Rightarrow> 'l orchestrator \<Rightarrow> 'l orchestrator" where
  "attach_event_subscription token z =
     (if lo_token z \<noteq> None then z else z\<lparr>lo_handlers := lo_handlers z @ [token], lo_token := Some token\<rparr>)"

definition detach_event_subscription :: "'l orchestrator \<Rightarrow> 'l orchestrator" where
  "detach_event_subscription z =
     (case lo_token z of
        None \<Rightarrow> z
      | Some t \<Rightarrow> z\<lparr>lo_handlers := filter (\<lambda>h. h \<noteq> t) (lo_handlers z), lo_token := None\<rparr>)"

definition loop_start :: "string \<Rightarrow> 'l orchestrator \<Rightarrow> 'l orchestrator" where
  "loop_start token z = attach_event_subscription token z"

definition loop_stop :: "'l orchestrator \<Rightarrow> 'l orchestrator" where
  "loop_stop z = detach_event_subscription z"

definition reset_stats :: "'l orchestrator \<Rightarrow> 'l orchestrator" where
  "reset_stats z = z\<lparr>lo_executed := 0, lo_rejected := 0, lo_errors := 0\<rparr>"

text \<open>A published candidate runs the handler once for every registration, the \<open>i\<close>-th in the world \<open>ws i\<close>.\<close>

definition deliver_candidate :: "(nat \<Rightarrow> ('l, 'f) handling) \<Rightarrow> candidate_event \<Rightarrow> 'l orchestrator \<Rightarrow> 'l orchestrator" where
  "deliver_candidate ws ev z = fold (\<lambda>i. on_candidate (ws i) ev) [0..<length (lo_handlers z)] z"


section \<open>Facts about choosing\<close>

text \<open>Later signals win ties: the order in which the winner is the greatest.\<close>

definition weaker :: "signal_dto \<Rightarrow> signal_dto \<Rightarrow> bool" where
  "weaker a b \<longleftrightarrow> flt (g_confidence a) < flt (g_confidence b) \<or>
     flt (g_confidence a) = flt (g_confidence b) \<and> g_strategy a \<le> g_strategy b"

lemma weaker_refl [simp]: "weaker a a"
  by (simp add: weaker_def)

lemma weaker_trans: "weaker a b \<Longrightarrow> weaker b c \<Longrightarrow> weaker a c"
  by (auto simp: weaker_def)

lemma pick_winner_weaker: "pick_winner a b = (if weaker a b then b else a)"
  by (auto simp: pick_winner_def weaker_def)

lemma weaker_total: "\<not> weaker a b \<Longrightarrow> weaker b a"
  by (auto simp: weaker_def)

lemma winners_step_put:
  "winners_step d s = dict_put d (g_symbol s) (case dict_get d (g_symbol s) of None \<Rightarrow> s | Some old \<Rightarrow> pick_winner old s)"
  by (auto simp: winners_step_def pick_winner_def dict_put_def dict_get_def update_triv split: option.split)

definition best :: "(string, signal_dto) dict \<Rightarrow> signal_dto list \<Rightarrow> bool" where
  "best d ss \<longleftrightarrow> dict_wf d \<and> (\<forall>k. case dict_get d k of
       None \<Rightarrow> \<forall>s \<in> set ss. g_symbol s \<noteq> k
     | Some w \<Rightarrow> w \<in> set ss \<and> g_symbol w = k \<and> (\<forall>s \<in> set ss. g_symbol s = k \<longrightarrow> weaker s w))"

lemma best_step:
  assumes "best d ss"
  shows "best (winners_step d s) (ss @ [s])"
proof -
  define w where "w = (case dict_get d (g_symbol s) of None \<Rightarrow> s | Some old \<Rightarrow> pick_winner old s)"
  have e: "winners_step d s = dict_put d (g_symbol s) w" by (simp add: winners_step_put w_def)
  have k: "case dict_get d k of None \<Rightarrow> \<forall>s \<in> set ss. g_symbol s \<noteq> k
     | Some w \<Rightarrow> w \<in> set ss \<and> g_symbol w = k \<and> (\<forall>s \<in> set ss. g_symbol s = k \<longrightarrow> weaker s w)" for k
    using assms by (simp add: best_def)
  have w: "w \<in> set (ss @ [s]) \<and> g_symbol w = g_symbol s \<and> (\<forall>y \<in> set (ss @ [s]). g_symbol y = g_symbol s \<longrightarrow> weaker y w)"
  proof (cases "dict_get d (g_symbol s)")
    case None
    then show ?thesis using k[of "g_symbol s"] by (auto simp: w_def)
  next
    case (Some old)
    then have o: "old \<in> set ss" "g_symbol old = g_symbol s" "\<And>y. y \<in> set ss \<Longrightarrow> g_symbol y = g_symbol s \<Longrightarrow> weaker y old"
      using k[of "g_symbol s"] by auto
    show ?thesis
    proof (cases "weaker old s")
      case True
      then have "w = s" by (simp add: w_def Some pick_winner_weaker)
      then show ?thesis using weaker_trans[OF o(3) True] by simp
    next
      case False
      then have "w = old" by (simp add: w_def Some pick_winner_weaker)
      then show ?thesis using o weaker_total[OF False] by simp
    qed
  qed
  have "case dict_get (winners_step d s) k of None \<Rightarrow> \<forall>x \<in> set (ss @ [s]). g_symbol x \<noteq> k
     | Some x \<Rightarrow> x \<in> set (ss @ [s]) \<and> g_symbol x = k \<and> (\<forall>y \<in> set (ss @ [s]). g_symbol y = k \<longrightarrow> weaker y x)" for k
  proof (cases "k = g_symbol s")
    case True
    then show ?thesis using w by (simp add: e)
  next
    case False
    then show ?thesis using k[of k] by (simp add: e split: option.splits)
  qed
  moreover have "dict_wf (winners_step d s)" using assms by (simp add: e best_def)
  ultimately show ?thesis by (simp add: best_def)
qed

lemma best_mem:
  assumes "best d ss" "(k, w) \<in> set d"
  shows "w \<in> set ss \<and> g_symbol w = k \<and> (\<forall>s \<in> set ss. g_symbol s = k \<longrightarrow> weaker s w)"
proof -
  have "dict_get d k = Some w" using assms dict_mem[of d k w] by (simp add: best_def)
  moreover have "case dict_get d k of None \<Rightarrow> \<forall>s \<in> set ss. g_symbol s \<noteq> k
     | Some w \<Rightarrow> w \<in> set ss \<and> g_symbol w = k \<and> (\<forall>s \<in> set ss. g_symbol s = k \<longrightarrow> weaker s w)"
    using assms(1) unfolding best_def by blast
  ultimately show ?thesis by simp
qed

lemma best_key:
  assumes "best d ss" "s \<in> set ss"
  shows "\<exists>w. (g_symbol s, w) \<in> set d"
proof (cases "dict_get d (g_symbol s)")
  case None
  have "case dict_get d (g_symbol s) of None \<Rightarrow> \<forall>x \<in> set ss. g_symbol x \<noteq> g_symbol s
     | Some w \<Rightarrow> w \<in> set ss \<and> g_symbol w = g_symbol s \<and> (\<forall>x \<in> set ss. g_symbol x = g_symbol s \<longrightarrow> weaker x w)"
    using assms(1) unfolding best_def by blast
  then show ?thesis using None assms(2) by force
next
  case (Some w)
  then show ?thesis using assms(1) dict_mem[of d "g_symbol s" w] by (auto simp: best_def)
qed

lemma best_foldl: "best d ss \<Longrightarrow> best (foldl winners_step d xs) (ss @ xs)"
proof (induction xs arbitrary: d ss)
  case (Cons x xs)
  from Cons.IH[OF best_step[OF Cons.prems, of x]] show ?case by simp
qed simp

lemma update_append: "k \<notin> fst ` set d \<Longrightarrow> AList.update k v (d @ e) = d @ AList.update k v e"
  by (induction d) auto

lemma update_map: "AList.update (k, bar) v (map (\<lambda>(y, s). ((y, bar), s)) ws) = map (\<lambda>(y, s). ((y, bar), s)) (AList.update k v ws)"
  by (induction ws) auto

lemma get_pending:
  assumes "\<forall>k \<in> fst ` set d. snd k \<noteq> bar"
  shows "dict_get (d @ map (\<lambda>(y, s). ((y, bar), s)) ws) (k, bar) = dict_get ws k"
proof -
  have "map_of d (k, bar) = None" using assms by (force simp: map_of_eq_None_iff)
  moreover have "map_of (map (\<lambda>(y, s). ((y, bar), s)) ws) (k, bar) = map_of ws k" by (induction ws) auto
  ultimately show ?thesis by (simp add: dict_get_def map_add_def)
qed

lemma submit_pending:
  assumes "\<forall>k \<in> fst ` set d. snd k \<noteq> bar"
  shows "snd (coordinator_submit s bar (d @ map (\<lambda>(y, s). ((y, bar), s)) ws)) = d @ map (\<lambda>(y, s). ((y, bar), s)) (winners_step ws s)"
proof -
  have "(g_symbol s, bar) \<notin> fst ` set d" using assms by auto
  then show ?thesis
    by (auto simp: coordinator_submit_def Let_def get_pending[OF assms] winners_step_put dict_put_def update_append update_map
        split: option.split)
qed

lemma submit_all_pending:
  assumes "\<forall>k \<in> fst ` set d. snd k \<noteq> bar"
  shows "foldl (\<lambda>d s. snd (coordinator_submit s bar d)) (d @ map (\<lambda>(y, s). ((y, bar), s)) ws) ss =
    d @ map (\<lambda>(y, s). ((y, bar), s)) (foldl winners_step ws ss)"
  by (induction ss arbitrary: ws) (simp_all add: submit_pending[OF assms])

lemma flush_pending:
  assumes "\<forall>k \<in> fst ` set d. snd k \<noteq> bar"
  shows "coordinator_flush bar (d @ map (\<lambda>(y, s). ((y, bar), s)) ws) = (dict_values ws, d)"
proof -
  have "filter (\<lambda>(k, s). snd k = bar) d = []" "filter (\<lambda>(k, s). snd k \<noteq> bar) d = d"
    using assms by (induction d) auto
  moreover have "filter (\<lambda>(k, s). snd k = bar) (map (\<lambda>(y, s). ((y, bar), s)) ws) = map (\<lambda>(y, s). ((y, bar), s)) ws"
    "filter (\<lambda>(k, s). snd k \<noteq> bar) (map (\<lambda>(y, s). ((y, bar), s)) ws) = []"
    "map snd (map (\<lambda>(y, s). ((y, bar), s)) ws) = map snd ws"
    by (induction ws) auto
  ultimately show ?thesis by (simp add: coordinator_flush_def dict_values_def)
qed

lemma coalesce_actionable:
  assumes "\<forall>s \<in> set ss. signal_is_actionable s"
  shows "coalesce_strategy_signals ss = dict_values (foldl winners_step [] ss)"
proof -
  have f: "filter signal_is_actionable ss = ss" "filter (\<lambda>s. \<not> signal_is_actionable s) ss = []"
    using assms by (auto simp: filter_empty_conv intro: filter_True)
  have "ss = [] \<or> (\<exists>s. ss = [s]) \<or> 1 < length ss" by (induction ss) auto
  then show ?thesis
    by (auto simp: coalesce_strategy_signals_def f winners_step_def dict_values_def dict_put_def)
qed

section \<open>Facts about planning\<close>

lemma strategy_cid_strip: "py_strip (c @ '':'' @ x) \<noteq> []"
  by (auto simp: py_strip_Nil is_space_def)

text \<open>Without slicing a plan has at most one order.\<close>

lemma mk_intent_keeps:
  assumes "mk_order_intent fresh i = Inr j" "py_strip (i_correlation_id i) \<noteq> []"
  shows "j = i \<and> 0 < i_quantity i"
  using assms by (auto simp: mk_order_intent_def split: if_splits)

lemma plan_orders:
  assumes "plan_from_signal fresh s (build_plan_context cfg bal s (Some cid)) = Inr p" "cid \<noteq> []"
  shows "plan_to_intents fresh p = Inr (x_legs p) \<and>
    (x_legs p = [] \<or> (\<exists>i. x_legs p = [i] \<and> 0 < i_quantity i \<and> i_symbol i = g_symbol s \<and>
       i_correlation_id i = cid @ '':'' @ str_or (g_strategy s) ''strategy'' \<and>
       i_side i = (if g_signal_type s \<in> set [''BUY'', ''STRONG_BUY'', ''ENTRY''] then BUY else SELL)))"
proof -
  define ctx where "ctx = build_plan_context cfg bal s (Some cid)"
  have ctx: "c_correlation_id ctx = Some cid" "c_strategy ctx = g_strategy s" "c_slicing ctx = slicing_plan_default"
    using assms(2) by (simp_all add: ctx_def build_plan_context_def truthy_def)
  have sc: "str_or (g_strategy s) (str_or (g_strategy s) ''strategy'') = str_or (g_strategy s) ''strategy''" by (simp add: str_or_def)
  obtain price where price: "(case g_entry_price s of Some p \<Rightarrow> Some p | None \<Rightarrow> g_price s) = Some price" "0 < price" "signal_is_actionable s"
    using assms(1) by (auto simp: plan_from_signal_def split: if_splits option.splits)
  define i where "i = \<lparr>i_symbol = g_symbol s, i_exchange = str_or (g_exchange s) (c_default_exchange ctx),
     i_side = (if g_signal_type s \<in> set [''BUY'', ''STRONG_BUY'', ''ENTRY''] then BUY else SELL),
     i_quantity = z_total_qty (resolve_sizing s ctx price), i_price = price, i_order_type = c_default_order_type ctx,
     i_product_type = c_default_product_type ctx, i_trigger_price = None, i_validity = DAY,
     i_correlation_id = cid @ '':'' @ str_or (g_strategy s) ''strategy'', i_tag = None\<rparr>"
  have legs: "x_slicing p = slicing_plan_default \<and> (x_legs p = [] \<or> mk_order_intent fresh i = Inr (hd (x_legs p)) \<and> length (x_legs p) = 1)"
    using assms(1) price assms(2) unfolding plan_from_signal_def ctx_def[symmetric]
    by (auto simp: ctx sc i_def Let_def split: if_splits sum.splits)
  have "plan_to_intents fresh p = Inr (x_legs p)" using legs by (simp add: plan_to_intents_def slicing_plan_default_def)
  moreover have "x_legs p = [i] \<and> 0 < i_quantity i" if "x_legs p \<noteq> []"
    using legs that mk_intent_keeps[of fresh i "hd (x_legs p)"] strategy_cid_strip[of cid]
    by (cases "x_legs p") (auto simp: i_def)
  ultimately show ?thesis by (auto simp: i_def)
qed

lemma planner_commands:
  assumes "planner_plan fresh cfg bal s (Some cid) = Inr pr" "cid \<noteq> []"
  shows "pr_commands pr = [] \<or>
    (\<exists>c p. pr_commands pr = [c] \<and> pr_plan pr = Some p \<and> \<not> pr_rejected pr \<and> \<not> pr_dry_run pr \<and>
       signal_is_actionable s \<and> \<not> oc_dry_run cfg \<and> flt (oc_min_confidence cfg) \<le> flt (g_confidence s) \<and>
       0 < cm_quantity c \<and> cm_symbol c = normalize_symbol (g_symbol s) \<and>
       cm_correlation_id c = cid @ '':'' @ str_or (g_strategy s) ''strategy'' \<and>
       cm_side c = (if g_signal_type s \<in> set [''BUY'', ''STRONG_BUY'', ''ENTRY''] then BUY else SELL))"
proof (cases "pr_commands pr = []")
  case False
  then obtain p where p: "plan_from_signal fresh s (build_plan_context cfg bal s (Some cid)) = Inr p"
    "signal_is_actionable s" "\<not> oc_dry_run cfg" "flt (oc_min_confidence cfg) \<le> flt (g_confidence s)"
    using assms(1) by (auto simp: planner_plan_def Let_def split: if_splits sum.splits)
  note o = plan_orders[OF p(1) assms(2)]
  show ?thesis using assms(1) False p o
    by (auto simp: planner_plan_def Let_def order_intent_to_oms_command_def mk_command_def split: if_splits sum.splits)
qed simp

definition signal_commands :: "('l, 'f) handling \<Rightarrow> loop_config \<Rightarrow> string \<Rightarrow> nat \<times> signal_dto \<Rightarrow> command list" where
  "signal_commands w cfg cid is =
     (case planner_plan (hw_fresh w (fst is)) cfg (hw_balance w) (snd is) (Some cid) of
        Inl e \<Rightarrow> [] | Inr pr \<Rightarrow> pr_commands pr)"

section \<open>Facts about the orchestrator\<close>

lemma loop_fields [simp]:
  "lo_oms (publish_result s z r) = lo_oms z" "lo_oms (publish_plan_built q z) = lo_oms z"
  "lo_oms (publish_order_requested c q z) = lo_oms z" "lo_config (publish_result s z r) = lo_config z"
  "lo_config (publish_plan_built q z) = lo_config z" "lo_config (publish_order_requested c q z) = lo_config z"
  "lo_submit (publish_plan_built q z) = lo_submit z" "lo_submit (publish_order_requested c q z) = lo_submit z"
  "lo_oms (inc_error z) = lo_oms z" "lo_oms (inc_rejected z) = lo_oms z" "lo_oms (inc_executed z) = lo_oms z"
  "lo_config (inc_error z) = lo_config z" "lo_config (inc_rejected z) = lo_config z" "lo_config (inc_executed z) = lo_config z"
  by (simp_all add: publish_result_def publish_plan_built_def publish_order_requested_def loop_publish_def inc_executed_def
      inc_rejected_def inc_error_def split: option.split)

lemma foldl_publish [simp]: "lo_oms (foldl (publish_result s) z rs) = lo_oms z" "lo_config (foldl (publish_result s) z rs) = lo_config z"
  by (induction rs arbitrary: z) simp_all

lemma place_leg_sent:
  assumes "place_leg ef c z = (r, z')"
  shows "lo_config z' = lo_config z \<and> (om_broker (lo_oms z') = om_broker (lo_oms z) \<or> om_broker (lo_oms z') = om_broker (lo_oms z) @ [c]) \<and>
    (frozen (lo_oms z) \<longrightarrow> frozen (lo_oms z') \<and> om_broker (lo_oms z') = om_broker (lo_oms z))"
proof -
  obtain x s1 where 1: "place_order (fst ef) (snd ef) c (lo_submit z) (lo_oms z) = (x, s1)" by fastforce
  from place_order_broker[OF 1] place_order_frozen[OF _ 1] assms show ?thesis
    by (auto simp: place_leg_def 1 inc_error_def split: sum.splits)
qed

lemma place_legs_sent:
  "place_legs envs q j cs z = (rs, z') \<Longrightarrow> lo_config z' = lo_config z \<and>
   (\<exists>sent. om_broker (lo_oms z') = om_broker (lo_oms z) @ sent \<and> subseq sent cs) \<and>
   (frozen (lo_oms z) \<longrightarrow> frozen (lo_oms z') \<and> om_broker (lo_oms z') = om_broker (lo_oms z))"
proof (induction cs arbitrary: j z rs z')
  case (Cons c cs)
  obtain r z1 where 1: "place_leg (envs j) c z = (r, z1)" by fastforce
  obtain rs2 z2 where 2: "place_legs envs q (Suc j) cs (publish_order_requested c q z1) = (rs2, z2)" by fastforce
  from Cons.prems have z': "z' = z2" by (simp add: 1 2)
  from Cons.IH[OF 2] obtain sent where s: "om_broker (lo_oms z2) = om_broker (lo_oms z1) @ sent" "subseq sent cs" by auto
  from place_leg_sent[OF 1] have "om_broker (lo_oms z1) = om_broker (lo_oms z) \<or> om_broker (lo_oms z1) = om_broker (lo_oms z) @ [c]"
    by blast
  then have "\<exists>sent. om_broker (lo_oms z') = om_broker (lo_oms z) @ sent \<and> subseq sent (c # cs)"
    using s by (auto simp: z' intro: exI[of _ sent] exI[of _ "c # sent"])
  then show ?case using Cons.IH[OF 2] place_leg_sent[OF 1] by (auto simp: z')
qed simp

lemma execute_signal_sent:
  assumes "execute_signal fresh bal envs s cid z = (e, z')"
  shows "lo_config z' = lo_config z \<and>
   (\<exists>sent. om_broker (lo_oms z') = om_broker (lo_oms z) @ sent \<and>
      subseq sent (case planner_plan fresh (lo_config z) bal s cid of Inl e \<Rightarrow> [] | Inr pr \<Rightarrow> pr_commands pr)) \<and>
   (frozen (lo_oms z) \<longrightarrow> frozen (lo_oms z') \<and> om_broker (lo_oms z') = om_broker (lo_oms z))"
proof (cases "planner_plan fresh (lo_config z) bal s cid")
  case (Inl x)
  then show ?thesis using assms by (auto simp: execute_signal_def)
next
  case (Inr pr)
  obtain rs z1 where 1: "place_legs envs (pr_plan pr) 0 (pr_commands pr) (publish_plan_built (pr_plan pr) z) = (rs, z1)"
    by fastforce
  from place_legs_sent[OF 1] show ?thesis using assms Inr 1 by (auto simp: execute_signal_def split: if_splits)
qed

lemma execute_signals_sent:
  "z' = execute_signals w cid i ss z \<Longrightarrow>
   (\<exists>sent. om_broker (lo_oms z') = om_broker (lo_oms z) @ sent \<and>
      subseq sent (concat (map (signal_commands w (lo_config z) cid) (enumerate i ss)))) \<and>
   (frozen (lo_oms z) \<longrightarrow> om_broker (lo_oms z') = om_broker (lo_oms z))"
proof (induction ss arbitrary: i z)
  case (Cons s ss)
  obtain e z1 where 1: "execute_signal (hw_fresh w i) (hw_balance w) (hw_env w i) s (Some cid) z = (e, z1)" by fastforce
  note x = execute_signal_sent[OF 1]
  then obtain s1 where s1: "om_broker (lo_oms z1) = om_broker (lo_oms z) @ s1" "subseq s1 (signal_commands w (lo_config z) cid (i, s))"
    by (auto simp: signal_commands_def)
  show ?case
  proof (cases e)
    case (Some y)
    then show ?thesis using Cons.prems x s1 by (auto simp: 1 intro: subseq_append_le_same_iff list_emb_append2 exI[of _ s1])
  next
    case None
    then have z': "z' = execute_signals w cid (Suc i) ss z1" using Cons.prems by (simp add: 1)
    from Cons.IH[OF z'] x obtain s2 where "om_broker (lo_oms z') = om_broker (lo_oms z1) @ s2"
      "subseq s2 (concat (map (signal_commands w (lo_config z) cid) (enumerate (Suc i) ss)))" by auto
    then have "om_broker (lo_oms z') = om_broker (lo_oms z) @ (s1 @ s2) \<and>
      subseq (s1 @ s2) (concat (map (signal_commands w (lo_config z) cid) (enumerate i (s # ss))))"
      using s1 by (simp add: list_emb_append_mono)
    moreover have "frozen (lo_oms z) \<longrightarrow> om_broker (lo_oms z') = om_broker (lo_oms z)" using Cons.IH[OF z'] x by simp
    ultimately show ?thesis by blast
  qed
qed simp


section \<open>Properties\<close>

text \<open>
  Choosing once or one by one. Actionable signals submitted one after the other for a bar
  and then flushed give the signals that coalescing them gives, and leave the other bars: one
  signal per symbol, the one of greatest confidence, ties going to the greatest strategy name
  and then to the latest.
\<close>

theorem coordinator_coalesces:
  "(\<forall>s \<in> set ss. signal_is_actionable s) \<and> (\<forall>k \<in> fst ` set d. snd k \<noteq> bar) \<longrightarrow>
   (let chosen = coalesce_strategy_signals ss in
    coordinator_flush bar (foldl (\<lambda>d s. snd (coordinator_submit s bar d)) d ss) = (chosen, d) \<and>
    distinct (map g_symbol chosen) \<and> g_symbol ` set chosen = g_symbol ` set ss \<and> set chosen \<subseteq> set ss \<and>
    (\<forall>w \<in> set chosen. \<forall>s \<in> set ss. g_symbol s = g_symbol w \<longrightarrow>
       flt (g_confidence s) < flt (g_confidence w) \<or>
       flt (g_confidence s) = flt (g_confidence w) \<and> g_strategy s \<le> g_strategy w))"
proof -
  define ws where "ws = foldl winners_step [] ss"
  have b: "best ws ss" using best_foldl[of "[]" "[]" ss] by (simp add: ws_def best_def)
  note m = best_mem[OF b]
  have keys: "map g_symbol (dict_values ws) = map fst ws" using m by (auto simp: dict_values_def)
  have dist: "distinct (map g_symbol (dict_values ws))" using b by (simp add: keys best_def dict_wf_def)
  have sub: "set (dict_values ws) \<subseteq> set ss" using m by (auto simp: dict_values_def)
  have "g_symbol s \<in> g_symbol ` set (dict_values ws)" if h: "s \<in> set ss" for s
  proof -
    obtain w where "(g_symbol s, w) \<in> set ws" using best_key[OF b h] by blast
    then have "w \<in> set (dict_values ws)" "g_symbol w = g_symbol s" using m by (force simp: dict_values_def)+
    then show ?thesis by (metis imageI)
  qed
  then have img: "g_symbol ` set (dict_values ws) = g_symbol ` set ss" using sub by blast
  have top: "\<forall>w \<in> set (dict_values ws). \<forall>s \<in> set ss. g_symbol s = g_symbol w \<longrightarrow> weaker s w"
    using m by (fastforce simp: dict_values_def)
  show ?thesis
  proof (intro impI)
    assume h: "(\<forall>s \<in> set ss. signal_is_actionable s) \<and> (\<forall>k \<in> fst ` set d. snd k \<noteq> bar)"
    then have c: "coalesce_strategy_signals ss = dict_values ws" using coalesce_actionable[of ss] by (simp add: ws_def)
    have f: "foldl (\<lambda>d s. snd (coordinator_submit s bar d)) d ss = d @ map (\<lambda>(y, s). ((y, bar), s)) ws"
      using submit_all_pending[of d bar "[]" ss] h by (simp add: ws_def)
    have fl': "coordinator_flush bar (d @ map (\<lambda>(y, s). ((y, bar), s)) ws) = (dict_values ws, d)"
      using h by (intro flush_pending) blast
    show "let chosen = coalesce_strategy_signals ss in
      coordinator_flush bar (foldl (\<lambda>d s. snd (coordinator_submit s bar d)) d ss) = (chosen, d) \<and>
      distinct (map g_symbol chosen) \<and> g_symbol ` set chosen = g_symbol ` set ss \<and> set chosen \<subseteq> set ss \<and>
      (\<forall>w \<in> set chosen. \<forall>s \<in> set ss. g_symbol s = g_symbol w \<longrightarrow>
         flt (g_confidence s) < flt (g_confidence w) \<or>
         flt (g_confidence s) = flt (g_confidence w) \<and> g_strategy s \<le> g_strategy w)"
      using top unfolding weaker_def c f fl' Let_def by (intro conjI refl dist img sub)
  qed
qed

definition sample_signal :: "string \<Rightarrow> string \<Rightarrow> rat \<Rightarrow> signal_dto" where
  "sample_signal side strategy conf =
     \<lparr>g_symbol = ''INFY'', g_exchange = ''NSE'', g_signal_type = side, g_confidence = conf, g_quantity = 10,
      g_price = Some 100, g_entry_price = None, g_strategy = strategy, g_position_size_pct = 0\<rparr>"

lemma coordinator_coalesces_witness:
  "let ss = [sample_signal ''BUY'' ''mom'' (4/5), sample_signal ''SELL'' ''rev'' (9/10)] in
   coordinator_flush (5::nat) (foldl (\<lambda>d s. snd (coordinator_submit s 5 d)) [] ss) = ([sample_signal ''SELL'' ''rev'' (9/10)], [])"
proof -
  have "coalesce_strategy_signals [sample_signal ''BUY'' ''mom'' (4/5), sample_signal ''SELL'' ''rev'' (9/10)] =
      [sample_signal ''SELL'' ''rev'' (9/10)]" by code_simp
  then show ?thesis
    using coordinator_coalesces[of "[sample_signal ''BUY'' ''mom'' (4/5), sample_signal ''SELL'' ''rev'' (9/10)]" "[]" "5::nat"]
    by (simp add: Let_def) (simp add: signal_is_actionable_def sample_signal_def)
qed

text \<open>
  C10: what a candidate can send. The broker sees, in this order, a part of the commands that
  the chosen signals plan, at most one of each signal, and nothing under the kill switch.
  Each is for a positive quantity of the signal's symbol, on the signal's side, under the
  correlation id of the candidate and the strategy; the signal is actionable and confident
  enough, and the orchestrator does not run dry.
\<close>

theorem candidate_orders:
  "let z' = on_candidate w ev z; cfg = lo_config z in
   \<exists>sent. om_broker (lo_oms z') = om_broker (lo_oms z) @ sent \<and>
     (frozen (lo_oms z) \<longrightarrow> sent = []) \<and>
     (sent = [] \<or> (\<exists>symbol cd f. truthy (ce_symbol ev) = Some symbol \<and> candidate_of_event cfg ev symbol = Inr cd \<and>
        fetch_features w symbol = Some f \<and>
        (let ss = evaluate_candidate w cd f; cid = candidate_cid ev symbol in
         subseq sent (concat (map (signal_commands w cfg cid) (enumerate 0 ss))) \<and>
         (\<forall>i < length ss. length (signal_commands w cfg cid (i, ss ! i)) \<le> 1 \<and>
            (\<forall>c \<in> set (signal_commands w cfg cid (i, ss ! i)).
               signal_is_actionable (ss ! i) \<and> \<not> oc_dry_run cfg \<and>
               flt (oc_min_confidence cfg) \<le> flt (g_confidence (ss ! i)) \<and> 0 < cm_quantity c \<and>
               cm_symbol c = normalize_symbol (g_symbol (ss ! i)) \<and>
               cm_correlation_id c = cid @ '':'' @ str_or (g_strategy (ss ! i)) ''strategy'' \<and>
               cm_side c = (if g_signal_type (ss ! i) \<in> set [''BUY'', ''STRONG_BUY'', ''ENTRY''] then BUY else SELL))))))"
proof -
  have cid: "candidate_cid ev symbol \<noteq> []" for symbol
    by (auto simp: candidate_cid_def truthy_def split: option.split)
  have one: "length (signal_commands w (lo_config z) (candidate_cid ev symbol) (i, s)) \<le> 1 \<and>
      (\<forall>c \<in> set (signal_commands w (lo_config z) (candidate_cid ev symbol) (i, s)).
         signal_is_actionable s \<and> \<not> oc_dry_run (lo_config z) \<and> flt (oc_min_confidence (lo_config z)) \<le> flt (g_confidence s) \<and>
         0 < cm_quantity c \<and> cm_symbol c = normalize_symbol (g_symbol s) \<and>
         cm_correlation_id c = candidate_cid ev symbol @ '':'' @ str_or (g_strategy s) ''strategy'' \<and>
         cm_side c = (if g_signal_type s \<in> set [''BUY'', ''STRONG_BUY'', ''ENTRY''] then BUY else SELL))" for symbol i s
  proof (cases "planner_plan (hw_fresh w i) (lo_config z) (hw_balance w) s (Some (candidate_cid ev symbol))")
    case (Inr pr)
    from planner_commands[OF this cid] show ?thesis by (auto simp: signal_commands_def Inr)
  qed (simp add: signal_commands_def)
  show ?thesis
  proof (cases "\<exists>symbol cd f. truthy (ce_symbol ev) = Some symbol \<and> candidate_of_event (lo_config z) ev symbol = Inr cd \<and>
        fetch_features w symbol = Some f")
    case False
    then have "lo_oms (on_candidate w ev z) = lo_oms z" by (auto simp: on_candidate_def split: option.split sum.split)
    then show ?thesis by simp
  next
    case True
    then obtain symbol cd f where t: "truthy (ce_symbol ev) = Some symbol" "candidate_of_event (lo_config z) ev symbol = Inr cd"
      "fetch_features w symbol = Some f" by blast
    then have "on_candidate w ev z = execute_signals w (candidate_cid ev symbol) 0 (evaluate_candidate w cd f) z"
      by (simp add: on_candidate_def)
    from execute_signals_sent[OF this] t one[of symbol] show ?thesis unfolding Let_def by (metis append_self_conv)
  qed
qed

definition sample_loop :: "unit orchestrator" where
  "sample_loop = orchestrator_new sample_oms (loop_config_default\<lparr>oc_min_confidence := 1/2\<rparr>) (Some sample_broker)"

definition sample_candidate :: candidate_event where
  "sample_candidate = \<lparr>ce_symbol = Some ''INFY'', ce_exchange = None, ce_score = Some (PvNum 80), ce_reason = None,
     ce_candidate_id = None, ce_extra = [], ce_correlation = None\<rparr>"

definition sample_handling :: "(unit, unit) handling" where
  "sample_handling = \<lparr>hw_fetch = (\<lambda>x. Inr (Some ())), hw_evaluate = (\<lambda>cd f. Inr [sample_signal ''BUY'' ''mom'' (4/5)]),
     hw_balance = None, hw_fresh = (\<lambda>i. ''u1''), hw_env = (\<lambda>i j. (sample_oms_env, ''f1''))\<rparr>"

lemma candidate_orders_witness:
  "let sent = om_broker (lo_oms (on_candidate sample_handling sample_candidate sample_loop)) in
   length sent = 1 \<and> (\<forall>c \<in> set sent. cm_side c = BUY \<and> cm_correlation_id c = ''trading_orchestrator:INFY:mom'')"
proof -
  have l: "length (om_broker (lo_oms (on_candidate sample_handling sample_candidate sample_loop))) = 1"
    "om_broker (lo_oms sample_loop) = []" by code_simp+
  have e: "evaluate_candidate sample_handling cd f = [sample_signal ''BUY'' ''mom'' (4/5)]" for cd f
    by (simp add: evaluate_candidate_def sample_handling_def coalesce_strategy_signals_def)
  have c: "truthy (ce_symbol sample_candidate) = Some ''INFY''" by code_simp
  have k: "candidate_cid sample_candidate ''INFY'' @ '':'' @ str_or (g_strategy (sample_signal ''BUY'' ''mom'' (4/5))) ''strategy'' =
      ''trading_orchestrator:INFY:mom''" by code_simp
  have b: "g_signal_type (sample_signal ''BUY'' ''mom'' (4/5)) = ''BUY''" by (simp add: sample_signal_def)
  have sub: "c \<in> set ys" if "subseq xs ys" "c \<in> set xs" for xs ys and c :: command
    using list_emb_set[OF that] by auto
  have "\<forall>c \<in> set (om_broker (lo_oms (on_candidate sample_handling sample_candidate sample_loop))).
      cm_side c = BUY \<and> cm_correlation_id c = ''trading_orchestrator:INFY:mom''"
    using candidate_orders[of sample_handling sample_candidate sample_loop] l unfolding k[symmetric]
    by (auto simp: Let_def e c b dest: sub)
  then show ?thesis using l by (simp add: Let_def)
qed

text \<open>
  A second signal under the same id. Once the book holds an order under the correlation id
  of candidate and strategy, a further signal of that strategy changes nothing in the core,
  whatever its side and quantity, and is still counted and announced as executed, with the
  order of the first.
\<close>

theorem repeat_signal_not_sent:
  "cid \<noteq> [] \<and> dict_get (om_by_corr (lo_oms z)) (cid @ '':'' @ str_or (g_strategy s) ''strategy'') = Some ord \<and>
   o_status ord \<noteq> UNKNOWN \<and> planner_plan fresh (lo_config z) balance s (Some cid) = Inr pr \<and> pr_commands pr \<noteq> [] \<longrightarrow>
   (let (e, z') = execute_signal fresh balance envs s (Some cid) z in
    e = None \<and> lo_oms z' = lo_oms z \<and> lo_executed z' = Suc (lo_executed z) \<and> lo_rejected z' = lo_rejected z \<and>
    last (lo_events z') = SignalExecuted s (o_order_id ord) (o_correlation_id ord))"
proof (intro impI)
  assume h: "cid \<noteq> [] \<and> dict_get (om_by_corr (lo_oms z)) (cid @ '':'' @ str_or (g_strategy s) ''strategy'') = Some ord \<and>
   o_status ord \<noteq> UNKNOWN \<and> planner_plan fresh (lo_config z) balance s (Some cid) = Inr pr \<and> pr_commands pr \<noteq> []"
  then obtain c p where c: "pr_commands pr = [c]" "pr_plan pr = Some p" "\<not> pr_rejected pr" "\<not> pr_dry_run pr"
    "cm_correlation_id c = cid @ '':'' @ str_or (g_strategy s) ''strategy''"
    using planner_commands[of fresh "lo_config z" balance s cid pr] by blast
  have "place_order env fid c submit (lo_oms z) = (Inr (ok_order ord (Some ACCEPTED)), lo_oms z)" for env fid submit
    using h c(5) by (simp add: place_order_def check_and_reserve_def answer_existing_def)
  then show "let (e, z') = execute_signal fresh balance envs s (Some cid) z in
    e = None \<and> lo_oms z' = lo_oms z \<and> lo_executed z' = Suc (lo_executed z) \<and> lo_rejected z' = lo_rejected z \<and>
    last (lo_events z') = SignalExecuted s (o_order_id ord) (o_correlation_id ord)"
    using h c by (simp add: execute_signal_def place_leg_def publish_result_def publish_plan_built_def publish_order_requested_def
        loop_publish_def inc_executed_def ok_order_def Let_def)
qed

definition sample_bought :: "unit orchestrator" where
  "sample_bought = snd (execute_signal ''u1'' None (\<lambda>j. (sample_oms_env, ''f1'')) (sample_signal ''BUY'' ''mom'' (4/5)) (Some ''c'') sample_loop)"

lemma repeat_signal_not_sent_witness:
  "length (om_broker (lo_oms sample_bought)) = 1 \<and>
   (let z' = snd (execute_signal ''u2'' None (\<lambda>j. (sample_oms_env, ''f2'')) (sample_signal ''SELL'' ''mom'' (4/5)) (Some ''c'') sample_bought)
    in om_broker (lo_oms z') = om_broker (lo_oms sample_bought) \<and> lo_executed z' = 2)"
proof -
  have e: "lo_executed sample_bought = 1" "length (om_broker (lo_oms sample_bought)) = 1" by code_simp+
  have o: "map_option o_status (dict_get (om_by_corr (lo_oms sample_bought)) ''c:mom'') = Some OPEN" by code_simp
  have k: "''c'' @ '':'' @ str_or (g_strategy (sample_signal ''SELL'' ''mom'' (4/5))) ''strategy'' = ''c:mom''" by code_simp
  have "\<exists>pr. planner_plan ''u2'' (lo_config sample_bought) None (sample_signal ''SELL'' ''mom'' (4/5)) (Some ''c'') = Inr pr \<and> pr_commands pr \<noteq> []"
  proof -
    have "(case planner_plan ''u2'' (lo_config sample_bought) None (sample_signal ''SELL'' ''mom'' (4/5)) (Some ''c'') of
        Inl e \<Rightarrow> False | Inr pr \<Rightarrow> pr_commands pr \<noteq> [])" by code_simp
    then show ?thesis by (auto split: sum.splits)
  qed
  then obtain pr ord where "planner_plan ''u2'' (lo_config sample_bought) None (sample_signal ''SELL'' ''mom'' (4/5)) (Some ''c'') = Inr pr"
    "pr_commands pr \<noteq> []" "dict_get (om_by_corr (lo_oms sample_bought)) ''c:mom'' = Some ord" "o_status ord = OPEN"
    using o by auto
  then show ?thesis
    using repeat_signal_not_sent[of "''c''" sample_bought "sample_signal ''SELL'' ''mom'' (4/5)" ord "''u2''" None pr
        "\<lambda>j. (sample_oms_env, ''f2'')"] e
    unfolding k by (auto simp: Let_def split_beta)
qed

definition scanner_candidate_id :: "string \<Rightarrow> string \<Rightarrow> string \<Rightarrow> string \<Rightarrow> string" where
  "scanner_candidate_id name exchange symbol run = name @ '':'' @ exchange @ '':'' @ symbol @ '':'' @ run"

text \<open>
  No candidate of the scanner is traded. The payload of its events holds the id of the
  candidate, and every entry of the payload that has no role of its own is converted to a
  number; the id is none, so the handler counts an error and does nothing else.
\<close>

theorem scanner_candidates_dropped:
  "on_candidate w (ev\<lparr>ce_candidate_id := Some (scanner_candidate_id name exchange symbol run)\<rparr>) z = inc_error z"
proof -
  have "CHR '':'' \<in> set (scanner_candidate_id name exchange symbol run)" by (simp add: scanner_candidate_id_def)
  moreover have "\<not> is_space (CHR '':'')" "CHR '':'' \<notin> set ''+-.''" "\<not> is_digit (CHR '':'')" by (simp_all add: is_space_def is_digit_def)
  ultimately have "read_decimal (scanner_candidate_id name exchange symbol run) = None" by (rule read_decimal_letter)
  then show ?thesis by (auto simp: on_candidate_def candidate_of_event_def decimal_entry_def split: option.split sum.split)
qed

end
