(* ===== verification/Execution_Targets.thy ===== *)
theory Execution_Targets
  imports Trading_Loop
begin

text \<open>
  What stands between the order manager and a broker: the gateway callables
  (\<open>application/execution/gateway_submit.py\<close>, \<open>gateway_cancel_modify.py\<close>), the execution
  targets (\<open>fill_source.py\<close>, \<open>simulated_fill.py\<close>), the execution engine and the use cases,
  the execution composer (\<open>application/composer/execution.py\<close>), the backtest adapter
  (\<open>oms_backtest_adapter.py\<close>) and the trading costs
  (\<open>application/services/trading_costs_service.py\<close>). The gateway, the routing decision and the
  quota are arguments, as are drawn ids and times.
\<close>

section \<open>Gateways\<close>

text \<open>An answer that is no response object counts by its truth value. \<open>None\<close>: the operation is missing.\<close>

record gateway =
  gw_place :: "order_request \<Rightarrow> order_response res"
  gw_cancel :: "(string \<Rightarrow> order_response res) option"
  gw_modify :: "(modify_request \<Rightarrow> order_response res) option"

definition request_of_command :: "command \<Rightarrow> order_request" where
  "request_of_command c = order_request_default
     \<lparr>q_symbol := cm_symbol c, q_exchange := cm_exchange c, q_transaction_type := cm_side c, q_quantity := cm_quantity c,
      q_price := cm_price c, q_order_type := cm_order_type c, q_product_type := cm_product_type c,
      q_correlation_id := Some (cm_correlation_id c)\<rparr>"

definition order_from_response :: "string \<Rightarrow> datetime \<Rightarrow> command \<Rightarrow> order_response \<Rightarrow> order res" where
  "order_from_response fresh now c r =
     (if \<not> r_success r then Inl (RuntimeError (str_or (r_message r) ''Order rejected by broker''))
      else Inr (order_of_command (str_or (r_order_id r) (str_or (r_broker_order_id r) (''broker-'' @ fresh))) c (r_status r) now))"

definition gateway_submit :: "string \<Rightarrow> datetime \<Rightarrow> gateway \<Rightarrow> broker" where
  "gateway_submit fresh now g c =
     (case gw_place g (request_of_command c) of Inl e \<Rightarrow> Inl e | Inr r \<Rightarrow> order_from_response fresh now c r)"

definition reply_of :: "order_response res \<Rightarrow> reply" where
  "reply_of x = (case x of Inl e \<Rightarrow> ReplyRaise e | Inr r \<Rightarrow> if r_success r then ReplyOk else ReplyFail (r_message r))"

definition gateway_cancel :: "gateway \<Rightarrow> string \<Rightarrow> reply" where
  "gateway_cancel g oid = (case gw_cancel g of None \<Rightarrow> NoReply | Some f \<Rightarrow> reply_of (f oid))"

text \<open>The broker is told of these four fields only.\<close>

definition modify_changes :: "modify_request \<Rightarrow> modify_request" where
  "modify_changes r = r\<lparr>mr_trigger_price := None, mr_validity := None\<rparr>"

definition gateway_modify :: "gateway \<Rightarrow> modify_request \<Rightarrow> reply" where
  "gateway_modify g r = (case gw_modify g of None \<Rightarrow> NoReply | Some f \<Rightarrow> reply_of (f (modify_changes r)))"

section \<open>Execution targets\<close>

text \<open>A quote source may raise, or know no price.\<close>

datatype exec_target =
    Live gateway
  | Paper "(string \<Rightarrow> string \<Rightarrow> rat option res) option" string
  | Simulated string
  | Callable broker

definition simulated_submit :: "string \<Rightarrow> datetime \<Rightarrow> string \<Rightarrow> broker" where
  "simulated_submit fresh now pre c = Inr (order_of_command (pre @ ''-'' @ fresh) c OPEN now)"

definition paper_submit :: "string \<Rightarrow> datetime \<Rightarrow> (string \<Rightarrow> string \<Rightarrow> rat option res) option \<Rightarrow> string \<Rightarrow> broker" where
  "paper_submit fresh now quote pre c =
     (case quote of
        None \<Rightarrow> simulated_submit fresh now pre c
      | Some f \<Rightarrow>
          (case f (cm_symbol c) (cm_exchange c) of
             Inl e \<Rightarrow> Inl e
           | Inr None \<Rightarrow> simulated_submit fresh now pre c
           | Inr (Some p) \<Rightarrow> simulated_submit fresh now pre (if 0 < p then c\<lparr>cm_price := p\<rparr> else c)))"

fun submit_fn :: "string \<Rightarrow> datetime \<Rightarrow> exec_target \<Rightarrow> broker" where
  "submit_fn fresh now (Live g) = gateway_submit fresh now g"
| "submit_fn fresh now (Paper quote pre) = paper_submit fresh now quote pre"
| "submit_fn fresh now (Simulated pre) = simulated_submit fresh now pre"
| "submit_fn fresh now (Callable f) = f"

fun target_cancel :: "exec_target \<Rightarrow> string \<Rightarrow> reply" where
  "target_cancel (Live g) oid = gateway_cancel g oid"
| "target_cancel _ oid = NoReply"

fun target_modify :: "exec_target \<Rightarrow> modify_request \<Rightarrow> reply" where
  "target_modify (Live g) r = gateway_modify g r"
| "target_modify _ r = NoReply"

section \<open>The engine and the use cases\<close>

text \<open>\<open>fresh\<close> and \<open>now\<close> are the id and the time that the target draws.\<close>

definition place_order_spine ::
  "'l oms_env \<Rightarrow> string \<Rightarrow> string \<times> datetime \<Rightarrow> command \<Rightarrow> exec_target \<Rightarrow> 'l oms \<Rightarrow> order_result res \<times> 'l oms" where
  "place_order_spine env fid drawn c target s = place_order env fid c (Some (submit_fn (fst drawn) (snd drawn) target)) s"

definition engine_cancel :: "'l oms_env \<Rightarrow> exec_target \<Rightarrow> string \<Rightarrow> 'l oms \<Rightarrow> order_result res \<times> 'l oms" where
  "engine_cancel env target oid s = cancel_order env oid (target_cancel target oid) s"

definition engine_modify :: "'l oms_env \<Rightarrow> exec_target \<Rightarrow> modify_request \<Rightarrow> 'l oms \<Rightarrow> order_result res \<times> 'l oms" where
  "engine_modify env target r s = modify_order env r (target_modify target r) s"

text \<open>No execution target has the method \<open>place_order\<close> that is asked for here.\<close>

definition engine_submit_order :: "exec_target \<Rightarrow> order_request \<Rightarrow> 'l oms \<Rightarrow> string \<times> 'l oms" where
  "engine_submit_order target q s = (''ORDER-OK'', s)"

text \<open>The third part of the result is the order id that is published, with an event publisher attached.\<close>

definition place_use_case ::
  "'l oms_env \<Rightarrow> string \<Rightarrow> string \<times> datetime \<Rightarrow> bool \<Rightarrow> command res \<Rightarrow> exec_target \<Rightarrow> 'l oms \<Rightarrow>
   order_result res \<times> string option \<times> 'l oms" where
  "place_use_case env fid drawn events request target s =
     (case request of
        Inl e \<Rightarrow> (Inl e, None, s)
      | Inr c \<Rightarrow>
          (case place_order_spine env fid drawn c target s of
             (Inl e, s1) \<Rightarrow> (Inl e, None, s1)
           | (Inr r, s1) \<Rightarrow>
               (Inr r, (if events \<and> or_success r then map_option o_order_id (or_order r) else None), s1)))"

definition cancel_use_case ::
  "'l oms_env \<Rightarrow> bool \<Rightarrow> string \<Rightarrow> reply \<Rightarrow> 'l oms \<Rightarrow> order_result res \<times> string option \<times> 'l oms" where
  "cancel_use_case env events oid answer s =
     (case cancel_order env oid answer s of
        (Inl e, s1) \<Rightarrow> (Inl e, None, s1)
      | (Inr r, s1) \<Rightarrow> (Inr r, (if events \<and> or_success r then Some oid else None), s1))"

section \<open>The composer\<close>

text \<open>The response is read without its success flag.\<close>

definition broker_order_from_response :: "order_response \<Rightarrow> command \<Rightarrow> order" where
  "broker_order_from_response r c =
     (order_new (str_or (r_order_id r) (r_broker_order_id r)) (cm_symbol c) (cm_exchange c) (cm_side c) (cm_order_type c)
        (of_int (cm_quantity c)))
       \<lparr>o_price := cm_price c, o_product_type := cm_product_type c, o_status := r_status r,
        o_correlation_id := Some (cm_correlation_id c)\<rparr>"

text \<open>A refusal keeps its reason; \<open>Order failed\<close> stands for an empty one.\<close>

datatype composed = Placed order_response | Refused risk_reason

definition order_result_to_response :: "order_result \<Rightarrow> composed" where
  "order_result_to_response r =
     (case or_order r of
        Some ord \<Rightarrow> if or_success r then Placed (response_ok (o_order_id ord) ''OK'' (o_status ord) None)
                    else Refused (case or_error r of None \<Rightarrow> Because ''Order failed'' | Some x \<Rightarrow> if x = Because [] then Because ''Order failed'' else x)
      | None \<Rightarrow> Refused (case or_error r of None \<Rightarrow> Because ''Order failed'' | Some x \<Rightarrow> if x = Because [] then Because ''Order failed'' else x))"

text \<open>
  \<open>route\<close>, \<open>quota\<close>, \<open>gateway\<close>: what routing answers when no broker is named, what acquiring
  the quota answers, and what the registry answers for a broker.
\<close>

definition composer_target :: "string res \<Rightarrow> (string \<Rightarrow> exn option) \<Rightarrow> (string \<Rightarrow> gateway res) \<Rightarrow> string option \<Rightarrow> gateway res" where
  "composer_target route quota gateway broker_id =
     (case (case truthy broker_id of Some b \<Rightarrow> Inr b | None \<Rightarrow> route) of
        Inl e \<Rightarrow> Inl e
      | Inr b \<Rightarrow> (case quota b of Some e \<Rightarrow> Inl e | None \<Rightarrow> gateway b))"

definition composer_submit :: "gateway \<Rightarrow> order_request \<Rightarrow> broker" where
  "composer_submit g q c = (case gw_place g q of Inl e \<Rightarrow> Inl e | Inr r \<Rightarrow> Inr (broker_order_from_response r c))"

definition composer_place ::
  "'l oms_env \<Rightarrow> string \<Rightarrow> string \<Rightarrow> gateway res \<Rightarrow> order_request \<Rightarrow> 'l oms \<Rightarrow> composed res \<times> 'l oms" where
  "composer_place env fid fresh target q s =
     (case target of
        Inl e \<Rightarrow> (Inl e, s)
      | Inr g \<Rightarrow>
          (case order_request_to_oms_command fresh q of
             Inl e \<Rightarrow> (Inl e, s)
           | Inr c \<Rightarrow>
               (case place_order env fid c (Some (composer_submit g q)) s of
                  (Inl e, s1) \<Rightarrow> (Inl e, s1)
                | (Inr r, s1) \<Rightarrow> (Inr (order_result_to_response r), s1))))"

definition composer_cancel :: "'l oms_env \<Rightarrow> gateway res \<Rightarrow> string \<Rightarrow> 'l oms \<Rightarrow> composed res \<times> 'l oms" where
  "composer_cancel env target oid s =
     (case target of
        Inl e \<Rightarrow> (Inl e, s)
      | Inr g \<Rightarrow>
          (case cancel_order env oid (case gw_cancel g of
                  None \<Rightarrow> ReplyRaise (AttributeError ''gateway'' ''cancel_order'') | Some f \<Rightarrow> reply_of (f oid)) s of
             (Inl e, s1) \<Rightarrow> (Inl e, s1)
           | (Inr r, s1) \<Rightarrow> (Inr (order_result_to_response r), s1)))"

definition composer_modify :: "'l oms_env \<Rightarrow> gateway res \<Rightarrow> modify_request \<Rightarrow> 'l oms \<Rightarrow> composed res \<times> 'l oms" where
  "composer_modify env target r s =
     (case target of
        Inl e \<Rightarrow> (Inl e, s)
      | Inr g \<Rightarrow>
          (case modify_order env r (case gw_modify g of
                  None \<Rightarrow> ReplyRaise (AttributeError ''gateway'' ''modify_order'') | Some f \<Rightarrow> reply_of (f r)) s of
             (Inl e, s1) \<Rightarrow> (Inl e, s1)
           | (Inr x, s1) \<Rightarrow> (Inr (order_result_to_response x), s1)))"


section \<open>Simulated trading\<close>

definition record_simulated_trade ::
  "'l oms_env \<Rightarrow> string \<Rightarrow> string \<Rightarrow> string \<Rightarrow> order_side \<Rightarrow> int \<Rightarrow> rat \<Rightarrow> datetime \<Rightarrow> product_type \<Rightarrow> 'l oms \<Rightarrow>
   trade option res \<times> 'l oms" where
  "record_simulated_trade env oid symb exch side qty price now product s =
     (let t = \<lparr>t_trade_id = oid @ '':'' @ (if qty < 0 then ''-'' else []) @ show_nat (nat \<bar>qty\<bar>), t_order_id = oid, t_symbol = symb, t_exchange = exch, t_side = side,
            t_quantity = of_int qty, t_price = price, t_trade_value = dec_mul price (of_int qty), t_timestamp = Some now,
            t_product_type = product, t_correlation_id = None\<rparr> in
      case record_trade env t s of
        (Inl e, s1) \<Rightarrow> (Inl e, s1)
      | (Inr b, s1) \<Rightarrow> (Inr (if b then Some t else None), s1))"

text \<open>\<open>factor\<close> is \<open>1 + pct / 100\<close> or \<open>1 - pct / 100\<close> as its float prints; without slippage the price stays.\<close>

definition apply_slippage :: "rat option \<Rightarrow> rat \<Rightarrow> rat res" where
  "apply_slippage factor price =
     (case factor of None \<Rightarrow> Inr price | Some f \<Rightarrow> dec_quantize_even (- 4) (dec_mul price f))"

definition build_backtest_correlation_id :: "nat \<Rightarrow> string \<Rightarrow> string \<Rightarrow> order_side \<Rightarrow> string" where
  "build_backtest_correlation_id seq hex symb side =
     ''bt:'' @ show_nat seq @ '':'' @ hex @ '':'' @ symb @ '':'' @ (case side of BUY \<Rightarrow> ''BUY'' | SELL \<Rightarrow> ''SELL'')"

record backtest_fill =
  bf_trade :: trade
  bf_strategy :: "string option"
  bf_reasons :: "string list"

record 'l backtest =
  bt_oms :: "'l oms"
  bt_fills :: "backtest_fill list"
  bt_orders :: "order list"
  bt_seq :: nat

text \<open>
  Every order that was placed is kept as it was then; the fill follows at once. \<open>slip\<close> is the
  slippage factor for the side.
\<close>

definition execute_side ::
  "'l oms_env \<Rightarrow> string \<times> string \<times> string \<Rightarrow> (order_side \<Rightarrow> rat option) \<Rightarrow> string \<Rightarrow> string \<Rightarrow> order_side \<Rightarrow> int \<Rightarrow> rat \<Rightarrow>
   datetime \<Rightarrow> string option \<Rightarrow> string list \<Rightarrow> 'l backtest \<Rightarrow> string option res \<times> 'l backtest" where
  "execute_side env drawn slip symb exch side qty price now strategy reasons b =
     (case drawn of (fid, hex, sim) \<Rightarrow>
        let cid = build_backtest_correlation_id (bt_seq b) hex symb side; b0 = b\<lparr>bt_seq := Suc (bt_seq b)\<rparr> in
        case backtest_market_command symb exch side qty price cid INTRADAY of
          Inl e \<Rightarrow> (Inl e, b0)
        | Inr c \<Rightarrow>
            (case place_order_spine env fid (sim, now) c (Simulated ''replay'') (bt_oms b0) of
               (Inl e, s1) \<Rightarrow> (Inl e, b0\<lparr>bt_oms := s1\<rparr>)
             | (Inr r, s1) \<Rightarrow>
                 (case (if or_success r then or_order r else None) of
                    None \<Rightarrow> (Inr None, b0\<lparr>bt_oms := s1\<rparr>)
                  | Some ord \<Rightarrow>
                      (case apply_slippage (slip side) price of
                         Inl e \<Rightarrow> (Inl e, b0\<lparr>bt_oms := s1\<rparr>)
                       | Inr fill_price \<Rightarrow>
                           (case record_simulated_trade env (o_order_id ord) symb exch side qty fill_price now INTRADAY s1 of
                              (Inl e, s2) \<Rightarrow> (Inl e, b0\<lparr>bt_oms := s2\<rparr>)
                            | (Inr t, s2) \<Rightarrow>
                                (Inr (Some (o_order_id ord)),
                                 b0\<lparr>bt_oms := s2, bt_orders := bt_orders b @ [ord],
                                    bt_fills := bt_fills b @ (case t of None \<Rightarrow> [] | Some x \<Rightarrow>
                                      [\<lparr>bf_trade = x, bf_strategy = strategy, bf_reasons = reasons\<rparr>])\<rparr>))))))"

text \<open>Modifying and cancelling only look for the order among those placed; the first that matches decides.\<close>

fun backtest_accepts :: "status_attr \<Rightarrow> string \<Rightarrow> order list \<Rightarrow> bool res" where
  "backtest_accepts attr oid [] = Inr False"
| "backtest_accepts attr oid (ord # os) =
     (if o_order_id ord \<noteq> oid then backtest_accepts attr oid os
      else case order_is_complete attr ord of
             Inl e \<Rightarrow> Inl e
           | Inr done \<Rightarrow> if done then backtest_accepts attr oid os else Inr True)"

section \<open>Trading costs\<close>

record market_fees =
  mf_brokerage_pct :: rat
  mf_brokerage_max :: rat
  mf_stt_delivery :: rat
  mf_stt_intraday :: rat
  mf_stt_fno :: rat
  mf_exchange_pct :: rat
  mf_gst_pct :: rat
  mf_stamp_pct :: rat
  mf_sebi_per_crore :: rat

definition indian_market_fees :: market_fees where
  "indian_market_fees =
     \<lparr>mf_brokerage_pct = flt (3 / 100), mf_brokerage_max = 20, mf_stt_delivery = flt (1 / 10), mf_stt_intraday = flt (25 / 1000),
      mf_stt_fno = flt (5 / 100), mf_exchange_pct = flt (345 / 100000), mf_gst_pct = 18, mf_stamp_pct = flt (15 / 1000),
      mf_sebi_per_crore = 10\<rparr>"

definition pct_of :: "rat \<Rightarrow> rat \<Rightarrow> rat" where
  "pct_of x pct = flt_div (flt_mul x pct) 100"

definition sebi_charge :: "market_fees \<Rightarrow> rat \<Rightarrow> rat" where
  "sebi_charge f notional = flt_div (flt_mul notional (mf_sebi_per_crore f)) (10 ^ 8)"

definition equity_fees :: "market_fees \<Rightarrow> rat \<Rightarrow> order_side \<Rightarrow> rat" where
  "equity_fees f notional side =
     (let brokerage = min (pct_of notional (mf_brokerage_pct f)) (mf_brokerage_max f);
          stt = (if side = SELL then pct_of notional (mf_stt_delivery f) else 0);
          exchange = pct_of notional (mf_exchange_pct f);
          gst = pct_of (flt_add brokerage exchange) (mf_gst_pct f);
          stamp = (if side = BUY then pct_of notional (mf_stamp_pct f) else 0)
      in flt_add (flt_add (flt_add (flt_add (flt_add brokerage stt) exchange) gst) stamp) (sebi_charge f notional))"

definition fno_fees :: "market_fees \<Rightarrow> rat \<Rightarrow> order_side \<Rightarrow> rat" where
  "fno_fees f notional side =
     (let brokerage = min (pct_of notional (mf_brokerage_pct f)) (mf_brokerage_max f);
          stt = (if side = SELL then pct_of notional (mf_stt_fno f) else 0);
          exchange = pct_of notional (mf_exchange_pct f);
          gst = pct_of (flt_add brokerage exchange) (mf_gst_pct f)
      in flt_add (flt_add (flt_add (flt_add brokerage stt) exchange) gst) (sebi_charge f notional))"

datatype commission_model = FLAT_FEE rat | INDIAN_EQUITY | INDIAN_FNO

fun compute_commission :: "market_fees \<Rightarrow> rat \<Rightarrow> order_side \<Rightarrow> commission_model \<Rightarrow> rat" where
  "compute_commission f notional side (FLAT_FEE x) = x"
| "compute_commission f notional side INDIAN_EQUITY = equity_fees f notional side"
| "compute_commission f notional side INDIAN_FNO = fno_fees f notional side"

datatype slippage_model = FIXED_PCT | VOLUME_WEIGHTED

definition compute_slippage_pct :: "slippage_model \<Rightarrow> rat \<Rightarrow> rat \<Rightarrow> rat \<Rightarrow> rat" where
  "compute_slippage_pct m base bar avg =
     (if m = FIXED_PCT \<or> avg \<le> 0 \<or> bar \<le> 0 then base else flt_mul base (flt_div avg bar))"

section \<open>Facts\<close>

text \<open>What a placement that reached the broker leaves behind, without a ledger.\<close>

lemma place_order_called:
  assumes "place_order env fid c (Some f) s = (r, s')" "om_broker s' \<noteq> om_broker s" "ev_port env = None"
  shows "\<exists>oid. let stub = (order_of_command oid c OPEN (ev_now env))\<lparr>o_status := UNKNOWN\<rparr> in
    (case f c of
       Inr b \<Rightarrow> r = Inr (ok_order b (Some ACCEPTED)) \<and> dict_get (om_by_corr s') (cm_correlation_id c) = Some b \<and>
         dict_get (om_orders s') (o_order_id b) = Some b
     | Inl e \<Rightarrow> r = Inr (unknown_result stub (exn_text e)) \<and> dict_get (om_by_corr s') (cm_correlation_id c) = Some stub \<and>
         dict_get (om_orders s') oid = Some stub)"
proof -
  let ?cid = "cm_correlation_id c"
  obtain r1 s1 where 1: "check_and_reserve env fid ?cid s = (r1, s1)" by fastforce
  note b1 = reserve_parts(1)[OF 1]
  have "\<exists>oid. r1 = Inr (Inr oid)"
  proof (rule ccontr)
    assume "\<not> ?thesis"
    then show False using assms(1,2) b1 by (auto simp: place_order_def 1 Let_def split: sum.splits)
  qed
  then obtain oid where oid: "r1 = Inr (Inr oid)" by blast
  obtain r2 s2 where 2: "build_and_validate env oid c s1 = (r2, s2)" by fastforce
  have b2: "om_broker s2 = om_broker s1" using validate_ledger[OF 2] by blast
  have "\<exists>ord. r2 = Inr (Inr ord)"
  proof (rule ccontr)
    assume "\<not> ?thesis"
    then show False using assms(1,2) b1 b2 by (auto simp: place_order_def 1 oid 2 Let_def split: sum.splits)
  qed
  then obtain ord where ord: "r2 = Inr (Inr ord)" by blast
  have o: "ord = order_of_command oid c OPEN (ev_now env)" using 2 ord
    by (auto simp: build_and_validate_def Let_def split: option.splits sum.splits prod.splits risk_result.splits)
  have ids: "o_order_id ord = oid" "o_status ord = OPEN" by (simp_all add: o order_of_command_def order_new_def)
  have g: "mutation_guard env ''place'' s2 = None \<and> \<not> ev_ledger_authority env"
  proof (rule ccontr)
    assume h: "\<not> ?thesis"
    obtain r3 s3 where 3: "submit_to_broker env c ord (Some f) s2 = (r3, s3)" by fastforce
    have "om_broker s3 = om_broker s2 \<and> (\<forall>x. r3 \<noteq> Inr (Inr x))"
      using 3 h assms(3) by (auto simp: submit_to_broker_def begin_submit_def settle_unknown_def record_outcome_def Let_def
          split: option.splits sum.splits)
    then show False using assms(1,2) b1 b2 by (auto simp: place_order_def 1 oid 2 ord 3 Let_def split: sum.splits)
  qed
  let ?s3 = "(store_under ?cid ord s2)\<lparr>om_broker := om_broker s2 @ [c]\<rparr>"
  have sub: "submit_to_broker env c ord (Some f) s2 = settle env c ord (f c) ?s3"
    using g assms(3) by (simp add: submit_to_broker_def begin_submit_def call_broker_def)
  show ?thesis
  proof (cases "f c")
    case (Inr b)
    have "settle env c ord (f c) ?s3 = (Inr (Inr b), ?s3)"
      using assms(3) by (simp add: Inr settle_def settle_accepted_def record_outcome_def)
    then obtain r4 s4 where f4: "finish_place env c b ?s3 = (r4, s4)" "r = Inr r4" "s' = s4"
      using assms(1) by (auto simp: place_order_def 1 oid 2 ord sub Let_def split: prod.splits)
    from finish_place_fields[OF f4(1)] f4 show ?thesis by (auto simp: Inr Let_def)
  next
    case (Inl e)
    have u: "order_with_status ord UNKNOWN = Inr (ord\<lparr>o_status := UNKNOWN\<rparr>)"
    proof -
      have "UNKNOWN \<in> set (sm_allowed ORDER_STATUS_TRANSITIONS OPEN)" by code_simp
      then show ?thesis using ids by (simp add: order_with_status_def)
    qed
    let ?u = "ord\<lparr>o_status := UNKNOWN\<rparr>"
    have "settle env c ord (f c) ?s3 = (Inr (Inl (unknown_result ?u (exn_text e))),
        publish env (OrderUpdated ?u (Some (exn_text e))) (store_under ?cid ?u ?s3))"
      using assms(3) by (simp add: Inl settle_def settle_unknown_def u record_outcome_def)
    then have "r = Inr (unknown_result ?u (exn_text e)) \<and> om_by_corr s' = dict_put (om_by_corr ?s3) ?cid ?u \<and>
        om_orders s' = dict_put (om_orders ?s3) oid ?u"
      using assms(1) by (auto simp: place_order_def 1 oid 2 ord sub Let_def release_all_def release_reservation_def
          store_under_def ids)
    then show ?thesis by (auto simp: Inl Let_def o)
  qed
qed

section \<open>Properties\<close>

text \<open>
  C19: the answers of a gateway. Once the broker was called, without a ledger: an accepted
  order is placed under the broker's id and status; a refused one, and one whose call raised,
  is recorded as unknown, and from then on every placement under its correlation id is
  answered as unknown without any call.
\<close>

theorem gateway_answers:
  "place_order_spine env fid (fresh, now) c (Live g) s = (r, s') \<and> om_broker s' \<noteq> om_broker s \<and> ev_port env = None \<longrightarrow>
   (case gw_place g (request_of_command c) of
      Inr a \<Rightarrow>
        if r_success a
        then (let b = order_of_command (str_or (r_order_id a) (str_or (r_broker_order_id a) (''broker-'' @ fresh))) c (r_status a) now in
              r = Inr (ok_order b (Some ACCEPTED)) \<and> dict_get (om_orders s') (o_order_id b) = Some b \<and>
              dict_get (om_by_corr s') (cm_correlation_id c) = Some b)
        else (\<exists>stub. o_status stub = UNKNOWN \<and> o_correlation_id stub = Some (cm_correlation_id c) \<and>
              r = Inr (unknown_result stub (str_or (r_message a) ''Order rejected by broker'')) \<and>
              (\<forall>env' fid' submit'. \<exists>msg. place_order env' fid' c submit' s' = (Inr (unknown_result stub msg), s')))
    | Inl e \<Rightarrow> (\<exists>stub. o_status stub = UNKNOWN \<and> o_correlation_id stub = Some (cm_correlation_id c) \<and>
              r = Inr (unknown_result stub (exn_text e)) \<and>
              (\<forall>env' fid' submit'. \<exists>msg. place_order env' fid' c submit' s' = (Inr (unknown_result stub msg), s'))))"
proof (intro impI)
  assume h: "place_order_spine env fid (fresh, now) c (Live g) s = (r, s') \<and> om_broker s' \<noteq> om_broker s \<and> ev_port env = None"
  let ?stub = "\<lambda>oid. (order_of_command oid c OPEN (ev_now env))\<lparr>o_status := UNKNOWN\<rparr>"
  have st: "o_status (?stub oid) = UNKNOWN" "o_correlation_id (?stub oid) = Some (cm_correlation_id c)" for oid
    by (simp_all add: order_of_command_def order_new_def)
  have again: "\<exists>msg. place_order env' fid' c submit' s' = (Inr (unknown_result (?stub oid) msg), s')"
    if "dict_get (om_by_corr s') (cm_correlation_id c) = Some (?stub oid)" for env' fid' submit' oid
    using that st(1)[of oid] by (auto simp: place_order_def check_and_reserve_def answer_existing_def)
  from h obtain oid where c: "case gateway_submit fresh now g c of
       Inr b \<Rightarrow> r = Inr (ok_order b (Some ACCEPTED)) \<and> dict_get (om_by_corr s') (cm_correlation_id c) = Some b \<and>
         dict_get (om_orders s') (o_order_id b) = Some b
     | Inl e \<Rightarrow> r = Inr (unknown_result (?stub oid) (exn_text e)) \<and> dict_get (om_by_corr s') (cm_correlation_id c) = Some (?stub oid) \<and>
         dict_get (om_orders s') oid = Some (?stub oid)"
    using place_order_called[of env fid c "gateway_submit fresh now g" s r s']
    by (auto simp: place_order_spine_def Let_def)
  show "case gw_place g (request_of_command c) of
      Inr a \<Rightarrow>
        if r_success a
        then (let b = order_of_command (str_or (r_order_id a) (str_or (r_broker_order_id a) (''broker-'' @ fresh))) c (r_status a) now in
              r = Inr (ok_order b (Some ACCEPTED)) \<and> dict_get (om_orders s') (o_order_id b) = Some b \<and>
              dict_get (om_by_corr s') (cm_correlation_id c) = Some b)
        else (\<exists>stub. o_status stub = UNKNOWN \<and> o_correlation_id stub = Some (cm_correlation_id c) \<and>
              r = Inr (unknown_result stub (str_or (r_message a) ''Order rejected by broker'')) \<and>
              (\<forall>env' fid' submit'. \<exists>msg. place_order env' fid' c submit' s' = (Inr (unknown_result stub msg), s')))
    | Inl e \<Rightarrow> (\<exists>stub. o_status stub = UNKNOWN \<and> o_correlation_id stub = Some (cm_correlation_id c) \<and>
              r = Inr (unknown_result stub (exn_text e)) \<and>
              (\<forall>env' fid' submit'. \<exists>msg. place_order env' fid' c submit' s' = (Inr (unknown_result stub msg), s')))"
  proof (cases "gw_place g (request_of_command c)")
    case (Inl e)
    then show ?thesis using c st[of oid] again[of oid] by (auto simp: gateway_submit_def intro!: exI[of _ "?stub oid"])
  next
    case (Inr a)
    then show ?thesis using c st[of oid] again[of oid]
      by (auto simp: gateway_submit_def order_from_response_def Let_def intro!: exI[of _ "?stub oid"])
  qed
qed

definition sample_gateway :: "order_response \<Rightarrow> gateway" where
  "sample_gateway r = \<lparr>gw_place = (\<lambda>q. Inr r), gw_cancel = None, gw_modify = None\<rparr>"

lemma gateway_answers_witness:
  "let (r, s') = place_order_spine sample_oms_env ''f1'' (''x'', Aware 0) sample_command
      (Live (sample_gateway (response_fail ''no funds'' ''E1'' REJECTED None))) sample_oms in
   (\<exists>stub. o_status stub = UNKNOWN \<and> r = Inr (unknown_result stub ''no funds''))"
proof -
  let ?t = "Live (sample_gateway (response_fail ''no funds'' ''E1'' REJECTED None))"
  obtain r s' where p: "place_order_spine sample_oms_env ''f1'' (''x'', Aware 0) sample_command ?t sample_oms = (r, s')" by fastforce
  have "length (om_broker (snd (place_order_spine sample_oms_env ''f1'' (''x'', Aware 0) sample_command ?t sample_oms))) = 1"
    "om_broker sample_oms = []" by code_simp+
  then have "om_broker s' \<noteq> om_broker sample_oms" by (auto simp: p)
  moreover have "ev_port sample_oms_env = None" by (simp add: sample_oms_env_def)
  ultimately show ?thesis
    using gateway_answers[of sample_oms_env "''f1''" "''x''" "Aware 0" sample_command
        "sample_gateway (response_fail ''no funds'' ''E1'' REJECTED None)" sample_oms r s'] p
    by (auto simp: sample_gateway_def response_fail_def str_or_def)
qed

text \<open>
  C40: the composer takes a refusal for an order. When the broker was called and refuses,
  without a ledger, the composer answers that the order is placed, with the status and the id
  of the refusal; a refusal carries no id, so the book then keeps it under the empty one.
\<close>

theorem composer_reports_refusal:
  "composer_place env fid fresh (Inr g) q s = (res, s') \<and> om_broker s' \<noteq> om_broker s \<and> ev_port env = None \<and>
   gw_place g q = Inr (response_fail msg code status http) \<longrightarrow>
   (\<exists>resp. res = Inr (Placed resp) \<and> r_success resp \<and> r_order_id resp = [] \<and> r_status resp = status) \<and>
   map_option o_status (dict_get (om_orders s') []) = Some status"
proof (intro impI)
  assume h: "composer_place env fid fresh (Inr g) q s = (res, s') \<and> om_broker s' \<noteq> om_broker s \<and> ev_port env = None \<and>
   gw_place g q = Inr (response_fail msg code status http)"
  have "\<exists>c. order_request_to_oms_command fresh q = Inr c"
    using h by (auto simp: composer_place_def split: sum.splits)
  then obtain c where c: "order_request_to_oms_command fresh q = Inr c" by blast
  obtain r s1 where p: "place_order env fid c (Some (composer_submit g q)) s = (r, s1)" by fastforce
  have s1: "s1 = s'" using h by (auto simp: composer_place_def c p split: sum.splits)
  let ?b = "broker_order_from_response (response_fail msg code status http) c"
  have b: "composer_submit g q c = Inr ?b" using h by (simp add: composer_submit_def)
  have i: "o_order_id ?b = []" "o_status ?b = status"
    by (simp_all add: broker_order_from_response_def response_fail_def str_or_def order_new_def)
  have "r = Inr (ok_order ?b (Some ACCEPTED)) \<and> dict_get (om_orders s') [] = Some ?b"
    using place_order_called[OF p] h b i by (auto simp: s1 Let_def)
  then show "(\<exists>resp. res = Inr (Placed resp) \<and> r_success resp \<and> r_order_id resp = [] \<and> r_status resp = status) \<and>
   map_option o_status (dict_get (om_orders s') []) = Some status"
    using h i by (auto simp: composer_place_def c p ok_order_def order_result_to_response_def response_ok_def)
qed


lemma composer_reports_refusal_witness:
  "\<exists>resp. fst (composer_place sample_oms_env ''f1'' ''u1'' (Inr (sample_gateway (response_fail ''no funds'' ''E1'' REJECTED None)))
      (request_of_command sample_command) sample_oms) = Inr (Placed resp) \<and> r_status resp = REJECTED"
proof -
  let ?g = "sample_gateway (response_fail ''no funds'' ''E1'' REJECTED None)"
  obtain r s' where p: "composer_place sample_oms_env ''f1'' ''u1'' (Inr ?g) (request_of_command sample_command) sample_oms = (r, s')"
    by fastforce
  have "length (om_broker (snd (composer_place sample_oms_env ''f1'' ''u1'' (Inr ?g) (request_of_command sample_command) sample_oms))) = 1"
    "om_broker sample_oms = []" by code_simp+
  then have "om_broker s' \<noteq> om_broker sample_oms" by (auto simp: p)
  then show ?thesis
    using composer_reports_refusal[of sample_oms_env "''f1''" "''u1''" ?g "request_of_command sample_command" sample_oms r s'
        "''no funds''" "''E1''" REJECTED None] p
    by (auto simp: sample_oms_env_def sample_gateway_def)
qed

section \<open>Facts about costs\<close>

lemma pct_of_mono: "0 \<le> p \<Longrightarrow> x \<le> y \<Longrightarrow> pct_of x p \<le> pct_of y p"
  unfolding pct_of_def flt_div_def flt_mul_def by (intro flt_mono divide_right_mono mult_right_mono) simp_all

lemma flt_add_le: "a \<le> b \<Longrightarrow> c \<le> d \<Longrightarrow> flt_add a c \<le> flt_add b d"
  unfolding flt_add_def by (intro flt_mono add_mono)

lemma pct_of_zero [simp]: "pct_of 0 p = 0"
  by (simp add: pct_of_def flt_mul_def flt_div_def)

definition fees_wf :: "market_fees \<Rightarrow> bool" where
  "fees_wf f \<longleftrightarrow> 0 \<le> mf_brokerage_pct f \<and> 0 \<le> mf_brokerage_max f \<and> 0 \<le> mf_stt_delivery f \<and> 0 \<le> mf_stt_fno f \<and>
     0 \<le> mf_exchange_pct f \<and> 0 \<le> mf_gst_pct f \<and> 0 \<le> mf_stamp_pct f \<and> 0 \<le> mf_sebi_per_crore f"

lemma equity_fees_mono:
  assumes "fees_wf f" "n \<le> m"
  shows "equity_fees f n side \<le> equity_fees f m side"
proof -
  have w: "0 \<le> mf_brokerage_pct f" "0 \<le> mf_stt_delivery f" "0 \<le> mf_exchange_pct f" "0 \<le> mf_gst_pct f" "0 \<le> mf_stamp_pct f"
    "0 \<le> mf_sebi_per_crore f" using assms(1) by (simp_all add: fees_wf_def)
  have b: "min (pct_of n (mf_brokerage_pct f)) (mf_brokerage_max f) \<le> min (pct_of m (mf_brokerage_pct f)) (mf_brokerage_max f)"
    using pct_of_mono[OF w(1) assms(2)] by (rule min.mono) simp
  note e = pct_of_mono[OF w(3) assms(2)]
  have se: "sebi_charge f n \<le> sebi_charge f m" unfolding sebi_charge_def flt_div_def flt_mul_def
    using assms(2) w(6) by (intro flt_mono divide_right_mono mult_right_mono) simp_all
  show ?thesis unfolding equity_fees_def Let_def
    using b e se pct_of_mono[OF w(2) assms(2)] pct_of_mono[OF w(5) assms(2)] pct_of_mono[OF w(4) flt_add_le[OF b e]]
    by (intro flt_add_le) auto
qed

lemma fees_nonneg: "fees_wf f \<Longrightarrow> 0 \<le> n \<Longrightarrow> 0 \<le> equity_fees f n side"
  using equity_fees_mono[of f 0 n side]
  by (auto simp: equity_fees_def sebi_charge_def fees_wf_def Let_def flt_add_def flt_mul_def flt_div_def min_def split: if_splits)

text \<open>A charge of ten per crore, which is ten million, is one on a crore.\<close>

lemma sebi_charge_crore: "sebi_charge indian_market_fees (10 ^ 7) = 1"
  by (simp add: sebi_charge_def indian_market_fees_def) code_simp

end
