(* ===== verification/Broker_Routing.thy ===== *)
theory Broker_Routing
  imports Entities "HOL-Library.Multiset"
begin

text \<open>
  Choosing a broker: what a broker can do (\<open>domain/capabilities/\<close>,
  \<open>domain/historical/\<close>), its extensions (\<open>domain/extensions/broker_bundle.py\<close>), the registry
  (\<open>application/composer/registry.py\<close>), the policies (\<open>domain/policies/\<close>) and the router
  (\<open>application/composer/router.py\<close>). A broker adapter is a value of its own type, and what it
  answers about its capabilities is an argument. A \<open>frozenset\<close> is the list of its elements in
  the order in which it is walked. The times at which descriptors and health are observed are
  left out, as are the fields of the capabilities that nothing here reads.
\<close>

section \<open>Capabilities\<close>

datatype asset_kind =
    EQUITY | INDEX | FUTURES | OPTIONS | ETF | CURRENCY | COMMODITY | SPOT | CRYPTO | BOND | SYNTHETIC

definition asset_kinds :: "asset_kind list" where
  "asset_kinds = [EQUITY, INDEX, FUTURES, OPTIONS, ETF, CURRENCY, COMMODITY, SPOT, CRYPTO, BOND, SYNTHETIC]"

fun asset_kind_value :: "asset_kind \<Rightarrow> string" where
  "asset_kind_value EQUITY = ''EQUITY''"
| "asset_kind_value INDEX = ''INDEX''"
| "asset_kind_value FUTURES = ''FUTURES''"
| "asset_kind_value OPTIONS = ''OPTIONS''"
| "asset_kind_value ETF = ''ETF''"
| "asset_kind_value CURRENCY = ''CURRENCY''"
| "asset_kind_value COMMODITY = ''COMMODITY''"
| "asset_kind_value SPOT = ''SPOT''"
| "asset_kind_value CRYPTO = ''CRYPTO''"
| "asset_kind_value BOND = ''BOND''"
| "asset_kind_value SYNTHETIC = ''SYNTHETIC''"

definition asset_kind_parse :: "string \<Rightarrow> asset_kind option" where
  "asset_kind_parse value =
     (let key = py_upper (py_strip value) in
      if key = ''FUTURE'' \<or> key = ''FUTURES'' then Some FUTURES
      else if key = ''OPTION'' \<or> key = ''OPTIONS'' then Some OPTIONS
      else find (\<lambda>k. asset_kind_value k = key) asset_kinds)"

datatype contract_state = CONTRACT_ACTIVE | CONTRACT_EXPIRED | CONTRACT_AUTO

fun contract_state_value :: "contract_state \<Rightarrow> string" where
  "contract_state_value CONTRACT_ACTIVE = ''active''"
| "contract_state_value CONTRACT_EXPIRED = ''expired''"
| "contract_state_value CONTRACT_AUTO = ''auto''"

record rate_limit_profile =
  rl_endpoint_class :: string
  rl_sustained_rps :: rat
  rl_burst_rps :: "rat option"
  rl_min_interval_ms :: "int option"
  rl_cooldown_on_429_s :: "int option"
  rl_extra_windows :: "(int \<times> rat) list"

record window_constraint =
  hw_timeframe :: string
  hw_max_lookback_days :: int
  hw_max_chunk_days :: int
  hw_supports_expired :: bool

record route_constraint =
  hr_asset_kind :: asset_kind
  hr_exchange :: string
  hr_contract_states :: "contract_state list"
  hr_exact_contract :: bool
  hr_rolling_index_options :: bool
  hr_requires_entitlement :: "string option"

record route_lane =
  ln_asset_kind :: asset_kind
  ln_exchange :: string
  ln_contract_state :: contract_state
  ln_timeframe :: string
  ln_lookback_days :: int
  ln_underlying :: "string option"
  ln_rolling_index_options :: bool

definition lane_endpoint_class :: "route_lane \<Rightarrow> string" where
  "lane_endpoint_class l = (if ln_rolling_index_options l then ''options_historical'' else ''historical'')"

text \<open>The boolean fields \<open>supports_*\<close> that hold are listed by their names without the prefix.\<close>

definition feature_names :: "string list" where
  "feature_names =
     [''place_order'', ''cancel_order'', ''modify_order'', ''historical_data'', ''intraday_history'',
      ''expired_options_history'', ''live_market_data'', ''depth'', ''depth_20_ws'', ''depth_200_ws'',
      ''option_chain'', ''polling_fallback'', ''order_stream'', ''portfolio_stream'', ''news'',
      ''fundamentals'', ''super_order'', ''forever_order'', ''native_slice_order'']"

record capabilities =
  cp_broker_id :: string
  cp_features :: "string list"
  cp_rate_limit_profiles :: "rate_limit_profile list"
  cp_historical_windows :: "window_constraint list"
  cp_historical_routes :: "route_constraint list"
  cp_market_surfaces :: "(asset_kind \<times> string) list"
  cp_max_batch_size :: int

definition supports :: "capabilities \<Rightarrow> string \<Rightarrow> bool" where
  "supports c f \<longleftrightarrow> f \<in> set feature_names \<and> f \<in> set (cp_features c)"

definition limit_for :: "capabilities \<Rightarrow> string \<Rightarrow> rate_limit_profile option" where
  "limit_for c ec = find (\<lambda>p. rl_endpoint_class p = ec) (cp_rate_limit_profiles c)"

definition historical_window_for :: "capabilities \<Rightarrow> string \<Rightarrow> window_constraint option" where
  "historical_window_for c tf = find (\<lambda>w. hw_timeframe w = tf) (cp_historical_windows c)"

definition can_serve_historical :: "capabilities \<Rightarrow> string \<Rightarrow> int \<Rightarrow> bool" where
  "can_serve_historical c tf lookback =
     (supports c ''historical_data'' \<and>
      (case historical_window_for c tf of None \<Rightarrow> False | Some w \<Rightarrow> lookback \<le> hw_max_lookback_days w))"

text \<open>On ASCII text a word has the lower case \<open>1d\<close> or \<open>day\<close> when its upper case is \<open>1D\<close> or \<open>DAY\<close>.\<close>

definition normalize_timeframe :: "string \<Rightarrow> string" where
  "normalize_timeframe tf =
     (let t = py_strip tf in if py_upper t = ''1D'' \<or> py_upper t = ''DAY'' then ''1D'' else t)"

definition window_covers :: "window_constraint list \<Rightarrow> route_lane \<Rightarrow> bool" where
  "window_covers ws l \<longleftrightarrow>
     (\<exists>w \<in> set ws. normalize_timeframe (hw_timeframe w) = normalize_timeframe (ln_timeframe l) \<and>
        ln_lookback_days l \<le> hw_max_lookback_days w)"

definition route_serves :: "string list \<Rightarrow> route_lane \<Rightarrow> route_constraint \<Rightarrow> bool" where
  "route_serves entitlements l r \<longleftrightarrow>
     hr_asset_kind r = ln_asset_kind l \<and> hr_exchange r = ln_exchange l \<and>
     (ln_contract_state l \<in> set (hr_contract_states r) \<or>
      ln_contract_state l = CONTRACT_AUTO \<and> (CONTRACT_AUTO \<in> set (hr_contract_states r) \<or> hr_contract_states r \<noteq> [])) \<and>
     hr_rolling_index_options r = ln_rolling_index_options l \<and>
     (hr_exact_contract r \<or> hr_rolling_index_options r) \<and>
     \<not> (hr_exact_contract r \<and> ln_rolling_index_options l) \<and>
     (case hr_requires_entitlement r of None \<Rightarrow> True | Some e \<Rightarrow> e = [] \<or> e \<in> set entitlements)"

definition can_serve_historical_lane ::
  "bool \<Rightarrow> route_constraint list \<Rightarrow> window_constraint list \<Rightarrow> route_lane \<Rightarrow> string list \<Rightarrow> bool" where
  "can_serve_historical_lane data routes windows l entitlements \<longleftrightarrow>
     data \<and> (0 < ln_lookback_days l \<longrightarrow> window_covers windows l) \<and> (\<exists>r \<in> set routes. route_serves entitlements l r)"

definition can_serve_lane :: "capabilities \<Rightarrow> route_lane \<Rightarrow> string list \<Rightarrow> bool" where
  "can_serve_lane c l entitlements =
     (if cp_historical_routes c \<noteq> []
      then can_serve_historical_lane (supports c ''historical_data'') (cp_historical_routes c) (cp_historical_windows c) l entitlements
      else can_serve_historical c (ln_timeframe l) (ln_lookback_days l))"

definition serves :: "capabilities \<Rightarrow> asset_kind + string \<Rightarrow> string \<Rightarrow> bool" where
  "serves c ak exch =
     (case (case ak of Inl k \<Rightarrow> Some k | Inr s \<Rightarrow> asset_kind_parse s) of
        None \<Rightarrow> False
      | Some k \<Rightarrow> (k, exch) \<in> set (cp_market_surfaces c))"

section \<open>Extensions\<close>

text \<open>An interface type is named by a string, its implementation is a value.\<close>

type_synonym 'i ext_bundle = "(string, 'i) dict"
type_synonym 'i extension_registry = "(string, 'i ext_bundle) dict"

datatype routing_exn =
    BrokerUnavailable string string
  | NoRoute string "(string, string) dict"
  | UnsupportedExtension string string "string list"

definition extension_resolve :: "'i extension_registry \<Rightarrow> string \<Rightarrow> string \<Rightarrow> 'i option" where
  "extension_resolve x bid t = Option.bind (dict_get x bid) (\<lambda>b. dict_get b t)"

definition brokers_supporting :: "'i extension_registry \<Rightarrow> string \<Rightarrow> string list" where
  "brokers_supporting x t = map fst (filter (\<lambda>(bid, b). dict_get b t \<noteq> None) x)"

definition extension_require :: "'i extension_registry \<Rightarrow> string \<Rightarrow> string \<Rightarrow> routing_exn + 'i" where
  "extension_require x bid t =
     (case extension_resolve x bid t of
        Some i \<Rightarrow> Inr i
      | None \<Rightarrow> Inl (UnsupportedExtension bid t (filter (\<lambda>b. b \<noteq> bid) (brokers_supporting x t))))"

section \<open>The registry\<close>

record health =
  hs_broker_id :: string
  hs_alive :: bool
  hs_auth_valid :: bool
  hs_error_rate :: rat
  hs_latency_p50_ms :: rat
  hs_reason :: string

definition is_usable :: "health \<Rightarrow> bool" where
  "is_usable h \<longleftrightarrow> hs_alive h \<and> hs_auth_valid h"

definition health_new :: "string \<Rightarrow> bool \<Rightarrow> string \<Rightarrow> health" where
  "health_new bid alive reason =
     \<lparr>hs_broker_id = bid, hs_alive = alive, hs_auth_valid = True, hs_error_rate = 0, hs_latency_p50_ms = 0, hs_reason = reason\<rparr>"

record stream_summary =
  ss_broker_id :: string
  ss_active :: int
  ss_healthy :: int
  ss_stale :: int
  ss_degraded :: int

definition all_healthy :: "stream_summary \<Rightarrow> bool" where
  "all_healthy s \<longleftrightarrow> 0 < ss_active s \<and> ss_healthy s = ss_active s"

record ('g, 'i) brokers =
  br_gateways :: "(string, 'g) dict"
  br_capabilities :: "(string, capabilities) dict"
  br_health :: "(string, health) dict"
  br_summaries :: "(string, stream_summary) dict"
  br_extensions :: "'i extension_registry"

definition brokers_new :: "('g, 'i) brokers" where
  "brokers_new = \<lparr>br_gateways = [], br_capabilities = [], br_health = [], br_summaries = [], br_extensions = []\<rparr>"

definition brokers_register ::
  "string \<Rightarrow> 'g \<Rightarrow> capabilities \<Rightarrow> 'i ext_bundle option \<Rightarrow> ('g, 'i) brokers \<Rightarrow> ('g, 'i) brokers" where
  "brokers_register bid g caps bundle b =
     b\<lparr>br_gateways := dict_put (br_gateways b) bid g,
       br_capabilities := dict_put (br_capabilities b) bid caps,
       br_health := dict_put (br_health b) bid (health_new bid True []),
       br_extensions := (case bundle of None \<Rightarrow> br_extensions b | Some x \<Rightarrow> dict_put (br_extensions b) bid x)\<rparr>"

definition brokers_deregister :: "string \<Rightarrow> ('g, 'i) brokers \<Rightarrow> ('g, 'i) brokers" where
  "brokers_deregister bid b =
     b\<lparr>br_gateways := dict_pop (br_gateways b) bid, br_capabilities := dict_pop (br_capabilities b) bid,
       br_health := dict_pop (br_health b) bid, br_summaries := dict_pop (br_summaries b) bid\<rparr>"

definition get_gateway :: "('g, 'i) brokers \<Rightarrow> string \<Rightarrow> routing_exn + 'g" where
  "get_gateway b bid =
     (case dict_get (br_gateways b) bid of
        None \<Rightarrow> Inl (BrokerUnavailable bid ''not registered'')
      | Some g \<Rightarrow>
          (case dict_get (br_health b) bid of
             None \<Rightarrow> Inr g
           | Some h \<Rightarrow> if is_usable h then Inr g else Inl (BrokerUnavailable bid (hs_reason h))))"

definition get_capabilities :: "('g, 'i) brokers \<Rightarrow> string \<Rightarrow> routing_exn + capabilities" where
  "get_capabilities b bid =
     (case dict_get (br_capabilities b) bid of None \<Rightarrow> Inl (BrokerUnavailable bid ''not registered'') | Some c \<Rightarrow> Inr c)"

definition get_health :: "('g, 'i) brokers \<Rightarrow> string \<Rightarrow> health" where
  "get_health b bid =
     (case dict_get (br_health b) bid of None \<Rightarrow> health_new bid False ''not registered'' | Some h \<Rightarrow> h)"

definition get_stream_summary :: "('g, 'i) brokers \<Rightarrow> string \<Rightarrow> stream_summary option" where
  "get_stream_summary b bid = dict_get (br_summaries b) bid"

definition list_brokers :: "('g, 'i) brokers \<Rightarrow> string list" where
  "list_brokers b = dict_keys (br_gateways b)"

definition find_brokers :: "(capabilities \<Rightarrow> bool) \<Rightarrow> ('g, 'i) brokers \<Rightarrow> string list" where
  "find_brokers p b = map fst (filter (\<lambda>(bid, c). p c) (br_capabilities b))"

definition brokers_snapshot :: "('g, 'i) brokers \<Rightarrow> string list \<times> (string, health) dict" where
  "brokers_snapshot b = (list_brokers b, br_health b)"

definition update_health :: "health \<Rightarrow> ('g, 'i) brokers \<Rightarrow> ('g, 'i) brokers" where
  "update_health h b =
     (if dict_get (br_gateways b) (hs_broker_id h) = None then b
      else b\<lparr>br_health := dict_put (br_health b) (hs_broker_id h) h\<rparr>)"

definition update_stream_summary :: "stream_summary \<Rightarrow> ('g, 'i) brokers \<Rightarrow> ('g, 'i) brokers" where
  "update_stream_summary s b = b\<lparr>br_summaries := dict_put (br_summaries b) (ss_broker_id s) s\<rparr>"

text \<open>Refreshing takes the lock twice: to look the gateway up, and to store what it answered.\<close>

definition refresh_find :: "string \<Rightarrow> ('g, 'i) brokers \<Rightarrow> 'g option" where
  "refresh_find bid b = dict_get (br_gateways b) bid"

definition refresh_store :: "string \<Rightarrow> capabilities \<Rightarrow> ('g, 'i) brokers \<Rightarrow> ('g, 'i) brokers" where
  "refresh_store bid caps b = b\<lparr>br_capabilities := dict_put (br_capabilities b) bid caps\<rparr>"

definition refresh_capabilities :: "string \<Rightarrow> ('g \<Rightarrow> capabilities) \<Rightarrow> ('g, 'i) brokers \<Rightarrow> ('g, 'i) brokers" where
  "refresh_capabilities bid ask b =
     (case refresh_find bid b of None \<Rightarrow> b | Some g \<Rightarrow> refresh_store bid (ask g) b)"

text \<open>What can happen to the registry; a refresh is two of its events, with others between.\<close>

datatype ('g, 'i) registry_op =
    Register string 'g capabilities "'i ext_bundle option"
  | Deregister string
  | Set_Health health
  | Set_Summary stream_summary
  | Refresh_Find string
  | Refresh_Store string capabilities

text \<open>The pending refreshes are kept beside the registry.\<close>

fun registry_step :: "('g, 'i) brokers \<times> string list \<Rightarrow> ('g, 'i) registry_op \<Rightarrow> ('g, 'i) brokers \<times> string list" where
  "registry_step (b, ps) (Register bid g caps x) = (brokers_register bid g caps x b, ps)"
| "registry_step (b, ps) (Deregister bid) = (brokers_deregister bid b, ps)"
| "registry_step (b, ps) (Set_Health h) = (update_health h b, ps)"
| "registry_step (b, ps) (Set_Summary s) = (update_stream_summary s b, ps)"
| "registry_step (b, ps) (Refresh_Find bid) = (b, if refresh_find bid b = None then ps else bid # ps)"
| "registry_step (b, ps) (Refresh_Store bid caps) =
     (if bid \<in> set ps then (refresh_store bid caps b, remove1 bid ps) else (b, ps))"

section \<open>Requests, policies and decisions\<close>

datatype operation_kind =
    PLACE_ORDER | CANCEL_ORDER | MODIFY_ORDER | GET_POSITIONS | GET_MARGINS | GET_ORDERS
    | GET_TRADES | GET_QUOTE | GET_QUOTES_BATCH | GET_DEPTH | GET_HISTORICAL_BARS
    | OPEN_MARKET_STREAM | OPEN_ORDER_STREAM | FETCH_OPTION_CHAIN | GET_OPTIONS_HISTORICAL
    | GET_CONTRACT_HISTORICAL | FETCH_NEWS | FETCH_FUNDAMENTALS | FETCH_MARKET_INTELLIGENCE
    | PLACE_SUPER_ORDER | PLACE_FOREVER_ORDER | PLACE_SLICE_ORDER

fun operation_value :: "operation_kind \<Rightarrow> string" where
  "operation_value PLACE_ORDER = ''place_order''"
| "operation_value CANCEL_ORDER = ''cancel_order''"
| "operation_value MODIFY_ORDER = ''modify_order''"
| "operation_value GET_POSITIONS = ''get_positions''"
| "operation_value GET_MARGINS = ''get_margins''"
| "operation_value GET_ORDERS = ''get_orders''"
| "operation_value GET_TRADES = ''get_trades''"
| "operation_value GET_QUOTE = ''get_quote''"
| "operation_value GET_QUOTES_BATCH = ''get_quotes_batch''"
| "operation_value GET_DEPTH = ''get_depth''"
| "operation_value GET_HISTORICAL_BARS = ''get_historical_bars''"
| "operation_value OPEN_MARKET_STREAM = ''open_market_stream''"
| "operation_value OPEN_ORDER_STREAM = ''open_order_stream''"
| "operation_value FETCH_OPTION_CHAIN = ''fetch_option_chain''"
| "operation_value GET_OPTIONS_HISTORICAL = ''get_options_historical''"
| "operation_value GET_CONTRACT_HISTORICAL = ''get_contract_historical''"
| "operation_value FETCH_NEWS = ''fetch_news''"
| "operation_value FETCH_FUNDAMENTALS = ''fetch_fundamentals''"
| "operation_value FETCH_MARKET_INTELLIGENCE = ''fetch_market_intelligence''"
| "operation_value PLACE_SUPER_ORDER = ''place_super_order''"
| "operation_value PLACE_FOREVER_ORDER = ''place_forever_order''"
| "operation_value PLACE_SLICE_ORDER = ''place_slice_order''"

definition is_execution :: "operation_kind \<Rightarrow> bool" where
  "is_execution k \<longleftrightarrow>
     k \<in> set [PLACE_ORDER, CANCEL_ORDER, MODIFY_ORDER, PLACE_SUPER_ORDER, PLACE_FOREVER_ORDER, PLACE_SLICE_ORDER]"

definition is_market_data :: "operation_kind \<Rightarrow> bool" where
  "is_market_data k \<longleftrightarrow>
     k \<in> set [GET_QUOTE, GET_QUOTES_BATCH, GET_DEPTH, GET_HISTORICAL_BARS, OPEN_MARKET_STREAM, FETCH_OPTION_CHAIN,
             GET_OPTIONS_HISTORICAL, GET_CONTRACT_HISTORICAL]"

definition is_enrichment :: "operation_kind \<Rightarrow> bool" where
  "is_enrichment k \<longleftrightarrow> k \<in> set [FETCH_NEWS, FETCH_FUNDAMENTALS, FETCH_MARKET_INTELLIGENCE]"

datatype routing_mode = FIXED | PRIORITY_LIST | CAPABILITY_MATCH | QUOTA_AWARE | LATENCY_AWARE

fun routing_mode_value :: "routing_mode \<Rightarrow> string" where
  "routing_mode_value FIXED = ''fixed''"
| "routing_mode_value PRIORITY_LIST = ''priority_list''"
| "routing_mode_value CAPABILITY_MATCH = ''capability_match''"
| "routing_mode_value QUOTA_AWARE = ''quota_aware''"
| "routing_mode_value LATENCY_AWARE = ''latency_aware''"

record routing_policy =
  rp_mode :: routing_mode
  rp_candidates :: "string list"
  rp_required_features :: "string list"
  rp_allow_fallback :: bool
  rp_max_parallel_sources :: "int option"
  rp_execution_account :: "string option"

record selection_policy =
  sp_historical :: routing_policy
  sp_live_market_data :: routing_policy
  sp_execution :: routing_policy
  sp_enrichment :: routing_policy
  sp_instrument_metadata :: routing_policy
  sp_policy_version :: string

definition for_operation_kind :: "selection_policy \<Rightarrow> operation_kind \<Rightarrow> routing_policy" where
  "for_operation_kind pol k =
     (if k \<in> set [PLACE_ORDER, CANCEL_ORDER, MODIFY_ORDER, PLACE_SUPER_ORDER, PLACE_FOREVER_ORDER, PLACE_SLICE_ORDER]
      then sp_execution pol
      else if k = GET_HISTORICAL_BARS then sp_historical pol
      else if k \<in> set [GET_OPTIONS_HISTORICAL, GET_CONTRACT_HISTORICAL] then sp_historical pol
      else if k \<in> set [OPEN_MARKET_STREAM, GET_QUOTE, GET_QUOTES_BATCH, GET_DEPTH, FETCH_OPTION_CHAIN]
      then sp_live_market_data pol
      else if k \<in> set [FETCH_NEWS, FETCH_FUNDAMENTALS, FETCH_MARKET_INTELLIGENCE] then sp_enrichment pol
      else sp_instrument_metadata pol)"

definition routing_policy_new :: "routing_mode \<Rightarrow> string list \<Rightarrow> string list \<Rightarrow> bool \<Rightarrow> routing_policy" where
  "routing_policy_new mode cands features fallback =
     \<lparr>rp_mode = mode, rp_candidates = cands, rp_required_features = features, rp_allow_fallback = fallback,
      rp_max_parallel_sources = None, rp_execution_account = None\<rparr>"

text \<open>One broker for everything: the policies for Dhan only, for Upstox only and of the sandbox.\<close>

definition single_broker_policy :: "string \<Rightarrow> string \<Rightarrow> selection_policy" where
  "single_broker_policy bid version =
     (let p = routing_policy_new FIXED [bid] [] False in
      \<lparr>sp_historical = p, sp_live_market_data = p, sp_execution = p\<lparr>rp_execution_account := Some bid\<rparr>,
       sp_enrichment = p, sp_instrument_metadata = p, sp_policy_version = version\<rparr>)"

definition default_dhan_only_policy :: "string \<Rightarrow> selection_policy" where
  "default_dhan_only_policy version = single_broker_policy ''dhan'' version"

definition default_upstox_only_policy :: "string \<Rightarrow> selection_policy" where
  "default_upstox_only_policy version = single_broker_policy ''upstox'' version"

definition sandbox_source_selection_policy :: selection_policy where
  "sandbox_source_selection_policy = single_broker_policy ''dhan'' ''1.0.0-sandbox''"

definition auto_dual_broker_policy :: "string \<Rightarrow> string \<Rightarrow> selection_policy" where
  "auto_dual_broker_policy account version =
     \<lparr>sp_historical = (routing_policy_new CAPABILITY_MATCH [''upstox'', ''dhan'', ''paper''] [''historical_data''] True)
        \<lparr>rp_max_parallel_sources := Some 2\<rparr>,
      sp_live_market_data = (routing_policy_new PRIORITY_LIST [''upstox'', ''dhan''] [''live_market_data''] True)
        \<lparr>rp_max_parallel_sources := Some 2\<rparr>,
      sp_execution = (routing_policy_new FIXED [account] [] False)\<lparr>rp_execution_account := Some account\<rparr>,
      sp_enrichment = routing_policy_new CAPABILITY_MATCH [''upstox''] [''news''] False,
      sp_instrument_metadata = routing_policy_new PRIORITY_LIST [''dhan'', ''upstox''] [] True,
      sp_policy_version = version\<rparr>"

definition order_features :: "string list" where
  "order_features = [''place_order'', ''cancel_order'', ''modify_order'']"

definition default_source_selection_policy :: selection_policy where
  "default_source_selection_policy =
     \<lparr>sp_historical = (routing_policy_new QUOTA_AWARE [''dhan'', ''upstox''] [''historical_data''] True)
        \<lparr>rp_max_parallel_sources := Some 2\<rparr>,
      sp_live_market_data = routing_policy_new PRIORITY_LIST [''upstox'', ''dhan''] [''live_market_data''] True,
      sp_execution = (routing_policy_new FIXED [''dhan''] order_features False)\<lparr>rp_execution_account := Some ''dhan''\<rparr>,
      sp_enrichment = routing_policy_new CAPABILITY_MATCH [''upstox''] [''news''] False,
      sp_instrument_metadata = routing_policy_new PRIORITY_LIST [''dhan'', ''upstox''] [] True,
      sp_policy_version = ''1.0.0''\<rparr>"

definition upstox_primary_source_selection_policy :: selection_policy where
  "upstox_primary_source_selection_policy =
     \<lparr>sp_historical = (routing_policy_new QUOTA_AWARE [''dhan'', ''upstox''] [''historical_data''] True)
        \<lparr>rp_max_parallel_sources := Some 2\<rparr>,
      sp_live_market_data = routing_policy_new CAPABILITY_MATCH [''upstox'', ''dhan''] [''live_market_data''] True,
      sp_execution = (routing_policy_new FIXED [''upstox''] order_features False)\<lparr>rp_execution_account := Some ''upstox''\<rparr>,
      sp_enrichment = routing_policy_new CAPABILITY_MATCH [''upstox''] [''news''] False,
      sp_instrument_metadata = routing_policy_new PRIORITY_LIST [''upstox'', ''dhan''] [] True,
      sp_policy_version = ''1.0.0-upstox-primary''\<rparr>"

definition multi_broker_redundant_policy :: selection_policy where
  "multi_broker_redundant_policy =
     \<lparr>sp_historical = (routing_policy_new QUOTA_AWARE [''dhan'', ''upstox''] [''historical_data''] True)
        \<lparr>rp_max_parallel_sources := Some 2\<rparr>,
      sp_live_market_data = routing_policy_new PRIORITY_LIST [''dhan'', ''upstox''] [''live_market_data''] True,
      sp_execution = (routing_policy_new PRIORITY_LIST [''dhan'', ''upstox''] order_features True)
        \<lparr>rp_execution_account := Some ''dhan''\<rparr>,
      sp_enrichment = routing_policy_new PRIORITY_LIST [''upstox'', ''dhan''] [''news''] True,
      sp_instrument_metadata = routing_policy_new PRIORITY_LIST [''dhan'', ''upstox''] [] True,
      sp_policy_version = ''1.0.0-redundant''\<rparr>"

definition live_capital_broker_ids :: "string list" where
  "live_capital_broker_ids = [''dhan'', ''upstox'']"

record routing_request =
  rq_operation :: operation_kind
  rq_trace_id :: string
  rq_instrument :: "string option"
  rq_required_features :: "string list"
  rq_route_lane :: "route_lane option"
  rq_entitlements :: "string list"
  rq_user_mode :: string

definition routing_request_new :: "operation_kind \<Rightarrow> string \<Rightarrow> routing_request" where
  "routing_request_new op trace =
     \<lparr>rq_operation = op, rq_trace_id = trace, rq_instrument = None, rq_required_features = [], rq_route_lane = None,
      rq_entitlements = [], rq_user_mode = ''auto''\<rparr>"

record route_decision =
  rd_operation :: operation_kind
  rd_primary_broker :: string
  rd_trace_id :: string
  rd_policy_version :: string
  rd_fallback_brokers :: "string list"
  rd_parallel_brokers :: "string list"
  rd_reason_codes :: "string list"
  rd_rejected :: "(string, string) dict"
  rd_decided_at :: datetime

definition has_fallback :: "route_decision \<Rightarrow> bool" where
  "has_fallback d \<longleftrightarrow> 0 < length (rd_fallback_brokers d)"

section \<open>The router\<close>

fun comma_join :: "string list \<Rightarrow> string" where
  "comma_join [] = []"
| "comma_join [x] = x"
| "comma_join (x # xs) = x @ '','' @ comma_join xs"

definition missing_features :: "capabilities \<Rightarrow> string list \<Rightarrow> string list" where
  "missing_features c fs = filter (\<lambda>f. \<not> supports c f) fs"

text \<open>Why a candidate is turned down, if it is; its capabilities are read only when they matter.\<close>

definition check_candidate ::
  "('g, 'i) brokers \<Rightarrow> routing_policy \<Rightarrow> routing_request \<Rightarrow> string \<Rightarrow> routing_exn + string option" where
  "check_candidate b p q bid =
     (if bid \<notin> set (list_brokers b) then Inr (Some ''not_registered'')
      else if rq_required_features q = [] \<and> rp_required_features p = [] \<and> rq_route_lane q = None then Inr None
      else
        (case get_capabilities b bid of
           Inl e \<Rightarrow> Inl e
         | Inr c \<Rightarrow>
             if missing_features c (rq_required_features q) \<noteq> []
             then Inr (Some (''missing_features:'' @ comma_join (missing_features c (rq_required_features q))))
             else if missing_features c (rp_required_features p) \<noteq> []
             then Inr (Some (''missing_policy_features:'' @ comma_join (missing_features c (rp_required_features p))))
             else
               (case rq_route_lane q of
                  None \<Rightarrow> Inr None
                | Some l \<Rightarrow>
                    if can_serve_lane c l (rq_entitlements q) then Inr None
                    else Inr (Some (''lane_ineligible:'' @ asset_kind_value (ln_asset_kind l) @ '':'' @ ln_exchange l @ '':'' @
                           contract_state_value (ln_contract_state l))))))"

fun filter_capable ::
  "('g, 'i) brokers \<Rightarrow> routing_policy \<Rightarrow> routing_request \<Rightarrow> string list \<Rightarrow> (string, string) dict \<Rightarrow>
   routing_exn + string list \<times> (string, string) dict" where
  "filter_capable b p q [] rej = Inr ([], rej)"
| "filter_capable b p q (bid # xs) rej =
     (case check_candidate b p q bid of
        Inl e \<Rightarrow> Inl e
      | Inr (Some why) \<Rightarrow> filter_capable b p q xs (dict_put rej bid why)
      | Inr None \<Rightarrow> (case filter_capable b p q xs rej of Inl e \<Rightarrow> Inl e | Inr (ys, rej') \<Rightarrow> Inr (bid # ys, rej')))"

fun filter_healthy ::
  "('g, 'i) brokers \<Rightarrow> string list \<Rightarrow> (string, string) dict \<Rightarrow> string list \<times> (string, string) dict" where
  "filter_healthy b [] rej = ([], rej)"
| "filter_healthy b (bid # xs) rej =
     (if is_usable (get_health b bid) then (case filter_healthy b xs rej of (ys, rej') \<Rightarrow> (bid # ys, rej'))
      else filter_healthy b xs (dict_put rej bid (''unhealthy:'' @ hs_reason (get_health b bid))))"

definition federatable :: "operation_kind \<Rightarrow> bool" where
  "federatable k \<longleftrightarrow> k \<in> set [GET_HISTORICAL_BARS, GET_QUOTES_BATCH, GET_CONTRACT_HISTORICAL]"

definition maybe_parallel :: "string list \<Rightarrow> routing_policy \<Rightarrow> operation_kind \<Rightarrow> string list" where
  "maybe_parallel healthy p k =
     (case rp_max_parallel_sources p of
        None \<Rightarrow> []
      | Some m \<Rightarrow> if federatable k \<and> 1 < m then take (nat m) healthy else [])"

definition operation_to_endpoint_class :: "operation_kind \<Rightarrow> string" where
  "operation_to_endpoint_class k =
     (if k \<in> set [PLACE_ORDER, CANCEL_ORDER, MODIFY_ORDER] then ''orders''
      else if k = GET_HISTORICAL_BARS then ''historical''
      else if k = GET_OPTIONS_HISTORICAL then ''options_historical''
      else if k = GET_CONTRACT_HISTORICAL then ''historical''
      else if k = FETCH_OPTION_CHAIN then ''option_chain''
      else ''quotes'')"

text \<open>The arguments are never empty. Sorting is stable in both directions.\<close>

definition apply_mode ::
  "('g, 'i) brokers \<Rightarrow> (string \<Rightarrow> string \<Rightarrow> rat) option \<Rightarrow> string list \<Rightarrow> routing_policy \<Rightarrow> operation_kind \<Rightarrow>
   string \<times> string list \<times> string list" where
  "apply_mode b headroom healthy p k =
     (let fallbacks = \<lambda>xs. if rp_allow_fallback p then tl xs else [] in
      case rp_mode p of
        FIXED \<Rightarrow> (hd healthy, [], [])
      | PRIORITY_LIST \<Rightarrow> (hd healthy, fallbacks healthy, maybe_parallel healthy p k)
      | CAPABILITY_MATCH \<Rightarrow> (hd healthy, fallbacks healthy, maybe_parallel healthy p k)
      | QUOTA_AWARE \<Rightarrow>
          (case headroom of
             None \<Rightarrow> (hd healthy, fallbacks healthy, [])
           | Some h \<Rightarrow>
               (let scored = sort_key (\<lambda>bid. - h bid (operation_to_endpoint_class k)) healthy in
                (hd scored, fallbacks scored, maybe_parallel scored p k)))
      | LATENCY_AWARE \<Rightarrow>
          (let scored = sort_key (\<lambda>bid. hs_latency_p50_ms (get_health b bid)) healthy in
           (hd scored, fallbacks scored, [])))"

definition build_reason_codes :: "routing_mode \<Rightarrow> string \<Rightarrow> (string, string) dict \<Rightarrow> string list" where
  "build_reason_codes mode primary rej =
     [''mode:'' @ routing_mode_value mode, ''selected:'' @ primary] @
     (if rej = [] then [] else [''rejected_count:'' @ show_nat (length rej)])"

definition route ::
  "('g, 'i) brokers \<Rightarrow> selection_policy \<Rightarrow> (string \<Rightarrow> string \<Rightarrow> rat) option \<Rightarrow> datetime \<Rightarrow> routing_request \<Rightarrow>
   routing_exn + route_decision" where
  "route b pol headroom now q =
     (let p = for_operation_kind pol (rq_operation q) in
      case filter_capable b p q (rp_candidates p) [] of
        Inl e \<Rightarrow> Inl e
      | Inr (capable, rej1) \<Rightarrow>
          (case filter_healthy b capable rej1 of
             (healthy, rej) \<Rightarrow>
               if healthy = [] then Inl (NoRoute (operation_value (rq_operation q)) rej)
               else
                 (case apply_mode b headroom healthy p (rq_operation q) of
                    (primary, fallbacks, parallel) \<Rightarrow>
                      Inr \<lparr>rd_operation = rq_operation q, rd_primary_broker = primary, rd_trace_id = rq_trace_id q,
                           rd_policy_version = sp_policy_version pol, rd_fallback_brokers = fallbacks,
                           rd_parallel_brokers = parallel, rd_reason_codes = build_reason_codes (rp_mode p) primary rej,
                           rd_rejected = rej, rd_decided_at = now\<rparr>)))"

section \<open>Facts about the registry\<close>

lemma dict_keys_put [dict_simps]: "set (dict_keys (dict_put d k v)) = insert k (set (dict_keys d))"
  by (auto simp: dict_keys_def dict_put_def update_keys dom_update)

lemma dict_keys_pop [dict_simps]: "set (dict_keys (dict_pop d k)) = set (dict_keys d) - {k}"
  by (auto simp: dict_keys_def dict_pop_def delete_keys)

lemma dict_get_None_iff: "dict_get d k = None \<longleftrightarrow> k \<notin> set (dict_keys d)"
  by (simp add: dict_get_def dict_keys_def map_of_eq_None_iff)

lemma dict_get_keys: "k \<in> set (dict_keys d) \<longleftrightarrow> (\<exists>v. dict_get d k = Some v)"
  using dict_get_None_iff[of d k] by auto

text \<open>
  Every registered broker has health and capabilities. The converse fails for the capabilities:
  a broker that goes while its refresh is under way keeps an entry.
\<close>

definition brokers_inv :: "('g, 'i) brokers \<Rightarrow> bool" where
  "brokers_inv b \<longleftrightarrow>
     dict_wf (br_gateways b) \<and> dict_wf (br_capabilities b) \<and> dict_wf (br_health b) \<and>
     set (dict_keys (br_health b)) = set (list_brokers b) \<and>
     set (list_brokers b) \<subseteq> set (dict_keys (br_capabilities b))"

lemma brokers_inv_step: "brokers_inv (fst s) \<Longrightarrow> brokers_inv (fst (registry_step s x))"
  by (cases "(s, x)" rule: registry_step.cases)
    (auto simp: brokers_inv_def brokers_register_def brokers_deregister_def update_health_def update_stream_summary_def
      refresh_store_def list_brokers_def dict_simps dict_get_None_iff)

interpretation brokers: invariant_system registry_step "\<lambda>s. brokers_inv (fst s)"
  by unfold_locales (rule brokers_inv_step)

definition no_stale_capabilities :: "('g, 'i) brokers \<times> string list \<Rightarrow> bool" where
  "no_stale_capabilities s \<longleftrightarrow>
     brokers_inv (fst s) \<and> snd s = [] \<and> set (dict_keys (br_capabilities (fst s))) = set (list_brokers (fst s))"

fun no_refresh :: "('g, 'i) registry_op \<Rightarrow> bool" where
  "no_refresh (Refresh_Find bid) = False"
| "no_refresh _ = True"

lemma no_stale_step: "no_stale_capabilities s \<Longrightarrow> no_refresh x \<Longrightarrow> no_stale_capabilities (registry_step s x)"
  using brokers_inv_step[of s x]
  by (cases "(s, x)" rule: registry_step.cases)
    (auto simp: no_stale_capabilities_def brokers_register_def brokers_deregister_def update_health_def update_stream_summary_def
      list_brokers_def dict_simps)

lemma no_stale_refresh: "no_stale_capabilities (b, []) \<Longrightarrow> no_stale_capabilities (refresh_capabilities bid ask b, [])"
  using brokers_inv_step[of "(b, [bid])" "Refresh_Store bid (ask g)" for g]
  by (auto simp: no_stale_capabilities_def refresh_capabilities_def refresh_find_def refresh_store_def list_brokers_def dict_simps
      dict_get_keys insert_absorb split: option.splits)

lemma brokers_inv_new: "brokers_inv brokers_new"
  by (simp add: brokers_inv_def brokers_new_def list_brokers_def dict_keys_def)

lemma no_stale_run: "no_stale_capabilities s \<Longrightarrow> list_all no_refresh xs \<Longrightarrow> no_stale_capabilities (run_ops registry_step s xs)"
  by (induction xs arbitrary: s) (simp_all add: no_stale_step)

text \<open>
  Whatever happens to the registry, and however refreshes are interleaved, a listed broker
  has a usable answer for its capabilities and its health; without a refresh in between the
  brokers with capabilities are the registered ones, so searching by a feature finds registered
  brokers only. A refresh that another thread's removal overtakes leaves a removed broker in
  the answer of the search.
\<close>

theorem registry_stays_consistent:
  "let b = fst (run_ops registry_step (brokers_new, []) ops) in
   (\<forall>bid \<in> set (list_brokers b). is_ok (get_capabilities b bid) \<and> dict_get (br_health b) bid \<noteq> None) \<and>
   set (dict_keys (br_health b)) = set (list_brokers b) \<and>
   (list_all no_refresh ops \<longrightarrow> set (find_brokers p b) \<subseteq> set (list_brokers b))"
proof -
  let ?s = "run_ops registry_step (brokers_new, []) ops"
  have i: "brokers_inv (fst ?s)" using brokers.inv_run[of "(brokers_new, [])" ops] brokers_inv_new by simp
  have "set (find_brokers p (fst ?s)) \<subseteq> set (list_brokers (fst ?s))" if "list_all no_refresh ops"
  proof -
    have "no_stale_capabilities (brokers_new :: ('a, 'b) brokers, [])"
      using brokers_inv_new by (simp add: no_stale_capabilities_def) (simp add: brokers_new_def list_brokers_def dict_keys_def)
    from no_stale_run[OF this that] show ?thesis
      by (auto simp: no_stale_capabilities_def find_brokers_def dict_keys_def)
  qed
  moreover have "is_ok (get_capabilities (fst ?s) bid)" "dict_get (br_health (fst ?s)) bid \<noteq> None"
    if "bid \<in> set (list_brokers (fst ?s))" for bid
  proof -
    have "bid \<in> set (dict_keys (br_capabilities (fst ?s)))" "bid \<in> set (dict_keys (br_health (fst ?s)))"
      using that i by (auto simp: brokers_inv_def)
    then show "is_ok (get_capabilities (fst ?s) bid)" "dict_get (br_health (fst ?s)) bid \<noteq> None"
      by (auto simp: get_capabilities_def dict_get_keys)
  qed
  moreover have "set (dict_keys (br_health (fst ?s))) = set (list_brokers (fst ?s))" using i by (simp add: brokers_inv_def)
  ultimately show ?thesis unfolding Let_def by (intro conjI ballI impI) blast+
qed

definition sample_capabilities :: "string \<Rightarrow> string list \<Rightarrow> capabilities" where
  "sample_capabilities bid fs =
     \<lparr>cp_broker_id = bid, cp_features = fs, cp_rate_limit_profiles = [], cp_historical_windows = [],
      cp_historical_routes = [], cp_market_surfaces = [], cp_max_batch_size = 1\<rparr>"

lemma registry_stays_consistent_witness:
  "set (find_brokers (\<lambda>c. supports c ''news'')
      (fst (run_ops registry_step (brokers_new :: (nat, nat) brokers, [])
         [Register ''upstox'' 1 (sample_capabilities ''upstox'' [''news'']) None, Deregister ''upstox'']))) \<subseteq> {}"
proof -
  let ?ops = "[Register ''upstox'' 1 (sample_capabilities ''upstox'' [''news'']) None, Deregister ''upstox''] :: (nat, nat) registry_op list"
  have "list_brokers (fst (run_ops registry_step (brokers_new :: (nat, nat) brokers, []) ?ops)) = []" by code_simp
  then show ?thesis
    using registry_stays_consistent[of ?ops "\<lambda>c. supports c ''news''"] by (simp add: Let_def)
qed

text \<open>The race that the theorem excludes, and the bundle that stays when a broker goes.\<close>

lemma refresh_race_finds_removed_broker:
  "let b = fst (run_ops registry_step (brokers_new :: (nat, nat) brokers, [])
      [Register ''upstox'' 1 (sample_capabilities ''upstox'' [''news'']) None, Refresh_Find ''upstox'', Deregister ''upstox'',
       Refresh_Store ''upstox'' (sample_capabilities ''upstox'' [''news''])]) in
   list_brokers b = [] \<and> find_brokers (\<lambda>c. supports c ''news'') b = [''upstox'']"
  by code_simp

lemma deregister_keeps_extensions:
  "extension_require (br_extensions (brokers_deregister bid b)) bid t = extension_require (br_extensions b) bid t"
  by (simp add: brokers_deregister_def)

section \<open>Facts about the router\<close>

definition capable :: "('g, 'i) brokers \<Rightarrow> routing_policy \<Rightarrow> routing_request \<Rightarrow> string \<Rightarrow> bool" where
  "capable b p q bid \<longleftrightarrow> bid \<in> set (list_brokers b) \<and>
     (\<forall>c. dict_get (br_capabilities b) bid = Some c \<longrightarrow>
        (\<forall>f \<in> set (rq_required_features q) \<union> set (rp_required_features p). supports c f) \<and>
        (case rq_route_lane q of None \<Rightarrow> True | Some l \<Rightarrow> can_serve_lane c l (rq_entitlements q)))"

definition eligible :: "('g, 'i) brokers \<Rightarrow> routing_policy \<Rightarrow> routing_request \<Rightarrow> string \<Rightarrow> bool" where
  "eligible b p q bid \<longleftrightarrow> capable b p q bid \<and> is_usable (get_health b bid)"

lemma missing_features_Nil: "missing_features c fs = [] \<longleftrightarrow> (\<forall>f \<in> set fs. supports c f)"
  by (simp add: missing_features_def filter_empty_conv)

lemma check_candidate_iff:
  assumes "brokers_inv b"
  obtains "check_candidate b p q bid = Inr None" "capable b p q bid"
  | why where "check_candidate b p q bid = Inr (Some why)" "\<not> capable b p q bid"
proof (cases "bid \<in> set (list_brokers b)")
  case True
  with assms obtain c where c: "dict_get (br_capabilities b) bid = Some c"
    by (auto simp: brokers_inv_def dict_get_keys subset_iff)
  then have g: "get_capabilities b bid = Inr c" by (simp add: get_capabilities_def)
  show thesis
  proof (cases "check_candidate b p q bid = Inr None")
    case t: True
    then have "capable b p q bid" using True c g
      by (auto simp: check_candidate_def capable_def missing_features_Nil split: if_splits option.splits)
    then show thesis using t that by blast
  next
    case f: False
    then have "\<exists>why. check_candidate b p q bid = Inr (Some why)" "\<not> capable b p q bid" using True c g
      by (auto simp: check_candidate_def capable_def missing_features_Nil split: if_splits option.splits)
    then show thesis using that by blast
  qed
next
  case False
  then show thesis using that by (auto simp: check_candidate_def capable_def)
qed

lemma filter_capable_spec:
  assumes "brokers_inv b"
  shows "\<exists>rej'. filter_capable b p q xs rej = Inr (filter (capable b p q) xs, rej') \<and>
     set (dict_keys rej') = set (dict_keys rej) \<union> {x \<in> set xs. \<not> capable b p q x}"
proof (induction xs arbitrary: rej)
  case (Cons bid xs)
  show ?case
  proof (rule check_candidate_iff[OF assms, of p q bid])
    assume "check_candidate b p q bid = Inr None" "capable b p q bid"
    then show ?thesis using Cons[of rej] by auto
  next
    fix why assume "check_candidate b p q bid = Inr (Some why)" "\<not> capable b p q bid"
    then show ?thesis using Cons[of "dict_put rej bid why"] by (auto simp: dict_simps)
  qed
qed simp

lemma filter_healthy_spec:
  "\<exists>rej'. filter_healthy b xs rej = (filter (\<lambda>x. is_usable (get_health b x)) xs, rej') \<and>
     set (dict_keys rej') = set (dict_keys rej) \<union> {x \<in> set xs. \<not> is_usable (get_health b x)}"
proof (induction xs arbitrary: rej)
  case (Cons bid xs)
  show ?case
    using Cons[of rej] Cons[of "dict_put rej bid (''unhealthy:'' @ hs_reason (get_health b bid))"]
    by (auto simp: dict_simps)
qed simp

text \<open>The candidates that may be chosen, and the two outcomes of routing over them.\<close>

lemma route_cases:
  fixes b :: "('g, 'i) brokers" and pol :: selection_policy and q :: routing_request
  assumes "brokers_inv b"
  defines "p \<equiv> for_operation_kind pol (rq_operation q)"
  defines "ok \<equiv> filter (eligible b p q) (rp_candidates p)"
  obtains rej where "set (dict_keys rej) = {x \<in> set (rp_candidates p). \<not> eligible b p q x}"
    "ok = []" "route b pol headroom now q = Inl (NoRoute (operation_value (rq_operation q)) rej)"
  | rej d where "set (dict_keys rej) = {x \<in> set (rp_candidates p). \<not> eligible b p q x}"
    "ok \<noteq> []" "route b pol headroom now q = Inr d" "rd_rejected d = rej" "rd_operation d = rq_operation q"
    "apply_mode b headroom ok p (rq_operation q) = (rd_primary_broker d, rd_fallback_brokers d, rd_parallel_brokers d)"
proof -
  obtain rej1 where r1: "filter_capable b p q (rp_candidates p) [] = Inr (filter (capable b p q) (rp_candidates p), rej1)"
    "set (dict_keys rej1) = {x \<in> set (rp_candidates p). \<not> capable b p q x}"
    using filter_capable_spec[OF assms(1), of p q "rp_candidates p" "[]"] by (auto simp: dict_keys_def)
  obtain rej where r2: "filter_healthy b (filter (capable b p q) (rp_candidates p)) rej1 = (ok, rej)"
    "set (dict_keys rej) = {x \<in> set (rp_candidates p). \<not> eligible b p q x}"
  proof -
    have ok: "filter (\<lambda>x. is_usable (get_health b x)) (filter (capable b p q) (rp_candidates p)) = ok"
      by (auto simp: ok_def eligible_def conj_commute intro!: filter_cong)
    obtain rej where "filter_healthy b (filter (capable b p q) (rp_candidates p)) rej1 = (ok, rej)"
      "set (dict_keys rej) = set (dict_keys rej1) \<union> {x \<in> set (filter (capable b p q) (rp_candidates p)). \<not> is_usable (get_health b x)}"
      using filter_healthy_spec[of b "filter (capable b p q) (rp_candidates p)" rej1] unfolding ok by blast
    moreover from this(2) have "set (dict_keys rej) = {x \<in> set (rp_candidates p). \<not> eligible b p q x}"
      unfolding r1(2) by (auto simp: eligible_def)
    ultimately show thesis using that by blast
  qed
  obtain pr fb pa where m: "apply_mode b headroom ok p (rq_operation q) = (pr, fb, pa)" by (cases "apply_mode b headroom ok p (rq_operation q)")
  let ?d = "\<lparr>rd_operation = rq_operation q, rd_primary_broker = pr, rd_trace_id = rq_trace_id q,
     rd_policy_version = sp_policy_version pol, rd_fallback_brokers = fb, rd_parallel_brokers = pa,
     rd_reason_codes = build_reason_codes (rp_mode p) pr rej, rd_rejected = rej, rd_decided_at = now\<rparr>"
  show thesis
  proof (cases "ok = []")
    case True
    then show thesis using that(1)[OF r2(2)] r1(1) r2(1) by (simp add: route_def Let_def p_def[symmetric])
  next
    case False
    then have "route b pol headroom now q = Inr ?d" using r1(1) r2(1) m by (simp add: route_def Let_def p_def[symmetric])
    from that(2)[OF r2(2) False this] m show thesis by simp
  qed
qed

text \<open>What each mode makes of the candidates that may be chosen.\<close>

lemma sort_key_hd_le: "x \<in> set xs \<Longrightarrow> f (hd (sort_key f xs)) \<le> f x"
proof -
  assume x: "x \<in> set xs"
  then have "sort_key f xs \<noteq> []" "x \<in> set (sort_key f xs)" by (auto dest: arg_cong[where f = set])
  then show ?thesis using sorted_sort_key[of f xs] by (cases "sort_key f xs") auto
qed

lemma sort_key_Nil_iff [simp]: "sort_key f xs = [] \<longleftrightarrow> xs = []"
  using length_sort[of f xs] by (cases "sort_key f xs"; cases xs) simp_all

lemma apply_mode_spec:
  assumes "apply_mode b headroom ok p k = (pr, fb, pa)" "ok \<noteq> []"
  shows "mset (pr # fb) \<subseteq># mset ok" "rp_allow_fallback p \<and> rp_mode p \<noteq> FIXED \<longrightarrow> mset (pr # fb) = mset ok"
    "set pa \<subseteq> set ok" "\<not> rp_allow_fallback p \<or> rp_mode p = FIXED \<longrightarrow> fb = []" "pa \<noteq> [] \<longrightarrow> federatable k"
    "case rp_mode p of
       LATENCY_AWARE \<Rightarrow> \<forall>x \<in> set ok. hs_latency_p50_ms (get_health b pr) \<le> hs_latency_p50_ms (get_health b x)
     | QUOTA_AWARE \<Rightarrow>
         (case headroom of
            None \<Rightarrow> pr = hd ok
          | Some h \<Rightarrow> \<forall>x \<in> set ok. h x (operation_to_endpoint_class k) \<le> h pr (operation_to_endpoint_class k))
     | _ \<Rightarrow> pr = hd ok"
proof -
  have part: "{#hd xs#} \<subseteq># mset xs" "add_mset (hd xs) (mset (tl xs)) = mset xs" if "xs \<noteq> []" for xs :: "string list"
    using that by (cases xs; simp)+
  note parts = part[OF assms(2)] part[of "sort_key f ok" for f, simplified, OF assms(2)] hd_in_set[OF assms(2)]
  have par: "set (maybe_parallel xs p k) \<subseteq> set xs" "maybe_parallel xs p k \<noteq> [] \<Longrightarrow> federatable k" for xs
    by (auto simp: maybe_parallel_def dest: in_set_takeD split: option.splits if_splits)
  note d = assms(1)[unfolded apply_mode_def Let_def]
  have quota: "h x c \<le> h (hd (sort_key (\<lambda>x. - h x c) ok)) c" if "x \<in> set ok" for h :: "string \<Rightarrow> string \<Rightarrow> rat" and x c
    using sort_key_hd_le[OF that, of "\<lambda>x. - h x c"] by simp
  show "mset (pr # fb) \<subseteq># mset ok" "rp_allow_fallback p \<and> rp_mode p \<noteq> FIXED \<longrightarrow> mset (pr # fb) = mset ok"
    using d by (auto simp: parts split: routing_mode.splits option.splits if_splits)
  show "set pa \<subseteq> set ok" "pa \<noteq> [] \<longrightarrow> federatable k"
    using d par[of ok] par[of "sort_key f ok" for f] by (fastforce split: routing_mode.splits option.splits if_splits)+
  show "\<not> rp_allow_fallback p \<or> rp_mode p = FIXED \<longrightarrow> fb = []"
    using d by (auto split: routing_mode.splits option.splits if_splits)
  show "case rp_mode p of
       LATENCY_AWARE \<Rightarrow> \<forall>x \<in> set ok. hs_latency_p50_ms (get_health b pr) \<le> hs_latency_p50_ms (get_health b x)
     | QUOTA_AWARE \<Rightarrow>
         (case headroom of
            None \<Rightarrow> pr = hd ok
          | Some h \<Rightarrow> \<forall>x \<in> set ok. h x (operation_to_endpoint_class k) \<le> h pr (operation_to_endpoint_class k))
     | _ \<Rightarrow> pr = hd ok"
    using d sort_key_hd_le[of _ ok "\<lambda>x. hs_latency_p50_ms (get_health b x)"]
    by (auto intro: quota split: routing_mode.splits option.splits if_splits)
qed

text \<open>
  C11: the router is sound and complete. Over a consistent registry it fails exactly when no
  candidate of the policy is registered, capable of what the request and the policy ask for,
  eligible for the lane and healthy; it then names every candidate with a reason. Otherwise the
  primary broker and its fallbacks are such candidates, each at most as often as it is listed,
  and all of them when the policy allows fallbacks; the parallel ones are too, and exist only
  for operations that may be split. The primary broker is the first candidate, the one of
  least latency, or the one of most quota.
\<close>

theorem route_chooses_eligible:
  "brokers_inv b \<longrightarrow>
   (let p = for_operation_kind pol (rq_operation q); ok = filter (eligible b p q) (rp_candidates p); k = rq_operation q in
    case route b pol headroom now q of
      Inl e \<Rightarrow> ok = [] \<and> (\<exists>rej. e = NoRoute (operation_value k) rej \<and> set (dict_keys rej) = set (rp_candidates p))
    | Inr d \<Rightarrow> ok \<noteq> [] \<and> mset (rd_primary_broker d # rd_fallback_brokers d) \<subseteq># mset ok \<and>
        (rp_allow_fallback p \<and> rp_mode p \<noteq> FIXED \<longrightarrow> mset (rd_primary_broker d # rd_fallback_brokers d) = mset ok) \<and>
        set (rd_parallel_brokers d) \<subseteq> set ok \<and> (rd_parallel_brokers d \<noteq> [] \<longrightarrow> federatable k) \<and>
        set (dict_keys (rd_rejected d)) = set (rp_candidates p) - set ok \<and>
        (case rp_mode p of
           LATENCY_AWARE \<Rightarrow>
             \<forall>x \<in> set ok. hs_latency_p50_ms (get_health b (rd_primary_broker d)) \<le> hs_latency_p50_ms (get_health b x)
         | QUOTA_AWARE \<Rightarrow>
             (case headroom of
                None \<Rightarrow> rd_primary_broker d = hd ok
              | Some h \<Rightarrow> \<forall>x \<in> set ok. h x (operation_to_endpoint_class k) \<le> h (rd_primary_broker d) (operation_to_endpoint_class k))
         | _ \<Rightarrow> rd_primary_broker d = hd ok))"
proof (intro impI)
  assume inv: "brokers_inv b"
  let ?p = "for_operation_kind pol (rq_operation q)"
  let ?ok = "filter (eligible b ?p q) (rp_candidates ?p)"
  from inv show "let p = for_operation_kind pol (rq_operation q); ok = filter (eligible b p q) (rp_candidates p); k = rq_operation q in
    case route b pol headroom now q of
      Inl e \<Rightarrow> ok = [] \<and> (\<exists>rej. e = NoRoute (operation_value k) rej \<and> set (dict_keys rej) = set (rp_candidates p))
    | Inr d \<Rightarrow> ok \<noteq> [] \<and> mset (rd_primary_broker d # rd_fallback_brokers d) \<subseteq># mset ok \<and>
        (rp_allow_fallback p \<and> rp_mode p \<noteq> FIXED \<longrightarrow> mset (rd_primary_broker d # rd_fallback_brokers d) = mset ok) \<and>
        set (rd_parallel_brokers d) \<subseteq> set ok \<and> (rd_parallel_brokers d \<noteq> [] \<longrightarrow> federatable k) \<and>
        set (dict_keys (rd_rejected d)) = set (rp_candidates p) - set ok \<and>
        (case rp_mode p of
           LATENCY_AWARE \<Rightarrow>
             \<forall>x \<in> set ok. hs_latency_p50_ms (get_health b (rd_primary_broker d)) \<le> hs_latency_p50_ms (get_health b x)
         | QUOTA_AWARE \<Rightarrow>
             (case headroom of
                None \<Rightarrow> rd_primary_broker d = hd ok
              | Some h \<Rightarrow> \<forall>x \<in> set ok. h x (operation_to_endpoint_class k) \<le> h (rd_primary_broker d) (operation_to_endpoint_class k))
         | _ \<Rightarrow> rd_primary_broker d = hd ok)"
  proof (cases rule: route_cases[of b pol q headroom now])
    case (1 rej)
    then show ?thesis by (auto simp: Let_def filter_empty_conv)
  next
    case (2 rej d)
    note m = apply_mode_spec[OF 2(6) 2(2)]
    show ?thesis unfolding Let_def 2(3) sum.case using 2(1,2,4) m by (intro conjI) (auto simp: Let_def)
  qed
qed

definition sample_brokers :: "(nat, nat) brokers" where
  "sample_brokers =
     brokers_register ''upstox'' 2 (sample_capabilities ''upstox'' (order_features @ [''live_market_data''])) None
       (brokers_register ''dhan'' 1 (sample_capabilities ''dhan'' (order_features @ [''live_market_data''])) None brokers_new)"

lemma sample_brokers_inv: "brokers_inv sample_brokers"
  by (simp add: brokers_inv_def sample_brokers_def) code_simp

lemma route_chooses_eligible_witness:
  "case route sample_brokers multi_broker_redundant_policy None (Naive 0) (routing_request_new GET_QUOTE ''t'') of
     Inl e \<Rightarrow> False | Inr d \<Rightarrow> mset (rd_primary_broker d # rd_fallback_brokers d) = mset [''dhan'', ''upstox'']"
proof -
  let ?p = "for_operation_kind multi_broker_redundant_policy GET_QUOTE"
  have ok: "filter (eligible sample_brokers ?p (routing_request_new GET_QUOTE ''t'')) (rp_candidates ?p) = [''dhan'', ''upstox'']"
    "rp_allow_fallback ?p" "rp_mode ?p = PRIORITY_LIST"
    by (simp_all add: for_operation_kind_def multi_broker_redundant_policy_def routing_policy_new_def eligible_def capable_def
        sample_brokers_def brokers_register_def brokers_new_def list_brokers_def get_health_def routing_request_new_def
        dict_simps dict_keys_def dict_put_def supports_def sample_capabilities_def order_features_def feature_names_def
        is_usable_def health_new_def dict_get_def)
  show ?thesis
    using route_chooses_eligible[of sample_brokers multi_broker_redundant_policy "routing_request_new GET_QUOTE ''t''" None "Naive 0"]
      sample_brokers_inv ok
    by (auto simp: Let_def routing_request_new_def split: sum.splits)
qed

text \<open>The policies that fix one broker for the orders.\<close>

definition one_account_policies :: "string \<Rightarrow> string \<Rightarrow> selection_policy list" where
  "one_account_policies account version =
     [default_dhan_only_policy version, default_upstox_only_policy version, sandbox_source_selection_policy,
      auto_dual_broker_policy account version, default_source_selection_policy, upstox_primary_source_selection_policy]"

lemmas policy_defs = default_dhan_only_policy_def default_upstox_only_policy_def sandbox_source_selection_policy_def
  single_broker_policy_def auto_dual_broker_policy_def default_source_selection_policy_def
  upstox_primary_source_selection_policy_def multi_broker_redundant_policy_def routing_policy_new_def

text \<open>
  On which account an order is executed. Under every policy that fixes one broker, an
  execution operation goes to the execution account alone or nowhere. The router itself never
  reads the execution account: under the redundant policy, whose account is Dhan, an order goes
  to Upstox as soon as Dhan is not eligible. And positions, margins, orders and trades are not
  execution operations: under the default policy they are then read from Upstox, while orders
  are refused.
\<close>

theorem execution_account_not_enforced:
  "brokers_inv b \<longrightarrow>
   (\<forall>pol \<in> set (one_account_policies account version). is_execution (rq_operation q) \<longrightarrow>
      (case route b pol headroom now q of
         Inl e \<Rightarrow> True
       | Inr d \<Rightarrow> Some (rd_primary_broker d) = rp_execution_account (sp_execution pol) \<and>
           rd_fallback_brokers d = [] \<and> rd_parallel_brokers d = [])) \<and>
   (\<not> is_usable (get_health b ''dhan'') \<longrightarrow>
      (is_execution (rq_operation q) \<and> eligible b (sp_execution multi_broker_redundant_policy) q ''upstox'' \<longrightarrow>
         (\<exists>d. route b multi_broker_redundant_policy headroom now q = Inr d \<and> rd_primary_broker d = ''upstox'' \<and>
            rp_execution_account (sp_execution multi_broker_redundant_policy) = Some ''dhan'')) \<and>
      (rq_operation q \<in> set [GET_POSITIONS, GET_MARGINS, GET_ORDERS, GET_TRADES] \<and>
       eligible b (sp_instrument_metadata default_source_selection_policy) q ''upstox'' \<longrightarrow>
         (\<exists>d. route b default_source_selection_policy headroom now q = Inr d \<and> rd_primary_broker d = ''upstox'') \<and>
         (\<exists>e. route b default_source_selection_policy headroom now (q\<lparr>rq_operation := PLACE_ORDER\<rparr>) = Inl e)))"
proof (intro impI conjI ballI)
  fix pol
  assume inv: "brokers_inv b" and pol: "pol \<in> set (one_account_policies account version)" and ex: "is_execution (rq_operation q)"
  have p: "for_operation_kind pol (rq_operation q) = sp_execution pol" using ex by (auto simp: for_operation_kind_def is_execution_def)
  have e: "rp_mode (sp_execution pol) = FIXED" "\<exists>a. rp_candidates (sp_execution pol) = [a] \<and> rp_execution_account (sp_execution pol) = Some a"
    "rp_max_parallel_sources (sp_execution pol) = None"
    using pol by (auto simp: one_account_policies_def policy_defs Let_def)
  from inv show "case route b pol headroom now q of
         Inl e \<Rightarrow> True
       | Inr d \<Rightarrow> Some (rd_primary_broker d) = rp_execution_account (sp_execution pol) \<and>
           rd_fallback_brokers d = [] \<and> rd_parallel_brokers d = []"
  proof (cases rule: route_cases[of b pol q headroom now])
    case (2 rej d)
    then show ?thesis using e by (auto simp: p apply_mode_def split: if_splits)
  qed simp
next
  assume inv: "brokers_inv b" and dhan: "\<not> is_usable (get_health b ''dhan'')"
    and ex: "is_execution (rq_operation q) \<and> eligible b (sp_execution multi_broker_redundant_policy) q ''upstox''"
  have p: "for_operation_kind multi_broker_redundant_policy (rq_operation q) = sp_execution multi_broker_redundant_policy"
    using ex by (auto simp: for_operation_kind_def is_execution_def)
  have e: "rp_mode (sp_execution multi_broker_redundant_policy) = PRIORITY_LIST"
    "rp_candidates (sp_execution multi_broker_redundant_policy) = [''dhan'', ''upstox'']"
    "rp_execution_account (sp_execution multi_broker_redundant_policy) = Some ''dhan''"
    by (simp_all add: policy_defs)
  from inv show "\<exists>d. route b multi_broker_redundant_policy headroom now q = Inr d \<and> rd_primary_broker d = ''upstox'' \<and>
            rp_execution_account (sp_execution multi_broker_redundant_policy) = Some ''dhan''"
  proof (cases rule: route_cases[of b multi_broker_redundant_policy q headroom now])
    case (1 rej)
    then show ?thesis using ex by (auto simp: p e split: if_splits)
  next
    case (2 rej d)
    then show ?thesis using ex dhan e by (auto simp: p apply_mode_def eligible_def)
  qed
next
  assume inv: "brokers_inv b" and dhan: "\<not> is_usable (get_health b ''dhan'')"
    and ex: "rq_operation q \<in> set [GET_POSITIONS, GET_MARGINS, GET_ORDERS, GET_TRADES] \<and>
       eligible b (sp_instrument_metadata default_source_selection_policy) q ''upstox''"
  let ?p = "sp_instrument_metadata default_source_selection_policy"
  have p: "for_operation_kind default_source_selection_policy (rq_operation q) = ?p"
    using ex by (auto simp: for_operation_kind_def)
  have e: "rp_mode ?p = PRIORITY_LIST" "rp_candidates ?p = [''dhan'', ''upstox'']" by (simp_all add: policy_defs)
  from inv show "\<exists>d. route b default_source_selection_policy headroom now q = Inr d \<and> rd_primary_broker d = ''upstox''"
  proof (cases rule: route_cases[of b default_source_selection_policy q headroom now])
    case (1 rej)
    then show ?thesis using ex by (auto simp: p e split: if_splits)
  next
    case (2 rej d)
    then show ?thesis using ex dhan e by (auto simp: p apply_mode_def eligible_def)
  qed
  let ?q = "q\<lparr>rq_operation := PLACE_ORDER\<rparr>"
  have c: "rp_candidates (for_operation_kind default_source_selection_policy PLACE_ORDER) = [''dhan'']"
    by (simp add: for_operation_kind_def policy_defs)
  from inv show "\<exists>e. route b default_source_selection_policy headroom now ?q = Inl e"
  proof (cases rule: route_cases[of b default_source_selection_policy ?q headroom now])
    case (2 rej d)
    then show ?thesis using dhan by (simp add: c eligible_def)
  qed simp
qed

lemma execution_account_not_enforced_witness:
  "\<exists>d. route (update_health (health_new ''dhan'' False ''down'') sample_brokers) multi_broker_redundant_policy None (Naive 0)
        (routing_request_new PLACE_ORDER ''t'') = Inr d \<and> rd_primary_broker d = ''upstox''"
proof -
  let ?b = "update_health (health_new ''dhan'' False ''down'') sample_brokers"
  have "brokers_inv ?b" using brokers_inv_step[of "(sample_brokers, [])" "Set_Health (health_new ''dhan'' False ''down'')"] sample_brokers_inv
    by simp
  moreover have "\<not> is_usable (get_health ?b ''dhan'')" by code_simp
  moreover have "eligible ?b (sp_execution multi_broker_redundant_policy) (routing_request_new PLACE_ORDER ''t'') ''upstox''"
    by (simp add: policy_defs eligible_def capable_def update_health_def
        sample_brokers_def brokers_register_def brokers_new_def list_brokers_def get_health_def routing_request_new_def
        dict_simps dict_keys_def dict_put_def supports_def sample_capabilities_def order_features_def feature_names_def
        is_usable_def health_new_def dict_get_def)
  ultimately show ?thesis
    using execution_account_not_enforced[of ?b "[]" "[]" "routing_request_new PLACE_ORDER ''t''" None "Naive 0"]
    by (auto simp: routing_request_new_def is_execution_def)
qed

end
