(* ===== verification/Historical_Data.thy ===== *)
theory Historical_Data
  imports Broker_Routing
begin

text \<open>
  Federated historical data: planning of chunks (\<open>application/data/chunk_planner.py\<close>), merging
  (\<open>chunk_merger.py\<close>), gaps (\<open>gap_detector.py\<close>), the ledger (\<open>provenance.py\<close>) and the
  coordinator (\<open>historical_coordinator.py\<close>), over the bars of \<open>domain/candles/historical.py\<close> and
  their provenance (\<open>domain/provenance.py\<close>). A date is its ordinal number, without the limits
  of the calendar. A time with a zone is its instant in microseconds and the offset of its zone.
  What routing, the registry and the brokers answer, the drawn ids and the calendar of trading
  days are arguments; latencies and times of recording are left out.
\<close>

section \<open>Bars and their provenance\<close>

datatype confidence = AUTHORITATIVE | DERIVED | MERGED | FALLBACK

record provenance =
  pv_broker_id :: string
  pv_account_id :: "string option"
  pv_connection_id :: "string option"
  pv_fetched_at :: int
  pv_request_id :: string
  pv_confidence :: confidence
  pv_transformations :: "string list"

definition with_transformation :: "provenance \<Rightarrow> string \<Rightarrow> provenance" where
  "with_transformation p x = p\<lparr>pv_transformations := pv_transformations p @ [x]\<rparr>"

definition as_merged :: "provenance \<Rightarrow> provenance" where
  "as_merged p = p\<lparr>pv_confidence := MERGED\<rparr>"

definition as_fallback :: "provenance \<Rightarrow> provenance" where
  "as_fallback p = p\<lparr>pv_confidence := FALLBACK\<rparr>"

record bar =
  hb_symbol :: string
  hb_exchange :: string
  hb_timeframe :: string
  hb_instant :: int
  hb_offset :: int
  hb_open :: rat
  hb_high :: rat
  hb_low :: rat
  hb_close :: rat
  hb_volume :: int
  hb_provenance :: provenance
  hb_open_interest :: int
  hb_bar_index :: int
  hb_is_partial :: bool
  hb_close_time :: "int option"
  hb_tick_count :: int
  hb_extras :: "(string \<times> string) list"

text \<open>\<open>event_time.date()\<close>, in the zone of the bar.\<close>

definition bar_date :: "bar \<Rightarrow> int" where
  "bar_date b = (hb_instant b + hb_offset b) div (86400 * 10 ^ 6)"

definition instrument_text :: "string \<Rightarrow> string \<Rightarrow> string" where
  "instrument_text symb exch = symb @ '':'' @ exch"

text \<open>The copy that marks a bar as a fallback leaves these three fields at their defaults.\<close>

definition fallback_bar :: "bar \<Rightarrow> bar" where
  "fallback_bar b =
     b\<lparr>hb_provenance := as_fallback (hb_provenance b), hb_close_time := None, hb_tick_count := 0, hb_extras := []\<rparr>"

record gap =
  gp_start :: int
  gp_end :: int
  gp_reason :: string

section \<open>The ledger\<close>

record chunk_record =
  cr_chunk_id :: string
  cr_broker_id :: string
  cr_from_date :: int
  cr_to_date :: int
  cr_timeframe :: string
  cr_bars_fetched :: nat
  cr_error :: "string option"

definition chunk_succeeded :: "chunk_record \<Rightarrow> bool" where
  "chunk_succeeded c \<longleftrightarrow> cr_error c = None"

record bar_range =
  bg_start :: nat
  bg_end :: nat
  bg_chunk_id :: string
  bg_broker_id :: string

record conflict =
  cf_instant :: int
  cf_instrument :: string
  cf_timeframe :: string
  cf_primary_broker :: string
  cf_secondary_broker :: string
  cf_primary_close :: rat
  cf_secondary_close :: rat
  cf_delta_pct :: rat
  cf_resolution :: string

record ledger =
  pl_request_id :: string
  pl_instrument :: string
  pl_timeframe :: string
  pl_chunks :: "chunk_record list"
  pl_bar_ranges :: "bar_range list"
  pl_conflicts :: "conflict list"
  pl_merge_strategy :: string
  pl_degraded :: bool
  pl_degraded_reason :: string

definition ledger_new :: "string \<Rightarrow> string \<Rightarrow> string \<Rightarrow> string \<Rightarrow> ledger" where
  "ledger_new request instrument tf strategy =
     \<lparr>pl_request_id = request, pl_instrument = instrument, pl_timeframe = tf, pl_chunks = [], pl_bar_ranges = [],
      pl_conflicts = [], pl_merge_strategy = strategy, pl_degraded = False, pl_degraded_reason = []\<rparr>"

definition add_chunk :: "chunk_record \<Rightarrow> ledger \<Rightarrow> ledger" where
  "add_chunk c l = l\<lparr>pl_chunks := pl_chunks l @ [c]\<rparr>"

definition add_bar_ranges :: "bar_range list \<Rightarrow> ledger \<Rightarrow> ledger" where
  "add_bar_ranges rs l = l\<lparr>pl_bar_ranges := pl_bar_ranges l @ rs\<rparr>"

definition add_conflicts :: "conflict list \<Rightarrow> ledger \<Rightarrow> ledger" where
  "add_conflicts cs l = l\<lparr>pl_conflicts := pl_conflicts l @ cs\<rparr>"

definition mark_degraded :: "string \<Rightarrow> ledger \<Rightarrow> ledger" where
  "mark_degraded why l = l\<lparr>pl_degraded := True, pl_degraded_reason := why\<rparr>"

definition brokers_used :: "ledger \<Rightarrow> string set" where
  "brokers_used l = cr_broker_id ` set (filter chunk_succeeded (pl_chunks l))"

definition failed_chunks :: "ledger \<Rightarrow> chunk_record list" where
  "failed_chunks l = filter (\<lambda>c. \<not> chunk_succeeded c) (pl_chunks l)"

definition total_bars :: "ledger \<Rightarrow> nat" where
  "total_bars l = sum_list (map cr_bars_fetched (filter chunk_succeeded (pl_chunks l)))"

section \<open>Planning\<close>

record chunk_plan =
  ch_chunk_id :: string
  ch_broker_id :: string
  ch_from_date :: int
  ch_to_date :: int
  ch_timeframe :: string
  ch_request_id :: string
  ch_is_fallback :: bool

record hist_query =
  hq_symbol :: string
  hq_exchange :: string
  hq_timeframe :: string
  hq_from_date :: int
  hq_to_date :: int
  hq_merge_strategy :: string
  hq_tolerance :: rat
  hq_request_id :: "string option"

text \<open>
  The loop over one range. With a chunk of no days it never ends; with a negative one it walks
  back until the calendar ends, which has no limit here.
\<close>

partial_function (option) split_chunks :: "int \<Rightarrow> int \<Rightarrow> int \<Rightarrow> (int \<times> int) list option" where
  "split_chunks max_chunk current to_d =
     (if to_d < current then Some []
      else
        (let end_d = min (current + (max_chunk - 1)) to_d in
         Option.bind (split_chunks max_chunk (end_d + 1) to_d) (\<lambda>cs. Some ((current, end_d) # cs))))"

text \<open>The lookback of each broker that has a window for the timeframe; a broker that is listed twice counts once.\<close>

definition broker_windows :: "(string \<Rightarrow> routing_exn + capabilities) \<Rightarrow> string \<Rightarrow> string list \<Rightarrow> (string, int) dict" where
  "broker_windows caps tf bids =
     foldl (\<lambda>d bid.
        case caps bid of
          Inl e \<Rightarrow> d
        | Inr c \<Rightarrow>
            (case historical_window_for c tf of
               None \<Rightarrow> d
             | Some w \<Rightarrow> if supports c ''historical_data'' then dict_put d bid (hw_max_lookback_days w) else d)) [] bids"

declare split_chunks.simps [code]

text \<open>With several brokers: the recent days for the one that looks back least, the older ones for the one that looks back most.\<close>

definition split_between :: "string \<times> int \<Rightarrow> string \<times> int \<Rightarrow> int \<Rightarrow> int \<Rightarrow> int \<Rightarrow> (string, int \<times> int) dict" where
  "split_between short long from_d to_d today =
     (let short_from = max from_d (today - snd short);
          r1 = (if short_from \<le> to_d then [(fst short, (short_from, to_d))] else []);
          long_to = short_from - 1; long_from = max from_d (today - snd long) in
      if long_from \<le> long_to then dict_put r1 (fst long) (long_from, long_to) else r1)"

definition partition_ranges ::
  "(string \<Rightarrow> routing_exn + capabilities) \<Rightarrow> int \<Rightarrow> int \<Rightarrow> string \<Rightarrow> string list \<Rightarrow> int \<Rightarrow> (string, int \<times> int) dict" where
  "partition_ranges caps from_d to_d tf bids today =
     (case broker_windows caps tf bids of
        [] \<Rightarrow> []
      | [(bid, days)] \<Rightarrow>
          (let from_e = max from_d (today - days) in if from_e \<le> to_d then [(bid, (from_e, to_d))] else [])
      | ws \<Rightarrow> (let sorted = sort_key snd ws in split_between (hd sorted) (last sorted) from_d to_d today))"

definition max_chunk_days :: "(string \<Rightarrow> routing_exn + capabilities) \<Rightarrow> string \<Rightarrow> string \<Rightarrow> routing_exn + int" where
  "max_chunk_days caps tf bid =
     (case caps bid of
        Inl e \<Rightarrow> Inl e
      | Inr c \<Rightarrow> Inr (case historical_window_for c tf of None \<Rightarrow> 90 | Some w \<Rightarrow> hw_max_chunk_days w))"

text \<open>\<open>None\<close>: the planner does not return. Drawn ids are taken from \<open>ids\<close> in order, from \<open>n\<close> on.\<close>

fun number_chunks ::
  "(nat \<Rightarrow> string) \<Rightarrow> nat \<Rightarrow> string \<Rightarrow> string \<Rightarrow> string \<Rightarrow> (int \<times> int) list \<Rightarrow> chunk_plan list" where
  "number_chunks ids n bid tf request [] = []"
| "number_chunks ids n bid tf request ((a, z) # rest) =
     \<lparr>ch_chunk_id = ids n, ch_broker_id = bid, ch_from_date = a, ch_to_date = z, ch_timeframe = tf,
      ch_request_id = request, ch_is_fallback = False\<rparr> # number_chunks ids (Suc n) bid tf request rest"

fun plan_ranges ::
  "(string \<Rightarrow> routing_exn + capabilities) \<Rightarrow> (nat \<Rightarrow> string) \<Rightarrow> nat \<Rightarrow> string \<Rightarrow> string \<Rightarrow> (string, int \<times> int) dict \<Rightarrow>
   (routing_exn + chunk_plan list) option" where
  "plan_ranges caps ids n tf request [] = Some (Inr [])"
| "plan_ranges caps ids n tf request ((bid, (a, z)) # rest) =
     (case max_chunk_days caps tf bid of
        Inl e \<Rightarrow> Some (Inl e)
      | Inr m \<Rightarrow>
          (case split_chunks m a z of
             None \<Rightarrow> None
           | Some cs \<Rightarrow>
               (case plan_ranges caps ids (n + length cs) tf request rest of
                  None \<Rightarrow> None
                | Some (Inl e) \<Rightarrow> Some (Inl e)
                | Some (Inr ps) \<Rightarrow> Some (Inr (number_chunks ids n bid tf request cs @ ps)))))"

definition plan_chunks ::
  "(routing_exn + route_decision) \<Rightarrow> (string \<Rightarrow> routing_exn + capabilities) \<Rightarrow> (nat \<Rightarrow> string) \<Rightarrow> int \<Rightarrow> hist_query \<Rightarrow> string \<Rightarrow>
   (routing_exn + chunk_plan list) option" where
  "plan_chunks decision caps ids today q request =
     (case decision of
        Inl e \<Rightarrow> Some (Inr [])
      | Inr d \<Rightarrow>
          (let eligible = (if rd_parallel_brokers d \<noteq> [] then rd_parallel_brokers d else [rd_primary_broker d]) in
           plan_ranges caps ids 0 (hq_timeframe q) request
             (partition_ranges caps (hq_from_date q) (hq_to_date q) (hq_timeframe q) eligible today)))"

section \<open>Merging\<close>

definition close_delta :: "bar \<Rightarrow> bar \<Rightarrow> rat" where
  "close_delta existing b =
     dec_div (dec_abs (dec_sub (hb_close b) (hb_close existing))) (if hb_close existing \<noteq> 0 then hb_close existing else 1)"

definition conflict_of :: "string \<Rightarrow> bar \<Rightarrow> bar \<Rightarrow> conflict" where
  "conflict_of strategy existing b =
     \<lparr>cf_instant = hb_instant b, cf_instrument = instrument_text (hb_symbol b) (hb_exchange b),
      cf_timeframe = hb_timeframe b, cf_primary_broker = pv_broker_id (hb_provenance existing),
      cf_secondary_broker = pv_broker_id (hb_provenance b), cf_primary_close = hb_close existing,
      cf_secondary_close = hb_close b, cf_delta_pct = close_delta existing b, cf_resolution = strategy\<rparr>"

definition merge_step ::
  "string \<Rightarrow> rat \<Rightarrow> (int, bar) dict \<times> conflict list \<Rightarrow> bar \<Rightarrow> (int, bar) dict \<times> conflict list" where
  "merge_step strategy tolerance acc b =
     (case dict_get (fst acc) (hb_instant b) of
        None \<Rightarrow> (dict_put (fst acc) (hb_instant b) b, snd acc)
      | Some existing \<Rightarrow>
          if close_delta existing b \<le> tolerance then acc
          else
            (if strategy = ''prefer_newest_provenance'' \<and>
                pv_fetched_at (hb_provenance existing) < pv_fetched_at (hb_provenance b)
             then dict_put (fst acc) (hb_instant b) b else fst acc,
             snd acc @ [conflict_of strategy existing b]))"

definition merge_bars :: "string \<Rightarrow> rat \<Rightarrow> bar list \<Rightarrow> bar list \<times> conflict list" where
  "merge_bars strategy tolerance bars =
     (case foldl (merge_step strategy tolerance) ([], []) bars of
        (merged, conflicts) \<Rightarrow> (sort_key hb_instant (dict_values merged), conflicts))"

definition bar_source :: "bar \<Rightarrow> string \<times> string" where
  "bar_source b = (pv_broker_id (hb_provenance b), pv_request_id (hb_provenance b))"

text \<open>\<open>start\<close> is where the open range began, \<open>idx\<close> the index of the next bar.\<close>

fun bar_ranges_from :: "string \<times> string \<Rightarrow> nat \<Rightarrow> nat \<Rightarrow> bar list \<Rightarrow> bar_range list" where
  "bar_ranges_from cur start idx [] =
     [\<lparr>bg_start = start, bg_end = idx - 1, bg_chunk_id = snd cur, bg_broker_id = fst cur\<rparr>]"
| "bar_ranges_from cur start idx (b # bs) =
     (if bar_source b \<noteq> cur
      then \<lparr>bg_start = start, bg_end = idx - 1, bg_chunk_id = snd cur, bg_broker_id = fst cur\<rparr> #
             bar_ranges_from (bar_source b) idx (Suc idx) bs
      else bar_ranges_from cur start (Suc idx) bs)"

fun bar_ranges :: "bar list \<Rightarrow> bar_range list" where
  "bar_ranges [] = []"
| "bar_ranges (b # bs) = bar_ranges_from (bar_source b) 0 1 bs"

section \<open>Gaps\<close>

definition spans_trading_day :: "(int \<Rightarrow> bool) \<Rightarrow> int \<Rightarrow> int \<Rightarrow> bool" where
  "spans_trading_day trading a z = list_ex trading [a..z]"

definition detect_gaps :: "(int \<Rightarrow> bool) \<Rightarrow> bar list \<Rightarrow> int \<Rightarrow> int \<Rightarrow> chunk_plan list \<Rightarrow> gap list" where
  "detect_gaps trading bars from_d to_d chunks =
     (if bars = []
      then (if spans_trading_day trading from_d to_d then [\<lparr>gp_start = from_d, gp_end = to_d, gp_reason = ''all_failed''\<rparr>] else [])
      else
        (let first = bar_date (hd bars); last_d = bar_date (last bars) in
         (if from_d < first \<and> spans_trading_day trading from_d (first - 1)
          then [\<lparr>gp_start = from_d, gp_end = first - 1, gp_reason = ''missing_from_start''\<rparr>] else []) @
         (if last_d < to_d \<and> spans_trading_day trading (last_d + 1) to_d
          then [\<lparr>gp_start = last_d + 1, gp_end = to_d, gp_reason = ''missing_from_end''\<rparr>] else []) @
         map (\<lambda>c. \<lparr>gp_start = ch_from_date c, gp_end = ch_to_date c, gp_reason = ''missing_chunk''\<rparr>)
           (filter (\<lambda>c. \<not> list_ex (\<lambda>b. ch_from_date c \<le> bar_date b \<and> bar_date b \<le> ch_to_date c) bars \<and>
              spans_trading_day trading (ch_from_date c) (ch_to_date c)) chunks)))"

section \<open>Fetching\<close>

text \<open>
  The world the coordinator asks: routing at the three points where it asks, the answer to each
  plan (an error text or bars), the ids it draws, and the order in which the chunks of the first
  round are recorded, which is that of their completion.
\<close>

record hist_env =
  he_route :: "routing_exn + route_decision"
  he_route_fallback :: "chunk_plan \<Rightarrow> routing_exn + route_decision"
  he_route_gaps :: "routing_exn + route_decision"
  he_caps :: "string \<Rightarrow> routing_exn + capabilities"
  he_fetch :: "chunk_plan \<Rightarrow> string + bar list"
  he_ids :: "nat \<Rightarrow> string"
  he_request_id :: string
  he_finish :: "chunk_plan list \<Rightarrow> chunk_plan list"
  he_today :: int
  he_trading_day :: "int \<Rightarrow> bool"

definition chunk_record_of :: "chunk_plan \<Rightarrow> string + bar list \<Rightarrow> chunk_record" where
  "chunk_record_of p x =
     \<lparr>cr_chunk_id = ch_chunk_id p, cr_broker_id = ch_broker_id p, cr_from_date = ch_from_date p,
      cr_to_date = ch_to_date p, cr_timeframe = ch_timeframe p,
      cr_bars_fetched = (case x of Inl e \<Rightarrow> 0 | Inr bs \<Rightarrow> length bs),
      cr_error = (case x of Inl e \<Rightarrow> Some e | Inr bs \<Rightarrow> None)\<rparr>"

text \<open>The result of a fetch is \<open>None\<close> after an error.\<close>

definition fetch_chunk :: "hist_env \<Rightarrow> chunk_plan \<Rightarrow> ledger \<Rightarrow> bar list option \<times> ledger" where
  "fetch_chunk env p l =
     (case he_fetch env p of
        Inl e \<Rightarrow> (None, add_chunk (chunk_record_of p (Inl e)) l)
      | Inr bs \<Rightarrow> (Some bs, add_chunk (chunk_record_of p (Inr bs)) l))"

definition eligible_brokers :: "route_decision \<Rightarrow> string list" where
  "eligible_brokers d =
     (if rd_parallel_brokers d \<noteq> [] then rd_parallel_brokers d else rd_primary_broker d # rd_fallback_brokers d)"

definition retry_plan :: "hist_env \<Rightarrow> nat \<Rightarrow> string \<Rightarrow> int \<Rightarrow> int \<Rightarrow> string \<Rightarrow> string \<Rightarrow> chunk_plan" where
  "retry_plan env n bid a z tf request =
     \<lparr>ch_chunk_id = he_ids env n, ch_broker_id = bid, ch_from_date = a, ch_to_date = z, ch_timeframe = tf,
      ch_request_id = request, ch_is_fallback = True\<rparr>"

text \<open>The first broker that answers without an error ends the search, also with no bars.\<close>

fun try_brokers :: "hist_env \<Rightarrow> chunk_plan \<Rightarrow> string list \<Rightarrow> nat \<Rightarrow> ledger \<Rightarrow> bar list option \<times> nat \<times> ledger" where
  "try_brokers env failed [] n l = (None, n, l)"
| "try_brokers env failed (bid # rest) n l =
     (case fetch_chunk env (retry_plan env n bid (ch_from_date failed) (ch_to_date failed) (ch_timeframe failed)
              (ch_request_id failed)) l of
        (Some bs, l') \<Rightarrow> (Some (map fallback_bar bs), Suc n, l')
      | (None, l') \<Rightarrow> try_brokers env failed rest (Suc n) l')"

definition try_fallback :: "hist_env \<Rightarrow> chunk_plan \<Rightarrow> nat \<Rightarrow> ledger \<Rightarrow> bar list option \<times> nat \<times> ledger" where
  "try_fallback env failed n l =
     (case he_route_fallback env failed of
        Inl e \<Rightarrow> (None, n, l)
      | Inr d \<Rightarrow> try_brokers env failed (filter (\<lambda>b. b \<noteq> ch_broker_id failed) (eligible_brokers d)) n l)"

text \<open>A gap is asked of one broker after the other until one has bars.\<close>

fun fill_gap :: "hist_env \<Rightarrow> hist_query \<Rightarrow> string \<Rightarrow> gap \<Rightarrow> string list \<Rightarrow> nat \<Rightarrow> ledger \<Rightarrow> bar list \<times> nat \<times> ledger" where
  "fill_gap env q request g [] n l = ([], n, l)"
| "fill_gap env q request g (bid # rest) n l =
     (case fetch_chunk env (retry_plan env n bid (gp_start g) (gp_end g) (hq_timeframe q) request) l of
        (None, l') \<Rightarrow> fill_gap env q request g rest (Suc n) l'
      | (Some bs, l') \<Rightarrow> if bs = [] then fill_gap env q request g rest (Suc n) l' else (bs, Suc n, l'))"

fun fill_each :: "hist_env \<Rightarrow> hist_query \<Rightarrow> string \<Rightarrow> string list \<Rightarrow> gap list \<Rightarrow> nat \<Rightarrow> ledger \<Rightarrow> bar list \<times> nat \<times> ledger" where
  "fill_each env q request bids [] n l = ([], n, l)"
| "fill_each env q request bids (g # gs) n l =
     (case fill_gap env q request g bids n l of
        (bs, n1, l1) \<Rightarrow> (case fill_each env q request bids gs n1 l1 of (bs', n2, l2) \<Rightarrow> (bs @ bs', n2, l2)))"

definition fill_gaps :: "hist_env \<Rightarrow> hist_query \<Rightarrow> string \<Rightarrow> gap list \<Rightarrow> nat \<Rightarrow> ledger \<Rightarrow> bar list \<times> nat \<times> ledger" where
  "fill_gaps env q request gaps n l =
     (case he_route_gaps env of
        Inl e \<Rightarrow> ([], n, l)
      | Inr d \<Rightarrow>
          (let tried = map cr_broker_id (pl_chunks l); bids = filter (\<lambda>b. b \<notin> set tried) (eligible_brokers d) in
           if bids = [] then ([], n, l) else fill_each env q request bids gaps n l))"

section \<open>The coordinator\<close>

datatype hist_exn = Merge_Conflict nat "string list" | Planning_Failed routing_exn

fun reindex :: "nat \<Rightarrow> bar list \<Rightarrow> bar list" where
  "reindex i [] = []"
| "reindex i (b # bs) = b\<lparr>hb_bar_index := int i\<rparr> # reindex (Suc i) bs"

text \<open>\<open>chunk_ids\<close> are those of the chunks that brought bars; they name them in the error only.\<close>

definition merge_and_detect_gaps ::
  "hist_env \<Rightarrow> bar list \<Rightarrow> string list \<Rightarrow> chunk_plan list \<Rightarrow> hist_query \<Rightarrow> ledger \<Rightarrow> (hist_exn + bar list \<times> gap list) \<times> ledger" where
  "merge_and_detect_gaps env bars chunk_ids chunks q l =
     (case merge_bars (hq_merge_strategy q) (hq_tolerance q) (sort_key hb_instant bars) of
        (merged, conflicts) \<Rightarrow>
          (let l1 = add_conflicts conflicts l in
           if hq_merge_strategy q = ''fail_on_conflict'' \<and> conflicts \<noteq> []
           then (Inl (Merge_Conflict (length conflicts) chunk_ids), l1)
           else
             (let m = reindex 0 merged in
              (Inr (m, detect_gaps (he_trading_day env) m (hq_from_date q) (hq_to_date q) chunks),
               add_bar_ranges (bar_ranges m) l1))))"

record manifest =
  mm_chunk_assignments :: "(string, string) dict"
  mm_conflict_count :: nat
  mm_conflict_resolution :: string
  mm_degraded :: bool
  mm_degraded_reason :: string

record series =
  sr_bars :: "bar list"
  sr_from_date :: int
  sr_to_date :: int
  sr_timeframe :: string
  sr_gaps :: "gap list"
  sr_manifest :: manifest

fun semicolon_join :: "string list \<Rightarrow> string" where
  "semicolon_join [] = []"
| "semicolon_join [x] = x"
| "semicolon_join (x # xs) = x @ ''; '' @ semicolon_join xs"

definition empty_series :: "hist_query \<Rightarrow> ledger \<Rightarrow> series" where
  "empty_series q l =
     \<lparr>sr_bars = [], sr_from_date = hq_from_date q, sr_to_date = hq_to_date q, sr_timeframe = hq_timeframe q,
      sr_gaps = [\<lparr>gp_start = hq_from_date q, gp_end = hq_to_date q, gp_reason = pl_degraded_reason l\<rparr>],
      sr_manifest = \<lparr>mm_chunk_assignments = [], mm_conflict_count = 0, mm_conflict_resolution = ''prefer_primary'',
        mm_degraded = True, mm_degraded_reason = pl_degraded_reason l\<rparr>\<rparr>"

definition manifest_of :: "chunk_plan list \<Rightarrow> hist_query \<Rightarrow> ledger \<Rightarrow> manifest" where
  "manifest_of chunks q l =
     \<lparr>mm_chunk_assignments = foldl (\<lambda>d p. dict_put d (ch_chunk_id p) (ch_broker_id p)) [] chunks,
      mm_conflict_count = length (pl_conflicts l), mm_conflict_resolution = hq_merge_strategy q,
      mm_degraded = failed_chunks l \<noteq> [],
      mm_degraded_reason = semicolon_join (map the (filter (\<lambda>e. e \<noteq> None \<and> e \<noteq> Some []) (map cr_error (failed_chunks l))))\<rparr>"

text \<open>The first round: each plan is answered, then empty or failed answers are tried elsewhere, in the order of the plans.\<close>

fun collect :: "hist_env \<Rightarrow> chunk_plan list \<Rightarrow> nat \<Rightarrow> ledger \<Rightarrow> bar list \<times> string list \<times> nat \<times> ledger" where
  "collect env [] n l = ([], [], n, l)"
| "collect env (p # ps) n l =
     (case (case he_fetch env p of
              Inr (b # bs) \<Rightarrow> (Some (b # bs), n, l)
            | _ \<Rightarrow> try_fallback env p n l) of
        (got, n1, l1) \<Rightarrow>
          (case collect env ps n1 l1 of
             (bars, ids, n2, l2) \<Rightarrow>
               (case got of None \<Rightarrow> (bars, ids, n2, l2) | Some bs \<Rightarrow> (bs @ bars, ch_chunk_id p # ids, n2, l2))))"

definition finish_series :: "chunk_plan list \<Rightarrow> hist_query \<Rightarrow> bar list \<Rightarrow> gap list \<Rightarrow> ledger \<Rightarrow> series \<times> ledger" where
  "finish_series chunks q merged gaps l =
     (let m = manifest_of chunks q l in
      (\<lparr>sr_bars = merged, sr_from_date = hq_from_date q, sr_to_date = hq_to_date q, sr_timeframe = hq_timeframe q,
        sr_gaps = gaps, sr_manifest = m\<rparr>,
       if mm_degraded m then mark_degraded (mm_degraded_reason m) l else l))"

definition fetch_planned :: "hist_env \<Rightarrow> hist_query \<Rightarrow> string \<Rightarrow> chunk_plan list \<Rightarrow> ledger \<Rightarrow> hist_exn + series \<times> ledger" where
  "fetch_planned env q request chunks l =
     (let l0 = foldl (\<lambda>l p. snd (fetch_chunk env p l)) l (he_finish env chunks) in
      case collect env chunks (length chunks) l0 of
        (bars, ids, n, l1) \<Rightarrow>
          if bars = [] then (let l2 = mark_degraded ''all_chunks_failed'' l1 in Inr (empty_series q l2, l2))
          else
            (case merge_and_detect_gaps env bars ids chunks q l1 of
               (Inl e, l2) \<Rightarrow> Inl e
             | (Inr (merged, gaps), l2) \<Rightarrow>
                 if gaps = [] then Inr (finish_series chunks q merged gaps l2)
                 else
                   (case fill_gaps env q request gaps n l2 of
                      (extra, n', l3) \<Rightarrow>
                        if extra = [] then Inr (finish_series chunks q merged gaps l3)
                        else
                          (case merge_and_detect_gaps env (bars @ extra) ids chunks q l3 of
                             (Inl e, l4) \<Rightarrow> Inl e
                           | (Inr (merged', gaps'), l4) \<Rightarrow> Inr (finish_series chunks q merged' gaps' l4)))))"

text \<open>\<open>None\<close>: the coordinator does not return, because planning does not.\<close>

definition hist_fetch :: "hist_env \<Rightarrow> hist_query \<Rightarrow> (hist_exn + series \<times> ledger) option" where
  "hist_fetch env q =
     (let request = (case hq_request_id q of None \<Rightarrow> he_request_id env | Some r \<Rightarrow> if r = [] then he_request_id env else r);
          l = ledger_new request (instrument_text (hq_symbol q) (hq_exchange q)) (hq_timeframe q) (hq_merge_strategy q) in
      case plan_chunks (he_route env) (he_caps env) (he_ids env) (he_today env) q request of
        None \<Rightarrow> None
      | Some (Inl e) \<Rightarrow> Some (Inl (Planning_Failed e))
      | Some (Inr chunks) \<Rightarrow>
          if chunks = [] then (let l1 = mark_degraded ''no_chunks_planned'' l in Some (Inr (empty_series q l1, l1)))
          else Some (fetch_planned env q request chunks l))"

section \<open>Facts about planning\<close>

definition range_days :: "int \<times> int \<Rightarrow> int list" where
  "range_days r = [fst r..snd r]"

lemma upto_append: "a \<le> m + 1 \<Longrightarrow> m \<le> z \<Longrightarrow> [a..m] @ [m + 1..z] = [a..z]" for a m z :: int
proof (cases "a \<le> m")
  case False
  moreover assume "a \<le> m + 1"
  ultimately have "a = m + 1" by simp
  then show ?thesis by simp
qed (simp only: upto_split2[symmetric])

text \<open>A positive bound: the chunks tile the range in order, and none is longer than the bound.\<close>

lemma split_chunks_tiles:
  assumes "1 \<le> m"
  shows "\<exists>cs. split_chunks m a z = Some cs \<and> concat (map range_days cs) = [a..z] \<and>
     (\<forall>c \<in> set cs. fst c \<le> snd c \<and> snd c - fst c < m)"
proof (induction "nat (z + 1 - a)" arbitrary: a rule: less_induct)
  case less
  show ?case
  proof (cases "z < a")
    case True
    then have "split_chunks m a z = Some []" by (subst split_chunks.simps) simp
    then show ?thesis using True by simp
  next
    case False
    define e where "e = min (a + (m - 1)) z"
    have e: "a \<le> e" "e \<le> z" "e - a < m" using False assms by (auto simp: e_def)
    then have "nat (z + 1 - (e + 1)) < nat (z + 1 - a)" using False by (simp only: zless_nat_conj) linarith
    from less[OF this] obtain cs where cs: "split_chunks m (e + 1) z = Some cs" "concat (map range_days cs) = [e + 1..z]"
      "\<forall>c \<in> set cs. fst c \<le> snd c \<and> snd c - fst c < m" by blast
    have "split_chunks m a z = Some ((a, e) # cs)"
      using False cs(1) by (subst split_chunks.simps) (simp add: Let_def e_def[symmetric])
    moreover have "concat (map range_days ((a, e) # cs)) = [a..z]" using e upto_append[of a e z] by (simp add: range_days_def cs(2))
    moreover have "\<forall>c \<in> set ((a, e) # cs). fst c \<le> snd c \<and> snd c - fst c < m" using cs(3) e by simp
    ultimately show ?thesis by blast
  qed
qed

text \<open>Without one the loop does not end.\<close>

lemma split_chunks_bound:
  assumes "split_chunks m a z = Some cs"
  shows "1 \<le> m \<or> z < a"
proof (rule split_chunks.raw_induct[where P = "\<lambda>m a z cs. 1 \<le> m \<or> z < a", OF _ assms])
  fix f m a z and cs :: "(int \<times> int) list"
  assume ih: "\<And>m a z cs. f m a z = Some cs \<Longrightarrow> 1 \<le> m \<or> z < a"
    and body: "(if z < a then Some []
      else let end_d = min (a + (m - 1)) z in Option.bind (f m (end_d + 1) z) (\<lambda>cs. Some ((a, end_d) # cs))) = Some cs"
  show "1 \<le> m \<or> z < a"
  proof (cases "z < a")
    case False
    with body obtain cs' where "f m (min (a + (m - 1)) z + 1) z = Some cs'" by (auto simp: Let_def bind_eq_Some_conv)
    from ih[OF this] False show ?thesis by linarith
  qed simp
qed

lemma split_chunks_empty: "z < a \<Longrightarrow> split_chunks m a z = Some []"
  by (subst split_chunks.simps) simp

lemma split_chunks_returns: "split_chunks m a z = None \<longleftrightarrow> m \<le> 0 \<and> a \<le> z"
proof (cases "z < a \<or> 1 \<le> m")
  case True
  then show ?thesis using split_chunks_empty[of z a m] split_chunks_tiles[of m a z] by auto
next
  case False
  then show ?thesis using split_chunks_bound[of m a z] by (cases "split_chunks m a z") auto
qed

lemma split_chunks_spec:
  assumes "split_chunks m a z = Some cs"
  shows "concat (map range_days cs) = [a..z]" "\<forall>c \<in> set cs. fst c \<le> snd c \<and> snd c - fst c < m"
proof -
  have "concat (map range_days cs) = [a..z] \<and> (\<forall>c \<in> set cs. fst c \<le> snd c \<and> snd c - fst c < m)"
  proof (cases "z < a")
    case True
    then show ?thesis using assms by (simp add: split_chunks_empty)
  next
    case False
    then have "1 \<le> m" using split_chunks_bound[OF assms] by simp
    then show ?thesis using split_chunks_tiles[of m a z] assms by auto
  qed
  then show "concat (map range_days cs) = [a..z]" "\<forall>c \<in> set cs. fst c \<le> snd c \<and> snd c - fst c < m" by auto
qed

lemma broker_windows_wf: "dict_wf (broker_windows caps tf bids)"
proof -
  have "dict_wf d \<Longrightarrow> dict_wf (foldl (\<lambda>d bid.
        case caps bid of
          Inl e \<Rightarrow> d
        | Inr c \<Rightarrow>
            (case historical_window_for c tf of
               None \<Rightarrow> d
             | Some w \<Rightarrow> if supports c ''historical_data'' then dict_put d bid (hw_max_lookback_days w) else d)) d bids)" for d
    by (induction bids arbitrary: d) (auto split: sum.split option.split)
  then show ?thesis by (simp add: broker_windows_def)
qed

lemma broker_windows_keys: "set (dict_keys (broker_windows caps tf bids)) \<subseteq> set bids"
proof -
  have "set (dict_keys (foldl (\<lambda>d bid.
        case caps bid of
          Inl e \<Rightarrow> d
        | Inr c \<Rightarrow>
            (case historical_window_for c tf of
               None \<Rightarrow> d
             | Some w \<Rightarrow> if supports c ''historical_data'' then dict_put d bid (hw_max_lookback_days w) else d)) d bids))
     \<subseteq> set (dict_keys d) \<union> set bids" for d
  proof (induction bids arbitrary: d)
    case (Cons bid bids)
    show ?case unfolding foldl_Cons
      by (rule order.trans[OF Cons]) (auto simp: dict_simps split: sum.split option.split)
  qed simp
  from this[of "[]"] show ?thesis by (simp add: broker_windows_def dict_keys_def)
qed

text \<open>The longest and the shortest lookback of the brokers that can serve the timeframe.\<close>

definition longest :: "(string, int) dict \<Rightarrow> int" where
  "longest ws = Max (set (dict_values ws))"

definition shortest :: "(string, int) dict \<Rightarrow> int" where
  "shortest ws = Min (set (dict_values ws))"

text \<open>Sorted by lookback, the first broker has the shortest and the last one the longest; with two brokers they differ.\<close>

lemma extreme_windows:
  assumes "2 \<le> length ws" "dict_wf ws"
  obtains short long where "hd (sort_key snd ws) = (short, shortest ws)" "last (sort_key snd ws) = (long, longest ws)"
    "short \<noteq> long" "shortest ws \<le> longest ws" "short \<in> set (dict_keys ws)" "long \<in> set (dict_keys ws)"
proof -
  let ?s = "sort_key snd ws"
  have ne: "?s \<noteq> []" using assms(1) by auto
  have vals: "set (dict_values ws) = snd ` set ?s" by (simp add: dict_values_def)
  have fin: "finite (set (dict_values ws))" "set (dict_values ws) \<noteq> {}" using assms(1) by (auto simp: dict_values_def)
  have srt: "sorted (map snd ?s)" by (rule sorted_sort_key)
  have h: "snd (hd ?s) = shortest ws" unfolding shortest_def
  proof (rule Min_eqI[symmetric])
    show "snd (hd ?s) \<in> set (dict_values ws)" using hd_in_set[OF ne] by (auto simp: vals)
    show "snd (hd ?s) \<le> y" if "y \<in> set (dict_values ws)" for y
      using that srt ne by (cases ?s) (auto simp: vals)
  qed (rule fin)
  have l: "snd (last ?s) = longest ws" unfolding longest_def
  proof (rule Max_eqI[symmetric])
    show "snd (last ?s) \<in> set (dict_values ws)" using last_in_set[OF ne] by (auto simp: vals)
    show "y \<le> snd (last ?s)" if "y \<in> set (dict_values ws)" for y
    proof -
      obtain ys x where sx: "?s = ys @ [x]" using ne by (metis append_butlast_last_id)
      then show ?thesis using that srt by (auto simp: vals sorted_append)
    qed
  qed (rule fin)
  have "mset (map fst ?s) = mset (map fst ws)" by simp
  from mset_eq_imp_distinct_iff[OF this] have d: "distinct (map fst ?s)" using assms(2) by (simp add: dict_wf_def)
  have len: "2 \<le> length ?s" using assms(1) by simp
  then have "fst (hd ?s) \<noteq> fst (last ?s)"
  proof (cases ?s)
    case (Cons x xs)
    then have "xs \<noteq> []" using len by auto
    then show ?thesis using d Cons by auto
  qed (use ne in simp)
  moreover have "fst (hd ?s) \<in> set (dict_keys ws)" "fst (last ?s) \<in> set (dict_keys ws)"
    using hd_in_set[OF ne] last_in_set[OF ne] by (auto simp: dict_keys_def)
  moreover have "shortest ws \<le> longest ws" using fin by (simp add: shortest_def longest_def)
  ultimately show thesis using that[of "fst (hd ?s)" "fst (last ?s)"] h l by (simp add: prod_eq_iff)
qed

definition covered_to :: "(string, int) dict \<Rightarrow> int \<Rightarrow> int \<Rightarrow> int" where
  "covered_to ws to_d today = (if length ws < 2 then to_d else max to_d (today - shortest ws - 1))"

lemma split_between_days:
  assumes "sd \<le> ld" "short \<noteq> long" "from_d \<le> to_d"
  shows "mset (concat (map (range_days \<circ> snd) (split_between (short, sd) (long, ld) from_d to_d today))) =
       mset [max from_d (today - ld)..max to_d (today - sd - 1)]"
    "set (dict_keys (split_between (short, sd) (long, ld) from_d to_d today)) \<subseteq> {short, long}"
proof -
  define sf lf where "sf = max from_d (today - sd)" and "lf = max from_d (today - ld)"
  have le: "lf \<le> sf" using assms(1) by (auto simp: sf_def lf_def)
  have c: "max to_d (today - sd - 1) = (if sf \<le> to_d then to_d else max to_d (sf - 1))"
    using assms(3) by (auto simp: sf_def)
  have s: "split_between (short, sd) (long, ld) from_d to_d today =
     (if lf \<le> sf - 1 then dict_put (if sf \<le> to_d then [(short, (sf, to_d))] else []) long (lf, sf - 1)
      else if sf \<le> to_d then [(short, (sf, to_d))] else [])"
    by (simp only: split_between_def Let_def sf_def lf_def fst_conv snd_conv)
  have "mset [sf..to_d] + mset [lf..sf - 1] = mset [lf..to_d]" if "sf \<le> to_d"
    using arg_cong[where f = mset, OF upto_append[of lf "sf - 1" to_d]] that le by (simp add: add.commute)
  then show "mset (concat (map (range_days \<circ> snd) (split_between (short, sd) (long, ld) from_d to_d today))) =
       mset [max from_d (today - ld)..max to_d (today - sd - 1)]"
    using assms(2) le unfolding s c lf_def[symmetric] by (auto simp: dict_put_def range_days_def)
  show "set (dict_keys (split_between (short, sd) (long, ld) from_d to_d today)) \<subseteq> {short, long}"
    unfolding s by (auto simp: dict_simps) (auto simp: dict_keys_def)
qed

text \<open>
  Every day from the oldest one in reach is assigned once; with several brokers the days go past
  the requested end when the shortest window starts after it.
\<close>

lemma partition_spec:
  fixes caps :: "string \<Rightarrow> routing_exn + capabilities" and tf :: string and bids :: "string list" and today :: int
  assumes "from_d \<le> to_d"
  defines "ws \<equiv> broker_windows caps tf bids"
  defines "rs \<equiv> partition_ranges caps from_d to_d tf bids today"
  shows "ws = [] \<Longrightarrow> rs = []"
    "ws \<noteq> [] \<Longrightarrow> mset (concat (map (range_days \<circ> snd) rs)) = mset [max from_d (today - longest ws)..covered_to ws to_d today]"
    "set (dict_keys rs) \<subseteq> set (dict_keys ws)"
proof -
  show "ws = [] \<Longrightarrow> rs = []" by (simp add: rs_def partition_ranges_def ws_def[symmetric])
  have "(ws \<noteq> [] \<longrightarrow> mset (concat (map (range_days \<circ> snd) rs)) = mset [max from_d (today - longest ws)..covered_to ws to_d today]) \<and>
    set (dict_keys rs) \<subseteq> set (dict_keys ws)"
  proof (cases ws rule: remdups_adj.cases)
    case 1
    then show ?thesis by (simp add: rs_def partition_ranges_def ws_def[symmetric] dict_keys_def)
  next
    case (2 x)
    then show ?thesis
      by (cases x) (auto simp: rs_def partition_ranges_def ws_def[symmetric] dict_keys_def dict_values_def longest_def
          covered_to_def range_days_def Let_def)
  next
    case (3 x y zs)
    then have two: "2 \<le> length ws" by simp
    have wf: "dict_wf ws" by (simp add: ws_def broker_windows_wf)
    obtain short long where e: "hd (sort_key snd ws) = (short, shortest ws)" "last (sort_key snd ws) = (long, longest ws)"
      "short \<noteq> long" "shortest ws \<le> longest ws" "short \<in> set (dict_keys ws)" "long \<in> set (dict_keys ws)"
      using extreme_windows[OF two wf] .
    have "rs = split_between (short, shortest ws) (long, longest ws) from_d to_d today"
      using e(1,2) by (cases x) (simp only: rs_def partition_ranges_def ws_def[symmetric] 3 list.case prod.case Let_def)
    with split_between_days[OF e(4,3) assms(1)] two e(5,6)
    have "mset (concat (map (range_days \<circ> snd) rs)) = mset [max from_d (today - longest ws)..covered_to ws to_d today]"
      "set (dict_keys rs) \<subseteq> set (dict_keys ws)" by (auto simp: covered_to_def)
    then show ?thesis by simp
  qed
  then show "ws \<noteq> [] \<Longrightarrow> mset (concat (map (range_days \<circ> snd) rs)) = mset [max from_d (today - longest ws)..covered_to ws to_d today]"
    "set (dict_keys rs) \<subseteq> set (dict_keys ws)" by auto
qed

definition plan_days :: "chunk_plan \<Rightarrow> int list" where
  "plan_days p = [ch_from_date p..ch_to_date p]"

lemma number_chunks_days: "concat (map plan_days (number_chunks ids n bid tf request cs)) = concat (map range_days cs)"
  by (induction ids n bid tf request cs rule: number_chunks.induct) (simp_all add: plan_days_def range_days_def)

lemma number_chunks_mem:
  "p \<in> set (number_chunks ids n bid tf request cs) \<Longrightarrow>
   (ch_from_date p, ch_to_date p) \<in> set cs \<and> ch_broker_id p = bid \<and> ch_timeframe p = tf \<and> ch_request_id p = request"
  by (induction ids n bid tf request cs rule: number_chunks.induct) auto

lemma plan_ranges_spec:
  "plan_ranges caps ids n tf request rs = Some (Inr ps) \<Longrightarrow>
   concat (map plan_days ps) = concat (map (range_days \<circ> snd) rs) \<and>
   (\<forall>p \<in> set ps. ch_broker_id p \<in> set (dict_keys rs) \<and> ch_from_date p \<le> ch_to_date p \<and>
      (\<exists>m. max_chunk_days caps tf (ch_broker_id p) = Inr m \<and> int (length (plan_days p)) \<le> m))"
proof (induction caps ids n tf request rs arbitrary: ps rule: plan_ranges.induct)
  case (2 caps ids n tf request bid a z rest)
  from 2(2) obtain m cs ps' where c: "max_chunk_days caps tf bid = Inr m" "split_chunks m a z = Some cs"
    "plan_ranges caps ids (n + length cs) tf request rest = Some (Inr ps')" "ps = number_chunks ids n bid tf request cs @ ps'"
    by (auto split: sum.splits option.splits)
  note ih = 2(1)[OF c(1,2,3)]
  note cs = split_chunks_spec[OF c(2)]
  have "ch_broker_id p \<in> set (dict_keys ((bid, (a, z)) # rest)) \<and> ch_from_date p \<le> ch_to_date p \<and>
      (\<exists>m. max_chunk_days caps tf (ch_broker_id p) = Inr m \<and> int (length (plan_days p)) \<le> m)" if "p \<in> set ps" for p
  proof (cases "p \<in> set ps'")
    case True
    then show ?thesis using ih by (auto simp: dict_keys_def)
  next
    case False
    then have "p \<in> set (number_chunks ids n bid tf request cs)" using that c(4) by simp
    from number_chunks_mem[OF this] cs(2) c(1) show ?thesis by (fastforce simp: dict_keys_def plan_days_def)
  qed
  then show ?case using ih cs(1) by (simp add: c(4) number_chunks_days range_days_def)
qed simp

lemma plan_ranges_returns:
  assumes "\<And>bid m. bid \<in> set (dict_keys rs) \<Longrightarrow> max_chunk_days caps tf bid = Inr m \<Longrightarrow> 1 \<le> m"
  shows "plan_ranges caps ids n tf request rs \<noteq> None"
  using assms
proof (induction caps ids n tf request rs rule: plan_ranges.induct)
  case (2 caps ids n tf request bid a z rest)
  show ?case
  proof (cases "max_chunk_days caps tf bid")
    case (Inr m)
    then have "1 \<le> m" using 2(2)[of bid m] by (simp add: dict_keys_def)
    then obtain cs where cs: "split_chunks m a z = Some cs" using split_chunks_returns[of m a z] by (cases "split_chunks m a z") auto
    have "plan_ranges caps ids (n + length cs) tf request rest \<noteq> None"
      using 2(1)[OF Inr cs] 2(2) by (auto simp: dict_keys_def)
    then show ?thesis using Inr cs by (auto split: sum.split option.split)
  qed simp
qed simp

text \<open>
  C13: planning covers the requested days once. The planned chunks hold every day from the
  oldest one that some chosen broker reaches back to, up to the requested end, each day once;
  past the end only when the shortest window of several brokers starts after it, and then up
  to that start. Each chunk goes to a chosen broker and keeps to its bound for one request.
  Planning returns whenever these bounds are positive.
\<close>

theorem plan_covers_each_day_once:
  "hq_from_date q \<le> hq_to_date q \<longrightarrow>
   (let bids = (if rd_parallel_brokers d \<noteq> [] then rd_parallel_brokers d else [rd_primary_broker d]); tf = hq_timeframe q;
        ws = broker_windows caps tf bids in
    (\<forall>ps. plan_chunks (Inr d) caps ids today q request = Some (Inr ps) \<longrightarrow>
       mset (concat (map plan_days ps)) =
         (if ws = [] then {#}
          else mset [max (hq_from_date q) (today - longest ws)..
                 if length ws < 2 then hq_to_date q else max (hq_to_date q) (today - shortest ws - 1)]) \<and>
       (\<forall>p \<in> set ps. ch_broker_id p \<in> set bids \<and>
          (\<exists>m. max_chunk_days caps tf (ch_broker_id p) = Inr m \<and> int (length (plan_days p)) \<le> m))) \<and>
    ((\<forall>bid \<in> set bids. \<forall>m. max_chunk_days caps tf bid = Inr m \<longrightarrow> 1 \<le> m) \<longrightarrow>
       plan_chunks (Inr d) caps ids today q request \<noteq> None))"
proof (intro impI, unfold Let_def, intro conjI allI impI)
  let ?bids = "if rd_parallel_brokers d \<noteq> [] then rd_parallel_brokers d else [rd_primary_broker d]"
  let ?rs = "partition_ranges caps (hq_from_date q) (hq_to_date q) (hq_timeframe q) ?bids today"
  assume q: "hq_from_date q \<le> hq_to_date q"
  note part = partition_spec[OF q, of caps "hq_timeframe q" ?bids today]
  note keys = subset_trans[OF part(3) broker_windows_keys]
  have pc: "plan_chunks (Inr d) caps ids today q request = plan_ranges caps ids 0 (hq_timeframe q) request ?rs"
    by (simp add: plan_chunks_def Let_def)
  {
    fix ps assume "plan_chunks (Inr d) caps ids today q request = Some (Inr ps)"
    then have "plan_ranges caps ids 0 (hq_timeframe q) request ?rs = Some (Inr ps)" by (simp only: pc)
    note spec = plan_ranges_spec[OF this]
    show "mset (concat (map plan_days ps)) =
         (if broker_windows caps (hq_timeframe q) ?bids = [] then {#}
          else mset [max (hq_from_date q) (today - longest (broker_windows caps (hq_timeframe q) ?bids))..
                 if length (broker_windows caps (hq_timeframe q) ?bids) < 2 then hq_to_date q
                 else max (hq_to_date q) (today - shortest (broker_windows caps (hq_timeframe q) ?bids) - 1)])"
      using part(1,2) by (simp only: spec[THEN conjunct1] covered_to_def) (simp split: if_splits)
    show "\<forall>p \<in> set ps. ch_broker_id p \<in> set ?bids \<and>
          (\<exists>m. max_chunk_days caps (hq_timeframe q) (ch_broker_id p) = Inr m \<and> int (length (plan_days p)) \<le> m)"
      using spec keys by blast
  }
  assume "\<forall>bid \<in> set ?bids. \<forall>m. max_chunk_days caps (hq_timeframe q) bid = Inr m \<longrightarrow> 1 \<le> m"
  then show "plan_chunks (Inr d) caps ids today q request \<noteq> None"
    unfolding pc by (intro plan_ranges_returns) (use keys in blast)
qed

definition sample_window :: "string \<Rightarrow> int \<Rightarrow> int \<Rightarrow> capabilities" where
  "sample_window bid lookback chunk =
     (sample_capabilities bid [''historical_data''])
       \<lparr>cp_historical_windows := [\<lparr>hw_timeframe = ''1m'', hw_max_lookback_days = lookback, hw_max_chunk_days = chunk,
          hw_supports_expired = False\<rparr>]\<rparr>"

definition sample_caps :: "string \<Rightarrow> routing_exn + capabilities" where
  "sample_caps bid = (if bid = ''upstox'' then Inr (sample_window bid 30 10) else Inr (sample_window bid 90 25))"

definition sample_decision :: route_decision where
  "sample_decision =
     \<lparr>rd_operation = GET_HISTORICAL_BARS, rd_primary_broker = ''dhan'', rd_trace_id = ''r'', rd_policy_version = ''1'',
      rd_fallback_brokers = [''upstox''], rd_parallel_brokers = [''dhan'', ''upstox''], rd_reason_codes = [], rd_rejected = [],
      rd_decided_at = Naive 0\<rparr>"

definition sample_query :: "int \<Rightarrow> int \<Rightarrow> hist_query" where
  "sample_query a z =
     \<lparr>hq_symbol = ''SBIN'', hq_exchange = ''NSE'', hq_timeframe = ''1m'', hq_from_date = a, hq_to_date = z,
      hq_merge_strategy = ''prefer_primary'', hq_tolerance = 1 / 1000, hq_request_id = Some ''r''\<rparr>"

text \<open>Asked for ten days that are older than the window of Upstox, Dhan fetches up to that window: sixty days.\<close>

lemma plan_covers_each_day_once_witness:
  "\<exists>ps. plan_chunks (Inr sample_decision) sample_caps (\<lambda>n. [digit_char n]) 1000 (sample_query 910 919) ''r'' = Some (Inr ps) \<and>
     mset (concat (map plan_days ps)) = mset [910..969]"
proof -
  let ?plan = "plan_chunks (Inr sample_decision) sample_caps (\<lambda>n. [digit_char n]) 1000 (sample_query 910 919) ''r''"
  have ws: "broker_windows sample_caps ''1m'' [''dhan'', ''upstox''] = [(''dhan'', 90), (''upstox'', 30)]" by code_simp
  have lo: "longest [(''dhan'', 90), (''upstox'', 30)] = 90" "shortest [(''dhan'', 90), (''upstox'', 30)] = 30"
    by (simp_all add: longest_def shortest_def dict_values_def)
  have "case ?plan of Some (Inr ps) \<Rightarrow> True | _ \<Rightarrow> False" by code_simp
  then obtain ps where ps: "?plan = Some (Inr ps)" by (auto split: option.splits sum.splits)
  then show ?thesis
    using plan_covers_each_day_once[of "sample_query 910 919" sample_decision sample_caps "\<lambda>n. [digit_char n]" 1000 "''r''"]
    by (simp add: Let_def sample_query_def sample_decision_def ws lo)
qed

section \<open>Facts about merging\<close>

text \<open>What the walk over the bars has kept and found so far.\<close>

definition merged_ok :: "string \<Rightarrow> rat \<Rightarrow> bar list \<Rightarrow> (int, bar) dict \<times> conflict list \<Rightarrow> bool" where
  "merged_ok st tol bars acc \<longleftrightarrow>
     dict_wf (fst acc) \<and>
     (\<forall>t. case dict_get (fst acc) t of None \<Rightarrow> t \<notin> hb_instant ` set bars | Some b \<Rightarrow> b \<in> set bars \<and> hb_instant b = t) \<and>
     (st \<noteq> ''prefer_newest_provenance'' \<longrightarrow> (\<forall>t. dict_get (fst acc) t = find (\<lambda>b. hb_instant b = t) bars)) \<and>
     (\<forall>c \<in> set (snd acc). tol < cf_delta_pct c \<and>
        (\<exists>a \<in> set bars. \<exists>b \<in> set bars. hb_instant a = hb_instant b \<and> c = conflict_of st a b))"

lemma find_snoc: "find P (xs @ [x]) = (case find P xs of None \<Rightarrow> if P x then Some x else None | Some y \<Rightarrow> Some y)"
  by (induction xs) auto

lemma merged_okD:
  assumes "merged_ok st tol bars (d, cs)"
  shows "dict_wf d" "dict_get d t = Some b \<Longrightarrow> b \<in> set bars \<and> hb_instant b = t"
    "dict_get d t = None \<Longrightarrow> t \<notin> hb_instant ` set bars"
    "st \<noteq> ''prefer_newest_provenance'' \<Longrightarrow> dict_get d t = find (\<lambda>b. hb_instant b = t) bars"
    "c \<in> set cs \<Longrightarrow> tol < cf_delta_pct c \<and>
       (\<exists>a \<in> set bars. \<exists>b \<in> set bars. hb_instant a = hb_instant b \<and> c = conflict_of st a b)"
proof -
  note m = assms[unfolded merged_ok_def fst_conv snd_conv]
  show "dict_wf d" using m by (rule conjunct1)
  have k: "case dict_get d t of None \<Rightarrow> t \<notin> hb_instant ` set bars | Some b \<Rightarrow> b \<in> set bars \<and> hb_instant b = t" for t
    using m by blast
  show "dict_get d t = Some b \<Longrightarrow> b \<in> set bars \<and> hb_instant b = t" using k[of t] by simp
  show "dict_get d t = None \<Longrightarrow> t \<notin> hb_instant ` set bars" using k[of t] by simp
  show "st \<noteq> ''prefer_newest_provenance'' \<Longrightarrow> dict_get d t = find (\<lambda>b. hb_instant b = t) bars" using m by blast
  show "c \<in> set cs \<Longrightarrow> tol < cf_delta_pct c \<and>
       (\<exists>a \<in> set bars. \<exists>b \<in> set bars. hb_instant a = hb_instant b \<and> c = conflict_of st a b)" using m by blast
qed

lemma merged_okI:
  assumes "dict_wf d" "\<And>t b. dict_get d t = Some b \<Longrightarrow> b \<in> set bars \<and> hb_instant b = t"
    "\<And>t. dict_get d t = None \<Longrightarrow> t \<notin> hb_instant ` set bars"
    "\<And>t. st \<noteq> ''prefer_newest_provenance'' \<Longrightarrow> dict_get d t = find (\<lambda>b. hb_instant b = t) bars"
    "\<And>c. c \<in> set cs \<Longrightarrow> tol < cf_delta_pct c \<and>
       (\<exists>a \<in> set bars. \<exists>b \<in> set bars. hb_instant a = hb_instant b \<and> c = conflict_of st a b)"
  shows "merged_ok st tol bars (d, cs)"
proof -
  have "case dict_get d t of None \<Rightarrow> t \<notin> hb_instant ` set bars | Some b \<Rightarrow> b \<in> set bars \<and> hb_instant b = t" for t
    using assms(2,3)[of t] by (cases "dict_get d t") auto
  then show ?thesis using assms(1,4,5) by (simp add: merged_ok_def)
qed

lemma merge_step_ok:
  assumes ok: "merged_ok st tol bars acc"
  shows "merged_ok st tol (bars @ [b]) (merge_step st tol acc b)"
proof -
  obtain d cs where acc: "acc = (d, cs)" by (cases acc)
  note m = merged_okD[OF ok[unfolded acc]]
  have conf: "tol < cf_delta_pct c \<and>
       (\<exists>a \<in> set (bars @ [b]). \<exists>b' \<in> set (bars @ [b]). hb_instant a = hb_instant b' \<and> c = conflict_of st a b')" if "c \<in> set cs" for c
    using m(5)[OF that] by auto
  show ?thesis
  proof (cases "dict_get d (hb_instant b)")
    case None
    have "merged_ok st tol (bars @ [b]) (dict_put d (hb_instant b) b, cs)"
    proof (rule merged_okI)
      show "x \<in> set (bars @ [b]) \<and> hb_instant x = t" if "dict_get (dict_put d (hb_instant b) b) t = Some x" for t x
        using that m(2)[of t x] by (auto split: if_splits)
      show "t \<notin> hb_instant ` set (bars @ [b])" if "dict_get (dict_put d (hb_instant b) b) t = None" for t
        using that m(3)[of t] by (auto split: if_splits)
      show "dict_get (dict_put d (hb_instant b) b) t = find (\<lambda>b. hb_instant b = t) (bars @ [b])"
        if "st \<noteq> ''prefer_newest_provenance''" for t
        using m(4)[OF that, of t] None by (auto simp: find_snoc split: option.split)
    qed (use m(1) conf in auto)
    then show ?thesis using None by (simp add: merge_step_def acc)
  next
    case (Some e)
    then have e: "e \<in> set bars" "hb_instant e = hb_instant b" using m(2) by auto
    have keep: "merged_ok st tol (bars @ [b]) (d, cs)"
    proof (rule merged_okI)
      show "x \<in> set (bars @ [b]) \<and> hb_instant x = t" if "dict_get d t = Some x" for t x
        using m(2)[OF that] by simp
      show "t \<notin> hb_instant ` set (bars @ [b])" if "dict_get d t = None" for t
        using that m(3)[OF that] Some by auto
      show "dict_get d t = find (\<lambda>b. hb_instant b = t) (bars @ [b])" if "st \<noteq> ''prefer_newest_provenance''" for t
        using m(4)[OF that, of t] Some by (auto simp: find_snoc split: option.split)
    qed (use m(1) conf in auto)
    show ?thesis
    proof (cases "close_delta e b \<le> tol")
      case True
      then show ?thesis using keep Some by (simp add: merge_step_def acc)
    next
      case False
      let ?d = "if st = ''prefer_newest_provenance'' \<and> pv_fetched_at (hb_provenance e) < pv_fetched_at (hb_provenance b)
             then dict_put d (hb_instant b) b else d"
      have new: "tol < cf_delta_pct (conflict_of st e b) \<and>
        (\<exists>a \<in> set (bars @ [b]). \<exists>b' \<in> set (bars @ [b]). hb_instant a = hb_instant b' \<and> conflict_of st e b = conflict_of st a b')"
        using False e by (auto simp: conflict_of_def)
      have "merged_ok st tol (bars @ [b]) (?d, cs @ [conflict_of st e b])"
      proof (rule merged_okI)
        show "dict_wf ?d" using m(1) by simp
        show "x \<in> set (bars @ [b]) \<and> hb_instant x = t" if "dict_get ?d t = Some x" for t x
          using that m(2)[of t x] by (auto split: if_splits)
        show "t \<notin> hb_instant ` set (bars @ [b])" if "dict_get ?d t = None" for t
          using that m(3)[of t] Some by (auto split: if_splits)
        show "dict_get ?d t = find (\<lambda>b. hb_instant b = t) (bars @ [b])" if "st \<noteq> ''prefer_newest_provenance''" for t
          using merged_okD(4)[OF keep that, of t] that by simp
        show "tol < cf_delta_pct c \<and>
          (\<exists>a \<in> set (bars @ [b]). \<exists>b' \<in> set (bars @ [b]). hb_instant a = hb_instant b' \<and> c = conflict_of st a b')"
          if "c \<in> set (cs @ [conflict_of st e b])" for c
          using that conf new by (cases "c \<in> set cs") auto
      qed
      then show ?thesis by (simp only: merge_step_def acc fst_conv snd_conv Some option.case False if_False)
    qed
  qed
qed

lemma merge_fold_ok: "merged_ok st tol bars (foldl (merge_step st tol) ([], []) bars)"
  by (induction bars rule: rev_induct) (simp_all add: merge_step_ok, simp add: merged_ok_def)

text \<open>The merged bars: one for every time that occurs, in strict order, each one of the bars that came in.\<close>

lemma merge_bars_spec:
  assumes "merge_bars st tol bars = (ms, cs)"
  shows "sorted_wrt (<) (map hb_instant ms)" "hb_instant ` set ms = hb_instant ` set bars" "set ms \<subseteq> set bars"
    "st \<noteq> ''prefer_newest_provenance'' \<Longrightarrow> m \<in> set ms \<Longrightarrow> find (\<lambda>b. hb_instant b = hb_instant m) bars = Some m"
    "\<forall>c \<in> set cs. tol < cf_delta_pct c"
proof -
  obtain d where f: "foldl (merge_step st tol) ([], []) bars = (d, cs)" "ms = sort_key hb_instant (dict_values d)"
    using assms by (auto simp: merge_bars_def split: prod.splits)
  have ok: "merged_ok st tol bars (d, cs)" using merge_fold_ok[of st tol bars] by (simp add: f(1))
  note wf = merged_okD(1)[OF ok] and mem = merged_okD(2)[OF ok] and none = merged_okD(3)[OF ok]
  have keys: "map hb_instant (dict_values d) = map fst d"
    using mem wf by (auto simp: dict_values_def dict_mem[symmetric])
  have "distinct (map hb_instant ms)"
  proof -
    have "mset (map hb_instant ms) = mset (map fst d)" by (simp only: f(2) mset_map mset_sort keys[symmetric])
    from mset_eq_imp_distinct_iff[OF this] show ?thesis using wf by (simp add: dict_wf_def)
  qed
  then show "sorted_wrt (<) (map hb_instant ms)" by (simp only: strict_sorted_iff f(2) sorted_sort_key simp_thms)
  have vals: "x \<in> set ms \<longleftrightarrow> (\<exists>t. dict_get d t = Some x)" for x
    using wf by (simp add: f(2) dict_values_mem)
  show sub: "set ms \<subseteq> set bars" using mem by (auto simp: vals)
  have "hb_instant b \<in> hb_instant ` set ms" if b: "b \<in> set bars" for b
  proof -
    obtain x where x: "dict_get d (hb_instant b) = Some x" using none[of "hb_instant b"] b by (cases "dict_get d (hb_instant b)") auto
    then have "x \<in> set ms" "hb_instant x = hb_instant b" using mem[OF x] by (auto simp: vals)
    then show ?thesis by (metis image_eqI)
  qed
  then show "hb_instant ` set ms = hb_instant ` set bars" using sub by blast
  show "find (\<lambda>b. hb_instant b = hb_instant m) bars = Some m" if "st \<noteq> ''prefer_newest_provenance''" "m \<in> set ms"
  proof -
    from that(2) obtain t where t: "dict_get d t = Some m" by (auto simp: vals)
    then show ?thesis using merged_okD(4)[OF ok that(1), of t] mem[OF t] by simp
  qed
  show "\<forall>c \<in> set cs. tol < cf_delta_pct c" using merged_okD(5)[OF ok] by blast
qed

lemma reindex_fields:
  "map hb_bar_index (reindex i bs) = map int [i..<i + length bs]" "map hb_instant (reindex i bs) = map hb_instant bs"
  "length (reindex i bs) = length bs" "map bar_date (reindex i bs) = map bar_date bs"
  by (induction i bs rule: reindex.induct) (simp_all add: bar_date_def upt_conv_Cons del: upt_Suc)

lemma reindex_mem: "b \<in> set (reindex i bs) \<Longrightarrow> \<exists>b0 k. b0 \<in> set bs \<and> b = b0\<lparr>hb_bar_index := k\<rparr>"
  by (induction i bs rule: reindex.induct) auto

text \<open>The ranges tile the indices, and all bars of one have its source.\<close>

definition range_indices :: "bar_range \<Rightarrow> nat list" where
  "range_indices r = [bg_start r..<Suc (bg_end r)]"

lemma bar_ranges_from_tile:
  "start < idx \<Longrightarrow> concat (map range_indices (bar_ranges_from cur start idx bs)) = [start..<idx + length bs]"
proof (induction cur start idx bs rule: bar_ranges_from.induct)
  case (2 cur start idx b bs)
  then have "[start..<Suc (idx - 1)] @ [idx..<Suc idx + length bs] = [start..<idx + length (b # bs)]"
    using upt_add_eq_append[of start idx "Suc (length bs)"] by simp
  then show ?case using 2 by (simp add: range_indices_def del: upt_Suc)
qed (simp add: range_indices_def del: upt_Suc)

lemma bar_ranges_tile: "concat (map range_indices (bar_ranges bars)) = [0..<length bars]"
  by (cases bars) (simp_all add: bar_ranges_from_tile del: upt_Suc)

section \<open>Facts about the coordinator\<close>

text \<open>A bar that a broker answered with, as it came or as the copy that marks a fallback.\<close>

definition answered :: "hist_env \<Rightarrow> bar \<Rightarrow> bool" where
  "answered env b \<longleftrightarrow> (\<exists>p bs b0. he_fetch env p = Inr bs \<and> b0 \<in> set bs \<and> (b = b0 \<or> b = fallback_bar b0))"

lemma answeredI: "he_fetch env p = Inr bs \<Longrightarrow> b \<in> set bs \<Longrightarrow> answered env b"
  "he_fetch env p = Inr bs \<Longrightarrow> b \<in> set bs \<Longrightarrow> answered env (fallback_bar b)"
  unfolding answered_def by blast+

lemma fetch_chunk_ledger:
  "pl_bar_ranges (snd (fetch_chunk env p l)) = pl_bar_ranges l \<and> pl_conflicts (snd (fetch_chunk env p l)) = pl_conflicts l"
  by (simp add: fetch_chunk_def add_chunk_def split: sum.split)

definition same_findings :: "ledger \<Rightarrow> ledger \<Rightarrow> bool" where
  "same_findings l l' \<longleftrightarrow> pl_bar_ranges l' = pl_bar_ranges l \<and> pl_conflicts l' = pl_conflicts l"

lemma same_findings_trans [trans]: "same_findings a b \<Longrightarrow> same_findings b c \<Longrightarrow> same_findings a c"
  by (simp add: same_findings_def)

lemma same_findings_refl [simp]: "same_findings l l"
  by (simp add: same_findings_def)

lemma fetch_chunk_same: "fetch_chunk env p l = (x, l') \<Longrightarrow> same_findings l l'"
  using fetch_chunk_ledger[of env p l] by (simp add: same_findings_def)

lemma fetch_chunk_answered: "fetch_chunk env p l = (Some bs, l') \<Longrightarrow> he_fetch env p = Inr bs"
  by (auto simp: fetch_chunk_def split: sum.splits)

lemma try_brokers_spec:
  "try_brokers env failed bids n l = (x, n', l') \<Longrightarrow>
   same_findings l l' \<and> (\<forall>bs. x = Some bs \<longrightarrow> (\<forall>b \<in> set bs. answered env b))"
proof (induction env failed bids n l rule: try_brokers.induct)
  case (2 env failed bid rest n l)
  obtain y l1 where f: "fetch_chunk env (retry_plan env n bid (ch_from_date failed) (ch_to_date failed) (ch_timeframe failed)
              (ch_request_id failed)) l = (y, l1)" by fastforce
  show ?case
  proof (cases y)
    case None
    then show ?thesis using 2(1)[OF f[symmetric, unfolded None]] 2(2) f fetch_chunk_same[OF f] by (auto intro: same_findings_trans)
  next
    case (Some bs)
    then show ?thesis using 2(2) f fetch_chunk_same[OF f] answeredI(2)[OF fetch_chunk_answered[OF f[unfolded Some]]] by auto
  qed
qed simp

lemma try_fallback_spec:
  "try_fallback env failed n l = (x, n', l') \<Longrightarrow>
   same_findings l l' \<and> (\<forall>bs. x = Some bs \<longrightarrow> (\<forall>b \<in> set bs. answered env b))"
  by (auto simp: try_fallback_def split: sum.splits dest: try_brokers_spec)

lemma fill_gap_spec:
  "fill_gap env q request g bids n l = (bs, n', l') \<Longrightarrow> same_findings l l' \<and> (\<forall>b \<in> set bs. answered env b)"
proof (induction env q request g bids n l rule: fill_gap.induct)
  case (2 env q request g bid rest n l)
  obtain y l1 where f: "fetch_chunk env (retry_plan env n bid (gp_start g) (gp_end g) (hq_timeframe q) request) l = (y, l1)" by fastforce
  show ?case
  proof (cases y)
    case None
    then show ?thesis using 2(1)[OF f[symmetric, unfolded None]] 2(3) f fetch_chunk_same[OF f] by (auto intro: same_findings_trans)
  next
    case (Some xs)
    then show ?thesis
      using 2(2)[OF f[symmetric, unfolded Some]] 2(3) f fetch_chunk_same[OF f]
        answeredI(1)[OF fetch_chunk_answered[OF f[unfolded Some]]]
      by (auto intro: same_findings_trans split: if_splits)
  qed
qed simp

lemma fill_each_spec:
  "fill_each env q request bids gs n l = (bs, n', l') \<Longrightarrow> same_findings l l' \<and> (\<forall>b \<in> set bs. answered env b)"
proof (induction env q request bids gs n l arbitrary: bs n' l' rule: fill_each.induct)
  case (2 env q request bids g gs n l)
  obtain b1 n1 l1 where f: "fill_gap env q request g bids n l = (b1, n1, l1)" by (metis prod_cases3)
  obtain b2 n2 l2 where r: "fill_each env q request bids gs n1 l1 = (b2, n2, l2)" by (metis prod_cases3)
  show ?case using 2(1)[OF f[symmetric] refl r] fill_gap_spec[OF f] 2(2) f r by (auto intro: same_findings_trans)
qed simp

lemma fill_gaps_spec:
  "fill_gaps env q request gs n l = (bs, n', l') \<Longrightarrow> same_findings l l' \<and> (\<forall>b \<in> set bs. answered env b)"
  by (auto simp: fill_gaps_def Let_def split: sum.splits if_splits dest: fill_each_spec)

lemma collect_spec:
  "collect env ps n l = (bars, ids, n', l') \<Longrightarrow> same_findings l l' \<and> (\<forall>b \<in> set bars. answered env b)"
proof (induction env ps n l arbitrary: bars ids n' l' rule: collect.induct)
  case (2 env p ps n l)
  let ?x = "case he_fetch env p of Inr (b # bs) \<Rightarrow> (Some (b # bs), n, l) | _ \<Rightarrow> try_fallback env p n l"
  obtain got n1 l1 where g: "?x = (got, n1, l1)" by (metis prod_cases3)
  obtain b2 i2 n2 l2 where r: "collect env ps n1 l1 = (b2, i2, n2, l2)" by (metis prod_cases4)
  have "same_findings l l1 \<and> (\<forall>bs. got = Some bs \<longrightarrow> (\<forall>b \<in> set bs. answered env b))"
    using g answeredI(1)[of env p] by (auto split: sum.splits list.splits dest: try_fallback_spec)
  moreover have "same_findings l1 l2 \<and> (\<forall>b \<in> set b2. answered env b)" using 2(1)[OF g[symmetric] refl r] .
  moreover have "l' = l2" "bars = (case got of None \<Rightarrow> b2 | Some bs \<Rightarrow> bs @ b2)"
    using 2(2) by (auto simp only: collect.simps g r prod.case split: option.splits)
  ultimately show ?case by (auto intro: same_findings_trans split: option.splits)
qed simp

lemma first_round_same: "same_findings l (foldl (\<lambda>l p. snd (fetch_chunk env p l)) l ps)"
proof (induction ps arbitrary: l)
  case (Cons p ps)
  have "same_findings l (snd (fetch_chunk env p l))" by (rule fetch_chunk_same[where x = "fst (fetch_chunk env p l)"]) simp
  from same_findings_trans[OF this Cons] show ?case by simp
qed simp

definition stamped :: "hist_env \<Rightarrow> bar \<Rightarrow> bool" where
  "stamped env b \<longleftrightarrow> (\<exists>b0 k. answered env b0 \<and> b = b0\<lparr>hb_bar_index := k\<rparr>)"

text \<open>What one round of merging leaves, when it does not raise.\<close>

lemma merge_round_spec:
  assumes "merge_and_detect_gaps env bars ids chunks q l = (Inr (m, gaps), l')" "\<forall>b \<in> set bars. answered env b"
  shows "map hb_bar_index m = map int [0..<length m]" "sorted_wrt (<) (map hb_instant m)" "\<forall>b \<in> set m. stamped env b"
    "gaps = detect_gaps (he_trading_day env) m (hq_from_date q) (hq_to_date q) chunks"
    "pl_bar_ranges l' = pl_bar_ranges l @ bar_ranges m" "bars \<noteq> [] \<Longrightarrow> m \<noteq> []"
    "hq_merge_strategy q = ''fail_on_conflict'' \<Longrightarrow> pl_conflicts l' = pl_conflicts l"
proof -
  obtain ms cs where f: "merge_bars (hq_merge_strategy q) (hq_tolerance q) (sort_key hb_instant bars) = (ms, cs)" by fastforce
  have r: "m = reindex 0 ms" "gaps = detect_gaps (he_trading_day env) m (hq_from_date q) (hq_to_date q) chunks"
    "l' = add_bar_ranges (bar_ranges m) (add_conflicts cs l)" "hq_merge_strategy q = ''fail_on_conflict'' \<Longrightarrow> cs = []"
    using assms(1)[unfolded merge_and_detect_gaps_def f prod.case Let_def] by (auto split: if_splits)
  note spec = merge_bars_spec(1-3)[OF f]
  show "map hb_bar_index m = map int [0..<length m]" by (simp add: r(1) reindex_fields)
  show "sorted_wrt (<) (map hb_instant m)" using spec(1) by (simp only: r(1) reindex_fields)
  show "\<forall>b \<in> set m. stamped env b"
  proof
    fix b assume "b \<in> set m"
    then obtain b0 k where "b0 \<in> set ms" "b = b0\<lparr>hb_bar_index := k\<rparr>" using reindex_mem[of b 0 ms] r(1) by blast
    then show "stamped env b" using spec(3) assms(2) unfolding stamped_def by auto
  qed
  show "gaps = detect_gaps (he_trading_day env) m (hq_from_date q) (hq_to_date q) chunks" by (rule r(2))
  show "pl_bar_ranges l' = pl_bar_ranges l @ bar_ranges m" by (simp add: r(3) add_bar_ranges_def add_conflicts_def)
  show "bars \<noteq> [] \<Longrightarrow> m \<noteq> []" using spec(2) reindex_fields(3)[of 0 ms] by (auto simp: r(1))
  show "hq_merge_strategy q = ''fail_on_conflict'' \<Longrightarrow> pl_conflicts l' = pl_conflicts l"
    using r(4) by (simp add: r(3) add_bar_ranges_def add_conflicts_def)
qed

text \<open>
  The three ways to end with a series: nothing was answered, one round of merging, or a second
  one over all bars after gaps were filled, which then adds to what the first has recorded.
\<close>

lemma fetch_planned_cases:
  assumes "fetch_planned env q request chunks l = Inr (s, l')" "pl_bar_ranges l = []" "pl_conflicts l = []"
  obtains "sr_bars s = []"
  | bars ids l1 m gaps l2 where "\<forall>b \<in> set bars. answered env b" "bars \<noteq> []" "pl_bar_ranges l1 = []" "pl_conflicts l1 = []"
    "merge_and_detect_gaps env bars ids chunks q l1 = (Inr (m, gaps), l2)" "sr_bars s = m" "sr_gaps s = gaps"
    "same_findings l2 l'"
  | bars ids l1 m gaps l2 l3 m' gaps' l4 extra where "\<forall>b \<in> set (bars @ extra). answered env b" "bars \<noteq> []" "pl_bar_ranges l1 = []"
    "pl_conflicts l1 = []"
    "merge_and_detect_gaps env bars ids chunks q l1 = (Inr (m, gaps), l2)" "same_findings l2 l3"
    "merge_and_detect_gaps env (bars @ extra) ids chunks q l3 = (Inr (m', gaps'), l4)" "sr_bars s = m'" "sr_gaps s = gaps'"
    "same_findings l4 l'"
proof -
  define l0 where "l0 = foldl (\<lambda>l p. snd (fetch_chunk env p l)) l (he_finish env chunks)"
  obtain bars ids n l1 where c: "collect env chunks (length chunks) l0 = (bars, ids, n, l1)" by (metis prod_cases4)
  have "same_findings l l0" unfolding l0_def by (rule first_round_same)
  then have l1: "pl_bar_ranges l1 = []" "pl_conflicts l1 = []" "\<forall>b \<in> set bars. answered env b"
    using collect_spec[OF c] assms(2,3) by (auto simp: same_findings_def)
  have fin: "sr_bars (fst (finish_series chunks q m gaps l)) = m \<and> sr_gaps (fst (finish_series chunks q m gaps l)) = gaps \<and>
      same_findings l (snd (finish_series chunks q m gaps l))" for m gaps l
    by (simp add: finish_series_def Let_def same_findings_def mark_degraded_def)
  note p = assms(1)[unfolded fetch_planned_def Let_def l0_def[symmetric] c prod.case]
  show thesis
  proof (cases "bars = []")
    case True
    then show thesis using p that(1) by (auto simp: empty_series_def)
  next
    case ne: False
    obtain x l2 where x: "merge_and_detect_gaps env bars ids chunks q l1 = (x, l2)" by fastforce
    then obtain m gaps where m: "x = Inr (m, gaps)" using p ne by (cases x) auto
    obtain extra n' l3 where g: "fill_gaps env q request gaps n l2 = (extra, n', l3)" by (metis prod_cases3)
    note fg = fill_gaps_spec[OF g]
    show thesis
    proof (cases "gaps = [] \<or> extra = []")
      case True
      define l5 where "l5 = (if gaps = [] then l2 else l3)"
      have "same_findings l2 l5" "finish_series chunks q m gaps l5 = (s, l')"
        using p ne fg True by (auto simp: x m g l5_def split: if_splits)
      then show thesis using that(2)[OF l1(3) ne l1(1,2) x[unfolded m]] fin[of m gaps l5]
        by (auto intro: same_findings_trans)
    next
      case False
      obtain y l4 where y: "merge_and_detect_gaps env (bars @ extra) ids chunks q l3 = (y, l4)" by fastforce
      then obtain m' gaps' where m': "y = Inr (m', gaps')" using p ne False by (cases y) (auto simp: x m g)
      have "finish_series chunks q m' gaps' l4 = (s, l')" using p ne False by (auto simp: x m g y m')
      then show thesis using that(3)[OF _ ne l1(1,2) x[unfolded m] _ y[unfolded m']] fin[of m' gaps' l4] l1(3) fg by auto
    qed
  qed
qed

text \<open>Every planned chunk with a trading day either has a bar or is listed as a gap.\<close>

lemma detect_gaps_chunks:
  "bars \<noteq> [] \<Longrightarrow> c \<in> set chunks \<Longrightarrow> spans_trading_day trading (ch_from_date c) (ch_to_date c) \<Longrightarrow>
   (\<exists>b \<in> set bars. ch_from_date c \<le> bar_date b \<and> bar_date b \<le> ch_to_date c) \<or>
   \<lparr>gp_start = ch_from_date c, gp_end = ch_to_date c, gp_reason = ''missing_chunk''\<rparr> \<in> set (detect_gaps trading bars from_d to_d chunks)"
  by (auto simp: detect_gaps_def Let_def list_ex_iff)

lemma detect_gaps_ends:
  "bars \<noteq> [] \<Longrightarrow> trading d \<Longrightarrow> from_d \<le> d \<and> d < bar_date (hd bars) \<or> bar_date (last bars) < d \<and> d \<le> to_d \<Longrightarrow>
   \<exists>g \<in> set (detect_gaps trading bars from_d to_d chunks). gp_start g \<le> d \<and> d \<le> gp_end g"
proof -
  assume a: "bars \<noteq> []" "trading d" "from_d \<le> d \<and> d < bar_date (hd bars) \<or> bar_date (last bars) < d \<and> d \<le> to_d"
  let ?first = "\<lparr>gp_start = from_d, gp_end = bar_date (hd bars) - 1, gp_reason = ''missing_from_start''\<rparr>"
  let ?last = "\<lparr>gp_start = bar_date (last bars) + 1, gp_end = to_d, gp_reason = ''missing_from_end''\<rparr>"
  from a(3) consider (first) "from_d \<le> d" "d < bar_date (hd bars)" | (last) "bar_date (last bars) < d" "d \<le> to_d" by blast
  then show ?thesis
  proof cases
    case first
    then have "spans_trading_day trading from_d (bar_date (hd bars) - 1)" "from_d < bar_date (hd bars)"
      using a(2) by (auto simp: spans_trading_day_def list_ex_iff intro!: bexI[of _ d])
    then have "?first \<in> set (detect_gaps trading bars from_d to_d chunks)" using a(1) by (simp add: detect_gaps_def Let_def)
    then show ?thesis using first by (intro bexI[of _ ?first]) simp_all
  next
    case last
    then have "spans_trading_day trading (bar_date (last bars) + 1) to_d" "bar_date (last bars) < to_d"
      using a(2) by (auto simp: spans_trading_day_def list_ex_iff intro!: bexI[of _ d])
    then have "?last \<in> set (detect_gaps trading bars from_d to_d chunks)" using a(1) by (simp add: detect_gaps_def Let_def)
    then show ?thesis using last by (intro bexI[of _ ?last]) simp_all
  qed
qed

lemma detect_gaps_trading:
  "g \<in> set (detect_gaps trading bars from_d to_d chunks) \<Longrightarrow> spans_trading_day trading (gp_start g) (gp_end g)"
  by (auto simp: detect_gaps_def Let_def split: if_splits)

lemma ledger_new_empty: "pl_bar_ranges (ledger_new r i tf st) = []" "pl_conflicts (ledger_new r i tf st) = []"
  by (simp_all add: ledger_new_def)

definition request_of :: "hist_env \<Rightarrow> hist_query \<Rightarrow> string" where
  "request_of env q = (case hq_request_id q of None \<Rightarrow> he_request_id env | Some r \<Rightarrow> if r = [] then he_request_id env else r)"

lemma hist_fetch_cases:
  assumes "hist_fetch env q = Some (Inr (s, l'))"
  obtains "sr_bars s = []"
  | chunks l where "plan_chunks (he_route env) (he_caps env) (he_ids env) (he_today env) q (request_of env q) = Some (Inr chunks)"
    "fetch_planned env q (request_of env q) chunks l = Inr (s, l')" "pl_bar_ranges l = []" "pl_conflicts l = []"
  using assms that unfolding hist_fetch_def Let_def request_of_def[symmetric]
  by (auto simp: ledger_new_empty empty_series_def split: option.splits sum.splits if_splits)


definition sample_bar :: "string \<Rightarrow> int \<Rightarrow> rat \<Rightarrow> bar" where
  "sample_bar bid day price =
     \<lparr>hb_symbol = ''SBIN'', hb_exchange = ''NSE'', hb_timeframe = ''1m'', hb_instant = day * 86400 * 10 ^ 6, hb_offset = 0,
      hb_open = price, hb_high = price, hb_low = price, hb_close = price, hb_volume = 10,
      hb_provenance = \<lparr>pv_broker_id = bid, pv_account_id = None, pv_connection_id = None, pv_fetched_at = 0,
        pv_request_id = ''r'', pv_confidence = AUTHORITATIVE, pv_transformations = []\<rparr>,
      hb_open_interest = 0, hb_bar_index = 0, hb_is_partial = False, hb_close_time = None, hb_tick_count = 0, hb_extras = []\<rparr>"

text \<open>Dhan has the first of five days only; Upstox is asked for the rest and has one of them.\<close>

definition sample_hist_env :: hist_env where
  "sample_hist_env =
     (let d = sample_decision\<lparr>rd_parallel_brokers := []\<rparr> in
      \<lparr>he_route = Inr d, he_route_fallback = (\<lambda>p. Inr d), he_route_gaps = Inr d, he_caps = sample_caps,
       he_fetch = (\<lambda>p. if ch_broker_id p = ''dhan'' then Inr [sample_bar ''dhan'' 995 100] else Inr [sample_bar ''upstox'' 998 101]),
       he_ids = (\<lambda>n. ''c''), he_request_id = ''r'', he_finish = (\<lambda>ps. ps), he_today = 1000,
       he_trading_day = (\<lambda>d. True)\<rparr>)"

lemma sample_fetch:
  "case hist_fetch sample_hist_env (sample_query 995 999) of
     Some (Inr (s, l)) \<Rightarrow> length (sr_bars s) = 2 \<and> map bg_end (pl_bar_ranges l) = [0, 0, 1] \<and> length (sr_gaps s) = 1
   | _ \<Rightarrow> False"
  by code_simp


end
