(* ===== verification/Quota.thy ===== *)
theory Quota
  imports Broker_Routing
begin

text \<open>
  The quota of the broker interfaces: the scheduler
  (\<open>application/scheduling/quota_scheduler.py\<close>) and the rate-limit tables
  (\<open>brokers/common/rate_limit_config.py\<close>). Every bucket reads the clock itself when it refills,
  so an attempt gets one reading for each bucket it looks at; a waiting call is a loop over its
  attempts, and the asynchronous variant differs only in how it sleeps. An attempt on several
  buckets runs as a whole; the code takes and gives back their locks one by one.
\<close>

section \<open>Token buckets with a reserve\<close>

datatype priority = EXECUTION_CRITICAL | LIVE_STREAM_CONTROL | PORTFOLIO_READ | HISTORICAL_BACKFILL | ENRICHMENT

definition priorities :: "(string \<times> priority) list" where
  "priorities =
     [(''EXECUTION_CRITICAL'', EXECUTION_CRITICAL), (''LIVE_STREAM_CONTROL'', LIVE_STREAM_CONTROL),
      (''PORTFOLIO_READ'', PORTFOLIO_READ), (''HISTORICAL_BACKFILL'', HISTORICAL_BACKFILL), (''ENRICHMENT'', ENRICHMENT)]"

fun priority_name :: "priority \<Rightarrow> string" where
  "priority_name EXECUTION_CRITICAL = ''EXECUTION_CRITICAL''"
| "priority_name LIVE_STREAM_CONTROL = ''LIVE_STREAM_CONTROL''"
| "priority_name PORTFOLIO_READ = ''PORTFOLIO_READ''"
| "priority_name HISTORICAL_BACKFILL = ''HISTORICAL_BACKFILL''"
| "priority_name ENRICHMENT = ''ENRICHMENT''"

fun max_wait :: "priority \<Rightarrow> rat" where
  "max_wait EXECUTION_CRITICAL = 2"
| "max_wait LIVE_STREAM_CONTROL = 0"
| "max_wait PORTFOLIO_READ = 5"
| "max_wait HISTORICAL_BACKFILL = 60"
| "max_wait ENRICHMENT = 10"

record qbucket =
  qb_rate :: rat
  qb_capacity :: rat
  qb_headroom :: rat
  qb_tokens :: rat
  qb_last_refill :: rat

definition qb_new :: "rat \<Rightarrow> rat \<Rightarrow> rat \<Rightarrow> rat \<Rightarrow> qbucket" where
  "qb_new rate capacity headroom now =
     \<lparr>qb_rate = rate, qb_capacity = capacity, qb_headroom = headroom, qb_tokens = capacity, qb_last_refill = now\<rparr>"

definition qb_reserved :: "qbucket \<Rightarrow> rat" where
  "qb_reserved b = flt_mul (qb_capacity b) (qb_headroom b)"

definition qb_refill :: "rat \<Rightarrow> qbucket \<Rightarrow> qbucket" where
  "qb_refill now b =
     b\<lparr>qb_tokens := min (qb_capacity b) (flt_add (qb_tokens b) (flt_mul (flt_sub now (qb_last_refill b)) (qb_rate b))),
       qb_last_refill := now\<rparr>"

definition qb_try :: "priority \<Rightarrow> rat \<Rightarrow> qbucket \<Rightarrow> bool \<times> qbucket" where
  "qb_try p now b =
     (let b1 = qb_refill now b; taken = b1\<lparr>qb_tokens := flt_sub (qb_tokens b1) 1\<rparr> in
      if p = EXECUTION_CRITICAL then (if 1 \<le> qb_tokens b1 then (True, taken) else (False, b1))
      else (if 1 \<le> max 0 (flt_sub (qb_tokens b1) (qb_reserved b1)) then (True, taken) else (False, b1)))"

definition qb_available :: "priority \<Rightarrow> rat \<Rightarrow> qbucket \<Rightarrow> rat \<times> qbucket" where
  "qb_available p now b =
     (let b1 = qb_refill now b in
      (if p = EXECUTION_CRITICAL then max 0 (qb_tokens b1) else max 0 (flt_sub (qb_tokens b1) (qb_reserved b1)), b1))"

definition qb_refund :: "qbucket \<Rightarrow> qbucket" where
  "qb_refund b = b\<lparr>qb_tokens := min (qb_capacity b) (flt_add (qb_tokens b) 1)\<rparr>"

definition qb_utilization :: "rat \<Rightarrow> qbucket \<Rightarrow> rat \<times> qbucket" where
  "qb_utilization now b =
     (let b1 = qb_refill now b in
      (if 0 < qb_capacity b1 then flt_sub 1 (flt_div (qb_tokens b1) (qb_capacity b1)) else 1, b1))"

section \<open>The scheduler\<close>

type_synonym quota_key = "string \<times> string"

record scheduler =
  qs_headroom :: rat
  qs_buckets :: "(quota_key, qbucket) dict"
  qs_windows :: "(quota_key, qbucket list) dict"

definition scheduler_new :: "rat \<Rightarrow> scheduler" where
  "scheduler_new headroom = \<lparr>qs_headroom = headroom, qs_buckets = [], qs_windows = []\<rparr>"

text \<open>A window of no seconds divides by zero, when the bucket of the rate has already been stored.\<close>

definition window_bucket :: "rat \<Rightarrow> int \<times> rat \<Rightarrow> qbucket" where
  "window_bucket now w = qb_new (flt_div (flt (of_int (fst w))) (snd w)) (flt (of_int (fst w))) 0 now"

definition burst_of :: "rate_limit_profile \<Rightarrow> rat" where
  "burst_of p = (case rl_burst_rps p of Some b \<Rightarrow> if b = 0 then flt_mul (rl_sustained_rps p) 2 else b
                 | None \<Rightarrow> flt_mul (rl_sustained_rps p) 2)"

definition register_profile :: "string \<Rightarrow> rate_limit_profile \<Rightarrow> rat \<Rightarrow> scheduler \<Rightarrow> exn option \<times> scheduler" where
  "register_profile bid p now s =
     (let key = (bid, rl_endpoint_class p);
          s1 = s\<lparr>qs_buckets := dict_put (qs_buckets s) key (qb_new (rl_sustained_rps p) (burst_of p) (qs_headroom s) now)\<rparr> in
      if list_ex (\<lambda>w. snd w = 0) (rl_extra_windows p) then (Some (External ''float division by zero''), s1)
      else (None, s1\<lparr>qs_windows := dict_put (qs_windows s1) key (map (window_bucket now) (rl_extra_windows p))\<rparr>))"

definition get_or_default_bucket :: "string \<times> string \<Rightarrow> rat \<Rightarrow> scheduler \<Rightarrow> qbucket \<times> scheduler" where
  "get_or_default_bucket key now s =
     (case dict_get (qs_buckets s) key of
        Some b \<Rightarrow> (b, s)
      | None \<Rightarrow> (let b = qb_new 10 20 (qs_headroom s) now in (b, s\<lparr>qs_buckets := dict_put (qs_buckets s) key b\<rparr>)))"

text \<open>When a window refuses, what the windows before it gave is refunded; \<open>ts i\<close> is the reading of the next one.\<close>

fun take_windows :: "priority \<Rightarrow> (nat \<Rightarrow> rat) \<Rightarrow> nat \<Rightarrow> qbucket list \<Rightarrow> bool \<times> qbucket list" where
  "take_windows p ts i [] = (True, [])"
| "take_windows p ts i (w # ws) =
     (case qb_try p (ts i) w of
        (False, w1) \<Rightarrow> (False, w1 # ws)
      | (True, w1) \<Rightarrow>
          (case take_windows p ts (Suc i) ws of
             (True, ws1) \<Rightarrow> (True, w1 # ws1)
           | (False, ws1) \<Rightarrow> (False, qb_refund w1 # ws1)))"

definition windows_of :: "scheduler \<Rightarrow> quota_key \<Rightarrow> qbucket list" where
  "windows_of s key = (case dict_get (qs_windows s) key of None \<Rightarrow> [] | Some ws \<Rightarrow> ws)"

definition store_windows :: "quota_key \<Rightarrow> qbucket list \<Rightarrow> scheduler \<Rightarrow> scheduler" where
  "store_windows key ws s = (if dict_get (qs_windows s) key = None then s else s\<lparr>qs_windows := dict_put (qs_windows s) key ws\<rparr>)"

definition try_acquire_composite :: "quota_key \<Rightarrow> priority \<Rightarrow> (nat \<Rightarrow> rat) \<Rightarrow> scheduler \<Rightarrow> bool \<times> scheduler" where
  "try_acquire_composite key p ts s =
     (case get_or_default_bucket key (ts 0) s of
        (b, s1) \<Rightarrow>
          (case qb_try p (ts 0) b of
             (False, b1) \<Rightarrow> (False, s1\<lparr>qs_buckets := dict_put (qs_buckets s1) key b1\<rparr>)
           | (True, b1) \<Rightarrow>
               (case take_windows p ts 1 (windows_of s1 key) of
                  (ok, ws) \<Rightarrow>
                    (ok, store_windows key ws
                       (s1\<lparr>qs_buckets := dict_put (qs_buckets s1) key (if ok then b1 else qb_refund b1)\<rparr>)))))"

datatype quota_exn = Quota_Exhausted string string string "rat option" | Key_Error string

record quota_token =
  qt_broker_id :: string
  qt_endpoint_class :: string
  qt_priority_class :: string
  qt_token_id :: string

definition priority_of :: "string + priority \<Rightarrow> quota_exn + priority" where
  "priority_of x =
     (case x of
        Inr p \<Rightarrow> Inr p
      | Inl n \<Rightarrow> (case map_of priorities n of None \<Rightarrow> Inl (Key_Error n) | Some p \<Rightarrow> Inr p))"

definition retry_after :: "qbucket \<Rightarrow> rat option" where
  "retry_after b = (if 0 < qb_rate b then Some (flt_div 1 (qb_rate b)) else None)"

text \<open>An attempt brings the readings for the buckets and the time after it. \<open>None\<close>: no more attempts, and the call still waits.\<close>

fun quota_wait ::
  "quota_key \<Rightarrow> priority \<Rightarrow> string \<Rightarrow> rat \<Rightarrow> rat option \<Rightarrow> ((nat \<Rightarrow> rat) \<times> rat) list \<Rightarrow> scheduler \<Rightarrow>
   (quota_exn + quota_token) option \<times> scheduler" where
  "quota_wait key p tid deadline again [] s = (None, s)"
| "quota_wait key p tid deadline again ((ts, now) # rest) s =
     (case try_acquire_composite key p ts s of
        (True, s1) \<Rightarrow>
          (Some (Inr \<lparr>qt_broker_id = fst key, qt_endpoint_class = snd key, qt_priority_class = priority_name p, qt_token_id = tid\<rparr>), s1)
      | (False, s1) \<Rightarrow>
          if flt_sub deadline now \<le> 0 then (Some (Inl (Quota_Exhausted (fst key) (snd key) (priority_name p) again)), s1)
          else quota_wait key p tid deadline again rest s1)"

definition quota_acquire ::
  "quota_key \<Rightarrow> string + priority \<Rightarrow> string \<Rightarrow> rat \<Rightarrow> rat \<Rightarrow> ((nat \<Rightarrow> rat) \<times> rat) list \<Rightarrow> scheduler \<Rightarrow>
   (quota_exn + quota_token) option \<times> scheduler" where
  "quota_acquire key pc tid start created attempts s =
     (case priority_of pc of
        Inl e \<Rightarrow> (Some (Inl e), s)
      | Inr p \<Rightarrow>
          (case get_or_default_bucket key created s of
             (b, s1) \<Rightarrow> quota_wait key p tid (flt_add start (max_wait p)) (retry_after b) attempts s1))"

definition quota_release :: "quota_token \<Rightarrow> scheduler \<Rightarrow> scheduler" where
  "quota_release t s = s"

definition headroom_for :: "quota_key \<Rightarrow> rat \<Rightarrow> scheduler \<Rightarrow> rat \<times> scheduler" where
  "headroom_for key now s =
     (case dict_get (qs_buckets s) key of
        None \<Rightarrow> (1, s)
      | Some b \<Rightarrow>
          (case qb_available HISTORICAL_BACKFILL now b of
             (a, b1) \<Rightarrow>
               (if 0 < qb_capacity b1 then flt_div a (qb_capacity b1) else 0, s\<lparr>qs_buckets := dict_put (qs_buckets s) key b1\<rparr>)))"

section \<open>The tables of the brokers\<close>

type_synonym rate_table = "(string \<times> rat \<times> rat \<times> int \<times> int \<times> (int \<times> rat) list) list"

definition dhan_rate_limits :: rate_table where
  "dhan_rate_limits =
     [(''orders'', 10, 20, 100, 130, [(250, 60), (7000, 86400)]),
      (''quotes'', 10, 20, 100, 130, []),
      (''historical'', 5, 10, 200, 130, []),
      (''options_historical'', 2, 3, 500, 130, []),
      (''expired_historical'', 5, 10, 200, 60, []),
      (''admin'', 10, 20, 100, 130, [])]"

definition upstox_rate_limits :: rate_table where
  "upstox_rate_limits =
     [(''orders'', 10, 20, 100, 60, [(500, 60), (2000, 1800)]),
      (''quotes'', 25, 50, 40, 60, []),
      (''historical'', 5, 10, 200, 60, []),
      (''option_chain'', 5, 10, 200, 60, []),
      (''funds'', 5, 10, 200, 60, []),
      (''positions'', 5, 10, 200, 60, []),
      (''holdings'', 2, 5, 500, 60, []),
      (''options_historical'', 5, 10, 200, 60, []),
      (''expired_historical'', 5, 10, 200, 60, [])]"

definition paper_rate_limits :: rate_table where
  "paper_rate_limits =
     [(''orders'', 1000, 1000, 0, 0, []), (''quotes'', 1000, 1000, 0, 0, []), (''historical'', 1000, 1000, 0, 0, [])]"

definition profiles_from_table :: "rate_table \<Rightarrow> rate_limit_profile list" where
  "profiles_from_table t =
     map (\<lambda>(ec, rps, burst, gap, cool, ws).
       \<lparr>rl_endpoint_class = ec, rl_sustained_rps = rps, rl_burst_rps = Some burst, rl_min_interval_ms = Some gap,
        rl_cooldown_on_429_s = Some cool, rl_extra_windows = ws\<rparr>) t"

definition rate_limit_table_for :: "string \<Rightarrow> rate_table" where
  "rate_limit_table_for bid =
     (let key = py_strip (py_upper (if bid = [] then ''paper'' else bid)) in
      if key = ''DHAN'' then dhan_rate_limits else if key = ''UPSTOX'' then upstox_rate_limits else paper_rate_limits)"

section \<open>Exact steps of floats\<close>

text \<open>Between one and two to the fifty-third, taking one from a float and giving it back loses nothing.\<close>

lemma flt_representable: "flt x = x \<longleftrightarrow> representable 2 53 x"
  using flt_format.representable_round[of x] flt_format.round_exact[of x] by (metis flt_def)

lemma powi_nat_int: "0 \<le> e \<Longrightarrow> power_int (2 :: rat) e = of_int (2 ^ nat e)"
  by (simp add: power_int_def)

lemma representable_take_one:
  assumes "representable 2 53 x" "1 \<le> x" "x \<le> 2 ^ 53"
  shows "representable 2 53 (x - 1)"
proof -
  from assms(1) obtain m e where x: "x = of_int m * power_int 2 e" "\<bar>m\<bar> \<le> 2 ^ 53" by (auto simp: representable_def)
  show ?thesis
  proof (cases "0 \<le> e")
    case True
    then have i: "x = of_int (m * 2 ^ nat e)" by (simp add: x(1) powi_nat_int)
    have "representable 2 53 (of_int (m * 2 ^ nat e - 1) :: rat)"
      unfolding representable_def
    proof (rule exI[of _ "m * 2 ^ nat e - 1"], rule exI[of _ 0], intro conjI)
      have "(1 :: rat) \<le> of_int (m * 2 ^ nat e)" "of_int (m * 2 ^ nat e) \<le> (of_int (2 ^ 53) :: rat)" using assms(2,3) unfolding i by simp_all
      then have "1 \<le> m * 2 ^ nat e" "m * 2 ^ nat e \<le> 2 ^ 53" by (simp_all only: of_int_le_iff of_int_1_le_iff)
      then show "\<bar>m * 2 ^ nat e - 1\<bar> \<le> int 2 ^ 53" by simp
    qed simp
    then show ?thesis by (simp add: i)
  next
    case False
    have "(1 :: rat) = of_int (2 ^ nat (- e)) * power_int 2 e" using False by (simp add: power_int_def field_simps)
    then have "x - 1 = of_int (m - 2 ^ nat (- e)) * power_int 2 e" by (simp add: x(1) left_diff_distrib)
    moreover have "\<bar>m - 2 ^ nat (- e)\<bar> \<le> 2 ^ 53"
    proof -
      have p: "0 < power_int (2 :: rat) e" by simp
      have "of_int (m - 2 ^ nat (- e)) * power_int 2 e \<ge> (0 :: rat)" using assms(2) \<open>x - 1 = _\<close> by simp
      then have "(0 :: rat) \<le> of_int (m - 2 ^ nat (- e))" using p by (simp only: zero_le_mult_iff) (auto dest: less_le_trans)
      then have "0 \<le> m - 2 ^ nat (- e)" by (simp only: of_int_0_le_iff)
      moreover have "(0 :: int) \<le> 2 ^ nat (- e)" by simp
      ultimately show ?thesis using x(2) by linarith
    qed
    ultimately show ?thesis unfolding representable_def
      by (intro exI[of _ "m - 2 ^ nat (- e)"] exI[of _ e]) simp
  qed
qed

lemma take_one_exact: "flt x = x \<Longrightarrow> 1 \<le> x \<Longrightarrow> x \<le> 2 ^ 53 \<Longrightarrow> flt_sub x 1 = x - 1"
  using representable_take_one[of x] by (simp add: flt_sub_def flt_representable)

lemma give_back_exact: "flt x = x \<Longrightarrow> 1 \<le> x \<Longrightarrow> x \<le> 2 ^ 53 \<Longrightarrow> flt_add (flt_sub x 1) 1 = x"
  by (simp add: take_one_exact flt_add_def)

text \<open>The difference of two floats that are within a factor of two is exact.\<close>

lemma representable_diff:
  assumes "representable 2 53 x" "representable 2 53 y" "0 \<le> y" "y \<le> x" "x \<le> 2 * y"
  shows "representable 2 53 (x - y)"
proof -
  from assms(1) obtain m e where x: "x = of_int m * power_int 2 e" "\<bar>m\<bar> \<le> 2 ^ 53" by (auto simp: representable_def)
  from assms(2) obtain n f where y: "y = of_int n * power_int 2 f" "\<bar>n\<bar> \<le> 2 ^ 53" by (auto simp: representable_def)
  define g where "g = min e f"
  define k where "k = m * 2 ^ nat (e - g) - n * 2 ^ nat (f - g)"
  have split: "power_int (2 :: rat) h = of_int (2 ^ nat (h - g)) * power_int 2 g" if "g \<le> h" for h
  proof -
    have "power_int (2 :: rat) h = power_int 2 (h - g) * power_int 2 g" by (subst power_int_add[symmetric]) simp_all
    then show ?thesis using that by (simp add: powi_nat_int)
  qed
  have d: "x - y = of_int k * power_int 2 g"
    using split[of e] split[of f] by (simp add: x(1) y(1) k_def g_def left_diff_distrib)
  have p: "0 < power_int (2 :: rat) g" by simp
  have "of_int k * power_int 2 g \<le> of_int n * power_int (2 :: rat) f" "of_int k * power_int 2 g \<le> of_int m * power_int (2 :: rat) e"
    "0 \<le> of_int k * power_int (2 :: rat) g"
    using assms(3-5) by (simp_all only: d[symmetric] x(1)[symmetric] y(1)[symmetric])
  note b = this
  have k0: "0 \<le> k" using b(3) p by (metis mult_less_0_iff not_less of_int_0_le_iff)
  have "\<bar>k\<bar> \<le> 2 ^ 53"
  proof (cases "e \<le> f")
    case True
    then have "k \<le> m" using b(2) p by (simp add: g_def)
    then show ?thesis using x(2) k0 by simp
  next
    case False
    then have "k \<le> n" using b(1) p by (simp add: g_def)
    then show ?thesis using y(2) k0 by simp
  qed
  then show ?thesis using d unfolding representable_def by auto
qed

section \<open>Facts about buckets\<close>

definition qb_wf :: "qbucket \<Rightarrow> bool" where
  "qb_wf b \<longleftrightarrow> flt (qb_tokens b) = qb_tokens b \<and> flt (qb_capacity b) = qb_capacity b \<and> qb_tokens b \<le> qb_capacity b \<and>
     0 \<le> qb_capacity b \<and> qb_capacity b \<le> 2 ^ 53 \<and> 0 \<le> qb_rate b \<and> 0 \<le> qb_headroom b"

definition taken :: "qbucket \<Rightarrow> qbucket" where
  "taken b = b\<lparr>qb_tokens := qb_tokens b - 1\<rparr>"

lemma qb_wf_refill [simp, intro]: "qb_wf b \<Longrightarrow> qb_wf (qb_refill now b)"
  by (auto simp: qb_wf_def qb_refill_def min_def flt_add_def)

lemma qb_refill_fields [simp]:
  "qb_capacity (qb_refill now b) = qb_capacity b" "qb_rate (qb_refill now b) = qb_rate b" "qb_headroom (qb_refill now b) = qb_headroom b"
  "qb_last_refill (qb_refill now b) = now" "qb_reserved (qb_refill now b) = qb_reserved b"
  by (simp_all add: qb_refill_def qb_reserved_def)

lemma qb_reserved_nonneg: "qb_wf b \<Longrightarrow> 0 \<le> qb_reserved b"
  by (simp add: qb_wf_def qb_reserved_def flt_mul_def)

lemma flt_reserved [simp]: "flt (qb_reserved b) = qb_reserved b"
  by (simp add: qb_reserved_def flt_mul_def)

text \<open>Whether an attempt is granted, and what it leaves.\<close>

definition grants :: "priority \<Rightarrow> qbucket \<Rightarrow> bool" where
  "grants p b \<longleftrightarrow> (if p = EXECUTION_CRITICAL then 1 \<le> qb_tokens b else 1 \<le> flt_sub (qb_tokens b) (qb_reserved b))"

lemma grants_one: "qb_wf b \<Longrightarrow> grants p b \<Longrightarrow> 1 \<le> qb_tokens b"
proof -
  assume w: "qb_wf b" and g: "grants p b"
  have "flt_sub (qb_tokens b) (qb_reserved b) \<le> qb_tokens b"
    unfolding flt_sub_def using w qb_reserved_nonneg[OF w] by (intro flt_le) (auto simp: qb_wf_def)
  then show ?thesis using g by (auto simp: grants_def split: if_splits)
qed

lemma qb_try_eq:
  assumes "qb_wf b"
  shows "qb_try p now b = (grants p (qb_refill now b), if grants p (qb_refill now b) then taken (qb_refill now b) else qb_refill now b)"
proof -
  have w: "qb_wf (qb_refill now b)" using assms by simp
  have "flt_sub (qb_tokens (qb_refill now b)) 1 = qb_tokens (qb_refill now b) - 1" if "grants p (qb_refill now b)"
    using w grants_one[OF w that] by (intro take_one_exact) (auto simp: qb_wf_def)
  then show ?thesis by (auto simp: qb_try_def Let_def grants_def taken_def le_max_iff_disj)
qed

lemma qb_wf_taken: "qb_wf b \<Longrightarrow> 1 \<le> qb_tokens b \<Longrightarrow> qb_wf (taken b)"
  using take_one_exact[of "qb_tokens b"] by (auto simp: qb_wf_def taken_def) (metis flt_idem flt_sub_def order_trans)

lemma qb_refund_taken: "qb_wf b \<Longrightarrow> 1 \<le> qb_tokens b \<Longrightarrow> qb_refund (taken b) = b"
  using give_back_exact[of "qb_tokens b"] take_one_exact[of "qb_tokens b"] by (auto simp: qb_wf_def taken_def qb_refund_def)

lemma take_windows_spec:
  "list_all qb_wf ws \<Longrightarrow>
   (case take_windows p ts i ws of
      (True, ws') \<Rightarrow> (\<forall>j < length ws. grants p (qb_refill (ts (i + j)) (ws ! j))) \<and>
        length ws' = length ws \<and> (\<forall>j < length ws. ws' ! j = taken (qb_refill (ts (i + j)) (ws ! j)))
    | (False, ws') \<Rightarrow> \<exists>k < length ws. \<not> grants p (qb_refill (ts (i + k)) (ws ! k)) \<and> length ws' = length ws \<and>
        (\<forall>j \<le> k. ws' ! j = qb_refill (ts (i + j)) (ws ! j)) \<and> (\<forall>j > k. j < length ws \<longrightarrow> ws' ! j = ws ! j))"
proof (induction ws arbitrary: i)
  case (Cons w ws)
  then have w: "qb_wf w" "list_all qb_wf ws" by simp_all
  show ?case
  proof (cases "grants p (qb_refill (ts i) w)")
    case False
    then show ?thesis using w(1) by (simp add: qb_try_eq) (intro exI[of _ 0], simp)
  next
    case True
    have r: "qb_refund (taken (qb_refill (ts i) w)) = qb_refill (ts i) w"
      using w(1) True by (intro qb_refund_taken grants_one) auto
    have step: "qb_try p (ts i) w = (True, taken (qb_refill (ts i) w))" using True w(1) by (simp add: qb_try_eq)
    obtain ok ws' where t: "take_windows p ts (Suc i) ws = (ok, ws')" by fastforce
    show ?thesis
    proof (cases ok)
      case True
      then have ih: "\<forall>j < length ws. grants p (qb_refill (ts (Suc i + j)) (ws ! j))"
        "length ws' = length ws" "\<forall>j < length ws. ws' ! j = taken (qb_refill (ts (Suc i + j)) (ws ! j))"
        using Cons.IH[OF w(2), of "Suc i"] t by simp_all
      then show ?thesis using \<open>grants p (qb_refill (ts i) w)\<close> step t True
        by (auto simp: less_Suc_eq_0_disj)
    next
      case False
      then obtain k where k: "k < length ws" "\<not> grants p (qb_refill (ts (Suc i + k)) (ws ! k))" "length ws' = length ws"
        "\<forall>j \<le> k. ws' ! j = qb_refill (ts (Suc i + j)) (ws ! j)" "\<forall>j > k. j < length ws \<longrightarrow> ws' ! j = ws ! j"
        using Cons.IH[OF w(2), of "Suc i"] t by auto
      have "\<exists>k < length (w # ws). \<not> grants p (qb_refill (ts (i + k)) ((w # ws) ! k)) \<and>
          length (qb_refill (ts i) w # ws') = length (w # ws) \<and>
          (\<forall>j \<le> k. (qb_refill (ts i) w # ws') ! j = qb_refill (ts (i + j)) ((w # ws) ! j)) \<and>
          (\<forall>j > k. j < length (w # ws) \<longrightarrow> (qb_refill (ts i) w # ws') ! j = (w # ws) ! j)"
        using k by (intro exI[of _ "Suc k"]) (auto simp: nth_Cons split: nat.split)
      then show ?thesis using step t False r by simp
    qed
  qed
qed simp

text \<open>
  C14: acquiring from a bucket and its windows is all or nothing. An attempt is granted exactly
  when the bucket and every window grant it; then each of them has one token less than after
  its refill. An attempt that is not granted costs nothing: every bucket that was looked at has
  just been refilled, every other one is as it was. Taking and giving back are exact on floats.
\<close>

theorem composite_all_or_nothing:
  "dict_get (qs_buckets s) key = Some b \<and> qb_wf b \<and> list_all qb_wf (windows_of s key) \<longrightarrow>
   (let ws = windows_of s key; (ok, s') = try_acquire_composite key p ts s; ws' = windows_of s' key;
        granted = grants p (qb_refill (ts 0) b) \<and> (\<forall>j < length ws. grants p (qb_refill (ts (Suc j)) (ws ! j))) in
    ok = granted \<and>
    dict_get (qs_buckets s') key = Some (if granted then taken (qb_refill (ts 0) b) else qb_refill (ts 0) b) \<and>
    length ws' = length ws \<and>
    (\<forall>j < length ws. ws' ! j = (if granted then taken (qb_refill (ts (Suc j)) (ws ! j)) else qb_refill (ts (Suc j)) (ws ! j)) \<or>
       \<not> granted \<and> ws' ! j = ws ! j))"
proof (intro impI)
  assume h: "dict_get (qs_buckets s) key = Some b \<and> qb_wf b \<and> list_all qb_wf (windows_of s key)"
  let ?ws = "windows_of s key"
  have g: "get_or_default_bucket key (ts 0) s = (b, s)" using h by (simp add: get_or_default_bucket_def)
  have primary: "qb_try p (ts 0) b = (grants p (qb_refill (ts 0) b),
      if grants p (qb_refill (ts 0) b) then taken (qb_refill (ts 0) b) else qb_refill (ts 0) b)" using h by (simp add: qb_try_eq)
  have wo: "windows_of (store_windows key xs (s\<lparr>qs_buckets := d\<rparr>)) key = (if dict_get (qs_windows s) key = None then [] else xs)"
    "windows_of (s\<lparr>qs_buckets := d\<rparr>) key = ?ws" "qs_buckets (store_windows key xs (s\<lparr>qs_buckets := d\<rparr>)) = d" for xs d
    by (auto simp: windows_of_def store_windows_def)
  have none: "dict_get (qs_windows s) key = None \<Longrightarrow> ?ws = []" by (simp add: windows_of_def)
  show "let ws = windows_of s key; (ok, s') = try_acquire_composite key p ts s; ws' = windows_of s' key;
        granted = grants p (qb_refill (ts 0) b) \<and> (\<forall>j < length ws. grants p (qb_refill (ts (Suc j)) (ws ! j))) in
    ok = granted \<and>
    dict_get (qs_buckets s') key = Some (if granted then taken (qb_refill (ts 0) b) else qb_refill (ts 0) b) \<and>
    length ws' = length ws \<and>
    (\<forall>j < length ws. ws' ! j = (if granted then taken (qb_refill (ts (Suc j)) (ws ! j)) else qb_refill (ts (Suc j)) (ws ! j)) \<or>
       \<not> granted \<and> ws' ! j = ws ! j)"
  proof (cases "grants p (qb_refill (ts 0) b)")
    case False
    then show ?thesis by (simp add: try_acquire_composite_def g primary wo Let_def)
  next
    case True
    obtain ok ws' where t: "take_windows p ts 1 ?ws = (ok, ws')" by fastforce
    have len: "length ws' = length ?ws \<and> (dict_get (qs_windows s) key = None \<longrightarrow> ws' = [])"
      using take_windows_spec[of ?ws p ts 1] h t none by (cases ok) auto
    have refund: "qb_refund (taken (qb_refill (ts 0) b)) = qb_refill (ts 0) b"
      using h True by (intro qb_refund_taken grants_one) auto
    have c: "try_acquire_composite key p ts s =
        (ok, store_windows key ws' (s\<lparr>qs_buckets := dict_put (qs_buckets s) key (if ok then taken (qb_refill (ts 0) b) else qb_refill (ts 0) b)\<rparr>))"
      using True by (simp add: try_acquire_composite_def g primary t[unfolded One_nat_def] refund)
    show ?thesis
    proof (cases ok)
      case True
      then have ih: "\<forall>j < length ?ws. grants p (qb_refill (ts (1 + j)) (?ws ! j))"
        "\<forall>j < length ?ws. ws' ! j = taken (qb_refill (ts (1 + j)) (?ws ! j))"
        using take_windows_spec[of ?ws p ts 1] h t by simp_all
      then show ?thesis using True \<open>grants p (qb_refill (ts 0) b)\<close> len none
        by (auto simp: c wo Let_def)
    next
      case False
      then obtain k where k: "k < length ?ws" "\<not> grants p (qb_refill (ts (1 + k)) (?ws ! k))"
        "\<forall>j \<le> k. ws' ! j = qb_refill (ts (1 + j)) (?ws ! j)" "\<forall>j > k. j < length ?ws \<longrightarrow> ws' ! j = ?ws ! j"
        using take_windows_spec[of ?ws p ts 1] h t by auto
      have "ws' ! j = qb_refill (ts (Suc j)) (?ws ! j) \<or> ws' ! j = ?ws ! j" if "j < length ?ws" for j
        using k(3,4) that by (cases "j \<le> k") auto
      then show ?thesis using False \<open>grants p (qb_refill (ts 0) b)\<close> len none k(1,2)
        by (auto simp: c wo Let_def)
    qed
  qed
qed

definition sample_scheduler :: scheduler where
  "sample_scheduler =
     (scheduler_new (1 / 4))
       \<lparr>qs_buckets := [((''dhan'', ''orders''), qb_new 10 20 (1 / 4) 0)],
        qs_windows := [((''dhan'', ''orders''), [window_bucket 0 (250, 50), qb_new 1 1 0 0])]\<rparr>"

text \<open>The last window lets one order pass; the second attempt gives back what it took from the other two.\<close>

lemma composite_all_or_nothing_witness:
  "let key = (''dhan'', ''orders''); s1 = snd (try_acquire_composite key PORTFOLIO_READ (\<lambda>_. 0) sample_scheduler) in
   fst (try_acquire_composite key PORTFOLIO_READ (\<lambda>_. 0) s1) = False \<and>
   map_option qb_tokens (dict_get (qs_buckets (snd (try_acquire_composite key PORTFOLIO_READ (\<lambda>_. 0) s1))) key) = Some 19"
proof -
  define s1 where "s1 = snd (try_acquire_composite (''dhan'', ''orders'') PORTFOLIO_READ (\<lambda>_. 0) sample_scheduler)"
  have e: "dict_get (qs_buckets s1) (''dhan'', ''orders'') = Some ((qb_new 10 20 (1 / 4) 0)\<lparr>qb_tokens := 19\<rparr>)"
    "windows_of s1 (''dhan'', ''orders'') = [(window_bucket 0 (250, 50))\<lparr>qb_tokens := 249\<rparr>, (qb_new 1 1 0 0)\<lparr>qb_tokens := 0\<rparr>]"
    "window_bucket 0 (250, 50) = qb_new 5 250 0 0"
    unfolding s1_def by code_simp+
  have w: "qb_wf ((qb_new 10 20 (1 / 4) 0)\<lparr>qb_tokens := 19\<rparr>)"
    "list_all qb_wf (windows_of s1 (''dhan'', ''orders''))" unfolding e by code_simp+
  have r: "grants PORTFOLIO_READ (qb_refill 0 ((qb_new 10 20 (1 / 4) 0)\<lparr>qb_tokens := 19\<rparr>))"
    "\<not> grants PORTFOLIO_READ (qb_refill 0 (windows_of s1 (''dhan'', ''orders'') ! 1))"
    "qb_tokens (qb_refill 0 ((qb_new 10 20 (1 / 4) 0)\<lparr>qb_tokens := 19\<rparr>)) = 19" unfolding e by code_simp+
  have l: "length (windows_of s1 (''dhan'', ''orders'')) = 2" by (simp add: e)
  obtain ok s2 where c: "try_acquire_composite (''dhan'', ''orders'') PORTFOLIO_READ (\<lambda>_. 0) s1 = (ok, s2)" by fastforce
  have "ok = False \<and> map_option qb_tokens (dict_get (qs_buckets s2) (''dhan'', ''orders'')) = Some 19"
    using composite_all_or_nothing[of s1 "(''dhan'', ''orders'')" "(qb_new 10 20 (1 / 4) 0)\<lparr>qb_tokens := 19\<rparr>" PORTFOLIO_READ "\<lambda>_. 0"]
      e(1) w r l by (auto simp: c Let_def)
  then show ?thesis by (simp add: Let_def s1_def[symmetric] c)
qed

section \<open>What the reserve is worth\<close>

definition reserve_inv :: "quota_key \<Rightarrow> scheduler \<Rightarrow> bool" where
  "reserve_inv key s \<longleftrightarrow>
     (case dict_get (qs_buckets s) key of
        None \<Rightarrow> False
      | Some b \<Rightarrow> qb_wf b \<and> 1 \<le> qb_reserved b \<and> qb_reserved b \<le> qb_tokens b \<and> qb_reserved b \<le> qb_capacity b) \<and>
     list_all qb_wf (windows_of s key)"

text \<open>Refilling does not go below the reserve, and what a non-critical attempt leaves is not below it either.\<close>

lemma refill_keeps: "qb_wf b \<Longrightarrow> qb_last_refill b \<le> now \<Longrightarrow> qb_tokens b \<le> qb_tokens (qb_refill now b)"
proof -
  assume w: "qb_wf b" and t: "qb_last_refill b \<le> now"
  have "0 \<le> flt_mul (flt_sub now (qb_last_refill b)) (qb_rate b)"
    using w t by (simp add: qb_wf_def flt_mul_def flt_sub_def)
  then have "qb_tokens b \<le> flt_add (qb_tokens b) (flt_mul (flt_sub now (qb_last_refill b)) (qb_rate b))"
    using w unfolding flt_add_def by (intro flt_ge) (simp_all add: qb_wf_def)
  then show ?thesis using w by (simp add: qb_refill_def qb_wf_def)
qed

lemma noncritical_leaves_reserve:
  assumes "qb_wf b" "p \<noteq> EXECUTION_CRITICAL" "grants p b" "1 \<le> qb_reserved b"
  shows "qb_reserved b \<le> qb_tokens b - 1"
proof (rule ccontr)
  assume "\<not> ?thesis"
  then have lt: "qb_tokens b - qb_reserved b < 1" by simp
  have g: "1 \<le> flt (qb_tokens b - qb_reserved b)" using assms(2,3) by (simp add: grants_def flt_sub_def)
  have "qb_reserved b \<le> qb_tokens b"
  proof (rule ccontr)
    assume "\<not> qb_reserved b \<le> qb_tokens b"
    then have "flt (qb_tokens b - qb_reserved b) \<le> flt 0" by (intro flt_mono) simp
    then have "flt (qb_tokens b - qb_reserved b) \<le> 0" by (simp only: flt_zero)
    with g show False by linarith
  qed
  moreover have "flt (qb_tokens b) = qb_tokens b" using assms(1) by (simp add: qb_wf_def)
  ultimately have "flt (qb_tokens b - qb_reserved b) = qb_tokens b - qb_reserved b"
    using lt assms(4) qb_reserved_nonneg[OF assms(1)] unfolding flt_representable[symmetric]
    by (subst flt_representable, intro representable_diff) (simp_all add: flt_representable[symmetric])
  then show False using g lt by simp
qed

definition attempt_step :: "scheduler \<Rightarrow> quota_key \<times> priority \<times> (nat \<Rightarrow> rat) \<Rightarrow> scheduler" where
  "attempt_step s x = (case x of (key, p, ts) \<Rightarrow> snd (try_acquire_composite key p ts s))"

text \<open>No reading of the bucket's clock lies before its last refill.\<close>

fun clock_ok :: "scheduler \<Rightarrow> quota_key \<Rightarrow> (quota_key \<times> priority \<times> (nat \<Rightarrow> rat)) list \<Rightarrow> bool" where
  "clock_ok s key [] = True"
| "clock_ok s key ((k, p, ts) # xs) =
     ((k = key \<longrightarrow> (case dict_get (qs_buckets s) k of None \<Rightarrow> True | Some b \<Rightarrow> qb_last_refill b \<le> ts 0)) \<and>
      clock_ok (attempt_step s (k, p, ts)) key xs)"

lemma other_key_untouched:
  "k \<noteq> key \<Longrightarrow> dict_get (qs_buckets (attempt_step s (k, p, ts))) key = dict_get (qs_buckets s) key \<and>
     windows_of (attempt_step s (k, p, ts)) key = windows_of s key"
  by (auto simp: attempt_step_def try_acquire_composite_def get_or_default_bucket_def store_windows_def windows_of_def Let_def
      split: prod.splits option.splits bool.splits if_splits)

lemma nth_qb_wf: "list_all qb_wf ws \<Longrightarrow> j < length ws \<Longrightarrow> qb_wf (ws ! j)"
  by (simp add: list_all_length)

lemma reserve_inv_step:
  assumes "reserve_inv key s" "k = key \<longrightarrow> p \<noteq> EXECUTION_CRITICAL \<and> clock_ok s key [(k, p, ts)]"
  shows "reserve_inv key (attempt_step s (k, p, ts))"
proof (cases "k = key")
  case False
  then show ?thesis using assms(1) other_key_untouched[OF False, of s p ts] by (simp add: reserve_inv_def)
next
  case True
  from assms(1) obtain b where b: "dict_get (qs_buckets s) key = Some b" "qb_wf b" "1 \<le> qb_reserved b"
    "qb_reserved b \<le> qb_tokens b" "qb_reserved b \<le> qb_capacity b" "list_all qb_wf (windows_of s key)"
    by (auto simp: reserve_inv_def split: option.splits)
  have p: "p \<noteq> EXECUTION_CRITICAL" "qb_last_refill b \<le> ts 0" using assms(2) True b(1) by simp_all
  obtain ok s' where t: "try_acquire_composite key p ts s = (ok, s')" by fastforce
  let ?r = "qb_refill (ts 0) b"
  have spec: "dict_get (qs_buckets s') key = Some (if ok then taken ?r else ?r)" "length (windows_of s' key) = length (windows_of s key)"
    "ok \<Longrightarrow> grants p ?r" "ok \<Longrightarrow> j < length (windows_of s key) \<Longrightarrow> grants p (qb_refill (ts (Suc j)) (windows_of s key ! j))"
    "j < length (windows_of s key) \<Longrightarrow>
       windows_of s' key ! j = (if ok then taken (qb_refill (ts (Suc j)) (windows_of s key ! j))
         else qb_refill (ts (Suc j)) (windows_of s key ! j)) \<or> windows_of s' key ! j = windows_of s key ! j" for j
    using composite_all_or_nothing[of s key b p ts] b by (auto simp: t Let_def split: if_splits)
  have "list_all qb_wf (windows_of s' key)"
    unfolding list_all_length spec(2)
  proof (intro allI impI)
    fix j assume j: "j < length (windows_of s key)"
    have w: "qb_wf (windows_of s key ! j)" using b(6) j by (rule nth_qb_wf)
    then have "qb_wf (taken (qb_refill (ts (Suc j)) (windows_of s key ! j)))" if ok
      using spec(4)[OF that j] by (intro qb_wf_taken grants_one) auto
    then show "qb_wf (windows_of s' key ! j)" using spec(5)[OF j] w by (auto split: if_splits)
  qed
  moreover have "qb_wf ?r" "qb_reserved b \<le> qb_tokens ?r" using b refill_keeps[OF b(2) p(2)] by auto
  moreover have "qb_wf (taken ?r)" "qb_reserved b \<le> qb_tokens (taken ?r)" if ok
    using noncritical_leaves_reserve[of ?r p] spec(3)[OF that] b p grants_one[of ?r p] qb_wf_taken[of ?r] by (auto simp: taken_def)
  ultimately show ?thesis using spec(1) b by (auto simp: reserve_inv_def attempt_step_def True t taken_def qb_reserved_def)
qed

text \<open>
  What the reserve for executions is worth. Where it holds at least one token, no number
  of other attempts, on any bucket and of any other priority, uses it up: an execution attempt
  is then granted by the bucket of its endpoint. It is still refused when a window of the
  endpoint is empty, because the windows keep no reserve.
\<close>

theorem reserve_serves_executions:
  "reserve_inv key s \<and> clock_ok s key (xs @ [(key, EXECUTION_CRITICAL, ts)]) \<and>
   (\<forall>(k, p, ts) \<in> set xs. p \<noteq> EXECUTION_CRITICAL) \<longrightarrow>
   (let s' = run_ops attempt_step s xs; ws = windows_of s' key in
    fst (try_acquire_composite key EXECUTION_CRITICAL ts s') =
      (\<forall>j < length ws. 1 \<le> qb_tokens (qb_refill (ts (Suc j)) (ws ! j))))"
proof (intro impI)
  assume h: "reserve_inv key s \<and> clock_ok s key (xs @ [(key, EXECUTION_CRITICAL, ts)]) \<and> (\<forall>(k, p, ts) \<in> set xs. p \<noteq> EXECUTION_CRITICAL)"
  have "reserve_inv key s \<Longrightarrow> clock_ok s key (xs @ [(key, EXECUTION_CRITICAL, ts)]) \<Longrightarrow> \<forall>(k, p, ts) \<in> set xs. p \<noteq> EXECUTION_CRITICAL \<Longrightarrow>
     reserve_inv key (run_ops attempt_step s xs) \<and> clock_ok (run_ops attempt_step s xs) key [(key, EXECUTION_CRITICAL, ts)]"
  proof (induction xs arbitrary: s)
    case (Cons x xs)
    obtain k p us where x: "x = (k, p, us)" by (cases x)
    have "reserve_inv key (attempt_step s x)" using Cons.prems reserve_inv_step[of key s k p us] by (auto simp: x)
    then show ?case using Cons by (simp add: x)
  qed simp
  with h have r: "reserve_inv key (run_ops attempt_step s xs)" "clock_ok (run_ops attempt_step s xs) key [(key, EXECUTION_CRITICAL, ts)]"
    by blast+
  then obtain b where b: "dict_get (qs_buckets (run_ops attempt_step s xs)) key = Some b" "qb_wf b" "1 \<le> qb_reserved b"
    "qb_reserved b \<le> qb_tokens b" "list_all qb_wf (windows_of (run_ops attempt_step s xs) key)" "qb_last_refill b \<le> ts 0"
    by (auto simp: reserve_inv_def split: option.splits)
  have "grants EXECUTION_CRITICAL (qb_refill (ts 0) b)" using b(3,4) refill_keeps[OF b(2,6)] by (simp add: grants_def)
  then show "let s' = run_ops attempt_step s xs; ws = windows_of s' key in
    fst (try_acquire_composite key EXECUTION_CRITICAL ts s') =
      (\<forall>j < length ws. 1 \<le> qb_tokens (qb_refill (ts (Suc j)) (ws ! j)))"
    using composite_all_or_nothing[of "run_ops attempt_step s xs" key b EXECUTION_CRITICAL ts] b
    by (auto simp: Let_def grants_def split: prod.splits)
qed

lemma reserve_serves_executions_witness:
  "let s' = run_ops attempt_step sample_scheduler [((''dhan'', ''orders''), PORTFOLIO_READ, \<lambda>_. 0)] in
   fst (try_acquire_composite (''dhan'', ''orders'') EXECUTION_CRITICAL (\<lambda>_. 0) s') = False"
proof -
  let ?k = "(''dhan'', ''orders'')"
  have w: "windows_of sample_scheduler ?k = [qb_new 5 250 0 0, qb_new 1 1 0 0]" by code_simp
  have inv: "reserve_inv ?k sample_scheduler" by code_simp
  have clock: "clock_ok sample_scheduler ?k ([(?k, PORTFOLIO_READ, \<lambda>_. 0)] @ [(?k, EXECUTION_CRITICAL, \<lambda>_. 0)])" by code_simp
  have "windows_of (run_ops attempt_step sample_scheduler [(?k, PORTFOLIO_READ, \<lambda>_. 0)]) ?k =
      [(qb_new 5 250 0 0)\<lparr>qb_tokens := 249\<rparr>, (qb_new 1 1 0 0)\<lparr>qb_tokens := 0\<rparr>]" by code_simp
  moreover have "\<not> 1 \<le> qb_tokens (qb_refill 0 ((qb_new 1 1 0 0)\<lparr>qb_tokens := 0\<rparr>))" by code_simp
  ultimately have "\<not> (\<forall>j < length (windows_of (run_ops attempt_step sample_scheduler [(?k, PORTFOLIO_READ, \<lambda>_. 0)]) ?k).
      1 \<le> qb_tokens (qb_refill 0 (windows_of (run_ops attempt_step sample_scheduler [(?k, PORTFOLIO_READ, \<lambda>_. 0)]) ?k ! j)))"
    by (auto intro!: exI[of _ "Suc 0"])
  then show ?thesis
    using reserve_serves_executions[of ?k sample_scheduler "[(?k, PORTFOLIO_READ, \<lambda>_. 0)]" "\<lambda>_. 0"] inv clock
    unfolding Let_def by simp
qed

section \<open>What a window admits\<close>

fun window_run :: "priority \<Rightarrow> qbucket \<Rightarrow> rat list \<Rightarrow> bool list" where
  "window_run p b [] = []"
| "window_run p b (t # ts) = (case qb_try p t b of (ok, b1) \<Rightarrow> ok # window_run p b1 ts)"

lemma refill_at_once: "qb_wf b \<Longrightarrow> qb_refill (qb_last_refill b) b = b"
  by (simp add: qb_refill_def qb_wf_def flt_sub_def flt_mul_def flt_add_def)

lemma flt_nat: "n \<le> 2 ^ 53 \<Longrightarrow> flt (of_nat n) = of_nat n"
  using flt_format.round_of_int[of "int n"] by (simp add: flt_def)

lemma window_run_burst:
  assumes "qb_wf b" "qb_headroom b = 0" "qb_last_refill b = t" "qb_tokens b = of_nat m"
  shows "window_run p b (replicate m t @ ts) = replicate m True @ window_run p (b\<lparr>qb_tokens := 0\<rparr>) ts"
  using assms
proof (induction m arbitrary: b)
  case 0
  then have "b\<lparr>qb_tokens := 0\<rparr> = b" by simp
  then show ?case by simp
next
  case (Suc m)
  have r: "qb_refill t b = b" using refill_at_once[OF Suc.prems(1)] Suc.prems(3) by simp
  have "qb_reserved b = 0" by (simp add: qb_reserved_def Suc.prems(2) flt_mul_def)
  then have g: "grants p b" using Suc.prems(1,4) by (simp add: grants_def flt_sub_def qb_wf_def)
  have "window_run p (taken b) (replicate m t @ ts) = replicate m True @ window_run p ((taken b)\<lparr>qb_tokens := 0\<rparr>) ts"
    using Suc.prems g by (intro Suc.IH qb_wf_taken grants_one) (auto simp: taken_def)
  then show ?case using g by (simp add: qb_try_eq[OF Suc.prems(1)] r taken_def)
qed

text \<open>
  A window admits more than its cap. After the allowed number of requests at one instant
  one more is granted as soon as the rate has refilled a single token, which takes the part of
  the window that one request has of the cap: with 250 requests a minute the 251st is granted
  a quarter of a second after the first.
\<close>

theorem window_cap_exceeded:
  "0 < n \<and> n \<le> 2 ^ 53 \<and> 0 \<le> w \<and> 1 \<le> flt_mul (flt_sub t' t) (qb_rate (window_bucket t (int n, w))) \<longrightarrow>
   window_run p (window_bucket t (int n, w)) (replicate n t @ [t']) = replicate (Suc n) True"
proof (intro impI)
  assume h: "0 < n \<and> n \<le> 2 ^ 53 \<and> 0 \<le> w \<and> 1 \<le> flt_mul (flt_sub t' t) (qb_rate (window_bucket t (int n, w)))"
  let ?b = "window_bucket t (int n, w)"
  have f: "flt (rat_of_nat n) = of_nat n" using h by (intro flt_nat) simp
  have b: "?b = qb_new (flt_div (of_nat n) w) (of_nat n) 0 t" by (simp add: window_bucket_def f)
  have "0 \<le> flt_div (of_nat n) w" using h by (simp add: flt_div_def)
  moreover have "rat_of_nat n \<le> 2 ^ 53" using h by (metis of_nat_le_iff of_nat_numeral of_nat_power)
  ultimately have wf: "qb_wf ?b" "qb_wf (?b\<lparr>qb_tokens := 0\<rparr>)" by (simp_all add: qb_wf_def b qb_new_def f)
  have tok: "qb_tokens (qb_refill t' (?b\<lparr>qb_tokens := 0\<rparr>)) = min (of_nat n) (flt_mul (flt_sub t' t) (flt_div (of_nat n) w))"
    by (simp add: b qb_new_def qb_refill_def flt_add_def flt_mul_def)
  have one: "1 \<le> qb_tokens (qb_refill t' (?b\<lparr>qb_tokens := 0\<rparr>))" using h unfolding tok by (simp add: b qb_new_def)
  have "qb_reserved ?b = 0" by (simp add: qb_reserved_def b qb_new_def flt_mul_def)
  then have "qb_reserved (?b\<lparr>qb_tokens := 0\<rparr>) = 0" by (simp add: qb_reserved_def)
  moreover have "flt (qb_tokens (qb_refill t' (?b\<lparr>qb_tokens := 0\<rparr>))) = qb_tokens (qb_refill t' (?b\<lparr>qb_tokens := 0\<rparr>))"
    using qb_wf_refill[OF wf(2), of t'] by (simp add: qb_wf_def)
  ultimately have "grants p (qb_refill t' (?b\<lparr>qb_tokens := 0\<rparr>))" using one by (simp add: grants_def flt_sub_def)
  then have "window_run p (?b\<lparr>qb_tokens := 0\<rparr>) [t'] = [True]" by (simp add: qb_try_eq[OF wf(2)])
  then show "window_run p ?b (replicate n t @ [t']) = replicate (Suc n) True"
    using window_run_burst[OF wf(1), of t n p "[t']"] by (simp add: b qb_new_def replicate_append_same[symmetric] del: replicate_append_same)
qed

lemma window_cap_exceeded_witness:
  "window_run EXECUTION_CRITICAL (window_bucket 0 (250, 60)) (replicate 250 0 @ [1 / 4]) = replicate 251 True"
proof -
  have "1 \<le> flt_mul (flt_sub (1 / 4) 0) (qb_rate (window_bucket 0 (250, 60)))" by code_simp
  then show ?thesis using window_cap_exceeded[of 250 60 "1 / 4" 0 EXECUTION_CRITICAL] by simp
qed

section \<open>Waiting\<close>

text \<open>A waiting call has returned at the first reading at or after its deadline.\<close>

lemma quota_wait_returns:
  "\<exists>(ts, now) \<in> set xs. flt_sub deadline now \<le> 0 \<Longrightarrow> fst (quota_wait key p tid deadline again xs s) \<noteq> None"
  by (induction xs arbitrary: s) (auto split: prod.splits bool.splits)

text \<open>Where the reserve leaves less than one token of the burst, only executions are ever served.\<close>

lemma small_burst_starves:
  assumes "qb_wf b" "flt_sub (qb_capacity b) (qb_reserved b) < 1" "p \<noteq> EXECUTION_CRITICAL"
  shows "\<not> fst (qb_try p now b)"
proof -
  have "flt_sub (qb_tokens (qb_refill now b)) (qb_reserved b) \<le> flt_sub (qb_capacity b) (qb_reserved b)"
    using qb_wf_refill[OF assms(1), of now] unfolding flt_sub_def by (intro flt_mono) (simp add: qb_wf_def)
  then show ?thesis using assms by (simp add: qb_try_eq grants_def)
qed

text \<open>An endpoint without a profile looks better to the router than any registered one.\<close>

lemma unregistered_headroom:
  assumes "dict_get (qs_buckets s) key = Some b" "qb_wf b" "dict_get (qs_buckets s) other = None" "0 < qb_capacity b"
  shows "fst (headroom_for key now s) \<le> fst (headroom_for other now s)"
proof -
  have "flt_sub (qb_tokens (qb_refill now b)) (qb_reserved b) \<le> qb_capacity b"
    unfolding flt_sub_def using qb_wf_refill[OF assms(2), of now] qb_reserved_nonneg[OF assms(2)]
    by (intro flt_le) (simp_all add: qb_wf_def)
  then have "flt_div (max 0 (flt_sub (qb_tokens (qb_refill now b)) (qb_reserved b))) (qb_capacity b) \<le> 1"
    unfolding flt_div_def using assms(4) flt_nat[of 1] by (intro flt_le) simp_all
  then show ?thesis using assms by (simp add: headroom_for_def qb_available_def Let_def)
qed

end
