(* ===== verification/Candles.thy ===== *)
theory Candles
  imports Position_Manager
begin

text \<open>
  Candles from live ticks (\<open>application/streaming/candle_aggregator.py\<close>) and the pipeline over
  it (\<open>live_tick_pipeline.py\<close>). Times are microseconds since the epoch, a naive one is taken as
  UTC. What the aggregator hands to its callback is the list of the candles in order; a
  callback is taken to return. A candle keeps its prices as the floats of the aggregator; the
  bar holds the decimals that print like them.
\<close>

section \<open>Timeframes\<close>

definition low_char :: "char \<Rightarrow> char" where
  "low_char c = (let n = (of_char c :: int) in if 65 \<le> n \<and> n \<le> 90 then char_of (n + 32) else c)"

definition py_lower :: "string \<Rightarrow> string" where
  "py_lower s = map low_char s"

text \<open>\<open>int(s)\<close>: blanks around, a sign, and digits with single underscores between them.\<close>

fun digits_ok :: "string \<Rightarrow> bool" where
  "digits_ok [] = False"
| "digits_ok [c] = is_digit c"
| "digits_ok (c # d # s) = (is_digit c \<and> (if d = CHR ''_'' then digits_ok s else digits_ok (d # s)))"

definition read_int :: "string \<Rightarrow> int option" where
  "read_int s =
     (let b = py_strip s; u = (if b \<noteq> [] \<and> hd b \<in> set ''+-'' then tl b else b) in
      if digits_ok u
      then Some ((if b \<noteq> [] \<and> hd b = CHR ''-'' then - 1 else 1) * int (read_nat (filter (\<lambda>c. c \<noteq> CHR ''_'') u)))
      else None)"

definition fixed_timeframes :: "(string \<times> int) list" where
  "fixed_timeframes =
     [(''1m'', 60), (''2m'', 120), (''5m'', 300), (''10m'', 600), (''15m'', 900), (''30m'', 1800), (''1h'', 3600),
      (''2h'', 7200), (''4h'', 14400), (''6h'', 21600), (''12h'', 43200), (''1d'', 86400), (''1w'', 604800)]"

definition suffix_seconds :: "(char \<times> int) list" where
  "suffix_seconds = [(CHR ''s'', 1), (CHR ''m'', 60), (CHR ''h'', 3600), (CHR ''d'', 86400), (CHR ''w'', 604800)]"

definition parse_timeframe :: "string \<Rightarrow> int res" where
  "parse_timeframe tf0 =
     (let tf = py_lower (py_strip tf0) in
      case map_of fixed_timeframes tf of
        Some n \<Rightarrow> Inr n
      | None \<Rightarrow>
          if tf = [] then Inl (ValueError ''empty timeframe'')
          else
            (case map_of suffix_seconds (last tf) of
               None \<Rightarrow> Inl (ValueError (''unknown timeframe unit in '' @ tf))
             | Some u \<Rightarrow>
                 (case read_int (butlast tf) of
                    None \<Rightarrow> Inl (ValueError (''invalid timeframe magnitude in '' @ tf))
                  | Some n \<Rightarrow> if n \<le> 0 then Inl (ValueError (''non-positive timeframe '' @ tf)) else Inr (n * u))))"

section \<open>Buckets\<close>

text \<open>\<open>timestamp()\<close> is the time in seconds as a float. It is the same in every zone.\<close>

definition epoch_us :: "datetime \<Rightarrow> int" where
  "epoch_us t = (case t of Naive us \<Rightarrow> us | Aware us \<Rightarrow> us)"

definition timestamp :: "int \<Rightarrow> rat" where
  "timestamp us = flt (of_int us / 1000000)"

definition bucket_start :: "int \<Rightarrow> int \<Rightarrow> int" where
  "bucket_start us dur = \<lfloor>timestamp us / of_int dur\<rfloor> * dur"

record tick =
  tk_symbol :: string
  tk_exchange :: string
  tk_ltp :: rat
  tk_event_time :: datetime
  tk_volume :: int

record candle_bucket =
  cb_symbol :: string
  cb_exchange :: string
  cb_open_epoch :: int
  cb_open :: rat
  cb_high :: rat
  cb_low :: rat
  cb_close :: rat
  cb_volume :: rat
  cb_tick_count :: nat

record candle =
  cn_symbol :: string
  cn_exchange :: string
  cn_timeframe :: string
  cn_open_time :: int
  cn_close_time :: int
  cn_open :: rat
  cn_high :: rat
  cn_low :: rat
  cn_close :: rat
  cn_volume :: int
  cn_tick_count :: nat

definition candle_of :: "string \<Rightarrow> int \<Rightarrow> candle_bucket \<Rightarrow> candle" where
  "candle_of tf dur c =
     \<lparr>cn_symbol = cb_symbol c, cn_exchange = cb_exchange c, cn_timeframe = tf, cn_open_time = cb_open_epoch c,
      cn_close_time = cb_open_epoch c + dur, cn_open = cb_open c, cn_high = cb_high c, cn_low = cb_low c,
      cn_close = cb_close c, cn_volume = trunc_int (cb_volume c), cn_tick_count = cb_tick_count c\<rparr>"

type_synonym bucket_key = "string \<times> string"

record aggregator =
  ag_timeframes :: "(string \<times> int) list"
  ag_buckets :: "(bucket_key, candle_bucket) dict"
  ag_emitted :: "candle list"

fun timeframe_durations :: "string list \<Rightarrow> (string \<times> int) list res" where
  "timeframe_durations [] = Inr []"
| "timeframe_durations (tf # rest) =
     (case parse_timeframe tf of
        Inl e \<Rightarrow> Inl e
      | Inr n \<Rightarrow> (case timeframe_durations rest of Inl e \<Rightarrow> Inl e | Inr ds \<Rightarrow> Inr ((tf, n) # ds)))"

text \<open>The timeframes without repetition, in the order in which they first occur.\<close>

definition first_occurrences :: "string list \<Rightarrow> string list" where
  "first_occurrences xs = rev (remdups (rev xs))"

definition aggregator_new :: "string list \<Rightarrow> aggregator res" where
  "aggregator_new tfs =
     (if first_occurrences tfs = [] then Inl (ValueError ''at least one timeframe is required'')
      else
        (case timeframe_durations (first_occurrences tfs) of
           Inl e \<Rightarrow> Inl e
         | Inr ds \<Rightarrow> Inr \<lparr>ag_timeframes = ds, ag_buckets = [], ag_emitted = []\<rparr>))"

definition ag_emit :: "candle \<Rightarrow> aggregator \<Rightarrow> aggregator" where
  "ag_emit c a = a\<lparr>ag_emitted := ag_emitted a @ [c]\<rparr>"

definition symbol_key :: "tick \<Rightarrow> string" where
  "symbol_key t = tk_symbol t @ '':'' @ tk_exchange t"

definition open_bucket :: "tick \<Rightarrow> int \<Rightarrow> candle_bucket" where
  "open_bucket t start =
     (let price = flt (tk_ltp t) in
      \<lparr>cb_symbol = tk_symbol t, cb_exchange = tk_exchange t, cb_open_epoch = start, cb_open = price, cb_high = price,
       cb_low = price, cb_close = price, cb_volume = flt (of_int (tk_volume t)), cb_tick_count = 1\<rparr>)"

definition add_tick :: "tick \<Rightarrow> candle_bucket \<Rightarrow> candle_bucket" where
  "add_tick t c =
     (let price = flt (tk_ltp t) in
      c\<lparr>cb_high := (if cb_high c < price then price else cb_high c), cb_low := (if price < cb_low c then price else cb_low c),
        cb_close := price, cb_volume := flt_add (cb_volume c) (flt (of_int (tk_volume t))), cb_tick_count := Suc (cb_tick_count c)\<rparr>)"

text \<open>One timeframe. A correction that reaches back replaces the open bucket.\<close>

definition update_timeframe :: "tick \<Rightarrow> bool \<Rightarrow> aggregator \<Rightarrow> string \<times> int \<Rightarrow> aggregator" where
  "update_timeframe t correction a tf =
     (let start = bucket_start (epoch_us (tk_event_time t)) (snd tf); key = (symbol_key t, fst tf); cur = dict_get (ag_buckets a) key in
      if (case cur of None \<Rightarrow> False | Some c \<Rightarrow> start < cb_open_epoch c \<and> \<not> correction) then a
      else
        (let a1 = (case cur of Some c \<Rightarrow> if cb_open_epoch c < start then ag_emit (candle_of (fst tf) (snd tf) c) a else a | None \<Rightarrow> a);
             c1 = (case cur of Some c \<Rightarrow> if cb_open_epoch c = start then add_tick t c else open_bucket t start | None \<Rightarrow> open_bucket t start);
             a2 = a1\<lparr>ag_buckets := dict_put (ag_buckets a1) key c1\<rparr> in
         if correction then ag_emit (candle_of (fst tf) (snd tf) c1) a2 else a2))"

definition ag_update :: "tick \<Rightarrow> bool \<Rightarrow> aggregator \<Rightarrow> aggregator" where
  "ag_update t correction a = foldl (update_timeframe t correction) a (ag_timeframes a)"

definition apply_reconciled_bar :: "candle \<Rightarrow> aggregator \<Rightarrow> aggregator" where
  "apply_reconciled_bar c a = ag_emit c a"

definition flush_timeframe :: "aggregator \<Rightarrow> string \<times> int \<Rightarrow> aggregator" where
  "flush_timeframe a tf =
     (let mine = filter (\<lambda>(k, c). snd k = fst tf) (ag_buckets a) in
      a\<lparr>ag_buckets := filter (\<lambda>(k, c). snd k \<noteq> fst tf) (ag_buckets a),
        ag_emitted := ag_emitted a @ map (\<lambda>(k, c). candle_of (fst tf) (snd tf) c) mine\<rparr>)"

definition ag_flush :: "aggregator \<Rightarrow> aggregator" where
  "ag_flush a = foldl flush_timeframe a (ag_timeframes a)"

definition open_symbols :: "aggregator \<Rightarrow> string set" where
  "open_symbols a = fst ` set (dict_keys (ag_buckets a))"

section \<open>Ticks from events\<close>

text \<open>
  The payload of a tick event: a quote object, or flat fields. A price of zero, or an empty
  one, counts as missing; a price that is no number raises. The volume is read as an integer.
\<close>

record tick_event =
  te_symbol :: "string option"
  te_timestamp :: datetime
  te_exchange :: "string option"
  te_quote :: "(string \<times> rat \<times> int \<times> datetime option) option"
  te_payload_symbol :: "string option"
  te_ltp :: "pos_value option"
  te_last_price :: "pos_value option"
  te_payload_timestamp :: "datetime option"
  te_volume :: int

fun value_truthy :: "pos_value \<Rightarrow> bool" where
  "value_truthy (PvText s) = (s \<noteq> [])"
| "value_truthy (PvNum x) = (x \<noteq> 0)"
| "value_truthy PvNone = False"

definition some_text :: "string option \<Rightarrow> string option" where
  "some_text x = (case x of Some s \<Rightarrow> if s = [] then None else Some s | None \<Rightarrow> None)"

definition first_text :: "string option \<Rightarrow> string option \<Rightarrow> string" where
  "first_text x y = (case some_text x of Some s \<Rightarrow> s | None \<Rightarrow> (case some_text y of Some s \<Rightarrow> s | None \<Rightarrow> []))"

definition aware_utc :: "datetime \<Rightarrow> datetime" where
  "aware_utc t = (case t of Naive us \<Rightarrow> Aware us | Aware us \<Rightarrow> Aware us)"

definition tick_exchange :: "tick_event \<Rightarrow> string" where
  "tick_exchange e = (case some_text (te_exchange e) of Some s \<Rightarrow> s | None \<Rightarrow> ''NSE'')"

definition event_price :: "tick_event \<Rightarrow> pos_value" where
  "event_price e =
     (case te_ltp e of
        Some v \<Rightarrow> if value_truthy v then v else (case te_last_price e of None \<Rightarrow> PvNone | Some w \<Rightarrow> w)
      | None \<Rightarrow> (case te_last_price e of None \<Rightarrow> PvNone | Some w \<Rightarrow> w))"

definition market_tick_from_event :: "tick_event \<Rightarrow> tick option res" where
  "market_tick_from_event e =
     (case te_quote e of
        Some (symb, ltp, vol, ts) \<Rightarrow>
          (let symbol = py_strip (first_text (Some symb) (te_symbol e)) in
           if symbol = [] then Inr None
           else Inr (Some \<lparr>tk_symbol = symbol, tk_exchange = tick_exchange e, tk_ltp = ltp,
                  tk_event_time = aware_utc (case ts of Some t \<Rightarrow> t | None \<Rightarrow> te_timestamp e), tk_volume = vol\<rparr>))
      | None \<Rightarrow>
          (let symbol = py_strip (first_text (te_symbol e) (te_payload_symbol e)) in
           if symbol = [] then Inr None
           else
             (case event_price e of
                PvNone \<Rightarrow> Inr None
              | PvNum x \<Rightarrow>
                  if x = 0 then Inr None
                  else Inr (Some \<lparr>tk_symbol = symbol, tk_exchange = tick_exchange e, tk_ltp = x,
                         tk_event_time = aware_utc (case te_payload_timestamp e of Some t \<Rightarrow> t | None \<Rightarrow> te_timestamp e),
                         tk_volume = te_volume e\<rparr>)
              | PvText s \<Rightarrow>
                  (case read_decimal s of
                     None \<Rightarrow> Inl InvalidOperation
                   | Some x \<Rightarrow>
                       if x = 0 then Inr None
                       else Inr (Some \<lparr>tk_symbol = symbol, tk_exchange = tick_exchange e, tk_ltp = x,
                              tk_event_time = aware_utc (case te_payload_timestamp e of Some t \<Rightarrow> t | None \<Rightarrow> te_timestamp e),
                              tk_volume = te_volume e\<rparr>)))))"

text \<open>The pipeline: ticks into the aggregator, never as corrections.\<close>

definition on_tick :: "tick \<Rightarrow> aggregator \<Rightarrow> aggregator" where
  "on_tick t a = ag_update t False a"

section \<open>Facts about times\<close>

lemma timestamp_mono: "a \<le> b \<Longrightarrow> timestamp a \<le> timestamp b"
  unfolding timestamp_def by (intro flt_mono divide_right_mono) simp_all

lemma bucket_start_mono: "0 < dur \<Longrightarrow> a \<le> b \<Longrightarrow> bucket_start a dur \<le> bucket_start b dur"
  unfolding bucket_start_def by (intro mult_right_mono floor_mono divide_right_mono timestamp_mono) simp_all

text \<open>
  Buckets follow UTC, not the exchange. A bucket starts at the multiple of its duration
  since the epoch at or before the tick, the same for every zone of the tick's time. In
  Indian time, five and a half hours ahead, this is a multiple of the duration exactly when
  the duration divides five and a half hours; a bucket of an hour always starts at
  half past, and one of a day at half past five.
\<close>

theorem buckets_follow_utc:
  "0 < dur \<longrightarrow>
   (let start = bucket_start us dur; local = start + 19800 in
    of_int start \<le> timestamp us \<and> timestamp us < of_int (start + dur) \<and> dur dvd start \<and>
    (dur dvd local \<longleftrightarrow> dur dvd 19800) \<and>
    (dur = 3600 \<longrightarrow> local mod 3600 = 1800) \<and> (dur = 86400 \<longrightarrow> local mod 86400 = 19800))"
proof (intro impI)
  assume d: "0 < dur"
  have r: "(0 :: rat) < of_int dur" using d by simp
  have "of_int \<lfloor>timestamp us / of_int dur\<rfloor> \<le> timestamp us / of_int dur" "timestamp us / of_int dur < of_int \<lfloor>timestamp us / of_int dur\<rfloor> + 1"
    using floor_correct[of "timestamp us / of_int dur"] by simp_all
  then have "of_int (bucket_start us dur) \<le> timestamp us" "timestamp us < of_int (bucket_start us dur + dur)"
    using pos_le_divide_eq[OF r] pos_divide_less_eq[OF r] by (simp_all add: bucket_start_def algebra_simps)
  moreover have dv: "dur dvd bucket_start us dur" by (simp add: bucket_start_def)
  moreover have "dur dvd bucket_start us dur + 19800 \<longleftrightarrow> dur dvd 19800" using dv by (rule dvd_add_right_iff)
  moreover have "(bucket_start us dur + 19800) mod dur = 19800 mod dur" using dv by (metis mod_add_left_eq add_0 dvd_eq_mod_eq_0)
  ultimately show "let start = bucket_start us dur; local = start + 19800 in
    of_int start \<le> timestamp us \<and> timestamp us < of_int (start + dur) \<and> dur dvd start \<and>
    (dur dvd local \<longleftrightarrow> dur dvd 19800) \<and>
    (dur = 3600 \<longrightarrow> local mod 3600 = 1800) \<and> (dur = 86400 \<longrightarrow> local mod 86400 = 19800)"
    by (auto simp: Let_def)
qed

theorem buckets_follow_utc_witness:
  "(bucket_start 1700000123456789 3600 + 19800) mod 3600 = 1800 \<and> timestamp 1700000123456789 < of_int (bucket_start 1700000123456789 3600 + 3600)"
  using buckets_follow_utc[of 3600 1700000123456789] by (simp add: Let_def)

section \<open>Facts about candles\<close>

text \<open>The candles of one timeframe and one symbol.\<close>

definition mine :: "string \<Rightarrow> string \<Rightarrow> candle \<Rightarrow> bool" where
  "mine tf sk c \<longleftrightarrow> cn_timeframe c = tf \<and> cn_symbol c @ '':'' @ cn_exchange c = sk"

definition keys_ok :: "aggregator \<Rightarrow> bool" where
  "keys_ok a \<longleftrightarrow> dict_wf (ag_buckets a) \<and>
     (\<forall>k c. dict_get (ag_buckets a) k = Some c \<longrightarrow> cb_symbol c @ '':'' @ cb_exchange c = fst k \<and> snd k \<in> fst ` set (ag_timeframes a))"

definition bucket_view :: "aggregator \<Rightarrow> string \<Rightarrow> string \<Rightarrow> candle_bucket option \<times> candle list" where
  "bucket_view a tf sk = (dict_get (ag_buckets a) (sk, tf), filter (mine tf sk) (ag_emitted a))"

text \<open>What one tick does to a bucket and the candles that came out of it.\<close>

definition view_step :: "string \<Rightarrow> int \<Rightarrow> candle_bucket option \<times> candle list \<Rightarrow> tick \<Rightarrow> candle_bucket option \<times> candle list" where
  "view_step tf dur v t =
     (let start = bucket_start (epoch_us (tk_event_time t)) dur in
      case fst v of
        None \<Rightarrow> (Some (open_bucket t start), snd v)
      | Some c \<Rightarrow>
          if start < cb_open_epoch c then v
          else if cb_open_epoch c = start then (Some (add_tick t c), snd v)
          else (Some (open_bucket t start), snd v @ [candle_of tf dur c]))"

lemma mine_candle_of: "mine tf sk (candle_of tf' dur c) \<longleftrightarrow> tf' = tf \<and> cb_symbol c @ '':'' @ cb_exchange c = sk"
  by (auto simp: mine_def candle_of_def)

lemma update_timeframe_view:
  assumes "keys_ok a" "fst td \<in> fst ` set (ag_timeframes a)"
  shows "bucket_view (update_timeframe t False a td) tf sk =
       (if tf = fst td \<and> sk = symbol_key t then view_step tf (snd td) (bucket_view a tf sk) t else bucket_view a tf sk)"
    "keys_ok (update_timeframe t False a td)" "ag_timeframes (update_timeframe t False a td) = ag_timeframes a"
proof -
  have k: "cb_symbol c @ '':'' @ cb_exchange c = fst k" if "dict_get (ag_buckets a) k = Some c" for k c
    using assms(1) that unfolding keys_ok_def by blast
  show "bucket_view (update_timeframe t False a td) tf sk =
       (if tf = fst td \<and> sk = symbol_key t then view_step tf (snd td) (bucket_view a tf sk) t else bucket_view a tf sk)"
  proof (cases "dict_get (ag_buckets a) (symbol_key t, fst td)")
    case None
    then show ?thesis by (auto simp: bucket_view_def update_timeframe_def view_step_def Let_def)
  next
    case (Some c)
    then have "cb_symbol c @ '':'' @ cb_exchange c = symbol_key t" using k by fastforce
    then show ?thesis using Some
      by (auto simp: bucket_view_def update_timeframe_def view_step_def Let_def ag_emit_def mine_candle_of)
  qed
  show "keys_ok (update_timeframe t False a td)"
    using assms by (auto simp: keys_ok_def update_timeframe_def Let_def ag_emit_def open_bucket_def add_tick_def symbol_key_def
        split: option.splits)
  show "ag_timeframes (update_timeframe t False a td) = ag_timeframes a"
    by (auto simp: update_timeframe_def Let_def ag_emit_def split: option.splits)
qed

lemma update_timeframes_view:
  assumes "keys_ok a" "fst ` set tds \<subseteq> fst ` set (ag_timeframes a)" "distinct (map fst tds)"
  shows "bucket_view (foldl (update_timeframe t False) a tds) tf sk =
       (case map_of tds tf of None \<Rightarrow> bucket_view a tf sk
        | Some dur \<Rightarrow> if sk = symbol_key t then view_step tf dur (bucket_view a tf sk) t else bucket_view a tf sk) \<and>
    keys_ok (foldl (update_timeframe t False) a tds) \<and> ag_timeframes (foldl (update_timeframe t False) a tds) = ag_timeframes a"
  using assms
proof (induction tds arbitrary: a)
  case (Cons td tds)
  let ?a = "update_timeframe t False a td"
  have u: "fst td \<in> fst ` set (ag_timeframes a)" using Cons.prems by auto
  note v = update_timeframe_view[OF Cons.prems(1) u]
  have "fst ` set tds \<subseteq> fst ` set (ag_timeframes ?a)" "distinct (map fst tds)" using Cons.prems v(3) by auto
  note ih = Cons.IH[OF v(2) this]
  have "fst td \<notin> fst ` set tds" using Cons.prems(3) by auto
  then have "map_of tds (fst td) = None" by (simp add: map_of_eq_None_iff)
  then show ?case using ih v(1,3) by (cases td) (auto split: option.splits)
qed simp

definition aggregator_ok :: "aggregator \<Rightarrow> bool" where
  "aggregator_ok a \<longleftrightarrow> keys_ok a \<and> distinct (map fst (ag_timeframes a))"

lemma on_ticks_view:
  assumes "aggregator_ok a" "map_of (ag_timeframes a) tf = Some dur"
  shows "bucket_view (foldl (\<lambda>a t. on_tick t a) a ts) tf sk =
       foldl (view_step tf dur) (bucket_view a tf sk) (filter (\<lambda>t. symbol_key t = sk) ts) \<and>
     aggregator_ok (foldl (\<lambda>a t. on_tick t a) a ts) \<and> ag_timeframes (foldl (\<lambda>a t. on_tick t a) a ts) = ag_timeframes a"
  using assms
proof (induction ts arbitrary: a)
  case (Cons t ts)
  have k: "keys_ok a" "distinct (map fst (ag_timeframes a))" using Cons.prems(1) by (simp_all add: aggregator_ok_def)
  note u = update_timeframes_view[OF k(1) subset_refl k(2), of t tf sk, folded ag_update_def, folded on_tick_def]
  have "aggregator_ok (on_tick t a)" "map_of (ag_timeframes (on_tick t a)) tf = Some dur"
    using u k(2) Cons.prems(2) by (simp_all add: aggregator_ok_def)
  from Cons.IH[OF this] u Cons.prems(2) show ?case by auto
qed simp

text \<open>The ticks of a symbol in groups, one for each bucket; a tick of an earlier bucket is left out.\<close>

definition add_group :: "int \<Rightarrow> (int \<times> tick list) list \<Rightarrow> tick \<Rightarrow> (int \<times> tick list) list" where
  "add_group dur gs t =
     (let start = bucket_start (epoch_us (tk_event_time t)) dur in
      if gs = [] \<or> fst (last gs) < start then gs @ [(start, [t])]
      else if fst (last gs) = start then butlast gs @ [(start, snd (last gs) @ [t])]
      else gs)"

definition tick_prices :: "tick list \<Rightarrow> rat list" where
  "tick_prices ts = map (\<lambda>t. flt (tk_ltp t)) ts"

definition tick_volume :: "tick list \<Rightarrow> rat" where
  "tick_volume ts = foldl (\<lambda>v t. flt_add v (flt (of_int (tk_volume t)))) (flt (of_int (tk_volume (hd ts)))) (tl ts)"

definition summary :: "string \<Rightarrow> int \<Rightarrow> int \<times> tick list \<Rightarrow> candle" where
  "summary tf dur g =
     (let ts = snd g in
      \<lparr>cn_symbol = tk_symbol (hd ts), cn_exchange = tk_exchange (hd ts), cn_timeframe = tf, cn_open_time = fst g,
       cn_close_time = fst g + dur, cn_open = hd (tick_prices ts), cn_high = Max (set (tick_prices ts)),
       cn_low = Min (set (tick_prices ts)), cn_close = last (tick_prices ts), cn_volume = trunc_int (tick_volume ts),
       cn_tick_count = length ts\<rparr>)"

definition group_bucket :: "int \<times> tick list \<Rightarrow> candle_bucket" where
  "group_bucket g =
     (let ts = snd g in
      \<lparr>cb_symbol = tk_symbol (hd ts), cb_exchange = tk_exchange (hd ts), cb_open_epoch = fst g, cb_open = hd (tick_prices ts),
       cb_high = Max (set (tick_prices ts)), cb_low = Min (set (tick_prices ts)), cb_close = last (tick_prices ts),
       cb_volume = tick_volume ts, cb_tick_count = length ts\<rparr>)"

lemma candle_of_group: "candle_of tf dur (group_bucket g) = summary tf dur g"
  by (simp add: candle_of_def group_bucket_def summary_def Let_def)

lemma group_bucket_single: "group_bucket (start, [t]) = open_bucket t start"
  by (simp add: group_bucket_def open_bucket_def tick_prices_def tick_volume_def Let_def)

lemma group_bucket_snoc:
  assumes "ts \<noteq> []"
  shows "group_bucket (start, ts @ [t]) = add_tick t (group_bucket (start, ts))"
proof -
  obtain x xs where ts: "ts = x # xs" using assms by (cases ts) auto
  have ne: "set (tick_prices ts) \<noteq> {}" by (simp add: ts tick_prices_def)
  have "Max (insert p (set (tick_prices ts))) = (if Max (set (tick_prices ts)) < p then p else Max (set (tick_prices ts)))"
    "Min (insert p (set (tick_prices ts))) = (if p < Min (set (tick_prices ts)) then p else Min (set (tick_prices ts)))" for p
    using Max_insert[OF finite_set ne, of p] Min_insert[OF finite_set ne, of p] by (auto simp: max_def min_def)
  moreover have "tick_prices (ts @ [t]) = tick_prices ts @ [flt (tk_ltp t)]" by (simp add: tick_prices_def)
  moreover have "hd (tick_prices ts @ [p]) = hd (tick_prices ts)" for p by (simp add: ts tick_prices_def)
  ultimately show ?thesis
    using assms by (simp add: group_bucket_def add_tick_def Let_def tick_volume_def)
qed

definition view_of_groups :: "string \<Rightarrow> int \<Rightarrow> (int \<times> tick list) list \<Rightarrow> candle_bucket option \<times> candle list" where
  "view_of_groups tf dur gs = (if gs = [] then None else Some (group_bucket (last gs)), map (summary tf dur) (butlast gs))"

lemma view_step_groups:
  assumes "\<forall>g \<in> set gs. snd g \<noteq> []"
  shows "view_step tf dur (view_of_groups tf dur gs) t = view_of_groups tf dur (add_group dur gs t)"
    "\<forall>g \<in> set (add_group dur gs t). snd g \<noteq> []"
proof -
  show "\<forall>g \<in> set (add_group dur gs t). snd g \<noteq> []" using assms by (auto simp: add_group_def Let_def dest: in_set_butlastD)
  show "view_step tf dur (view_of_groups tf dur gs) t = view_of_groups tf dur (add_group dur gs t)"
  proof (cases gs rule: rev_cases)
    case Nil
    then show ?thesis by (simp add: view_step_def view_of_groups_def add_group_def group_bucket_single Let_def)
  next
    case (snoc hs g)
    obtain e ts where g: "g = (e, ts)" by (cases g)
    have ts: "ts \<noteq> []" using assms snoc g by auto
    have o: "cb_open_epoch (group_bucket g) = e" by (simp add: group_bucket_def g Let_def)
    show ?thesis
      using o ts by (auto simp: view_step_def view_of_groups_def add_group_def snoc g group_bucket_single group_bucket_snoc
          candle_of_group Let_def butlast_append)
  qed
qed

lemma view_run_groups:
  "\<forall>g \<in> set gs. snd g \<noteq> [] \<Longrightarrow>
   foldl (view_step tf dur) (view_of_groups tf dur gs) ts = view_of_groups tf dur (foldl (add_group dur) gs ts) \<and>
   (\<forall>g \<in> set (foldl (add_group dur) gs ts). snd g \<noteq> [])"
proof (induction ts arbitrary: gs)
  case (Cons t ts)
  show ?case unfolding foldl_Cons view_step_groups(1)[OF Cons.prems] by (rule Cons.IH[OF view_step_groups(2)[OF Cons.prems]])
qed simp

lemma filter_one_key: "dict_wf d \<Longrightarrow> filter (\<lambda>(k, c). k = k0) d = (case dict_get d k0 of None \<Rightarrow> [] | Some c \<Rightarrow> [(k0, c)])"
proof (induction d)
  case (Cons x d)
  obtain k c where x: "x = (k, c)" by (cases x)
  have "dict_wf d" "k = k0 \<Longrightarrow> dict_get d k0 = None"
    using Cons.prems by (auto simp: dict_wf_def dict_get_def x map_of_eq_None_iff)
  with Cons.IH show ?case by (auto simp: x dict_get_def split: option.splits)
qed simp

lemma dict_get_filter: "dict_get (filter (\<lambda>(k, c). Q k) d) k = (if Q k then dict_get d k else None)"
  by (induction d) (auto simp: dict_get_def)

lemma dict_wf_filter: "dict_wf d \<Longrightarrow> dict_wf (filter P d)"
  by (simp add: dict_wf_def distinct_map_filter)

definition last_candle :: "aggregator \<Rightarrow> string \<Rightarrow> string \<Rightarrow> int \<Rightarrow> candle list" where
  "last_candle a tf sk dur = (case dict_get (ag_buckets a) (sk, tf) of None \<Rightarrow> [] | Some c \<Rightarrow> [candle_of tf dur c])"

lemma flush_timeframe_mine:
  assumes "keys_ok a"
  shows "filter (mine tf sk) (ag_emitted (flush_timeframe a td)) =
      filter (mine tf sk) (ag_emitted a) @ (if fst td = tf then last_candle a tf sk (snd td) else [])"
    "keys_ok (flush_timeframe a td)"
    "dict_get (ag_buckets (flush_timeframe a td)) (sk, tf) = (if tf \<noteq> fst td then dict_get (ag_buckets a) (sk, tf) else None)"
proof -
  let ?d = "ag_buckets a"
  have wf: "dict_wf ?d" using assms by (simp add: keys_ok_def)
  have k: "cb_symbol c @ '':'' @ cb_exchange c = fst k" if "(k, c) \<in> set ?d" for k c
    using assms that dict_mem[OF wf] unfolding keys_ok_def by blast
  have "filter (mine tf sk) (map (\<lambda>(k, c). candle_of (fst td) (snd td) c) (filter (\<lambda>(k, c). snd k = fst td) ?d)) =
      map (\<lambda>(k, c). candle_of (fst td) (snd td) c) (filter (\<lambda>(k, c). fst td = tf \<and> k = (sk, tf)) ?d)"
    unfolding filter_map filter_filter
    by (intro arg_cong[where f = "map _"] filter_cong refl) (use k in \<open>auto simp: mine_candle_of\<close>)
  also have "\<dots> = (if fst td = tf then last_candle a tf sk (snd td) else [])"
    using filter_one_key[OF wf, of "(sk, tf)"] by (auto simp: last_candle_def split: option.splits)
  finally show "filter (mine tf sk) (ag_emitted (flush_timeframe a td)) =
      filter (mine tf sk) (ag_emitted a) @ (if fst td = tf then last_candle a tf sk (snd td) else [])"
    by (simp add: flush_timeframe_def Let_def)
  have g: "dict_get (ag_buckets (flush_timeframe a td)) kk = (if snd kk \<noteq> fst td then dict_get ?d kk else None)" for kk
    by (simp add: flush_timeframe_def Let_def dict_get_filter[where Q = "\<lambda>k. snd k \<noteq> fst td"])
  have "dict_wf (ag_buckets (flush_timeframe a td))" "ag_timeframes (flush_timeframe a td) = ag_timeframes a"
    using wf by (simp_all add: flush_timeframe_def Let_def dict_wf_filter)
  then show "keys_ok (flush_timeframe a td)"
    using assms unfolding keys_ok_def by (simp add: g)
  show "dict_get (ag_buckets (flush_timeframe a td)) (sk, tf) = (if tf \<noteq> fst td then dict_get (ag_buckets a) (sk, tf) else None)"
    by (simp add: g)
qed

lemma flush_timeframes_mine:
  "keys_ok a \<Longrightarrow> distinct (map fst tds) \<Longrightarrow>
   filter (mine tf sk) (ag_emitted (foldl flush_timeframe a tds)) =
     filter (mine tf sk) (ag_emitted a) @ (case map_of tds tf of None \<Rightarrow> [] | Some dur \<Rightarrow> last_candle a tf sk dur)"
proof (induction tds arbitrary: a)
  case (Cons td tds)
  note f = flush_timeframe_mine[OF Cons.prems(1)]
  have n: "fst td = tf \<Longrightarrow> map_of tds tf = None" using Cons.prems(2) by (auto simp: map_of_eq_None_iff)
  have l: "fst td \<noteq> tf \<Longrightarrow> last_candle (flush_timeframe a td) tf sk dur = last_candle a tf sk dur" for dur
    using f(3)[of td sk tf] by (simp add: last_candle_def)
  have "distinct (map fst tds)" using Cons.prems(2) by simp
  note ih = Cons.IH[OF f(2)[of td] this]
  show ?case
  proof (cases "fst td = tf")
    case True
    then show ?thesis using ih f(1)[of tf sk td] n by (cases td) simp
  next
    case False
    then show ?thesis using ih f(1)[of tf sk td] l by (cases td) (auto split: option.splits)
  qed
qed simp

lemma timeframe_durations_names: "timeframe_durations tfs = Inr ds \<Longrightarrow> map fst ds = tfs"
  by (induction tfs arbitrary: ds) (auto split: sum.splits)

lemma aggregator_new_ok:
  assumes "aggregator_new tfs = Inr a"
  shows "aggregator_ok a" "ag_buckets a = []" "ag_emitted a = []"
proof -
  obtain ds where ds: "timeframe_durations (first_occurrences tfs) = Inr ds" "a = \<lparr>ag_timeframes = ds, ag_buckets = [], ag_emitted = []\<rparr>"
    using assms by (auto simp: aggregator_new_def split: if_splits sum.splits)
  have "distinct (map fst ds)" using timeframe_durations_names[OF ds(1)] by (simp add: first_occurrences_def)
  then show "aggregator_ok a" "ag_buckets a = []" "ag_emitted a = []"
    by (simp_all add: ds(2) aggregator_ok_def keys_ok_def)
qed

section \<open>The candles against their ticks\<close>

text \<open>
  C15: the candles are the summaries of their ticks. However the ticks of the symbols are
  mixed and out of order, what the aggregator hands out for one timeframe and one symbol,
  the final flush included, is the same as grouping the ticks of that symbol by bucket,
  leaving out those of an earlier bucket, and taking of each group the first, highest,
  lowest and last price, the volumes added and the number of ticks. No tick of another
  symbol, and no other timeframe, takes part.
\<close>

theorem candles_summarise_ticks:
  assumes "aggregator_new tfs = Inr a" "map_of (ag_timeframes a) tf = Some dur"
  shows "filter (mine tf sk) (ag_emitted (ag_flush (foldl (\<lambda>a t. on_tick t a) a ts))) =
    map (summary tf dur) (foldl (add_group dur) [] (filter (\<lambda>t. symbol_key t = sk) ts))"
proof -
  let ?b = "foldl (\<lambda>a t. on_tick t a) a ts" and ?gs = "foldl (add_group dur) [] (filter (\<lambda>t. symbol_key t = sk) ts)"
  note n = aggregator_new_ok[OF assms(1)]
  have v0: "bucket_view a tf sk = view_of_groups tf dur []" by (simp add: bucket_view_def view_of_groups_def n)
  note run = on_ticks_view[OF n(1) assms(2), of ts sk]
  have v: "bucket_view ?b tf sk = view_of_groups tf dur ?gs"
    using run view_run_groups[of "[]" tf dur] unfolding v0 by simp
  have o: "keys_ok ?b" "distinct (map fst (ag_timeframes ?b))" "map_of (ag_timeframes ?b) tf = Some dur"
    using run assms(2) n(1) by (simp_all add: aggregator_ok_def)
  have "filter (mine tf sk) (ag_emitted (ag_flush ?b)) = filter (mine tf sk) (ag_emitted ?b) @ last_candle ?b tf sk dur"
    unfolding ag_flush_def using flush_timeframes_mine[OF o(1,2), of tf sk] o(3) by simp
  also have "\<dots> = map (summary tf dur) ?gs"
    using v by (cases ?gs rule: rev_cases) (auto simp: bucket_view_def view_of_groups_def last_candle_def candle_of_group)
  finally show ?thesis .
qed

definition minute_ticks :: "tick list" where
  "minute_ticks =
     (let t = \<lambda>sec p. \<lparr>tk_symbol = ''INFY'', tk_exchange = ''NSE'', tk_ltp = p, tk_event_time = Aware (sec * 1000000), tk_volume = 5\<rparr> in
      [t 60 100, t 61 104, t 119 102, t 121 99, t 90 500, t 122 98])"

text \<open>Six ticks, one of them late: two candles.\<close>

theorem candles_summarise_ticks_witness:
  "\<exists>a. aggregator_new [''1m''] = Inr a \<and>
     filter (mine ''1m'' ''INFY:NSE'') (ag_emitted (ag_flush (foldl (\<lambda>a t. on_tick t a) a minute_ticks))) =
       map (summary ''1m'' 60) (foldl (add_group 60) [] (filter (\<lambda>t. symbol_key t = ''INFY:NSE'') minute_ticks)) \<and>
     map (\<lambda>c. (cn_open c, cn_high c, cn_low c, cn_close c, cn_volume c, cn_tick_count c))
       (map (summary ''1m'' 60) (foldl (add_group 60) [] (filter (\<lambda>t. symbol_key t = ''INFY:NSE'') minute_ticks))) =
       [(100, 104, 100, 102, 15, 3), (99, 99, 98, 98, 10, 2)]"
proof -
  have n: "aggregator_new [''1m''] = Inr \<lparr>ag_timeframes = [(''1m'', 60)], ag_buckets = [], ag_emitted = []\<rparr>" by code_simp
  have "map (\<lambda>c. (cn_open c, cn_high c, cn_low c, cn_close c, cn_volume c, cn_tick_count c))
       (map (summary ''1m'' 60) (foldl (add_group 60) [] (filter (\<lambda>t. symbol_key t = ''INFY:NSE'') minute_ticks))) =
       [(100, 104, 100, 102, 15, 3), (99, 99, 98, 98, 10, 2)]" by code_simp
  with candles_summarise_ticks[OF n, of "''1m''" 60 "''INFY:NSE''" minute_ticks] n show ?thesis by simp
qed

text \<open>A correction that reaches back puts its own bucket in the place of the open one, which is not handed out.\<close>

lemma correction_replaces_open_bucket:
  assumes "dict_get (ag_buckets a) (symbol_key t, fst td) = Some c" "bucket_start (epoch_us (tk_event_time t)) (snd td) < cb_open_epoch c"
  shows "let start = bucket_start (epoch_us (tk_event_time t)) (snd td); b = update_timeframe t True a td in
    dict_get (ag_buckets b) (symbol_key t, fst td) = Some (open_bucket t start) \<and>
    ag_emitted b = ag_emitted a @ [candle_of (fst td) (snd td) (open_bucket t start)]"
  using assms by (auto simp: update_timeframe_def Let_def ag_emit_def)

end
