(* ===== verification/Streams.thy ===== *)
theory Streams
  imports Broker_Routing
begin

text \<open>
  Live streams (\<open>application/streaming/\<close>): the health of a session (\<open>domain/stream_health.py\<close>),
  choosing a broker (\<open>broker_selector.py\<close>), opening, sharing and closing sessions
  (\<open>session_manager.py\<close>), watching and moving them (\<open>reconnect_controller.py\<close>), frames, repeats and
  their delivery (\<open>tick_router.py\<close>), and the orchestrator that owns their state
  (\<open>orchestrator.py\<close>). What a gateway answers when a stream is opened and which transports are
  still connected are arguments, and so are the ids drawn: an operation that would draw a used
  one does nothing. An operation, the waiting in a turn of a monitor included, runs as a whole.
  Times are seconds, exact; sets are lists. The transports opened and closed and the messages
  handed to subscribers are recorded; what a subscriber makes of them is not.
\<close>

section \<open>Health\<close>

datatype transport_state = DISCONNECTED | CONNECTING | AUTHENTICATING | CONNECTED | RECONNECTING

datatype subscription_state = IDLE | SUBSCRIBING | ACKNOWLEDGED | PARTIAL | SUBS_DEGRADED

datatype freshness_state = FRESHNESS_UNKNOWN | FRESH | STALE | NO_DATA

fun transport_value :: "transport_state \<Rightarrow> string" where
  "transport_value DISCONNECTED = ''DISCONNECTED''"
| "transport_value CONNECTING = ''CONNECTING''"
| "transport_value AUTHENTICATING = ''AUTHENTICATING''"
| "transport_value CONNECTED = ''CONNECTED''"
| "transport_value RECONNECTING = ''RECONNECTING''"

fun subscription_value :: "subscription_state \<Rightarrow> string" where
  "subscription_value IDLE = ''IDLE''"
| "subscription_value SUBSCRIBING = ''SUBSCRIBING''"
| "subscription_value ACKNOWLEDGED = ''ACKNOWLEDGED''"
| "subscription_value PARTIAL = ''PARTIAL''"
| "subscription_value SUBS_DEGRADED = ''DEGRADED''"

fun freshness_value :: "freshness_state \<Rightarrow> string" where
  "freshness_value FRESHNESS_UNKNOWN = ''UNKNOWN''"
| "freshness_value FRESH = ''FRESH''"
| "freshness_value STALE = ''STALE''"
| "freshness_value NO_DATA = ''NO_DATA''"

definition transport_usable :: "transport_state \<Rightarrow> bool" where
  "transport_usable t \<longleftrightarrow> t = CONNECTED"

definition subscription_usable :: "subscription_state \<Rightarrow> bool" where
  "subscription_usable s \<longleftrightarrow> s = ACKNOWLEDGED \<or> s = PARTIAL"

definition within_sla :: "freshness_state \<Rightarrow> bool" where
  "within_sla f \<longleftrightarrow> f = FRESH"

record stream_health =
  sh_transport :: transport_state
  sh_subscription :: subscription_state
  sh_freshness :: freshness_state
  sh_last_message_at :: "rat option"
  sh_last_valid_tick_at :: "rat option"
  sh_stale_threshold :: rat

definition health_ok :: "stream_health \<Rightarrow> bool" where
  "health_ok h \<longleftrightarrow> transport_usable (sh_transport h) \<and> subscription_usable (sh_subscription h) \<and> within_sla (sh_freshness h)"

definition failure_reasons :: "stream_health \<Rightarrow> string list" where
  "failure_reasons h =
     (if transport_usable (sh_transport h) then [] else [''transport:'' @ transport_value (sh_transport h)]) @
     (if subscription_usable (sh_subscription h) then [] else [''subscription:'' @ subscription_value (sh_subscription h)]) @
     (if within_sla (sh_freshness h) then [] else [''freshness:'' @ freshness_value (sh_freshness h)])"

datatype stream_kind = Market_Stream | Order_Stream | Portfolio_Stream

record stream_session =
  sn_session_id :: string
  sn_broker_id :: string
  sn_kind :: stream_kind
  sn_instruments :: "string list"
  sn_modes :: "string list"
  sn_health :: stream_health
  sn_generation :: nat

definition update_transport :: "transport_state \<Rightarrow> stream_session \<Rightarrow> stream_session" where
  "update_transport t x = x\<lparr>sn_health := (sn_health x)\<lparr>sh_transport := t\<rparr>\<rparr>"

definition update_subscription :: "subscription_state \<Rightarrow> stream_session \<Rightarrow> stream_session" where
  "update_subscription u x = x\<lparr>sn_health := (sn_health x)\<lparr>sh_subscription := u\<rparr>\<rparr>"

definition update_freshness :: "freshness_state \<Rightarrow> rat option \<Rightarrow> stream_session \<Rightarrow> stream_session" where
  "update_freshness f ts x =
     x\<lparr>sn_health := (sn_health x)\<lparr>sh_freshness := f,
         sh_last_valid_tick_at := (if f = FRESH \<and> ts \<noteq> None then ts else sh_last_valid_tick_at (sn_health x))\<rparr>\<rparr>"

definition record_message :: "rat \<Rightarrow> stream_session \<Rightarrow> stream_session" where
  "record_message ts x = x\<lparr>sn_health := (sn_health x)\<lparr>sh_last_message_at := Some ts\<rparr>\<rparr>"

definition increment_reconnect :: "stream_session \<Rightarrow> stream_session" where
  "increment_reconnect x = x\<lparr>sn_generation := Suc (sn_generation x)\<rparr>"

section \<open>State\<close>

record stream_request =
  sq_kind :: stream_kind
  sq_instruments :: "string list"
  sq_modes :: "string list"
  sq_preferred_brokers :: "string list"
  sq_freshness_sla :: rat
  sq_allow_failover :: bool

record subscription =
  sb_session_id :: string
  sb_request :: stream_request

text \<open>A monitor is the task that watches a session; it may have returned.\<close>

record monitor =
  mo_request :: stream_request
  mo_delay :: rat
  mo_done :: bool

text \<open>The keys of the table of frames seen.\<close>

datatype seen_key = Seen_At string rat "int option" | Seen_Price string rat int

record stream_tick =
  sk_instrument :: "string \<times> string"
  sk_ltp :: rat
  sk_time :: rat
  sk_broker_id :: string
  sk_session_id :: string
  sk_sequence :: "int option"

record order_update =
  ou_broker_id :: string
  ou_session_id :: string
  ou_time :: rat
  ou_order_id :: string
  ou_status :: string
  ou_filled_qty :: int
  ou_avg_price :: rat

datatype message = Tick_Message stream_tick | Update_Message order_update

record 'h streams =
  sm_sessions :: "(string, stream_session) dict"
  sm_handles :: "(string, 'h) dict"
  sm_frames :: "string list"
  sm_monitors :: "(string, monitor) dict"
  sm_subs :: "(string, subscription) dict"
  sm_running :: bool
  sm_seen :: "(seen_key, rat) dict"
  sm_opened :: "'h list"
  sm_dropped :: "'h list"
  sm_closed :: "'h list"
  sm_delivered :: "(string \<times> message) list"

text \<open>\<open>sm_dropped\<close> records the transports opened whose handle is not kept.\<close>

definition streams_new :: "'h streams" where
  "streams_new =
     \<lparr>sm_sessions = [], sm_handles = [], sm_frames = [], sm_monitors = [], sm_subs = [], sm_running = False, sm_seen = [],
      sm_opened = [], sm_dropped = [], sm_closed = [], sm_delivered = []\<rparr>"

definition set_session :: "string \<Rightarrow> (stream_session \<Rightarrow> stream_session) \<Rightarrow> 'h streams \<Rightarrow> 'h streams" where
  "set_session sid f s =
     (case dict_get (sm_sessions s) sid of None \<Rightarrow> s | Some x \<Rightarrow> s\<lparr>sm_sessions := dict_put (sm_sessions s) sid (f x)\<rparr>)"

definition set_monitor :: "string \<Rightarrow> (monitor \<Rightarrow> monitor) \<Rightarrow> 'h streams \<Rightarrow> 'h streams" where
  "set_monitor sid f s =
     (case dict_get (sm_monitors s) sid of None \<Rightarrow> s | Some x \<Rightarrow> s\<lparr>sm_monitors := dict_put (sm_monitors s) sid (f x)\<rparr>)"

text \<open>The surroundings of an operation: the brokers, the routing, and what a gateway answers.\<close>

record ('g, 'i, 'h) stream_env =
  en_brokers :: "('g, 'i) brokers"
  en_policy :: selection_policy
  en_headroom :: "(string \<Rightarrow> string \<Rightarrow> rat) option"
  en_now :: datetime
  en_trace :: string
  en_opens :: "'g \<Rightarrow> stream_kind \<Rightarrow> string list \<Rightarrow> string list \<Rightarrow> exn + 'h"

datatype stream_exn = Routing routing_exn | Raised exn

text \<open>The gateway of a broker is looked up and asked for a stream.\<close>

definition open_stream ::
  "('g, 'i, 'h) stream_env \<Rightarrow> string \<Rightarrow> stream_kind \<Rightarrow> string list \<Rightarrow> string list \<Rightarrow> stream_exn + 'h" where
  "open_stream env bid k instruments modes =
     (case get_gateway (en_brokers env) bid of
        Inl e \<Rightarrow> Inl (Routing e)
      | Inr g \<Rightarrow> (case en_opens env g k instruments modes of Inl e \<Rightarrow> Inl (Raised e) | Inr h \<Rightarrow> Inr h))"

text \<open>The new transport of a session is kept.\<close>

definition keep_handle :: "string \<Rightarrow> 'h \<Rightarrow> 'h streams \<Rightarrow> 'h streams" where
  "keep_handle sid h s =
     set_session sid (\<lambda>x. update_subscription ACKNOWLEDGED (update_transport CONNECTED x))
       (s\<lparr>sm_handles := dict_put (sm_handles s) sid h, sm_opened := sm_opened s @ [h]\<rparr>)"

section \<open>Choosing a broker\<close>

definition stream_operation :: "stream_kind \<Rightarrow> operation_kind" where
  "stream_operation k = (if k = Market_Stream then OPEN_MARKET_STREAM else OPEN_ORDER_STREAM)"

definition stream_route :: "('g, 'i, 'h) stream_env \<Rightarrow> stream_kind \<Rightarrow> routing_exn + route_decision" where
  "stream_route env k =
     route (en_brokers env) (en_policy env) (en_headroom env) (en_now env)
       (routing_request_new (stream_operation k) (en_trace env))"

definition select_broker :: "('g, 'i, 'h) stream_env \<Rightarrow> stream_request \<Rightarrow> routing_exn + string" where
  "select_broker env q =
     (case find (\<lambda>bid. is_usable (get_health (en_brokers env) bid)) (sq_preferred_brokers q) of
        Some bid \<Rightarrow> Inr bid
      | None \<Rightarrow> (case stream_route env (sq_kind q) of Inl e \<Rightarrow> Inl e | Inr d \<Rightarrow> Inr (rd_primary_broker d)))"

section \<open>Sessions\<close>

definition session_new :: "string \<Rightarrow> string \<Rightarrow> stream_request \<Rightarrow> stream_session" where
  "session_new sid bid q =
     \<lparr>sn_session_id = sid, sn_broker_id = bid, sn_kind = sq_kind q, sn_instruments = sq_instruments q, sn_modes = sq_modes q,
      sn_health = \<lparr>sh_transport = CONNECTING, sh_subscription = IDLE, sh_freshness = FRESHNESS_UNKNOWN, sh_last_message_at = None,
                    sh_last_valid_tick_at = None, sh_stale_threshold = sq_freshness_sla q\<rparr>,
      sn_generation = 0\<rparr>"

text \<open>The gateway is looked up before the block that marks a failed session and before the frames are wired.\<close>

definition open_session ::
  "('g, 'i, 'h) stream_env \<Rightarrow> string \<Rightarrow> string \<Rightarrow> stream_request \<Rightarrow> 'h streams \<Rightarrow> (stream_exn + string) \<times> 'h streams" where
  "open_session env sid bid q s =
     (let s1 = s\<lparr>sm_sessions := dict_put (sm_sessions s) sid (session_new sid bid q)\<rparr>;
          s2 = s1\<lparr>sm_frames := List.insert sid (sm_frames s1)\<rparr> in
      case open_stream env bid (sq_kind q) (sq_instruments q) (sq_modes q) of
        Inl (Routing e) \<Rightarrow> (Inl (Routing e), s1)
      | Inl (Raised e) \<Rightarrow> (Inl (Raised e), set_session sid (update_transport DISCONNECTED) s2)
      | Inr h \<Rightarrow>
          (Inr sid,
           (keep_handle sid h s2)
             \<lparr>sm_monitors := dict_put (sm_monitors s2) sid \<lparr>mo_request = q, mo_delay = 1, mo_done = False\<rparr>\<rparr>))"

definition disconnect_session :: "string \<Rightarrow> 'h streams \<Rightarrow> 'h streams" where
  "disconnect_session sid s =
     s\<lparr>sm_monitors := dict_pop (sm_monitors s) sid, sm_frames := removeAll sid (sm_frames s),
       sm_handles := dict_pop (sm_handles s) sid, sm_sessions := dict_pop (sm_sessions s) sid,
       sm_closed := sm_closed s @ (case dict_get (sm_handles s) sid of None \<Rightarrow> [] | Some h \<Rightarrow> [h])\<rparr>"

definition find_reusable_session :: "string \<Rightarrow> stream_request \<Rightarrow> 'h streams \<Rightarrow> stream_session option" where
  "find_reusable_session bid q s =
     find (\<lambda>x. sn_broker_id x = bid \<and> sn_kind x = sq_kind q \<and> health_ok (sn_health x)) (dict_values (sm_sessions s))"

definition merge_instruments ::
  "('g, 'i, 'h) stream_env \<Rightarrow> stream_session \<Rightarrow> stream_request \<Rightarrow> 'h streams \<Rightarrow> stream_exn option \<times> 'h streams" where
  "merge_instruments env x q s =
     (let new = filter (\<lambda>i. i \<notin> set (sn_instruments x)) (sq_instruments q) in
      if new = [] then (None, s)
      else
        (let modes = (if sq_modes q = [] then sn_modes x else List.union (sn_modes x) (sq_modes q));
             s1 = set_session (sn_session_id x)
               (\<lambda>y. y\<lparr>sn_instruments := List.union (sn_instruments x) (sq_instruments q), sn_modes := modes\<rparr>) s in
         case open_stream env (sn_broker_id x) (sn_kind x) new (if sq_modes q = [] then modes else sq_modes q) of
           Inl e \<Rightarrow> (Some e, s1)
         | Inr h \<Rightarrow>
             (None, set_session (sn_session_id x) (update_subscription ACKNOWLEDGED) (s1\<lparr>sm_dropped := sm_dropped s1 @ [h]\<rparr>))))"

text \<open>\<open>sid\<close> and \<open>sub\<close> are the ids that would be drawn.\<close>

definition subscribe ::
  "('g, 'i, 'h) stream_env \<Rightarrow> string \<Rightarrow> string \<Rightarrow> stream_request \<Rightarrow> 'h streams \<Rightarrow> (stream_exn + string) \<times> 'h streams" where
  "subscribe env sid sub q s =
     (case select_broker env q of
        Inl e \<Rightarrow> (Inl (Routing e), s)
      | Inr bid \<Rightarrow>
          (case (case find_reusable_session bid q s of
                   Some x \<Rightarrow> (case merge_instruments env x q s of
                                (None, s1) \<Rightarrow> (Inr (sn_session_id x), s1) | (Some e, s1) \<Rightarrow> (Inl e, s1))
                 | None \<Rightarrow> open_session env sid bid q s) of
             (Inl e, s1) \<Rightarrow> (Inl e, s1)
           | (Inr used, s1) \<Rightarrow>
               (Inr sub, s1\<lparr>sm_subs := dict_put (sm_subs s1) sub \<lparr>sb_session_id = used, sb_request = q\<rparr>\<rparr>)))"

definition unsubscribe :: "string \<Rightarrow> 'h streams \<Rightarrow> 'h streams" where
  "unsubscribe sub s =
     (case dict_get (sm_subs s) sub of
        None \<Rightarrow> s
      | Some u \<Rightarrow>
          (let s1 = s\<lparr>sm_subs := dict_pop (sm_subs s) sub\<rparr> in
           if filter (\<lambda>v. sb_session_id v = sb_session_id u) (dict_values (sm_subs s1)) = []
           then disconnect_session (sb_session_id u) s1 else s1))"

definition start_streams :: "'h streams \<Rightarrow> 'h streams" where
  "start_streams s = s\<lparr>sm_running := True\<rparr>"

definition stop_streams :: "'h streams \<Rightarrow> 'h streams" where
  "stop_streams s = foldl (\<lambda>s sid. disconnect_session sid s) (s\<lparr>sm_running := False\<rparr>) (dict_keys (sm_sessions s))"

definition session_health :: "'h streams \<Rightarrow> string \<Rightarrow> stream_health option" where
  "session_health s sid = map_option sn_health (dict_get (sm_sessions s) sid)"

definition build_stream_summary :: "'h streams \<Rightarrow> string \<Rightarrow> stream_summary" where
  "build_stream_summary s bid =
     (let xs = filter (\<lambda>x. sn_broker_id x = bid) (dict_values (sm_sessions s));
          count = (\<lambda>p. int (length (filter (\<lambda>x. p (sn_health x)) xs))) in
      \<lparr>ss_broker_id = bid, ss_active = int (length xs), ss_healthy = count health_ok,
       ss_stale = count (\<lambda>h. sh_freshness h = STALE), ss_degraded = count (\<lambda>h. sh_subscription h = SUBS_DEGRADED)\<rparr>)"

section \<open>Watching\<close>

definition disconnect_handle :: "string \<Rightarrow> 'h streams \<Rightarrow> 'h streams" where
  "disconnect_handle sid s =
     (case dict_get (sm_handles s) sid of
        None \<Rightarrow> s
      | Some h \<Rightarrow> s\<lparr>sm_handles := dict_pop (sm_handles s) sid, sm_closed := sm_closed s @ [h]\<rparr>)"

text \<open>The transport of \<open>sid\<close> is replaced by one of \<open>bid\<close>; the answer is whether it opened.\<close>

definition reopen ::
  "('g, 'i, 'h) stream_env \<Rightarrow> string \<Rightarrow> string \<Rightarrow> stream_session \<Rightarrow> 'h streams \<Rightarrow> bool \<times> 'h streams" where
  "reopen env sid bid x s =
     (let s1 = disconnect_handle sid s in
      case open_stream env bid (sn_kind x) (sn_instruments x) (sn_modes x) of
        Inl e \<Rightarrow> (False, s1)
      | Inr h \<Rightarrow> (True, set_session sid (update_freshness FRESHNESS_UNKNOWN None) (keep_handle sid h s1)))"

fun try_fallbacks ::
  "('g, 'i, 'h) stream_env \<Rightarrow> string \<Rightarrow> stream_session \<Rightarrow> string list \<Rightarrow> 'h streams \<Rightarrow> bool \<times> 'h streams" where
  "try_fallbacks env sid x [] s = (False, s)"
| "try_fallbacks env sid x (bid # bids) s =
     (if bid = sn_broker_id x then try_fallbacks env sid x bids s
      else
        (case reopen env sid bid x s of
           (True, s1) \<Rightarrow> (True, set_session sid (\<lambda>y. y\<lparr>sn_generation := 0, sn_broker_id := bid\<rparr>) s1)
         | (False, s1) \<Rightarrow> try_fallbacks env sid x bids s1))"

definition try_failover ::
  "('g, 'i, 'h) stream_env \<Rightarrow> string \<Rightarrow> stream_session \<Rightarrow> 'h streams \<Rightarrow> bool \<times> 'h streams" where
  "try_failover env sid x s =
     (case stream_route env (sn_kind x) of
        Inl e \<Rightarrow> (False, s)
      | Inr d \<Rightarrow> try_fallbacks env sid x (rd_fallback_brokers d) s)"

text \<open>A turn of the loop of a monitor.\<close>

definition monitor_turn :: "('g, 'i, 'h) stream_env \<Rightarrow> ('h \<Rightarrow> bool) \<Rightarrow> string \<Rightarrow> 'h streams \<Rightarrow> 'h streams" where
  "monitor_turn env alive sid s =
     (let finish = set_monitor sid (\<lambda>m. m\<lparr>mo_done := True\<rparr>) in
      case dict_get (sm_monitors s) sid of
        None \<Rightarrow> s
      | Some m \<Rightarrow>
          if mo_done m then s
          else if \<not> sm_running s then finish s
          else
            (case dict_get (sm_sessions s) sid of
               None \<Rightarrow> finish s
             | Some x \<Rightarrow>
                 if (case dict_get (sm_handles s) sid of None \<Rightarrow> False | Some h \<Rightarrow> alive h) then s
                 else
                   (let x1 = increment_reconnect (update_transport RECONNECTING x);
                        s1 = set_monitor sid (\<lambda>m. m\<lparr>mo_delay := min (mo_delay m * 2) 60\<rparr>) (set_session sid (\<lambda>_. x1) s) in
                    case (if 5 \<le> sn_generation x1 \<and> sq_allow_failover (mo_request m) then try_failover env sid x1 s1
                          else (False, s1)) of
                      (True, s2) \<Rightarrow> finish s2
                    | (False, s2) \<Rightarrow>
                        (case reopen env sid (sn_broker_id x1) x1 s2 of
                           (True, s3) \<Rightarrow> set_monitor sid (\<lambda>m. m\<lparr>mo_delay := 1\<rparr>) s3
                         | (False, s3) \<Rightarrow> s3))))"

definition check_freshness :: "rat \<Rightarrow> stream_session \<Rightarrow> stream_session" where
  "check_freshness now x =
     (case sh_last_valid_tick_at (sn_health x) of
        None \<Rightarrow> x
      | Some t \<Rightarrow>
          if sh_stale_threshold (sn_health x) < now - t \<and> sh_freshness (sn_health x) \<noteq> STALE then update_freshness STALE None x
          else x)"

definition heartbeat :: "rat \<Rightarrow> 'h streams \<Rightarrow> 'h streams" where
  "heartbeat now s =
     (if sm_running s then s\<lparr>sm_sessions := map (\<lambda>(sid, x). (sid, check_freshness now x)) (sm_sessions s)\<rparr> else s)"

section \<open>Frames\<close>

datatype raw_time = Time_Of rat | Number_Of rat | Text_Of string

record frame_fields =
  ff_symbol :: "string option"
  ff_trading_symbol :: "string option"
  ff_exchange :: "string option"
  ff_timestamp :: "raw_time option"
  ff_exchange_timestamp :: "raw_time option"
  ff_sequence :: "int option"
  ff_ltp :: "rat option"
  ff_last_price :: "rat option"
  ff_order_id :: "string option"
  ff_status :: "string option"
  ff_filled_qty :: "int option"
  ff_avg_price :: "rat option"

text \<open>A frame is a dictionary or something else. Its numbers are numbers.\<close>

type_synonym stream_frame = "frame_fields option"

definition text_or :: "string option \<Rightarrow> string \<Rightarrow> string" where
  "text_or x d = (case x of None \<Rightarrow> d | Some t \<Rightarrow> if t = [] then d else t)"

definition number_or :: "rat option \<Rightarrow> rat \<Rightarrow> rat" where
  "number_or x d = (case x of None \<Rightarrow> d | Some n \<Rightarrow> if n = 0 then d else n)"

definition raw_truthy :: "raw_time option \<Rightarrow> bool" where
  "raw_truthy r = (case r of None \<Rightarrow> False | Some (Time_Of t) \<Rightarrow> True | Some (Number_Of n) \<Rightarrow> n \<noteq> 0 | Some (Text_Of t) \<Rightarrow> t \<noteq> [])"

text \<open>\<open>read_iso\<close> reads a time from a text; numbers beyond the year 9999 are refused.\<close>

definition parse_exchange_time :: "(string \<Rightarrow> rat option) \<Rightarrow> raw_time option \<Rightarrow> rat \<Rightarrow> rat" where
  "parse_exchange_time read_iso r now =
     (case r of
        None \<Rightarrow> now
      | Some (Time_Of t) \<Rightarrow> t
      | Some (Number_Of n) \<Rightarrow>
          if n \<le> 0 then now else if 100000000000 < n then (if n / 1000 < 253402300800 then n / 1000 else now) else n
      | Some (Text_Of t) \<Rightarrow> (if py_strip t = [] then now else case read_iso t of None \<Rightarrow> now | Some v \<Rightarrow> v))"

definition frame_symbol :: "frame_fields \<Rightarrow> string" where
  "frame_symbol f = text_or (ff_symbol f) (text_or (ff_trading_symbol f) [])"

definition frame_time :: "(string \<Rightarrow> rat option) \<Rightarrow> frame_fields \<Rightarrow> rat \<Rightarrow> rat" where
  "frame_time read_iso f now =
     parse_exchange_time read_iso (if raw_truthy (ff_timestamp f) then ff_timestamp f else ff_exchange_timestamp f) now"

definition frame_ltp :: "frame_fields \<Rightarrow> rat" where
  "frame_ltp f = number_or (ff_ltp f) (number_or (ff_last_price f) 0)"

definition dedup_drop ::
  "rat \<Rightarrow> string \<Rightarrow> rat \<Rightarrow> int option \<Rightarrow> rat option \<Rightarrow> bool \<Rightarrow> (seen_key, rat) dict \<Rightarrow> bool \<times> (seen_key, rat) dict" where
  "dedup_drop now key ts seq ltp trusted seen =
     (if dict_get seen (Seen_At key ts seq) \<noteq> None then (True, seen)
      else
        (let fallback = (if trusted then None else map_option (\<lambda>p. Seen_Price key p \<lfloor>now\<rfloor>) ltp) in
         if (case fallback of None \<Rightarrow> False | Some k \<Rightarrow> dict_get seen k \<noteq> None) then (True, seen)
         else
           (let kept = (if 4096 \<le> length seen then filter (\<lambda>(k, t). now - 2 < t) seen else seen);
                marked = dict_put kept (Seen_At key ts seq) now in
            (False, case fallback of None \<Rightarrow> marked | Some k \<Rightarrow> dict_put marked k now))))"

definition deliver :: "string \<Rightarrow> message \<Rightarrow> 'h streams \<Rightarrow> 'h streams" where
  "deliver sid m s =
     s\<lparr>sm_delivered := sm_delivered s @ map (\<lambda>(sub, u). (sub, m)) (filter (\<lambda>(sub, u). sb_session_id u = sid) (sm_subs s))\<rparr>"

definition deliver_tick :: "string \<Rightarrow> rat \<Rightarrow> stream_tick \<Rightarrow> 'h streams \<Rightarrow> 'h streams" where
  "deliver_tick sid now t s =
     set_session sid (\<lambda>x. update_freshness FRESH (Some now) (record_message now x)) (deliver sid (Tick_Message t) s)"

definition normalize_tick :: "(string \<Rightarrow> rat option) \<Rightarrow> frame_fields \<Rightarrow> string \<Rightarrow> string \<Rightarrow> rat \<Rightarrow> stream_tick option" where
  "normalize_tick read_iso f sid bid now =
     (if frame_symbol f = [] then None
      else Some \<lparr>sk_instrument = (frame_symbol f, text_or (ff_exchange f) ''NSE''), sk_ltp = frame_ltp f,
                 sk_time = frame_time read_iso f now, sk_broker_id = bid, sk_session_id = sid, sk_sequence = ff_sequence f\<rparr>)"

definition normalize_order_update :: "frame_fields \<Rightarrow> string \<Rightarrow> string \<Rightarrow> rat \<Rightarrow> order_update" where
  "normalize_order_update f sid bid now =
     \<lparr>ou_broker_id = bid, ou_session_id = sid, ou_time = now, ou_order_id = text_or (ff_order_id f) [],
      ou_status = text_or (ff_status f) [], ou_filled_qty = (case ff_filled_qty f of None \<Rightarrow> 0 | Some n \<Rightarrow> n),
      ou_avg_price = number_or (ff_avg_price f) 0\<rparr>"

definition handle_frame ::
  "(string \<Rightarrow> rat option) \<Rightarrow> string \<Rightarrow> rat \<Rightarrow> stream_frame \<Rightarrow> stream_kind \<Rightarrow> 'h streams \<Rightarrow> 'h streams" where
  "handle_frame read_iso sid now frame k s =
     (case dict_get (sm_sessions s) sid of
        None \<Rightarrow> s
      | Some x \<Rightarrow>
          (let s1 = set_session sid (record_message now) s in
           case frame of
             None \<Rightarrow> s1
           | Some f \<Rightarrow>
               if k \<noteq> Market_Stream
               then deliver sid (Update_Message (normalize_order_update f sid (sn_broker_id x) now)) s1
               else
                 (case normalize_tick read_iso f sid (sn_broker_id x) now of
                    None \<Rightarrow> s1
                  | Some t \<Rightarrow>
                      (case dedup_drop now (frame_symbol f @ '':'' @ text_or (ff_exchange f) ''NSE'') (frame_time read_iso f now)
                              (ff_sequence f) (Some (frame_ltp f)) (ff_exchange_timestamp f \<noteq> None) (sm_seen s1) of
                         (True, seen) \<Rightarrow> s1\<lparr>sm_seen := seen\<rparr>
                       | (False, seen) \<Rightarrow> deliver_tick sid now t (s1\<lparr>sm_seen := seen\<rparr>)))))"

section \<open>Operations\<close>

datatype ('g, 'i, 'h) stream_op =
    Start_Streams
  | Stop_Streams
  | Subscribe "('g, 'i, 'h) stream_env" string string stream_request
  | Unsubscribe string
  | Monitor "('g, 'i, 'h) stream_env" "'h \<Rightarrow> bool" string
  | Heartbeat rat
  | Frame "string \<Rightarrow> rat option" string rat stream_frame stream_kind

definition ids_used :: "string \<Rightarrow> string \<Rightarrow> 'h streams \<Rightarrow> bool" where
  "ids_used sid sub s \<longleftrightarrow>
     dict_get (sm_sessions s) sid \<noteq> None \<or> dict_get (sm_subs s) sub \<noteq> None \<or> (\<exists>u \<in> set (dict_values (sm_subs s)). sb_session_id u = sid)"

fun stream_step :: "'h streams \<Rightarrow> ('g, 'i, 'h) stream_op \<Rightarrow> 'h streams" where
  "stream_step s Start_Streams = start_streams s"
| "stream_step s Stop_Streams = stop_streams s"
| "stream_step s (Subscribe env sid sub q) =
     (if ids_used sid sub s then s else snd (subscribe env sid sub q s))"
| "stream_step s (Unsubscribe sub) = unsubscribe sub s"
| "stream_step s (Monitor env alive sid) = monitor_turn env alive sid s"
| "stream_step s (Heartbeat now) = heartbeat now s"
| "stream_step s (Frame read_iso sid now frame k) = handle_frame read_iso sid now frame k s"

section \<open>Consistency\<close>

text \<open>A session with a monitor has a transport or waits for one; one without was never opened.\<close>

definition sessions_ok :: "'h streams \<Rightarrow> bool" where
  "sessions_ok s \<longleftrightarrow>
     dict_wf (sm_sessions s) \<and> dict_wf (sm_handles s) \<and> dict_wf (sm_subs s) \<and>
     (\<forall>sid. dict_get (sm_handles s) sid \<noteq> None \<longrightarrow> dict_get (sm_monitors s) sid \<noteq> None) \<and>
     (\<forall>sid. dict_get (sm_monitors s) sid \<noteq> None \<or> sid \<in> set (sm_frames s) \<longrightarrow> dict_get (sm_sessions s) sid \<noteq> None) \<and>
     (\<forall>sid x. dict_get (sm_sessions s) sid = Some x \<longrightarrow> sn_session_id x = sid \<and>
        (dict_get (sm_monitors s) sid = None \<longrightarrow> sh_transport (sn_health x) \<in> {CONNECTING, DISCONNECTED})) \<and>
     (\<forall>sid m. dict_get (sm_monitors s) sid = Some m \<longrightarrow> 1 \<le> mo_delay m \<and> mo_delay m \<le> 60) \<and>
     mset (sm_opened s) = mset (sm_closed s) + mset (dict_values (sm_handles s))"

text \<open>The open sessions with a monitor are the ones with subscribers.\<close>

definition subs_ok :: "'h streams \<Rightarrow> bool" where
  "subs_ok s \<longleftrightarrow>
     (\<forall>sid. dict_get (sm_sessions s) sid \<noteq> None \<longrightarrow>
        (dict_get (sm_monitors s) sid \<noteq> None \<longleftrightarrow> (\<exists>u \<in> set (dict_values (sm_subs s)). sb_session_id u = sid)))"

definition streams_inv :: "'h streams \<Rightarrow> bool" where
  "streams_inv s \<longleftrightarrow> sessions_ok s \<and> subs_ok s"

lemma values_put_new: "dict_get d k = None \<Longrightarrow> dict_values (dict_put d k v) = dict_values d @ [v]"
  by (induction d) (auto simp: dict_get_def dict_put_def dict_values_def split: if_splits)

lemma values_pop: "dict_wf d \<Longrightarrow> dict_get d k = Some v \<Longrightarrow> mset (dict_values d) = add_mset v (mset (dict_values (dict_pop d k)))"
proof (induction d)
  case (Cons p d)
  obtain a w where p: "p = (a, w)" by (cases p)
  show ?case
  proof (cases "a = k")
    case True
    then have "AList.delete k d = d" using Cons.prems p by (auto simp: dict_wf_def intro!: delete_idem)
    with True Cons.prems p show ?thesis by (simp add: dict_get_def dict_pop_def dict_values_def)
  next
    case False
    with Cons p show ?thesis by (auto simp: dict_get_def dict_pop_def dict_values_def dict_wf_def)
  qed
qed (simp add: dict_get_def)

lemma pop_absent: "dict_get d k = None \<Longrightarrow> dict_pop d k = d"
  by (simp add: dict_get_def dict_pop_def delete_idem map_of_eq_None_iff)

lemma set_session_fields [simp]:
  "sm_handles (set_session sid f s) = sm_handles s" "sm_frames (set_session sid f s) = sm_frames s"
  "sm_monitors (set_session sid f s) = sm_monitors s" "sm_subs (set_session sid f s) = sm_subs s"
  "sm_running (set_session sid f s) = sm_running s" "sm_seen (set_session sid f s) = sm_seen s"
  "sm_opened (set_session sid f s) = sm_opened s" "sm_dropped (set_session sid f s) = sm_dropped s"
  "sm_closed (set_session sid f s) = sm_closed s" "sm_delivered (set_session sid f s) = sm_delivered s"
  "dict_get (sm_sessions (set_session sid f s)) k = (if k = sid then map_option f (dict_get (sm_sessions s) sid) else dict_get (sm_sessions s) k)"
  by (auto simp: set_session_def split: option.splits)

lemma set_monitor_fields [simp]:
  "sm_handles (set_monitor sid g s) = sm_handles s" "sm_frames (set_monitor sid g s) = sm_frames s"
  "sm_sessions (set_monitor sid g s) = sm_sessions s" "sm_subs (set_monitor sid g s) = sm_subs s"
  "sm_running (set_monitor sid g s) = sm_running s" "sm_seen (set_monitor sid g s) = sm_seen s"
  "sm_opened (set_monitor sid g s) = sm_opened s" "sm_dropped (set_monitor sid g s) = sm_dropped s"
  "sm_closed (set_monitor sid g s) = sm_closed s" "sm_delivered (set_monitor sid g s) = sm_delivered s"
  "dict_get (sm_monitors (set_monitor sid g s)) k = (if k = sid then map_option g (dict_get (sm_monitors s) sid) else dict_get (sm_monitors s) k)"
  by (auto simp: set_monitor_def split: option.splits)

lemma set_session_wf: "dict_wf (sm_sessions s) \<Longrightarrow> dict_wf (sm_sessions (set_session sid f s))"
  by (simp add: set_session_def split: option.splits)

lemma health_updates [simp]:
  "sn_session_id (update_transport t x) = sn_session_id x" "sn_session_id (update_subscription u x) = sn_session_id x"
  "sn_session_id (update_freshness f ts x) = sn_session_id x" "sn_session_id (record_message r x) = sn_session_id x"
  "sn_session_id (increment_reconnect x) = sn_session_id x" "sn_broker_id (update_transport t x) = sn_broker_id x"
  "sn_broker_id (update_subscription u x) = sn_broker_id x" "sn_broker_id (update_freshness f ts x) = sn_broker_id x"
  "sn_broker_id (record_message r x) = sn_broker_id x" "sn_broker_id (increment_reconnect x) = sn_broker_id x"
  "sh_transport (sn_health (update_transport t x)) = t" "sh_transport (sn_health (update_subscription u x)) = sh_transport (sn_health x)"
  "sh_transport (sn_health (update_freshness f ts x)) = sh_transport (sn_health x)"
  "sh_transport (sn_health (record_message r x)) = sh_transport (sn_health x)"
  "sh_transport (sn_health (increment_reconnect x)) = sh_transport (sn_health x)"
  "sn_kind (update_transport t x) = sn_kind x" "sn_kind (increment_reconnect x) = sn_kind x"
  by (simp_all add: update_transport_def update_subscription_def update_freshness_def record_message_def increment_reconnect_def)

lemma inv_id: "streams_inv s \<Longrightarrow> dict_get (sm_sessions s) sid = Some x \<Longrightarrow> sn_session_id x = sid"
  by (simp add: streams_inv_def sessions_ok_def)

lemma inv_monitored:
  "streams_inv s \<Longrightarrow> dict_get (sm_sessions s) sid = Some x \<Longrightarrow> sh_transport (sn_health x) = CONNECTED \<Longrightarrow>
   dict_get (sm_monitors s) sid \<noteq> None"
  unfolding streams_inv_def sessions_ok_def by fastforce

lemma inv_set_session:
  assumes "streams_inv s"
    "\<And>x. dict_get (sm_sessions s) sid = Some x \<Longrightarrow> sn_session_id (f x) = sid \<and>
       (dict_get (sm_monitors s) sid = None \<longrightarrow> sh_transport (sn_health (f x)) = sh_transport (sn_health x))"
  shows "streams_inv (set_session sid f s)"
  using assms unfolding streams_inv_def sessions_ok_def subs_ok_def by (auto simp: set_session_wf) metis

lemma inv_set_monitor:
  assumes "streams_inv s" "\<And>m. dict_get (sm_monitors s) sid = Some m \<Longrightarrow> 1 \<le> mo_delay m \<and> mo_delay m \<le> 60 \<Longrightarrow> 1 \<le> mo_delay (g m) \<and> mo_delay (g m) \<le> 60"
  shows "streams_inv (set_monitor sid g s)"
  using assms unfolding streams_inv_def sessions_ok_def subs_ok_def by auto

lemma inv_untouched:
  "streams_inv s \<Longrightarrow>
   streams_inv (s\<lparr>sm_running := r\<rparr>) \<and> streams_inv (s\<lparr>sm_seen := t\<rparr>) \<and> streams_inv (s\<lparr>sm_dropped := d\<rparr>) \<and> streams_inv (s\<lparr>sm_delivered := v\<rparr>)"
  by (simp add: streams_inv_def sessions_ok_def subs_ok_def)

lemma inv_keep_handle:
  assumes "streams_inv s" "dict_get (sm_handles s) sid = None" "dict_get (sm_monitors s) sid \<noteq> None"
  shows "streams_inv (keep_handle sid h s)"
proof -
  let ?s = "s\<lparr>sm_handles := dict_put (sm_handles s) sid h, sm_opened := sm_opened s @ [h]\<rparr>"
  have "streams_inv ?s"
    using assms unfolding streams_inv_def sessions_ok_def subs_ok_def by (simp add: values_put_new)
  then show ?thesis
    unfolding keep_handle_def by (rule inv_set_session) (use assms in \<open>auto simp: streams_inv_def sessions_ok_def\<close>)
qed

lemma inv_disconnect_handle: "streams_inv s \<Longrightarrow> streams_inv (disconnect_handle sid s)"
  unfolding streams_inv_def sessions_ok_def subs_ok_def disconnect_handle_def by (auto simp: values_pop split: option.splits)

lemma disconnect_handle_fields [simp]:
  "sm_sessions (disconnect_handle sid s) = sm_sessions s" "sm_monitors (disconnect_handle sid s) = sm_monitors s"
  "sm_subs (disconnect_handle sid s) = sm_subs s" "dict_get (sm_handles (disconnect_handle sid s)) sid = None"
  by (auto simp: disconnect_handle_def split: option.splits)

lemma keep_handle_fields [simp]:
  "sm_monitors (keep_handle sid h s) = sm_monitors s" "sm_subs (keep_handle sid h s) = sm_subs s"
  "dict_get (sm_handles (keep_handle sid h s)) k = (if k = sid then Some h else dict_get (sm_handles s) k)"
  by (simp_all add: keep_handle_def)

lemma reopen_monitors [simp]: "sm_monitors (snd (reopen env sid bid x s)) = sm_monitors s"
  by (simp add: reopen_def Let_def split: sum.splits)

lemma inv_reopen: "streams_inv s \<Longrightarrow> dict_get (sm_monitors s) sid \<noteq> None \<Longrightarrow> streams_inv (snd (reopen env sid bid x s))"
  unfolding reopen_def Let_def
  by (auto split: sum.splits intro!: inv_set_session inv_keep_handle inv_disconnect_handle)
   (auto simp: keep_handle_def streams_inv_def sessions_ok_def)

lemma fallbacks_monitors [simp]: "sm_monitors (snd (try_fallbacks env sid x bids s)) = sm_monitors s"
proof (induction bids arbitrary: s)
  case (Cons bid bids)
  obtain b s1 where "reopen env sid bid x s = (b, s1)" by (cases "reopen env sid bid x s")
  with reopen_monitors[of env sid bid x s] Cons show ?case by (cases b) auto
qed simp

lemma inv_fallbacks:
  "streams_inv s \<Longrightarrow> dict_get (sm_monitors s) sid \<noteq> None \<Longrightarrow> streams_inv (snd (try_fallbacks env sid x bids s))"
proof (induction bids arbitrary: s)
  case (Cons bid bids)
  obtain b s1 where r: "reopen env sid bid x s = (b, s1)" by (cases "reopen env sid bid x s")
  have i: "streams_inv s1" "sm_monitors s1 = sm_monitors s"
    using inv_reopen[OF Cons.prems, of env bid x] reopen_monitors[of env sid bid x s] r by simp_all
  have "streams_inv (set_session sid (\<lambda>y. y\<lparr>sn_generation := 0, sn_broker_id := bid\<rparr>) s1)"
    by (rule inv_set_session[OF i(1)]) (use i in \<open>auto simp: streams_inv_def sessions_ok_def\<close>)
  then show ?case using Cons i r by (cases b) auto
qed simp

lemma failover_monitors [simp]: "sm_monitors (snd (try_failover env sid x s)) = sm_monitors s"
  by (simp add: try_failover_def split: sum.splits)

lemma inv_failover:
  "streams_inv s \<Longrightarrow> dict_get (sm_monitors s) sid \<noteq> None \<Longrightarrow> streams_inv (snd (try_failover env sid x s))"
  by (simp add: try_failover_def inv_fallbacks split: sum.splits)

text \<open>The state in which the transport of a session was found lost.\<close>

definition lost :: "string \<Rightarrow> stream_session \<Rightarrow> 'h streams \<Rightarrow> 'h streams" where
  "lost sid x s =
     set_monitor sid (\<lambda>m. m\<lparr>mo_delay := min (mo_delay m * 2) 60\<rparr>)
       (set_session sid (\<lambda>_. increment_reconnect (update_transport RECONNECTING x)) s)"

lemma inv_lost:
  "streams_inv s \<Longrightarrow> dict_get (sm_monitors s) sid \<noteq> None \<Longrightarrow> dict_get (sm_sessions s) sid = Some x \<Longrightarrow> streams_inv (lost sid x s)"
proof -
  assume a: "streams_inv s" "dict_get (sm_monitors s) sid \<noteq> None" "dict_get (sm_sessions s) sid = Some x"
  have "streams_inv (set_session sid (\<lambda>_. increment_reconnect (update_transport RECONNECTING x)) s)"
    by (rule inv_set_session[OF a(1)]) (use a in \<open>auto simp: streams_inv_def sessions_ok_def\<close>)
  then show ?thesis unfolding lost_def by (rule inv_set_monitor) auto
qed

lemma inv_finish: "streams_inv s \<Longrightarrow> streams_inv (set_monitor sid (\<lambda>m. m\<lparr>mo_done := True\<rparr>) s)"
  by (rule inv_set_monitor) simp_all

lemma inv_reset: "streams_inv s \<Longrightarrow> streams_inv (set_monitor sid (\<lambda>m. m\<lparr>mo_delay := 1\<rparr>) s)"
  by (rule inv_set_monitor) simp_all

definition after_loss ::
  "('g, 'i, 'h) stream_env \<Rightarrow> string \<Rightarrow> stream_session \<Rightarrow> bool \<times> 'h streams \<Rightarrow> 'h streams" where
  "after_loss env sid x r =
     (case r of
        (True, s2) \<Rightarrow> set_monitor sid (\<lambda>m. m\<lparr>mo_done := True\<rparr>) s2
      | (False, s2) \<Rightarrow>
          (case reopen env sid (sn_broker_id x) x s2 of
             (True, s3) \<Rightarrow> set_monitor sid (\<lambda>m. m\<lparr>mo_delay := 1\<rparr>) s3
           | (False, s3) \<Rightarrow> s3))"

lemma inv_after_loss:
  "streams_inv (snd r) \<Longrightarrow> dict_get (sm_monitors (snd r)) sid \<noteq> None \<Longrightarrow> streams_inv (after_loss env sid x r)"
  using inv_reopen[of "snd r" sid env "sn_broker_id x" x]
  by (auto simp: after_loss_def inv_finish inv_reset split: prod.splits bool.splits)

lemma monitor_turn_eq:
  "monitor_turn env alive sid s =
     (case dict_get (sm_monitors s) sid of
        None \<Rightarrow> s
      | Some m \<Rightarrow>
          if mo_done m then s
          else if \<not> sm_running s then set_monitor sid (\<lambda>m. m\<lparr>mo_done := True\<rparr>) s
          else
            (case dict_get (sm_sessions s) sid of
               None \<Rightarrow> set_monitor sid (\<lambda>m. m\<lparr>mo_done := True\<rparr>) s
             | Some x \<Rightarrow>
                 if (case dict_get (sm_handles s) sid of None \<Rightarrow> False | Some h \<Rightarrow> alive h) then s
                 else
                   (let x1 = increment_reconnect (update_transport RECONNECTING x) in
                    after_loss env sid x1
                      (if 5 \<le> sn_generation x1 \<and> sq_allow_failover (mo_request m) then try_failover env sid x1 (lost sid x s)
                       else (False, lost sid x s)))))"
  unfolding monitor_turn_def after_loss_def lost_def Let_def ..

lemma inv_monitor_turn: "streams_inv s \<Longrightarrow> streams_inv (monitor_turn env alive sid s)"
proof -
  assume i: "streams_inv s"
  have l: "dict_get (sm_monitors (lost sid x s)) sid \<noteq> None" if "dict_get (sm_monitors s) sid \<noteq> None" for x
    using that by (simp add: lost_def)
  have "streams_inv (after_loss env sid x1 (if c then try_failover env sid x1 (lost sid x s) else (False, lost sid x s)))"
    if "dict_get (sm_monitors s) sid \<noteq> None" "dict_get (sm_sessions s) sid = Some x" for x x1 c
    by (rule inv_after_loss) (use inv_lost[OF i that] l[OF that(1)] in \<open>simp_all add: inv_failover\<close>)
  then show ?thesis unfolding monitor_turn_eq Let_def by (simp add: i inv_finish split: option.splits)
qed

lemma disconnect_session_fields [simp]:
  "sm_subs (disconnect_session sid s) = sm_subs s" "sm_running (disconnect_session sid s) = sm_running s"
  "sm_opened (disconnect_session sid s) = sm_opened s" "sm_dropped (disconnect_session sid s) = sm_dropped s"
  "dict_get (sm_sessions (disconnect_session sid s)) k = (if k = sid then None else dict_get (sm_sessions s) k)"
  by (simp_all add: disconnect_session_def)

lemma disconnect_sessions_ok: "sessions_ok s \<Longrightarrow> sessions_ok (disconnect_session sid s)"
proof -
  assume s: "sessions_ok s"
  have "mset (dict_values (sm_handles s)) =
      mset (case dict_get (sm_handles s) sid of None \<Rightarrow> [] | Some h \<Rightarrow> [h]) + mset (dict_values (dict_pop (sm_handles s) sid))"
    using s by (auto simp: pop_absent values_pop sessions_ok_def split: option.splits)
  then show ?thesis using s unfolding sessions_ok_def disconnect_session_def by auto
qed

lemma disconnect_subs_ok: "subs_ok s \<Longrightarrow> subs_ok (disconnect_session sid s)"
  by (auto simp: subs_ok_def disconnect_session_def)

lemma disconnect_all:
  "sessions_ok s \<and> subs_ok s \<Longrightarrow>
   (let s1 = foldl (\<lambda>s sid. disconnect_session sid s) s sids in
    sessions_ok s1 \<and> subs_ok s1 \<and> sm_subs s1 = sm_subs s \<and> sm_running s1 = sm_running s \<and> sm_opened s1 = sm_opened s \<and> sm_dropped s1 = sm_dropped s \<and>
    (\<forall>k. dict_get (sm_sessions s1) k = (if k \<in> set sids then None else dict_get (sm_sessions s) k)))"
proof (induction sids arbitrary: s)
  case (Cons sid sids)
  have "sessions_ok (disconnect_session sid s) \<and> subs_ok (disconnect_session sid s)"
    using Cons.prems by (simp add: disconnect_sessions_ok disconnect_subs_ok)
  note Cons.IH[OF this]
  then show ?case unfolding Let_def foldl_Cons by simp
qed (simp add: Let_def)

lemma get_keys: "k \<in> set (dict_keys d) \<longleftrightarrow> dict_get d k \<noteq> None"
  by (simp add: dict_get_def dict_keys_def map_of_eq_None_iff)

lemma stop_state:
  assumes "streams_inv s"
  shows "streams_inv (stop_streams s)" "sm_sessions (stop_streams s) = []" "sm_handles (stop_streams s) = []"
    "mset (sm_closed (stop_streams s)) = mset (sm_opened s)" "sm_dropped (stop_streams s) = sm_dropped s"
proof -
  let ?s = "stop_streams s"
  have "sessions_ok (s\<lparr>sm_running := False\<rparr>) \<and> subs_ok (s\<lparr>sm_running := False\<rparr>)"
    using assms by (simp add: streams_inv_def sessions_ok_def subs_ok_def)
  from disconnect_all[OF this, of "dict_keys (sm_sessions s)"]
  have d: "sessions_ok ?s" "subs_ok ?s" "\<forall>k. dict_get (sm_sessions ?s) k = None" "sm_opened ?s = sm_opened s" "sm_dropped ?s = sm_dropped s"
    by (simp_all add: stop_streams_def Let_def get_keys)
  then show "streams_inv ?s" by (simp add: streams_inv_def)
  have empty: "d = []" if "\<forall>k. dict_get d k = None" for d :: "(string, 'x) dict"
    using that by (cases d) (auto simp: dict_get_def split: if_splits)
  show "sm_sessions ?s = []" using d(3) by (rule empty)
  show h: "sm_handles ?s = []" using d(1,3) by (intro empty) (force simp: sessions_ok_def)
  show "mset (sm_closed ?s) = mset (sm_opened s)" using d(1,4) h by (simp add: sessions_ok_def dict_values_def)
  show "sm_dropped ?s = sm_dropped s" by (rule d(5))
qed

lemma values_pop_set: "dict_wf d \<Longrightarrow> dict_get d k = Some v \<Longrightarrow> set (dict_values d) = insert v (set (dict_values (dict_pop d k)))"
  by (drule (1) values_pop) (metis set_mset_add_mset_insert set_mset_mset)

lemma inv_unsubscribe: "streams_inv s \<Longrightarrow> streams_inv (unsubscribe sub s)"
proof (cases "dict_get (sm_subs s) sub")
  case (Some u)
  assume i: "streams_inv s"
  let ?s = "s\<lparr>sm_subs := dict_pop (sm_subs s) sub\<rparr>"
  have wf: "dict_wf (sm_subs s)" using i by (simp add: streams_inv_def sessions_ok_def)
  have ok: "sessions_ok ?s" using i by (simp add: streams_inv_def sessions_ok_def)
  have u: "set (dict_values (sm_subs s)) = insert u (set (dict_values (sm_subs ?s)))" using values_pop_set[OF wf Some] by simp
  show ?thesis
  proof (cases "filter (\<lambda>v. sb_session_id v = sb_session_id u) (dict_values (sm_subs ?s)) = []")
    case True
    have "subs_ok (disconnect_session (sb_session_id u) ?s)"
      using i unfolding subs_ok_def streams_inv_def u by (simp add: disconnect_session_def)
    with True Some disconnect_sessions_ok[OF ok] show ?thesis by (simp add: unsubscribe_def Let_def streams_inv_def)
  next
    case False
    then have "\<exists>v \<in> set (dict_values (sm_subs ?s)). sb_session_id v = sb_session_id u" by (auto simp: filter_empty_conv)
    then have "subs_ok ?s" using i unfolding subs_ok_def streams_inv_def u by simp blast
    with False Some ok show ?thesis by (simp add: unsubscribe_def Let_def streams_inv_def)
  qed
qed (simp add: unsubscribe_def)

lemma get_map: "dict_get (map (\<lambda>(k, v). (k, f v)) d) k = map_option f (dict_get d k)"
  by (simp add: dict_get_def map_of_map)

lemma check_freshness_fields [simp]:
  "sn_session_id (check_freshness now x) = sn_session_id x" "sn_broker_id (check_freshness now x) = sn_broker_id x"
  "sh_transport (sn_health (check_freshness now x)) = sh_transport (sn_health x)"
  by (simp_all add: check_freshness_def split: option.splits)

lemma heartbeat_get: "dict_get (sm_sessions (heartbeat now s)) k =
    (if sm_running s then map_option (check_freshness now) (dict_get (sm_sessions s) k) else dict_get (sm_sessions s) k)"
  by (simp add: heartbeat_def get_map)

lemma inv_heartbeat: "streams_inv s \<Longrightarrow> streams_inv (heartbeat now s)"
proof -
  assume i: "streams_inv s"
  let ?d = "map (\<lambda>(sid, x). (sid, check_freshness now x)) (sm_sessions s)"
  have "dict_wf ?d" using i by (simp add: streams_inv_def sessions_ok_def dict_wf_def comp_def case_prod_beta)
  moreover have "dict_get ?d k = map_option (check_freshness now) (dict_get (sm_sessions s) k)" for k by (rule get_map)
  ultimately have "streams_inv (s\<lparr>sm_sessions := ?d\<rparr>)"
    using i unfolding streams_inv_def sessions_ok_def subs_ok_def by auto metis
  then show ?thesis using i by (simp add: heartbeat_def)
qed

lemma inv_record: "streams_inv s \<Longrightarrow> streams_inv (set_session sid (record_message now) s)"
  by (rule inv_set_session) (auto dest: inv_id)

lemma inv_deliver: "streams_inv s \<Longrightarrow> streams_inv (deliver sid m s)"
  by (simp add: deliver_def inv_untouched)

lemma inv_deliver_tick: "streams_inv s \<Longrightarrow> streams_inv (deliver_tick sid now t s)"
  unfolding deliver_tick_def
  by (rule inv_set_session[OF inv_deliver]) (auto dest: inv_id simp: deliver_def)

lemma inv_handle_frame: "streams_inv s \<Longrightarrow> streams_inv (handle_frame read_iso sid now frame k s)"
  unfolding handle_frame_def Let_def
  by (auto simp: inv_record inv_deliver inv_deliver_tick inv_untouched split: option.splits prod.splits bool.splits)

lemma find_mem: "find p xs = Some x \<Longrightarrow> x \<in> set xs \<and> p x"
  by (induction xs) (auto split: if_splits)

lemma reusable_monitored:
  assumes "streams_inv s" "find_reusable_session bid q s = Some x"
  shows "dict_get (sm_sessions s) (sn_session_id x) = Some x" "dict_get (sm_monitors s) (sn_session_id x) \<noteq> None"
    "\<exists>u \<in> set (dict_values (sm_subs s)). sb_session_id u = sn_session_id x"
proof -
  have x: "x \<in> set (dict_values (sm_sessions s))" "sh_transport (sn_health x) = CONNECTED"
    using find_mem[OF assms(2)[unfolded find_reusable_session_def]] by (auto simp: health_ok_def transport_usable_def)
  then obtain k where k: "dict_get (sm_sessions s) k = Some x"
    using assms(1) by (auto simp: streams_inv_def sessions_ok_def dict_values_mem)
  show g: "dict_get (sm_sessions s) (sn_session_id x) = Some x" using inv_id[OF assms(1) k] k by simp
  show "dict_get (sm_monitors s) (sn_session_id x) \<noteq> None" by (rule inv_monitored[OF assms(1) g x(2)])
  with g show "\<exists>u \<in> set (dict_values (sm_subs s)). sb_session_id u = sn_session_id x"
    using assms(1) by (auto simp: streams_inv_def subs_ok_def)
qed

lemma merge_fields [simp]:
  "sm_subs (snd (merge_instruments env x q s)) = sm_subs s" "sm_monitors (snd (merge_instruments env x q s)) = sm_monitors s"
  "sm_handles (snd (merge_instruments env x q s)) = sm_handles s" "sm_running (snd (merge_instruments env x q s)) = sm_running s"
  by (auto simp: merge_instruments_def Let_def split: sum.splits)

lemma inv_merge:
  fixes s :: "'h streams"
  assumes "streams_inv s" "dict_get (sm_sessions s) (sn_session_id x) = Some x"
  shows "streams_inv (snd (merge_instruments env x q s))"
proof -
  have a: "streams_inv (set_session (sn_session_id x) (\<lambda>y. y\<lparr>sn_instruments := is, sn_modes := ms\<rparr>) s)" for "is" ms
    by (rule inv_set_session[OF assms(1)]) (use assms in auto)
  have b: "streams_inv (set_session (sn_session_id x) (update_subscription ACKNOWLEDGED) (t\<lparr>sm_dropped := d\<rparr>))"
    if t: "streams_inv t" for t :: "'h streams" and d
    by (rule inv_set_session) (use inv_untouched[OF t] inv_id[OF t] in auto)
  show ?thesis
    unfolding merge_instruments_def Let_def
    by (simp add: assms a b[OF a] split: sum.splits)
qed

lemma values_put_fresh: "dict_get d k = None \<Longrightarrow> set (dict_values (dict_put d k v)) = insert v (set (dict_values d))"
  by (simp add: values_put_new)

text \<open>A session that opens, with its first subscription.\<close>

lemma inv_opened:
  assumes i: "streams_inv s" and f: "\<not> ids_used sid sub s"
    and x: "sn_session_id x = sid" "sh_transport (sn_health x) \<in> {CONNECTING, DISCONNECTED}"
  shows "streams_inv (s\<lparr>sm_sessions := dict_put (sm_sessions s) sid x\<rparr>)"
    "streams_inv (s\<lparr>sm_sessions := dict_put (sm_sessions s) sid x, sm_frames := List.insert sid (sm_frames s)\<rparr>)"
    "streams_inv (s\<lparr>sm_sessions := dict_put (sm_sessions s) sid x, sm_frames := List.insert sid (sm_frames s),
        sm_monitors := dict_put (sm_monitors s) sid \<lparr>mo_request = q, mo_delay = 1, mo_done = False\<rparr>,
        sm_subs := dict_put (sm_subs s) sub \<lparr>sb_session_id = sid, sb_request = q\<rparr>\<rparr>)"
proof -
  have n: "dict_get (sm_sessions s) sid = None" "dict_get (sm_subs s) sub = None" "\<forall>u \<in> set (dict_values (sm_subs s)). sb_session_id u \<noteq> sid"
    using f by (auto simp: ids_used_def)
  have m: "dict_get (sm_monitors s) sid = None"
    using i n(1) by (auto simp: streams_inv_def sessions_ok_def)
  show "streams_inv (s\<lparr>sm_sessions := dict_put (sm_sessions s) sid x\<rparr>)"
    "streams_inv (s\<lparr>sm_sessions := dict_put (sm_sessions s) sid x, sm_frames := List.insert sid (sm_frames s)\<rparr>)"
    using i n m x unfolding streams_inv_def sessions_ok_def subs_ok_def by auto
  show "streams_inv (s\<lparr>sm_sessions := dict_put (sm_sessions s) sid x, sm_frames := List.insert sid (sm_frames s),
        sm_monitors := dict_put (sm_monitors s) sid \<lparr>mo_request = q, mo_delay = 1, mo_done = False\<rparr>,
        sm_subs := dict_put (sm_subs s) sub \<lparr>sb_session_id = sid, sb_request = q\<rparr>\<rparr>)"
    using i n m x unfolding streams_inv_def sessions_ok_def subs_ok_def by (auto simp: values_put_fresh)
qed

lemma put_twice: "dict_put (dict_put d k v) k w = dict_put d k w"
  by (simp add: dict_put_def)

lemma session_new_fields [simp]: "sn_session_id (session_new sid bid q) = sid" "sh_transport (sn_health (session_new sid bid q)) = CONNECTING"
  by (simp_all add: session_new_def)

text \<open>What a subscription does, in one of four ways.\<close>

lemma subscribe_cases:
  obtains "snd (subscribe env sid sub q s) = s"
  | bid x where "find_reusable_session bid q s = Some x" "snd (subscribe env sid sub q s) = snd (merge_instruments env x q s)"
  | bid x where "find_reusable_session bid q s = Some x"
      "snd (subscribe env sid sub q s) = (snd (merge_instruments env x q s))\<lparr>sm_subs := dict_put (sm_subs s) sub \<lparr>sb_session_id = sn_session_id x, sb_request = q\<rparr>\<rparr>"
  | bid where "snd (subscribe env sid sub q s) = s\<lparr>sm_sessions := dict_put (sm_sessions s) sid (session_new sid bid q)\<rparr>"
  | bid where "snd (subscribe env sid sub q s) =
        s\<lparr>sm_sessions := dict_put (sm_sessions s) sid (update_transport DISCONNECTED (session_new sid bid q)),
          sm_frames := List.insert sid (sm_frames s)\<rparr>"
  | bid h where "snd (subscribe env sid sub q s) =
        keep_handle sid h
          (s\<lparr>sm_sessions := dict_put (sm_sessions s) sid (session_new sid bid q), sm_frames := List.insert sid (sm_frames s),
             sm_monitors := dict_put (sm_monitors s) sid \<lparr>mo_request = q, mo_delay = 1, mo_done = False\<rparr>,
             sm_subs := dict_put (sm_subs s) sub \<lparr>sb_session_id = sid, sb_request = q\<rparr>\<rparr>)"
proof -
  have kh: "keep_handle sid h (t\<lparr>sm_monitors := m, sm_subs := b\<rparr>) = (keep_handle sid h t)\<lparr>sm_monitors := m, sm_subs := b\<rparr>" for h t m b
    by (auto simp: keep_handle_def set_session_def split: option.splits)
  show thesis
  proof (cases "select_broker env q")
    case (Inl e)
    then show thesis using that(1) by (simp add: subscribe_def)
  next
    case (Inr bid')
    show thesis
    proof (cases "find_reusable_session bid' q s")
      case (Some x)
      obtain r s1 where m: "merge_instruments env x q s = (r, s1)" by (cases "merge_instruments env x q s")
      then have "sm_subs s1 = sm_subs s" using merge_fields(1)[of env x q s] by simp
      then show thesis
        by (cases r, intro that(3)[OF Some]) (simp_all add: subscribe_def Inr Some m that(2)[OF Some])
    next
      case None
      show thesis
      proof (cases "open_stream env bid' (sq_kind q) (sq_instruments q) (sq_modes q)")
        case (Inl e)
        show thesis
        proof (cases e)
          case (Routing r)
          show thesis by (rule that(4)[of bid']) (simp add: subscribe_def \<open>select_broker env q = Inr bid'\<close> None open_session_def Inl Routing Let_def)
        next
          case (Raised r)
          show thesis by (rule that(5)[of bid']) (simp add: subscribe_def \<open>select_broker env q = Inr bid'\<close> None open_session_def Inl Raised Let_def set_session_def put_twice)
        qed
      next
        case (Inr h)
        show thesis
          by (rule that(6)[of h bid']) (simp add: subscribe_def \<open>select_broker env q = Inr bid'\<close> None open_session_def Inr Let_def kh[symmetric])
      qed
    qed
  qed
qed

lemma inv_put_sub:
  assumes "streams_inv s" "dict_get (sm_subs s) sub = None" "\<exists>v \<in> set (dict_values (sm_subs s)). sb_session_id v = sb_session_id u"
  shows "streams_inv (s\<lparr>sm_subs := dict_put (sm_subs s) sub u\<rparr>)"
  using assms unfolding streams_inv_def sessions_ok_def subs_ok_def by (auto simp: values_put_fresh)

lemma inv_subscribe:
  fixes s :: "'h streams"
  assumes i: "streams_inv s" and f: "\<not> ids_used sid sub s"
  shows "streams_inv (snd (subscribe env sid sub q s))"
proof -
  have n: "dict_get (sm_sessions s) sid = None" "dict_get (sm_subs s) sub = None" using f by (auto simp: ids_used_def)
  show ?thesis
  proof (rule subscribe_cases[of env sid sub q s])
    fix bid h
    assume e: "snd (subscribe env sid sub q s) =
        keep_handle sid h
          (s\<lparr>sm_sessions := dict_put (sm_sessions s) sid (session_new sid bid q), sm_frames := List.insert sid (sm_frames s),
             sm_monitors := dict_put (sm_monitors s) sid \<lparr>mo_request = q, mo_delay = 1, mo_done = False\<rparr>,
             sm_subs := dict_put (sm_subs s) sub \<lparr>sb_session_id = sid, sb_request = q\<rparr>\<rparr>)"
    have "dict_get (sm_handles s) sid = None"
      using i n(1) unfolding streams_inv_def sessions_ok_def by blast
    then show ?thesis unfolding e by (intro inv_keep_handle inv_opened(3)[OF i f]) (simp_all)
  next
    fix bid
    assume e: "snd (subscribe env sid sub q s) =
        s\<lparr>sm_sessions := dict_put (sm_sessions s) sid (update_transport DISCONNECTED (session_new sid bid q)),
          sm_frames := List.insert sid (sm_frames s)\<rparr>"
    show ?thesis unfolding e by (rule inv_opened(2)[OF i f]) simp_all
  next
    fix bid x
    assume r: "find_reusable_session bid q s = Some x"
      and e: "snd (subscribe env sid sub q s) = (snd (merge_instruments env x q s))
        \<lparr>sm_subs := dict_put (sm_subs s) sub \<lparr>sb_session_id = sn_session_id x, sb_request = q\<rparr>\<rparr>"
    note k = reusable_monitored[OF i r]
    show ?thesis
      using inv_put_sub[OF inv_merge[OF i k(1), of env q], of sub "\<lparr>sb_session_id = sn_session_id x, sb_request = q\<rparr>"] n(2) k(3)
      unfolding e by simp
  next
    fix bid x
    assume r: "find_reusable_session bid q s = Some x" and e: "snd (subscribe env sid sub q s) = snd (merge_instruments env x q s)"
    show ?thesis unfolding e by (rule inv_merge[OF i reusable_monitored(1)[OF i r]])
  next
    fix bid
    assume e: "snd (subscribe env sid sub q s) = s\<lparr>sm_sessions := dict_put (sm_sessions s) sid (session_new sid bid q)\<rparr>"
    show ?thesis unfolding e by (rule inv_opened(1)[OF i f]) simp_all
  qed (use i in simp)
qed

interpretation streams: invariant_system stream_step streams_inv
proof
  fix s :: "'h streams" and x :: "('g, 'i, 'h) stream_op"
  assume i: "streams_inv s"
  then show "streams_inv (stream_step s x)"
    by (cases x) (simp_all add: start_streams_def inv_untouched stop_state inv_subscribe inv_unsubscribe inv_monitor_turn
        inv_heartbeat inv_handle_frame)
qed

lemma streams_stay_inv: "streams_inv (run_ops stream_step streams_new ops)"
  by (rule streams.inv_run) (simp add: streams_inv_def sessions_ok_def subs_ok_def streams_new_def dict_values_def)

text \<open>
  C24: sessions, transports and subscriptions belong together. Whatever is done, a transport in
  use and a monitor belong to a session, sessions with a monitor are exactly those with
  subscribers, the others were never connected and are never shared, the wait of a monitor
  stays between one second and a minute, and each transport opened for a session is in use or
  has been closed once. Stopping closes all of them; the transports that were opened to add
  instruments to a shared session are never closed.
\<close>

theorem streams_stay_consistent:
  "let s = run_ops stream_step streams_new ops; s1 = stop_streams s in
   streams_inv s \<and> sm_sessions s1 = [] \<and> sm_handles s1 = [] \<and> mset (sm_closed s1) = mset (sm_opened s) \<and> sm_dropped s1 = sm_dropped s"
  using streams_stay_inv[of ops] by (simp add: Let_def stop_state)

section \<open>Failover\<close>

text \<open>A transition touches no other session than \<open>sid\<close>.\<close>

definition same_at :: "string \<Rightarrow> 'h streams \<Rightarrow> 'h streams \<Rightarrow> bool" where
  "same_at k s t \<longleftrightarrow>
     dict_get (sm_sessions s) k = dict_get (sm_sessions t) k \<and> dict_get (sm_handles s) k = dict_get (sm_handles t) k \<and>
     dict_get (sm_monitors s) k = dict_get (sm_monitors t) k"

lemma same_at_refl [simp]: "same_at k s s"
  by (simp add: same_at_def)

lemma same_at_trans: "same_at k s t \<Longrightarrow> same_at k t u \<Longrightarrow> same_at k s u"
  by (simp add: same_at_def)

lemma same_at_set: "k \<noteq> sid \<Longrightarrow> same_at k (set_session sid f s) s" "k \<noteq> sid \<Longrightarrow> same_at k (set_monitor sid g s) s"
  by (simp_all add: same_at_def)

lemma same_at_reopen: "k \<noteq> sid \<Longrightarrow> same_at k (snd (reopen env sid bid x s)) s"
  by (auto simp: same_at_def reopen_def Let_def keep_handle_def disconnect_handle_def split: sum.splits option.splits)

lemma same_at_fallbacks: "k \<noteq> sid \<Longrightarrow> same_at k (snd (try_fallbacks env sid x bids s)) s"
proof (induction bids arbitrary: s)
  case (Cons bid bids)
  obtain b s1 where r: "reopen env sid bid x s = (b, s1)" by (cases "reopen env sid bid x s")
  with same_at_reopen[OF Cons.prems, of env bid x s] have "same_at k s1 s" by simp
  with Cons r show ?case by (cases b) (auto intro: same_at_trans same_at_set)
qed (simp add: same_at_def)

lemma same_at_after_loss: "k \<noteq> sid \<Longrightarrow> same_at k (snd r) s \<Longrightarrow> same_at k (after_loss env sid x r) s"
  using same_at_reopen[of k sid env "sn_broker_id x" x "snd r"]
  by (auto simp: after_loss_def split: prod.splits bool.splits) (meson same_at_trans same_at_set)+

lemma same_at_turn:
  fixes s :: "'h streams"
  shows "k \<noteq> sid \<Longrightarrow> same_at k (monitor_turn env alive sid s) s"
proof -
  assume k: "k \<noteq> sid"
  have l: "same_at k (lost sid x s) s" for x using k unfolding lost_def by (blast intro: same_at_trans same_at_set)
  have f: "same_at k (snd (try_failover env sid x t)) t" for x and t :: "'h streams"
    using same_at_fallbacks[OF k, of env x _ t] by (simp add: try_failover_def split: sum.splits)
  have "same_at k (after_loss env sid x1 (if c then try_failover env sid x1 (lost sid x s) else (False, lost sid x s))) s" for x x1 c
    by (rule same_at_after_loss[OF k]) (use l f in \<open>auto intro: same_at_trans\<close>)
  then show ?thesis
    using k unfolding monitor_turn_eq Let_def by (simp add: same_at_set split: option.splits)
qed

text \<open>A session whose monitor has returned with the transport up.\<close>

definition unwatched :: "string \<Rightarrow> 'h \<Rightarrow> string \<Rightarrow> 'h streams \<Rightarrow> bool" where
  "unwatched sid h bid s \<longleftrightarrow>
     (\<exists>m. dict_get (sm_monitors s) sid = Some m \<and> mo_done m) \<and> dict_get (sm_handles s) sid = Some h \<and>
     (\<exists>x. dict_get (sm_sessions s) sid = Some x \<and> sh_transport (sn_health x) = CONNECTED \<and> sn_broker_id x = bid)"

lemma unwatched_same: "same_at sid s t \<Longrightarrow> unwatched sid h bid s = unwatched sid h bid t"
  by (simp add: unwatched_def same_at_def)

lemma unwatched_session:
  "unwatched sid h bid s \<Longrightarrow> (\<And>x. sh_transport (sn_health (f x)) = sh_transport (sn_health x) \<and> sn_broker_id (f x) = sn_broker_id x) \<Longrightarrow>
   unwatched sid h bid (set_session k f s)"
  by (auto simp: unwatched_def)

definition releases :: "('g, 'i, 'h) stream_op \<Rightarrow> bool" where
  "releases op \<longleftrightarrow> (case op of Stop_Streams \<Rightarrow> True | Unsubscribe sub \<Rightarrow> True | _ \<Rightarrow> False)"

lemma unwatched_step:
  assumes u: "unwatched sid h bid s" and n: "\<not> releases op"
  shows "unwatched sid h bid (stream_step s op)"
proof (cases op)
  case (Subscribe env k sub q)
  show ?thesis
  proof (cases "ids_used k sub s")
    case True
    with u Subscribe show ?thesis by simp
  next
    case False
    then have k: "k \<noteq> sid" using u by (auto simp: ids_used_def unwatched_def)
    have "unwatched sid h bid (snd (subscribe env k sub q s))"
    proof (rule subscribe_cases[of env k sub q s])
      have m: "unwatched sid h bid (snd (merge_instruments env x q s))" for x
        using u by (auto simp: merge_instruments_def Let_def unwatched_def split: sum.splits)
      then show "unwatched sid h bid (snd (subscribe env k sub q s))"
        if "snd (subscribe env k sub q s) = snd (merge_instruments env x q s)" for x
        unfolding that .
      show "unwatched sid h bid (snd (subscribe env k sub q s))"
        if "snd (subscribe env k sub q s) = (snd (merge_instruments env x q s))\<lparr>sm_subs := v\<rparr>" for x v
        unfolding that using m[of x] by (simp add: unwatched_def)
    qed (use u k in \<open>simp_all add: unwatched_def keep_handle_def\<close>)
    with False Subscribe show ?thesis by simp
  qed
next
  case (Monitor env alive k)
  show ?thesis
  proof (cases "k = sid")
    case True
    with u Monitor show ?thesis by (auto simp: unwatched_def monitor_turn_def Let_def)
  next
    case False
    then have "sid \<noteq> k" by simp
    then show ?thesis unfolding Monitor stream_step.simps by (subst unwatched_same[OF same_at_turn]) (use u in simp_all)
  qed
next
  case (Heartbeat now)
  then show ?thesis using u by (auto simp: unwatched_def heartbeat_get) (auto simp: heartbeat_def)
next
  case (Frame read_iso k now frame knd)
  have d: "unwatched sid h bid (deliver j m t)" if "unwatched sid h bid t" for j m t using that by (simp add: unwatched_def deliver_def)
  have s: "unwatched sid h bid (t\<lparr>sm_seen := e\<rparr>)" if "unwatched sid h bid t" for e t using that by (simp add: unwatched_def)
  have r: "unwatched sid h bid (set_session j (record_message now) t)" if "unwatched sid h bid t" for j t
    by (rule unwatched_session[OF that]) simp
  have f: "unwatched sid h bid (set_session j (\<lambda>x. update_freshness FRESH (Some now) (record_message now x)) t)"
    if "unwatched sid h bid t" for j t
    by (rule unwatched_session[OF that]) simp
  show ?thesis
    unfolding Frame stream_step.simps handle_frame_def deliver_tick_def Let_def
    by (simp add: u r s d f split: option.splits prod.splits bool.splits)
qed (use u n in \<open>simp_all add: releases_def unwatched_def start_streams_def\<close>)

lemma unwatched_run: "unwatched sid h bid s \<Longrightarrow> list_all (\<lambda>op. \<not> releases op) ops \<Longrightarrow> unwatched sid h bid (run_ops stream_step s ops)"
  by (induction ops arbitrary: s) (auto intro: unwatched_step)

lemma reopen_effect:
  assumes "reopen env sid bid x s = (b, s1)" "dict_get (sm_sessions s) sid = Some y"
  shows "b \<Longrightarrow> (\<exists>h z. dict_get (sm_handles s1) sid = Some h \<and> dict_get (sm_sessions s1) sid = Some z \<and>
      sh_transport (sn_health z) = CONNECTED \<and> sn_broker_id z = sn_broker_id y)"
    "\<not> b \<Longrightarrow> dict_get (sm_sessions s1) sid = Some y"
  using assms by (auto simp: reopen_def Let_def keep_handle_def split: sum.splits)

lemma fallbacks_effect:
  "try_fallbacks env sid x bids s = (b, s1) \<Longrightarrow> dict_get (sm_sessions s) sid = Some y \<Longrightarrow>
   (b \<longrightarrow> (\<exists>h z. dict_get (sm_handles s1) sid = Some h \<and> dict_get (sm_sessions s1) sid = Some z \<and>
      sh_transport (sn_health z) = CONNECTED \<and> sn_broker_id z \<in> set bids - {sn_broker_id x})) \<and>
   (\<not> b \<longrightarrow> dict_get (sm_sessions s1) sid = Some y)"
proof (induction bids arbitrary: s)
  case (Cons bid bids)
  show ?case
  proof (cases "bid = sn_broker_id x")
    case True
    with Cons show ?thesis by auto
  next
    case False
    obtain c s2 where r: "reopen env sid bid x s = (c, s2)" by (cases "reopen env sid bid x s")
    note e = reopen_effect[OF r Cons.prems(2)]
    show ?thesis
    proof (cases c)
      case True
      with e(1) Cons.prems False r show ?thesis by auto
    next
      case c: False
      with e(2) Cons.IH[of s2] Cons.prems False r show ?thesis by auto
    qed
  qed
qed auto

lemma failover_effect:
  "try_failover env sid x s = (b, s1) \<Longrightarrow> dict_get (sm_sessions s) sid = Some y \<Longrightarrow>
   (b \<longrightarrow> (\<exists>h z. dict_get (sm_handles s1) sid = Some h \<and> dict_get (sm_sessions s1) sid = Some z \<and>
      sh_transport (sn_health z) = CONNECTED \<and> sn_broker_id z \<noteq> sn_broker_id x)) \<and>
   (\<not> b \<longrightarrow> dict_get (sm_sessions s1) sid = Some y)"
  by (auto simp: try_failover_def split: sum.splits dest!: fallbacks_effect)

text \<open>After a loss the monitor returns if the session moved, and goes on if it did not.\<close>

lemma loss_effect:
  assumes "dict_get (sm_sessions s) sid = Some x1" "dict_get (sm_monitors s) sid = Some m"
    "r = (if c then try_failover env sid x1 s else (False, s))"
  shows "(\<exists>h bid. bid \<noteq> sn_broker_id x1 \<and> unwatched sid h bid (after_loss env sid x1 r)) \<or>
    (\<exists>y m'. dict_get (sm_sessions (after_loss env sid x1 r)) sid = Some y \<and> sn_broker_id y = sn_broker_id x1 \<and>
       dict_get (sm_monitors (after_loss env sid x1 r)) sid = Some m' \<and> mo_done m' = mo_done m)"
proof -
  obtain b t where r: "r = (b, t)" by (cases r)
  have t: "sm_monitors t = sm_monitors s"
    using failover_monitors[of env sid x1 s] assms(3) r by (metis snd_conv)
  have e: "(b \<longrightarrow> (\<exists>h z. dict_get (sm_handles t) sid = Some h \<and> dict_get (sm_sessions t) sid = Some z \<and>
      sh_transport (sn_health z) = CONNECTED \<and> sn_broker_id z \<noteq> sn_broker_id x1)) \<and>
     (\<not> b \<longrightarrow> dict_get (sm_sessions t) sid = Some x1)"
    using failover_effect[of env sid x1 s b t, OF _ assms(1)] assms(1,3) r by (auto split: if_splits)
  show ?thesis
  proof (cases b)
    case True
    with e t assms(2) show ?thesis unfolding r after_loss_def unwatched_def by auto
  next
    case False
    obtain c u where o: "reopen env sid (sn_broker_id x1) x1 t = (c, u)" by (cases "reopen env sid (sn_broker_id x1) x1 t")
    have m: "sm_monitors u = sm_monitors s" using reopen_monitors[of env sid "sn_broker_id x1" x1 t] o t by simp
    have "\<exists>y. dict_get (sm_sessions u) sid = Some y \<and> sn_broker_id y = sn_broker_id x1"
      using reopen_effect[OF o, of x1] e False by (cases c) auto
    with False m assms(2) show ?thesis unfolding r after_loss_def by (cases c) (auto simp: o)
  qed
qed

text \<open>
  C26: nobody watches a session after a failover. A turn of a monitor moves the session to another
  broker exactly when it ends the monitor. From then on, short of unsubscribing and stopping,
  whatever is done and whatever transports break, the session keeps the transport it moved to
  and claims to be connected at that broker.
\<close>

theorem failover_ends_watching:
  "let s1 = monitor_turn env alive sid s in
   dict_get (sm_monitors s) sid = Some m \<and> \<not> mo_done m \<and> sm_running s \<and> dict_get (sm_sessions s) sid = Some x \<longrightarrow>
   (\<exists>y m1. dict_get (sm_sessions s1) sid = Some y \<and> dict_get (sm_monitors s1) sid = Some m1 \<and>
      (mo_done m1 \<longleftrightarrow> sn_broker_id y \<noteq> sn_broker_id x) \<and>
      (mo_done m1 \<and> list_all (\<lambda>op. \<not> releases op) ops \<longrightarrow>
        (let s2 = run_ops stream_step s1 ops in
         \<exists>z. dict_get (sm_sessions s2) sid = Some z \<and> sh_transport (sn_health z) = CONNECTED \<and> sn_broker_id z = sn_broker_id y \<and>
             dict_get (sm_handles s1) sid \<noteq> None \<and> dict_get (sm_handles s2) sid = dict_get (sm_handles s1) sid)))"
proof -
  let ?s1 = "monitor_turn env alive sid s"
  let ?x1 = "increment_reconnect (update_transport RECONNECTING x)"
  have turn: "(\<exists>h bid. bid \<noteq> sn_broker_id x \<and> unwatched sid h bid ?s1) \<or>
    (\<exists>y m'. dict_get (sm_sessions ?s1) sid = Some y \<and> sn_broker_id y = sn_broker_id x \<and> dict_get (sm_monitors ?s1) sid = Some m' \<and> \<not> mo_done m')"
    if h: "dict_get (sm_monitors s) sid = Some m" "\<not> mo_done m" "sm_running s" "dict_get (sm_sessions s) sid = Some x"
  proof (cases "case dict_get (sm_handles s) sid of None \<Rightarrow> False | Some h \<Rightarrow> alive h")
    case True
    with h show ?thesis by (simp add: monitor_turn_eq)
  next
    case False
    let ?r = "if 5 \<le> sn_generation ?x1 \<and> sq_allow_failover (mo_request m) then try_failover env sid ?x1 (lost sid x s) else (False, lost sid x s)"
    have "?s1 = after_loss env sid ?x1 ?r" unfolding monitor_turn_eq Let_def using h False by simp
    moreover have l: "dict_get (sm_sessions (lost sid x s)) sid = Some ?x1" using h by (simp add: lost_def)
    moreover obtain m' where m': "dict_get (sm_monitors (lost sid x s)) sid = Some m'" "\<not> mo_done m'"
      using h by (simp add: lost_def)
    ultimately show ?thesis using loss_effect[OF l m'(1) refl, of env "5 \<le> sn_generation ?x1 \<and> sq_allow_failover (mo_request m)"] m'(2)
      by simp
  qed
  show ?thesis
  proof (unfold Let_def, intro impI)
    assume "dict_get (sm_monitors s) sid = Some m \<and> \<not> mo_done m \<and> sm_running s \<and> dict_get (sm_sessions s) sid = Some x"
    then consider (moved) h bid where "bid \<noteq> sn_broker_id x" "unwatched sid h bid ?s1"
      | (stayed) y m' where "dict_get (sm_sessions ?s1) sid = Some y" "sn_broker_id y = sn_broker_id x"
          "dict_get (sm_monitors ?s1) sid = Some m'" "\<not> mo_done m'"
      using turn by blast
    then show "\<exists>y m1. dict_get (sm_sessions ?s1) sid = Some y \<and> dict_get (sm_monitors ?s1) sid = Some m1 \<and>
      (mo_done m1 \<longleftrightarrow> sn_broker_id y \<noteq> sn_broker_id x) \<and>
      (mo_done m1 \<and> list_all (\<lambda>op. \<not> releases op) ops \<longrightarrow>
        (\<exists>z. dict_get (sm_sessions (run_ops stream_step ?s1 ops)) sid = Some z \<and> sh_transport (sn_health z) = CONNECTED \<and>
           sn_broker_id z = sn_broker_id y \<and> dict_get (sm_handles ?s1) sid \<noteq> None \<and>
           dict_get (sm_handles (run_ops stream_step ?s1 ops)) sid = dict_get (sm_handles ?s1) sid))"
    proof cases
      case moved
      note run = unwatched_run[OF moved(2), of ops]
      from moved(2) obtain y m1 where "dict_get (sm_sessions ?s1) sid = Some y" "dict_get (sm_monitors ?s1) sid = Some m1"
        "mo_done m1" "sn_broker_id y = bid" "dict_get (sm_handles ?s1) sid = Some h"
        by (auto simp: unwatched_def)
      with moved(1) run show ?thesis by (auto simp: unwatched_def)
    next
      case stayed
      then show ?thesis by blast
    qed
  qed
qed

definition sample_env :: "(nat, nat, nat) stream_env" where
  "sample_env =
     \<lparr>en_brokers = sample_brokers, en_policy = multi_broker_redundant_policy, en_headroom = None, en_now = Naive 0, en_trace = ''t'',
      en_opens = (\<lambda>g k is ms. Inr (10 * g))\<rparr>"

definition sample_request :: stream_request where
  "sample_request =
     \<lparr>sq_kind = Market_Stream, sq_instruments = [''TCS:NSE''], sq_modes = [''LTP''], sq_preferred_brokers = [''dhan''],
      sq_freshness_sla = 30, sq_allow_failover = True\<rparr>"

text \<open>A session at Dhan that lost its transport four times.\<close>

definition sample_streams :: "nat streams" where
  "sample_streams =
     set_session ''s'' (\<lambda>x. x\<lparr>sn_generation := 4\<rparr>) (start_streams (snd (subscribe sample_env ''s'' ''u'' sample_request streams_new)))"

lemma sample_streams_turn:
  "(let s1 = monitor_turn sample_env (\<lambda>h. False) ''s'' sample_streams in
    map_option sn_broker_id (dict_get (sm_sessions sample_streams) ''s'') = Some ''dhan'' \<and>
    map_option sn_broker_id (dict_get (sm_sessions s1) ''s'') = Some ''upstox'' \<and>
    map_option mo_done (dict_get (sm_monitors sample_streams) ''s'') = Some False \<and> sm_running sample_streams)"
  by code_simp

theorem failover_ends_watching_witness:
  "\<exists>z. dict_get (sm_sessions (run_ops stream_step (monitor_turn sample_env (\<lambda>h. False) ''s'' sample_streams)
          [Monitor sample_env (\<lambda>h. False) ''s'', Heartbeat 100])) ''s'' = Some z \<and>
       sh_transport (sn_health z) = CONNECTED \<and> sn_broker_id z = ''upstox''"
proof -
  let ?s1 = "monitor_turn sample_env (\<lambda>h. False) ''s'' sample_streams"
  let ?ops = "[Monitor sample_env (\<lambda>h. False) ''s'', Heartbeat 100]"
  note t = sample_streams_turn[unfolded Let_def]
  obtain x m y where x: "dict_get (sm_sessions sample_streams) ''s'' = Some x" "sn_broker_id x = ''dhan''"
    "dict_get (sm_monitors sample_streams) ''s'' = Some m" "\<not> mo_done m" "sm_running sample_streams"
    "dict_get (sm_sessions ?s1) ''s'' = Some y" "sn_broker_id y = ''upstox''"
    using t by auto
  have r: "list_all (\<lambda>op. \<not> releases op) ?ops" by (simp add: releases_def)
  show ?thesis
    using failover_ends_watching[of sample_env "\<lambda>h. False" "''s''" sample_streams m x ?ops] x r
    unfolding Let_def by auto
qed

section \<open>Adding instruments\<close>

lemma union_all: "filter (\<lambda>i. i \<notin> set (List.union xs ys)) ys = []"
  by (simp add: filter_empty_conv)

lemma find_put:
  assumes "dict_wf d" "find p (dict_values d) = Some x" "\<And>k v. (k, v) \<in> set d \<Longrightarrow> key v = k" "p y"
  shows "find p (dict_values (dict_put d (key x) y)) = Some y"
  using assms
proof (induction d)
  case (Cons c d)
  obtain k v where c: "c = (k, v)" by (cases c)
  have kv: "key v = k" using Cons.prems(3)[of k v] c by simp
  show ?case
  proof (cases "p v")
    case True
    then have "v = x" using Cons.prems(2) c by (simp add: dict_values_def)
    then have "key x = k" using kv by simp
    then show ?thesis by (simp add: c dict_put_def dict_values_def Cons.prems(4))
  next
    case False
    then have f: "find p (dict_values d) = Some x" using Cons.prems(2) c by (simp add: dict_values_def)
    have wf: "dict_wf d" "k \<notin> fst ` set d" using Cons.prems(1) c by (auto simp: dict_wf_def)
    obtain j where j: "(j, x) \<in> set d" using find_mem[OF f] by (auto simp: dict_values_def)
    then have "key x = j" using Cons.prems(3)[of j x] by simp
    then have "k \<noteq> key x" using wf(2) j by force
    with False Cons.IH[OF wf(1) f Cons.prems(3,4)] show ?thesis by (simp add: c dict_put_def dict_values_def)
  qed
qed (simp add: dict_values_def)

text \<open>
  A failure to add instruments counts as success. When a subscription shares a session and the
  broker fails to add its instruments, it is refused and nothing was opened, but the session
  lists the instruments from then on. The same request put again is then accepted without any
  gateway being asked, whatever the gateways would answer, as is any later request at that
  broker for those instruments.
\<close>

theorem failed_merge_counts_as_done:
  "streams_inv s \<and> select_broker env q = Inr bid \<and> find_reusable_session bid q s = Some x \<and> subscribe env sid sub q s = (Inl e, s1) \<and>
   select_broker env' q' = Inr bid \<and> sq_kind q' = sq_kind q \<and> set (sq_instruments q') \<subseteq> set (sn_instruments x) \<union> set (sq_instruments q) \<longrightarrow>
   sm_opened s1 = sm_opened s \<and> sm_dropped s1 = sm_dropped s \<and> sm_subs s1 = sm_subs s \<and>
   (\<exists>x1. dict_get (sm_sessions s1) (sn_session_id x) = Some x1 \<and>
         set (sn_instruments x1) = set (sn_instruments x) \<union> set (sq_instruments q)) \<and>
   subscribe env' sid' sub' q' s1 =
     (Inr sub', s1\<lparr>sm_subs := dict_put (sm_subs s1) sub' \<lparr>sb_session_id = sn_session_id x, sb_request = q'\<rparr>\<rparr>)"
proof (intro impI)
  assume a: "streams_inv s \<and> select_broker env q = Inr bid \<and> find_reusable_session bid q s = Some x \<and> subscribe env sid sub q s = (Inl e, s1) \<and>
   select_broker env' q' = Inr bid \<and> sq_kind q' = sq_kind q \<and> set (sq_instruments q') \<subseteq> set (sn_instruments x) \<union> set (sq_instruments q)"
  then have i: "streams_inv s" and r: "find_reusable_session bid q s = Some x" by simp_all
  note g = reusable_monitored(1)[OF i r]
  let ?x = "x\<lparr>sn_instruments := List.union (sn_instruments x) (sq_instruments q),
      sn_modes := (if sq_modes q = [] then sn_modes x else List.union (sn_modes x) (sq_modes q))\<rparr>"
  have s1: "s1 = s\<lparr>sm_sessions := dict_put (sm_sessions s) (sn_session_id x) ?x\<rparr>"
    using a by (auto simp: subscribe_def merge_instruments_def Let_def set_session_def g split: sum.splits option.splits if_splits)
  let ?p = "\<lambda>y. sn_broker_id y = bid \<and> sn_kind y = sq_kind q \<and> health_ok (sn_health y)"
  have wf: "dict_wf (sm_sessions s)" using i by (simp add: streams_inv_def sessions_ok_def)
  have "find ?p (dict_values (dict_put (sm_sessions s) (sn_session_id x) ?x)) = Some ?x"
    by (rule find_put[OF wf]) (use r find_mem[OF r[unfolded find_reusable_session_def]] inv_id[OF i] wf in
        \<open>auto simp: find_reusable_session_def dict_mem\<close>)
  then have f: "find_reusable_session bid q' s1 = Some ?x" using a by (simp add: find_reusable_session_def s1)
  have "merge_instruments env' ?x q' s1 = (None, s1)"
    using a by (auto simp: merge_instruments_def Let_def filter_empty_conv)
  with a f have "subscribe env' sid' sub' q' s1 =
     (Inr sub', s1\<lparr>sm_subs := dict_put (sm_subs s1) sub' \<lparr>sb_session_id = sn_session_id x, sb_request = q'\<rparr>\<rparr>)"
    by (simp add: subscribe_def)
  moreover have "\<exists>x1. dict_get (sm_sessions s1) (sn_session_id x) = Some x1 \<and>
         set (sn_instruments x1) = set (sn_instruments x) \<union> set (sq_instruments q)"
    by (simp add: s1)
  ultimately show "sm_opened s1 = sm_opened s \<and> sm_dropped s1 = sm_dropped s \<and> sm_subs s1 = sm_subs s \<and>
   (\<exists>x1. dict_get (sm_sessions s1) (sn_session_id x) = Some x1 \<and>
         set (sn_instruments x1) = set (sn_instruments x) \<union> set (sq_instruments q)) \<and>
   subscribe env' sid' sub' q' s1 =
     (Inr sub', s1\<lparr>sm_subs := dict_put (sm_subs s1) sub' \<lparr>sb_session_id = sn_session_id x, sb_request = q'\<rparr>\<rparr>)"
    by (simp add: s1)
qed

definition sample_frame :: frame_fields where
  "sample_frame =
     \<lparr>ff_symbol = Some ''TCS'', ff_trading_symbol = None, ff_exchange = None, ff_timestamp = Some (Number_Of 5), ff_exchange_timestamp = None,
      ff_sequence = None, ff_ltp = Some 10, ff_last_price = None, ff_order_id = None, ff_status = None, ff_filled_qty = None, ff_avg_price = None\<rparr>"

definition fresh_ops :: "(nat, nat, nat) stream_op list" where
  "fresh_ops = [Start_Streams, Subscribe sample_env ''s'' ''u'' sample_request, Frame (\<lambda>t. None) ''s'' 6 (Some sample_frame) Market_Stream]"

definition failing_env :: "(nat, nat, nat) stream_env" where
  "failing_env = sample_env\<lparr>en_opens := (\<lambda>g k is ms. Inl (External ''down''))\<rparr>"

definition more_request :: stream_request where
  "more_request = sample_request\<lparr>sq_instruments := [''INFY:NSE'']\<rparr>"

lemma sample_merge:
  "select_broker failing_env more_request = Inr ''dhan'' \<and>
   (let s = run_ops stream_step streams_new fresh_ops in
    map_option sn_session_id (find_reusable_session ''dhan'' more_request s) = Some ''s'' \<and>
    (case fst (subscribe failing_env ''t'' ''v'' more_request s) of Inl e \<Rightarrow> True | Inr a \<Rightarrow> False))"
  by code_simp

theorem failed_merge_counts_as_done_witness:
  "fst (subscribe failing_env ''t'' ''w'' more_request
      (snd (subscribe failing_env ''t'' ''v'' more_request (run_ops stream_step streams_new fresh_ops)))) = Inr ''w''"
proof -
  let ?s = "run_ops stream_step streams_new fresh_ops"
  obtain x where x: "find_reusable_session ''dhan'' more_request ?s = Some x"
    using sample_merge unfolding Let_def by auto
  obtain e s1 where e: "subscribe failing_env ''t'' ''v'' more_request ?s = (Inl e, s1)"
    using sample_merge unfolding Let_def by (cases "subscribe failing_env ''t'' ''v'' more_request ?s") (auto split: sum.splits)
  have "streams_inv ?s" using streams_stay_inv by blast
  then show ?thesis
    using failed_merge_counts_as_done[of ?s failing_env more_request "''dhan''" x "''t''" "''v''" e s1 failing_env more_request
        "''t''" "''w''"] x e sample_merge
    by simp
qed

section \<open>Repeats\<close>

record dedup_call =
  dd_now :: rat
  dd_key :: string
  dd_time :: rat
  dd_sequence :: "int option"
  dd_ltp :: "rat option"
  dd_trusted :: bool

definition dedup_step :: "(seen_key, rat) dict \<Rightarrow> dedup_call \<Rightarrow> (seen_key, rat) dict" where
  "dedup_step seen c = snd (dedup_drop (dd_now c) (dd_key c) (dd_time c) (dd_sequence c) (dd_ltp c) (dd_trusted c) seen)"

lemma get_filter: "dict_get d k = Some t \<Longrightarrow> P (k, t) \<Longrightarrow> dict_get (filter P d) k = Some t"
  by (induction d) (auto simp: dict_get_def split: if_splits)

text \<open>A call changes nothing or adds one or two keys that were not there.\<close>

definition note_keys :: "rat \<Rightarrow> seen_key list \<Rightarrow> (seen_key, rat) dict \<Rightarrow> (seen_key, rat) dict" where
  "note_keys now ks seen =
     foldl (\<lambda>d k. dict_put d k now) (if 4096 \<le> length seen then filter (\<lambda>(k, t). now - 2 < t) seen else seen) ks"

lemma dedup_cases:
  obtains (dropped) "dedup_drop now key ts seq ltp trusted seen = (True, seen)"
  | (taken) ks where "length ks \<le> 2" "set ks = {Seen_At key ts seq} \<union> (if trusted then {} else (\<lambda>p. Seen_Price key p \<lfloor>now\<rfloor>) ` set_option ltp)"
      "\<forall>k \<in> set ks. dict_get seen k = None" "dedup_drop now key ts seq ltp trusted seen = (False, note_keys now ks seen)"
proof (cases "dict_get seen (Seen_At key ts seq)")
  case None
  show thesis
  proof (cases "if trusted then None else map_option (\<lambda>p. Seen_Price key p \<lfloor>now\<rfloor>) ltp")
    case n: None
    show thesis
      by (rule taken[of "[Seen_At key ts seq]"]) (use None n in \<open>auto simp: dedup_drop_def note_keys_def Let_def split: if_splits\<close>)
  next
    case (Some k)
    show thesis
    proof (cases "dict_get seen k")
      case k: None
      show thesis
        by (rule taken[of "[Seen_At key ts seq, k]"])
          (use None Some k in \<open>auto simp: dedup_drop_def note_keys_def Let_def split: if_splits\<close>)
    next
      case k: (Some t)
      show thesis by (rule dropped) (use None Some k in \<open>simp add: dedup_drop_def Let_def\<close>)
    qed
  qed
qed (simp add: dropped dedup_drop_def)

lemma put_length: "length (dict_put d k v) \<le> Suc (length d)"
  unfolding dict_put_def by (induction d) auto

lemma note_length: "length (note_keys now ks seen) \<le> length seen + length ks"
proof -
  have l: "length (foldl (\<lambda>d k. dict_put d k now) d ks) \<le> length d + length ks" for d
  proof (induction ks arbitrary: d)
    case (Cons k ks)
    show ?case using Cons[of "dict_put d k now"] put_length[of d k now] by simp
  qed simp
  let ?d = "if 4096 \<le> length seen then filter (\<lambda>(k, t). now - 2 < t) seen else seen"
  have "length ?d \<le> length seen" by simp
  with l[of ?d] show ?thesis unfolding note_keys_def by linarith
qed

lemma note_get:
  "dict_get (foldl (\<lambda>d k. dict_put d k now) d ks) k = (if k \<in> set ks then Some now else dict_get d k)"
  by (induction ks arbitrary: d) auto

lemma note_keeps:
  "dict_get seen k = Some t \<Longrightarrow> k \<notin> set ks \<Longrightarrow> now - 2 < t \<or> length seen < 4096 \<Longrightarrow> dict_get (note_keys now ks seen) k = Some t"
  by (auto simp: note_keys_def note_get get_filter)

lemma dedup_length: "length (dedup_step seen c) \<le> length seen + 2"
  by (rule dedup_cases[of "dd_now c" "dd_key c" "dd_time c" "dd_sequence c" "dd_ltp c" "dd_trusted c" seen])
    (use note_length in \<open>fastforce simp: dedup_step_def intro: le_trans\<close>)+

lemma dedup_keeps:
  assumes "dict_get seen k = Some t" "dd_now c - 2 < t \<or> length seen < 4096"
  shows "dict_get (dedup_step seen c) k = Some t"
proof (rule dedup_cases[of "dd_now c" "dd_key c" "dd_time c" "dd_sequence c" "dd_ltp c" "dd_trusted c" seen])
  fix ks
  assume ks: "\<forall>k \<in> set ks. dict_get seen k = None"
    "dedup_drop (dd_now c) (dd_key c) (dd_time c) (dd_sequence c) (dd_ltp c) (dd_trusted c) seen = (False, note_keys (dd_now c) ks seen)"
  then have "k \<notin> set ks" using assms(1) by auto
  from note_keeps[OF assms(1) this assms(2)] show ?thesis by (simp add: dedup_step_def ks(2))
qed (use assms in \<open>simp add: dedup_step_def\<close>)

lemma dedup_keeps_all:
  "dict_get seen k = Some t \<Longrightarrow> list_all (\<lambda>c. dd_now c - 2 < t) calls \<or> length seen + 2 * length calls \<le> 4096 \<Longrightarrow>
   dict_get (foldl dedup_step seen calls) k = Some t"
proof (induction calls arbitrary: seen)
  case (Cons c calls)
  have "dict_get (dedup_step seen c) k = Some t" by (rule dedup_keeps[OF Cons.prems(1)]) (use Cons.prems(2) in auto)
  moreover have "list_all (\<lambda>c. dd_now c - 2 < t) calls \<or> length (dedup_step seen c) + 2 * length calls \<le> 4096"
    using Cons.prems(2) dedup_length[of seen c] by auto
  ultimately show ?case using Cons.IH by simp
qed simp

text \<open>
  C27: which repeats are dropped. After a market frame is taken, whatever is taken in the next two
  seconds, a frame of the same instrument, time and sequence is dropped, and so is one of
  another time and sequence in the same second of the clock at the same price, unless it
  carries a time of the exchange. But the two seconds bound nothing from above: as long as the
  table has room, such frames are dropped however much later they come.
\<close>

theorem repeats_are_dropped:
  "dedup_drop now0 key ts seq ltp trusted seen = (False, seen1) \<and>
   (list_all (\<lambda>c. dd_now c - 2 < now0) calls \<or> length seen1 + 2 * length calls \<le> 4096) \<longrightarrow>
   (let seen2 = foldl dedup_step seen1 calls in
    dedup_drop now key ts seq ltp' trusted' seen2 = (True, seen2) \<and>
    (\<not> trusted \<and> ltp = Some p \<and> \<lfloor>now\<rfloor> = \<lfloor>now0\<rfloor> \<longrightarrow> dedup_drop now key ts' seq' (Some p) False seen2 = (True, seen2)))"
proof (intro impI)
  assume a: "dedup_drop now0 key ts seq ltp trusted seen = (False, seen1) \<and>
   (list_all (\<lambda>c. dd_now c - 2 < now0) calls \<or> length seen1 + 2 * length calls \<le> 4096)"
  obtain ks where ks: "set ks = {Seen_At key ts seq} \<union> (if trusted then {} else (\<lambda>p. Seen_Price key p \<lfloor>now0\<rfloor>) ` set_option ltp)"
    "seen1 = note_keys now0 ks seen"
    by (rule dedup_cases[of now0 key ts seq ltp trusted seen]) (use a in auto)
  have k: "dict_get (foldl dedup_step seen1 calls) k = Some now0" if "k \<in> set ks" for k
    by (rule dedup_keeps_all) (use a that in \<open>simp_all add: ks(2) note_keys_def note_get\<close>)
  show "let seen2 = foldl dedup_step seen1 calls in
    dedup_drop now key ts seq ltp' trusted' seen2 = (True, seen2) \<and>
    (\<not> trusted \<and> ltp = Some p \<and> \<lfloor>now\<rfloor> = \<lfloor>now0\<rfloor> \<longrightarrow> dedup_drop now key ts' seq' (Some p) False seen2 = (True, seen2))"
    using k by (auto simp: dedup_drop_def Let_def ks(1))
qed

theorem repeats_are_dropped_witness:
  "fst (dedup_drop 90000 ''TCS:NSE'' 5 None (Some 10) False
      (snd (dedup_drop 6 ''TCS:NSE'' 5 None (Some 10) False []))) = True"
proof -
  obtain seen1 where s: "dedup_drop 6 ''TCS:NSE'' 5 None (Some 10) False [] = (False, seen1)" "length seen1 \<le> 2"
    by (simp add: dedup_drop_def dict_put_def)
  then show ?thesis
    using repeats_are_dropped[of 6 "''TCS:NSE''" 5 None "Some 10" False "[]" seen1 "[]" 90000] by (simp add: Let_def)
qed

end
