(* ===== verification/Instrument_Id.thy ===== *)
theory Instrument_Id
  imports Broker_Routing Position_Manager Primitives
begin

text \<open>
  The identity of an instrument (\<open>domain/instruments/instrument_id.py\<close>) with its text form.
  The exchanges registered beyond the built-in ones are an argument. Messages leave out the
  quotes around a value and the list of allowed ones. Exponents of a strike are taken to be
  within the limits of \<open>Decimal\<close>. The ordering that the dataclass generates is left out.
\<close>

section \<open>Dates\<close>

record date =
  dt_year :: nat
  dt_month :: nat
  dt_day :: nat

definition leap_year :: "nat \<Rightarrow> bool" where
  "leap_year y \<longleftrightarrow> 4 dvd y \<and> (\<not> 100 dvd y \<or> 400 dvd y)"

definition days_in_month :: "nat \<Rightarrow> nat \<Rightarrow> nat" where
  "days_in_month y m = (if m = 2 then (if leap_year y then 29 else 28) else if m \<in> set [4, 6, 9, 11] then 30 else 31)"

definition date_ok :: "date \<Rightarrow> bool" where
  "date_ok d \<longleftrightarrow> 1 \<le> dt_year d \<and> dt_year d \<le> 9999 \<and> 1 \<le> dt_month d \<and> dt_month d \<le> 12 \<and> 1 \<le> dt_day d \<and>
     dt_day d \<le> days_in_month (dt_year d) (dt_month d)"

definition padded :: "nat \<Rightarrow> nat \<Rightarrow> string" where
  "padded w n = map (\<lambda>_. CHR ''0'') [0..<w - length (show_nat n)] @ show_nat n"

text \<open>\<open>strftime("%Y%m%d")\<close> does not pad the year.\<close>

definition date_text :: "date \<Rightarrow> string" where
  "date_text d = show_nat (dt_year d) @ padded 2 (dt_month d) @ padded 2 (dt_day d)"

definition iso_text :: "date \<Rightarrow> string" where
  "iso_text d = padded 4 (dt_year d) @ ''-'' @ padded 2 (dt_month d) @ ''-'' @ padded 2 (dt_day d)"

text \<open>The pattern of eight digits also lets a line end through, which is then refused.\<close>

definition looks_like_date :: "string \<Rightarrow> bool" where
  "looks_like_date p \<longleftrightarrow>
     length p = 8 \<and> list_all is_digit p \<or> length p = 9 \<and> last p = char_of (10 :: nat) \<and> list_all is_digit (butlast p)"

definition read_date :: "string \<Rightarrow> date res" where
  "read_date p =
     (let d = \<lparr>dt_year = read_nat (take 4 p), dt_month = read_nat (take 2 (drop 4 p)), dt_day = read_nat (drop 6 p)\<rparr> in
      if length p = 8 \<and> date_ok d then Inr d else Inl (ValueError (''time data '' @ p @ '' does not match format %Y%m%d'')))"

section \<open>Numbers\<close>

definition show_int :: "int \<Rightarrow> string" where
  "show_int n = (if n < 0 then ''-'' else []) @ show_nat (nat \<bar>n\<bar>)"

text \<open>\<open>Decimal(s)\<close>: blanks around and underscores anywhere are ignored.\<close>

definition unsign :: "string \<Rightarrow> string" where
  "unsign b = (if b \<noteq> [] \<and> hd b \<in> set ''+-'' then tl b else b)"

definition read_number :: "string \<Rightarrow> num_in option" where
  "read_number s =
     (let b = filter (\<lambda>c. c \<noteq> CHR ''_'') (py_strip s); neg = (b \<noteq> [] \<and> hd b = CHR ''-''); v = py_upper (unsign b);
          m = takeWhile (\<lambda>c. c \<noteq> CHR ''E'') v; x = drop (Suc (length m)) v;
          ip = takeWhile (\<lambda>c. c \<noteq> CHR ''.'') m; fp = drop (Suc (length ip)) m;
          k = (if hd x = CHR ''-'' then - 1 else 1) * int (read_nat (unsign x)) in
      if v = ''INF'' \<or> v = ''INFINITY'' then Some (Infin (\<not> neg))
      else if take 3 v = ''NAN'' \<and> list_all is_digit (drop 3 v) \<or> take 4 v = ''SNAN'' \<and> list_all is_digit (drop 4 v) then Some NaN
      else if ip @ fp = [] \<or> \<not> list_all is_digit (ip @ fp) then None
      else if length m = length v
      then Some (Fin ((if neg then - 1 else 1) * of_nat (read_nat (ip @ fp)) / 10 ^ length fp))
      else if unsign x = [] \<or> \<not> list_all is_digit (unsign x) then None
      else Some (Fin ((if neg then - 1 else 1) * of_nat (read_nat (ip @ fp)) / 10 ^ length fp * power_int 10 k)))"

section \<open>Identities\<close>

record instrument_id =
  ii_exchange :: string
  ii_underlying :: string
  ii_expiry :: "date option"
  ii_strike :: "num_in option"
  ii_right :: "string option"
  ii_kind :: "string option"

definition valid_exchanges :: "string list" where
  "valid_exchanges = [''NSE'', ''BSE'', ''NFO'', ''MCX'', ''CDS'']"

definition valid_rights :: "string list" where
  "valid_rights = [''CE'', ''PE'', ''FUT'']"

definition register_exchange :: "string \<Rightarrow> string list \<Rightarrow> string list" where
  "register_exchange code extras = List.insert (normalize_exchange code) extras"

definition allowed_exchanges :: "string list \<Rightarrow> string set" where
  "allowed_exchanges extras = set valid_exchanges \<union> set extras"

text \<open>What the constructor makes of its arguments.\<close>

definition mk_instrument_id :: "string list \<Rightarrow> instrument_id \<Rightarrow> instrument_id res" where
  "mk_instrument_id extras i =
     (if (case ii_strike i of Some (Malformed t) \<Rightarrow> True | _ \<Rightarrow> False) then Inl InvalidOperation
      else
        (case (case ii_kind i of None \<Rightarrow> Some None | Some k \<Rightarrow> map_option (\<lambda>a. Some (asset_kind_value a)) (asset_kind_parse k)) of
           None \<Rightarrow> Inl (ValueError (''Invalid AssetKind: '' @ the (ii_kind i)))
         | Some k \<Rightarrow>
             if normalize_exchange (ii_exchange i) \<notin> allowed_exchanges extras
             then Inl (ValueError (''Invalid exchange: '' @ ii_exchange i))
             else
               (case ii_right i of
                  None \<Rightarrow> Inr (i\<lparr>ii_kind := k\<rparr>)
                | Some r \<Rightarrow>
                    if r \<noteq> [] \<and> py_upper r \<notin> set valid_rights then Inl (ValueError (''Invalid right: '' @ r))
                    else Inr (i\<lparr>ii_kind := k\<rparr>))))"

definition cash_id :: "asset_kind \<Rightarrow> string list \<Rightarrow> string \<Rightarrow> string \<Rightarrow> instrument_id res" where
  "cash_id kind extras exch symb =
     mk_instrument_id extras
       \<lparr>ii_exchange = normalize_exchange exch, ii_underlying = normalize_symbol symb, ii_expiry = None, ii_strike = None,
        ii_right = None, ii_kind = Some (asset_kind_value kind)\<rparr>"

definition equity_id :: "string list \<Rightarrow> string \<Rightarrow> string \<Rightarrow> instrument_id res" where
  "equity_id = cash_id EQUITY"

definition index_id :: "string list \<Rightarrow> string \<Rightarrow> string \<Rightarrow> instrument_id res" where
  "index_id = cash_id INDEX"

definition etf_id :: "string list \<Rightarrow> string \<Rightarrow> string \<Rightarrow> instrument_id res" where
  "etf_id = cash_id ETF"

definition spot_id :: "string list \<Rightarrow> string \<Rightarrow> string \<Rightarrow> instrument_id res" where
  "spot_id = cash_id SPOT"

definition currency_id :: "string list \<Rightarrow> string \<Rightarrow> string \<Rightarrow> instrument_id res" where
  "currency_id = cash_id CURRENCY"

definition future_id :: "string list \<Rightarrow> string \<Rightarrow> string \<Rightarrow> date \<Rightarrow> string option \<Rightarrow> instrument_id res" where
  "future_id extras exch und expiry kind =
     (let k = (case kind of None \<Rightarrow> Some FUTURES | Some t \<Rightarrow> asset_kind_parse t);
          k1 = (if k = Some FUTURES \<and> normalize_exchange exch = ''MCX'' then Some COMMODITY else k) in
      mk_instrument_id extras
        \<lparr>ii_exchange = normalize_exchange exch, ii_underlying = normalize_symbol und, ii_expiry = Some expiry, ii_strike = None,
         ii_right = Some ''FUT'', ii_kind = Some (asset_kind_value (case k1 of None \<Rightarrow> FUTURES | Some a \<Rightarrow> a))\<rparr>)"

definition commodity_id :: "string list \<Rightarrow> string \<Rightarrow> string \<Rightarrow> date \<Rightarrow> instrument_id res" where
  "commodity_id extras exch und expiry = future_id extras exch und expiry (Some ''COMMODITY'')"

definition option_id :: "string list \<Rightarrow> string \<Rightarrow> string \<Rightarrow> date \<Rightarrow> num_in \<Rightarrow> string \<Rightarrow> instrument_id res" where
  "option_id extras exch und expiry strike right =
     mk_instrument_id extras
       \<lparr>ii_exchange = normalize_exchange exch, ii_underlying = normalize_symbol und, ii_expiry = Some expiry,
        ii_strike = Some strike, ii_right = Some (normalize_symbol right), ii_kind = Some ''OPTIONS''\<rparr>"

section \<open>Texts\<close>

fun colon_join :: "string list \<Rightarrow> string" where
  "colon_join [] = []"
| "colon_join [x] = x"
| "colon_join (x # xs) = x @ '':'' @ colon_join xs"

fun strike_int :: "num_in \<Rightarrow> int res" where
  "strike_int (Fin x) = Inr (trunc_int x)"
| "strike_int (Infin s) = Inl (External ''cannot convert Infinity to integer'')"
| "strike_int v = Inl (ValueError ''cannot convert NaN to integer'')"

definition strike_text :: "instrument_id \<Rightarrow> string option res" where
  "strike_text i =
     (case ii_strike i of
        None \<Rightarrow> Inr None
      | Some x \<Rightarrow> (case strike_int x of Inl e \<Rightarrow> Inl e | Inr n \<Rightarrow> Inr (Some (show_int n))))"

definition opt_list :: "'a option \<Rightarrow> 'a list" where
  "opt_list x = (case x of None \<Rightarrow> [] | Some y \<Rightarrow> [y])"

definition id_text :: "instrument_id \<Rightarrow> string res" where
  "id_text i =
     (case strike_text i of
        Inl e \<Rightarrow> Inl e
      | Inr st \<Rightarrow>
          Inr (colon_join ([ii_exchange i, ii_underlying i] @ opt_list (map_option date_text (ii_expiry i)) @ opt_list st @
                 filter (\<lambda>r. r \<noteq> []) (opt_list (ii_right i)))))"

fun py_split :: "char \<Rightarrow> string \<Rightarrow> string list" where
  "py_split c [] = [[]]"
| "py_split c (x # s) = (if x = c then [] # py_split c s else (x # hd (py_split c s)) # tl (py_split c s))"

text \<open>\<open>len(parts) > n and parts[n]\<close>\<close>

definition part :: "nat \<Rightarrow> string list \<Rightarrow> string option" where
  "part n ps = (if n < length ps \<and> ps ! n \<noteq> [] then Some (ps ! n) else None)"

definition parse_third :: "string list \<Rightarrow> (date option \<times> string option) res" where
  "parse_third ps =
     (case part 2 ps of
        None \<Rightarrow> Inr (None, None)
      | Some p \<Rightarrow>
          if looks_like_date p then (case read_date p of Inl e \<Rightarrow> Inl e | Inr d \<Rightarrow> Inr (Some d, None))
          else Inr (None, if py_upper p = ''FUT'' then Some ''FUT'' else None))"

definition parse_fourth :: "string list \<Rightarrow> string option \<Rightarrow> num_in option \<times> string option" where
  "parse_fourth ps right =
     (case part 3 ps of
        None \<Rightarrow> (None, right)
      | Some p \<Rightarrow>
          (case read_number p of
             Some x \<Rightarrow> (Some x, right)
           | None \<Rightarrow> (None, if py_upper p = ''FUT'' then Some ''FUT'' else right)))"

definition id_parse :: "string list \<Rightarrow> string \<Rightarrow> instrument_id res" where
  "id_parse extras s =
     (let ps = py_split CHR '':'' (py_strip s) in
      if length ps < 2 then Inl (ValueError (''Invalid InstrumentId format: '' @ s))
      else
        (case parse_third ps of
           Inl e \<Rightarrow> Inl e
         | Inr (expiry, r0) \<Rightarrow>
             (case parse_fourth ps r0 of
                (strike, r1) \<Rightarrow>
                  (let r2 = (case part 4 ps of None \<Rightarrow> r1 | Some p \<Rightarrow> Some (py_upper p)) in
                   mk_instrument_id extras
                     \<lparr>ii_exchange = py_upper (ps ! 0), ii_underlying = py_upper (ps ! 1), ii_expiry = expiry, ii_strike = strike,
                      ii_right = (if expiry \<noteq> None \<and> r2 = None then Some ''FUT'' else r2), ii_kind = None\<rparr>))))"

section \<open>Properties of an identity\<close>

definition asset_type :: "instrument_id \<Rightarrow> string" where
  "asset_type i =
     (case ii_kind i of
        Some k \<Rightarrow> k
      | None \<Rightarrow>
          if ii_right i = Some ''FUT'' then ''FUTURES''
          else if ii_right i = Some ''CE'' \<or> ii_right i = Some ''PE'' then ''OPTIONS''
          else if ii_underlying i \<in> set [''NIFTY'', ''BANKNIFTY'', ''FINNIFTY'', ''SENSEX'', ''MIDCPNIFTY''] then ''INDEX''
          else ''EQUITY'')"

definition id_asset_kind :: "instrument_id \<Rightarrow> asset_kind" where
  "id_asset_kind i = (case asset_kind_parse (asset_type i) of None \<Rightarrow> EQUITY | Some k \<Rightarrow> k)"

definition is_equity_id :: "instrument_id \<Rightarrow> bool" where
  "is_equity_id i \<longleftrightarrow> asset_type i \<in> set [''EQUITY'', ''ETF'', ''BOND'']"

definition is_index_id :: "instrument_id \<Rightarrow> bool" where
  "is_index_id i \<longleftrightarrow> asset_type i = ''INDEX''"

definition is_future_id :: "instrument_id \<Rightarrow> bool" where
  "is_future_id i \<longleftrightarrow> asset_type i \<in> set [''FUTURES'', ''COMMODITY'']"

definition is_option_id :: "instrument_id \<Rightarrow> bool" where
  "is_option_id i \<longleftrightarrow> asset_type i = ''OPTIONS''"

definition is_etf_id :: "instrument_id \<Rightarrow> bool" where
  "is_etf_id i \<longleftrightarrow> asset_type i = ''ETF''"

definition is_commodity_id :: "instrument_id \<Rightarrow> bool" where
  "is_commodity_id i \<longleftrightarrow> asset_type i = ''COMMODITY''"

definition is_spot_id :: "instrument_id \<Rightarrow> bool" where
  "is_spot_id i \<longleftrightarrow> asset_type i = ''SPOT''"

definition is_call :: "instrument_id \<Rightarrow> bool" where
  "is_call i \<longleftrightarrow> ii_right i = Some ''CE''"

definition is_put :: "instrument_id \<Rightarrow> bool" where
  "is_put i \<longleftrightarrow> ii_right i = Some ''PE''"

definition id_key :: "instrument_id \<Rightarrow> (string \<times> string \<times> string option \<times> string option \<times> string option) res" where
  "id_key i =
     (case strike_text i of
        Inl e \<Rightarrow> Inl e
      | Inr st \<Rightarrow> Inr (ii_exchange i, ii_underlying i, map_option iso_text (ii_expiry i), st, ii_right i))"

definition id_eq :: "instrument_id \<Rightarrow> instrument_id \<Rightarrow> bool res" where
  "id_eq i j = (case id_key i of Inl e \<Rightarrow> Inl e | Inr a \<Rightarrow> (case id_key j of Inl e \<Rightarrow> Inl e | Inr b \<Rightarrow> Inr (a = b)))"

definition with_expiry :: "string list \<Rightarrow> instrument_id \<Rightarrow> date \<Rightarrow> instrument_id res" where
  "with_expiry extras i d = mk_instrument_id extras (i\<lparr>ii_expiry := Some d\<rparr>)"

definition with_strike :: "string list \<Rightarrow> instrument_id \<Rightarrow> num_in \<Rightarrow> instrument_id res" where
  "with_strike extras i x = mk_instrument_id extras (i\<lparr>ii_strike := Some x\<rparr>)"

definition to_equity :: "string list \<Rightarrow> instrument_id \<Rightarrow> instrument_id res" where
  "to_equity extras i = equity_id extras (ii_exchange i) (ii_underlying i)"

section \<open>Facts about texts\<close>

lemma digit_chars:
  assumes "is_digit c"
  shows "\<not> is_space c" "up_char c = c" "c \<noteq> CHR ''_''" "c \<notin> set ''+-:.EINSF''"
proof -
  have "list_all (\<lambda>c. \<not> is_space c \<and> up_char c = c \<and> c \<noteq> CHR ''_'' \<and> c \<notin> set ''+-:.EINSF'') ''0123456789''" by code_simp
  then have "\<not> is_space c \<and> up_char c = c \<and> c \<noteq> CHR ''_'' \<and> c \<notin> set ''+-:.EINSF''"
    using assms unfolding is_digit_def list_all_iff by blast
  then show "\<not> is_space c" "up_char c = c" "c \<noteq> CHR ''_''" "c \<notin> set ''+-:.EINSF''" by blast+
qed

lemma digit_char_digit: "d < 10 \<Longrightarrow> is_digit (digit_char d)"
proof -
  assume d: "d < 10"
  have "list_all (\<lambda>d. is_digit (digit_char d)) [0..<10]" by code_simp
  with d show ?thesis by (simp add: list_all_iff)
qed

lemma show_nat_digits: "list_all is_digit (show_nat n)" and show_nat_ne: "show_nat n \<noteq> []"
proof -
  show "list_all is_digit (show_nat n)"
    by (induction n rule: show_nat.induct) (subst show_nat.simps, simp add: digit_char_digit)
  show "show_nat n \<noteq> []" by (subst show_nat.simps) simp
qed

lemma show_nat_length: "n < 10 ^ Suc k \<Longrightarrow> length (show_nat n) \<le> Suc k" "10 ^ k \<le> n \<Longrightarrow> k < length (show_nat n)"
proof -
  show "n < 10 ^ Suc k \<Longrightarrow> length (show_nat n) \<le> Suc k"
  proof (induction k arbitrary: n)
    case 0
    then show ?case by (subst show_nat.simps) simp
  next
    case (Suc k)
    then have "n div 10 < 10 ^ Suc k" by (simp add: less_mult_imp_div_less)
    then show ?case using Suc.IH[of "n div 10"] by (subst show_nat.simps) simp
  qed
  show "10 ^ k \<le> n \<Longrightarrow> k < length (show_nat n)"
  proof (induction k arbitrary: n)
    case 0
    then show ?case using show_nat_ne[of n] by simp
  next
    case (Suc k)
    then have "10 ^ k \<le> n div 10" by (simp add: less_eq_div_iff_mult_less_eq)
    moreover have "\<not> n < 10" using Suc.prems one_le_power[of "10 :: nat" k] unfolding power_Suc by linarith
    ultimately show ?case using Suc.IH[of "n div 10"] by (subst show_nat.simps) simp
  qed
qed

lemma padded_length: "n < 10 ^ w \<Longrightarrow> 0 < w \<Longrightarrow> length (padded w n) = w"
  using show_nat_length(1)[of n "w - 1"] by (simp add: padded_def)

lemma padded_digits: "list_all is_digit (padded w n)"
proof -
  have "is_digit CHR ''0''" by (simp add: is_digit_def)
  then have "list_all is_digit (replicate k CHR ''0'')" for k by (simp add: list_all_iff)
  then show ?thesis using show_nat_digits[of n] by (simp add: padded_def map_replicate_const)
qed

lemma read_zeros: "read_nat (replicate k CHR ''0'' @ s) = read_nat s"
  by (induction k) (simp_all add: read_nat_def)

lemma read_padded [simp]: "read_nat (padded w n) = n"
  by (simp add: padded_def map_replicate_const read_zeros)

lemma date_fields:
  assumes "date_ok d"
  shows "dt_year d < 10 ^ 4" "dt_month d < 10 ^ 2" "dt_day d < 10 ^ 2"
  using assms by (auto simp: date_ok_def days_in_month_def split: if_splits)

lemma date_text_back:
  assumes "date_ok d" "1000 \<le> dt_year d"
  shows "looks_like_date (date_text d)" "read_date (date_text d) = Inr d"
proof -
  note f = date_fields[OF assms(1)]
  have l: "length (show_nat (dt_year d)) = 4" "length (padded 2 (dt_month d)) = 2" "length (padded 2 (dt_day d)) = 2"
    using show_nat_length(1)[of "dt_year d" 3] show_nat_length(2)[of 3 "dt_year d"] f(1) assms(2) padded_length[OF f(2)] padded_length[OF f(3)]
    by simp_all
  show "looks_like_date (date_text d)"
    using l show_nat_digits padded_digits by (simp add: looks_like_date_def date_text_def)
  show "read_date (date_text d) = Inr d"
    using assms(1) l by (cases d) (simp add: read_date_def date_text_def Let_def)
qed

lemma iso_text_inject:
  assumes "date_ok d" "date_ok e" "iso_text d = iso_text e"
  shows "d = e"
proof -
  note f = date_fields[OF assms(1)] and g = date_fields[OF assms(2)]
  have l: "length (padded 4 (dt_year d)) = length (padded 4 (dt_year e))" "length (padded 2 (dt_month d)) = length (padded 2 (dt_month e))"
    using padded_length[OF f(1)] padded_length[OF g(1)] padded_length[OF f(2)] padded_length[OF g(2)] by simp_all
  from assms(3) l have "padded 4 (dt_year d) = padded 4 (dt_year e)" "padded 2 (dt_month d) = padded 2 (dt_month e)"
    "padded 2 (dt_day d) = padded 2 (dt_day e)"
    by (simp_all add: iso_text_def)
  then have "dt_year d = dt_year e" "dt_month d = dt_month e" "dt_day d = dt_day e" by (metis read_padded)+
  then show ?thesis by simp
qed

lemma strip_id_iff: "py_strip s = s \<longleftrightarrow> s = [] \<or> \<not> is_space (hd s) \<and> \<not> is_space (last s)"
proof (cases "s = []")
  case False
  let ?t = "dropWhile is_space s"
  have le: "length (py_strip s) \<le> length ?t" unfolding py_strip_def by (metis length_dropWhile_le length_rev)
  show ?thesis
  proof (cases "is_space (hd s)")
    case True
    then have "?t = dropWhile is_space (tl s)" using False by (cases s) auto
    then have "length ?t < length s" using length_dropWhile_le[of is_space "tl s"] False by (simp add: le_less_trans)
    then show ?thesis using le True False by auto
  next
    case h: False
    then have t: "?t = s" using False by (cases s) auto
    obtain u c where u: "s = u @ [c]" using False by (cases s rule: rev_cases) auto
    show ?thesis
    proof (cases "is_space c")
      case True
      then have "length (py_strip s) \<le> length u"
        unfolding py_strip_def t by (simp add: u) (metis length_dropWhile_le length_rev)
      then show ?thesis using True u by auto
    next
      case c: False
      then have "py_strip s = s" unfolding py_strip_def t by (simp add: u)
      then show ?thesis using h c u by simp
    qed
  qed
qed (simp add: py_strip_def)

lemma digits_strip: "list_all is_digit s \<Longrightarrow> py_strip s = s"
  unfolding strip_id_iff list_all_iff using digit_chars(1) by (metis hd_in_set last_in_set)

lemma digits_upper: "list_all is_digit s \<Longrightarrow> py_upper s = s"
  unfolding py_upper_def list_all_iff using digit_chars(2) by (simp add: map_idI)

lemma read_number_digits:
  assumes "list_all is_digit u" "u \<noteq> []" "s = u \<or> s = CHR ''-'' # u"
  shows "read_number s = Some (Fin ((if s = u then 1 else - 1) * of_nat (read_nat u)))"
proof -
  have d: "\<And>c. c \<in> set u \<Longrightarrow> is_digit c" using assms(1) by (simp add: list_all_iff)
  have hu: "hd u \<in> set u" "last u \<in> set u" using assms(2) by simp_all
  note h = digit_chars[OF d[OF hu(1)]]
  have s: "py_strip s = s" unfolding strip_id_iff using assms(2,3) digit_chars(1)[OF d[OF hu(1)]] digit_chars(1)[OF d[OF hu(2)]]
    by (auto simp: is_space_def)
  have us: "CHR ''_'' \<notin> set u" using d digit_chars(3) by blast
  have f: "filter (\<lambda>c. c \<noteq> CHR ''_'') s = s" using assms(3) us by (auto simp: filter_id_conv)
  have neg: "(s \<noteq> [] \<and> hd s = CHR ''-'') = (s \<noteq> u)" using assms(2,3) h(4) by auto
  have u: "py_upper (unsign s) = u" using assms(2,3) h(4) digits_upper[OF assms(1)] by (auto simp: unsign_def)
  have e: "takeWhile (\<lambda>c. c \<noteq> CHR ''E'') u = u" "takeWhile (\<lambda>c. c \<noteq> CHR ''.'') u = u"
    using d digit_chars(4) by (auto simp: takeWhile_eq_all_conv)
  have n: "u \<noteq> ''INF''" "u \<noteq> ''INFINITY''" "take 3 u \<noteq> ''NAN''" "take 4 u \<noteq> ''SNAN''"
    using h(4) assms(2) by (cases u; auto)+
  show ?thesis unfolding read_number_def s f Let_def u e neg using n assms(1,2) by simp
qed

lemma show_int_cases: "show_int n = show_nat (nat \<bar>n\<bar>) \<or> show_int n = CHR ''-'' # show_nat (nat \<bar>n\<bar>)"
  by (simp add: show_int_def)

lemma read_show_int: "read_number (show_int n) = Some (Fin (of_int n))"
proof -
  have "CHR ''-'' # show_nat k \<noteq> show_nat k" for k by simp
  then show ?thesis
    using read_number_digits[OF show_nat_digits show_nat_ne show_int_cases, of n] by (auto simp: show_int_def)
qed

lemma show_int_chars: "c \<in> set (show_int n) \<Longrightarrow> is_digit c \<or> c = CHR ''-''"
  using show_nat_digits[of "nat \<bar>n\<bar>"] by (auto simp: show_int_def list_all_iff split: if_splits)

lemma show_int_ne: "show_int n \<noteq> []"
  using show_nat_ne by (simp add: show_int_def)

lemma show_int_inject: "show_int m = show_int n \<Longrightarrow> m = n"
  by (metis read_show_int num_in.inject(1) of_int_eq_iff option.inject)

text \<open>Joining with colons and splitting at them.\<close>

lemma py_split_ne [simp]: "py_split c s \<noteq> []"
  by (cases s) auto

lemma py_split_none: "c \<notin> set s \<Longrightarrow> py_split c s = [s]"
  by (induction s) auto

lemma py_split_append: "c \<notin> set a \<Longrightarrow> py_split c (a @ c # b) = a # py_split c b"
proof (induction a)
  case (Cons x a)
  then have "py_split c (a @ c # b) = a # py_split c b" "x \<noteq> c" by auto
  then show ?case by simp
qed simp

lemma split_join: "ps \<noteq> [] \<Longrightarrow> \<forall>p \<in> set ps. CHR '':'' \<notin> set p \<Longrightarrow> py_split CHR '':'' (colon_join ps) = ps"
proof (induction ps rule: colon_join.induct)
  case (3 x y xs)
  then have x: "CHR '':'' \<notin> set x" and ih: "py_split CHR '':'' (colon_join (y # xs)) = y # xs" by simp_all
  show ?case using py_split_append[OF x, of "colon_join (y # xs)"] unfolding ih by (simp del: py_split.simps)
qed (simp_all add: py_split_none del: py_split.simps)

lemma last_join:
  "xs \<noteq> [] \<Longrightarrow> last xs \<noteq> [] \<Longrightarrow> colon_join xs \<noteq> [] \<and> last (colon_join xs) = last (last xs)"
  "2 \<le> length xs \<Longrightarrow> last xs = [] \<Longrightarrow> last (colon_join xs) = CHR '':''"
proof -
  show "xs \<noteq> [] \<Longrightarrow> last xs \<noteq> [] \<Longrightarrow> colon_join xs \<noteq> [] \<and> last (colon_join xs) = last (last xs)"
    by (induction xs rule: colon_join.induct) auto
  show "2 \<le> length xs \<Longrightarrow> last xs = [] \<Longrightarrow> last (colon_join xs) = CHR '':''"
  proof (induction xs rule: colon_join.induct)
    case (3 x y xs)
    then show ?case by (cases xs) auto
  qed auto
qed

lemma join_strip:
  assumes "py_strip (hd ps) = hd ps" "py_strip (last ps) = last ps" "2 \<le> length ps"
  shows "py_strip (colon_join ps) = colon_join ps"
proof -
  obtain a b rest where ps: "ps = a # b # rest" using assms(3) by (cases ps; cases "tl ps") auto
  have "\<not> is_space (hd (colon_join ps))" using assms(1) unfolding strip_id_iff ps by (auto simp: hd_append is_space_def)
  moreover have "\<not> is_space (last (colon_join ps))"
    using last_join(1)[of ps] last_join(2)[of ps] assms(2,3) unfolding strip_id_iff
    by (cases "last ps = []") (auto simp: is_space_def ps)
  ultimately show ?thesis unfolding strip_id_iff by blast
qed

section \<open>Facts about identities\<close>

text \<open>What every constructed identity is like.\<close>

definition right_ok :: "string option \<Rightarrow> bool" where
  "right_ok r \<longleftrightarrow> (case r of None \<Rightarrow> True | Some t \<Rightarrow> t = [] \<or> py_upper t \<in> set valid_rights)"

definition id_ok :: "string list \<Rightarrow> instrument_id \<Rightarrow> bool" where
  "id_ok extras i \<longleftrightarrow>
     normalize_exchange (ii_exchange i) \<in> allowed_exchanges extras \<and>
     right_ok (ii_right i) \<and>
     (case ii_kind i of None \<Rightarrow> True | Some k \<Rightarrow> k \<in> asset_kind_value ` set asset_kinds) \<and>
     (case ii_strike i of Some (Malformed t) \<Rightarrow> False | _ \<Rightarrow> True)"

lemma asset_kinds_all: "k \<in> set asset_kinds"
  by (cases k) (simp_all add: asset_kinds_def)

lemma asset_kind_parse_value [simp]: "asset_kind_parse (asset_kind_value k) = Some k"
proof -
  have "list_all (\<lambda>k. asset_kind_parse (asset_kind_value k) = Some k) asset_kinds" by code_simp
  then show ?thesis using asset_kinds_all by (simp add: list_all_iff)
qed

lemma mk_instrument_id_cases:
  assumes "mk_instrument_id extras i = Inr j"
  obtains k where "j = i\<lparr>ii_kind := k\<rparr>" "normalize_exchange (ii_exchange i) \<in> allowed_exchanges extras" "right_ok (ii_right i)"
    "case ii_strike i of Some (Malformed t) \<Rightarrow> False | _ \<Rightarrow> True"
    "case ii_kind i of None \<Rightarrow> k = None | Some t \<Rightarrow> \<exists>a. asset_kind_parse t = Some a \<and> k = Some (asset_kind_value a)"
proof -
  have m: "case ii_strike i of Some (Malformed t) \<Rightarrow> False | _ \<Rightarrow> True"
    using assms by (auto simp: mk_instrument_id_def split: option.splits num_in.splits if_splits)
  then have "\<not> (case ii_strike i of Some (Malformed t) \<Rightarrow> True | _ \<Rightarrow> False)" by (auto split: option.splits num_in.splits)
  note 1 = assms[unfolded mk_instrument_id_def if_not_P[OF this]]
  then obtain k where k: "(case ii_kind i of None \<Rightarrow> Some None
      | Some k \<Rightarrow> map_option (\<lambda>a. Some (asset_kind_value a)) (asset_kind_parse k)) = Some k"
    by (cases "case ii_kind i of None \<Rightarrow> Some None
      | Some k \<Rightarrow> map_option (\<lambda>a. Some (asset_kind_value a)) (asset_kind_parse k)") simp_all
  from 1 have "normalize_exchange (ii_exchange i) \<in> allowed_exchanges extras \<and> right_ok (ii_right i) \<and> j = i\<lparr>ii_kind := k\<rparr>"
    unfolding k by (simp add: right_ok_def split: if_splits option.splits)
  with m k show thesis by (intro that[of k]) (auto split: option.splits)
qed

lemma mk_instrument_id_ok:
  assumes "mk_instrument_id extras i = Inr j"
  shows "id_ok extras j" "\<exists>k. j = i\<lparr>ii_kind := k\<rparr> \<and> (k = None \<longleftrightarrow> ii_kind i = None)"
proof -
  obtain k where k: "j = i\<lparr>ii_kind := k\<rparr>" "normalize_exchange (ii_exchange i) \<in> allowed_exchanges extras" "right_ok (ii_right i)"
    "case ii_strike i of Some (Malformed t) \<Rightarrow> False | _ \<Rightarrow> True"
    "case ii_kind i of None \<Rightarrow> k = None | Some t \<Rightarrow> \<exists>a. asset_kind_parse t = Some a \<and> k = Some (asset_kind_value a)"
    by (rule mk_instrument_id_cases[OF assms])
  have "(case k of None \<Rightarrow> True | Some t \<Rightarrow> t \<in> asset_kind_value ` set asset_kinds) \<and> (k = None \<longleftrightarrow> ii_kind i = None)"
    using k(5) asset_kinds_all by (cases "ii_kind i") auto
  note x = this
  show "id_ok extras j" using x k(2-4) unfolding k(1) by (simp add: id_ok_def)
  show "\<exists>k. j = i\<lparr>ii_kind := k\<rparr> \<and> (k = None \<longleftrightarrow> ii_kind i = None)"
    by (rule exI[of _ k], rule conjI[OF k(1) conjunct2[OF x]])
qed

lemma mk_instrument_id_stays: "id_ok extras i \<Longrightarrow> mk_instrument_id extras i = Inr i"
proof -
  assume i: "id_ok extras i"
  then have m: "\<not> (case ii_strike i of Some (Malformed t) \<Rightarrow> True | _ \<Rightarrow> False)"
    by (auto simp: id_ok_def split: option.splits num_in.splits)
  have k: "(case ii_kind i of None \<Rightarrow> Some None
      | Some k \<Rightarrow> map_option (\<lambda>a. Some (asset_kind_value a)) (asset_kind_parse k)) = Some (ii_kind i)"
    using i by (auto simp: id_ok_def split: option.splits)
  show ?thesis unfolding mk_instrument_id_def if_not_P[OF m] k using i by (auto simp: id_ok_def right_ok_def split: option.splits)
qed

text \<open>Identities written as the code writes them: in capitals, stripped, with a finite strike.\<close>

definition plain :: "instrument_id \<Rightarrow> bool" where
  "plain i \<longleftrightarrow>
     normalize_exchange (ii_exchange i) = ii_exchange i \<and> normalize_symbol (ii_underlying i) = ii_underlying i \<and>
     CHR '':'' \<notin> set (ii_exchange i) \<and> CHR '':'' \<notin> set (ii_underlying i) \<and>
     map_option py_upper (ii_right i) = ii_right i \<and>
     (case ii_expiry i of None \<Rightarrow> True | Some d \<Rightarrow> date_ok d \<and> 1000 \<le> dt_year d) \<and>
     (case ii_strike i of None \<Rightarrow> True | Some x \<Rightarrow> \<exists>a. x = Fin a)"

definition parses_back :: "instrument_id \<Rightarrow> bool" where
  "parses_back i \<longleftrightarrow>
     (case (ii_expiry i, ii_strike i) of
        (None, None) \<Rightarrow> ii_right i = None \<or> ii_right i = Some ''FUT''
      | (None, Some x) \<Rightarrow> False
      | (Some d, None) \<Rightarrow> ii_right i = Some ''FUT''
      | (Some d, Some x) \<Rightarrow> ii_right i \<noteq> None \<and> ii_right i \<noteq> Some [])"

lemma normalized:
  assumes "normalize_exchange s = s"
  shows "py_strip s = s" "py_upper s = s"
proof -
  have n: "py_upper (py_strip s) = s" using assms by (simp add: normalize_exchange_def)
  then show "py_strip s = s" by (metis py_strip_upper py_strip_idem)
  with n show "py_upper s = s" by simp
qed

text \<open>The parts of the text of a plain identity, and what is read from them.\<close>

definition parts_of :: "instrument_id \<Rightarrow> string option \<Rightarrow> string list" where
  "parts_of i st =
     [ii_exchange i, ii_underlying i] @ opt_list (map_option date_text (ii_expiry i)) @ opt_list st @
       filter (\<lambda>r. r \<noteq> []) (opt_list (ii_right i))"

lemma right_texts:
  "read_number ''CE'' = None" "read_number ''PE'' = None" "read_number ''FUT'' = None"
  "\<not> looks_like_date ''CE''" "\<not> looks_like_date ''PE''" "\<not> looks_like_date ''FUT''"
  "py_upper ''CE'' = ''CE''" "py_upper ''PE'' = ''PE''" "py_upper ''FUT'' = ''FUT''"
  by code_simp+

lemma plain_right:
  assumes "plain i" "right_ok (ii_right i)"
  obtains "ii_right i = None" | "ii_right i = Some []" | "ii_right i = Some ''CE''" | "ii_right i = Some ''PE''" | "ii_right i = Some ''FUT''"
  using assms by (cases "ii_right i") (auto simp: plain_def right_ok_def valid_rights_def)

lemma colon_free:
  "CHR '':'' \<notin> set (date_text d)" "CHR '':'' \<notin> set (show_int n)" "date_text d \<noteq> []"
  "py_strip (date_text d) = date_text d" "py_strip (show_int n) = show_int n"
proof -
  have d: "list_all is_digit (date_text d)" using show_nat_digits padded_digits by (simp add: date_text_def)
  have c: "\<not> is_digit CHR '':''" by (simp add: is_digit_def)
  show "CHR '':'' \<notin> set (date_text d)" using d c by (auto simp: list_all_iff)
  show "CHR '':'' \<notin> set (show_int n)" using show_int_chars[of "CHR '':''" n] c by auto
  show "date_text d \<noteq> []" using show_nat_ne by (simp add: date_text_def)
  show "py_strip (date_text d) = date_text d" using d by (rule digits_strip)
  have "\<not> is_space c" if "c \<in> set (show_int n)" for c
    using show_int_chars[OF that] digit_chars(1)[of c] by (auto simp: is_space_def)
  then show "py_strip (show_int n) = show_int n"
    unfolding strip_id_iff using show_int_ne[of n] by (metis hd_in_set last_in_set)
qed

lemma parts_read:
  assumes "plain i" "right_ok (ii_right i)" "st = None \<or> (\<exists>n. st = Some (show_int n))"
  shows "py_split CHR '':'' (py_strip (colon_join (parts_of i st))) = parts_of i st"
proof -
  have n: "normalize_exchange (ii_exchange i) = ii_exchange i" "normalize_exchange (ii_underlying i) = ii_underlying i"
    "CHR '':'' \<notin> set (ii_exchange i)" "CHR '':'' \<notin> set (ii_underlying i)"
    using assms(1) by (simp_all add: plain_def normalize_exchange_def normalize_symbol_def)
  have r: "set (filter (\<lambda>r. r \<noteq> []) (opt_list (ii_right i))) \<subseteq> {''CE'', ''PE'', ''FUT''}"
    by (rule plain_right[OF assms(1,2)]) (simp_all add: opt_list_def)
  have p: "CHR '':'' \<notin> set p \<and> py_strip p = p" if pm: "p \<in> set (parts_of i st)" for p
  proof -
    consider "p = ii_exchange i" | "p = ii_underlying i" | d where "p = date_text d" | n where "p = show_int n" | "p \<in> {''CE'', ''PE'', ''FUT''}"
    proof -
      have "p \<in> {ii_exchange i, ii_underlying i} \<or> p \<in> set (opt_list (map_option date_text (ii_expiry i))) \<or> p \<in> set (opt_list st) \<or>
          p \<in> set (filter (\<lambda>r. r \<noteq> []) (opt_list (ii_right i)))"
        using pm unfolding parts_of_def set_append by auto
      moreover have "\<exists>d. p = date_text d" if "p \<in> set (opt_list (map_option date_text (ii_expiry i)))"
        using that by (cases "ii_expiry i") (auto simp: opt_list_def)
      moreover have "\<exists>n. p = show_int n" if "p \<in> set (opt_list st)" using that assms(3) by (auto simp: opt_list_def)
      ultimately show thesis using r that by blast
    qed
    then show ?thesis
    proof cases
      case 5
      have "list_all (\<lambda>p. CHR '':'' \<notin> set p \<and> py_strip p = p) [''CE'', ''PE'', ''FUT'']" by code_simp
      with 5 show ?thesis by auto
    qed (use n normalized(1) colon_free in auto)
  qed
  have "parts_of i st \<noteq> []" and l: "2 \<le> length (parts_of i st)" by (simp_all add: parts_of_def)
  then have h: "hd (parts_of i st) \<in> set (parts_of i st)" "last (parts_of i st) \<in> set (parts_of i st)" "2 \<le> length (parts_of i st)"
    by simp_all
  have "py_strip (colon_join (parts_of i st)) = colon_join (parts_of i st)"
    using p[OF h(1)] p[OF h(2)] h(3) by (intro join_strip) simp_all
  then show ?thesis using p h(3) split_join[of "parts_of i st"] by (cases "parts_of i st = []") auto
qed

lemma strike_text_fin: "ii_strike i = Some (Fin a) \<Longrightarrow> strike_text i = Inr (Some (show_int (trunc_int a)))"
  by (simp add: strike_text_def)

lemma plain_strike:
  assumes "plain i"
  obtains "ii_strike i = None" "strike_text i = Inr None"
  | a where "ii_strike i = Some (Fin a)" "strike_text i = Inr (Some (show_int (trunc_int a)))"
  using assms by (cases "ii_strike i") (auto simp: plain_def strike_text_def)

definition candidate_id :: "string list \<Rightarrow> date option \<Rightarrow> string option \<Rightarrow> instrument_id" where
  "candidate_id ps expiry r0 =
     (let r1 = snd (parse_fourth ps r0); r2 = (case part 4 ps of None \<Rightarrow> r1 | Some p \<Rightarrow> Some (py_upper p)) in
      \<lparr>ii_exchange = py_upper (ps ! 0), ii_underlying = py_upper (ps ! 1), ii_expiry = expiry,
       ii_strike = fst (parse_fourth ps r0), ii_right = (if expiry \<noteq> None \<and> r2 = None then Some ''FUT'' else r2), ii_kind = None\<rparr>)"

lemma id_parse_parts:
  assumes "py_split CHR '':'' (py_strip s) = ps" "2 \<le> length ps"
  shows "id_parse extras s = (case parse_third ps of Inl e \<Rightarrow> Inl e | Inr (expiry, r0) \<Rightarrow> mk_instrument_id extras (candidate_id ps expiry r0))"
proof (cases "parse_third ps")
  case (Inl e)
  then show ?thesis using assms by (simp add: id_parse_def)
next
  case (Inr x)
  obtain expiry r0 where x: "x = (expiry, r0)" by (cases x)
  obtain a b where ab: "parse_fourth ps r0 = (a, b)" by fastforce
  have "candidate_id ps expiry r0 =
      (let r2 = (case part 4 ps of None \<Rightarrow> b | Some p \<Rightarrow> Some (py_upper p)) in
       \<lparr>ii_exchange = py_upper (ps ! 0), ii_underlying = py_upper (ps ! 1), ii_expiry = expiry, ii_strike = a,
        ii_right = (if expiry \<noteq> None \<and> r2 = None then Some ''FUT'' else r2), ii_kind = None\<rparr>)"
    unfolding candidate_id_def ab Let_def fst_conv snd_conv by (rule refl)
  then show ?thesis using assms Inr unfolding x by (simp add: id_parse_def ab Let_def)
qed

lemma id_text_parts: "strike_text i = Inr st \<Longrightarrow> id_text i = Inr (colon_join (parts_of i st))"
  by (simp add: id_text_def parts_of_def)

lemma parse_fourth_strike: "fst (parse_fourth ps r0) = (case part 3 ps of None \<Rightarrow> None | Some p \<Rightarrow> read_number p)"
  by (auto simp: parse_fourth_def split: option.splits)

text \<open>With an expiry, or with neither expiry nor strike, the text is read; without an expiry a strike is never read.\<close>

lemma parse_of_text:
  assumes "plain i" "right_ok (ii_right i)" "strike_text i = Inr st" "ii_expiry i \<noteq> None \<or> ii_strike i = None"
  shows "\<exists>r0. parse_third (parts_of i st) = Inr (ii_expiry i, r0) \<and>
    candidate_id (parts_of i st) (ii_expiry i) r0 =
      \<lparr>ii_exchange = ii_exchange i, ii_underlying = ii_underlying i, ii_expiry = ii_expiry i,
       ii_strike = map_option (\<lambda>x. case x of Fin a \<Rightarrow> Fin (of_int (trunc_int a)) | y \<Rightarrow> y) (ii_strike i),
       ii_right = (if ii_expiry i = None then (if ii_right i = Some ''FUT'' then Some ''FUT'' else None)
                   else if ii_strike i = None \<or> ii_right i = None \<or> ii_right i = Some [] then Some ''FUT'' else ii_right i),
       ii_kind = None\<rparr>"
proof -
  have n: "normalize_exchange (ii_exchange i) = ii_exchange i" "normalize_exchange (ii_underlying i) = ii_underlying i"
    using assms(1) by (simp_all add: plain_def normalize_exchange_def normalize_symbol_def)
  note u = normalized(2)[OF n(1)] normalized(2)[OF n(2)]
  note simps = parts_of_def candidate_id_def parse_third_def parse_fourth_def part_def opt_list_def Let_def u right_texts
  show ?thesis
  proof (cases "ii_expiry i")
    case None
    then have "ii_strike i = None" "st = None" using assms(3,4) by (simp_all add: strike_text_def)
    then show ?thesis using None by (cases rule: plain_right[OF assms(1,2)]) (simp_all add: simps)
  next
    case (Some d)
    then have d: "date_ok d" "1000 \<le> dt_year d" using assms(1) by (simp_all add: plain_def)
    note dt = date_text_back[OF d] colon_free(3)[of d]
    show ?thesis
    proof (cases rule: plain_strike[OF assms(1)])
      case 1
      then have "st = None" using assms(3) by simp
      with 1 Some dt show ?thesis by (cases rule: plain_right[OF assms(1,2)]) (simp_all add: simps)
    next
      case (2 a)
      then have "st = Some (show_int (trunc_int a))" using assms(3) by simp
      with 2 Some dt show ?thesis
        by (cases rule: plain_right[OF assms(1,2)]) (simp_all add: simps show_int_ne read_show_int)
    qed
  qed
qed

lemma no_strike_read:
  assumes "plain i" "right_ok (ii_right i)" "ii_expiry i = None" "st = Some (show_int n)" "parse_third (parts_of i st) = Inr (expiry, r0)"
  shows "ii_strike (candidate_id (parts_of i st) expiry r0) = None"
  using assms(3,4)
  by (cases rule: plain_right[OF assms(1,2)])
    (simp_all add: candidate_id_def Let_def parse_fourth_strike part_def parts_of_def opt_list_def right_texts show_int_ne)

lemma id_eq_iff: "id_eq i j = Inr True \<longleftrightarrow> (\<exists>a. id_key i = Inr a \<and> id_key j = Inr a)"
  by (auto simp: id_eq_def split: sum.splits)

lemma key_of: "strike_text i = Inr st \<Longrightarrow> id_key i = Inr (ii_exchange i, ii_underlying i, map_option iso_text (ii_expiry i), st, ii_right i)"
  by (simp add: id_key_def)

lemma key_text:
  assumes "id_key i = Inr a" "id_key k = Inr a" "plain i" "plain k"
  shows "id_text i = id_text k"
proof -
  obtain st st' where st: "strike_text i = Inr st" "strike_text k = Inr st'"
    using assms(1,2) by (auto simp: id_key_def split: sum.splits)
  have e: "ii_exchange i = ii_exchange k" "ii_underlying i = ii_underlying k" "map_option iso_text (ii_expiry i) = map_option iso_text (ii_expiry k)"
    "st = st'" "ii_right i = ii_right k"
    using assms(1,2) unfolding key_of[OF st(1)] key_of[OF st(2)] by auto
  have "ii_expiry i = ii_expiry k"
    using e(3) assms(3,4) iso_text_inject by (cases "ii_expiry i"; cases "ii_expiry k") (auto simp: plain_def)
  with e st show ?thesis unfolding id_text_parts[OF st(1)] id_text_parts[OF st(2)] by (simp add: parts_of_def)
qed

lemma read_back_iff:
  assumes "id_ok extras i" "plain i" "strike_text i = Inr st"
  shows "(\<exists>j. id_parse extras (colon_join (parts_of i st)) = Inr j \<and> id_eq i j = Inr True) \<longleftrightarrow> parses_back i"
proof -
  have r: "right_ok (ii_right i)" using assms(1) by (simp add: id_ok_def)
  have sr: "st = None \<or> (\<exists>n. st = Some (show_int n))" using assms(3) by (cases rule: plain_strike[OF assms(2)]) auto
  note parse = id_parse_parts[OF parts_read[OF assms(2) r sr]]
  have l: "2 \<le> length (parts_of i st)" by (simp add: parts_of_def)
  show ?thesis
  proof (cases "ii_expiry i \<noteq> None \<or> ii_strike i = None")
    case True
    define c where "c = \<lparr>ii_exchange = ii_exchange i, ii_underlying = ii_underlying i, ii_expiry = ii_expiry i,
       ii_strike = map_option (\<lambda>x. case x of Fin a \<Rightarrow> Fin (of_int (trunc_int a)) | y \<Rightarrow> y) (ii_strike i),
       ii_right = (if ii_expiry i = None then (if ii_right i = Some ''FUT'' then Some ''FUT'' else None)
                   else if ii_strike i = None \<or> ii_right i = None \<or> ii_right i = Some [] then Some ''FUT'' else ii_right i),
       ii_kind = None\<rparr>"
    obtain r0 where r0: "parse_third (parts_of i st) = Inr (ii_expiry i, r0)" "candidate_id (parts_of i st) (ii_expiry i) r0 = c"
      using parse_of_text[OF assms(2) r assms(3) True] unfolding c_def by blast
    have cr: "right_ok (ii_right c)" using r right_texts by (simp add: c_def right_ok_def valid_rights_def)
    have cs: "strike_text c = Inr st" "case ii_strike c of Some (Malformed t) \<Rightarrow> False | _ \<Rightarrow> True"
      using assms(3) by (cases rule: plain_strike[OF assms(2)]; simp add: c_def strike_text_def)+
    have "id_ok extras c" using cr cs(2) assms(1) by (simp add: id_ok_def) (simp add: c_def)
    then have "id_parse extras (colon_join (parts_of i st)) = Inr c"
      using parse[OF l, of extras] by (simp add: r0 mk_instrument_id_stays)
    moreover have "id_eq i c = Inr True \<longleftrightarrow> ii_right i = ii_right c"
      unfolding id_eq_iff key_of[OF assms(3)] key_of[OF cs(1)] by (auto simp: c_def)
    moreover have "ii_right i = ii_right c \<longleftrightarrow> parses_back i"
      using True by (auto simp: c_def parses_back_def split: option.splits)
    ultimately show ?thesis by simp
  next
    case False
    then obtain a where a: "ii_expiry i = None" "ii_strike i = Some (Fin a)" "st = Some (show_int (trunc_int a))"
      using assms(3) by (cases rule: plain_strike[OF assms(2)]) simp_all
    have "id_eq i j \<noteq> Inr True" if j: "id_parse extras (colon_join (parts_of i st)) = Inr j" for j
    proof -
      obtain e r0 where e: "parse_third (parts_of i st) = Inr (e, r0)" "mk_instrument_id extras (candidate_id (parts_of i st) e r0) = Inr j"
        using j unfolding parse[OF l] by (auto split: sum.splits)
      have "ii_strike j = None"
        using mk_instrument_id_ok(2)[OF e(2)] no_strike_read[OF assms(2) r a(1,3) e(1)] by auto
      then have "id_key j = Inr (ii_exchange j, ii_underlying j, map_option iso_text (ii_expiry j), None, ii_right j)"
        by (intro key_of) (simp add: strike_text_def)
      then show ?thesis unfolding id_eq_iff key_of[OF assms(3)] by (simp add: a(3))
    qed
    moreover have "\<not> parses_back i" using a by (simp add: parses_back_def)
    ultimately show ?thesis by blast
  qed
qed

section \<open>The text and the identity\<close>

text \<open>
  C25: which identities are read back from their text. The text of an identity in capitals is
  read back as an equal one exactly when it has one of four shapes: neither expiry nor strike
  and no right or \<open>FUT\<close>; an expiry and \<open>FUT\<close>; an expiry, a strike and a right. Then different
  identities of these shapes have different texts.
\<close>

theorem text_parses_back:
  "id_ok extras i \<and> plain i \<longrightarrow>
   (\<exists>t. id_text i = Inr t \<and>
      ((\<exists>j. id_parse extras t = Inr j \<and> id_eq i j = Inr True) \<longleftrightarrow> parses_back i) \<and>
      (\<forall>k. id_ok extras k \<and> plain k \<and> parses_back i \<and> parses_back k \<longrightarrow>
         id_eq i k = Inr (id_text k = Inr t)))"
proof (intro impI)
  assume h: "id_ok extras i \<and> plain i"
  then have i: "id_ok extras i" "plain i" by simp_all
  have strike: "\<exists>st. strike_text k = Inr st" if "plain k" for k by (rule plain_strike[OF that]) auto
  obtain st where st: "strike_text i = Inr st" using strike[OF i(2)] by blast
  let ?t = "colon_join (parts_of i st)"
  have "id_eq i k = Inr (id_text k = Inr ?t)" if k: "id_ok extras k" "plain k" "parses_back i" "parses_back k" for k
  proof -
    obtain st' where st': "strike_text k = Inr st'" using strike[OF k(2)] by blast
    have keys: "id_eq i k = Inr (id_key i = id_key k)" by (simp add: id_eq_def key_of[OF st] key_of[OF st'])
    obtain j where j: "id_parse extras ?t = Inr j" "id_eq i j = Inr True" using read_back_iff[OF i st] k(3) by blast
    have "id_key i = id_key k" if t: "id_text k = Inr ?t"
    proof -
      have "colon_join (parts_of k st') = ?t" using t by (simp add: id_text_parts[OF st'])
      then have "id_eq k j = Inr True" using read_back_iff[OF k(1,2) st'] k(4) j(1) by auto
      with j(2) show ?thesis unfolding id_eq_iff by auto
    qed
    moreover have "id_text k = Inr ?t" if e: "id_key i = id_key k"
      using key_text[OF key_of[OF st] _ i(2) k(2)] key_of[OF st] id_text_parts[OF st] e by simp
    ultimately show ?thesis unfolding keys by blast
  qed
  then show "\<exists>t. id_text i = Inr t \<and>
      ((\<exists>j. id_parse extras t = Inr j \<and> id_eq i j = Inr True) \<longleftrightarrow> parses_back i) \<and>
      (\<forall>k. id_ok extras k \<and> plain k \<and> parses_back i \<and> parses_back k \<longrightarrow>
         id_eq i k = Inr (id_text k = Inr t))"
    using read_back_iff[OF i st] by (intro exI[of _ ?t]) (auto simp: id_text_parts[OF st])
qed

definition sample_option :: instrument_id where
  "sample_option =
     \<lparr>ii_exchange = ''NFO'', ii_underlying = ''NIFTY'', ii_expiry = Some \<lparr>dt_year = 2026, dt_month = 7, dt_day = 30\<rparr>,
      ii_strike = Some (Fin 120), ii_right = Some ''CE'', ii_kind = Some ''OPTIONS''\<rparr>"

definition sample_text :: string where
  "sample_text = '' nfo:nifty:20260730:120:ce''"

lemma sample_texts:
  "normalize_exchange ''nfo'' = ''NFO''" "normalize_symbol '' nifty'' = ''NIFTY''" "normalize_symbol ''ce'' = ''CE''"
  "py_upper ''nfo'' = ''NFO''" "py_upper ''nifty'' = ''NIFTY''" "py_upper ''ce'' = ''CE''" "py_upper ''CE'' \<in> set valid_rights"
  "normalize_exchange ''NFO'' \<in> allowed_exchanges []" "asset_kind_parse ''OPTIONS'' = Some OPTIONS" "asset_kind_value OPTIONS = ''OPTIONS''"
  by code_simp+

lemma sample_parts: "py_split CHR '':'' (py_strip sample_text) = [''nfo'', ''nifty'', ''20260730'', ''120'', ''ce'']"
proof -
  have "py_strip sample_text = colon_join [''nfo'', ''nifty'', ''20260730'', ''120'', ''ce'']" by code_simp
  then show ?thesis by (simp only:) (rule split_join, simp_all)
qed

lemma sample_option_built: "option_id [] ''nfo'' '' nifty'' \<lparr>dt_year = 2026, dt_month = 7, dt_day = 30\<rparr> (Fin 120) ''ce'' = Inr sample_option"
  by (simp add: option_id_def mk_instrument_id_def sample_option_def sample_texts)

lemma sample_option_parsed: "id_parse [] sample_text = Inr (sample_option\<lparr>ii_kind := None\<rparr>)"
proof -
  let ?ps = "[''nfo'', ''nifty'', ''20260730'', ''120'', ''ce'']"
  have "parse_third ?ps = Inr (Some \<lparr>dt_year = 2026, dt_month = 7, dt_day = 30\<rparr>, None)" "parse_fourth ?ps None = (Some (Fin 120), None)"
    "part 4 ?ps = Some ''ce''" by code_simp+
  then show ?thesis
    using id_parse_parts[OF sample_parts, of "[]"] by (simp add: candidate_id_def mk_instrument_id_def sample_option_def sample_texts)
qed
lemma sample_option_plain: "id_ok [] sample_option" "plain sample_option" "parses_back sample_option"
proof -
  show "id_ok [] sample_option" "parses_back sample_option" by code_simp+
  have "normalize_exchange ''NFO'' = ''NFO''" "normalize_symbol ''NIFTY'' = ''NIFTY''" "py_upper ''CE'' = ''CE''"
    "date_ok \<lparr>dt_year = 2026, dt_month = 7, dt_day = 30\<rparr>" by code_simp+
  then show "plain sample_option" by (simp add: plain_def sample_option_def)
qed

theorem text_parses_back_witness:
  "\<exists>j. id_parse [] ''NFO:NIFTY:20260730:120:CE'' = Inr j \<and> id_eq sample_option j = Inr True"
proof -
  have x: "id_text sample_option = Inr ''NFO:NIFTY:20260730:120:CE''" by code_simp
  obtain t where t: "id_text sample_option = Inr t" "\<exists>j. id_parse [] t = Inr j \<and> id_eq sample_option j = Inr True"
    using text_parses_back[of "[]" sample_option] sample_option_plain by blast
  from t(1) x have "t = ''NFO:NIFTY:20260730:120:CE''" by simp
  with t(2) show ?thesis by blast
qed

text \<open>Two strikes that differ in their fraction are one identity with one text.\<close>

lemma fraction_is_lost:
  "id_eq (sample_option\<lparr>ii_strike := Some (Fin (83 + 1 / 4))\<rparr>) (sample_option\<lparr>ii_strike := Some (Fin (83 + 1 / 2))\<rparr>) = Inr True"
  by code_simp

section \<open>What constructors return\<close>

lemma asset_type_kind: "id_ok extras i \<Longrightarrow> asset_kind_value (id_asset_kind i) = asset_type i"
proof -
  assume i: "id_ok extras i"
  have "\<exists>k. asset_type i = asset_kind_value k"
  proof (cases "ii_kind i")
    case None
    then have "asset_type i \<in> asset_kind_value ` {FUTURES, OPTIONS, INDEX, EQUITY}" by (auto simp: asset_type_def)
    then show ?thesis by blast
  qed (use i in \<open>auto simp: id_ok_def asset_type_def\<close>)
  then show ?thesis by (auto simp: id_asset_kind_def)
qed

lemma mk_kind:
  assumes "mk_instrument_id extras i = Inr j"
  shows "j = i\<lparr>ii_kind := ii_kind j\<rparr>" "ii_kind i = Some (asset_kind_value k) \<Longrightarrow> ii_kind j = Some (asset_kind_value k)"
    "ii_kind i = None \<Longrightarrow> ii_kind j = None"
proof -
  obtain k' where k: "j = i\<lparr>ii_kind := k'\<rparr>" "normalize_exchange (ii_exchange i) \<in> allowed_exchanges extras" "right_ok (ii_right i)"
    "case ii_strike i of Some (Malformed t) \<Rightarrow> False | _ \<Rightarrow> True"
    "case ii_kind i of None \<Rightarrow> k' = None | Some t \<Rightarrow> \<exists>a. asset_kind_parse t = Some a \<and> k' = Some (asset_kind_value a)"
    by (rule mk_instrument_id_cases[OF assms])
  have e: "ii_kind j = k'" unfolding k(1) by simp
  show "j = i\<lparr>ii_kind := ii_kind j\<rparr>" unfolding e by (rule k(1))
  show "ii_kind i = Some (asset_kind_value k) \<Longrightarrow> ii_kind j = Some (asset_kind_value k)" unfolding e using k(5) by simp
  show "ii_kind i = None \<Longrightarrow> ii_kind j = None" unfolding e using k(5) by simp
qed



end
