(* ===== verification/Lifecycle.thy ===== *)
theory Lifecycle
  imports Prelude
begin

text \<open>
  The manager of background services (\<open>infrastructure/lifecycle/lifecycle.py\<close>) with the health
  it reports (\<open>domain/lifecycle_health.py\<close>). How a service answers to being started, stopped and
  asked for its health is an argument of the operation. The calls made on services are recorded
  in order. Times of checks, metrics and the class names in messages are left out. An operation
  runs as a whole; between the test and the call of a start the code holds no lock.
\<close>

section \<open>The manager\<close>

datatype health_state = STOPPED | STARTING | HEALTHY | DEGRADED | UNHEALTHY | STOPPING | FAILED

record health_status =
  st_state :: health_state
  st_service :: string
  st_detail :: string

text \<open>Stopping returns, raises, or does not return within the time allowed.\<close>

datatype stop_answer = Stop_Done | Stop_Raised exn | Stop_Stuck

datatype 's call = Call_Start 's | Call_Stop 's

record 's lifecycle =
  lm_services :: "(string, 's) dict"
  lm_started :: "string list"
  lm_start_failed :: "string list"
  lm_invoked :: bool
  lm_start_order :: "string list"
  lm_stop_order :: "string list"
  lm_last_health :: "(string, health_status) dict"
  lm_calls :: "'s call list"

definition lifecycle_new :: "'s lifecycle" where
  "lifecycle_new =
     \<lparr>lm_services = [], lm_started = [], lm_start_failed = [], lm_invoked = False, lm_start_order = [], lm_stop_order = [],
      lm_last_health = [], lm_calls = []\<rparr>"

definition set_health :: "string \<Rightarrow> health_state \<Rightarrow> string \<Rightarrow> 's lifecycle \<Rightarrow> 's lifecycle" where
  "set_health name state detail m =
     m\<lparr>lm_last_health := dict_put (lm_last_health m) name \<lparr>st_state = state, st_service = name, st_detail = detail\<rparr>\<rparr>"

definition start_one :: "('s \<Rightarrow> exn option) \<Rightarrow> string \<Rightarrow> 's lifecycle \<Rightarrow> 's lifecycle" where
  "start_one answer name m =
     (if name \<in> set (lm_started m) \<or> name \<in> set (lm_start_failed m) then m
      else
        (case dict_get (lm_services m) name of
           None \<Rightarrow> m
         | Some v \<Rightarrow>
             (let m1 = m\<lparr>lm_calls := lm_calls m @ [Call_Start v]\<rparr> in
              case answer v of
                None \<Rightarrow> m1\<lparr>lm_started := List.insert name (lm_started m), lm_start_failed := removeAll name (lm_start_failed m)\<rparr>
              | Some e \<Rightarrow>
                  set_health name FAILED (''start raised: '' @ exn_text e)
                    (m1\<lparr>lm_start_failed := List.insert name (lm_start_failed m)\<rparr>))))"

text \<open>\<open>limit\<close> is the text of the time allowed.\<close>

definition stop_one :: "string \<Rightarrow> ('s \<Rightarrow> stop_answer) \<Rightarrow> string \<Rightarrow> 's lifecycle \<Rightarrow> 's lifecycle" where
  "stop_one limit answer name m =
     (if name \<notin> set (lm_started m) then m
      else
        (case dict_get (lm_services m) name of
           None \<Rightarrow> m
         | Some v \<Rightarrow>
             (let m1 = m\<lparr>lm_calls := lm_calls m @ [Call_Stop v]\<rparr> in
              case answer v of
                Stop_Done \<Rightarrow> m1\<lparr>lm_started := removeAll name (lm_started m)\<rparr>
              | Stop_Raised e \<Rightarrow> set_health name FAILED (''stop raised: '' @ exn_text e) m1
              | Stop_Stuck \<Rightarrow> set_health name FAILED (''stop did not return within '' @ limit @ ''s'') m1)))"

definition lm_register :: "('s \<Rightarrow> exn option) \<Rightarrow> string \<Rightarrow> 's \<Rightarrow> 's lifecycle \<Rightarrow> 's lifecycle" where
  "lm_register answer name v m =
     (let m1 = set_health name STOPPED ''registered''
            (m\<lparr>lm_services := dict_put (lm_services m) name v,
               lm_start_order := (if name \<in> set (lm_start_order m) then lm_start_order m else lm_start_order m @ [name]),
               lm_stop_order := remove1 name (lm_stop_order m) @ [name]\<rparr>) in
      if lm_invoked m then start_one answer name m1 else m1)"

definition lm_unregister :: "string \<Rightarrow> 's lifecycle \<Rightarrow> 's lifecycle" where
  "lm_unregister name m =
     m\<lparr>lm_services := dict_pop (lm_services m) name, lm_started := removeAll name (lm_started m),
       lm_start_failed := removeAll name (lm_start_failed m), lm_start_order := removeAll name (lm_start_order m),
       lm_stop_order := removeAll name (lm_stop_order m), lm_last_health := dict_pop (lm_last_health m) name\<rparr>"

definition lm_get :: "'s lifecycle \<Rightarrow> string \<Rightarrow> 's option" where
  "lm_get m name = dict_get (lm_services m) name"

definition service_names :: "'s lifecycle \<Rightarrow> string list" where
  "service_names m = dict_keys (lm_services m)"

definition start_all :: "('s \<Rightarrow> exn option) \<Rightarrow> 's lifecycle \<Rightarrow> 's lifecycle" where
  "start_all answer m = foldl (\<lambda>m name. start_one answer name m) (m\<lparr>lm_invoked := True\<rparr>) (lm_start_order m)"

definition stop_all :: "string \<Rightarrow> ('s \<Rightarrow> stop_answer) \<Rightarrow> 's lifecycle \<Rightarrow> 's lifecycle" where
  "stop_all limit answer m = foldl (\<lambda>m name. stop_one limit answer name m) m (rev (lm_stop_order m))"

text \<open>One name of a snapshot; a service that is started is asked.\<close>

definition snapshot_one :: "('s \<Rightarrow> exn + health_status) \<Rightarrow> string \<Rightarrow> 's lifecycle \<Rightarrow> health_status \<times> 's lifecycle" where
  "snapshot_one answer name m =
     (if name \<in> set (lm_start_failed m)
      then (case dict_get (lm_last_health m) name of
              Some h \<Rightarrow> (h, m)
            | None \<Rightarrow> (\<lparr>st_state = FAILED, st_service = name, st_detail = ''start failed''\<rparr>, m))
      else
        (let h = (if name \<notin> set (lm_started m) then \<lparr>st_state = STOPPED, st_service = name, st_detail = ''not started''\<rparr>
                  else (case dict_get (lm_services m) name of
                          None \<Rightarrow> \<lparr>st_state = FAILED, st_service = name, st_detail = ''health() raised: '' @ name\<rparr>
                        | Some v \<Rightarrow>
                            (case answer v of
                               Inr h \<Rightarrow> h
                             | Inl e \<Rightarrow> \<lparr>st_state = FAILED, st_service = name, st_detail = ''health() raised: '' @ exn_text e\<rparr>))) in
         (h, m\<lparr>lm_last_health := dict_put (lm_last_health m) name h\<rparr>)))"

fun snapshot_all :: "('s \<Rightarrow> exn + health_status) \<Rightarrow> string list \<Rightarrow> 's lifecycle \<Rightarrow> (string, health_status) dict \<times> 's lifecycle" where
  "snapshot_all answer [] m = ([], m)"
| "snapshot_all answer (name # names) m =
     (case snapshot_one answer name m of (h, m1) \<Rightarrow> (case snapshot_all answer names m1 of (hs, m2) \<Rightarrow> ((name, h) # hs, m2)))"

definition health_snapshot :: "('s \<Rightarrow> exn + health_status) \<Rightarrow> 's lifecycle \<Rightarrow> (string, health_status) dict \<times> 's lifecycle" where
  "health_snapshot answer m = snapshot_all answer (service_names m) m"

definition last_health :: "'s lifecycle \<Rightarrow> string \<Rightarrow> health_status option" where
  "last_health m name = dict_get (lm_last_health m) name"

datatype 's lifecycle_op =
    Register "'s \<Rightarrow> exn option" string 's
  | Unregister string
  | Start "'s \<Rightarrow> exn option" string
  | Stop string "'s \<Rightarrow> stop_answer" string
  | Start_All "'s \<Rightarrow> exn option"
  | Stop_All string "'s \<Rightarrow> stop_answer"
  | Snapshot "'s \<Rightarrow> exn + health_status"

fun lifecycle_step :: "'s lifecycle \<Rightarrow> 's lifecycle_op \<Rightarrow> 's lifecycle" where
  "lifecycle_step m (Register answer name v) = lm_register answer name v m"
| "lifecycle_step m (Unregister name) = lm_unregister name m"
| "lifecycle_step m (Start answer name) = start_one answer name m"
| "lifecycle_step m (Stop limit answer name) = stop_one limit answer name m"
| "lifecycle_step m (Start_All answer) = start_all answer m"
| "lifecycle_step m (Stop_All limit answer) = stop_all limit answer m"
| "lifecycle_step m (Snapshot answer) = snd (health_snapshot answer m)"

section \<open>Names\<close>

definition lifecycle_inv :: "'s lifecycle \<Rightarrow> bool" where
  "lifecycle_inv m \<longleftrightarrow>
     distinct (lm_start_order m) \<and> distinct (lm_stop_order m) \<and> set (lm_start_order m) = set (service_names m) \<and>
     set (lm_stop_order m) = set (service_names m) \<and> set (lm_started m) \<subseteq> set (service_names m) \<and>
     set (lm_start_failed m) \<subseteq> set (service_names m) \<and> set (lm_started m) \<inter> set (lm_start_failed m) = {} \<and>
     set (dict_keys (lm_last_health m)) = set (service_names m)"

lemma keys_put: "set (dict_keys (dict_put d k v)) = insert k (set (dict_keys d))"
  by (auto simp: dict_keys_def dict_put_def update_keys dom_update)

lemma keys_pop: "set (dict_keys (dict_pop d k)) = set (dict_keys d) - {k}"
  by (auto simp: dict_keys_def dict_pop_def delete_keys)

lemma keys_get: "k \<in> set (dict_keys d) \<longleftrightarrow> dict_get d k \<noteq> None"
  by (simp add: dict_get_def dict_keys_def map_of_eq_None_iff)

lemma set_health_fields [simp]:
  "lm_services (set_health n s d m) = lm_services m" "lm_started (set_health n s d m) = lm_started m"
  "lm_start_failed (set_health n s d m) = lm_start_failed m" "lm_invoked (set_health n s d m) = lm_invoked m"
  "lm_start_order (set_health n s d m) = lm_start_order m" "lm_stop_order (set_health n s d m) = lm_stop_order m"
  "lm_calls (set_health n s d m) = lm_calls m"
  "set (dict_keys (lm_last_health (set_health n s d m))) = insert n (set (dict_keys (lm_last_health m)))"
  by (simp_all add: set_health_def keys_put)

lemma inv_foldl: "(\<And>m x. P m \<Longrightarrow> P (f m x)) \<Longrightarrow> P m \<Longrightarrow> P (foldl f m xs)"
  by (induction xs arbitrary: m) auto

lemma start_one_inv: "lifecycle_inv m \<Longrightarrow> lifecycle_inv (start_one answer name m)"
  by (auto simp: lifecycle_inv_def start_one_def service_names_def Let_def keys_get split: option.splits)

lemma stop_one_inv: "lifecycle_inv m \<Longrightarrow> lifecycle_inv (stop_one limit answer name m)"
  by (auto simp: lifecycle_inv_def stop_one_def service_names_def Let_def keys_get split: option.splits stop_answer.splits)

lemma register_inv: "lifecycle_inv m \<Longrightarrow> lifecycle_inv (lm_register answer name v m)"
proof -
  assume m: "lifecycle_inv m"
  have "lifecycle_inv (set_health name STOPPED ''registered''
            (m\<lparr>lm_services := dict_put (lm_services m) name v,
               lm_start_order := (if name \<in> set (lm_start_order m) then lm_start_order m else lm_start_order m @ [name]),
               lm_stop_order := remove1 name (lm_stop_order m) @ [name]\<rparr>))"
    using m by (auto simp: lifecycle_inv_def service_names_def keys_put)
  then show ?thesis unfolding lm_register_def Let_def by (simp add: start_one_inv)
qed

lemma unregister_inv: "lifecycle_inv m \<Longrightarrow> lifecycle_inv (lm_unregister name m)"
  by (auto simp: lifecycle_inv_def lm_unregister_def service_names_def keys_pop distinct_removeAll)

lemma snapshot_one_inv:
  "lifecycle_inv m \<Longrightarrow> name \<in> set (service_names m) \<Longrightarrow> lifecycle_inv (snd (snapshot_one answer name m)) \<and>
     service_names (snd (snapshot_one answer name m)) = service_names m"
  by (auto simp: lifecycle_inv_def snapshot_one_def service_names_def Let_def keys_put split: option.splits)

lemma snapshot_all_inv:
  "lifecycle_inv m \<Longrightarrow> set names \<subseteq> set (service_names m) \<Longrightarrow> lifecycle_inv (snd (snapshot_all answer names m))"
proof (induction names arbitrary: m)
  case (Cons name names)
  then show ?case using snapshot_one_inv[of m name answer] by (auto split: prod.splits) (metis snd_conv)
qed simp

interpretation lifecycle: invariant_system lifecycle_step lifecycle_inv
proof
  fix m :: "'a lifecycle" and x
  assume m: "lifecycle_inv m"
  have "lifecycle_inv (m\<lparr>lm_invoked := True\<rparr>)" using m by (simp add: lifecycle_inv_def service_names_def)
  then show "lifecycle_inv (lifecycle_step m x)"
    using m by (cases x) (simp_all add: register_inv unregister_inv start_one_inv stop_one_inv start_all_def stop_all_def
        health_snapshot_def snapshot_all_inv inv_foldl[where P = lifecycle_inv])
qed

section \<open>The order of starts and stops\<close>

lemma update_new: "k \<notin> fst ` set d \<Longrightarrow> AList.update k v d = d @ [(k, v)]"
  by (induction d) auto

definition register_all :: "('s \<Rightarrow> exn option) \<Rightarrow> (string \<times> 's) list \<Rightarrow> 's lifecycle" where
  "register_all answer xs = foldl (\<lambda>m x. lm_register answer (fst x) (snd x) m) lifecycle_new xs"

lemma register_all_fields:
  "distinct (map fst xs) \<Longrightarrow>
   (let m = register_all answer xs in
    lm_services m = xs \<and> lm_start_order m = map fst xs \<and> lm_stop_order m = map fst xs \<and> lm_started m = [] \<and>
    lm_start_failed m = [] \<and> lm_calls m = [] \<and> \<not> lm_invoked m)"
proof (induction xs rule: rev_induct)
  case Nil
  then show ?case by (simp add: register_all_def lifecycle_new_def)
next
  case (snoc x xs)
  have "fst x \<notin> set (map fst xs)" using snoc.prems by simp
  then have "dict_put xs (fst x) (snd x) = xs @ [x]" by (simp add: dict_put_def update_new)
  with snoc show ?case by (simp add: register_all_def Let_def lm_register_def remove1_idem)
qed

lemma start_fold:
  assumes "distinct (map fst ys)" "\<forall>y \<in> set ys. dict_get (lm_services m) (fst y) = Some (snd y)"
    "(set (lm_started m) \<union> set (lm_start_failed m)) \<inter> fst ` set ys = {}"
  shows "let m' = foldl (\<lambda>m name. start_one answer name m) m (map fst ys) in
    lm_services m' = lm_services m \<and> lm_stop_order m' = lm_stop_order m \<and> lm_calls m' = lm_calls m @ map (\<lambda>y. Call_Start (snd y)) ys \<and>
    set (lm_started m') = set (lm_started m) \<union> fst ` {y \<in> set ys. answer (snd y) = None} \<and>
    set (lm_start_failed m') = set (lm_start_failed m) \<union> fst ` {y \<in> set ys. answer (snd y) \<noteq> None}"
  using assms
proof (induction ys arbitrary: m)
  case (Cons y ys)
  let ?m = "start_one answer (fst y) m"
  have n: "fst y \<notin> set (lm_started m)" "fst y \<notin> set (lm_start_failed m)" "dict_get (lm_services m) (fst y) = Some (snd y)"
    "fst y \<notin> fst ` set ys"
    using Cons.prems by auto
  have f: "lm_services ?m = lm_services m" "lm_stop_order ?m = lm_stop_order m" "lm_calls ?m = lm_calls m @ [Call_Start (snd y)]"
    "set (lm_started ?m) = set (lm_started m) \<union> (if answer (snd y) = None then {fst y} else {})"
    "set (lm_start_failed ?m) = set (lm_start_failed m) \<union> (if answer (snd y) = None then {} else {fst y})"
    using n by (auto simp: start_one_def Let_def split: option.splits)
  have "distinct (map fst ys)" "\<forall>y \<in> set ys. dict_get (lm_services ?m) (fst y) = Some (snd y)"
    "(set (lm_started ?m) \<union> set (lm_start_failed ?m)) \<inter> fst ` set ys = {}"
    using Cons.prems n(4) f by (auto split: if_splits)
  note ih = Cons.IH[OF this]
  have e: "{z \<in> set (y # ys). Q (answer (snd z))} = {z \<in> set ys. Q (answer (snd z))} \<union> (if Q (answer (snd y)) then {y} else {})" for Q
    by auto
  show ?case using ih unfolding Let_def e[of "\<lambda>a. a = None"] e[of "\<lambda>a. a \<noteq> None"] by (simp add: f)
qed simp

lemma stop_fold:
  assumes "distinct (map fst ys)" "\<forall>y \<in> set ys. dict_get (lm_services m) (fst y) = Some (snd y)"
  shows "let m' = foldl (\<lambda>m name. stop_one limit answer name m) m (map fst ys) in
    lm_start_failed m' = lm_start_failed m \<and>
    lm_calls m' = lm_calls m @ map (\<lambda>y. Call_Stop (snd y)) (filter (\<lambda>y. fst y \<in> set (lm_started m)) ys) \<and>
    set (lm_started m') = set (lm_started m) - fst ` {y \<in> set ys. answer (snd y) = Stop_Done}"
  using assms
proof (induction ys arbitrary: m)
  case (Cons y ys)
  let ?m = "stop_one limit answer (fst y) m"
  have n: "dict_get (lm_services m) (fst y) = Some (snd y)" "fst y \<notin> fst ` set ys" using Cons.prems by auto
  have f: "lm_services ?m = lm_services m" "lm_start_failed ?m = lm_start_failed m"
    "lm_calls ?m = lm_calls m @ (if fst y \<in> set (lm_started m) then [Call_Stop (snd y)] else [])"
    "set (lm_started ?m) = set (lm_started m) - (if answer (snd y) = Stop_Done then {fst y} else {})"
    using n by (auto simp: stop_one_def Let_def split: option.splits stop_answer.splits)
  have "distinct (map fst ys)" "\<forall>y \<in> set ys. dict_get (lm_services ?m) (fst y) = Some (snd y)" using Cons.prems f by auto
  note ih = Cons.IH[OF this]
  have "filter (\<lambda>y. fst y \<in> set (lm_started ?m)) ys = filter (\<lambda>y. fst y \<in> set (lm_started m)) ys"
  proof (intro filter_cong refl)
    fix z assume "z \<in> set ys"
    then have "fst z \<noteq> fst y" using n(2) by (metis image_eqI)
    then show "(fst z \<in> set (lm_started ?m)) = (fst z \<in> set (lm_started m))" by (simp add: f(4))
  qed
  moreover have "{z \<in> set (y # ys). answer (snd z) = Stop_Done} =
      {z \<in> set ys. answer (snd z) = Stop_Done} \<union> (if answer (snd y) = Stop_Done then {y} else {})"
    by auto
  ultimately show ?case using ih unfolding Let_def by (simp add: f) auto
qed simp

text \<open>
  C29: services start in the order of registration and stop in the reverse one. With services
  registered under different names, starting all calls each once in their order, whatever
  fails; stopping all then calls exactly those that had started, from the last to the first,
  whatever raises or does not return; the ones that did not stop still count as started.
\<close>

theorem services_start_and_stop_in_order:
  "distinct (map fst xs) \<longrightarrow>
   (let m = stop_all limit stops (start_all starts (register_all answer xs)) in
    lm_calls m = map (\<lambda>x. Call_Start (snd x)) xs @ map (\<lambda>x. Call_Stop (snd x)) (rev (filter (\<lambda>x. starts (snd x) = None) xs)) \<and>
    set (lm_started m) = fst ` {x \<in> set xs. starts (snd x) = None \<and> stops (snd x) \<noteq> Stop_Done} \<and>
    set (lm_start_failed m) = fst ` {x \<in> set xs. starts (snd x) \<noteq> None})"
proof (intro impI)
  assume d: "distinct (map fst xs)"
  define m0 where "m0 = (register_all answer xs)\<lparr>lm_invoked := True\<rparr>"
  define m1 where "m1 = start_all starts (register_all answer xs)"
  note r = register_all_fields[OF d, of answer, unfolded Let_def]
  have m0: "lm_services m0 = xs" "lm_start_order m0 = map fst xs" "lm_stop_order m0 = map fst xs" "lm_started m0 = []"
    "lm_start_failed m0 = []" "lm_calls m0 = []"
    using r by (simp_all add: m0_def)
  have get: "\<forall>x \<in> set xs. dict_get xs (fst x) = Some (snd x)" using d by (auto simp: dict_get_def)
  have "m1 = foldl (\<lambda>m name. start_one starts name m) m0 (map fst xs)" using r by (simp add: m1_def m0_def start_all_def)
  moreover have "\<forall>x \<in> set xs. dict_get (lm_services m0) (fst x) = Some (snd x)"
    "(set (lm_started m0) \<union> set (lm_start_failed m0)) \<inter> fst ` set xs = {}"
    using get m0 by simp_all
  note start_fold[OF d this, of starts]
  ultimately have m1: "lm_services m1 = xs" "lm_stop_order m1 = map fst xs" "lm_calls m1 = map (\<lambda>y. Call_Start (snd y)) xs"
    "set (lm_started m1) = fst ` {y \<in> set xs. starts (snd y) = None}"
    "set (lm_start_failed m1) = fst ` {y \<in> set xs. starts (snd y) \<noteq> None}"
    by (simp_all add: Let_def m0)
  have rd: "distinct (map fst (rev xs))" using d by (simp add: rev_map[symmetric])
  have "stop_all limit stops m1 = foldl (\<lambda>m name. stop_one limit stops name m) m1 (map fst (rev xs))"
    using m1 by (simp add: stop_all_def rev_map)
  note m2 = stop_fold[OF rd, of m1 limit stops, folded this, unfolded Let_def]
  have inj: "fst x \<in> fst ` {y \<in> set xs. P y} \<longleftrightarrow> P x" if "x \<in> set xs" for x P
    using d that by (auto simp: distinct_map inj_on_def)
  have fl: "filter (\<lambda>x. fst x \<in> set (lm_started m1)) (rev xs) = rev (filter (\<lambda>x. starts (snd x) = None) xs)"
    using m1 inj by (simp add: rev_filter) (intro filter_cong refl, simp)
  have "fst ` {x \<in> set xs. starts (snd x) = None} - fst ` {x \<in> set xs. stops (snd x) = Stop_Done} =
      fst ` {x \<in> set xs. starts (snd x) = None \<and> stops (snd x) \<noteq> Stop_Done}"
    using inj[where P = "\<lambda>x. stops (snd x) = Stop_Done"] by auto
  with m1 m2 get fl show "let m = stop_all limit stops (start_all starts (register_all answer xs)) in
    lm_calls m = map (\<lambda>x. Call_Start (snd x)) xs @ map (\<lambda>x. Call_Stop (snd x)) (rev (filter (\<lambda>x. starts (snd x) = None) xs)) \<and>
    set (lm_started m) = fst ` {x \<in> set xs. starts (snd x) = None \<and> stops (snd x) \<noteq> Stop_Done} \<and>
    set (lm_start_failed m) = fst ` {x \<in> set xs. starts (snd x) \<noteq> None}"
    unfolding Let_def m1_def[symmetric] by simp
qed

text \<open>Three services under numbers; the second fails to start, the third does not stop.\<close>

lemma services_start_and_stop_in_order_witness:
  "lm_calls (stop_all ''5.0'' (\<lambda>v. if v = 3 then Stop_Stuck else Stop_Done)
      (start_all (\<lambda>v. if v = 2 then Some IndexError else None) (register_all (\<lambda>_. None) [(''a'', 1 :: nat), (''b'', 2), (''c'', 3)]))) =
     [Call_Start 1, Call_Start 2, Call_Start 3, Call_Stop 3, Call_Stop 1]"
  using services_start_and_stop_in_order[of "[(''a'', 1 :: nat), (''b'', 2), (''c'', 3)]" "''5.0''"
      "\<lambda>v. if v = 3 then Stop_Stuck else Stop_Done" "\<lambda>v. if v = 2 then Some IndexError else None" "\<lambda>_. None"]
  by (simp add: Let_def)

text \<open>A service that refuses to stop is asked for its health again, which then hides the failure.\<close>

lemma stuck_service_reports_itself:
  assumes "name \<in> set (lm_started m)" "dict_get (lm_services m) name = Some v" "answer v = Stop_Stuck"
  shows "let m1 = stop_one limit answer name m in
    map_option st_state (last_health m1 name) = Some FAILED \<and> (\<forall>h. asked v = Inr h \<longrightarrow> fst (snapshot_one asked name m1) = h \<or>
      name \<in> set (lm_start_failed m))"
  using assms by (auto simp: stop_one_def snapshot_one_def last_health_def set_health_def Let_def)

section \<open>Replacing a service\<close>

definition extends :: "('s call \<Rightarrow> bool) \<Rightarrow> 's lifecycle \<Rightarrow> 's lifecycle \<Rightarrow> bool" where
  "extends ok m m' \<longleftrightarrow> (\<exists>cs. lm_calls m' = lm_calls m @ cs \<and> (\<forall>c \<in> set cs. ok c))"

lemma extends_refl: "lm_calls m' = lm_calls m \<Longrightarrow> extends ok m m'"
  by (simp add: extends_def)

lemma extends_one: "lm_calls m' = lm_calls m @ [c] \<Longrightarrow> ok c \<Longrightarrow> extends ok m m'"
  by (simp add: extends_def)

lemma extends_trans: "extends ok a b \<Longrightarrow> extends ok b c \<Longrightarrow> extends ok a c"
proof -
  assume "extends ok a b" "extends ok b c"
  then obtain x y where "lm_calls b = lm_calls a @ x" "lm_calls c = lm_calls b @ y" "\<forall>c \<in> set x. ok c" "\<forall>c \<in> set y. ok c"
    unfolding extends_def by blast
  then show ?thesis unfolding extends_def by (intro exI[of _ "x @ y"]) auto
qed

definition keeps :: "('s lifecycle \<Rightarrow> bool) \<Rightarrow> ('s call \<Rightarrow> bool) \<Rightarrow> ('s lifecycle \<Rightarrow> 's lifecycle) \<Rightarrow> bool" where
  "keeps P ok f \<longleftrightarrow> (\<forall>m. P m \<longrightarrow> P (f m) \<and> extends ok m (f m))"

lemma keepsD: "keeps P ok f \<Longrightarrow> P m \<Longrightarrow> P (f m) \<and> extends ok m (f m)"
  by (simp add: keeps_def)

lemma keeps_foldl: "(\<And>x. x \<in> set xs \<Longrightarrow> keeps P ok (\<lambda>m. f m x)) \<Longrightarrow> keeps P ok (\<lambda>m. foldl f m xs)"
proof (induction xs)
  case Nil
  then show ?case by (simp add: keeps_def extends_refl)
next
  case (Cons x xs)
  have "keeps P ok (\<lambda>m. f m x)" "keeps P ok (\<lambda>m. foldl f m xs)" using Cons by simp_all
  then show ?case unfolding keeps_def foldl_Cons using extends_trans by metis
qed

lemma keeps_run: "(\<And>op. op \<in> set ops \<Longrightarrow> keeps P ok (\<lambda>m. lifecycle_step m op)) \<Longrightarrow> keeps P ok (\<lambda>m. run_ops lifecycle_step m ops)"
proof (induction ops)
  case Nil
  then show ?case by (simp add: keeps_def extends_refl)
next
  case (Cons x xs)
  have "keeps P ok (\<lambda>m. lifecycle_step m x)" "keeps P ok (\<lambda>m. run_ops lifecycle_step m xs)" using Cons by simp_all
  then show ?case unfolding keeps_def run_ops.simps using extends_trans by metis
qed

text \<open>What decides what happens to a service: the services, and the names that started or failed to.\<close>

lemma snapshot_keeps:
  "lm_services (snd (snapshot_all answer names m)) = lm_services m \<and> lm_started (snd (snapshot_all answer names m)) = lm_started m \<and>
   lm_start_failed (snd (snapshot_all answer names m)) = lm_start_failed m \<and> lm_calls (snd (snapshot_all answer names m)) = lm_calls m"
proof (induction names arbitrary: m)
  case (Cons name names)
  have "lm_services (snd (snapshot_one answer name m)) = lm_services m \<and> lm_started (snd (snapshot_one answer name m)) = lm_started m \<and>
    lm_start_failed (snd (snapshot_one answer name m)) = lm_start_failed m \<and> lm_calls (snd (snapshot_one answer name m)) = lm_calls m"
    by (auto simp: snapshot_one_def Let_def split: option.splits)
  with Cons show ?case by (auto split: prod.splits) (metis snd_conv)+
qed simp

definition absent :: "'s \<Rightarrow> 's lifecycle \<Rightarrow> bool" where
  "absent v m \<longleftrightarrow> (\<forall>n. dict_get (lm_services m) n \<noteq> Some v)"

fun registers :: "'s lifecycle_op \<Rightarrow> 's \<Rightarrow> bool" where
  "registers (Register answer name v) w \<longleftrightarrow> v = w"
| "registers _ w \<longleftrightarrow> False"

fun may_release :: "'s lifecycle_op \<Rightarrow> string \<Rightarrow> bool" where
  "may_release (Unregister n) name \<longleftrightarrow> n = name"
| "may_release (Stop limit answer n) name \<longleftrightarrow> n = name"
| "may_release (Stop_All limit answer) name \<longleftrightarrow> True"
| "may_release _ name \<longleftrightarrow> False"

text \<open>The name is taken, and no other name has the service.\<close>

definition held :: "string \<Rightarrow> 's \<Rightarrow> 's lifecycle \<Rightarrow> bool" where
  "held name v m \<longleftrightarrow> name \<in> set (lm_started m) \<union> set (lm_start_failed m) \<and> (\<forall>n. dict_get (lm_services m) n = Some v \<longrightarrow> n = name)"

lemma start_absent: "keeps (absent v) (\<lambda>c. c \<noteq> Call_Start v \<and> c \<noteq> Call_Stop v) (start_one answer n)"
  unfolding keeps_def start_one_def absent_def Let_def
  by (auto intro: extends_refl extends_one split: option.splits)

lemma stop_absent: "keeps (absent v) (\<lambda>c. c \<noteq> Call_Start v \<and> c \<noteq> Call_Stop v) (stop_one limit answer n)"
  unfolding keeps_def stop_one_def absent_def Let_def
  by (auto intro: extends_refl extends_one split: option.splits stop_answer.splits)

lemma start_held: "keeps (held name v) (\<lambda>c. c \<noteq> Call_Start v) (start_one answer n)"
  unfolding keeps_def start_one_def held_def Let_def
  by (auto intro: extends_refl extends_one split: option.splits)

lemma stop_held: "n \<noteq> name \<Longrightarrow> keeps (held name v) (\<lambda>c. c \<noteq> Call_Start v) (stop_one limit answer n)"
  unfolding keeps_def stop_one_def held_def Let_def
  by (auto intro: extends_refl extends_one split: option.splits stop_answer.splits)

lemma keeps_after:
  assumes "keeps P ok f" "\<And>m. P m \<Longrightarrow> P (g m) \<and> lm_calls (g m) = lm_calls m"
  shows "keeps P ok (\<lambda>m. f (g m))"
  using assms unfolding keeps_def extends_def by metis

lemma step_keeps:
  assumes start: "\<And>answer n. keeps P ok (start_one answer n)"
    and stop: "\<And>limit answer n. (\<exists>l a. op = Stop l a n) \<or> (\<exists>l a. op = Stop_All l a) \<Longrightarrow> keeps P ok (stop_one limit answer n)"
    and cong: "\<And>m m'. lm_services m' = lm_services m \<Longrightarrow> lm_started m' = lm_started m \<Longrightarrow> lm_start_failed m' = lm_start_failed m \<Longrightarrow>
      P m' = P m"
    and reg: "\<And>answer n w m. op = Register answer n w \<Longrightarrow> P m \<Longrightarrow> P (m\<lparr>lm_services := dict_put (lm_services m) n w\<rparr>)"
    and unreg: "\<And>n m. op = Unregister n \<Longrightarrow> P m \<Longrightarrow> P (lm_unregister n m)"
  shows "keeps P ok (\<lambda>m. lifecycle_step m op)"
proof (cases op)
  case (Register answer n w)
  let ?g = "\<lambda>m. set_health n STOPPED ''registered''
      (m\<lparr>lm_services := dict_put (lm_services m) n w,
         lm_start_order := (if n \<in> set (lm_start_order m) then lm_start_order m else lm_start_order m @ [n]),
         lm_stop_order := remove1 n (lm_stop_order m) @ [n]\<rparr>)"
  have g: "P (?g m) \<and> lm_calls (?g m) = lm_calls m" if "P m" for m
    using cong[of "?g m" "m\<lparr>lm_services := dict_put (lm_services m) n w\<rparr>"] reg[OF Register that] by simp
  then have "keeps P ok ?g" by (simp add: keeps_def extends_refl)
  moreover note keeps_after[where g = ?g, OF start g, of answer n]
  ultimately show ?thesis unfolding Register lifecycle_step.simps lm_register_def Let_def keeps_def by auto
next
  case (Start_All answer)
  have "keeps P ok (\<lambda>m. foldl (\<lambda>m name. start_one answer name m) m names)" for names
    by (rule keeps_foldl) (rule start)
  note k = keepsD[OF this]
  have "P (start_all answer m) \<and> extends ok m (start_all answer m)" if "P m" for m
  proof -
    let ?m = "m\<lparr>lm_invoked := True\<rparr>"
    have "P ?m" using that cong[of ?m m] by simp
    moreover have "extends ok ?m m' = extends ok m m'" for m' by (simp add: extends_def)
    ultimately show ?thesis using k[of ?m "lm_start_order m"] unfolding start_all_def by simp
  qed
  then show ?thesis unfolding Start_All lifecycle_step.simps keeps_def by blast
next
  case (Stop_All limit answer)
  have "keeps P ok (\<lambda>m. foldl (\<lambda>m name. stop_one limit answer name m) m names)" for names
    by (rule keeps_foldl) (use stop Stop_All in blast)
  then show ?thesis unfolding Stop_All lifecycle_step.simps stop_all_def keeps_def by blast
next
  case (Snapshot answer)
  have "P (snd (health_snapshot answer m)) = P m" for m by (rule cong) (simp_all add: health_snapshot_def snapshot_keeps)
  then show ?thesis
    unfolding Snapshot lifecycle_step.simps keeps_def by (auto simp: health_snapshot_def snapshot_keeps intro!: extends_refl)
next
  case (Unregister n)
  then show ?thesis using unreg by (auto simp: keeps_def lm_unregister_def intro!: extends_refl)
qed (use start stop in auto)

lemma step_absent:
  assumes "\<not> registers op v"
  shows "keeps (absent v) (\<lambda>c. c \<noteq> Call_Start v \<and> c \<noteq> Call_Stop v) (\<lambda>m. lifecycle_step m op)"
proof (rule step_keeps[OF start_absent stop_absent])
  show "\<And>answer n w m. op = Register answer n w \<Longrightarrow> absent v m \<Longrightarrow> absent v (m\<lparr>lm_services := dict_put (lm_services m) n w\<rparr>)"
    using assms by (auto simp: absent_def)
qed (auto simp: absent_def lm_unregister_def)

lemma step_held:
  assumes "\<not> registers op v" "\<not> may_release op name"
  shows "keeps (held name v) (\<lambda>c. c \<noteq> Call_Start v) (\<lambda>m. lifecycle_step m op)"
proof (rule step_keeps[OF start_held])
  show "\<And>limit answer n. (\<exists>l a. op = Stop l a n) \<or> (\<exists>l a. op = Stop_All l a) \<Longrightarrow> keeps (held name v) (\<lambda>c. c \<noteq> Call_Start v) (stop_one limit answer n)"
    using assms(2) by (auto intro: stop_held)
  show "\<And>answer n w m. op = Register answer n w \<Longrightarrow> held name v m \<Longrightarrow> held name v (m\<lparr>lm_services := dict_put (lm_services m) n w\<rparr>)"
    using assms(1) by (auto simp: held_def)
qed (use assms(2) in \<open>auto simp: held_def lm_unregister_def\<close>)

text \<open>
  Replacing a running service. Registering another service under a name that has started,
  or has failed to start, calls nothing. From then on the old one is never called again, not
  even to be stopped, whatever is done short of registering it anew; and the new one is not
  started by anything but after a stop or a removal of the name.
\<close>

theorem replaced_service_forgotten:
  "name \<in> set (lm_started m) \<union> set (lm_start_failed m) \<and> dict_get (lm_services m) name = Some old \<and> absent new m \<and>
   (\<forall>n. dict_get (lm_services m) n = Some old \<longrightarrow> n = name) \<longrightarrow>
   (let m1 = lm_register answer name new m in
    lm_calls m1 = lm_calls m \<and>
    (list_all (\<lambda>op. \<not> registers op old) ops \<longrightarrow>
       extends (\<lambda>c. c \<noteq> Call_Start old \<and> c \<noteq> Call_Stop old) m1 (run_ops lifecycle_step m1 ops)) \<and>
    (list_all (\<lambda>op. \<not> registers op new \<and> \<not> may_release op name) ops \<longrightarrow>
       extends (\<lambda>c. c \<noteq> Call_Start new) m1 (run_ops lifecycle_step m1 ops)))"
proof (intro impI)
  assume h: "name \<in> set (lm_started m) \<union> set (lm_start_failed m) \<and> dict_get (lm_services m) name = Some old \<and> absent new m \<and>
    (\<forall>n. dict_get (lm_services m) n = Some old \<longrightarrow> n = name)"
  define m1 where "m1 = lm_register answer name new m"
  have f: "lm_calls m1 = lm_calls m" "lm_services m1 = dict_put (lm_services m) name new" "lm_started m1 = lm_started m"
    "lm_start_failed m1 = lm_start_failed m"
    using h by (auto simp: m1_def lm_register_def Let_def start_one_def)
  have "old \<noteq> new" using h by (auto simp: absent_def)
  then have a: "absent old m1" using h by (auto simp: absent_def f)
  have d: "held name new m1" using h by (auto simp: held_def absent_def f)
  have "extends (\<lambda>c. c \<noteq> Call_Start old \<and> c \<noteq> Call_Stop old) m1 (run_ops lifecycle_step m1 ops)" if "list_all (\<lambda>op. \<not> registers op old) ops"
  proof -
    have "keeps (absent old) (\<lambda>c. c \<noteq> Call_Start old \<and> c \<noteq> Call_Stop old) (\<lambda>m. run_ops lifecycle_step m ops)"
      by (rule keeps_run, rule step_absent) (use that in \<open>simp add: list_all_iff\<close>)
    from keepsD[OF this a] show ?thesis by blast
  qed
  moreover have "extends (\<lambda>c. c \<noteq> Call_Start new) m1 (run_ops lifecycle_step m1 ops)"
    if "list_all (\<lambda>op. \<not> registers op new \<and> \<not> may_release op name) ops"
  proof -
    have "keeps (held name new) (\<lambda>c. c \<noteq> Call_Start new) (\<lambda>m. run_ops lifecycle_step m ops)"
      by (rule keeps_run, rule step_held) (use that in \<open>simp_all add: list_all_iff\<close>)
    from keepsD[OF this d] show ?thesis by blast
  qed
  ultimately show "let m1 = lm_register answer name new m in
    lm_calls m1 = lm_calls m \<and>
    (list_all (\<lambda>op. \<not> registers op old) ops \<longrightarrow>
       extends (\<lambda>c. c \<noteq> Call_Start old \<and> c \<noteq> Call_Stop old) m1 (run_ops lifecycle_step m1 ops)) \<and>
    (list_all (\<lambda>op. \<not> registers op new \<and> \<not> may_release op name) ops \<longrightarrow>
       extends (\<lambda>c. c \<noteq> Call_Start new) m1 (run_ops lifecycle_step m1 ops))"
    unfolding Let_def m1_def[symmetric] using f(1) by blast
qed

text \<open>A token service is replaced while it runs: neither is the new one started nor the old one stopped.\<close>

lemma replaced_service_forgotten_witness:
  "let m = lm_register (\<lambda>_. None) ''token'' (8 :: nat) (start_all (\<lambda>_. None) (register_all (\<lambda>_. None) [(''token'', 7)])) in
   lm_calls m = [Call_Start 7] \<and>
   extends (\<lambda>c. c \<noteq> Call_Start 7 \<and> c \<noteq> Call_Stop 7) m (run_ops lifecycle_step m [Start_All (\<lambda>_. None), Stop_All ''5.0'' (\<lambda>_. Stop_Done)]) \<and>
   extends (\<lambda>c. c \<noteq> Call_Start 8) m (run_ops lifecycle_step m [Start_All (\<lambda>_. None)])"
proof -
  let ?m = "start_all (\<lambda>_. None) (register_all (\<lambda>_. None) [(''token'', 7 :: nat)])"
  have s: "lm_services ?m = [(''token'', 7)]" "lm_started ?m = [''token'']" "lm_calls ?m = [Call_Start 7]" by code_simp+
  have h: "''token'' \<in> set (lm_started ?m) \<union> set (lm_start_failed ?m) \<and> dict_get (lm_services ?m) ''token'' = Some 7 \<and> absent 8 ?m \<and>
    (\<forall>n. dict_get (lm_services ?m) n = Some 7 \<longrightarrow> n = ''token'')"
    by (simp add: s absent_def dict_get_def)
  show ?thesis
    using replaced_service_forgotten[of "''token''" ?m 7 8 "\<lambda>_. None" "[Start_All (\<lambda>_. None), Stop_All ''5.0'' (\<lambda>_. Stop_Done)]", THEN mp, OF h]
      replaced_service_forgotten[of "''token''" ?m 7 8 "\<lambda>_. None" "[Start_All (\<lambda>_. None)]", THEN mp, OF h]
    unfolding Let_def s(3) by simp
qed

text \<open>
  The names the manager keeps. Whatever is registered, removed, started, stopped and asked,
  the orders of starting and stopping hold each registered name once, a name counts as started
  or as failed to start only while it is registered and never as both, and there is a last
  health for exactly the registered names.
\<close>

theorem lifecycle_names_consistent: "lifecycle_inv (run_ops lifecycle_step lifecycle_new ops)"
proof (rule lifecycle.inv_run)
  show "lifecycle_inv lifecycle_new" by (simp add: lifecycle_inv_def lifecycle_new_def service_names_def dict_keys_def)
qed

end
