(* ===== verification/Circuit_Breaker.thy ===== *)
theory Circuit_Breaker
  imports Decimals "HOL-Library.Sublist"
begin

text \<open>
  The resilience layer around broker calls (\<open>infrastructure/resilience/\<close>): the circuit
  breaker (\<open>circuit_breaker.py\<close>), the backoff (\<open>backoff.py\<close>) and the retry executor
  (\<open>retry_executor.py\<close>). Clock readings and random draws are arguments; an instant is a
  number of nanoseconds.
\<close>

section \<open>Circuit breaker\<close>

datatype circuit_state = CB_CLOSED | CB_OPEN | HALF_OPEN

record breaker_config =
  bc_failure_threshold :: int
  bc_success_threshold :: int
  bc_open_duration_ms :: int

definition mk_breaker_config :: "breaker_config \<Rightarrow> breaker_config res" where
  "mk_breaker_config c =
     (if bc_failure_threshold c \<le> 0 then Inl (ValueError ''failure_threshold must be positive'')
      else if bc_success_threshold c \<le> 0 then Inl (ValueError ''success_threshold must be positive'')
      else if bc_open_duration_ms c \<le> 0 then Inl (ValueError ''open_duration_ms must be positive'')
      else Inr c)"

record breaker =
  cb_name :: string
  cb_config :: breaker_config
  cb_state :: circuit_state
  cb_failures :: int
  cb_successes :: int
  cb_opened_at :: int
  cb_changes :: nat
  cb_calls :: nat

definition cb_init :: "string \<Rightarrow> breaker_config \<Rightarrow> breaker" where
  "cb_init name c =
     \<lparr>cb_name = name, cb_config = c, cb_state = CB_CLOSED, cb_failures = 0, cb_successes = 0,
      cb_opened_at = 0, cb_changes = 0, cb_calls = 0\<rparr>"

definition cb_transition_to :: "int \<Rightarrow> circuit_state \<Rightarrow> breaker \<Rightarrow> breaker" where
  "cb_transition_to now st b =
     (if cb_state b = st then b
      else
        let b1 = b\<lparr>cb_state := st, cb_changes := Suc (cb_changes b)\<rparr>
        in case st of
             CB_OPEN \<Rightarrow> b1\<lparr>cb_opened_at := now\<rparr>
           | HALF_OPEN \<Rightarrow> b1\<lparr>cb_successes := 0\<rparr>
           | CB_CLOSED \<Rightarrow> b1\<lparr>cb_failures := 0, cb_successes := 0\<rparr>)"

text \<open>Reading the state moves an open breaker on when its time is over.\<close>

definition cb_read_state :: "int \<Rightarrow> breaker \<Rightarrow> circuit_state \<times> breaker" where
  "cb_read_state now b =
     (let b1 = (if cb_state b = CB_OPEN \<and> bc_open_duration_ms (cb_config b) * 1000000 \<le> now - cb_opened_at b
                then cb_transition_to now HALF_OPEN b else b)
      in (cb_state b1, b1))"

definition cb_allow_request :: "int \<Rightarrow> breaker \<Rightarrow> bool \<times> breaker" where
  "cb_allow_request now b = (let (st, b1) = cb_read_state now b in (st \<noteq> CB_OPEN, b1))"

definition cb_on_success :: "int \<Rightarrow> breaker \<Rightarrow> breaker" where
  "cb_on_success now b =
     (let b1 = b\<lparr>cb_calls := Suc (cb_calls b)\<rparr> in
      case cb_state b1 of
        HALF_OPEN \<Rightarrow>
          (let b2 = b1\<lparr>cb_successes := cb_successes b1 + 1\<rparr> in
           if bc_success_threshold (cb_config b2) \<le> cb_successes b2 then cb_transition_to now CB_CLOSED b2 else b2)
      | CB_CLOSED \<Rightarrow> b1\<lparr>cb_successes := cb_successes b1 + 1, cb_failures := 0\<rparr>
      | CB_OPEN \<Rightarrow> b1)"

definition cb_on_failure :: "int \<Rightarrow> breaker \<Rightarrow> breaker" where
  "cb_on_failure now b =
     (let b1 = b\<lparr>cb_calls := Suc (cb_calls b), cb_failures := cb_failures b + 1\<rparr> in
      if cb_state b1 = HALF_OPEN then cb_transition_to now CB_OPEN b1
      else if cb_state b1 = CB_CLOSED \<and> bc_failure_threshold (cb_config b1) \<le> cb_failures b1
      then cb_transition_to now CB_OPEN b1
      else b1)"

definition cb_reset :: "int \<Rightarrow> breaker \<Rightarrow> breaker" where
  "cb_reset now b = (cb_transition_to now CB_CLOSED b)\<lparr>cb_failures := 0, cb_successes := 0, cb_calls := 0\<rparr>"

section \<open>Backoff\<close>

text \<open>Delays are floats, in milliseconds and in seconds. \<open>draw\<close> is \<open>random.random()\<close>.\<close>

record backoff =
  bo_base_ms :: rat
  bo_max_ms :: rat
  bo_multiplier :: rat
  bo_jitter :: rat

definition backoff_delay :: "backoff \<Rightarrow> nat \<Rightarrow> rat \<Rightarrow> rat" where
  "backoff_delay b attempt draw =
     (let raw = flt_mul (bo_base_ms b) (flt (bo_multiplier b ^ attempt));
          capped = min raw (bo_max_ms b);
          jitter = flt_mul (flt_mul capped (bo_jitter b)) (flt_sub (flt_mul 2 draw) 1);
          delay_ms = flt_add capped jitter
      in flt_div (min (max delay_ms 0) (bo_max_ms b)) 1000)"

text \<open>The helper of HTTP clients; for \<open>attempt = 0\<close> the power of two is a half.\<close>

definition exponential_backoff_seconds :: "nat \<Rightarrow> rat \<Rightarrow> rat \<Rightarrow> rat" where
  "exponential_backoff_seconds attempt base_ms max_ms =
     flt_div (min (flt_mul base_ms (power_int 2 (int attempt - 1))) max_ms) 1000"

section \<open>Retry executor\<close>

text \<open>
  The exceptions the executor tells apart. Any other exception has a class and a message;
  the configuration lists the classes, with their subclasses, that are retried.
\<close>

datatype call_exn = CircuitOpen string | NonRetryable string | Retryable string | OtherExn string string

record retry_config =
  rc_max_attempts :: int
  rc_max_delay_ms :: rat
  rc_retryable :: "string list"

definition DEFAULT_RETRYABLE :: "string list" where
  "DEFAULT_RETRYABLE = [''ConnectionError'', ''TimeoutError'', ''OSError'']"

definition mk_retry_config :: "retry_config \<Rightarrow> retry_config res" where
  "mk_retry_config c =
     (if rc_max_attempts c \<le> 0 then Inl (ValueError ''max_attempts must be positive'') else Inr c)"

datatype retry_event = Slept rat | OnRetry nat call_exn | OnFailure call_exn

text \<open>The breaker, how often the operation was called, and what was done around the calls.\<close>

record retry_state =
  rs_breaker :: "breaker option"
  rs_calls :: nat
  rs_log :: "retry_event list"

text \<open>
  What one attempt meets: the clock at the breaker check and at the end of the call, an
  exception of the rate limiter, the answer of the operation, and the draw of the jitter.
  The executor ignores what the rate limiter returns.
\<close>

record 'a attempt_env =
  at_check :: int
  at_limit :: "call_exn option"
  at_answer :: "call_exn + 'a"
  at_done :: int
  at_draw :: rat

definition attempt_once :: "'a attempt_env \<Rightarrow> retry_state \<Rightarrow> (call_exn + 'a) \<times> retry_state" where
  "attempt_once env s =
     (let (allowed, s1) = (case rs_breaker s of
            None \<Rightarrow> (True, s)
          | Some b \<Rightarrow> (let (ok, b1) = cb_allow_request (at_check env) b in (ok, s\<lparr>rs_breaker := Some b1\<rparr>)))
      in if \<not> allowed then (Inl (CircuitOpen (case rs_breaker s of Some b \<Rightarrow> cb_name b | None \<Rightarrow> [])), s1)
         else case at_limit env of
                Some e \<Rightarrow> (Inl e, s1)
              | None \<Rightarrow>
                  (let s2 = s1\<lparr>rs_calls := Suc (rs_calls s1)\<rparr> in
                   case at_answer env of
                     Inl e \<Rightarrow> (Inl e, s2)
                   | Inr v \<Rightarrow> (Inr v, s2\<lparr>rs_breaker := map_option (cb_on_success (at_done env)) (rs_breaker s2)\<rparr>)))"

definition breaker_failure :: "int \<Rightarrow> retry_state \<Rightarrow> retry_state" where
  "breaker_failure now s = s\<lparr>rs_breaker := map_option (cb_on_failure now) (rs_breaker s)\<rparr>"

definition log_event :: "retry_event \<Rightarrow> retry_state \<Rightarrow> retry_state" where
  "log_event e s = s\<lparr>rs_log := rs_log s @ [e]\<rparr>"

fun is_retried :: "retry_config \<Rightarrow> call_exn \<Rightarrow> bool" where
  "is_retried c (Retryable _) = True"
| "is_retried c (OtherExn cl _) = (cl \<in> set (rc_retryable c))"
| "is_retried c _ = False"

text \<open>
  The loop over the attempts, \<open>left\<close> of them including this one. After the last one the
  last exception is raised again, or \<open>None\<close> is returned.
\<close>

fun retry_loop ::
  "retry_config \<Rightarrow> backoff \<Rightarrow> (nat \<Rightarrow> 'a attempt_env) \<Rightarrow> nat \<Rightarrow> nat \<Rightarrow> call_exn option \<Rightarrow> retry_state \<Rightarrow>
   (call_exn + 'a option) \<times> retry_state" where
  "retry_loop c bo envs 0 attempt prev s = (case prev of Some e \<Rightarrow> Inl e | None \<Rightarrow> Inr None, s)"
| "retry_loop c bo envs (Suc left) attempt prev s =
     (case attempt_once (envs attempt) s of
        (Inr v, s1) \<Rightarrow> (Inr (Some v), s1)
      | (Inl (CircuitOpen n), s1) \<Rightarrow> (Inl (CircuitOpen n), s1)
      | (Inl (NonRetryable m), s1) \<Rightarrow>
          (Inl (NonRetryable m),
           log_event (OnFailure (case prev of Some e \<Rightarrow> e | None \<Rightarrow> NonRetryable [])) (breaker_failure (at_done (envs attempt)) s1))
      | (Inl e, s1) \<Rightarrow>
          (let s2 = breaker_failure (at_done (envs attempt)) s1 in
           if \<not> is_retried c e then (Inl e, log_event (OnFailure e) s2)
           else if left \<noteq> 0
           then retry_loop c bo envs left (Suc attempt) (Some e)
                  (log_event (OnRetry attempt e) (log_event (Slept (backoff_delay bo attempt (at_draw (envs attempt)))) s2))
           else (Inl e, log_event (OnFailure e) s2)))"

definition execute ::
  "retry_config \<Rightarrow> backoff \<Rightarrow> (nat \<Rightarrow> 'a attempt_env) \<Rightarrow> retry_state \<Rightarrow> (call_exn + 'a option) \<times> retry_state" where
  "execute c bo envs s = retry_loop c bo envs (nat (rc_max_attempts c)) 0 None s"

section \<open>Facts\<close>

fun cb_outcome :: "breaker \<Rightarrow> int \<times> bool \<Rightarrow> breaker" where
  "cb_outcome b (now, failed) = (if failed then cb_on_failure now b else cb_on_success now b)"

datatype cb_op = ReadState int | Succeed int | Fail int

fun cb_op_time :: "cb_op \<Rightarrow> int" where
  "cb_op_time (ReadState t) = t" | "cb_op_time (Succeed t) = t" | "cb_op_time (Fail t) = t"

fun cb_step :: "breaker \<Rightarrow> cb_op \<Rightarrow> breaker" where
  "cb_step b (ReadState now) = snd (cb_allow_request now b)"
| "cb_step b (Succeed now) = cb_on_success now b"
| "cb_step b (Fail now) = cb_on_failure now b"

lemma replicate_barrier:
  "k < f \<Longrightarrow> sublist (replicate f True) (replicate k True @ False # m) \<longleftrightarrow> sublist (replicate f True) m"
proof (induction k)
  case 0
  then show ?case by (cases f) (auto simp: sublist_Cons_right)
next
  case (Suc k)
  have "\<not> prefix (replicate f True) (replicate j True @ False # m)" if "j < f" for j
    using that by (induction j arbitrary: f) (auto simp: prefix_Cons gr0_conv_Suc less_Suc_eq_0_disj Suc_less_eq2)
  from this[of "Suc k"] show ?case using Suc by (simp add: sublist_Cons_right)
qed

lemma open_stays: "cb_state b = CB_OPEN \<Longrightarrow> cb_state (run_ops cb_outcome b xs) = CB_OPEN"
  by (induction xs arbitrary: b) (auto simp: cb_on_failure_def cb_on_success_def Let_def)

lemma outcomes_from_closed:
  "cb_state b = CB_CLOSED \<Longrightarrow> cb_failures b = int k \<Longrightarrow> int k < bc_failure_threshold (cb_config b) \<Longrightarrow>
   cb_state (run_ops cb_outcome b xs) =
     (if sublist (replicate (nat (bc_failure_threshold (cb_config b))) True) (replicate k True @ map snd xs)
      then CB_OPEN else CB_CLOSED)"
proof (induction xs arbitrary: b k)
  case Nil
  then have "\<not> sublist (replicate (nat (bc_failure_threshold (cb_config b))) True) (replicate k True)"
    using sublist_length_le[of "replicate (nat (bc_failure_threshold (cb_config b))) True" "replicate k True"] by auto
  then show ?case using Nil by simp
next
  case (Cons x xs)
  obtain now f where x: "x = (now, f)" by (cases x)
  let ?n = "nat (bc_failure_threshold (cb_config b))"
  show ?case
  proof (cases f)
    case False
    have o: "cb_state (cb_outcome b x) = CB_CLOSED" "cb_failures (cb_outcome b x) = int 0"
      "cb_config (cb_outcome b x) = cb_config b"
      using Cons.prems(1) False by (simp_all add: x cb_on_success_def Let_def)
    have "sublist (replicate ?n True) (replicate k True @ False # map snd xs) \<longleftrightarrow> sublist (replicate ?n True) (map snd xs)"
      using replicate_barrier[of k ?n "map snd xs"] Cons.prems(3) by simp
    then show ?thesis using Cons.IH[OF o(1,2)] Cons.prems(3) False unfolding o(3) by (simp add: x)
  next
    case True
    have shift: "replicate k True @ True # map snd xs = replicate (Suc k) True @ map snd xs"
      by (simp add: replicate_app_Cons_same)
    show ?thesis
    proof (cases "int (Suc k) < bc_failure_threshold (cb_config b)")
      case less: True
      have o: "cb_state (cb_outcome b x) = CB_CLOSED" "cb_failures (cb_outcome b x) = int (Suc k)"
        "cb_config (cb_outcome b x) = cb_config b"
        using Cons.prems True less by (simp_all add: x cb_on_failure_def Let_def)
      show ?thesis using Cons.IH[OF o(1,2)] less True unfolding o(3) by (simp add: x shift del: replicate_Suc)
    next
      case False
      then have n: "?n = Suc k" using Cons.prems(3) by linarith
      have "cb_state (cb_outcome b x) = CB_OPEN"
        using Cons.prems True False by (simp add: x cb_on_failure_def cb_transition_to_def Let_def)
      moreover have "sublist (replicate ?n True) (replicate k True @ map snd (x # xs))"
        using True by (simp add: x n shift del: replicate_Suc)
      ultimately show ?thesis using open_stays[of "cb_outcome b x" xs] by simp
    qed
  qed
qed

lemma open_until_due:
  "cb_state b = CB_OPEN \<Longrightarrow> \<forall>x \<in> set xs. cb_op_time x - cb_opened_at b < bc_open_duration_ms (cb_config b) * 1000000 \<Longrightarrow>
   cb_state (run_ops cb_step b xs) = CB_OPEN \<and> cb_opened_at (run_ops cb_step b xs) = cb_opened_at b \<and>
   cb_config (run_ops cb_step b xs) = cb_config b"
proof (induction xs arbitrary: b)
  case (Cons x xs)
  have "cb_state (cb_step b x) = CB_OPEN \<and> cb_opened_at (cb_step b x) = cb_opened_at b \<and> cb_config (cb_step b x) = cb_config b"
    using Cons.prems by (cases x) (auto simp: cb_allow_request_def cb_read_state_def cb_on_success_def cb_on_failure_def Let_def)
  then show ?case using Cons.IH[of "cb_step b x"] Cons.prems(2) by simp
qed simp

lemma probes:
  "cb_state b = HALF_OPEN \<Longrightarrow> 0 < bc_success_threshold (cb_config b) \<Longrightarrow> cb_successes b + int n < bc_success_threshold (cb_config b) \<Longrightarrow>
   length ts = n \<Longrightarrow>
   cb_state (run_ops cb_step b (map Succeed ts)) = HALF_OPEN \<and> cb_successes (run_ops cb_step b (map Succeed ts)) = cb_successes b + int n \<and>
   cb_config (run_ops cb_step b (map Succeed ts)) = cb_config b"
proof (induction n arbitrary: b ts)
  case (Suc n)
  then obtain t ts' where ts: "ts = t # ts'" "length ts' = n" by (cases ts) auto
  have "cb_state (cb_step b (Succeed t)) = HALF_OPEN" "cb_successes (cb_step b (Succeed t)) = cb_successes b + 1"
    "cb_config (cb_step b (Succeed t)) = cb_config b"
    using Suc.prems by (simp_all add: cb_on_success_def Let_def)
  then show ?case using Suc.IH[of "cb_step b (Succeed t)" ts'] Suc.prems ts by simp
qed simp

section \<open>Properties\<close>

text \<open>
  A breaker that is never asked opens exactly when its threshold of failures has come in
  one row, with no success between them.
\<close>

theorem breaker_trips:
  "0 < bc_failure_threshold c \<longrightarrow>
   cb_state (run_ops cb_outcome (cb_init name c) xs) =
     (if \<exists>ys zs. map snd xs = ys @ replicate (nat (bc_failure_threshold c)) True @ zs then CB_OPEN else CB_CLOSED)"
  using outcomes_from_closed[of "cb_init name c" 0 xs] by (auto simp: cb_init_def sublist_def)

lemma breaker_trips_witness:
  "cb_state (run_ops cb_outcome (cb_init ''dhan'' \<lparr>bc_failure_threshold = 2, bc_success_threshold = 1, bc_open_duration_ms = 5\<rparr>)
     [(1, True), (2, False), (3, True), (4, True), (5, False)]) = CB_OPEN"
proof -
  have "\<exists>ys zs. [True, False, True, True, False] = ys @ replicate 2 True @ zs"
    by (rule exI[of _ "[True, False]"], rule exI[of _ "[False]"]) (simp add: numeral_2_eq_2)
  then show ?thesis
    using breaker_trips[of "\<lparr>bc_failure_threshold = 2, bc_success_threshold = 1, bc_open_duration_ms = 5\<rparr>" "''dhan''"
        "[(1, True), (2, False), (3, True), (4, True), (5, False)]"] by simp
qed

text \<open>
  C34: an open breaker lets nothing through before its time is over, whatever is reported to
  it meanwhile. The first question after that finds it half open; fewer successes than its
  threshold keep it there, that many close it with its counts cleared, and a failure before
  opens it again from that instant.
\<close>

theorem breaker_recovers:
  "cb_state b = CB_OPEN \<and> 0 < bc_success_threshold (cb_config b) \<and>
   (\<forall>x \<in> set xs. cb_op_time x - cb_opened_at b < bc_open_duration_ms (cb_config b) * 1000000) \<longrightarrow>
   (let b1 = run_ops cb_step b xs; due = cb_opened_at b + bc_open_duration_ms (cb_config b) * 1000000 in
    (now < due \<longrightarrow> cb_allow_request now b1 = (False, b1)) \<and>
    (due \<le> now \<longrightarrow>
       (let b2 = snd (cb_allow_request now b1); b3 = run_ops cb_step b2 (map Succeed ts) in
        fst (cb_allow_request now b1) \<and> cb_state b2 = HALF_OPEN \<and>
        (int (length ts) < bc_success_threshold (cb_config b) \<longrightarrow>
           cb_state b3 = HALF_OPEN \<and> cb_state (cb_step b3 (Fail t)) = CB_OPEN \<and> cb_opened_at (cb_step b3 (Fail t)) = t) \<and>
        (int (length ts) + 1 = bc_success_threshold (cb_config b) \<longrightarrow>
           cb_state (cb_step b3 (Succeed t)) = CB_CLOSED \<and> cb_failures (cb_step b3 (Succeed t)) = 0))))"
proof (intro impI)
  let ?b1 = "run_ops cb_step b xs" and ?due = "cb_opened_at b + bc_open_duration_ms (cb_config b) * 1000000"
  let ?b2 = "snd (cb_allow_request now ?b1)"
  let ?b3 = "run_ops cb_step ?b2 (map Succeed ts)"
  assume a: "cb_state b = CB_OPEN \<and> 0 < bc_success_threshold (cb_config b) \<and>
   (\<forall>x \<in> set xs. cb_op_time x - cb_opened_at b < bc_open_duration_ms (cb_config b) * 1000000)"
  then have o: "cb_state ?b1 = CB_OPEN" "cb_opened_at ?b1 = cb_opened_at b" "cb_config ?b1 = cb_config b"
    using open_until_due[of b xs] by auto
  have early: "now < ?due \<Longrightarrow> cb_allow_request now ?b1 = (False, ?b1)"
    using o by (simp add: cb_allow_request_def cb_read_state_def)
  have half: "fst (cb_allow_request now ?b1)" "cb_state ?b2 = HALF_OPEN" "cb_successes ?b2 = 0" "cb_config ?b2 = cb_config b"
    if "?due \<le> now"
    using o that by (simp_all add: cb_allow_request_def cb_read_state_def cb_transition_to_def)
  have probe: "cb_state ?b3 = HALF_OPEN" "cb_successes ?b3 = int (length ts)" "cb_config ?b3 = cb_config b"
    if "?due \<le> now" "int (length ts) < bc_success_threshold (cb_config b)"
    using probes[of ?b2 "length ts" ts] half[OF that(1)] that(2) a by simp_all
  have fail: "cb_state (cb_step ?b3 (Fail t)) = CB_OPEN \<and> cb_opened_at (cb_step ?b3 (Fail t)) = t"
    if "?due \<le> now" "int (length ts) < bc_success_threshold (cb_config b)"
    using probe(1)[OF that] by (simp add: cb_on_failure_def cb_transition_to_def Let_def)
  have closes: "cb_state (cb_step ?b3 (Succeed t)) = CB_CLOSED \<and> cb_failures (cb_step ?b3 (Succeed t)) = 0"
    if "?due \<le> now" "int (length ts) + 1 = bc_success_threshold (cb_config b)"
    using probe[OF that(1)] that(2) by (simp add: cb_on_success_def cb_transition_to_def Let_def)
  show "let b1 = ?b1; due = ?due in
    (now < due \<longrightarrow> cb_allow_request now b1 = (False, b1)) \<and>
    (due \<le> now \<longrightarrow>
       (let b2 = snd (cb_allow_request now b1); b3 = run_ops cb_step b2 (map Succeed ts) in
        fst (cb_allow_request now b1) \<and> cb_state b2 = HALF_OPEN \<and>
        (int (length ts) < bc_success_threshold (cb_config b) \<longrightarrow>
           cb_state b3 = HALF_OPEN \<and> cb_state (cb_step b3 (Fail t)) = CB_OPEN \<and> cb_opened_at (cb_step b3 (Fail t)) = t) \<and>
        (int (length ts) + 1 = bc_success_threshold (cb_config b) \<longrightarrow>
           cb_state (cb_step b3 (Succeed t)) = CB_CLOSED \<and> cb_failures (cb_step b3 (Succeed t)) = 0)))"
    unfolding Let_def using early half(1,2) probe(1) fail closes by blast
qed

text \<open>A breaker opened at 0 for one millisecond, probed once.\<close>

definition sample_breaker :: breaker where
  "sample_breaker = (cb_init ''dhan'' \<lparr>bc_failure_threshold = 1, bc_success_threshold = 1, bc_open_duration_ms = 1\<rparr>)\<lparr>cb_state := CB_OPEN\<rparr>"

lemma breaker_recovers_witness:
  "fst (cb_allow_request 5 (run_ops cb_step sample_breaker [Fail 1, ReadState 2])) = False \<and>
   cb_state (cb_step (snd (cb_allow_request 1000000 (run_ops cb_step sample_breaker [Fail 1, ReadState 2]))) (Succeed 7)) = CB_CLOSED"
  using breaker_recovers[of sample_breaker "[Fail 1, ReadState 2]" 5 "[]" 7]
    breaker_recovers[of sample_breaker "[Fail 1, ReadState 2]" 1000000 "[]" 7]
  by (simp add: sample_breaker_def cb_init_def Let_def)

subsection \<open>Retries\<close>

lemma attempt_cases:
  assumes "attempt_once env s = (r, s1)"
  obtains (blocked) n where "r = Inl (CircuitOpen n)" "rs_calls s1 = rs_calls s"
  | (limited) e where "at_limit env = Some e" "r = Inl e" "rs_calls s1 = rs_calls s"
  | (called) "at_limit env = None" "r = at_answer env" "rs_calls s1 = Suc (rs_calls s)"
  using assms
  by (auto simp: attempt_once_def Let_def split: option.splits if_splits sum.splits prod.splits)

lemma attempt_answer:
  assumes "rs_breaker s = None" "at_limit env = None" "attempt_once env s = (r, s1)"
  shows "r = at_answer env" "rs_breaker s1 = None" "rs_calls s1 = Suc (rs_calls s)"
  using assms by (auto simp: attempt_once_def Let_def split: sum.splits)

lemma log_fields [simp]:
  "rs_calls (log_event ev s) = rs_calls s" "rs_breaker (log_event ev s) = rs_breaker s"
  "rs_calls (breaker_failure now s) = rs_calls s" "rs_breaker (breaker_failure now s) = map_option (cb_on_failure now) (rs_breaker s)"
  by (simp_all add: log_event_def breaker_failure_def)

definition retried :: "retry_config \<Rightarrow> call_exn + 'a \<Rightarrow> bool" where
  "retried c r = (case r of Inl e \<Rightarrow> is_retried c e | Inr _ \<Rightarrow> False)"

definition final_answer :: "call_exn + 'a \<Rightarrow> call_exn + 'a option" where
  "final_answer r = (case r of Inl e \<Rightarrow> Inl e | Inr v \<Rightarrow> Inr (Some v))"

text \<open>The loop ends at once, or it goes on with one attempt less after a retried exception.\<close>

lemma retry_step:
  assumes "attempt_once (envs i) s = (r, s1)"
  obtains (final) res s2 where "retry_loop c bo envs (Suc left) i prev s = (res, s2)" "rs_calls s2 = rs_calls s1"
      "res = final_answer r" "left = 0 \<or> \<not> retried c r"
  | (again) e s2 where "retry_loop c bo envs (Suc left) i prev s = retry_loop c bo envs left (Suc i) (Some e) s2"
      "rs_calls s2 = rs_calls s1" "retried c r" "left \<noteq> 0"
      "rs_breaker s2 = map_option (cb_on_failure (at_done (envs i))) (rs_breaker s1)"
proof (cases r)
  case (Inr v)
  then show thesis using assms by (intro final[of "Inr (Some v)" s1]) (simp_all add: retried_def final_answer_def)
next
  case (Inl e)
  show thesis
  proof (cases "is_retried c e \<and> left \<noteq> 0")
    case True
    then show thesis using assms Inl
      by (intro again[of e "log_event (OnRetry i e) (log_event (Slept (backoff_delay bo i (at_draw (envs i))))
            (breaker_failure (at_done (envs i)) s1))"]) (cases e; simp add: retried_def Let_def)+
  next
    case False
    then show thesis using assms Inl
      by (intro final[of "Inl e" "snd (retry_loop c bo envs (Suc left) i prev s)"])
        (cases e; auto simp: retried_def final_answer_def Let_def)+
  qed
qed

declare retry_loop.simps(2) [simp del]

lemma retry_loop_calls:
  "rs_calls (snd (retry_loop c bo envs left i prev s)) \<le> rs_calls s + left"
proof (induction left arbitrary: i prev s)
  case (Suc left)
  obtain r s1 where a: "attempt_once (envs i) s = (r, s1)" by fastforce
  have le: "rs_calls s1 \<le> Suc (rs_calls s)" by (rule attempt_cases[OF a]) simp_all
  show ?case
  proof (rule retry_step[where envs = envs and i = i and c = c and bo = bo and left = left and prev = prev, OF a])
    fix e s2 assume "retry_loop c bo envs (Suc left) i prev s = retry_loop c bo envs left (Suc i) (Some e) s2"
      "rs_calls s2 = rs_calls s1"
    then show ?thesis using Suc.IH[of "Suc i" "Some e" s2] le by simp
  qed (use le in simp)
qed simp

lemma retry_loop_answer:
  "rs_breaker s = None \<Longrightarrow> \<forall>j. at_limit (envs j) = None \<Longrightarrow>
   \<exists>k \<le> left. (\<forall>j < k. retried c (at_answer (envs (i + j)))) \<and> (k = left \<or> \<not> retried c (at_answer (envs (i + k)))) \<and>
     fst (retry_loop c bo envs (Suc left) i prev s) = final_answer (at_answer (envs (i + k))) \<and>
     rs_calls (snd (retry_loop c bo envs (Suc left) i prev s)) = rs_calls s + k + 1"
proof (induction left arbitrary: i prev s)
  case (0 i prev s)
  obtain r s1 where a: "attempt_once (envs i) s = (r, s1)" by fastforce
  have r: "r = at_answer (envs i)" "rs_calls s1 = Suc (rs_calls s)"
    using attempt_answer[OF 0(1) _ a] 0(2) by simp_all
  show ?case by (rule retry_step[where envs = envs and i = i and c = c and bo = bo and left = 0 and prev = prev, OF a]) (use r in auto)
next
  case (Suc left i prev s)
  obtain r s1 where a: "attempt_once (envs i) s = (r, s1)" by fastforce
  have r: "r = at_answer (envs i)" "rs_calls s1 = Suc (rs_calls s)" "rs_breaker s1 = None"
    using attempt_answer[OF Suc.prems(1) _ a] Suc.prems(2) by simp_all
  show ?case
  proof (rule retry_step[where envs = envs and i = i and c = c and bo = bo and left = "Suc left" and prev = prev, OF a])
    fix res s2 assume "retry_loop c bo envs (Suc (Suc left)) i prev s = (res, s2)" "rs_calls s2 = rs_calls s1"
      "res = final_answer r" "Suc left = 0 \<or> \<not> retried c r"
    then show ?thesis using r by (intro exI[of _ 0]) auto
  next
    fix e s2 assume again: "retry_loop c bo envs (Suc (Suc left)) i prev s = retry_loop c bo envs (Suc left) (Suc i) (Some e) s2"
      "rs_calls s2 = rs_calls s1" "retried c r" "Suc left \<noteq> 0"
      "rs_breaker s2 = map_option (cb_on_failure (at_done (envs i))) (rs_breaker s1)"
    then have "rs_breaker s2 = None" using r(3) by simp
    from Suc.IH[OF this Suc.prems(2), of "Suc i" "Some e"] obtain k where
      "k \<le> left" "\<forall>j < k. retried c (at_answer (envs (Suc i + j)))" "k = left \<or> \<not> retried c (at_answer (envs (Suc i + k)))"
      "fst (retry_loop c bo envs (Suc left) (Suc i) (Some e) s2) = final_answer (at_answer (envs (Suc i + k)))"
      "rs_calls (snd (retry_loop c bo envs (Suc left) (Suc i) (Some e) s2)) = rs_calls s2 + k + 1" by blast
    note k = this
    have "\<forall>j < Suc k. retried c (at_answer (envs (i + j)))"
      using k(2) again(3) r(1) by (auto simp: less_Suc_eq_0_disj)
    then show ?thesis using k again(1,2) r(2) by (intro exI[of _ "Suc k"]) auto
  qed
qed

text \<open>
  The executor calls the operation at most as often as configured, whatever breaker and
  limiter do. Without a breaker, and with a limiter that raises nothing, it calls it until
  the first answer that is not a retried exception or until the attempts are used up, and
  ends with the last answer: its value, or its exception raised again.
\<close>

theorem retry_outcome:
  "rs_calls (snd (execute c bo envs s)) \<le> rs_calls s + nat (rc_max_attempts c) \<and>
   (0 < rc_max_attempts c \<and> rs_breaker s = None \<and> (\<forall>i. at_limit (envs i) = None) \<longrightarrow>
     (\<exists>k < nat (rc_max_attempts c). (\<forall>i < k. retried c (at_answer (envs i))) \<and>
        (k + 1 = nat (rc_max_attempts c) \<or> \<not> retried c (at_answer (envs k))) \<and>
        fst (execute c bo envs s) = final_answer (at_answer (envs k)) \<and>
        rs_calls (snd (execute c bo envs s)) = rs_calls s + k + 1))"
proof (intro conjI impI)
  show "rs_calls (snd (execute c bo envs s)) \<le> rs_calls s + nat (rc_max_attempts c)"
    unfolding execute_def by (rule retry_loop_calls)
next
  assume a: "0 < rc_max_attempts c \<and> rs_breaker s = None \<and> (\<forall>i. at_limit (envs i) = None)"
  then obtain n where n: "nat (rc_max_attempts c) = Suc n" by (cases "nat (rc_max_attempts c)") simp_all
  have h: "rs_breaker s = None" "\<forall>i. at_limit (envs i) = None" using a by blast+
  from retry_loop_answer[OF h, of n c 0 bo None]
  obtain k where "k \<le> n" "\<forall>j < k. retried c (at_answer (envs (0 + j)))" "k = n \<or> \<not> retried c (at_answer (envs (0 + k)))"
      "fst (retry_loop c bo envs (Suc n) 0 None s) = final_answer (at_answer (envs (0 + k)))"
      "rs_calls (snd (retry_loop c bo envs (Suc n) 0 None s)) = rs_calls s + k + 1"
    by blast
  then show "\<exists>k < nat (rc_max_attempts c). (\<forall>i < k. retried c (at_answer (envs i))) \<and>
        (k + 1 = nat (rc_max_attempts c) \<or> \<not> retried c (at_answer (envs k))) \<and>
        fst (execute c bo envs s) = final_answer (at_answer (envs k)) \<and>
        rs_calls (snd (execute c bo envs s)) = rs_calls s + k + 1"
    unfolding execute_def n by (intro exI[of _ k]) auto
qed

text \<open>Two connection errors, then a value; three attempts are configured.\<close>

definition sample_attempt :: "nat \<Rightarrow> int attempt_env" where
  "sample_attempt i = \<lparr>at_check = 0, at_limit = None,
     at_answer = (if i < 2 then Inl (OtherExn ''ConnectionError'' ''reset'') else Inr 7), at_done = 0, at_draw = 0\<rparr>"

definition sample_retry :: retry_config where
  "sample_retry = \<lparr>rc_max_attempts = 3, rc_max_delay_ms = 30000, rc_retryable = DEFAULT_RETRYABLE\<rparr>"

lemma retry_outcome_witness:
  "fst (execute sample_retry \<lparr>bo_base_ms = 100, bo_max_ms = 30000, bo_multiplier = 2, bo_jitter = 1 / 5\<rparr> sample_attempt
     \<lparr>rs_breaker = None, rs_calls = 0, rs_log = []\<rparr>) = Inr (Some 7)"
proof -
  let ?bo = "\<lparr>bo_base_ms = 100, bo_max_ms = 30000, bo_multiplier = 2, bo_jitter = 1 / 5\<rparr>"
  let ?s = "\<lparr>rs_breaker = None, rs_calls = 0, rs_log = []\<rparr>"
  have h: "rc_max_attempts sample_retry = 3" "\<And>i. at_limit (sample_attempt i) = None"
    by (simp_all add: sample_retry_def sample_attempt_def)
  obtain k where k: "k < 3" "\<forall>i < k. retried sample_retry (at_answer (sample_attempt i))"
    "k + 1 = 3 \<or> \<not> retried sample_retry (at_answer (sample_attempt k))"
    "fst (execute sample_retry ?bo sample_attempt ?s) = final_answer (at_answer (sample_attempt k))"
    using retry_outcome[of sample_retry ?bo sample_attempt ?s] h by auto
  have "retried sample_retry (at_answer (sample_attempt k))" if "k < 2"
    using that by (simp add: sample_attempt_def retried_def sample_retry_def DEFAULT_RETRYABLE_def)
  then have "k = 2" using k(1,3) by (cases "k < 2") auto
  then show ?thesis using k(4) by (simp add: sample_attempt_def final_answer_def)
qed

text \<open>The delay of the backoff stays between zero and its maximum, whatever the draw.\<close>

lemma backoff_bounds:
  "0 \<le> bo_max_ms b \<Longrightarrow> 0 \<le> backoff_delay b i draw \<and> backoff_delay b i draw \<le> flt_div (bo_max_ms b) 1000"
  by (simp add: backoff_delay_def flt_div_def Let_def flt_mono divide_right_mono)

end
