(* ===== verification/Rate_Limiter.thy ===== *)
theory Rate_Limiter
  imports Decimals
begin

text \<open>
  The rate limiter of the broker calls (\<open>infrastructure/resilience/rate_limiter.py\<close>). A
  bucket refers to its configuration, which several buckets can share; the configurations
  are kept in a store. A waiting call is a loop over the clock readings it gets, pairs of
  nanoseconds and seconds; the asynchronous variant differs only in how it sleeps.
\<close>

section \<open>Configurations\<close>

record limit_config =
  lc_rate :: rat
  lc_capacity :: int

definition mk_limit_config :: "limit_config \<Rightarrow> limit_config res" where
  "mk_limit_config c =
     (if lc_rate c \<le> 0 then Inl (ValueError ''rate_per_second must be positive'')
      else if lc_capacity c \<le> 0 then Inl (ValueError ''capacity must be positive'')
      else Inr c)"

section \<open>Token bucket\<close>

text \<open>\<open>tb_config\<close> is the place of the configuration in the store.\<close>

record bucket =
  tb_config :: nat
  tb_tokens :: rat
  tb_last_ns :: int
  tb_capacity :: rat
  tb_original_rate :: "rat option"
  tb_reduced_at :: "rat option"

definition tb_init :: "nat \<Rightarrow> limit_config \<Rightarrow> int \<Rightarrow> bucket" where
  "tb_init i c now =
     \<lparr>tb_config = i, tb_tokens = flt (of_int (lc_capacity c)), tb_last_ns = now, tb_capacity = flt (of_int (lc_capacity c)),
      tb_original_rate = None, tb_reduced_at = None\<rparr>"

definition elapsed_sec :: "int \<Rightarrow> int \<Rightarrow> rat" where
  "elapsed_sec now start = flt_div (flt (of_int (now - start))) 1000000000"

definition tb_refill :: "rat \<Rightarrow> int \<Rightarrow> bucket \<Rightarrow> bucket" where
  "tb_refill rate now b =
     (let elapsed = elapsed_sec now (tb_last_ns b) in
      if 0 < elapsed
      then b\<lparr>tb_tokens := min (tb_capacity b) (flt_add (tb_tokens b) (flt_mul elapsed rate)), tb_last_ns := now\<rparr>
      else b)"

definition tb_available :: "rat \<Rightarrow> int \<Rightarrow> bucket \<Rightarrow> rat" where
  "tb_available rate now b =
     min (tb_capacity b) (flt_add (tb_tokens b) (flt_mul (elapsed_sec now (tb_last_ns b)) rate))"

text \<open>One look at the bucket, under its lock.\<close>

definition tb_try :: "rat \<Rightarrow> int \<Rightarrow> int \<Rightarrow> bucket \<Rightarrow> bool \<times> bucket" where
  "tb_try rate n now b =
     (let b1 = tb_refill rate now b in
      if of_int n \<le> tb_tokens b1 then (True, b1\<lparr>tb_tokens := flt_sub (tb_tokens b1) (of_int n)\<rparr>) else (False, b1))"

text \<open>\<open>None\<close>: the readings are used up and the call still waits.\<close>

fun tb_wait :: "rat \<Rightarrow> int \<Rightarrow> rat option \<Rightarrow> (int \<times> rat) list \<Rightarrow> bucket \<Rightarrow> bool option \<times> bucket" where
  "tb_wait rate n deadline [] b = (None, b)"
| "tb_wait rate n deadline ((ns, now) # rs) b =
     (case tb_try rate n ns b of
        (True, b1) \<Rightarrow> (Some True, b1)
      | (False, b1) \<Rightarrow>
          if (case deadline of None \<Rightarrow> False | Some d \<Rightarrow> d \<le> now) then (Some False, b1)
          else tb_wait rate n deadline rs b1)"

definition tb_acquire :: "rat \<Rightarrow> int \<Rightarrow> rat option \<Rightarrow> rat \<Rightarrow> (int \<times> rat) list \<Rightarrow> bucket \<Rightarrow> bool option \<times> bucket" where
  "tb_acquire rate n timeout start rs b =
     (if tb_capacity b < of_int n then (Some False, b)
      else tb_wait rate n (map_option (flt_add start) timeout) rs b)"

definition tb_reset :: "limit_config \<Rightarrow> int \<Rightarrow> bucket \<Rightarrow> bucket" where
  "tb_reset c now b = b\<lparr>tb_tokens := flt (of_int (lc_capacity c)), tb_last_ns := now\<rparr>"

section \<open>Buckets by category\<close>

record limiter =
  ml_configs :: "limit_config list"
  ml_buckets :: "(string, bucket) dict"
  ml_categories :: "string list"

text \<open>Categories with the place of their configuration.\<close>

definition ml_init :: "limit_config list \<Rightarrow> (string, nat) dict \<Rightarrow> int \<Rightarrow> limiter" where
  "ml_init configs cats now =
     \<lparr>ml_configs = configs,
      ml_buckets = foldl (\<lambda>d (cat, i). dict_put d cat (tb_init i (configs ! i) now)) [] cats,
      ml_categories = dict_keys cats\<rparr>"

definition ml_resolve :: "limiter \<Rightarrow> string \<Rightarrow> string res" where
  "ml_resolve l cat =
     (if dict_get (ml_buckets l) cat \<noteq> None then Inr cat
      else if dict_get (ml_buckets l) ''admin'' \<noteq> None then Inr ''admin''
      else case dict_keys (ml_buckets l) of
             name # _ \<Rightarrow> Inr name
           | [] \<Rightarrow> Inl (ValueError (''Unknown category: '' @ cat)))"

definition ml_rate :: "limiter \<Rightarrow> bucket \<Rightarrow> rat" where
  "ml_rate l b = lc_rate (ml_configs l ! tb_config b)"

definition ml_acquire ::
  "limiter \<Rightarrow> string \<Rightarrow> int \<Rightarrow> rat option \<Rightarrow> rat \<Rightarrow> (int \<times> rat) list \<Rightarrow> bool option res \<times> limiter" where
  "ml_acquire l cat n timeout start rs =
     (case ml_resolve l cat of
        Inl e \<Rightarrow> (Inl e, l)
      | Inr name \<Rightarrow>
          (case dict_get (ml_buckets l) name of
             None \<Rightarrow> (Inr None, l)
           | Some b \<Rightarrow>
               (let (r, b1) = tb_acquire (ml_rate l b) n timeout start rs b
                in (Inr r, l\<lparr>ml_buckets := dict_put (ml_buckets l) name b1\<rparr>))))"

definition ml_get_bucket :: "limiter \<Rightarrow> string \<Rightarrow> bucket res" where
  "ml_get_bucket l cat =
     (case dict_get (ml_buckets l) cat of Some b \<Rightarrow> Inr b | None \<Rightarrow> Inl (ValueError (''Unknown category: '' @ cat)))"

text \<open>The rate setter of a bucket: it writes the configuration the bucket refers to.\<close>

definition ml_set_rate :: "limiter \<Rightarrow> string \<Rightarrow> bucket \<Rightarrow> rat \<Rightarrow> limiter" where
  "ml_set_rate l cat b value =
     l\<lparr>ml_configs := (ml_configs l)[tb_config b := (ml_configs l ! tb_config b)\<lparr>lc_rate := value\<rparr>],
       ml_buckets := dict_put (ml_buckets l) cat
         (b\<lparr>tb_original_rate := (case tb_original_rate b of None \<Rightarrow> Some (ml_rate l b) | r \<Rightarrow> r)\<rparr>)\<rparr>"

definition ml_increase_rate :: "limiter \<Rightarrow> string \<Rightarrow> rat \<Rightarrow> exn option \<times> limiter" where
  "ml_increase_rate l cat factor =
     (case ml_get_bucket l cat of
        Inl e \<Rightarrow> (Some e, l)
      | Inr b \<Rightarrow> (None, ml_set_rate l cat b (flt_mul (ml_rate l b) factor)))"

definition ml_update :: "(bucket \<Rightarrow> bucket) \<Rightarrow> string \<Rightarrow> limiter \<Rightarrow> limiter" where
  "ml_update f cat l =
     (case dict_get (ml_buckets l) cat of
        None \<Rightarrow> l | Some b \<Rightarrow> l\<lparr>ml_buckets := dict_put (ml_buckets l) cat (f b)\<rparr>)"

definition ml_reduce_rate :: "limiter \<Rightarrow> string \<Rightarrow> rat \<Rightarrow> rat \<Rightarrow> exn option \<times> limiter" where
  "ml_reduce_rate l cat factor now =
     (case ml_get_bucket l cat of
        Inl e \<Rightarrow> (Some e, l)
      | Inr b \<Rightarrow>
          (None, ml_update (\<lambda>b. b\<lparr>tb_reduced_at := Some now\<rparr>) cat (ml_set_rate l cat b (flt_mul (ml_rate l b) factor))))"

definition ml_maybe_recover_rate :: "limiter \<Rightarrow> string \<Rightarrow> rat \<Rightarrow> rat \<Rightarrow> exn option \<times> limiter" where
  "ml_maybe_recover_rate l cat recovery now =
     (case ml_get_bucket l cat of
        Inl e \<Rightarrow> (Some e, l)
      | Inr b \<Rightarrow>
          (case (tb_reduced_at b, tb_original_rate b) of
             (Some r, Some original) \<Rightarrow>
               if recovery < flt_sub now r
               then (None, ml_update (\<lambda>b. b\<lparr>tb_reduced_at := None, tb_original_rate := None\<rparr>) cat (ml_set_rate l cat b original))
               else (None, l)
           | _ \<Rightarrow> (None, l)))"

section \<open>Construction from broker profiles\<close>

text \<open>A profile: the endpoint class, the sustained rate and the burst, if any.\<close>

type_synonym rate_profile = "string \<times> rat \<times> rat option"

definition profile_config :: "rate_profile \<Rightarrow> limit_config res" where
  "profile_config p =
     (let rate = flt (fst (snd p));
          capacity = (case snd (snd p) of
            Some x \<Rightarrow> if x \<noteq> 0 then trunc_int x else trunc_int (flt_mul rate 2)
          | None \<Rightarrow> trunc_int (flt_mul rate 2))
      in mk_limit_config \<lparr>lc_rate = rate, lc_capacity = max capacity 1\<rparr>)"

definition DEFAULT_BUCKET_CAPACITY :: int where
  "DEFAULT_BUCKET_CAPACITY = 30"

definition admin_config :: limit_config where
  "admin_config = \<lparr>lc_rate = 10, lc_capacity = DEFAULT_BUCKET_CAPACITY\<rparr>"

fun profile_configs :: "rate_profile list \<Rightarrow> limit_config list \<Rightarrow> (string, nat) dict \<Rightarrow> (limit_config list \<times> (string, nat) dict) res" where
  "profile_configs [] cs cats = Inr (cs, cats)"
| "profile_configs (p # ps) cs cats =
     (case profile_config p of
        Inl e \<Rightarrow> Inl e
      | Inr c \<Rightarrow> profile_configs ps (cs @ [c]) (dict_put cats (fst p) (length cs)))"

text \<open>An alias shares the configuration of the category it stands for.\<close>

definition add_alias :: "string \<Rightarrow> string \<Rightarrow> (string, nat) dict \<Rightarrow> (string, nat) dict" where
  "add_alias alias cat cats =
     (if dict_get cats alias = None then (case dict_get cats cat of Some i \<Rightarrow> dict_put cats alias i | None \<Rightarrow> cats) else cats)"

definition create_rate_limiter :: "rate_profile list option \<Rightarrow> int \<Rightarrow> limiter res" where
  "create_rate_limiter profiles now =
     (case profiles of
        None \<Rightarrow> Inr (ml_init [admin_config] [(''admin'', 0)] now)
      | Some [] \<Rightarrow> Inr (ml_init [admin_config] [(''admin'', 0)] now)
      | Some ps \<Rightarrow>
          (case profile_configs ps [] [] of
             Inl e \<Rightarrow> Inl e
           | Inr (cs, cats) \<Rightarrow>
               (let (cs1, cats1) = (if dict_get cats ''admin'' = None
                      then (cs @ [admin_config], dict_put cats ''admin'' (length cs)) else (cs, cats));
                    cats2 = add_alias ''data'' ''historical'' (add_alias ''market_data'' ''quotes'' cats1)
                in Inr (ml_init cs1 cats2 now))))"

section \<open>Buckets by endpoint\<close>

record endpoint_limiter =
  el_multi :: limiter
  el_rate :: rat
  el_capacity :: int

definition el_init :: "rat \<Rightarrow> int \<Rightarrow> int \<Rightarrow> endpoint_limiter res" where
  "el_init rate capacity now =
     (case mk_limit_config \<lparr>lc_rate = rate, lc_capacity = capacity\<rparr> of
        Inl e \<Rightarrow> Inl e
      | Inr c \<Rightarrow> Inr \<lparr>el_multi = ml_init [c] [(''_default'', 0)] now, el_rate = rate, el_capacity = capacity\<rparr>)"

text \<open>A new endpoint gets a configuration of its own.\<close>

definition el_register :: "endpoint_limiter \<Rightarrow> string \<Rightarrow> int \<Rightarrow> exn option \<times> endpoint_limiter" where
  "el_register e endpoint now =
     (let l = el_multi e in
      if dict_get (ml_buckets l) endpoint \<noteq> None then (None, e)
      else case mk_limit_config \<lparr>lc_rate = el_rate e, lc_capacity = el_capacity e\<rparr> of
             Inl ex \<Rightarrow> (Some ex, e)
           | Inr c \<Rightarrow>
               (None, e\<lparr>el_multi := l\<lparr>ml_configs := ml_configs l @ [c],
                  ml_buckets := dict_put (ml_buckets l) endpoint (tb_init (length (ml_configs l)) c now)\<rparr>\<rparr>))"

text \<open>The answer of the bucket, also a timeout, is thrown away: \<open>Inr True\<close> says that the call returned.\<close>

definition el_acquire ::
  "endpoint_limiter \<Rightarrow> string \<Rightarrow> rat option \<Rightarrow> int \<Rightarrow> rat \<Rightarrow> (int \<times> rat) list \<Rightarrow> bool res \<times> endpoint_limiter" where
  "el_acquire e endpoint timeout now start rs =
     (case el_register e endpoint now of
        (Some ex, e1) \<Rightarrow> (Inl ex, e1)
      | (None, e1) \<Rightarrow>
          (case ml_acquire (el_multi e1) endpoint 1 timeout start rs of
             (Inl ex, l) \<Rightarrow> (Inl ex, e1\<lparr>el_multi := l\<rparr>)
           | (Inr r, l) \<Rightarrow> (Inr (r \<noteq> None), e1\<lparr>el_multi := l\<rparr>)))"

definition el_set_rate :: "endpoint_limiter \<Rightarrow> rat \<Rightarrow> endpoint_limiter" where
  "el_set_rate e value =
     e\<lparr>el_rate := value,
       el_multi := foldl (\<lambda>l (cat, b). ml_set_rate l cat b value) (el_multi e) (ml_buckets (el_multi e))\<rparr>"

section \<open>Facts\<close>

definition ulp :: rat where
  "ulp = 1 / 2 ^ 53"

lemma ulp_pos [simp]: "0 < ulp" "0 \<le> ulp"
  by (simp_all add: ulp_def)

lemma flt_error: "\<bar>flt x - x\<bar> \<le> \<bar>x\<bar> * ulp"
proof -
  have "power_int (2 :: rat) (1 - 53) = 1 / 2 ^ 52" by (simp add: power_int_def field_simps)
  then show ?thesis using flt_format.round_error[of x] by (simp add: flt_def ulp_def)
qed

lemma flt_upper: "0 \<le> x \<Longrightarrow> flt x \<le> x * (1 + ulp)"
  using flt_error[of x] by (simp add: algebra_simps abs_if split: if_splits)

lemma flt_upper_cap:
  assumes "0 \<le> x" "x \<le> c"
  shows "flt x \<le> x + c * ulp"
proof -
  have "flt x \<le> x + x * ulp" using flt_upper[OF assms(1)] by (simp add: distrib_left)
  also have "x * ulp \<le> c * ulp" using assms(2) by (rule mult_right_mono) simp
  finally show ?thesis by simp
qed

definition tb_wf :: "bucket \<Rightarrow> bool" where
  "tb_wf b \<longleftrightarrow> 0 \<le> tb_tokens b \<and> tb_tokens b \<le> tb_capacity b \<and> flt (tb_tokens b) = tb_tokens b \<and> flt (tb_capacity b) = tb_capacity b"

lemma tb_wf_init [inv_intros]: "0 \<le> lc_capacity c \<Longrightarrow> tb_wf (tb_init i c now)"
  by (simp add: tb_wf_def tb_init_def)

text \<open>What a refill credits, rounding included.\<close>

definition credit :: "rat \<Rightarrow> int \<Rightarrow> rat" where
  "credit rate ns = rate * of_int ns / 1000000000 * (1 + ulp) ^ 3"

lemma credit_add: "credit rate (m + n) = credit rate m + credit rate n"
  by (simp add: credit_def algebra_simps add_divide_distrib)

lemma elapsed_upper:
  assumes "start \<le> now"
  shows "elapsed_sec now start \<le> of_int (now - start) / 1000000000 * (1 + ulp) ^ 2"
proof -
  let ?d = "of_int (now - start) :: rat"
  have d: "0 \<le> ?d" using assms by simp
  have "flt (?d) / 1000000000 \<le> ?d * (1 + ulp) / 1000000000"
    using flt_upper[OF d] by (simp add: divide_right_mono)
  then have "flt (flt ?d / 1000000000) \<le> flt (?d * (1 + ulp) / 1000000000)" by (rule flt_mono)
  also have "\<dots> \<le> ?d * (1 + ulp) / 1000000000 * (1 + ulp)" using d by (intro flt_upper) simp
  finally show ?thesis by (simp add: elapsed_sec_def flt_div_def power2_eq_square)
qed

lemma refill_credit:
  assumes "0 \<le> rate" "0 < elapsed_sec now start"
  shows "start < now" "flt_mul (elapsed_sec now start) rate \<le> credit rate (now - start)"
proof -
  show lt: "start < now" using assms(2) by (simp add: elapsed_sec_def flt_div_def zero_less_divide_iff)
  let ?e = "elapsed_sec now start" and ?d = "of_int (now - start) / 1000000000 :: rat"
  have "?e * rate \<le> ?d * (1 + ulp) ^ 2 * rate" using elapsed_upper[of start now] lt assms(1) by (intro mult_right_mono) simp_all
  then have "flt (?e * rate) \<le> flt (?d * (1 + ulp) ^ 2 * rate)" by (rule flt_mono)
  also have "\<dots> \<le> ?d * (1 + ulp) ^ 2 * rate * (1 + ulp)" using lt assms(1) by (intro flt_upper) simp
  finally show "flt_mul ?e rate \<le> credit rate (now - start)"
    by (simp add: flt_mul_def credit_def power3_eq_cube power2_eq_square mult_ac)
qed

lemma refill_bound:
  assumes "tb_wf b" "0 \<le> rate" "b1 = tb_refill rate now b"
  shows "tb_wf b1" "tb_capacity b1 = tb_capacity b" "tb_last_ns b \<le> tb_last_ns b1"
    "tb_tokens b1 \<le> tb_tokens b + credit rate (tb_last_ns b1 - tb_last_ns b) + tb_capacity b * ulp"
proof -
  let ?e = "elapsed_sec now (tb_last_ns b)"
  have w: "0 \<le> tb_tokens b" "tb_tokens b \<le> tb_capacity b" "flt (tb_capacity b) = tb_capacity b" "flt (tb_tokens b) = tb_tokens b"
    using assms(1) by (simp_all add: tb_wf_def)
  have "tb_wf b1 \<and> tb_capacity b1 = tb_capacity b \<and> tb_last_ns b \<le> tb_last_ns b1 \<and>
    tb_tokens b1 \<le> tb_tokens b + credit rate (tb_last_ns b1 - tb_last_ns b) + tb_capacity b * ulp"
  proof (cases "0 < ?e")
    case False
    then show ?thesis using assms w by (simp add: tb_refill_def credit_def)
  next
    case True
    note c = refill_credit[OF assms(2) True]
    let ?s = "tb_tokens b + flt_mul ?e rate"
    have s: "0 \<le> ?s" using w(1) assms(2) True by (simp add: flt_mul_def)
    have b1: "b1 = b\<lparr>tb_tokens := min (tb_capacity b) (flt ?s), tb_last_ns := now\<rparr>"
      using True assms(3) by (simp add: tb_refill_def flt_add_def)
    have "min (tb_capacity b) (flt ?s) \<le> ?s + tb_capacity b * ulp"
    proof (cases "?s \<le> tb_capacity b")
      case True
      then show ?thesis using flt_upper_cap[OF s True] by simp
    next
      case False
      then show ?thesis using w by (simp add: add_increasing2)
    qed
    then show ?thesis using b1 c s w by (auto simp: tb_wf_def min_def)
  qed
  then show "tb_wf b1" "tb_capacity b1 = tb_capacity b" "tb_last_ns b \<le> tb_last_ns b1"
    "tb_tokens b1 \<le> tb_tokens b + credit rate (tb_last_ns b1 - tb_last_ns b) + tb_capacity b * ulp" by simp_all
qed

text \<open>One look at the bucket: what it hands out and what is left are paid for.\<close>

lemma try_bound:
  assumes "tb_wf b" "0 \<le> rate" "0 \<le> n" "tb_try rate n now b = (ok, b1)"
  shows "tb_wf b1 \<and> tb_capacity b1 = tb_capacity b \<and> tb_last_ns b \<le> tb_last_ns b1 \<and>
    (if ok then of_int n else 0) + tb_tokens b1 \<le>
      tb_tokens b + credit rate (tb_last_ns b1 - tb_last_ns b) + 2 * (tb_capacity b * ulp)"
proof -
  let ?r = "tb_refill rate now b"
  note r = refill_bound[OF assms(1,2) refl[of ?r]]
  have rw: "0 \<le> tb_tokens ?r" "tb_tokens ?r \<le> tb_capacity b" "flt (tb_tokens ?r) = tb_tokens ?r" "0 \<le> tb_capacity b * ulp"
    using r(1,2) assms(1) by (simp_all add: tb_wf_def)
  have paid: "tb_tokens ?r \<le> tb_tokens b + credit rate (tb_last_ns ?r - tb_last_ns b) + 2 * (tb_capacity b * ulp)"
    using r(4) rw(4) by linarith
  show ?thesis
  proof (cases "of_int n \<le> tb_tokens ?r")
    case False
    then have "b1 = ?r \<and> \<not> ok" using assms(4) by (simp add: tb_try_def Let_def)
    then show ?thesis using r(1-3) paid by simp
  next
    case True
    then have b1: "b1 = ?r\<lparr>tb_tokens := flt (tb_tokens ?r - of_int n)\<rparr>" "ok"
      using assms(4) by (simp_all add: tb_try_def Let_def flt_sub_def)
    have "flt (tb_tokens ?r - of_int n) \<le> tb_tokens ?r - of_int n + tb_capacity b * ulp"
      using True rw(2) assms(3) by (intro flt_upper_cap) simp_all
    moreover have "flt (tb_tokens ?r - of_int n) \<le> tb_tokens ?r"
      using rw(3) assms(3) by (intro flt_le) simp_all
    ultimately have "of_int n + flt (tb_tokens ?r - of_int n) \<le>
        tb_tokens b + credit rate (tb_last_ns ?r - tb_last_ns b) + 2 * (tb_capacity b * ulp)"
      "flt (tb_tokens ?r - of_int n) \<le> tb_tokens ?r" using r(4) by linarith+
    then show ?thesis using b1 r(1-3) rw True by (simp add: tb_wf_def)
  qed
qed

fun handed_out :: "rat \<Rightarrow> bucket \<Rightarrow> (int \<times> int) list \<Rightarrow> int" where
  "handed_out rate b [] = 0"
| "handed_out rate b ((n, now) # xs) =
     (let (ok, b1) = tb_try rate n now b in (if ok then n else 0) + handed_out rate b1 xs)"

definition tb_look :: "rat \<Rightarrow> bucket \<Rightarrow> int \<times> int \<Rightarrow> bucket" where
  "tb_look rate b x = snd (tb_try rate (fst x) (snd x) b)"

lemma handed_out_bound:
  "tb_wf b \<Longrightarrow> 0 \<le> rate \<Longrightarrow> \<forall>(n, now) \<in> set xs. 0 \<le> n \<Longrightarrow>
   of_int (handed_out rate b xs) \<le> tb_tokens b + credit rate (tb_last_ns (run_ops (tb_look rate) b xs) - tb_last_ns b)
     + 2 * of_nat (length xs) * (tb_capacity b * ulp)"
proof (induction xs arbitrary: b)
  case Nil
  then show ?case by (simp add: credit_def tb_wf_def)
next
  case (Cons x xs)
  obtain n now where x: "x = (n, now)" by (cases x)
  obtain ok b1 where t: "tb_try rate n now b = (ok, b1)" by fastforce
  have n: "0 \<le> n" using Cons.prems(3) x by simp
  note b = try_bound[OF Cons.prems(1,2) n t]
  let ?e = "tb_last_ns (run_ops (tb_look rate) b1 xs)"
  have "of_int (handed_out rate b1 xs) \<le> tb_tokens b1 + credit rate (?e - tb_last_ns b1) + 2 * of_nat (length xs) * (tb_capacity b * ulp)"
    using Cons.IH[of b1] b Cons.prems(2,3) by simp
  moreover have "credit rate (?e - tb_last_ns b) = credit rate (?e - tb_last_ns b1) + credit rate (tb_last_ns b1 - tb_last_ns b)"
    using credit_add[of rate "?e - tb_last_ns b1" "tb_last_ns b1 - tb_last_ns b"] by simp
  moreover have "(if ok then of_int n else 0) + tb_tokens b1 \<le> tb_tokens b + credit rate (tb_last_ns b1 - tb_last_ns b) + 2 * (tb_capacity b * ulp)"
    using b by blast
  moreover have "rat_of_int (handed_out rate b (x # xs)) = (if ok then of_int n else 0) + of_int (handed_out rate b1 xs)" by (simp add: x t)
  moreover have "2 * of_nat (length (x # xs)) * (tb_capacity b * ulp) = 2 * (tb_capacity b * ulp) + 2 * of_nat (length xs) * (tb_capacity b * ulp)"
    by (simp add: algebra_simps)
  ultimately have "rat_of_int (handed_out rate b (x # xs)) \<le> tb_tokens b + credit rate (?e - tb_last_ns b)
      + 2 * of_nat (length (x # xs)) * (tb_capacity b * ulp)" by linarith
  moreover have "run_ops (tb_look rate) b (x # xs) = run_ops (tb_look rate) b1 xs" by (simp add: x tb_look_def t)
  ultimately show ?case by (simp only:)
qed

text \<open>A waiting call is a sequence of looks; its readings are used up to the first answer.\<close>

lemma wait_looks:
  "\<exists>m \<le> length rs. snd (tb_wait rate n deadline rs b) = run_ops (tb_look rate) b (map (\<lambda>r. (n, fst r)) (take m rs)) \<and>
     handed_out rate b (map (\<lambda>r. (n, fst r)) (take m rs)) = (if fst (tb_wait rate n deadline rs b) = Some True then n else 0)"
proof (induction rs arbitrary: b)
  case (Cons r rs)
  obtain ns now where r: "r = (ns, now)" by (cases r)
  obtain ok b1 where t: "tb_try rate n ns b = (ok, b1)" by fastforce
  have l: "tb_look rate b (n, ns) = b1" by (simp add: tb_look_def t)
  show ?case
  proof (cases "ok \<or> (case deadline of None \<Rightarrow> False | Some d \<Rightarrow> d \<le> now)")
    case True
    then show ?thesis by (intro exI[of _ 1]) (auto simp: r t l split: option.splits)
  next
    case False
    obtain m where "m \<le> length rs" "snd (tb_wait rate n deadline rs b1) = run_ops (tb_look rate) b1 (map (\<lambda>r. (n, fst r)) (take m rs))"
      "handed_out rate b1 (map (\<lambda>r. (n, fst r)) (take m rs)) = (if fst (tb_wait rate n deadline rs b1) = Some True then n else 0)"
      using Cons.IH by blast
    then show ?thesis using False by (intro exI[of _ "Suc m"]) (auto simp: r t l split: option.splits)
  qed
qed simp

lemma set_rate_simps [simp]:
  "ml_configs (ml_set_rate l cat b v) = (ml_configs l)[tb_config b := (ml_configs l ! tb_config b)\<lparr>lc_rate := v\<rparr>]"
  "dict_get (ml_buckets (ml_set_rate l cat b v)) k =
     (if k = cat then Some (b\<lparr>tb_original_rate := (case tb_original_rate b of None \<Rightarrow> Some (ml_rate l b) | r \<Rightarrow> r)\<rparr>)
      else dict_get (ml_buckets l) k)"
  by (simp_all add: ml_set_rate_def)

lemma ml_update_simps [simp]:
  "ml_configs (ml_update f cat l) = ml_configs l"
  "dict_get (ml_buckets (ml_update f cat l)) k = (if k = cat then map_option f (dict_get (ml_buckets l) k) else dict_get (ml_buckets l) k)"
  by (auto simp: ml_update_def split: option.split)

section \<open>Properties\<close>

text \<open>
  C38: a bucket hands out no more than its capacity and what its rate yields in the time that
  passes, over any sequence of looks at it, from any threads and with any clock. The floats
  add at most three relative roundings of the yield and two of the capacity for every look.
\<close>

theorem bucket_rate_bound:
  "0 < lc_capacity c \<and> 0 \<le> rate \<and> (\<forall>(n, now) \<in> set xs. 0 \<le> n) \<longrightarrow>
   (let b = tb_init i c start; window = tb_last_ns (run_ops (tb_look rate) b xs) - start; capacity = flt (of_int (lc_capacity c)) in
    0 \<le> window \<and>
    of_int (handed_out rate b xs) \<le>
      capacity + rate * of_int window / 1000000000 * (1 + 1 / 2 ^ 53) ^ 3 + of_nat (length xs) * capacity / 2 ^ 52)"
proof (intro impI)
  assume a: "0 < lc_capacity c \<and> 0 \<le> rate \<and> (\<forall>(n, now) \<in> set xs. 0 \<le> n)"
  let ?b = "tb_init i c start"
  have w: "tb_wf ?b" using a by (intro inv_intros) simp
  have f: "tb_tokens ?b = flt (of_int (lc_capacity c))" "tb_capacity ?b = flt (of_int (lc_capacity c))" "tb_last_ns ?b = start"
    by (simp_all add: tb_init_def)
  have "tb_wf b \<Longrightarrow> \<forall>(n, now) \<in> set xs. 0 \<le> n \<Longrightarrow> tb_last_ns b \<le> tb_last_ns (run_ops (tb_look rate) b xs)" for b
  proof (induction xs arbitrary: b)
    case (Cons x xs)
    have "tb_wf (tb_look rate b x) \<and> tb_last_ns b \<le> tb_last_ns (tb_look rate b x)"
      using try_bound[OF Cons.prems(1), of rate "fst x" "snd x"] Cons.prems(2) a
      by (cases "tb_try rate (fst x) (snd x) b") (auto simp: tb_look_def)
    then show ?case using Cons.IH[of "tb_look rate b x"] Cons.prems(2) by (simp add: order_trans)
  qed simp
  from this[OF w] have "0 \<le> tb_last_ns (run_ops (tb_look rate) ?b xs) - start" using a f by simp
  moreover have "2 * of_nat (length xs) * (flt (of_int (lc_capacity c)) * ulp) = of_nat (length xs) * flt (of_int (lc_capacity c)) / 2 ^ 52"
    by (simp add: ulp_def)
  ultimately show "let b = ?b; window = tb_last_ns (run_ops (tb_look rate) b xs) - start; capacity = flt (of_int (lc_capacity c)) in
    0 \<le> window \<and>
    of_int (handed_out rate b xs) \<le>
      capacity + rate * of_int window / 1000000000 * (1 + 1 / 2 ^ 53) ^ 3 + of_nat (length xs) * capacity / 2 ^ 52"
    using handed_out_bound[OF w, of rate xs] a unfolding f Let_def by (simp add: credit_def ulp_def)
qed

lemma bucket_rate_bound_witness:
  "of_int (handed_out 2 (tb_init 0 \<lparr>lc_rate = 2, lc_capacity = 3\<rparr> 0) [(2, 0), (1, 0), (1, 500000000)]) \<le>
     (3 + 2 * of_int (tb_last_ns (run_ops (tb_look 2) (tb_init 0 \<lparr>lc_rate = 2, lc_capacity = 3\<rparr> 0) [(2, 0), (1, 0), (1, 500000000)]))
       / 1000000000 * (1 + 1 / 2 ^ 53) ^ 3 + 9 / 2 ^ 52 :: rat)"
proof -
  have "flt 3 = 3" using flt_format.round_of_int[of 3] by (simp add: flt_def)
  then show ?thesis
    using bucket_rate_bound[of "\<lparr>lc_rate = 2, lc_capacity = 3\<rparr>" 2 "[(2, 0), (1, 0), (1, 500000000)]" 0 0]
    by (simp add: Let_def)
qed

text \<open>
  Waiting for tokens ends. A request above the capacity is refused at once. With a
  timeout the call has returned by the first reading at or after the deadline; with or
  without, what it takes it has found in the bucket: a call that answers true hands out
  exactly what was asked, any other call nothing.
\<close>

theorem acquire_returns:
  "(tb_capacity b < of_int n \<longrightarrow> tb_acquire rate n timeout start rs b = (Some False, b)) \<and>
   (timeout = Some d \<and> (\<exists>(ns, now) \<in> set rs. flt_add start d \<le> now) \<longrightarrow> fst (tb_acquire rate n timeout start rs b) \<noteq> None) \<and>
   (\<exists>looks. snd (tb_acquire rate n timeout start rs b) = run_ops (tb_look rate) b looks \<and> length looks \<le> length rs \<and>
      handed_out rate b looks = (if fst (tb_acquire rate n timeout start rs b) = Some True then n else 0))"
proof (intro conjI impI)
  show "tb_capacity b < of_int n \<Longrightarrow> tb_acquire rate n timeout start rs b = (Some False, b)"
    by (simp add: tb_acquire_def)
next
  assume t: "timeout = Some d \<and> (\<exists>(ns, now) \<in> set rs. flt_add start d \<le> now)"
  have "\<exists>(ns, now) \<in> set rs. x \<le> now \<Longrightarrow> fst (tb_wait rate n (Some x) rs b) \<noteq> None" for x
    by (induction rs arbitrary: b) (auto split: prod.splits bool.splits)
  then show "fst (tb_acquire rate n timeout start rs b) \<noteq> None" using t by (cases "tb_capacity b < of_int n") (auto simp: tb_acquire_def)
next
  show "\<exists>looks. snd (tb_acquire rate n timeout start rs b) = run_ops (tb_look rate) b looks \<and> length looks \<le> length rs \<and>
      handed_out rate b looks = (if fst (tb_acquire rate n timeout start rs b) = Some True then n else 0)"
  proof (cases "tb_capacity b < of_int n")
    case True
    then show ?thesis by (intro exI[of _ "[]"]) (simp add: tb_acquire_def)
  next
    case False
    obtain m where "m \<le> length rs"
      "snd (tb_wait rate n (map_option (flt_add start) timeout) rs b) = run_ops (tb_look rate) b (map (\<lambda>r. (n, fst r)) (take m rs))"
      "handed_out rate b (map (\<lambda>r. (n, fst r)) (take m rs)) =
         (if fst (tb_wait rate n (map_option (flt_add start) timeout) rs b) = Some True then n else 0)"
      using wait_looks by blast
    then show ?thesis using False by (intro exI[of _ "map (\<lambda>r. (n, fst r)) (take m rs)"]) (simp add: tb_acquire_def)
  qed
qed

lemma acquire_returns_witness:
  "fst (tb_acquire 1 1 (Some 2) 0 [(0, 1), (0, 3)] (tb_init 0 \<lparr>lc_rate = 1, lc_capacity = 1\<rparr> 0)) \<noteq> None"
proof -
  have "flt_add 0 2 \<le> 3" using flt_format.round_of_int[of 2] by (simp add: flt_add_def flt_def)
  then show ?thesis
    using acquire_returns[of "tb_init 0 \<lparr>lc_rate = 1, lc_capacity = 1\<rparr> 0" 1 1 "Some 2" 0 "[(0, 1), (0, 3)]" 2] by simp
qed

text \<open>
  Categories that share a configuration, as the aliases made from broker profiles do,
  also share its rate. When both are slowed down after each other and both recover, the
  second recovery puts back the rate the second one started from: the shared rate stays
  reduced, and neither bucket remembers that it ever was higher.
\<close>

theorem shared_rate_stays_reduced:
  "dict_get (ml_buckets l) a = Some ba \<and> dict_get (ml_buckets l) b = Some bb \<and> a \<noteq> b \<and>
   tb_config ba = tb_config bb \<and> tb_config ba < length (ml_configs l) \<and>
   tb_original_rate ba = None \<and> tb_original_rate bb = None \<and>
   recovery < flt_sub t3 t1 \<and> recovery < flt_sub t4 t2 \<longrightarrow>
   (let l1 = snd (ml_reduce_rate l a f t1); l2 = snd (ml_reduce_rate l1 b f t2);
        l3 = snd (ml_maybe_recover_rate l2 a recovery t3); l4 = snd (ml_maybe_recover_rate l3 b recovery t4) in
    lc_rate (ml_configs l3 ! tb_config ba) = ml_rate l ba \<and>
    lc_rate (ml_configs l4 ! tb_config ba) = flt_mul (ml_rate l ba) f \<and>
    (\<forall>cat \<in> {a, b}. map_option tb_original_rate (dict_get (ml_buckets l4) cat) = Some None))"
  by (auto simp: ml_reduce_rate_def ml_maybe_recover_rate_def ml_get_bucket_def ml_rate_def Let_def)

lemma shared_rate_stays_reduced_witness:
  "let l = ml_init [\<lparr>lc_rate = 8, lc_capacity = 8\<rparr>] [(''quotes'', 0), (''market_data'', 0)] 0;
       l1 = snd (ml_reduce_rate l ''quotes'' (1 / 2) 0); l2 = snd (ml_reduce_rate l1 ''market_data'' (1 / 2) 0);
       l3 = snd (ml_maybe_recover_rate l2 ''quotes'' 300 400); l4 = snd (ml_maybe_recover_rate l3 ''market_data'' 300 400)
   in lc_rate (ml_configs l4 ! 0) = flt_mul 8 (1 / 2)"
proof -
  let ?l = "ml_init [\<lparr>lc_rate = 8, lc_capacity = 8\<rparr>] [(''quotes'', 0), (''market_data'', 0)] 0"
  let ?b = "tb_init 0 \<lparr>lc_rate = 8, lc_capacity = 8\<rparr> 0"
  have "dict_get (ml_buckets ?l) ''quotes'' = Some ?b" "dict_get (ml_buckets ?l) ''market_data'' = Some ?b"
    "tb_config ?b = 0" "tb_original_rate ?b = None" "ml_rate ?l ?b = 8" "length (ml_configs ?l) = 1"
    by (simp_all add: ml_init_def tb_init_def ml_rate_def)
  moreover have "flt_sub 400 0 = 400" using flt_format.round_of_int[of 400] by (simp add: flt_sub_def flt_def)
  ultimately show ?thesis
    using shared_rate_stays_reduced[of ?l "''quotes''" ?b "''market_data''" ?b 300 400 0 400 0 "1 / 2"] by (simp add: Let_def)
qed

end
