(* ===== verification/Event_Bus.thy ===== *)
theory Event_Bus
  imports Prelude
begin

text \<open>
  The in-process event bus (\<open>infrastructure/event_bus/\<close>): the idempotency guard, the
  dead-letter queue, the persistence and dispatch hooks, and publishing. Time stamps, symbol
  and source of an event are part of its payload here; metrics, logging and the alerting
  thread only observe and are left out. A publication begins in one step, in which it is checked
  for a duplicate, claimed, logged and given its subscribers; the code takes a lock for each,
  and the claim checks again under its own.
\<close>

section \<open>Events and dead letters\<close>

record 'p event =
  e_type :: string
  e_id :: string
  e_correlation :: "string option"
  e_sequence :: int
  e_payload :: 'p

record 'p dead_letter =
  dl_event :: "'p event"
  dl_handler :: string
  dl_error :: exn

text \<open>A bounded queue, oldest first; \<open>dq_told\<close> are the letters the drop callback was given.\<close>

record 'p dlq =
  dq_items :: "'p dead_letter list"
  dq_max :: nat
  dq_dropped :: nat
  dq_callback :: bool
  dq_told :: "'p dead_letter list"

definition dlq_init :: "nat \<Rightarrow> bool \<Rightarrow> 'p dlq" where
  "dlq_init n callback = \<lparr>dq_items = [], dq_max = n, dq_dropped = 0, dq_callback = callback, dq_told = []\<rparr>"

text \<open>Appending to a \<open>deque\<close> with a maximal length drops from its left end.\<close>

definition deque_append :: "nat \<Rightarrow> 'a list \<Rightarrow> 'a \<Rightarrow> 'a list" where
  "deque_append n xs x = (let ys = xs @ [x] in drop (length ys - n) ys)"

definition dlq_push :: "'p dlq \<Rightarrow> 'p dead_letter \<Rightarrow> bool \<times> 'p dlq" where
  "dlq_push q d =
     (let items = deque_append (dq_max q) (dq_items q) d; q1 = q\<lparr>dq_items := items\<rparr> in
      if length items < length (dq_items q) + 1
      then (False, q1\<lparr>dq_dropped := Suc (dq_dropped q), dq_told := (if dq_callback q then dq_told q @ [d] else dq_told q)\<rparr>)
      else (True, q1))"

definition dlq_push_failure :: "'p dlq \<Rightarrow> 'p event \<Rightarrow> string \<Rightarrow> exn \<Rightarrow> 'p dlq" where
  "dlq_push_failure q e h ex = snd (dlq_push q \<lparr>dl_event = e, dl_handler = h, dl_error = ex\<rparr>)"

definition dlq_drain :: "'p dlq \<Rightarrow> 'p dead_letter list \<times> 'p dlq" where
  "dlq_drain q = (dq_items q, q\<lparr>dq_items := []\<rparr>)"

definition dlq_peek :: "'p dlq \<Rightarrow> nat \<Rightarrow> 'p dead_letter list" where
  "dlq_peek q n = (if n = 0 then dq_items q else drop (length (dq_items q) - n) (dq_items q))"

definition dlq_clear :: "'p dlq \<Rightarrow> 'p dlq" where
  "dlq_clear q = q\<lparr>dq_items := [], dq_dropped := 0\<rparr>"

section \<open>Idempotency service\<close>

text \<open>
  A cache backend. Every call can raise. The values the bus stores are event ids.
\<close>

record 'b backend =
  be_get :: "'b \<Rightarrow> string \<Rightarrow> string option res"
  be_put :: "'b \<Rightarrow> string \<Rightarrow> string \<Rightarrow> int \<Rightarrow> exn option \<times> 'b"
  be_delete :: "'b \<Rightarrow> string \<Rightarrow> bool res \<times> 'b"
  be_contains :: "'b \<Rightarrow> string \<Rightarrow> bool res"

record 'b service =
  sv_primary :: 'b
  sv_fallback :: "'b option"
  sv_default_ttl :: int
  sv_enable_fallback :: bool

definition svc_get :: "'b backend \<Rightarrow> 'b service \<Rightarrow> string \<Rightarrow> string option \<times> 'b service" where
  "svc_get be s k =
     (case be_get be (sv_primary s) k of
        Inr (Some v) \<Rightarrow> (Some v, s)
      | Inr None \<Rightarrow>
          (case (sv_enable_fallback s, sv_fallback s) of
             (True, Some f) \<Rightarrow>
               (case be_get be f k of
                  Inr (Some v) \<Rightarrow> (Some v, s\<lparr>sv_primary := snd (be_put be (sv_primary s) k v (sv_default_ttl s))\<rparr>)
                | Inr None \<Rightarrow> (None, s)
                | Inl _ \<Rightarrow> (None, s))
           | _ \<Rightarrow> (None, s))
      | Inl _ \<Rightarrow>
          (case (sv_enable_fallback s, sv_fallback s) of
             (True, Some f) \<Rightarrow> (case be_get be f k of Inr v \<Rightarrow> (v, s) | Inl _ \<Rightarrow> (None, s))
           | _ \<Rightarrow> (None, s)))"

text \<open>Storing, with the fallback when the primary raises; \<open>Some\<close> is an \<open>IdempotencyError\<close>.\<close>

definition svc_put :: "'b backend \<Rightarrow> 'b service \<Rightarrow> string \<Rightarrow> string \<Rightarrow> int option \<Rightarrow> exn option \<times> 'b service" where
  "svc_put be s k v ttl =
     (let t = (case ttl of Some n \<Rightarrow> n | None \<Rightarrow> sv_default_ttl s);
          failed = Some (RuntimeError (''Failed to store idempotency key '' @ k))
      in case be_put be (sv_primary s) k v t of
           (None, p) \<Rightarrow> (None, s\<lparr>sv_primary := p\<rparr>)
         | (Some _, p) \<Rightarrow>
             (let s1 = s\<lparr>sv_primary := p\<rparr> in
              case (sv_enable_fallback s, sv_fallback s) of
                (True, Some f) \<Rightarrow>
                  (case be_put be f k v t of
                     (None, f1) \<Rightarrow> (None, s1\<lparr>sv_fallback := Some f1\<rparr>)
                   | (Some _, f1) \<Rightarrow> (failed, s1\<lparr>sv_fallback := Some f1\<rparr>))
              | _ \<Rightarrow> (failed, s1)))"

definition svc_delete :: "'b backend \<Rightarrow> 'b service \<Rightarrow> string \<Rightarrow> bool \<times> 'b service" where
  "svc_delete be s k =
     (let (r, p) = be_delete be (sv_primary s) k;
          (fr, f) = (case sv_fallback s of
            None \<Rightarrow> (Inr False, None) | Some f0 \<Rightarrow> (let (x, f1) = be_delete be f0 k in (x, Some f1)))
      in (r = Inr True \<or> fr = Inr True, s\<lparr>sv_primary := p, sv_fallback := f\<rparr>))"

definition svc_contains :: "'b backend \<Rightarrow> 'b service \<Rightarrow> string \<Rightarrow> bool" where
  "svc_contains be s k =
     (be_contains be (sv_primary s) k = Inr True \<or>
      (case sv_fallback s of None \<Rightarrow> False | Some f \<Rightarrow> be_contains be f k = Inr True))"

definition svc_claim :: "'b backend \<Rightarrow> 'b service \<Rightarrow> string \<Rightarrow> string \<Rightarrow> int option \<Rightarrow> bool res \<times> 'b service" where
  "svc_claim be s k v ttl =
     (if svc_contains be s k then (Inr False, s)
      else case svc_put be s k v ttl of
             (Some e, s1) \<Rightarrow> (Inl e, s1)
           | (None, s1) \<Rightarrow> (Inr True, s1))"

text \<open>
  The memory cache. It rests on the TTL cache of a third-party package, kept here as a
  dictionary whose entries can vanish between calls (\<open>mem_vanish\<close>); its calls never raise.
\<close>

definition memory_backend :: "(string, string) dict backend" where
  "memory_backend =
     \<lparr>be_get = (\<lambda>d k. Inr (dict_get d k)), be_put = (\<lambda>d k v ttl. (None, dict_put d k v)),
      be_delete = (\<lambda>d k. (Inr (dict_get d k \<noteq> None), dict_pop d k)),
      be_contains = (\<lambda>d k. Inr (dict_get d k \<noteq> None))\<rparr>"

definition mem_vanish :: "(string, string) dict \<Rightarrow> string \<Rightarrow> (string, string) dict" where
  "mem_vanish d k = dict_pop d k"

section \<open>Idempotency guard of the bus\<close>

text \<open>The processed ids as a queue, oldest first, and as a set; the ids being dispatched.\<close>

record guard =
  eg_processed :: "string list"
  eg_ids :: "string list"
  eg_in_flight :: "string list"
  eg_maxlen :: nat

definition eg_init :: "nat \<Rightarrow> guard" where
  "eg_init n = \<lparr>eg_processed = [], eg_ids = [], eg_in_flight = [], eg_maxlen = n\<rparr>"

definition eg_claim :: "guard \<Rightarrow> string \<Rightarrow> bool \<times> guard" where
  "eg_claim g k =
     (if k \<in> set (eg_ids g) \<or> k \<in> set (eg_in_flight g) then (False, g)
      else (True, g\<lparr>eg_in_flight := List.insert k (eg_in_flight g)\<rparr>))"

definition eg_release :: "guard \<Rightarrow> string \<Rightarrow> guard" where
  "eg_release g k = g\<lparr>eg_in_flight := removeAll k (eg_in_flight g)\<rparr>"

definition eg_commit :: "guard \<Rightarrow> string \<Rightarrow> guard" where
  "eg_commit g k =
     (let g1 = g\<lparr>eg_in_flight := removeAll k (eg_in_flight g)\<rparr> in
      if k \<in> set (eg_ids g1) then g1
      else
        let order = deque_append (eg_maxlen g1) (eg_processed g1) k; ids = List.insert k (eg_ids g1) in
        if length order = eg_maxlen g1
        then (case order of
                oldest # rest \<Rightarrow> g1\<lparr>eg_processed := rest, eg_ids := removeAll oldest ids\<rparr>
              | [] \<Rightarrow> g1\<lparr>eg_processed := [], eg_ids := ids\<rparr>)
        else g1\<lparr>eg_processed := order, eg_ids := ids\<rparr>)"

text \<open>The guard with or without an idempotency service. Events without an id are never held back.\<close>

datatype 'b guard_store = Local guard | Service "'b service" int

fun guard_claim :: "'b backend \<Rightarrow> 'b guard_store \<Rightarrow> string \<Rightarrow> bool res \<times> 'b guard_store" where
  "guard_claim be st k =
     (if k = [] then (Inr True, st)
      else case st of
             Service s ttl \<Rightarrow> (let (r, s1) = svc_claim be s k k (Some ttl) in (r, Service s1 ttl))
           | Local g \<Rightarrow> (let (r, g1) = eg_claim g k in (Inr r, Local g1)))"

fun guard_release :: "'b backend \<Rightarrow> 'b guard_store \<Rightarrow> string \<Rightarrow> 'b guard_store" where
  "guard_release be st k =
     (if k = [] then st
      else case st of Service s ttl \<Rightarrow> Service (snd (svc_delete be s k)) ttl | Local g \<Rightarrow> Local (eg_release g k))"

fun guard_commit :: "'b guard_store \<Rightarrow> string \<Rightarrow> 'b guard_store" where
  "guard_commit st k = (if k = [] then st else case st of Service s ttl \<Rightarrow> st | Local g \<Rightarrow> Local (eg_commit g k))"

fun guard_is_duplicate :: "'b backend \<Rightarrow> 'b guard_store \<Rightarrow> string \<Rightarrow> bool" where
  "guard_is_duplicate be st k =
     (if k = [] then False else case st of Service s ttl \<Rightarrow> svc_contains be s k | Local g \<Rightarrow> k \<in> set (eg_ids g))"

section \<open>The bus\<close>

text \<open>Subscribers by event type and token; a handler is known by its token.\<close>

record ('b, 'p) bus =
  bus_next :: int
  bus_subs :: "(string, string list) dict"
  bus_log :: "'p event list option"
  bus_dlq :: "'p dlq option"
  bus_guard :: "'b guard_store"
  bus_fail_fast :: bool
  bus_replay :: bool
  bus_logging :: bool

definition bus_subscribe :: "string \<Rightarrow> string \<Rightarrow> ('b, 'p) bus \<Rightarrow> ('b, 'p) bus" where
  "bus_subscribe ty token b =
     b\<lparr>bus_subs := dict_put (bus_subs b) ty ((case dict_get (bus_subs b) ty of None \<Rightarrow> [] | Some ts \<Rightarrow> ts) @ [token])\<rparr>"

definition bus_unsubscribe :: "string \<Rightarrow> ('b, 'p) bus \<Rightarrow> bool \<times> ('b, 'p) bus" where
  "bus_unsubscribe token b =
     (case List.find (\<lambda>ty. case dict_get (bus_subs b) ty of None \<Rightarrow> False | Some ts \<Rightarrow> token \<in> set ts) (dict_keys (bus_subs b)) of
        None \<Rightarrow> (False, b)
      | Some ty \<Rightarrow> (True, b\<lparr>bus_subs := dict_put (bus_subs b) ty
            (removeAll token (case dict_get (bus_subs b) ty of None \<Rightarrow> [] | Some ts \<Rightarrow> ts))\<rparr>))"

definition bus_subscriber_count :: "('b, 'p) bus \<Rightarrow> string option \<Rightarrow> nat" where
  "bus_subscriber_count b ty =
     (case ty of
        Some t \<Rightarrow> (case dict_get (bus_subs b) t of None \<Rightarrow> 0 | Some ts \<Rightarrow> length ts)
      | None \<Rightarrow> sum_list (map length (dict_values (bus_subs b))))"

definition bus_clear :: "('b, 'p) bus \<Rightarrow> ('b, 'p) bus" where
  "bus_clear b = b\<lparr>bus_subs := []\<rparr>"

definition prepare_event :: "string option \<Rightarrow> 'p event \<Rightarrow> ('b, 'p) bus \<Rightarrow> 'p event \<times> ('b, 'p) bus" where
  "prepare_event cid e b =
     (let e1 = (if e_correlation e = None then e\<lparr>e_correlation := cid\<rparr> else e) in
      if bus_replay b then (e1, b)
      else (if e_sequence e = 0 then e1\<lparr>e_sequence := bus_next b\<rparr> else e1, b\<lparr>bus_next := bus_next b + 1\<rparr>))"

definition dlq_failure :: "'p event \<Rightarrow> string \<Rightarrow> exn \<Rightarrow> ('b, 'p) bus \<Rightarrow> ('b, 'p) bus" where
  "dlq_failure e h ex b = b\<lparr>bus_dlq := map_option (\<lambda>q. dlq_push_failure q e h ex) (bus_dlq b)\<rparr>"

text \<open>\<open>written\<close>: what appending to the log does.\<close>

definition persist :: "exn option \<Rightarrow> 'p event \<Rightarrow> ('b, 'p) bus \<Rightarrow> exn option \<times> ('b, 'p) bus" where
  "persist written e b =
     (case bus_log b of
        None \<Rightarrow> (None, b)
      | Some l \<Rightarrow>
          if \<not> bus_logging b \<or> bus_replay b then (None, b)
          else case written of
                 None \<Rightarrow> (None, b\<lparr>bus_log := Some (l @ [e])\<rparr>)
               | Some ex \<Rightarrow> (if bus_fail_fast b then Some ex else None, dlq_failure e ''<event_log>'' ex b))"

text \<open>
  A publication in progress: the event, the handlers still to call and the failures so far.
  It begins with the duplicate check, the claim and the log entry; it ends with the commit or
  the release of the claim. Handlers may publish themselves, so between two calls of one
  publication any part of another one can happen.
\<close>

datatype 'p pub = Active "'p event" "string list" nat | Raised "'p event" exn | Skipped

definition pub_begin ::
  "'b backend \<Rightarrow> string option \<Rightarrow> exn option \<Rightarrow> 'p event \<Rightarrow> ('b, 'p) bus \<Rightarrow> ('p pub + exn) \<times> ('b, 'p) bus" where
  "pub_begin be cid written e0 b0 =
     (let (e, b) = prepare_event cid e0 b0 in
      if guard_is_duplicate be (bus_guard b) (e_id e) then (Inl Skipped, b)
      else case guard_claim be (bus_guard b) (e_id e) of
             (Inl ex, st) \<Rightarrow> (Inr ex, b\<lparr>bus_guard := st\<rparr>)
           | (Inr False, st) \<Rightarrow> (Inl Skipped, b\<lparr>bus_guard := st\<rparr>)
           | (Inr True, st) \<Rightarrow>
               (case persist written e (b\<lparr>bus_guard := st\<rparr>) of
                  (Some ex, b1) \<Rightarrow> (Inl (Raised e ex), b1)
                | (None, b1) \<Rightarrow>
                    (Inl (Active e (if bus_replay b1 then []
                       else (case dict_get (bus_subs b1) (e_type e) of None \<Rightarrow> [] | Some ts \<Rightarrow> ts)) 0), b1)))"

text \<open>One handler call, and what it does.\<close>

fun pub_call :: "exn option \<Rightarrow> 'p pub \<Rightarrow> ('b, 'p) bus \<Rightarrow> 'p pub \<times> ('b, 'p) bus" where
  "pub_call outcome (Active e (h # hs) n) b =
     (case outcome of
        None \<Rightarrow> (Active e hs n, b)
      | Some ex \<Rightarrow>
          (let b1 = dlq_failure e h ex b in
           if bus_fail_fast b then (Raised e ex, b1) else (Active e hs (Suc n), b1)))"
| "pub_call outcome p b = (p, b)"

fun pub_finish :: "'b backend \<Rightarrow> 'p pub \<Rightarrow> ('b, 'p) bus \<Rightarrow> exn option \<times> ('b, 'p) bus" where
  "pub_finish be Skipped b = (None, b)"
| "pub_finish be (Raised e ex) b = (Some ex, b\<lparr>bus_guard := guard_release be (bus_guard b) (e_id e)\<rparr>)"
| "pub_finish be (Active e hs n) b =
     (None, b\<lparr>bus_guard := (if n \<noteq> 0 then guard_release be (bus_guard b) (e_id e) else guard_commit (bus_guard b) (e_id e))\<rparr>)"

fun pub_calls :: "(string \<Rightarrow> exn option) \<Rightarrow> 'p pub \<Rightarrow> string list \<Rightarrow> ('b, 'p) bus \<Rightarrow> 'p pub \<times> ('b, 'p) bus" where
  "pub_calls answers p [] b = (p, b)"
| "pub_calls answers p (h # hs) b = (let (p1, b1) = pub_call (answers h) p b in pub_calls answers p1 hs b1)"

text \<open>A publication whose handlers publish nothing, from begin to end.\<close>

definition bus_publish ::
  "'b backend \<Rightarrow> string option \<Rightarrow> exn option \<Rightarrow> (string \<Rightarrow> exn option) \<Rightarrow> 'p event \<Rightarrow> ('b, 'p) bus \<Rightarrow> exn option \<times> ('b, 'p) bus" where
  "bus_publish be cid written answers e b =
     (case pub_begin be cid written e b of
        (Inr ex, b1) \<Rightarrow> (Some ex, b1)
      | (Inl p, b1) \<Rightarrow>
          (let (p1, b2) = pub_calls answers p (case p of Active _ hs _ \<Rightarrow> hs | _ \<Rightarrow> []) b1 in pub_finish be p1 b2))"

section \<open>Facts\<close>

lemma dlq_push_eq:
  "dlq_push q d =
     (if Suc (length (dq_items q)) \<le> dq_max q then (True, q\<lparr>dq_items := dq_items q @ [d]\<rparr>)
      else (False, q\<lparr>dq_items := drop (Suc (length (dq_items q)) - dq_max q) (dq_items q @ [d]), dq_dropped := Suc (dq_dropped q),
        dq_told := (if dq_callback q then dq_told q @ [d] else dq_told q)\<rparr>))"
  by (cases "Suc (length (dq_items q)) \<le> dq_max q") (auto simp: dlq_push_def deque_append_def Let_def)

lemma deque_append_small: "length xs < n \<Longrightarrow> deque_append n xs x = xs @ [x]"
  by (simp add: deque_append_def)

definition eg_wf :: "guard \<Rightarrow> bool" where
  "eg_wf g \<longleftrightarrow> distinct (eg_processed g) \<and> set (eg_ids g) = set (eg_processed g) \<and>
     length (eg_processed g) < eg_maxlen g \<and> set (eg_ids g) \<inter> set (eg_in_flight g) = {}"

lemma eg_wf_init [inv_intros]: "0 < n \<Longrightarrow> eg_wf (eg_init n)"
  by (simp add: eg_wf_def eg_init_def)

lemma eg_commit_known: "k \<in> set (eg_ids g) \<Longrightarrow> eg_commit g k = g\<lparr>eg_in_flight := removeAll k (eg_in_flight g)\<rparr>"
  by (simp add: eg_commit_def)

text \<open>Committing a new id keeps one id less than the configured number.\<close>

lemma eg_commit_new:
  assumes "eg_wf g" "k \<notin> set (eg_ids g)"
  shows "eg_processed (eg_commit g k) =
      (if Suc (length (eg_processed g)) = eg_maxlen g then tl (eg_processed g @ [k]) else eg_processed g @ [k])"
    "eg_in_flight (eg_commit g k) = removeAll k (eg_in_flight g)" "eg_maxlen (eg_commit g k) = eg_maxlen g"
    "eg_wf (eg_commit g k)"
proof -
  have w: "distinct (eg_processed g @ [k])" "set (eg_ids g) = set (eg_processed g)" "length (eg_processed g) < eg_maxlen g"
    "set (eg_ids g) \<inter> set (eg_in_flight g) = {}"
    using assms by (auto simp: eg_wf_def)
  note a = deque_append_small[OF w(3), of k]
  let ?ids = "List.insert k (eg_ids g)"
  obtain x xs where e: "eg_processed g @ [k] = x # xs" by (cases "eg_processed g @ [k]") auto
  have "length xs = length (eg_processed g)" using arg_cong[OF e, of length] by simp
  have "eg_commit g k =
      (if Suc (length (eg_processed g)) = eg_maxlen g
       then g\<lparr>eg_in_flight := removeAll k (eg_in_flight g), eg_processed := tl (eg_processed g @ [k]),
              eg_ids := removeAll (hd (eg_processed g @ [k])) ?ids\<rparr>
       else g\<lparr>eg_in_flight := removeAll k (eg_in_flight g), eg_processed := eg_processed g @ [k], eg_ids := ?ids\<rparr>)"
    using assms(2) unfolding eg_commit_def Let_def by (simp add: a e \<open>length xs = length (eg_processed g)\<close>)
  note c = this
  show "eg_processed (eg_commit g k) =
      (if Suc (length (eg_processed g)) = eg_maxlen g then tl (eg_processed g @ [k]) else eg_processed g @ [k])"
    "eg_in_flight (eg_commit g k) = removeAll k (eg_in_flight g)" "eg_maxlen (eg_commit g k) = eg_maxlen g"
    by (simp_all add: c)
  have "set (tl (eg_processed g @ [k])) = insert k (set (eg_processed g)) - {hd (eg_processed g @ [k])}"
    using w(1) by (cases "eg_processed g") auto
  moreover have "distinct (tl (eg_processed g @ [k]))" using w(1) by (rule distinct_tl)
  ultimately show "eg_wf (eg_commit g k)"
    using w by (auto simp: eg_wf_def c)
qed

lemma eg_claim_cases:
  assumes "eg_wf g" "eg_claim g k = (r, g')"
  shows "r \<longleftrightarrow> k \<notin> set (eg_ids g) \<and> k \<notin> set (eg_in_flight g)" "eg_wf g'" "eg_ids g' = eg_ids g"
    "set (eg_in_flight g') = (if r then insert k (set (eg_in_flight g)) else set (eg_in_flight g))"
  using assms by (auto simp: eg_claim_def eg_wf_def split: if_splits)

lemma eg_release_wf: "eg_wf g \<Longrightarrow> eg_wf (eg_release g k)"
  by (auto simp: eg_wf_def eg_release_def)

section \<open>Interleaved publications\<close>

fun pub_id :: "'p pub \<Rightarrow> string" where
  "pub_id (Active e hs n) = e_id e" | "pub_id (Raised e ex) = e_id e" | "pub_id Skipped = []"

text \<open>The ids the publications in progress hold.\<close>

definition pub_ids :: "'p pub list \<Rightarrow> string list" where
  "pub_ids ps = filter (\<lambda>k. k \<noteq> []) (map pub_id ps)"

lemma pub_ids_simps [simp]:
  "pub_ids [] = []" "pub_ids (p # ps) = (if pub_id p = [] then pub_ids ps else pub_id p # pub_ids ps)"
  "pub_ids (ps @ qs) = pub_ids ps @ pub_ids qs"
  by (simp_all add: pub_ids_def)

fun pub_ready :: "'p pub \<Rightarrow> bool" where
  "pub_ready (Active e hs n) = (hs = [])" | "pub_ready p = True"

inductive bus_step :: "'b backend \<Rightarrow> ('b, 'p) bus \<times> 'p pub list \<Rightarrow> ('b, 'p) bus \<times> 'p pub list \<Rightarrow> bool" for be where
  begins: "pub_begin be cid written e b = (Inl p, b') \<Longrightarrow> bus_step be (b, ps) (b', ps @ [p])"
| refused: "pub_begin be cid written e b = (Inr ex, b') \<Longrightarrow> bus_step be (b, ps) (b', ps)"
| called: "pub_call outcome p b = (p', b') \<Longrightarrow> bus_step be (b, ps @ p # qs) (b', ps @ p' # qs)"
| finished: "pub_ready p \<Longrightarrow> pub_finish be p b = (r, b') \<Longrightarrow> bus_step be (b, ps @ p # qs) (b', ps @ qs)"
| subscribers: "bus_step be (b, ps) (b\<lparr>bus_subs := subs\<rparr>, ps)"
| modes: "bus_step be (b, ps) (b\<lparr>bus_replay := x, bus_logging := y, bus_log := l\<rparr>, ps)"

inductive_cases bus_stepE: "bus_step be k k'"

definition bus_inv :: "('b, 'p) bus \<times> 'p pub list \<Rightarrow> bool" where
  "bus_inv k \<longleftrightarrow> (\<exists>g. bus_guard (fst k) = Local g \<and> eg_wf g \<and> distinct (pub_ids (snd k)) \<and>
     set (eg_in_flight g) = set (pub_ids (snd k)))"

lemma prepare_fields:
  assumes "prepare_event cid e b = (e1, b1)"
  shows "e_id e1 = e_id e" "e_type e1 = e_type e" "bus_guard b1 = bus_guard b"
  using assms by (auto simp: prepare_event_def Let_def split: if_splits)

lemma persist_guard: "persist written e b = (r, b1) \<Longrightarrow> bus_guard b1 = bus_guard b"
  by (auto simp: persist_def dlq_failure_def split: option.splits if_splits)

text \<open>Beginning a publication with a local guard.\<close>

lemma begin_local:
  assumes "bus_guard b = Local g" "eg_wf g" "pub_begin be cid written e b = (r, b')"
  shows "if e_id e \<noteq> [] \<and> (e_id e \<in> set (eg_ids g) \<or> e_id e \<in> set (eg_in_flight g))
    then r = Inl Skipped \<and> bus_guard b' = Local g
    else \<exists>p g'. r = Inl p \<and> p \<noteq> Skipped \<and> pub_id p = e_id e \<and> bus_guard b' = Local g' \<and> eg_wf g' \<and> eg_ids g' = eg_ids g \<and>
      set (eg_in_flight g') = (if e_id e = [] then set (eg_in_flight g) else insert (e_id e) (set (eg_in_flight g)))"
proof -
  obtain e1 b1 where p: "prepare_event cid e b = (e1, b1)" by fastforce
  note f = prepare_fields[OF p]
  have st: "bus_guard b1 = Local g" using f assms(1) by simp
  obtain ok g1 where c: "eg_claim g (e_id e) = (ok, g1)" by fastforce
  note cl = eg_claim_cases[OF assms(2) c]
  show ?thesis
  proof (cases "e_id e \<noteq> [] \<and> (e_id e \<in> set (eg_ids g) \<or> e_id e \<in> set (eg_in_flight g))")
    case True
    then have "eg_claim g (e_id e) = (False, g)" by (auto simp: eg_claim_def)
    then have "guard_claim be (bus_guard b1) (e_id e1) = (Inr False, Local g)" using True by (simp add: st f(1))
    then have "r = Inl Skipped \<and> bus_guard b' = Local g"
      using assms(3) st unfolding pub_begin_def p
      by (cases "guard_is_duplicate be (bus_guard b1) (e_id e1)") (auto simp del: guard_claim.simps guard_is_duplicate.simps)
    then show ?thesis using True by simp
  next
    case False
    define g' where "g' = (if e_id e = [] then g else g1)"
    have cg: "guard_claim be (bus_guard b1) (e_id e1) = (Inr True, Local g')" "\<not> guard_is_duplicate be (bus_guard b1) (e_id e1)"
      using False c cl(1) st f(1) by (auto simp: g'_def)
    have g': "eg_wf g'" "eg_ids g' = eg_ids g"
      "set (eg_in_flight g') = (if e_id e = [] then set (eg_in_flight g) else insert (e_id e) (set (eg_in_flight g)))"
      using cl False assms(2) by (auto simp: g'_def)
    obtain x b2 where x: "persist written e1 (b1\<lparr>bus_guard := Local g'\<rparr>) = (x, b2)" by fastforce
    have "bus_guard b2 = Local g'" using persist_guard[OF x] by simp
    then have "\<exists>p. r = Inl p \<and> p \<noteq> Skipped \<and> pub_id p = e_id e \<and> bus_guard b' = Local g'"
      using assms(3) cg x f(1) unfolding pub_begin_def p
      by (auto simp del: guard_claim.simps guard_is_duplicate.simps split: option.splits)
    then show ?thesis using False g' by auto
  qed
qed

lemma call_keeps: "pub_call outcome p b = (p', b') \<Longrightarrow> pub_id p' = pub_id p \<and> bus_guard b' = bus_guard b"
  by (cases "(outcome, p, b)" rule: pub_call.cases) (auto simp: dlq_failure_def Let_def split: option.splits if_splits)

lemma finish_local:
  assumes "bus_guard b = Local g" "eg_wf g" "pub_finish be p b = (r, b')" "pub_id p \<noteq> [] \<longrightarrow> pub_id p \<in> set (eg_in_flight g)"
  shows "\<exists>g'. bus_guard b' = Local g' \<and> eg_wf g' \<and> set (eg_in_flight g') = set (eg_in_flight g) - {pub_id p} - {[]} \<union>
    (set (eg_in_flight g) \<inter> {[]})"
proof -
  have new: "pub_id p \<noteq> [] \<Longrightarrow> pub_id p \<notin> set (eg_ids g)" using assms(2,4) by (auto simp: eg_wf_def)
  show ?thesis
  proof (cases "pub_id p = []")
    case True
    then have "bus_guard b' = Local g" using assms(1,3) by (cases p) (auto split: if_splits)
    then show ?thesis using True assms(2) by auto
  next
    case False
    then have "bus_guard b' = Local (eg_release g (pub_id p)) \<or> bus_guard b' = Local (eg_commit g (pub_id p))"
      using assms(1,3) by (cases p) (auto split: if_splits)
    then show ?thesis
      using False eg_commit_new(2,4)[OF assms(2) new] eg_release_wf[OF assms(2)] by (auto simp: eg_release_def)
  qed
qed

lemma bus_inv_step: "bus_step be k k' \<Longrightarrow> bus_inv k \<Longrightarrow> bus_inv k'"
proof (induction rule: bus_step.induct)
  case (begins cid written e b p b' ps)
  then obtain g where g: "bus_guard b = Local g" "eg_wf g" "distinct (pub_ids ps)" "set (eg_in_flight g) = set (pub_ids ps)"
    by (auto simp: bus_inv_def)
  show ?case using begin_local[OF g(1,2) begins(1)] g
    by (auto simp: bus_inv_def split: if_splits)
next
  case (refused cid written e b ex b' ps)
  then obtain g where g: "bus_guard b = Local g" "eg_wf g" by (auto simp: bus_inv_def)
  show ?case using begin_local[OF g(1,2) refused(1)] by (auto split: if_splits)
next
  case (called outcome p b p' b' ps qs)
  have "pub_ids (ps @ p' # qs) = pub_ids (ps @ p # qs)" "bus_guard b' = bus_guard b"
    using call_keeps[OF called(1)] by simp_all
  then show ?case using called(2) unfolding bus_inv_def fst_conv snd_conv by (simp only:)
next
  case (finished p b r b' ps qs)
  then obtain g where g: "bus_guard b = Local g" "eg_wf g" "distinct (pub_ids (ps @ p # qs))"
    "set (eg_in_flight g) = set (pub_ids (ps @ p # qs))"
    by (auto simp: bus_inv_def)
  have n: "[] \<notin> set (pub_ids xs)" for xs :: "'c pub list" by (simp add: pub_ids_def)
  have "pub_id p \<noteq> [] \<longrightarrow> pub_id p \<in> set (eg_in_flight g)" using g(4) by simp
  from finish_local[OF g(1,2) finished(2) this] obtain g' where
    "bus_guard b' = Local g'" "eg_wf g'" "set (eg_in_flight g') = set (eg_in_flight g) - {pub_id p} - {[]} \<union> (set (eg_in_flight g) \<inter> {[]})"
    by blast
  then show ?case using g(3,4) n[of ps] n[of qs] by (auto simp: bus_inv_def split: if_splits)
qed (simp_all add: bus_inv_def)

lemma bus_inv_reach: "(bus_step be)\<^sup>*\<^sup>* k k' \<Longrightarrow> bus_inv k \<Longrightarrow> bus_inv k'"
  by (induction rule: rtranclp_induct) (auto intro: bus_inv_step)

section \<open>Properties\<close>

text \<open>
  C32: under any interleaving of publications, by handlers or by other threads, no two
  publications in progress hold the same event id, and an event is passed over exactly when
  its id is held by one of them or remembered as processed. A publication that failed has
  given its id back, so the event can be published again.
\<close>

theorem one_dispatch_per_id:
  "(bus_step be)\<^sup>*\<^sup>* (b0, []) (b, ps) \<and> bus_guard b0 = Local (eg_init n) \<and> 0 < n \<longrightarrow>
   (\<exists>g. bus_guard b = Local g \<and> distinct (pub_ids ps) \<and>
      (fst (pub_begin be cid written e b) = Inl Skipped \<longleftrightarrow>
         e_id e \<noteq> [] \<and> (e_id e \<in> set (pub_ids ps) \<or> e_id e \<in> set (eg_processed g))))"
proof (intro impI)
  assume a: "(bus_step be)\<^sup>*\<^sup>* (b0, []) (b, ps) \<and> bus_guard b0 = Local (eg_init n) \<and> 0 < n"
  then have "bus_inv (b0, [])" using eg_wf_init[of n] by (auto simp: bus_inv_def eg_init_def)
  then have "bus_inv (b, ps)" using a bus_inv_reach by blast
  then obtain g where g: "bus_guard b = Local g" "eg_wf g" "distinct (pub_ids ps)" "set (eg_in_flight g) = set (pub_ids ps)"
    by (auto simp: bus_inv_def)
  obtain r b' where p: "pub_begin be cid written e b = (r, b')" by fastforce
  have "set (eg_ids g) = set (eg_processed g)" using g(2) by (simp add: eg_wf_def)
  then show "\<exists>g. bus_guard b = Local g \<and> distinct (pub_ids ps) \<and>
      (fst (pub_begin be cid written e b) = Inl Skipped \<longleftrightarrow>
         e_id e \<noteq> [] \<and> (e_id e \<in> set (pub_ids ps) \<or> e_id e \<in> set (eg_processed g)))"
    using g begin_local[OF g(1,2) p] p by (intro exI[of _ g]) (auto split: if_splits)
qed

text \<open>An event whose handler publishes the same event again while it runs.\<close>

definition sample_event :: "unit event" where
  "sample_event = \<lparr>e_type = ''TRADE'', e_id = ''e1'', e_correlation = None, e_sequence = 0, e_payload = ()\<rparr>"

definition sample_bus :: "((string, string) dict, unit) bus" where
  "sample_bus = \<lparr>bus_next = 1, bus_subs = [(''TRADE'', [''h1''])], bus_log = Some [], bus_dlq = Some (dlq_init 2 True),
     bus_guard = Local (eg_init 3), bus_fail_fast = False, bus_replay = False, bus_logging = True\<rparr>"

lemma one_dispatch_per_id_witness:
  "fst (pub_begin memory_backend None None sample_event (snd (pub_begin memory_backend None None sample_event sample_bus))) = Inl Skipped"
proof -
  let ?r = "pub_begin memory_backend None None sample_event sample_bus"
  have b: "?r = (Inl (Active (sample_event\<lparr>e_sequence := 1\<rparr>) [''h1''] 0), snd ?r)"
    by (simp add: pub_begin_def prepare_event_def sample_bus_def sample_event_def eg_init_def eg_claim_def persist_def dict_get_def)
  from bus_step.begins[OF b, of "[]"] have
    "(bus_step memory_backend)\<^sup>*\<^sup>* (sample_bus, []) (snd ?r, [Active (sample_event\<lparr>e_sequence := 1\<rparr>) [''h1''] 0])" by simp
  then show ?thesis
    using one_dispatch_per_id[of memory_backend sample_bus "snd ?r" "[Active (sample_event\<lparr>e_sequence := 1\<rparr>) [''h1''] 0]" 3 None None sample_event]
    by (simp add: sample_bus_def sample_event_def)
qed

text \<open>
  Both bounded memories of the bus. A guard configured for so many ids remembers, of
  successfully published different ids, the latest ones, one less than configured. A
  dead-letter queue keeps the latest letters and counts the others; the push that makes room
  answers that the new letter was dropped, though it is the one that was kept, and the drop
  callback is given it too.
\<close>

theorem bounded_memories:
  "(0 < n \<and> distinct ks \<longrightarrow>
      (let g = foldl eg_commit (eg_init n) ks in
       eg_processed g = drop (length ks - (n - 1)) ks \<and> set (eg_ids g) = set (eg_processed g))) \<and>
   (let q = foldl (\<lambda>q d. snd (dlq_push q d)) (dlq_init n True) ds in
    dq_items q = drop (length ds - n) ds \<and> dq_dropped q = length ds - n \<and> dq_told q = drop n ds \<and>
    fst (dlq_push q d) = (length ds < n))"
proof (intro conjI impI)
  assume a: "0 < n \<and> distinct ks"
  have "distinct ks \<Longrightarrow> eg_wf (foldl eg_commit (eg_init n) ks) \<and> eg_maxlen (foldl eg_commit (eg_init n) ks) = n \<and>
      eg_processed (foldl eg_commit (eg_init n) ks) = drop (length ks - (n - 1)) ks"
  proof (induction ks rule: rev_induct)
    case Nil
    then show ?case using a eg_wf_init[of n] by (simp add: eg_init_def)
  next
    case (snoc k ks)
    let ?g = "foldl eg_commit (eg_init n) ks"
    have h: "eg_wf ?g" "eg_maxlen ?g = n" "eg_processed ?g = drop (length ks - (n - 1)) ks" using snoc by simp_all
    have "k \<notin> set (eg_ids ?g)" using h(1,3) snoc.prems by (auto simp: eg_wf_def dest: in_set_dropD)
    note c = eg_commit_new[OF h(1) this]
    have "eg_processed (eg_commit ?g k) = drop (length (ks @ [k]) - (n - 1)) (ks @ [k])"
    proof (cases "n - 1 \<le> length ks")
      case True
      let ?m = "length ks - (n - 1)"
      have m: "drop ?m (ks @ [k]) = drop ?m ks @ [k]" "length (ks @ [k]) - (n - 1) = Suc ?m" using True by simp_all
      have "eg_processed (eg_commit ?g k) = tl (drop ?m ks @ [k])" using c(1) h(2,3) True a by simp
      also have "\<dots> = drop (Suc ?m) (ks @ [k])" unfolding m(1)[symmetric] by (simp only: drop_Suc tl_drop)
      finally show ?thesis unfolding m(2) .
    next
      case False
      then have "Suc (length ks) \<noteq> n" by simp
      then show ?thesis using c(1) h(2,3) False by simp
    qed
    then show ?case using c h(2) by simp
  qed
  then show "let g = foldl eg_commit (eg_init n) ks in
       eg_processed g = drop (length ks - (n - 1)) ks \<and> set (eg_ids g) = set (eg_processed g)"
    using a by (simp add: eg_wf_def Let_def)
next
  let ?q = "foldl (\<lambda>q d. snd (dlq_push q d)) (dlq_init n True) ds"
  have "dq_max ?q = n \<and> dq_callback ?q \<and> dq_items ?q = drop (length ds - n) ds \<and> dq_dropped ?q = length ds - n \<and> dq_told ?q = drop n ds"
  proof (induction ds rule: rev_induct)
    case Nil
    then show ?case by (simp add: dlq_init_def)
  next
    case (snoc d ds)
    then show ?case
      by (cases "length ds < n") (simp_all add: dlq_push_eq[of "foldl f q ds" for f q] Suc_diff_le not_less)
  qed
  then show "let q = ?q in dq_items q = drop (length ds - n) ds \<and> dq_dropped q = length ds - n \<and> dq_told q = drop n ds \<and>
    fst (dlq_push q d) = (length ds < n)"
    by (cases "length ds < n") (simp_all add: dlq_push_eq[of ?q] Let_def)
qed

lemma bounded_memories_witness: "eg_processed (foldl eg_commit (eg_init 3) [''a'', ''b'', ''c'', ''d'']) = [''c'', ''d'']"
  using bounded_memories[of 3 "[''a'', ''b'', ''c'', ''d'']" "[]" "\<lparr>dl_event = sample_event, dl_handler = [], dl_error = IndexError\<rparr>"]
  unfolding Let_def by (elim conjE) simp

end
