(* ===== verification/Order_Authority.thy ===== *)
theory Order_Authority
  imports Broker_Routing Candles Risk_Manager
begin

text \<open>
  Who may send an order past the order manager: the authority in front of live orders
  (\<open>application/oms/live_order_authority.py\<close>), the orders of special kinds that go to a broker's
  extension (\<open>extended_order_service.py\<close>), and the endpoints in front of both
  (\<open>interface/api/deps.py\<close>, \<open>interface/api/routers/live/extended.py\<close>). The risk manager is that of
  Risk Manager. What an extension answers is an argument; the calls of extensions and the
  published events are recorded. Messages are constructors. What \<open>int\<close> and \<open>Decimal\<close> make of a
  quantity and a price is an argument, a \<open>TypeError\<close> counted as a \<open>ValueError\<close>.
\<close>

section \<open>Payloads\<close>

record order_payload =
  pl_symbol :: "string option"
  pl_exchange :: "string option"
  pl_side :: "string option"
  pl_order_type :: "string option"
  pl_quantity :: "rat res option"
  pl_price :: "num_in option"
  pl_product_type :: "string option"
  pl_validity :: "string option"
  pl_updates :: "bool list"

fun side_value :: "order_side \<Rightarrow> string" where
  "side_value BUY = ''BUY''"
| "side_value SELL = ''SELL''"

fun order_type_value :: "order_type \<Rightarrow> string" where
  "order_type_value MARKET = ''MARKET''"
| "order_type_value LIMIT = ''LIMIT''"
| "order_type_value STOP = ''STOP''"
| "order_type_value STOP_LIMIT = ''STOP_LIMIT''"
| "order_type_value STOP_LOSS = ''STOP_LOSS''"
| "order_type_value STOP_LOSS_MARKET = ''STOP_LOSS_MARKET''"

fun product_type_value :: "product_type \<Rightarrow> string" where
  "product_type_value INTRADAY = ''INTRADAY''"
| "product_type_value DELIVERY = ''DELIVERY''"
| "product_type_value CNC = ''CNC''"
| "product_type_value MARGIN = ''MARGIN''"
| "product_type_value MTF = ''MTF''"

fun validity_value :: "time_in_force \<Rightarrow> string" where
  "validity_value DAY = ''DAY''"
| "validity_value IOC = ''IOC''"
| "validity_value GTC = ''GTC''"

text \<open>\<open>Side(text)\<close> and its like; a missing field has the default.\<close>

definition enum_field :: "('e \<Rightarrow> string) \<Rightarrow> 'e list \<Rightarrow> 'e \<Rightarrow> string option \<Rightarrow> 'e res" where
  "enum_field val members d v =
     (case v of
        None \<Rightarrow> Inr d
      | Some t \<Rightarrow> (case find (\<lambda>e. val e = t) members of Some e \<Rightarrow> Inr e | None \<Rightarrow> Inl (ValueError (t @ '' is not a valid member''))))"

definition default_to :: "string option \<Rightarrow> string \<Rightarrow> string" where
  "default_to v d = (case v of None \<Rightarrow> d | Some t \<Rightarrow> t)"

definition payload_order :: "order_payload \<Rightarrow> order res" where
  "payload_order p =
     (case enum_field side_value [BUY, SELL] BUY (pl_side p) of
        Inl e \<Rightarrow> Inl e
      | Inr sd \<Rightarrow>
     (case enum_field order_type_value [MARKET, LIMIT, STOP, STOP_LIMIT, STOP_LOSS, STOP_LOSS_MARKET] MARKET (pl_order_type p) of
        Inl e \<Rightarrow> Inl e
      | Inr ot \<Rightarrow>
     (case (case pl_quantity p of None \<Rightarrow> Inr 0 | Some q \<Rightarrow> q) of
        Inl e \<Rightarrow> Inl e
      | Inr qty \<Rightarrow>
     (case (case pl_price p of None \<Rightarrow> Fin 0 | Some v \<Rightarrow> v) of
        Malformed t \<Rightarrow> Inl InvalidOperation
      | price \<Rightarrow>
     (case enum_field product_type_value [INTRADAY, DELIVERY, CNC, MARGIN, MTF] INTRADAY (pl_product_type p) of
        Inl e \<Rightarrow> Inl e
      | Inr pt \<Rightarrow>
     (case enum_field validity_value [DAY, IOC, GTC] DAY (pl_validity p) of
        Inl e \<Rightarrow> Inl e
      | Inr vd \<Rightarrow>
     (case as_money (Some (NumV price)) of
        Inl e \<Rightarrow> Inl e
      | Inr m \<Rightarrow>
          Inr ((order_new [] (default_to (pl_symbol p) []) (default_to (pl_exchange p) ''NSE'') sd ot qty)
                 \<lparr>o_price := amount m, o_product_type := pt, o_validity := vd\<rparr>))))))))"

section \<open>The authority\<close>

text \<open>The guard of every change of an order: \<open>None\<close> lets it pass.\<close>

definition mutation_check :: "bool \<Rightarrow> string \<Rightarrow> risk_manager option \<Rightarrow> string option" where
  "mutation_check production action rm =
     (case rm of
        None \<Rightarrow> if production then Some (''Order blocked: risk manager unavailable ('' @ action @ '')'') else None
      | Some r \<Rightarrow> if ks_is_active (rk_kill r) then Some (''Order blocked: kill switch active ('' @ action @ '')'') else None)"

datatype auth_error =
    No_Gate
  | Not_Actionable
  | Orders_Disabled
  | No_Risk_Manager
  | Blocked string
  | Unmodelled exn
  | Risk_Rejected risk_reason
  | Escaped exn

text \<open>The surroundings: the environment, the broker and its switches, and what the risk manager reads.\<close>

record live_env =
  lv_production :: bool
  lv_broker :: string
  lv_allow_live_orders :: bool
  lv_actionable :: "bool option"
  lv_risk :: risk_env

definition is_live_broker :: "string \<Rightarrow> bool" where
  "is_live_broker b \<longleftrightarrow> py_lower b \<in> set [''dhan'', ''upstox'']"

definition live_block :: "live_env \<Rightarrow> auth_error option" where
  "live_block env =
     (if \<not> is_live_broker (lv_broker env) then None
      else if lv_actionable env = None then Some No_Gate
      else if lv_actionable env = Some False then Some Not_Actionable
      else if \<not> lv_allow_live_orders env then Some Orders_Disabled
      else None)"

definition authorize_live_order ::
  "live_env \<Rightarrow> string \<Rightarrow> order_payload option \<Rightarrow> risk_manager option \<Rightarrow> auth_error option \<times> risk_manager option" where
  "authorize_live_order env action payload rm =
     (case live_block env of
        Some e \<Rightarrow> (Some e, rm)
      | None \<Rightarrow>
          (case rm of
             None \<Rightarrow> (if lv_production env then Some No_Risk_Manager else None, rm)
           | Some r \<Rightarrow>
               (case mutation_check (lv_production env) action rm of
                  Some t \<Rightarrow> (Some (Blocked t), rm)
                | None \<Rightarrow>
                    (case payload of
                       None \<Rightarrow> (None, rm)
                     | Some p \<Rightarrow>
                         (case payload_order p of
                            Inl e \<Rightarrow> (Some (if is_value_error e then Unmodelled e else Escaped e), rm)
                          | Inr ord \<Rightarrow>
                              (case check_order r (lv_risk env) ord of
                                 (Inl e, r1) \<Rightarrow> (Some (Escaped e), Some r1)
                               | (Inr (Denied d), r1) \<Rightarrow> (Some (Risk_Rejected d), Some r1)
                               | (Inr Allowed, r1) \<Rightarrow> (None, Some r1)))))))"

section \<open>Orders of special kinds\<close>

datatype ext_kind = Super_Order | Forever_Order | Conditional_Trigger | Exit_All | Gtt_Order | Cover_Order | Slice_Order | Kill_Switch_Update

type_synonym 'r executor = "ext_kind \<Rightarrow> order_payload \<Rightarrow> 'r res"

datatype ext_error = Switch_On string | Bad_Payload exn | Risk_Denied risk_reason | Not_Configured | No_Extension routing_exn | Raised_By exn

text \<open>A result: the answer of the extension, or an error and whether it is a rejection.\<close>

datatype 'r ext_result = Ext_Success 'r | Ext_Failure ext_error bool

record ext_env =
  xe_production :: bool
  xe_risk :: risk_env
  xe_broker :: string

record 'r ext_state =
  xs_risk :: "risk_manager option"
  xs_extensions :: "('r executor) extension_registry option"
  xs_calls :: "(ext_kind \<times> order_payload) list"
  xs_events :: "ext_kind list"

definition ext_executor :: "ext_env \<Rightarrow> 'r ext_state \<Rightarrow> ext_error + 'r executor" where
  "ext_executor env s =
     (case xs_extensions s of
        None \<Rightarrow> Inl Not_Configured
      | Some x \<Rightarrow> (case extension_require x (xe_broker env) ''OrderCapabilityPort'' of Inl e \<Rightarrow> Inl (No_Extension e) | Inr f \<Rightarrow> Inr f))"

text \<open>The extension is called and the order announced; whatever it raises is an answer.\<close>

definition ext_execute :: "ext_env \<Rightarrow> ext_kind \<Rightarrow> order_payload \<Rightarrow> 'r ext_state \<Rightarrow> 'r ext_result \<times> 'r ext_state" where
  "ext_execute env k p s =
     (case ext_executor env s of
        Inl e \<Rightarrow> (Ext_Failure e False, s)
      | Inr f \<Rightarrow>
          (let s1 = s\<lparr>xs_calls := xs_calls s @ [(k, p)]\<rparr> in
           case f k p of
             Inl e \<Rightarrow> (Ext_Failure (Raised_By e) False, s1)
           | Inr r \<Rightarrow> (Ext_Success r, s1\<lparr>xs_events := xs_events s1 @ [k]\<rparr>)))"

definition ext_risk_check :: "ext_env \<Rightarrow> order_payload \<Rightarrow> 'r ext_state \<Rightarrow> 'r ext_result option \<times> 'r ext_state" where
  "ext_risk_check env p s =
     (case xs_risk s of
        None \<Rightarrow> (None, s)
      | Some r \<Rightarrow>
          (case payload_order p of
             Inl e \<Rightarrow> (Some (if is_value_error e then Ext_Failure (Bad_Payload e) True else Ext_Failure (Raised_By e) False), s)
           | Inr ord \<Rightarrow>
               (case check_order r (xe_risk env) ord of
                  (Inl e, r1) \<Rightarrow> (Some (Ext_Failure (Raised_By e) False), s\<lparr>xs_risk := Some r1\<rparr>)
                | (Inr (Denied d), r1) \<Rightarrow> (Some (Ext_Failure (Risk_Denied d) True), s\<lparr>xs_risk := Some r1\<rparr>)
                | (Inr Allowed, r1) \<Rightarrow> (None, s\<lparr>xs_risk := Some r1\<rparr>))))"

definition place_extended :: "ext_env \<Rightarrow> ext_kind \<Rightarrow> order_payload \<Rightarrow> 'r ext_state \<Rightarrow> 'r ext_result \<times> 'r ext_state" where
  "place_extended env k p s =
     (case mutation_check (xe_production env) ''place'' (xs_risk s) of
        Some t \<Rightarrow> (Ext_Failure (Switch_On t) True, s)
      | None \<Rightarrow>
          (case ext_risk_check env p s of
             (Some r, s1) \<Rightarrow> (r, s1)
           | (None, s1) \<Rightarrow> ext_execute env k p s1))"

definition exit_all :: "ext_env \<Rightarrow> order_payload \<Rightarrow> 'r ext_state \<Rightarrow> 'r ext_result \<times> 'r ext_state" where
  "exit_all env p s =
     (case mutation_check (xe_production env) ''place'' (xs_risk s) of
        Some t \<Rightarrow> (Ext_Failure (Switch_On t) True, s)
      | None \<Rightarrow> ext_execute env Exit_All p s)"

text \<open>The switch of the broker first, then that of the risk manager.\<close>

definition ext_set_kill_switch :: "ext_env \<Rightarrow> order_payload \<Rightarrow> 'r ext_state \<Rightarrow> 'r ext_result \<times> 'r ext_state" where
  "ext_set_kill_switch env p s =
     (case ext_execute env Kill_Switch_Update p s of
        (Ext_Failure e b, s1) \<Rightarrow> (Ext_Failure e b, s1)
      | (Ext_Success r, s1) \<Rightarrow>
          (Ext_Success r, s1\<lparr>xs_risk := map_option (\<lambda>m. set_kill_switch m (\<exists>u \<in> set (pl_updates p). u)) (xs_risk s1)\<rparr>))"

section \<open>Endpoints\<close>

datatype http_error =
    Service_Unavailable
  | Spine_Blocked
  | Forbidden auth_error
  | Refused ext_error
  | Bad_Gateway ext_error
  | Internal exn

record live_service =
  ls_broker :: string
  ls_allow_live_orders :: bool
  ls_actionable :: bool
  ls_connected :: bool

definition service_env :: "bool \<Rightarrow> risk_env \<Rightarrow> live_service option \<Rightarrow> live_env" where
  "service_env production renv svc =
     (case svc of
        None \<Rightarrow> \<lparr>lv_production = production, lv_broker = ''unknown'', lv_allow_live_orders = False, lv_actionable = Some False, lv_risk = renv\<rparr>
      | Some v \<Rightarrow>
          \<lparr>lv_production = production, lv_broker = (if ls_broker v = [] then ''unknown'' else ls_broker v), lv_allow_live_orders = ls_allow_live_orders v,
           lv_actionable = Some (ls_actionable v), lv_risk = renv\<rparr>)"

record api_env =
  ap_production :: bool
  ap_live_target :: bool
  ap_risk :: risk_env
  ap_service :: "live_service option"

definition http_of :: "auth_error \<Rightarrow> http_error" where
  "http_of e = (case e of Escaped x \<Rightarrow> Internal x | _ \<Rightarrow> Forbidden e)"

definition enforce_live_order_authority ::
  "api_env \<Rightarrow> string \<Rightarrow> order_payload option \<Rightarrow> risk_manager option \<Rightarrow> http_error option \<times> risk_manager option" where
  "enforce_live_order_authority env action p rm =
     (case authorize_live_order (service_env (ap_production env) (ap_risk env) (ap_service env)) action p rm of
        (e, rm1) \<Rightarrow> (map_option http_of e, rm1))"

definition require_live_broker :: "api_env \<Rightarrow> risk_manager option \<Rightarrow> http_error option" where
  "require_live_broker env rm =
     (case ap_service env of
        None \<Rightarrow> Some Service_Unavailable
      | Some v \<Rightarrow>
          (case fst (authorize_live_order (service_env (ap_production env) (ap_risk env) (Some v)) ''place'' None rm) of
             Some e \<Rightarrow> Some (http_of e)
           | None \<Rightarrow> if ls_connected v then None else Some Service_Unavailable))"

definition spine_policy :: "api_env \<Rightarrow> http_error option" where
  "spine_policy env = (if \<not> ap_live_target env \<or> ap_production env then Some Spine_Blocked else None)"

definition api_ext_env :: "api_env \<Rightarrow> ext_env" where
  "api_ext_env env =
     \<lparr>xe_production = ap_production env, xe_risk = ap_risk env,
      xe_broker = (case ap_service env of None \<Rightarrow> ''unknown'' | Some v \<Rightarrow> ls_broker v)\<rparr>"

text \<open>A request is an order of a kind, a change of the kill switch, or the toggle of the risk routes.\<close>

datatype api_request = Order_Request ext_kind order_payload | Switch_Request order_payload | Toggle_Request

definition with_broker ::
  "api_env \<Rightarrow> ('r ext_state \<Rightarrow> (http_error + 'r) \<times> 'r ext_state) \<Rightarrow> 'r ext_state \<Rightarrow> (http_error + 'r) \<times> 'r ext_state" where
  "with_broker env f s =
     (case require_live_broker env (xs_risk s) of
        Some e \<Rightarrow> (Inl e, s)
      | None \<Rightarrow> if xs_risk s = None then (Inl Service_Unavailable, s) else f s)"

definition order_endpoint :: "api_env \<Rightarrow> ext_kind \<Rightarrow> order_payload \<Rightarrow> 'r ext_state \<Rightarrow> (http_error + 'r) \<times> 'r ext_state" where
  "order_endpoint env k p s =
     (case spine_policy env of
        Some e \<Rightarrow> (Inl e, s)
      | None \<Rightarrow>
          with_broker env
            (\<lambda>s. case (if k = Exit_All then exit_all (api_ext_env env) p s else place_extended (api_ext_env env) k p s) of
               (Ext_Success r, s1) \<Rightarrow> (Inr r, s1)
             | (Ext_Failure e rejected, s1) \<Rightarrow> (Inl (if rejected then Refused e else Bad_Gateway e), s1)) s)"

definition live_broker_kill_switch :: "api_env \<Rightarrow> order_payload \<Rightarrow> 'r ext_state \<Rightarrow> (http_error + 'r) \<times> 'r ext_state" where
  "live_broker_kill_switch env p =
     with_broker env
       (\<lambda>s. case ext_set_kill_switch (api_ext_env env) p s of
          (Ext_Success r, s1) \<Rightarrow> (Inr r, s1)
        | (Ext_Failure e rejected, s1) \<Rightarrow> (Inl (Bad_Gateway e), s1))"

definition toggle_kill_switch :: "'r ext_state \<Rightarrow> (http_error + bool) \<times> 'r ext_state" where
  "toggle_kill_switch s =
     (case xs_risk s of
        None \<Rightarrow> (Inl Service_Unavailable, s)
      | Some r \<Rightarrow>
          (let r1 = set_kill_switch r (\<not> ks_is_active (rk_kill r)) in
           (Inr (ks_is_active (rk_kill r1)), s\<lparr>xs_risk := Some r1\<rparr>)))"

fun api_step :: "'r ext_state \<Rightarrow> api_env \<times> api_request \<Rightarrow> 'r ext_state" where
  "api_step s (env, Order_Request k p) = snd (order_endpoint env k p s)"
| "api_step s (env, Switch_Request p) = snd (live_broker_kill_switch env p s)"
| "api_step s (env, Toggle_Request) = snd (toggle_kill_switch s)"

section \<open>Facts\<close>

lemma live_block_none:
  "live_block env = None \<longleftrightarrow> (is_live_broker (lv_broker env) \<longrightarrow> lv_actionable env = Some True \<and> lv_allow_live_orders env)"
  by (auto simp: live_block_def)

lemma mutation_check_none:
  "mutation_check production action rm = None \<longleftrightarrow>
     (case rm of None \<Rightarrow> \<not> production | Some r \<Rightarrow> \<not> ks_is_active (rk_kill r))"
  by (auto simp: mutation_check_def split: option.splits)

text \<open>An order without a correlation id reserves nothing.\<close>

lemma mc_drop_get: "dict_get (mc_pending (mc_drop m c)) k = (if k = c then None else dict_get (mc_pending m) k)"
  by (simp add: mc_drop_def)

lemma mc_sweep_get: "dict_get (mc_pending (mc_sweep m now)) k = Some n \<Longrightarrow> dict_get (mc_pending m) k = Some n"
proof -
  have "dict_get (mc_pending (foldl mc_drop m cs)) k = Some n \<Longrightarrow> dict_get (mc_pending m) k = Some n" for cs
  proof (induction cs arbitrary: m)
    case (Cons c cs)
    from Cons.IH[of "mc_drop m c"] Cons.prems show ?case by (simp add: mc_drop_get split: if_splits)
  qed simp
  then show "dict_get (mc_pending (mc_sweep m now)) k = Some n \<Longrightarrow> ?thesis" by (simp add: mc_sweep_def)
qed

lemma reserve_none_get:
  "o_correlation_id ord = None \<Longrightarrow> dict_get (mc_pending (mc_reserve m now ord n)) k = Some v \<Longrightarrow> dict_get (mc_pending m) k = Some v"
  by (auto simp: mc_reserve_def Let_def dest: mc_sweep_get)

lemma check_order_pending:
  assumes "o_correlation_id ord = None" "dict_get (mc_pending (rk_margin (snd (check_order rm env ord)))) k = Some v"
  shows "dict_get (mc_pending (rk_margin rm)) k = Some v"
proof -
  obtain r rm1 where c: "run_policy_chain pre_trade_policies env ord rm = (r, rm1)"
    by (cases "run_policy_chain pre_trade_policies env ord rm")
  have f: "rk_margin rm1 = rk_margin rm" using chain_frame[of pre_trade_policies env ord rm] by (simp add: c)
  have "dict_get (mc_pending (rk_margin (snd (check_limits rm1 env ord x n)))) k = Some v \<Longrightarrow> ?thesis" for x n
    using assms(1) f
    by (auto simp: check_limits_def Let_def case_prod_beta check_exposure_result dest!: reserve_none_get mc_sweep_get split: if_splits)
  then show ?thesis using assms(2) f by (auto simp: check_order_def c split: sum.splits option.splits if_splits)
qed

lemma payload_order_plain: "payload_order p = Inr ord \<Longrightarrow> o_correlation_id ord = None \<and> o_order_id ord = []"
  by (auto simp: payload_order_def order_new_def split: sum.splits num_in.splits)

text \<open>
  C18: what the authority in front of live orders lets pass. An action passes exactly when a live
  broker is ready and has its orders enabled, a risk manager is there or the environment is not
  production, the kill switch is off, and the order of the payload, if there is one, can be
  built and is approved by the risk manager. The check reserves nothing, so it does not count
  against the orders that are checked after it.
\<close>

theorem authority_passes_iff:
  "(fst (authorize_live_order env action payload rm) = None \<longleftrightarrow>
     (is_live_broker (lv_broker env) \<longrightarrow> lv_actionable env = Some True \<and> lv_allow_live_orders env) \<and>
     (case rm of
        None \<Rightarrow> \<not> lv_production env
      | Some r \<Rightarrow> \<not> ks_is_active (rk_kill r) \<and>
          (case payload of
             None \<Rightarrow> True
           | Some p \<Rightarrow> (case payload_order p of Inl e \<Rightarrow> False | Inr ord \<Rightarrow> fst (check_order r (lv_risk env) ord) = Inr Allowed)))) \<and>
   (rm = Some r \<and> snd (authorize_live_order env action payload rm) = Some r1 \<and> dict_get (mc_pending (rk_margin r1)) k = Some v \<longrightarrow>
      dict_get (mc_pending (rk_margin r)) k = Some v)"
proof (intro conjI impI)
  show "fst (authorize_live_order env action payload rm) = None \<longleftrightarrow>
     (is_live_broker (lv_broker env) \<longrightarrow> lv_actionable env = Some True \<and> lv_allow_live_orders env) \<and>
     (case rm of
        None \<Rightarrow> \<not> lv_production env
      | Some r \<Rightarrow> \<not> ks_is_active (rk_kill r) \<and>
          (case payload of
             None \<Rightarrow> True
           | Some p \<Rightarrow> (case payload_order p of Inl e \<Rightarrow> False | Inr ord \<Rightarrow> fst (check_order r (lv_risk env) ord) = Inr Allowed)))"
    unfolding live_block_none[symmetric]
    by (auto simp: authorize_live_order_def mutation_check_def split: option.splits sum.splits prod.splits risk_result.splits)
next
  assume a: "rm = Some r \<and> snd (authorize_live_order env action payload rm) = Some r1 \<and> dict_get (mc_pending (rk_margin r1)) k = Some v"
  have c: "check_order r (lv_risk env) ord = (x, r1) \<Longrightarrow> r1 = snd (check_order r (lv_risk env) ord)" for ord x by simp
  have "r1 = r \<or> (\<exists>ord. o_correlation_id ord = None \<and> r1 = snd (check_order r (lv_risk env) ord))"
    using a by (auto simp: authorize_live_order_def split: option.splits sum.splits prod.splits risk_result.splits dest!: payload_order_plain c)
  with a check_order_pending show "dict_get (mc_pending (rk_margin r)) k = Some v" by blast
qed

definition sample_payload :: order_payload where
  "sample_payload =
     \<lparr>pl_symbol = Some ''INFY'', pl_exchange = None, pl_side = None, pl_order_type = Some ''LIMIT'', pl_quantity = Some (Inr 10),
      pl_price = Some (Fin 100), pl_product_type = None, pl_validity = None, pl_updates = []\<rparr>"

definition sample_live :: live_env where
  "sample_live =
     \<lparr>lv_production = True, lv_broker = ''Dhan'', lv_allow_live_orders = True, lv_actionable = Some True, lv_risk = sample_env\<rparr>"

lemma sample_live_fields:
  "is_live_broker (lv_broker sample_live)" "lv_actionable sample_live = Some True" "lv_allow_live_orders sample_live"
  by (simp_all add: sample_live_def) code_simp

definition sample_manager :: risk_manager where
  "sample_manager = rk_init sample_config None False None False"

lemma sample_manager_off: "\<not> ks_is_active (rk_kill sample_manager)"
  by (simp add: sample_manager_def rk_init_def sample_config_def ks_is_active_def)

theorem authority_passes_iff_witness:
  "fst (authorize_live_order sample_live ''place'' None (Some sample_manager)) = None \<and>
   fst (authorize_live_order (sample_live\<lparr>lv_actionable := None\<rparr>) ''place'' None (Some sample_manager)) \<noteq> None"
proof -
  note a = authority_passes_iff[of sample_live "''place''" None "Some sample_manager", THEN conjunct1]
  note b = authority_passes_iff[of "sample_live\<lparr>lv_actionable := None\<rparr>" "''place''" None "Some sample_manager", THEN conjunct1]
  show ?thesis unfolding a b using sample_live_fields sample_manager_off by simp
qed

section \<open>Extended orders and the kill switch\<close>

lemma ext_execute_calls:
  "xs_risk (snd (ext_execute env k p s)) = xs_risk s"
  "xs_calls (snd (ext_execute env k p s)) = xs_calls s \<or> xs_calls (snd (ext_execute env k p s)) = xs_calls s @ [(k, p)]"
  by (auto simp: ext_execute_def Let_def split: sum.splits)

lemma ext_risk_calls: "xs_calls (snd (ext_risk_check env p s)) = xs_calls s"
  by (simp add: ext_risk_check_def split: option.splits sum.splits prod.splits risk_result.splits)

lemma ext_risk_passes:
  "fst (ext_risk_check env p s) = None \<Longrightarrow> xs_risk s = Some r \<Longrightarrow>
   (case payload_order p of Inl e \<Rightarrow> False | Inr ord \<Rightarrow> fst (check_order r (xe_risk env) ord) = Inr Allowed)"
  by (auto simp: ext_risk_check_def split: option.splits sum.splits prod.splits risk_result.splits)

lemma ext_risk_state:
  "xs_risk s = Some r \<Longrightarrow>
   xs_risk (snd (ext_risk_check env p s)) = Some r \<or>
   (\<exists>ord. o_correlation_id ord = None \<and> xs_risk (snd (ext_risk_check env p s)) = Some (snd (check_order r (xe_risk env) ord)))"
proof -
  assume r: "xs_risk s = Some r"
  show ?thesis
  proof (cases "payload_order p")
    case (Inl e)
    then show ?thesis using r by (simp add: ext_risk_check_def)
  next
    case (Inr ord)
    have "xs_risk (snd (ext_risk_check env p s)) = Some (snd (check_order r (xe_risk env) ord))"
      using r Inr by (simp add: ext_risk_check_def split: sum.splits prod.splits risk_result.splits)
    with payload_order_plain[OF Inr] show ?thesis by blast
  qed
qed

lemma place_extended_cases:
  "xs_calls (snd (place_extended env k p s)) = xs_calls s \<or>
   xs_calls (snd (place_extended env k p s)) = xs_calls s @ [(k, p)] \<and>
     mutation_check (xe_production env) ''place'' (xs_risk s) = None \<and> fst (ext_risk_check env p s) = None"
  using ext_execute_calls(2)[of env k p "snd (ext_risk_check env p s)"] ext_risk_calls[of env p s]
  by (cases "ext_risk_check env p s") (auto simp: place_extended_def split: option.splits)

lemma place_extended_risk:
  "xs_risk s = Some r \<Longrightarrow>
   xs_risk (snd (place_extended env k p s)) = Some r \<or>
   (\<exists>ord. o_correlation_id ord = None \<and> xs_risk (snd (place_extended env k p s)) = Some (snd (check_order r (xe_risk env) ord)))"
  using ext_risk_state[of s r env p] ext_execute_calls(1)[of env k p "snd (ext_risk_check env p s)"]
  by (cases "ext_risk_check env p s") (auto simp: place_extended_def split: option.splits)

text \<open>
  C16: what reaches a broker's extension. An order of a special kind is handed to the extension
  at most once, and only if the guard lets it pass, that is with the kill switch off and, in
  production, with a risk manager, and if the risk manager, where there is one, approved the order
  built of its payload. But it reserves nothing: whatever was pending after it was pending
  before, so its notional does not count against the next orders.
\<close>

theorem extension_reached_if_approved:
  "let s1 = snd (place_extended env k p s) in
   (xs_calls s1 = xs_calls s \<or>
    xs_calls s1 = xs_calls s @ [(k, p)] \<and>
      (case xs_risk s of
         None \<Rightarrow> \<not> xe_production env
       | Some r \<Rightarrow> \<not> ks_is_active (rk_kill r) \<and>
           (case payload_order p of Inl e \<Rightarrow> False | Inr ord \<Rightarrow> fst (check_order r (xe_risk env) ord) = Inr Allowed))) \<and>
   (xs_risk s = Some r \<and> xs_risk s1 = Some r1 \<and> dict_get (mc_pending (rk_margin r1)) c = Some v \<longrightarrow>
      dict_get (mc_pending (rk_margin r)) c = Some v)"
proof -
  let ?s1 = "snd (place_extended env k p s)"
  have a: "xs_calls ?s1 = xs_calls s \<or>
    xs_calls ?s1 = xs_calls s @ [(k, p)] \<and>
      (case xs_risk s of
         None \<Rightarrow> \<not> xe_production env
       | Some r \<Rightarrow> \<not> ks_is_active (rk_kill r) \<and>
           (case payload_order p of Inl e \<Rightarrow> False | Inr ord \<Rightarrow> fst (check_order r (xe_risk env) ord) = Inr Allowed))"
    using place_extended_cases[of env k p s] ext_risk_passes[of env p s]
    unfolding mutation_check_none by (cases "xs_risk s") auto
  have b: "dict_get (mc_pending (rk_margin r)) c = Some v"
    if h: "xs_risk s = Some r" "xs_risk ?s1 = Some r1" "dict_get (mc_pending (rk_margin r1)) c = Some v"
    using place_extended_risk[OF h(1), of env k p]
  proof
    assume "xs_risk ?s1 = Some r"
    with h show ?thesis by simp
  next
    assume "\<exists>ord. o_correlation_id ord = None \<and> xs_risk ?s1 = Some (snd (check_order r (xe_risk env) ord))"
    then obtain ord where "o_correlation_id ord = None" "r1 = snd (check_order r (xe_risk env) ord)" using h(2) by auto
    with h(3) show ?thesis using check_order_pending by blast
  qed
  from a b show ?thesis unfolding Let_def by blast
qed

section \<open>The trap of the kill switch\<close>

text \<open>The state in which the switch is on, and the requests other than the toggle of the risk routes.\<close>

definition switch_on :: "'r ext_state \<Rightarrow> bool" where
  "switch_on s \<longleftrightarrow> (\<exists>r. xs_risk s = Some r \<and> ks_is_active (rk_kill r))"

lemma switch_refuses: "switch_on s \<Longrightarrow> \<exists>e. require_live_broker env (xs_risk s) = Some e"
  by (auto simp: switch_on_def require_live_broker_def authorize_live_order_def mutation_check_def split: option.splits)

lemma switch_step: "switch_on s \<Longrightarrow> snd x \<noteq> Toggle_Request \<Longrightarrow> api_step s x = s"
proof -
  assume s: "switch_on s" and x: "snd x \<noteq> Toggle_Request"
  have w: "snd (with_broker env f s) = s" for env and f :: "'a ext_state \<Rightarrow> (http_error + 'a) \<times> 'a ext_state"
    using switch_refuses[OF s, of env] by (auto simp: with_broker_def)
  obtain env q where "x = (env, q)" by (cases x)
  with x w show ?thesis by (cases q) (simp_all add: order_endpoint_def live_broker_kill_switch_def split: option.splits)
qed

lemma switch_run: "switch_on s \<Longrightarrow> list_all (\<lambda>x. snd x \<noteq> Toggle_Request) reqs \<Longrightarrow> run_ops api_step s reqs = s"
  by (induction reqs) (auto simp: switch_step)

lemma set_kill_switch_is: "ks_is_active (rk_kill (set_kill_switch r a)) = a"
  by (cases "ks_domain (rk_kill r)")
     (auto simp: set_kill_switch_def ks_set_def ks_is_active_def rk_publish_def Let_def)

lemma ext_switch_risk:
  "case ext_set_kill_switch env p s of
     (Ext_Failure e b, s1) \<Rightarrow> xs_risk s1 = xs_risk s
   | (Ext_Success a, s1) \<Rightarrow> xs_risk s1 = map_option (\<lambda>m. set_kill_switch m (\<exists>u \<in> set (pl_updates p). u)) (xs_risk s)"
  using ext_execute_calls(1)[of env Kill_Switch_Update p s]
  by (auto simp: ext_set_kill_switch_def split: prod.splits ext_result.splits)

text \<open>
  C17: the kill switch of the live routes can be turned on but not off. When a request of that
  route succeeds and one of its updates enables the switch, then from there on no request of the
  live routes changes anything: no order of a special kind, no exit of all positions and no
  further request of the switch itself, which is refused because the switch is on. Only the
  toggle of the risk routes gets out. And when the broker's own switch fails, the switch of the
  risk manager is left as it was, while a request without updates releases it.
\<close>

theorem kill_switch_request_is_final:
  "(live_broker_kill_switch env p s = (Inr a, s1) \<and> (\<exists>u \<in> set (pl_updates p). u) \<and> list_all (\<lambda>x. snd x \<noteq> Toggle_Request) reqs \<longrightarrow>
      (\<exists>r. xs_risk s1 = Some r \<and> ks_is_active (rk_kill r)) \<and> run_ops api_step s1 reqs = s1) \<and>
   (live_broker_kill_switch env p s = (Inl e, s1) \<longrightarrow> xs_risk s1 = xs_risk s) \<and>
   (live_broker_kill_switch env p s = (Inr a, s1) \<and> pl_updates p = [] \<longrightarrow>
      (\<exists>r. xs_risk s1 = Some r \<and> \<not> ks_is_active (rk_kill r)))"
proof -
  have ok: "\<exists>r. xs_risk s1 = Some (set_kill_switch r (\<exists>u \<in> set (pl_updates p). u))" if "live_broker_kill_switch env p s = (Inr a, s1)"
    using that ext_switch_risk[where env = "api_ext_env env" and p = p and s = s]
    by (auto simp: live_broker_kill_switch_def with_broker_def split: option.splits if_splits prod.splits ext_result.splits)
  have failed: "xs_risk s1 = xs_risk s" if "live_broker_kill_switch env p s = (Inl e, s1)"
    using that ext_switch_risk[where env = "api_ext_env env" and p = p and s = s]
    by (auto simp: live_broker_kill_switch_def with_broker_def split: option.splits if_splits prod.splits ext_result.splits)
  have final: "(\<exists>r. xs_risk s1 = Some r \<and> ks_is_active (rk_kill r)) \<and> run_ops api_step s1 reqs = s1"
    if "live_broker_kill_switch env p s = (Inr a, s1)" "\<exists>u \<in> set (pl_updates p). u" "list_all (\<lambda>x. snd x \<noteq> Toggle_Request) reqs"
  proof -
    have on: "switch_on s1" using ok[OF that(1)] that(2) by (auto simp: switch_on_def set_kill_switch_is)
    with switch_run[OF on that(3)] show ?thesis unfolding switch_on_def by blast
  qed
  have released: "\<exists>r. xs_risk s1 = Some r \<and> \<not> ks_is_active (rk_kill r)"
    if "live_broker_kill_switch env p s = (Inr a, s1)" "pl_updates p = []"
    using ok[OF that(1)] that(2) set_kill_switch_is by fastforce
  from final failed released show ?thesis by blast
qed

definition sample_api :: api_env where
  "sample_api =
     \<lparr>ap_production = False, ap_live_target = True, ap_risk = sample_env,
      ap_service = Some \<lparr>ls_broker = ''dhan'', ls_allow_live_orders = True, ls_actionable = True, ls_connected = True\<rparr>\<rparr>"

definition sample_ext :: "nat ext_state" where
  "sample_ext =
     \<lparr>xs_risk = Some sample_manager, xs_extensions = Some [(''dhan'', [(''OrderCapabilityPort'', (\<lambda>k p. Inr 7))])],
      xs_calls = [], xs_events = []\<rparr>"

lemma sample_switch:
  "fst (live_broker_kill_switch sample_api (sample_payload\<lparr>pl_updates := [True]\<rparr>) sample_ext) = Inr 7"
  by code_simp

theorem kill_switch_request_is_final_witness:
  "\<exists>s1. live_broker_kill_switch sample_api (sample_payload\<lparr>pl_updates := [True]\<rparr>) sample_ext = (Inr 7, s1) \<and>
     run_ops api_step s1 [(sample_api, Switch_Request sample_payload), (sample_api, Order_Request Exit_All sample_payload)] = s1"
proof -
  obtain s1 where s1: "live_broker_kill_switch sample_api (sample_payload\<lparr>pl_updates := [True]\<rparr>) sample_ext = (Inr 7, s1)"
    using sample_switch by (metis prod.collapse)
  have r: "\<exists>u \<in> set (pl_updates (sample_payload\<lparr>pl_updates := [True]\<rparr>)). u" by simp
  have l: "list_all (\<lambda>x. snd x \<noteq> Toggle_Request)
      [(sample_api, Switch_Request sample_payload), (sample_api, Order_Request Exit_All sample_payload)]" by simp
  show ?thesis using kill_switch_request_is_final[THEN conjunct1, rule_format, OF conjI[OF s1 conjI[OF r l]]] s1 by blast
qed

lemma sample_extended:
  "xs_calls (snd (place_extended (api_ext_env sample_api) Super_Order sample_payload sample_ext)) = [(Super_Order, sample_payload)]"
  by code_simp

theorem extension_reached_if_approved_witness:
  "xs_calls (snd (place_extended (api_ext_env sample_api) Super_Order sample_payload sample_ext)) = [(Super_Order, sample_payload)] \<and>
   \<not> ks_is_active (rk_kill sample_manager) \<and>
   (\<exists>ord. payload_order sample_payload = Inr ord \<and> fst (check_order sample_manager sample_env ord) = Inr Allowed)"
proof -
  have f: "xs_risk sample_ext = Some sample_manager" "xs_calls sample_ext = []" "xe_risk (api_ext_env sample_api) = sample_env"
    by (simp_all add: sample_ext_def api_ext_env_def sample_api_def)
  note a = extension_reached_if_approved[of "api_ext_env sample_api" Super_Order sample_payload sample_ext,
      unfolded Let_def, THEN conjunct1]
  show ?thesis using a unfolding sample_extended f by (auto split: sum.splits)
qed

end
