(* ===== verification/Fund_Allocator.thy ===== *)
theory Fund_Allocator
  imports Decimals
begin

text \<open>
  Capital pools of strategies and the slicing of large quantities
  (\<open>application/portfolio/fund_allocator.py\<close>). The lock of the pools is part of their state: an
  operation that asks for a lock that is held waits for ever, since one thread is followed, and
  an operation that does not return has the answer \<open>None\<close>. Messages are constructors.
\<close>

section \<open>Slices\<close>

partial_function (option) slice_loop :: "int \<Rightarrow> int \<Rightarrow> int list option" where
  "slice_loop m remaining =
     (if remaining \<le> 0 then Some []
      else Option.bind (slice_loop m (remaining - min remaining m)) (\<lambda>xs. Some (min remaining m # xs)))"

declare slice_loop.simps [code]

definition slice_quantity :: "int \<Rightarrow> int \<Rightarrow> int list option" where
  "slice_quantity m quantity =
     (if quantity \<le> 0 then Some [] else if quantity \<le> m then Some [quantity] else slice_loop m quantity)"

lemma slice_loop_returns:
  assumes "0 < m"
  shows "\<exists>xs. slice_loop m q = Some xs \<and> sum_list xs = max 0 q \<and> list_all (\<lambda>x. 0 < x \<and> x \<le> m) xs \<and> list_all (\<lambda>x. x = m) (butlast xs)"
proof (induction "nat q" arbitrary: q rule: less_induct)
  case less
  show ?case
  proof (cases "q \<le> 0")
    case True
    then show ?thesis by (simp add: slice_loop.simps)
  next
    case pos: False
    show ?thesis
    proof (cases "q \<le> m")
      case True
      have "slice_loop m q = Some [q]"
        using pos True by (subst slice_loop.simps) (simp add: slice_loop.simps[of m 0])
      with True pos show ?thesis by simp
    next
      case False
      then obtain xs where xs: "slice_loop m (q - m) = Some xs" "sum_list xs = q - m"
        "list_all (\<lambda>x. 0 < x \<and> x \<le> m) xs" "list_all (\<lambda>x. x = m) (butlast xs)"
        using assms pos less[of "q - m"] by auto
      have "slice_loop m q = Some (m # xs)" using False pos xs(1) by (subst slice_loop.simps) simp
      with False assms pos xs show ?thesis by auto
    qed
  qed
qed

lemma slice_loop_sticks:
  assumes "slice_loop m q = Some xs"
  shows "q \<le> 0 \<or> 0 < m"
proof (rule slice_loop.raw_induct[where P = "\<lambda>m q xs. q \<le> 0 \<or> 0 < m", OF _ assms])
  fix loop :: "int \<Rightarrow> int \<Rightarrow> int list option" and m q xs
  assume ih: "\<And>m q xs. loop m q = Some xs \<Longrightarrow> q \<le> 0 \<or> 0 < m"
    and eq: "(if q \<le> 0 then Some [] else Option.bind (loop m (q - min q m)) (\<lambda>xs. Some (min q m # xs))) = Some xs"
  show "q \<le> 0 \<or> 0 < m"
  proof (rule ccontr)
    assume n: "\<not> (q \<le> 0 \<or> 0 < m)"
    with eq obtain ys where "loop m (q - min q m) = Some ys" by (auto simp: bind_eq_Some_conv)
    from ih[OF this] n show False by (simp add: min_def split: if_splits)
  qed
qed

text \<open>
  C23: slicing returns exactly when it can. With a positive limit, a quantity is cut into slices
  that are positive, within the limit, all but the last at the limit, and that add up to it; a
  quantity that is not positive gives none. With a limit that is not positive the loop does not
  return for any positive quantity.
\<close>

theorem slices_cover_or_hang:
  "case slice_quantity m q of
     None \<Rightarrow> m \<le> 0 \<and> 0 < q
   | Some xs \<Rightarrow> sum_list xs = max 0 q \<and> list_all (\<lambda>x. 0 < x \<and> x \<le> m) xs \<and> list_all (\<lambda>x. x = m) (butlast xs)"
proof (cases "0 < m")
  case True
  then show ?thesis using slice_loop_returns[OF True, of q] by (auto simp: slice_quantity_def)
next
  case False
  then show ?thesis using slice_loop_sticks[of m q] by (cases "slice_loop m q") (auto simp: slice_quantity_def)
qed

section \<open>Pools\<close>

record allocator =
  fa_total :: rat
  fa_allocated :: "(string, rat) dict"
  fa_reserved :: "(string, rat) dict"
  fa_locked :: bool

definition allocator_new :: "rat \<Rightarrow> allocator" where
  "allocator_new capital = \<lparr>fa_total = capital, fa_allocated = [], fa_reserved = [], fa_locked = False\<rparr>"

text \<open>\<open>with self._lock\<close> for a lock that the thread holding it cannot take again.\<close>

definition with_lock :: "(allocator \<Rightarrow> 'a option \<times> allocator) \<Rightarrow> allocator \<Rightarrow> 'a option \<times> allocator" where
  "with_lock body s =
     (if fa_locked s then (None, s)
      else
        (case body (s\<lparr>fa_locked := True\<rparr>) of
           (None, s1) \<Rightarrow> (None, s1)
         | (Some a, s1) \<Rightarrow> (Some a, s1\<lparr>fa_locked := False\<rparr>)))"

datatype capital_error = InsufficientCapital string rat rat

definition pool_get :: "(string, rat) dict \<Rightarrow> string \<Rightarrow> rat" where
  "pool_get d name = (case dict_get d name of None \<Rightarrow> 0 | Some c \<Rightarrow> c)"

definition allocate_strategy_pool :: "string \<Rightarrow> rat \<Rightarrow> allocator \<Rightarrow> unit option \<times> allocator" where
  "allocate_strategy_pool name capital =
     with_lock (\<lambda>s.
       (Some (), s\<lparr>fa_allocated := dict_put (fa_allocated s) name capital,
                   fa_reserved := (if dict_get (fa_reserved s) name = None then dict_put (fa_reserved s) name 0 else fa_reserved s)\<rparr>))"

definition get_available_capital :: "string \<Rightarrow> allocator \<Rightarrow> rat option \<times> allocator" where
  "get_available_capital name =
     with_lock (\<lambda>s. (Some (max 0 (dec_sub (pool_get (fa_allocated s) name) (pool_get (fa_reserved s) name))), s))"

definition reserve_margin :: "string \<Rightarrow> rat \<Rightarrow> allocator \<Rightarrow> (capital_error + bool) option \<times> allocator" where
  "reserve_margin name required =
     with_lock (\<lambda>s.
       case get_available_capital name s of
         (None, s1) \<Rightarrow> (None, s1)
       | (Some available, s1) \<Rightarrow>
           if available < required then (Some (Inl (InsufficientCapital name required available)), s1)
           else (Some (Inr True), s1\<lparr>fa_reserved := dict_put (fa_reserved s1) name (dec_add (pool_get (fa_reserved s1) name) required)\<rparr>))"

definition release_margin :: "string \<Rightarrow> rat \<Rightarrow> allocator \<Rightarrow> unit option \<times> allocator" where
  "release_margin name released =
     with_lock (\<lambda>s. (Some (), s\<lparr>fa_reserved := dict_put (fa_reserved s) name (max 0 (dec_sub (pool_get (fa_reserved s) name) released))\<rparr>))"

datatype pool_op = Allocate string rat | Available string | Reserve string rat | Release string rat

text \<open>Whether an operation returns, and the state it leaves.\<close>

fun pool_call :: "allocator \<Rightarrow> pool_op \<Rightarrow> bool \<times> allocator" where
  "pool_call s (Allocate name c) = (case allocate_strategy_pool name c s of (a, s1) \<Rightarrow> (a \<noteq> None, s1))"
| "pool_call s (Available name) = (case get_available_capital name s of (a, s1) \<Rightarrow> (a \<noteq> None, s1))"
| "pool_call s (Reserve name c) = (case reserve_margin name c s of (a, s1) \<Rightarrow> (a \<noteq> None, s1))"
| "pool_call s (Release name c) = (case release_margin name c s of (a, s1) \<Rightarrow> (a \<noteq> None, s1))"

definition pool_step :: "allocator \<Rightarrow> pool_op \<Rightarrow> allocator" where
  "pool_step s op = snd (pool_call s op)"

fun is_reserve :: "pool_op \<Rightarrow> bool" where
  "is_reserve (Reserve name c) = True"
| "is_reserve op = False"

lemma pool_call_locked: "fa_locked s \<Longrightarrow> pool_call s op = (False, s)"
  by (cases op) (simp_all add: with_lock_def allocate_strategy_pool_def get_available_capital_def reserve_margin_def release_margin_def)

lemma pool_call_returns: "fst (pool_call s op) \<longleftrightarrow> \<not> fa_locked s \<and> \<not> is_reserve op"
  by (cases op) (simp_all add: with_lock_def allocate_strategy_pool_def get_available_capital_def reserve_margin_def release_margin_def)

lemma reserve_locks:
  "snd (reserve_margin name c s) = s\<lparr>fa_locked := True\<rparr>" "fst (reserve_margin name c s) = None"
  by (auto simp: reserve_margin_def with_lock_def get_available_capital_def)

lemma locked_run: "fa_locked s \<Longrightarrow> run_ops pool_step s ops = s"
  by (induction ops) (simp_all add: pool_step_def pool_call_locked)

text \<open>
  Reserving margin never returns. A reservation takes the lock of the pools and then asks for
  the available capital, which takes it again. So the operations that return are those other
  than a reservation while the lock is free; a reservation itself reserves nothing, keeps the
  lock, and after it no operation on any pool returns or changes anything.
\<close>

theorem reserve_margin_never_returns:
  "(fst (pool_call s op) \<longleftrightarrow> \<not> fa_locked s \<and> \<not> is_reserve op) \<and>
   (let s1 = pool_step s (Reserve name required) in
    s1 = s\<lparr>fa_locked := True\<rparr> \<and> run_ops pool_step s1 ops = s1 \<and> \<not> fst (pool_call (run_ops pool_step s1 ops) op))"
proof -
  have s1: "pool_step s (Reserve name required) = s\<lparr>fa_locked := True\<rparr>"
    using reserve_locks(1)[of name required s] by (cases "reserve_margin name required s") (simp add: pool_step_def)
  have r: "run_ops pool_step (s\<lparr>fa_locked := True\<rparr>) ops = s\<lparr>fa_locked := True\<rparr>" by (rule locked_run) simp
  show ?thesis unfolding Let_def s1 r by (simp add: pool_call_returns)
qed

end
