(* ===== verification/Paper_Orders.thy ===== *)
theory Paper_Orders
  imports Order_Manager Instrument_Id Candles
begin

text \<open>
  The paper broker (\<open>brokers/providers/paper/\<close>): orders placed through the order manager and
  filled at once, limit orders that rest until a quote crosses them, cancelling, modifying, and
  the answers of its gateway. It has an order manager, without which it places nothing. Prices
  drawn for a quote, settings and clock readings are arguments; the readings of one call are the
  same. Sides and types are members of their enumerations. That the order manager calls the paper
  broker from inside a submission is not composed; what the inner call does is a placement under a
  correlation id that the book of the order manager holds.
\<close>

section \<open>Simulation settings\<close>

record paper_env =
  px_ltp :: rat
  px_now :: datetime
  px_bps :: rat
  px_ratio :: rat
  px_outside_hours :: bool
  px_market_open :: bool
  px_fresh :: string
  px_intent :: string

definition paper_slippage :: "paper_env \<Rightarrow> rat \<Rightarrow> order_side \<Rightarrow> rat" where
  "paper_slippage env price side =
     (if px_bps env \<le> 0 \<or> price \<le> 0 then price
      else let adj = dec_div (dec_mul price (px_bps env)) 10000 in
        (case side of BUY \<Rightarrow> dec_add price adj | SELL \<Rightarrow> max 0 (dec_sub price adj)))"

definition paper_partial_fill_ratio :: "paper_env \<Rightarrow> rat" where
  "paper_partial_fill_ratio env = (if px_ratio env \<le> 0 then 1 else if 1 < px_ratio env then 1 else px_ratio env)"

definition partial_fill_quantity :: "paper_env \<Rightarrow> int \<Rightarrow> int" where
  "partial_fill_quantity env quantity =
     (if 1 \<le> paper_partial_fill_ratio env then quantity
      else max 1 (min quantity (trunc_int (dec_mul (of_int quantity) (paper_partial_fill_ratio env)))))"

definition fills_allowed_now :: "paper_env \<Rightarrow> string \<Rightarrow> bool" where
  "fills_allowed_now env exch \<longleftrightarrow>
     px_outside_hours env \<or> normalize_exchange exch \<notin> set [''NSE'', ''NFO'', ''BSE'', ''INDEX'', ''MCX''] \<or> px_market_open env"

section \<open>The book\<close>

record 'l paper =
  pp_oms :: "'l oms"
  pp_orders :: "order list"
  pp_trades :: "trade list"
  pp_positions :: "(string, position) dict"
  pp_order_seq :: nat
  pp_trade_seq :: nat

definition paper_new :: "(string, position) dict \<Rightarrow> 'l oms \<Rightarrow> 'l paper" where
  "paper_new ps oms = \<lparr>pp_oms = oms, pp_orders = [], pp_trades = [], pp_positions = ps, pp_order_seq = 0, pp_trade_seq = 0\<rparr>"

text \<open>The key is made of the texts as given, which a placement does not normalise.\<close>

definition update_position :: "trade \<Rightarrow> (string, position) dict \<Rightarrow> (string, position) dict" where
  "update_position t ps =
     (let key = t_symbol t @ '':'' @ t_exchange t;
          old = (case dict_get ps key of
            Some p \<Rightarrow> p | None \<Rightarrow> (position_new (t_symbol t) (t_exchange t))\<lparr>p_product_type := t_product_type t\<rparr>);
          delta = (if t_side t = BUY then t_quantity t else - t_quantity t)
      in dict_put ps key (position_with_fill old delta (t_price t)))"

definition paper_trade_id :: "nat \<Rightarrow> string" where
  "paper_trade_id n = ''PPR-T-'' @ padded 6 n"

definition paper_trade :: "nat \<Rightarrow> datetime \<Rightarrow> string \<Rightarrow> string \<Rightarrow> order_side \<Rightarrow> product_type \<Rightarrow> order \<Rightarrow> rat \<Rightarrow> trade" where
  "paper_trade n now symb exch side product ord price =
     \<lparr>t_trade_id = paper_trade_id n, t_order_id = o_order_id ord, t_symbol = symb, t_exchange = exch, t_side = side,
      t_quantity = o_filled_quantity ord, t_price = price,
      t_trade_value = dec_mul price (of_int (trunc_int (o_filled_quantity ord))), t_timestamp = Some now,
      t_product_type = product, t_correlation_id = None\<rparr>"

definition keep_trade :: "trade \<Rightarrow> 'l paper \<Rightarrow> 'l paper" where
  "keep_trade t s =
     s\<lparr>pp_trade_seq := Suc (pp_trade_seq s), pp_trades := pp_trades s @ [t], pp_positions := update_position t (pp_positions s)\<rparr>"

section \<open>Placing\<close>

record paper_request =
  pr_symbol :: string
  pr_exchange :: string
  pr_side :: order_side
  pr_quantity :: int
  pr_price :: rat
  pr_order_type :: order_type
  pr_product_type :: product_type
  pr_validity :: time_in_force
  pr_trigger_price :: rat
  pr_correlation_id :: "string option"

text \<open>The intent for the order manager; a blank correlation id is replaced by a fresh one.\<close>

definition paper_command :: "paper_env \<Rightarrow> nat \<Rightarrow> paper_request \<Rightarrow> command res" where
  "paper_command env n r =
     (let symb = normalize_symbol (pr_symbol r);
          cid = (case truthy (pr_correlation_id r) of None \<Rightarrow> ''ppr:'' @ show_nat n | Some c \<Rightarrow> c) in
      if pr_quantity r \<le> 0 then Inl (ValueError (''quantity must be positive, got '' @ show_int (pr_quantity r)))
      else if symb = [] then Inl (ValueError ''symbol is required'')
      else Inr \<lparr>cm_symbol = symb, cm_exchange = normalize_exchange (pr_exchange r), cm_side = pr_side r,
                cm_quantity = pr_quantity r, cm_price = pr_price r, cm_order_type = pr_order_type r,
                cm_product_type = pr_product_type r,
                cm_correlation_id = (if is_blank cid then ''intent:'' @ px_intent env else cid)\<rparr>)"

definition paper_price :: "paper_env \<Rightarrow> paper_request \<Rightarrow> rat" where
  "paper_price env r =
     (let price = (if 0 < pr_price r \<and> pr_order_type r = LIMIT then pr_price r else px_ltp env) in
      if pr_order_type r = MARKET then paper_slippage env price (pr_side r) else price)"

definition paper_quantity :: "paper_env \<Rightarrow> paper_request \<Rightarrow> int" where
  "paper_quantity env r = (if pr_order_type r = MARKET then partial_fill_quantity env (pr_quantity r) else pr_quantity r)"

definition paper_order_id :: "nat \<Rightarrow> string" where
  "paper_order_id n = ''PPR-'' @ padded 6 n"

definition paper_fill :: "paper_env \<Rightarrow> paper_request \<Rightarrow> nat \<Rightarrow> command \<Rightarrow> order" where
  "paper_fill env r n c =
     (let ord = (order_of_command (paper_order_id n) c OPEN (px_now env))\<lparr>o_trigger_price := pr_trigger_price r\<rparr>;
          qty = paper_quantity env r in
      if pr_order_type r = MARKET \<and> fills_allowed_now env (pr_exchange r)
      then ord\<lparr>o_filled_quantity := of_int qty, o_avg_price := paper_price env r,
               o_status := (if qty < cm_quantity c then PARTIALLY_FILLED else FILLED)\<rparr>
      else ord)"

text \<open>The trade of a market order that was filled goes into the own book and to the order manager.\<close>

definition paper_execute :: "'l oms_env \<Rightarrow> paper_env \<Rightarrow> paper_request \<Rightarrow> order \<Rightarrow> 'l paper \<Rightarrow> order res \<times> 'l paper" where
  "paper_execute oenv env r ord s =
     (let s1 = s\<lparr>pp_orders := pp_orders s @ [ord]\<rparr> in
      if pr_order_type r = MARKET \<and> o_status ord \<in> {FILLED, PARTIALLY_FILLED}
      then
        (let t = paper_trade (Suc (pp_trade_seq s)) (px_now env) (pr_symbol r) (pr_exchange r) (pr_side r) (pr_product_type r) ord
                   (paper_price env r) in
         case record_trade oenv t (pp_oms s) of
           (Inl e, oms1) \<Rightarrow> (Inl e, (keep_trade t s1)\<lparr>pp_oms := oms1\<rparr>)
         | (Inr b, oms1) \<Rightarrow> (Inr ord, (keep_trade t s1)\<lparr>pp_oms := oms1\<rparr>))
      else (Inr ord, s1))"

definition paper_rejected :: "paper_request \<Rightarrow> nat \<Rightarrow> order" where
  "paper_rejected r n =
     (order_new (paper_order_id n) (pr_symbol r) (pr_exchange r) (pr_side r) (pr_order_type r) (of_int (pr_quantity r)))
       \<lparr>o_price := pr_price r, o_status := REJECTED, o_correlation_id := pr_correlation_id r\<rparr>"

definition paper_place :: "'l oms_env \<Rightarrow> paper_env \<Rightarrow> paper_request \<Rightarrow> 'l paper \<Rightarrow> order res \<times> 'l paper" where
  "paper_place oenv env r s =
     (let n = Suc (pp_order_seq s); s0 = s\<lparr>pp_order_seq := n\<rparr> in
      case paper_command env n r of
        Inl e \<Rightarrow> (Inl e, s0)
      | Inr c \<Rightarrow>
          (case get_order_by_correlation (pp_oms s) (cm_correlation_id c) of
             Some known \<Rightarrow>
               (let ord = paper_fill env r n c in
                paper_execute oenv env r (if o_order_id known = [] then ord else ord\<lparr>o_order_id := o_order_id known\<rparr>) s0)
           | None \<Rightarrow>
               (case place_order oenv (px_fresh env) c (Some (\<lambda>c. Inr (paper_fill env r n c))) (pp_oms s) of
                  (Inl e, oms1) \<Rightarrow> (Inl e, s0\<lparr>pp_oms := oms1\<rparr>)
                | (Inr res, oms1) \<Rightarrow>
                    (case (if or_success res then or_order res else None) of
                       Some ord \<Rightarrow> paper_execute oenv env r ord (s0\<lparr>pp_oms := oms1\<rparr>)
                     | None \<Rightarrow>
                         (let rej = paper_rejected r n; s1 = s0\<lparr>pp_orders := pp_orders s @ [rej]\<rparr> in
                          case upsert_order oenv rej oms1 of
                            (Some e, oms2) \<Rightarrow> (Inl e, s1\<lparr>pp_oms := oms2\<rparr>)
                          | (None, oms2) \<Rightarrow> (Inr rej, s1\<lparr>pp_oms := oms2\<rparr>))))))"

section \<open>Quotes\<close>

definition crosses :: "string \<Rightarrow> string \<Rightarrow> rat \<Rightarrow> order \<Rightarrow> bool" where
  "crosses symb exch ltp ord \<longleftrightarrow>
     o_status ord = OPEN \<and> o_order_type ord = LIMIT \<and> o_symbol ord = symb \<and> o_exchange ord = exch \<and> 0 < o_price ord \<and>
     (case o_side ord of BUY \<Rightarrow> ltp \<le> o_price ord | SELL \<Rightarrow> o_price ord \<le> ltp)"

definition limit_filled :: "datetime \<Rightarrow> order \<Rightarrow> order" where
  "limit_filled now ord =
     (order_new (o_order_id ord) (o_symbol ord) (o_exchange ord) (o_side ord) (o_order_type ord) (o_quantity ord))
       \<lparr>o_filled_quantity := o_quantity ord, o_price := o_price ord, o_trigger_price := o_trigger_price ord,
        o_validity := o_validity ord, o_product_type := o_product_type ord, o_correlation_id := o_correlation_id ord,
        o_status := FILLED, o_timestamp := Some now, o_avg_price := o_price ord\<rparr>"

definition limit_trade :: "nat \<Rightarrow> datetime \<Rightarrow> order \<Rightarrow> trade" where
  "limit_trade n now ord = paper_trade n now (o_symbol ord) (o_exchange ord) (o_side ord) (o_product_type ord) ord (o_price ord)"

text \<open>The orders that a quote leaves, the ones it fills with their trades, and the positions after them.\<close>

fun quote_fills ::
  "(order \<Rightarrow> bool) \<Rightarrow> datetime \<Rightarrow> nat \<Rightarrow> (string, position) dict \<Rightarrow> order list \<Rightarrow>
   order list \<times> (order \<times> trade) list \<times> (string, position) dict" where
  "quote_fills hit now n ps [] = ([], [], ps)"
| "quote_fills hit now n ps (ord # os) =
     (if hit ord
      then
        (let filled = limit_filled now ord; t = limit_trade (Suc n) now filled in
         case quote_fills hit now (Suc n) (update_position t ps) os of
           (os1, fs, ps1) \<Rightarrow> (filled # os1, (filled, t) # fs, ps1))
      else (case quote_fills hit now n ps os of (os1, fs, ps1) \<Rightarrow> (ord # os1, fs, ps1)))"

text \<open>The order manager is told of one order after the other; an exception ends it.\<close>

fun tell_oms :: "'l oms_env \<Rightarrow> (order \<times> trade) list \<Rightarrow> 'l oms \<Rightarrow> exn option \<times> 'l oms" where
  "tell_oms oenv [] oms = (None, oms)"
| "tell_oms oenv ((ord, t) # fs) oms =
     (case upsert_order oenv ord oms of
        (Some e, oms1) \<Rightarrow> (Some e, oms1)
      | (None, oms1) \<Rightarrow>
          (case record_trade oenv t oms1 of
             (Inl e, oms2) \<Rightarrow> (Some e, oms2)
           | (Inr b, oms2) \<Rightarrow> tell_oms oenv fs oms2))"

definition try_fill_on_quote ::
  "'l oms_env \<Rightarrow> paper_env \<Rightarrow> string \<Rightarrow> string \<Rightarrow> rat \<Rightarrow> 'l paper \<Rightarrow> order list res \<times> 'l paper" where
  "try_fill_on_quote oenv env symb exch ltp s =
     (if ltp \<le> 0 then (Inr [], s)
      else
        (case quote_fills (crosses (normalize_symbol symb) (normalize_exchange exch) ltp) (px_now env) (pp_trade_seq s)
                (pp_positions s) (pp_orders s) of
           (os, fs, ps) \<Rightarrow>
             (let s1 = s\<lparr>pp_orders := os, pp_trades := pp_trades s @ map snd fs, pp_positions := ps,
                         pp_trade_seq := pp_trade_seq s + length fs\<rparr> in
              case tell_oms oenv fs (pp_oms s) of
                (Some e, oms1) \<Rightarrow> (Inl e, s1\<lparr>pp_oms := oms1\<rparr>)
              | (None, oms1) \<Rightarrow> (Inr (map fst fs), s1\<lparr>pp_oms := oms1\<rparr>))))"

section \<open>Cancelling and modifying\<close>

text \<open>An open order may always become cancelled.\<close>

fun cancel_first :: "string \<Rightarrow> order list \<Rightarrow> bool \<times> order list" where
  "cancel_first oid [] = (False, [])"
| "cancel_first oid (ord # os) =
     (if o_order_id ord = oid \<and> o_status ord = OPEN then (True, ord\<lparr>o_status := CANCELLED\<rparr> # os)
      else (case cancel_first oid os of (b, os1) \<Rightarrow> (b, ord # os1)))"

definition paper_cancel :: "string \<Rightarrow> 'l paper \<Rightarrow> bool \<times> 'l paper" where
  "paper_cancel oid s = (case cancel_first oid (pp_orders s) of (b, os) \<Rightarrow> (b, s\<lparr>pp_orders := os\<rparr>))"

definition paper_get_order :: "'l paper \<Rightarrow> string \<Rightarrow> order option" where
  "paper_get_order s oid = find (\<lambda>ord. o_order_id ord = oid) (pp_orders s)"

definition paper_modified :: "paper_env \<Rightarrow> modify_request \<Rightarrow> order \<Rightarrow> order" where
  "paper_modified env m ord =
     (let pick = (\<lambda>v d. case v of None \<Rightarrow> d | Some x \<Rightarrow> x) in
      (order_new (o_order_id ord) (o_symbol ord) (o_exchange ord) (o_side ord)
         (case mr_order_type m of None \<Rightarrow> o_order_type ord | Some t \<Rightarrow> t)
         (case mr_quantity m of None \<Rightarrow> o_quantity ord | Some q \<Rightarrow> of_int q))
       \<lparr>o_price := pick (mr_price m) (o_price ord), o_trigger_price := pick (mr_trigger_price m) (o_trigger_price ord),
        o_validity := (case mr_validity m of None \<Rightarrow> o_validity ord | Some v \<Rightarrow> v), o_product_type := o_product_type ord,
        o_correlation_id := o_correlation_id ord, o_filled_quantity := o_filled_quantity ord, o_timestamp := Some (px_now env)\<rparr>)"

fun replace_first :: "string \<Rightarrow> order \<Rightarrow> order list \<Rightarrow> order list" where
  "replace_first oid new [] = []"
| "replace_first oid new (ord # os) = (if o_order_id ord = oid then new # os else ord # replace_first oid new os)"

datatype paper_refusal = Raised exn | Denied_By risk_reason

text \<open>A denial is raised as a \<open>ValueError\<close> with the reason as its message.\<close>

definition paper_modify :: "'l oms_env \<Rightarrow> paper_env \<Rightarrow> modify_request \<Rightarrow> 'l paper \<Rightarrow> (paper_refusal + order) \<times> 'l paper" where
  "paper_modify oenv env m s =
     (case paper_get_order s (mr_order_id m) of
        None \<Rightarrow> (Inl (Raised (ValueError (''Order '' @ mr_order_id m @ '' not found''))), s)
      | Some ord \<Rightarrow>
          if o_status ord \<noteq> OPEN
          then (Inl (Raised (ValueError (''Cannot modify order '' @ mr_order_id m @ '' with status '' @ status_value (o_status ord) @
                  ''. Only OPEN orders can be modified.''))), s)
          else
            (let new = paper_modified env m ord; s1 = s\<lparr>pp_orders := replace_first (mr_order_id m) new (pp_orders s)\<rparr> in
             case om_risk (pp_oms s) of
               None \<Rightarrow> (Inr new, s1)
             | Some rm \<Rightarrow>
                 (case check_order rm (ev_risk oenv) new of
                    (Inl e, rm1) \<Rightarrow> (Inl (Raised e), s\<lparr>pp_oms := (pp_oms s)\<lparr>om_risk := Some rm1\<rparr>\<rparr>)
                  | (Inr (Denied d), rm1) \<Rightarrow> (Inl (Denied_By d), s\<lparr>pp_oms := (pp_oms s)\<lparr>om_risk := Some rm1\<rparr>\<rparr>)
                  | (Inr Allowed, rm1) \<Rightarrow> (Inr new, s1\<lparr>pp_oms := (pp_oms s)\<lparr>om_risk := Some rm1\<rparr>\<rparr>))))"

section \<open>The gateway\<close>

definition paper_answer :: "bool \<Rightarrow> string \<Rightarrow> string \<Rightarrow> order_status \<Rightarrow> order_response" where
  "paper_answer ok oid msg st =
     \<lparr>r_success = ok, r_order_id = oid, r_message = msg, r_status = st, r_broker_order_id = [], r_error_code = [], r_http_status = None\<rparr>"

definition paper_gateway_place ::
  "'l oms_env \<Rightarrow> paper_env \<Rightarrow> paper_request \<Rightarrow> 'l paper \<Rightarrow> order_response res \<times> 'l paper" where
  "paper_gateway_place oenv env r s =
     (case paper_place oenv env r s of
        (Inl e, s1) \<Rightarrow> (Inl e, s1)
      | (Inr ord, s1) \<Rightarrow>
          (Inr (paper_answer (o_status ord \<notin> {REJECTED, EXPIRED}) (o_order_id ord)
             (if o_status ord = FILLED then ''Order filled (paper)''
              else ''Order '' @ py_lower (status_value (o_status ord)) @ '' (paper)'') (o_status ord)), s1))"

definition paper_gateway_cancel :: "string \<Rightarrow> 'l paper \<Rightarrow> order_response \<times> 'l paper" where
  "paper_gateway_cancel oid s =
     (case paper_cancel oid s of
        (b, s1) \<Rightarrow>
          (case paper_get_order s1 oid of
             None \<Rightarrow> (paper_answer False oid ''Order not found'' REJECTED, s1)
           | Some ord \<Rightarrow>
               (if b then paper_answer True oid ''Order cancelled (paper)'' CANCELLED
                else if o_status ord = FILLED
                then paper_answer False oid (''Order '' @ oid @ '' was already filled before cancel completed'') FILLED
                else paper_answer False oid ''Order not found'' REJECTED, s1)))"

section \<open>Operations\<close>

datatype paper_op =
    Place_Op paper_request
  | Quote_Op string string rat
  | Cancel_Op string
  | Modify_Op modify_request

fun paper_step :: "'l paper \<Rightarrow> 'l oms_env \<times> paper_env \<times> paper_op \<Rightarrow> 'l paper" where
  "paper_step s (oenv, env, Place_Op r) = snd (paper_place oenv env r s)"
| "paper_step s (oenv, env, Quote_Op symb exch ltp) = snd (try_fill_on_quote oenv env symb exch ltp s)"
| "paper_step s (oenv, env, Cancel_Op oid) = snd (paper_cancel oid s)"
| "paper_step s (oenv, env, Modify_Op m) = snd (paper_modify oenv env m s)"

section \<open>The books agree\<close>

text \<open>
  Positions are the trades one after the other; trades are numbered; and each belongs to an order
  of the book that is filled with just its quantity.
\<close>

definition trade_backed :: "order list \<Rightarrow> trade \<Rightarrow> bool" where
  "trade_backed os t \<longleftrightarrow>
     list_ex (\<lambda>ord. o_order_id ord = t_order_id t \<and> o_filled_quantity ord = t_quantity t \<and> o_status ord \<in> {FILLED, PARTIALLY_FILLED}) os"

definition paper_inv :: "(string, position) dict \<Rightarrow> 'l paper \<Rightarrow> bool" where
  "paper_inv ps s \<longleftrightarrow>
     pp_positions s = fold update_position (pp_trades s) ps \<and>
     map t_trade_id (pp_trades s) = map paper_trade_id [1..<Suc (pp_trade_seq s)] \<and>
     list_all (trade_backed (pp_orders s)) (pp_trades s)"

lemma trade_backed_mono:
  "trade_backed os t \<Longrightarrow> (\<And>ord. ord \<in> set os \<Longrightarrow> o_status ord \<noteq> OPEN \<Longrightarrow> ord \<in> set os') \<Longrightarrow> trade_backed os' t"
  unfolding trade_backed_def list_ex_iff by (metis insertE order_status.distinct(1,3) singletonD empty_iff order_status.simps)

lemma paper_inv_orders:
  "paper_inv ps s \<Longrightarrow> (\<And>ord. ord \<in> set (pp_orders s) \<Longrightarrow> o_status ord \<noteq> OPEN \<Longrightarrow> ord \<in> set os') \<Longrightarrow> paper_inv ps (s\<lparr>pp_orders := os'\<rparr>)"
  using trade_backed_mono[of "pp_orders s" _ os'] by (auto simp: paper_inv_def list_all_iff)

lemma paper_inv_frame [simp]:
  "paper_inv ps (s\<lparr>pp_oms := oms\<rparr>) = paper_inv ps s" "paper_inv ps (s\<lparr>pp_order_seq := n\<rparr>) = paper_inv ps s"
  by (simp_all add: paper_inv_def)

lemma paper_inv_keep:
  "paper_inv ps s \<Longrightarrow> trade_backed (pp_orders s) t \<Longrightarrow> t_trade_id t = paper_trade_id (Suc (pp_trade_seq s)) \<Longrightarrow> paper_inv ps (keep_trade t s)"
  by (simp add: paper_inv_def keep_trade_def)

lemma paper_inv_execute: "paper_inv ps s \<Longrightarrow> paper_inv ps (snd (paper_execute oenv env r ord s))"
proof -
  assume i: "paper_inv ps s"
  let ?s1 = "s\<lparr>pp_orders := pp_orders s @ [ord]\<rparr>"
  let ?t = "paper_trade (Suc (pp_trade_seq s)) (px_now env) (pr_symbol r) (pr_exchange r) (pr_side r) (pr_product_type r) ord (paper_price env r)"
  have i1: "paper_inv ps ?s1" by (rule paper_inv_orders[OF i]) simp
  have "o_status ord \<in> {FILLED, PARTIALLY_FILLED} \<Longrightarrow> paper_inv ps (keep_trade ?t ?s1)"
    by (rule paper_inv_keep[OF i1]) (auto simp: trade_backed_def paper_trade_def)
  with i1 show ?thesis by (auto simp: paper_execute_def Let_def split: prod.split sum.split)
qed

lemma paper_inv_place: "paper_inv ps s \<Longrightarrow> paper_inv ps (snd (paper_place oenv env r s))"
proof -
  assume i: "paper_inv ps s"
  have x: "paper_inv ps (snd (paper_execute oenv env r ord (s\<lparr>pp_order_seq := n, pp_oms := oms\<rparr>)))"
    "paper_inv ps (snd (paper_execute oenv env r ord (s\<lparr>pp_order_seq := n\<rparr>)))" for ord n oms
    using i by (auto intro!: paper_inv_execute)
  have y: "paper_inv ps (s\<lparr>pp_order_seq := n, pp_orders := pp_orders s @ [ord], pp_oms := oms\<rparr>)" for n ord oms
  proof -
    have "paper_inv ps ((s\<lparr>pp_order_seq := n\<rparr>)\<lparr>pp_orders := pp_orders s @ [ord]\<rparr>)" by (rule paper_inv_orders) (use i in auto)
    then show ?thesis by simp
  qed
  show ?thesis using i x y by (simp add: paper_place_def Let_def split: sum.split option.split prod.split)
qed

lemma quote_fills_props:
  assumes "\<And>ord. hit ord \<Longrightarrow> o_status ord = OPEN" "quote_fills hit now n ps os = (os', fs, ps')"
  shows "ps' = fold update_position (map snd fs) ps"
    "map t_trade_id (map snd fs) = map paper_trade_id [Suc n..<Suc (n + length fs)]"
    "list_all (trade_backed os') (map snd fs)"
    "ord \<in> set os \<Longrightarrow> o_status ord \<noteq> OPEN \<Longrightarrow> ord \<in> set os'"
  using assms(2)
proof (induction os arbitrary: n ps os' fs ps')
  case (Cons a os)
  { case 1 with Cons.IH(1) show ?case by (fastforce simp: Let_def split: if_splits prod.splits) }
  { case 2
    show ?case
    proof (cases "hit a")
      case True
      with 2 obtain os1 fs1 where q: "quote_fills hit now (Suc n) (update_position (limit_trade (Suc n) now (limit_filled now a)) ps) os = (os1, fs1, ps')"
        "fs = (limit_filled now a, limit_trade (Suc n) now (limit_filled now a)) # fs1"
        by (auto simp: Let_def split: prod.splits)
      from Cons.IH(2)[OF q(1)] show ?thesis unfolding q(2) by (simp add: upt_conv_Cons limit_trade_def paper_trade_def del: upt_Suc)
    next
      case False
      with 2 Cons.IH(2) show ?thesis by (auto split: prod.splits simp del: upt_Suc)
    qed }
  { case 3
    show ?case
    proof (cases "hit a")
      case True
      with 3 obtain os1 fs1 where q: "quote_fills hit now (Suc n) (update_position (limit_trade (Suc n) now (limit_filled now a)) ps) os = (os1, fs1, ps')"
        "fs = (limit_filled now a, limit_trade (Suc n) now (limit_filled now a)) # fs1" "os' = limit_filled now a # os1"
        by (auto simp: Let_def split: prod.splits)
      from Cons.IH(3)[OF q(1)] show ?thesis unfolding q(2,3)
        by (auto simp: list_all_iff trade_backed_def limit_trade_def paper_trade_def limit_filled_def)
    next
      case False
      with 3 obtain os1 where q: "quote_fills hit now n ps os = (os1, fs, ps')" "os' = a # os1" by (auto split: prod.splits)
      from Cons.IH(3)[OF q(1)] show ?thesis unfolding q(2) by (auto simp: list_all_iff trade_backed_def)
    qed }
  { case 4
    with Cons.IH(4) assms(1)[of a] show ?case by (fastforce simp: Let_def split: if_splits prod.splits) }
qed auto

lemma paper_inv_quote: "paper_inv ps s \<Longrightarrow> paper_inv ps (snd (try_fill_on_quote oenv env symb exch ltp s))"
proof -
  assume i: "paper_inv ps s"
  let ?hit = "crosses (normalize_symbol symb) (normalize_exchange exch) ltp"
  obtain os fs qs where q: "quote_fills ?hit (px_now env) (pp_trade_seq s) (pp_positions s) (pp_orders s) = (os, fs, qs)"
    by (metis prod.exhaust)
  have hit: "?hit ord \<Longrightarrow> o_status ord = OPEN" for ord by (simp add: crosses_def)
  note f = quote_fills_props[OF hit q]
  have up: "[Suc 0..<Suc (n + k)] = [Suc 0..<Suc n] @ [Suc n..<Suc (n + k)]" for n k :: nat using upt_add_eq_append[of 1 "Suc n" k] by simp
  have "list_all (trade_backed os) (pp_trades s)"
    using i trade_backed_mono[of "pp_orders s" _ os] f(4) by (auto simp: paper_inv_def list_all_iff)
  then have "paper_inv ps (s\<lparr>pp_orders := os, pp_trades := pp_trades s @ map snd fs, pp_positions := qs, pp_trade_seq := pp_trade_seq s + length fs\<rparr>)"
    using i f(1-3) unfolding paper_inv_def One_nat_def by (simp add: up del: upt_Suc)
  then show ?thesis using i q by (simp add: try_fill_on_quote_def Let_def split: prod.split option.split)
qed

lemma cancel_first_keeps: "cancel_first oid os = (b, os') \<Longrightarrow> ord \<in> set os \<Longrightarrow> o_status ord \<noteq> OPEN \<Longrightarrow> ord \<in> set os'"
  by (induction os arbitrary: os' b) (fastforce split: if_splits prod.splits)+

lemma replace_first_keeps:
  "find (\<lambda>ord. o_order_id ord = oid) os = Some old \<Longrightarrow> o_status old = OPEN \<Longrightarrow> ord \<in> set os \<Longrightarrow> o_status ord \<noteq> OPEN \<Longrightarrow>
   ord \<in> set (replace_first oid new os)"
  by (induction os) (auto split: if_splits)

lemma paper_inv_step: "paper_inv ps s \<Longrightarrow> paper_inv ps (paper_step s x)"
proof -
  assume i: "paper_inv ps s"
  obtain oenv env op where x: "x = (oenv, env, op)" by (metis prod.exhaust)
  show ?thesis
  proof (cases op)
    case (Place_Op r) then show ?thesis using paper_inv_place[OF i] by (simp add: x)
  next
    case (Quote_Op a b c) then show ?thesis using paper_inv_quote[OF i] by (simp add: x)
  next
    case (Cancel_Op oid)
    obtain b os where c: "cancel_first oid (pp_orders s) = (b, os)" by (metis prod.exhaust)
    then show ?thesis using paper_inv_orders[OF i, of os] cancel_first_keeps[OF c] by (simp add: x Cancel_Op paper_cancel_def)
  next
    case (Modify_Op m)
    have r: "paper_inv ps (s\<lparr>pp_orders := replace_first (mr_order_id m) new (pp_orders s)\<rparr>)"
      if "paper_get_order s (mr_order_id m) = Some old" "o_status old = OPEN" for old new
      by (rule paper_inv_orders[OF i]) (use replace_first_keeps that in \<open>auto simp: paper_get_order_def\<close>)
    have r': "paper_inv ps (s\<lparr>pp_orders := replace_first (mr_order_id m) new (pp_orders s), pp_oms := oms\<rparr>)"
      if "paper_get_order s (mr_order_id m) = Some old" "o_status old = OPEN" for old new oms
      using r[OF that] paper_inv_frame(1)[where s = "s\<lparr>pp_orders := replace_first (mr_order_id m) new (pp_orders s)\<rparr>" and ps = ps and oms = oms] by simp
    show ?thesis using i r r' by (auto simp: x Modify_Op paper_modify_def Let_def split: option.split sum.split prod.split risk_result.split)
  qed
qed

interpretation paper_book: invariant_system paper_step "paper_inv ps" for ps
  by unfold_locales (rule paper_inv_step)

text \<open>
  C22: the books of the paper broker agree with one another. Whatever is placed, quoted, cancelled
  and modified, the positions are those it started with and the trades one after the other, the
  trades are numbered without a gap, and each trade belongs to an order of the book that is filled
  with just its quantity, also when the order manager raises in between.
\<close>

theorem paper_positions_follow_trades:
  "let s = run_ops paper_step (paper_new ps oms) ops in
   pp_positions s = fold update_position (pp_trades s) ps \<and>
   map t_trade_id (pp_trades s) = map paper_trade_id [1..<Suc (pp_trade_seq s)] \<and>
   list_all (trade_backed (pp_orders s)) (pp_trades s)"
proof -
  have "paper_inv ps (run_ops paper_step (paper_new ps oms) ops)"
    by (rule paper_book.inv_run) (simp add: paper_inv_def paper_new_def)
  then show ?thesis by (simp add: paper_inv_def Let_def)
qed

section \<open>What the order manager makes of a fill\<close>

lemma applied_publish [simp]: "(\<And>t. e \<noteq> TradeApplied t) \<Longrightarrow> applied_events (publish env e s) = applied_events s"
  by (cases e) (auto simp: applied_events_def publish_def List.map_filter_simps)

lemma applied_frame [simp]:
  "applied_events (store_under c ord s) = applied_events s" "applied_events (release_all c s) = applied_events s"
  "applied_events (persist_order env ord s) = applied_events s" "applied_events (store_order ord s) = applied_events s"
  by (auto intro!: applied_events_cong simp: store_under_def release_all_def release_reservation_def persist_order_def split: option.split)

lemma record_outcome_applied: "record_outcome env u s = (e, s') \<Longrightarrow> applied_events s' = applied_events s"
  by (auto intro!: applied_events_cong simp: record_outcome_def Let_def split: option.splits sum.splits prod.splits)

lemma reserve_applied: "check_and_reserve env fid c s = (res, s') \<Longrightarrow> applied_events s' = applied_events s"
  by (auto intro!: applied_events_cong simp: check_and_reserve_def lookup_durable_order_def Let_def
      split: option.splits sum.splits prod.splits if_splits)

lemma validate_applied: "build_and_validate env oid c s = (res, s') \<Longrightarrow> applied_events s' = applied_events s"
proof -
  have r: "applied_events (s\<lparr>om_risk := x\<rparr>) = applied_events s" for x by (rule applied_events_cong) simp
  show "build_and_validate env oid c s = (res, s') \<Longrightarrow> applied_events s' = applied_events s"
    by (auto simp: r build_and_validate_def Let_def split: option.splits sum.splits prod.splits risk_result.splits)
qed

lemma submit_applied:
  assumes "submit_to_broker env c ord (Some f) s = (res, s')"
  shows "applied_events s' = applied_events s" "res = Inr (Inr bord) \<Longrightarrow> f c = Inr bord" "res = Inr (Inl r) \<Longrightarrow> \<not> or_success r"
proof -
  have l: "applied_events (s\<lparr>om_ledger := x\<rparr>) = applied_events s" "applied_events (s\<lparr>om_broker := y\<rparr>) = applied_events s" for x y s
    by (rule applied_events_cong, simp)+
  have b: "applied_events s1 = applied_events s" if "begin_submit env c ord s = (x, s1)" for x s1
    using that by (auto simp: begin_submit_def Let_def l split: option.splits sum.splits prod.splits)
  have u: "applied_events s2 = applied_events s1 \<and> (\<forall>r. x \<noteq> Inr (Inr r)) \<and> (\<forall>r. x = Inr (Inl r) \<longrightarrow> \<not> or_success r)"
    if "settle_unknown env c ord e s1 = (x, s2)" for e s1 x s2
    using that by (auto simp: settle_unknown_def unknown_result_def dest: record_outcome_applied split: sum.splits option.splits prod.splits)
  have a: "applied_events s2 = applied_events s1 \<and> (\<forall>r. x = Inr (Inr r) \<longrightarrow> r = bo) \<and> (\<forall>r. x = Inr (Inl r) \<longrightarrow> \<not> or_success r)"
    if "settle_accepted env c i bo s1 = (x, s2)" for i bo s1 x s2
    using that by (auto simp: settle_accepted_def unknown_result_def Let_def dest: record_outcome_applied split: sum.splits option.splits prod.splits)
  have "applied_events s' = applied_events s \<and> (\<forall>bord. res = Inr (Inr bord) \<longrightarrow> f c = Inr bord) \<and> (\<forall>r. res = Inr (Inl r) \<longrightarrow> \<not> or_success r)"
  proof (cases "mutation_guard env ''place'' s")
    case (Some r)
    then have "\<not> or_success r" by (auto simp: mutation_guard_def fail_with_def split: option.splits if_splits)
    with Some assms show ?thesis by (auto simp: submit_to_broker_def)
  next
    case None
    then show ?thesis using assms b u a
      by (fastforce simp: submit_to_broker_def call_broker_def settle_def Let_def l split: sum.splits option.splits prod.splits)
  qed
  then show "applied_events s' = applied_events s" "res = Inr (Inr bord) \<Longrightarrow> f c = Inr bord" "res = Inr (Inl r) \<Longrightarrow> \<not> or_success r" by blast+
qed

lemma finish_applied: "finish_place env c ord s = (r, s') \<Longrightarrow> applied_events s' = applied_events s"
  by (auto simp: finish_place_def record_and_publish_def Let_def release_reservation_def applied_events_def persist_order_def store_under_def publish_def
      List.map_filter_simps split: option.splits if_splits)

lemma place_fresh:
  assumes "check_and_reserve env fid (cm_correlation_id c) s = (Inr (Inr oid), s0)" "place_order env fid c (Some f) s = (Inr res, s')" "or_success res"
  shows "\<exists>bord. f c = Inr bord \<and> or_order res = Some bord \<and> dict_get (om_orders s') (o_order_id bord) = Some bord \<and>
    applied_events s' = applied_events s"
proof -
  obtain v s1 where v: "build_and_validate env oid c s0 = (v, s1)" by (metis prod.exhaust)
  with assms obtain ord where ord: "v = Inr (Inr ord)"
    using validate_ledger[OF v] by (auto simp: place_order_def Let_def split: sum.splits)
  obtain w s2 where w: "submit_to_broker env c ord (Some f) s1 = (w, s2)" by (metis prod.exhaust)
  with assms v ord obtain bord where bord: "w = Inr (Inr bord)"
    using submit_applied(3)[OF w] by (auto simp: place_order_def Let_def split: sum.splits)
  obtain r s3 where r: "finish_place env c bord s2 = (r, s3)" by (metis prod.exhaust)
  have e: "res = r" "s' = s3" using assms v ord w bord r by (simp_all add: place_order_def Let_def)
  show ?thesis
    using finish_place_fields[OF r] finish_applied[OF r] submit_applied(1,2)[OF w] validate_applied[OF v] reserve_applied[OF assms(1)] bord
    by (auto simp: e ok_order_def)
qed

text \<open>A fill that would take a known order beyond its quantity is refused, and nothing is applied.\<close>

lemma record_refused:
  assumes "dict_get (om_orders s) (t_order_id t) = Some ord" "o_quantity ord < dec_add (o_filled_quantity ord) (t_quantity t)"
  shows "applied_events (snd (record_trade env t s)) = applied_events s" "fst (record_trade env t s) \<noteq> Inr True"
    "om_orders (snd (record_trade env t s)) = om_orders s"
proof -
  have d: "applied_events (s\<lparr>om_trades_duplicated := n\<rparr>) = applied_events s" for n by (rule applied_events_cong) simp
  have k: "\<exists>e. record_known env k ord t s = (Inl e, s) \<or> record_known env k ord t s = (Inr False, s)" for k
  proof (cases "fill_from_trade dec_add (t_trade_id t) (t_order_id t) (t_quantity t) (o_filled_quantity ord) (t_price t)")
    case (Inl e) then show ?thesis by (simp add: record_known_def)
  next
    case (Inr fill)
    then have "f_cumulative_quantity fill = dec_add (o_filled_quantity ord) (t_quantity t)"
      by (auto simp: fill_from_trade_def mk_fill_event_def split: if_splits)
    with assms(2) have "fr_validate (om_reducer s) fill (o_quantity ord) (o_filled_quantity ord) \<noteq> None"
      by (simp add: fr_validate_def Let_def)
    with Inr show ?thesis by (auto simp: record_known_def)
  qed
  obtain x s1 where x: "recorder_record_trade env t s = (x, s1)" by (metis prod.exhaust)
  then have "applied_events s1 = applied_events s \<and> x \<noteq> Inr True \<and> om_orders s1 = om_orders s"
  proof (cases "key_from_trade t")
    case (Inr key)
    with k[of key] x assms(1) d show ?thesis by (auto simp: recorder_record_trade_def split: if_splits)
  qed (use x in \<open>auto simp: recorder_record_trade_def split: if_splits\<close>)
  with x show "applied_events (snd (record_trade env t s)) = applied_events s" "fst (record_trade env t s) \<noteq> Inr True"
    "om_orders (snd (record_trade env t s)) = om_orders s"
    by (auto simp: record_trade_def split: sum.splits bool.splits)
qed

text \<open>Otherwise it is refused, or the book of the order manager has the order with the fill added.\<close>

lemma record_fills:
  assumes "dict_get (om_orders s) (t_order_id t) = Some ord" "o_order_id ord = t_order_id t"
  shows "dict_get (om_orders (snd (record_trade env t s))) (t_order_id t) = Some ord \<and>
       applied_events (snd (record_trade env t s)) = applied_events s \<or>
     (\<exists>u. dict_get (om_orders (snd (record_trade env t s))) (t_order_id t) = Some u \<and>
        o_filled_quantity u = dec_add (o_filled_quantity ord) (t_quantity t))"
proof -
  have l: "applied_events (s\<lparr>om_ledger := x\<rparr>) = applied_events s" "applied_events (s\<lparr>om_trades_duplicated := n\<rparr>) = applied_events s" for x n s
    by (rule applied_events_cong, simp)+
  have m: "om_orders s2 = om_orders s1" if "mark_trade env k s1 = (x, s2)" for k s1 x s2
    using that by (auto simp: mark_trade_def Let_def split: option.splits prod.splits)
  have p: "om_orders s2 = om_orders s1" if "after_trade env t ord s1 = (x, s2)" for ord s1 x s2
    using that by (auto simp: after_trade_def persist_order_def Let_def split: option.splits sum.splits if_splits)
  have u: "o_order_id u = o_order_id ord \<and> o_filled_quantity u = dec_add (o_filled_quantity ord) (t_quantity t)" if "apply_trade ord t = Inr u" for u
    using that by (auto simp: apply_trade_def order_with_status_def order_with_fill_def Let_def split: if_splits)
  have k: "om_orders s1 = om_orders s \<and> applied_events s1 = applied_events s \<or>
      (\<exists>u. dict_get (om_orders s1) (t_order_id t) = Some u \<and> o_filled_quantity u = dec_add (o_filled_quantity ord) (t_quantity t))"
    if r: "record_known env key ord t s = (x, s1)" for key x s1
  proof (cases "fill_from_trade dec_add (t_trade_id t) (t_order_id t) (t_quantity t) (o_filled_quantity ord) (t_price t)")
    case (Inl e) with r show ?thesis by (simp add: record_known_def)
  next
    case (Inr fill)
    obtain e s2 where f: "persist_fill_to_ledger env fill ord t s = (e, s2)" by (metis prod.exhaust)
    from persist_frame[OF f] obtain lg where lg: "s2 = s\<lparr>om_ledger := lg\<rparr>" by blast
    show ?thesis
    proof (cases "fr_validate (om_reducer s) fill (o_quantity ord) (o_filled_quantity ord) = None \<and> e = None \<and> (\<exists>u. apply_trade ord t = Inr u)")
      case True
      then obtain u' where u': "apply_trade ord t = Inr u'" by blast
      let ?s3 = "publish_applied env u' t ((store_order u' s2)\<lparr>om_trades_processed := Suc (om_trades_processed s2)\<rparr>)"
      obtain y s4 where y: "mark_trade env key ?s3 = (y, s4)" by (metis prod.exhaust)
      have "om_orders s1 = om_orders ?s3"
        using r True u' f y m[OF y] by (auto simp: record_known_def Inr Let_def commit_fill_def split: sum.splits bool.splits)
      then show ?thesis using u[OF u'] assms(2) by simp
    next
      case False
      then show ?thesis using r f by (auto simp: record_known_def Inr lg l split: option.splits sum.splits)
    qed
  qed
  obtain x s1 where x: "recorder_record_trade env t s = (x, s1)" by (metis prod.exhaust)
  have a: "om_orders s1 = om_orders s \<and> applied_events s1 = applied_events s \<or>
      (\<exists>u. dict_get (om_orders s1) (t_order_id t) = Some u \<and> o_filled_quantity u = dec_add (o_filled_quantity ord) (t_quantity t))"
  proof (cases "key_from_trade t")
    case (Inr key)
    with x assms(1) k[of key] l show ?thesis by (auto simp: recorder_record_trade_def split: if_splits)
  qed (use x in \<open>auto simp: recorder_record_trade_def split: if_splits\<close>)
  have s2: "om_orders (snd (record_trade env t s)) = om_orders s1"
    using x p by (auto simp: record_trade_def split: sum.splits bool.splits option.splits prod.splits)
  have s3: "applied_events (snd (record_trade env t s)) = applied_events s1"
  proof -
    have "applied_events s2 = applied_events s1" if "after_trade env t ord s1 = (x, s2)" for ord s1 x s2
    proof -
      have f: "applied_events (s\<lparr>om_risk := z\<rparr>) = applied_events s" "applied_events (persist_order env ord s) = applied_events s" for z s ord
        by (rule applied_events_cong, simp add: persist_order_def split: option.split)+
      show ?thesis using that by (auto simp: after_trade_def f Let_def split: option.splits sum.splits if_splits)
    qed
    then show ?thesis using x by (auto simp: record_trade_def split: sum.splits bool.splits option.splits prod.splits)
  qed
  show ?thesis using a s2 s3 assms(1) by auto
qed

lemma twice_exceeds: "0 < q \<Longrightarrow> q < dec_add q q"
proof -
  assume q: "0 < q"
  have "\<bar>dec (q + q) - (q + q)\<bar> \<le> (q + q) / (2 * 10 ^ 27)" using dec_error[of "q + q"] q by simp
  also have "(q + q) / (2 * 10 ^ 27) < q" using q by (simp add: field_simps)
  finally show ?thesis unfolding dec_add_def by (simp add: abs_less_iff)
qed

lemma upsert_stores:
  assumes "dict_get (om_buffer s) (o_order_id ord) = None" "upsert_order env ord s = (x, s')"
  shows "applied_events s' = applied_events s" "x = None \<Longrightarrow> dict_get (om_orders s') (o_order_id ord) = Some ord"
proof -
  have f: "applied_events (s\<lparr>om_validator := v\<rparr>) = applied_events s" "applied_events (s\<lparr>om_active := n\<rparr>) = applied_events s"
    "applied_events (s\<lparr>om_risk := r\<rparr>) = applied_events s" for v n r s by (rule applied_events_cong, simp)+
  have l: "applied_events s1 = applied_events s \<and> (y = None \<longrightarrow> dict_get (om_orders s1) (o_order_id ord) = Some ord)"
    if "lifecycle_upsert env ord s = (y, s1)" for y s1
    using that assms(1)
    by (auto simp: lifecycle_upsert_def flush_pending_trades_def f Let_def split: option.splits sum.splits prod.splits if_splits)
  have p: "om_orders (persist_order env ord s) = om_orders s" for s by (simp add: persist_order_def split: option.split)
  show "applied_events s' = applied_events s" "x = None \<Longrightarrow> dict_get (om_orders s') (o_order_id ord) = Some ord"
    using assms(2) l by (auto simp: upsert_order_def f p Let_def split: option.splits sum.splits prod.splits if_splits)
qed

text \<open>
  C20: the order manager never counts a fill of the paper broker once. When it accepts a market
  order under a new correlation id that the paper broker fills at once, wholly or in part, its
  book has the order with the fill before it is told of the trade. The paper broker keeps the
  trade and moves its position. If twice the fill exceeds the order, as it does for every order
  that is filled completely, the order manager refuses the trade as an overfill, and applies and
  publishes nothing; otherwise it refuses the trade too, or its book has the fill twice. A limit
  order that a quote fills is written as filled first, so its trade is refused as well, unless
  trades were waiting for it. A call of the broker from inside a submission, where the book has
  the order without a fill, is not of this kind.
\<close>

theorem paper_fill_never_counted_once:
  "(paper_place oenv env r s = (Inr ord, s1) \<and> pr_order_type r = MARKET \<and> o_status ord \<in> {FILLED, PARTIALLY_FILLED} \<and>
      paper_command env (Suc (pp_order_seq s)) r = Inr c \<and>
      check_and_reserve oenv (px_fresh env) (cm_correlation_id c) (pp_oms s) = (Inr (Inr oid), oms0) \<longrightarrow>
    (let refused = (dict_get (om_orders (pp_oms s1)) (o_order_id ord) = Some ord \<and>
                    applied_events (pp_oms s1) = applied_events (pp_oms s));
         fill = o_filled_quantity ord in
     0 < fill \<and>
     (\<exists>t. pp_trades s1 = pp_trades s @ [t] \<and> t_order_id t = o_order_id ord \<and> t_quantity t = fill \<and>
          pp_positions s1 = update_position t (pp_positions s)) \<and>
     (refused \<or> (\<exists>u. dict_get (om_orders (pp_oms s1)) (o_order_id ord) = Some u \<and> o_filled_quantity u = dec_add fill fill)) \<and>
     (o_quantity ord < dec_add fill fill \<longrightarrow> refused) \<and>
     (o_status ord = FILLED \<longrightarrow> fill = o_quantity ord \<and> refused))) \<and>
   (0 < o_quantity rest \<and> dict_get (om_buffer oms) (o_order_id rest) = None \<longrightarrow>
    applied_events (snd (tell_oms oenv [(limit_filled now rest, limit_trade n now (limit_filled now rest))] oms)) = applied_events oms)"
proof (intro conjI[of "_ \<longrightarrow> _"]; intro impI)
  assume a: "paper_place oenv env r s = (Inr ord, s1) \<and> pr_order_type r = MARKET \<and> o_status ord \<in> {FILLED, PARTIALLY_FILLED} \<and>
      paper_command env (Suc (pp_order_seq s)) r = Inr c \<and>
      check_and_reserve oenv (px_fresh env) (cm_correlation_id c) (pp_oms s) = (Inr (Inr oid), oms0)"
  let ?n = "Suc (pp_order_seq s)"
  let ?f = "\<lambda>c. Inr (paper_fill env r ?n c) :: order res"
  have none: "get_order_by_correlation (pp_oms s) (cm_correlation_id c) = None"
    using a by (auto simp: check_and_reserve_def get_order_by_correlation_def split: option.splits)
  obtain v oms1 where v: "place_order oenv (px_fresh env) c (Some ?f) (pp_oms s) = (v, oms1)" by (metis prod.exhaust)
  have "\<exists>res. v = Inr res \<and> or_success res \<and> or_order res = Some ord \<and>
      paper_execute oenv env r ord (s\<lparr>pp_order_seq := ?n, pp_oms := oms1\<rparr>) = (Inr ord, s1)"
    using a none v
    by (auto simp: paper_place_def paper_rejected_def paper_execute_def Let_def split: sum.splits option.splits prod.splits if_splits)
  then obtain res where res: "v = Inr res" "or_success res" "or_order res = Some ord"
    and x: "paper_execute oenv env r ord (s\<lparr>pp_order_seq := ?n, pp_oms := oms1\<rparr>) = (Inr ord, s1)" by blast
  from place_fresh[of oenv "px_fresh env" c "pp_oms s" oid oms0 ?f res oms1] a v res
  have ord: "ord = paper_fill env r ?n c" "dict_get (om_orders oms1) (o_order_id ord) = Some ord"
    "applied_events oms1 = applied_events (pp_oms s)" by auto
  let ?t = "paper_trade (Suc (pp_trade_seq s)) (px_now env) (pr_symbol r) (pr_exchange r) (pr_side r) (pr_product_type r) ord (paper_price env r)"
  obtain b oms2 where b: "record_trade oenv ?t oms1 = (b, oms2)" by (metis prod.exhaust)
  have s1: "s1 = (keep_trade ?t (s\<lparr>pp_order_seq := ?n, pp_oms := oms1, pp_orders := pp_orders s @ [ord]\<rparr>))\<lparr>pp_oms := oms2\<rparr>"
    using x a b by (auto simp: paper_execute_def Let_def split: sum.splits)
  have q: "0 < o_filled_quantity ord" "o_status ord = FILLED \<longrightarrow> o_filled_quantity ord = o_quantity ord"
    using a by (auto simp: ord(1) paper_command_def paper_fill_def paper_quantity_def partial_fill_quantity_def order_of_command_def
        order_new_def Let_def split: if_splits)
  have t: "t_order_id ?t = o_order_id ord" "t_quantity ?t = o_filled_quantity ord" by (simp_all add: paper_trade_def)
  have refused: "applied_events oms2 = applied_events (pp_oms s) \<and> dict_get (om_orders oms2) (o_order_id ord) = Some ord"
    if "o_quantity ord < dec_add (o_filled_quantity ord) (o_filled_quantity ord)"
    using record_refused(1,3)[of oms1 ?t ord oenv] ord(2,3) that b t by simp
  have once: "dict_get (om_orders oms2) (o_order_id ord) = Some ord \<and> applied_events oms2 = applied_events (pp_oms s) \<or>
      (\<exists>u. dict_get (om_orders oms2) (o_order_id ord) = Some u \<and> o_filled_quantity u = dec_add (o_filled_quantity ord) (o_filled_quantity ord))"
  proof -
    have "dict_get (om_orders oms1) (t_order_id ?t) = Some ord" "o_order_id ord = t_order_id ?t" using ord(2) by (simp_all only: t)
    from record_fills[OF this, of oenv] show ?thesis unfolding b t snd_conv ord(3) .
  qed
  have full: "o_status ord = FILLED \<longrightarrow> o_quantity ord < dec_add (o_filled_quantity ord) (o_filled_quantity ord)"
    using q twice_exceeds[of "o_filled_quantity ord"] by auto
  have oms: "pp_oms s1 = oms2" "pp_trades s1 = pp_trades s @ [?t]" "pp_positions s1 = update_position ?t (pp_positions s)"
    by (simp_all add: s1 keep_trade_def)
  show "let refused = (dict_get (om_orders (pp_oms s1)) (o_order_id ord) = Some ord \<and>
                    applied_events (pp_oms s1) = applied_events (pp_oms s));
         fill = o_filled_quantity ord in
     0 < fill \<and>
     (\<exists>t. pp_trades s1 = pp_trades s @ [t] \<and> t_order_id t = o_order_id ord \<and> t_quantity t = fill \<and>
          pp_positions s1 = update_position t (pp_positions s)) \<and>
     (refused \<or> (\<exists>u. dict_get (om_orders (pp_oms s1)) (o_order_id ord) = Some u \<and> o_filled_quantity u = dec_add fill fill)) \<and>
     (o_quantity ord < dec_add fill fill \<longrightarrow> refused) \<and>
     (o_status ord = FILLED \<longrightarrow> fill = o_quantity ord \<and> refused)"
    unfolding Let_def oms using q t refused once full by blast
next
  assume a: "0 < o_quantity rest \<and> dict_get (om_buffer oms) (o_order_id rest) = None"
  let ?o = "limit_filled now rest"
  let ?t = "limit_trade n now ?o"
  have id: "o_order_id ?o = o_order_id rest" "o_quantity ?o = o_quantity rest" "t_order_id ?t = o_order_id rest"
    "o_filled_quantity ?o = o_quantity rest" "t_quantity ?t = o_quantity rest"
    by (simp_all add: limit_filled_def order_new_def limit_trade_def paper_trade_def)
  obtain x oms1 where u: "upsert_order oenv ?o oms = (x, oms1)" by (metis prod.exhaust)
  note us = upsert_stores[OF _ u]
  have big: "o_quantity ?o < dec_add (o_filled_quantity ?o) (t_quantity ?t)" using twice_exceeds[of "o_quantity rest"] a by (simp add: id)
  show "applied_events (snd (tell_oms oenv [(?o, ?t)] oms)) = applied_events oms"
  proof (cases x)
    case None
    have "applied_events (snd (record_trade oenv ?t oms1)) = applied_events oms"
      using record_refused(1)[of oms1 ?t ?o oenv] us big None a by (simp add: id)
    then show ?thesis using u None by (cases "record_trade oenv ?t oms1") (auto split: sum.split)
  next
    case (Some e)
    then show ?thesis using u us a by (simp add: id)
  qed
qed

definition sample_paper_env :: paper_env where
  "sample_paper_env =
     \<lparr>px_ltp = 100, px_now = Aware 0, px_bps = 0, px_ratio = 1, px_outside_hours = True, px_market_open = False,
      px_fresh = ''f1'', px_intent = ''x''\<rparr>"

definition sample_request :: paper_request where
  "sample_request =
     \<lparr>pr_symbol = ''infy'', pr_exchange = ''NSE'', pr_side = BUY, pr_quantity = 10, pr_price = 0, pr_order_type = MARKET,
      pr_product_type = INTRADAY, pr_validity = DAY, pr_trigger_price = 0, pr_correlation_id = Some ''c9''\<rparr>"

definition sample_paper_command :: command where
  "sample_paper_command = \<lparr>cm_symbol = ''INFY'', cm_exchange = ''NSE'', cm_side = BUY, cm_quantity = 10, cm_price = 0,
     cm_order_type = MARKET, cm_product_type = INTRADAY, cm_correlation_id = ''c9''\<rparr>"

definition sample_paper :: "unit paper" where
  "sample_paper = paper_new [] sample_oms"

lemma sample_paper_facts:
  "map_sum id o_status (fst (paper_place sample_oms_env sample_paper_env sample_request sample_paper)) = Inr FILLED"
  "paper_command sample_paper_env (Suc (pp_order_seq sample_paper)) sample_request = Inr sample_paper_command"
  "fst (check_and_reserve sample_oms_env (px_fresh sample_paper_env) (cm_correlation_id sample_paper_command) (pp_oms sample_paper)) =
     Inr (Inr ''OM-f1'')"
  by code_simp+

lemma sample_paper_start: "pp_trades sample_paper = []" "applied_events (pp_oms sample_paper) = []" "pr_order_type sample_request = MARKET"
  by code_simp+

theorem paper_fill_never_counted_once_witness:
  "\<exists>ord s1. paper_place sample_oms_env sample_paper_env sample_request sample_paper = (Inr ord, s1) \<and>
     length (pp_trades s1) = 1 \<and> o_filled_quantity ord = o_quantity ord \<and> applied_events (pp_oms s1) = []"
proof -
  obtain ord s1 where p: "paper_place sample_oms_env sample_paper_env sample_request sample_paper = (Inr ord, s1)" "o_status ord = FILLED"
    using sample_paper_facts(1)
    by (cases "paper_place sample_oms_env sample_paper_env sample_request sample_paper"; cases "fst (paper_place sample_oms_env sample_paper_env sample_request sample_paper)") auto
  have f: "o_status ord \<in> {FILLED, PARTIALLY_FILLED}" using p(2) by simp
  obtain oms0 where c: "check_and_reserve sample_oms_env (px_fresh sample_paper_env) (cm_correlation_id sample_paper_command) (pp_oms sample_paper) =
     (Inr (Inr ''OM-f1''), oms0)" using sample_paper_facts(3) by (metis prod.collapse)
  from paper_fill_never_counted_once[THEN conjunct1, rule_format, OF conjI[OF p(1) conjI[OF sample_paper_start(3) conjI[OF f conjI[OF sample_paper_facts(2) c]]]]]
  show ?thesis using p sample_paper_start(1,2) unfolding Let_def by auto
qed

text \<open>
  C21: a placement that is repeated is filled again. Under a correlation id that the order manager
  already knows, whatever became of its order, a market order to the paper broker makes one more
  trade of the whole quantity and moves the position by it; the order manager is handed this
  trade under the id of the known order, and nothing else.
\<close>

theorem paper_repeat_fills_again:
  "paper_command env (Suc (pp_order_seq s)) r = Inr c \<and> get_order_by_correlation (pp_oms s) (cm_correlation_id c) = Some known \<and>
   pr_order_type r = MARKET \<and> fills_allowed_now env (pr_exchange r) \<longrightarrow>
   (let s1 = snd (paper_place oenv env r s) in
    \<exists>t. pp_trades s1 = pp_trades s @ [t] \<and> t_side t = pr_side r \<and> t_quantity t = of_int (paper_quantity env r) \<and>
        0 < paper_quantity env r \<and> (o_order_id known \<noteq> [] \<longrightarrow> t_order_id t = o_order_id known) \<and>
        pp_positions s1 = update_position t (pp_positions s) \<and> pp_oms s1 = snd (record_trade oenv t (pp_oms s)))"
proof (intro impI)
  assume a: "paper_command env (Suc (pp_order_seq s)) r = Inr c \<and> get_order_by_correlation (pp_oms s) (cm_correlation_id c) = Some known \<and>
   pr_order_type r = MARKET \<and> fills_allowed_now env (pr_exchange r)"
  let ?n = "Suc (pp_order_seq s)"
  let ?o = "paper_fill env r ?n c"
  let ?ord = "if o_order_id known = [] then ?o else ?o\<lparr>o_order_id := o_order_id known\<rparr>"
  let ?t = "paper_trade (Suc (pp_trade_seq s)) (px_now env) (pr_symbol r) (pr_exchange r) (pr_side r) (pr_product_type r) ?ord (paper_price env r)"
  have pos: "0 < paper_quantity env r"
    using a by (auto simp: paper_command_def paper_quantity_def partial_fill_quantity_def Let_def split: if_splits)
  have o: "o_status ?ord \<in> {FILLED, PARTIALLY_FILLED}" "o_filled_quantity ?ord = of_int (paper_quantity env r)"
    using a by (auto simp: paper_fill_def Let_def)
  have "paper_place oenv env r s = paper_execute oenv env r ?ord (s\<lparr>pp_order_seq := ?n\<rparr>)"
    using a by (simp add: paper_place_def Let_def)
  then have x: "snd (paper_place oenv env r s) =
      (keep_trade ?t (s\<lparr>pp_order_seq := ?n, pp_orders := pp_orders s @ [?ord]\<rparr>))\<lparr>pp_oms := snd (record_trade oenv ?t (pp_oms s))\<rparr>"
    using a o(1) by (simp add: paper_execute_def Let_def split: prod.split sum.split)
  have t: "t_side ?t = pr_side r" "t_quantity ?t = of_int (paper_quantity env r)" "o_order_id known \<noteq> [] \<longrightarrow> t_order_id ?t = o_order_id known"
    using o(2) by (simp_all add: paper_trade_def)
  show "let s1 = snd (paper_place oenv env r s) in
    \<exists>t. pp_trades s1 = pp_trades s @ [t] \<and> t_side t = pr_side r \<and> t_quantity t = of_int (paper_quantity env r) \<and>
        0 < paper_quantity env r \<and> (o_order_id known \<noteq> [] \<longrightarrow> t_order_id t = o_order_id known) \<and>
        pp_positions s1 = update_position t (pp_positions s) \<and> pp_oms s1 = snd (record_trade oenv t (pp_oms s))"
    unfolding Let_def x by (intro exI[of _ ?t]) (use pos t in \<open>simp add: keep_trade_def\<close>)
qed

text \<open>The order known under the id was rejected.\<close>

definition sample_rejected_paper :: "unit paper" where
  "sample_rejected_paper =
     sample_paper\<lparr>pp_oms := sample_oms\<lparr>om_by_corr := [(''c9'', order_of_command ''R1'' sample_paper_command REJECTED (Aware 0))]\<rparr>\<rparr>"

lemma sample_rejected_facts:
  "paper_command sample_paper_env (Suc (pp_order_seq sample_rejected_paper)) sample_request = Inr sample_paper_command"
  "get_order_by_correlation (pp_oms sample_rejected_paper) (cm_correlation_id sample_paper_command) =
     Some (order_of_command ''R1'' sample_paper_command REJECTED (Aware 0))"
  "fills_allowed_now sample_paper_env (pr_exchange sample_request)" "pp_trades sample_rejected_paper = []"
  "paper_quantity sample_paper_env sample_request = 10"
  by code_simp+

theorem paper_repeat_fills_again_witness:
  "\<exists>t. pp_trades (snd (paper_place sample_oms_env sample_paper_env sample_request sample_rejected_paper)) = [t] \<and>
     t_order_id t = ''R1'' \<and> t_quantity t = 10"
  using paper_repeat_fills_again[of sample_paper_env sample_rejected_paper sample_request sample_paper_command
      "order_of_command ''R1'' sample_paper_command REJECTED (Aware 0)" sample_oms_env] sample_rejected_facts sample_paper_start(3)
  by (auto simp: Let_def order_of_command_def order_new_def)

end
