(* ===== verification/Spec2Isabelle.thy ===== *)
theory Spec2Isabelle
  imports Primitives Execution_Targets Reconciliation Historical_Data Quota Candles Streams Instrument_Id Lifecycle
    Circuit_Breaker Rate_Limiter Event_Bus Order_Authority Fund_Allocator Paper_Orders
begin

text \<open>
  A verification library for the trading core of the repository: what happens between a
  scanner's candidate and a position that agrees with the broker. All paths below are under
  \<open>src/src/\<close>.

  \<^bold>\<open>The program.\<close> A candidate reaches the trading orchestrator, which asks the strategies for
  signals, plans orders and hands commands to the order manager. The order manager reserves
  the correlation id, asks the risk manager, writes the intent to the execution ledger, calls
  the broker and keeps the order book. Fills come back as trades: the trade recorder checks
  them against the processed trades, moves the order through the fill reducer and its state
  machine, and publishes the applied trade on the event bus, where the position manager and the
  daily profit tracker listen. Reconciliation compares both books with the broker's, heals them
  and opens the gate before which nothing is placed after a restart. Every call to a broker
  goes through a rate limiter, a retry executor and a circuit breaker.

  \<^bold>\<open>Conventions.\<close> A record of the code is a record, an enumeration a datatype, an operation a
  function from the state to a result and a state. An exception is the left value of the
  result and keeps the changes made before it; a swallowed exception is a branch. A
  dictionary is an association list in insertion order. Texts are ASCII. \<open>Decimal\<close> values
  and floats are the rationals they denote, and each operation on them is the exact one
  followed by the rounding of its format; infinities from overflow and subnormal floats are
  not represented. Clock readings, random draws, generated ids and the answers of brokers,
  files and databases are arguments, so a theorem holds for whatever they are.

  \<^bold>\<open>The theories.\<close>

  \<^item> \<^theory_text>\<open>Prelude\<close>: exceptions, dictionaries and their laws (locale \<^theory_text>\<open>kv_store\<close>), string
    methods, and the locales for components that are driven by a sequence of operations
    (\<^theory_text>\<open>invariant_system\<close>, \<^theory_text>\<open>monotone_system\<close>, \<^theory_text>\<open>redelivery\<close>), interpreted on the
    components below. \<^theory_text>\<open>Rounding\<close> and \<^theory_text>\<open>Decimals\<close>: rounding to a floating-point format
    (locale \<^theory_text>\<open>float_format\<close>), with \<open>Decimal\<close> and \<open>float\<close> as its instances.
  \<^item> \<^theory_text>\<open>Primitives\<close>: \<open>domain/primitives/value_objects.py\<close>, tick sizes and coercions.
  \<^item> \<^theory_text>\<open>Order_FSM\<close>: statuses, the state machine, the transition tables, the status mapper
    and the per-order validator (locale \<^theory_text>\<open>lifecycle_table\<close> for both tables).
    \<^theory_text>\<open>Entities\<close>: orders, trades, positions, with the profit arithmetic of fills.
  \<^item> \<^theory_text>\<open>Fills\<close>: \<open>domain/fill_reducer.py\<close>, \<open>domain/simulation.py\<close>, \<open>domain/ledger_recovery.py\<close>.
    \<^theory_text>\<open>Sizing_Plan\<close>: \<open>domain/orders/\<close>, from a signal to sized and sliced intents.
  \<^item> \<^theory_text>\<open>Risk_Policy\<close> and \<^theory_text>\<open>Risk_Manager\<close>: \<open>domain/risk/\<close>, and of
    \<open>application/oms/_internal/\<close> the throttler, the loss circuit breaker, the kill switch, the
    daily profit tracker, the margin checker and the risk manager.
  \<^item> \<^theory_text>\<open>Ledger\<close>: the execution ledger and its SQLite tables (locale \<^theory_text>\<open>intent_ledger\<close>).
    \<^theory_text>\<open>Processed_Trades\<close>: the idempotency ledger of trades with its file.
  \<^item> \<^theory_text>\<open>Trade_Recorder\<close>, \<^theory_text>\<open>Order_Lifecycle\<close>, \<^theory_text>\<open>Order_Manager\<close>: the state of the core and
    the operations of \<open>application/oms/order_manager.py\<close> and its collaborators.
    \<^theory_text>\<open>Placement\<close>: placements by several threads as a step relation, one step per phase
    between two lock acquisitions. \<^theory_text>\<open>Order_Updates\<close>: cancel, modify and broker updates.
  \<^item> \<^theory_text>\<open>Position_Manager\<close>: \<open>application/oms/position_manager.py\<close>, as a refinement of the
    portfolio projector of \<^theory_text>\<open>Fills\<close>.
  \<^item> \<^theory_text>\<open>Desk_Operations\<close>: square-off and shutdown. \<^theory_text>\<open>Reconciliation\<close>: drift detection,
    the reconcilers of both brokers, healing, the periodic service and the placement gate.
    \<^theory_text>\<open>Trading_Loop\<close>: the orchestrator, from the candidate event to the commands.
  \<^item> \<^theory_text>\<open>Circuit_Breaker\<close>, \<^theory_text>\<open>Rate_Limiter\<close>: \<open>infrastructure/resilience/\<close>.
    \<^theory_text>\<open>Event_Bus\<close>: \<open>infrastructure/event_bus/\<close> with publications interleaved as steps.
    \<^theory_text>\<open>Lifecycle\<close>: the manager of background services.
  \<^item> \<^theory_text>\<open>Execution_Targets\<close>: \<open>application/execution/\<close>, where an order goes: a broker's gateway,
    a simulated fill, a backtest, and what comes back; trading costs.
  \<^item> \<^theory_text>\<open>Broker_Routing\<close>: capabilities, the registry of brokers, policies and the router
    (\<open>application/composer/\<close>, \<open>domain/policies/\<close>). \<^theory_text>\<open>Quota\<close>: the scheduler that rations requests
    to a broker.
  \<^item> \<^theory_text>\<open>Order_Authority\<close>: the authority in front of live orders, orders of special kinds and
    the kill switch as the live routes of \<open>interface/api/\<close> reach them, past the order manager.
    \<^theory_text>\<open>Fund_Allocator\<close>: \<open>application/portfolio/fund_allocator.py\<close> with its lock.
    \<^theory_text>\<open>Paper_Orders\<close>: the paper broker (\<open>brokers/providers/paper/\<close>) over the order manager.
  \<^item> \<^theory_text>\<open>Historical_Data\<close>: \<open>application/data/\<close>, a request cut into chunks, fetched, merged and
    checked for gaps. \<^theory_text>\<open>Streams\<close> and \<^theory_text>\<open>Candles\<close>: \<open>application/streaming/\<close>, sessions with their
    transports and subscribers, and the candles made of ticks. \<^theory_text>\<open>Instrument_Id\<close>: the identity
    of an instrument and its text.

  \<^bold>\<open>What the theorems show.\<close> Orders: a correlation id reaches a broker at most once under any
  interleaving (for a day, the life of a reservation), every placement releases what it
  reserved; an order is approved exactly when every limit holds; a restart does not place
  again what the stores remember. Fills: each is applied exactly once, also across failed
  durable marks, redelivery and restarts; the position book is the projector run on the
  accepted trades, and its value is conserved up to the rounding of decimals. Reconciliation:
  no drift is reported exactly when the books agree, and no order is sent before a run without
  drift. The loop: what a candidate can send. Brokers: the router chooses among the eligible
  ones, a request takes one token of each window or none, an answer of a gateway is booked
  under its id. Orders past the order manager: what the authority lets through, that an
  extension is only called for an order the risk manager approves, and that the live routes can
  turn the kill switch on but not off. Pools: which operations return at all. The paper
  broker: its positions are its trades, and which of its fills the order manager applies.
  Services and breakers: the order of starting and stopping, and when a breaker recovers. Data:
  a plan covers each day once, a fetched series is ordered and lists the trading days missing at
  its ends and the planned chunks without a bar, candles are the summaries of their ticks, and transports, sessions
  and subscribers stay matched. Identities: which texts read back. Several theorems state what the code does where
  it departs from its intention; the manifest lists those as findings.

  \<^bold>\<open>Bounds and fuel.\<close> The cutting of a range into chunks and of a quantity into slices are
  \<^theory_text>\<open>partial_function\<close>s, since they do not return for chunks of no day and slices of nothing;
  for others they are proved to. A lock taken twice by its thread is the answer \<open>None\<close>. Every other definition is
  total. The waiting loops of the rate limiter run over
  the list of clock readings they get, the retry loop counts its attempts down, and the number
  of digits and the texts of numbers recurse on the number itself.

  \<^bold>\<open>Not modelled.\<close> Transport and wire formats of the brokers (HTTP clients, web sockets,
  authentication), persistence other than the two ledgers above, the data lake, the analytics
  (pandas pipelines, indicators, backtests), the interfaces (API but for the
  routes above, command line, terminal),
  configuration, logging, metrics and alerting: input and output around the core, or
  computations of libraries that the repository does not contain. The manifest lists them by
  part.
\<close>

end
